(* ===== verification/Httpfs_Prelude.thy ===== *)
theory Httpfs_Prelude
  imports
    Main
    "HOL-Library.Word"
    "HOL-Library.Char_ord"
    "HOL-Library.List_Lexorder"
    "HOL-Library.Product_Lexorder"
    "HOL-Library.Monad_Syntax"
begin

text \<open>
  Shared vocabulary of the development: the exceptions of the code as values, the part of
  \<open>std::string\<close> the code uses on byte strings (a \<open>string\<close> is a list of bytes), and the
  lemma collections that the component theories extend.
\<close>

section \<open>Lemma collections\<close>

named_theorems consumes_input \<open>a parsing routine leaves a shorter, or no longer, rest\<close>
named_theorems session_defs \<open>definitions of the critical sections of a state machine\<close>

section \<open>Exceptions\<close>

text \<open>
  An exception carries its class, the format literal of the throw site and the values that
  are substituted into it. A routine that can throw returns \<open>Inl\<close> of the exception.
\<close>

datatype exn_kind =
    IOException
  | HTTPException
  | InvalidInputException
  | InternalException
  | NotImplementedException
  | OutOfMemoryException

datatype exn = Exn (exn_class: exn_kind) (exn_format: string) (exn_args: "string list")

type_synonym 'a res = "exn + 'a"

definition bind_res :: "'a res \<Rightarrow> ('a \<Rightarrow> 'b res) \<Rightarrow> 'b res" where
  "bind_res r f = (case r of Inl e \<Rightarrow> Inl e | Inr x \<Rightarrow> f x)"

lemma bind_res_simps [simp]:
  "bind_res (Inl e) f = Inl e"
  "bind_res (Inr x) f = f x"
  by (simp_all add: bind_res_def)

lemma bind_res_Inr_iff:
  "bind_res r f = Inr y \<longleftrightarrow> (\<exists>x. r = Inr x \<and> f x = Inr y)"
  by (simp add: bind_res_def split: sum.splits)

text \<open>A critical section that waits on a condition variable is \<open>Blocked\<close> in the states in which it waits.\<close>

datatype 'a outcome = Blocked | Raised exn | Done 'a

section \<open>Byte strings\<close>

type_synonym u64 = "64 word"
type_synonym u32 = "32 word"

lemma unat_u64: "unat (x :: u64) < 18446744073709551616"
  using unsigned_less [of x, where 'a = nat] by simp

lemma unat_u64_add:
  "unat x + unat y < 18446744073709551616 \<Longrightarrow> unat (x + y :: u64) = unat x + unat y"
  using unat_add_lem [of x y] by simp

lemma unat_u64_mult:
  "unat x * unat y < 18446744073709551616 \<Longrightarrow> unat (x * y :: u64) = unat x * unat y"
  using unat_mult_lem [of x y] by simp

text \<open>\<open>starts_with p s\<close> is \<open>s.compare(0, strlen(p), p) == 0\<close>.\<close>

fun starts_with :: "'a list \<Rightarrow> 'a list \<Rightarrow> bool" where
  "starts_with [] s = True"
| "starts_with (p # ps) [] = False"
| "starts_with (p # ps) (c # cs) = (p = c \<and> starts_with ps cs)"

text \<open>\<open>str_find p s\<close> is \<open>s.find(p)\<close>, with \<open>None\<close> for \<open>npos\<close>.\<close>

fun str_find :: "'a list \<Rightarrow> 'a list \<Rightarrow> nat option" where
  "str_find p [] = (if p = [] then Some 0 else None)"
| "str_find p (c # cs) =
     (if starts_with p (c # cs) then Some 0 else map_option Suc (str_find p cs))"

text \<open>\<open>char_find c s\<close> is \<open>s.find(c)\<close> and \<open>find_first_of cs s\<close> is \<open>s.find_first_of(cs)\<close>.\<close>

fun find_first_of :: "'a list \<Rightarrow> 'a list \<Rightarrow> nat option" where
  "find_first_of cs [] = None"
| "find_first_of cs (x # xs) = (if x \<in> set cs then Some 0 else map_option Suc (find_first_of cs xs))"

definition char_find :: "'a \<Rightarrow> 'a list \<Rightarrow> nat option" where
  "char_find c s = find_first_of [c] s"

text \<open>\<open>char_rfind c s\<close> is \<open>s.rfind(c)\<close>.\<close>

fun char_rfind :: "'a \<Rightarrow> 'a list \<Rightarrow> nat option" where
  "char_rfind c [] = None"
| "char_rfind c (x # xs) =
     (case char_rfind c xs of
        Some n \<Rightarrow> Some (Suc n)
      | None \<Rightarrow> if x = c then Some 0 else None)"

text \<open>\<open>substr s pos n\<close> is \<open>s.substr(pos, n)\<close> for \<open>pos \<le> s.size()\<close>.\<close>

definition substr :: "'a list \<Rightarrow> nat \<Rightarrow> nat \<Rightarrow> 'a list" where
  "substr s pos n = take n (drop pos s)"

text \<open>\<open>std::tolower\<close> in the C locale.\<close>

definition std_tolower :: "char \<Rightarrow> char" where
  "std_tolower c = (if CHR ''A'' \<le> c \<and> c \<le> CHR ''Z'' then char_of (of_char c + 32 :: nat) else c)"

lemma std_tolower_idem [simp]: "std_tolower (std_tolower c) = std_tolower c"
proof (cases "CHR ''A'' \<le> c \<and> c \<le> CHR ''Z''")
  case True
  then have "of_char (std_tolower c) = (of_char c + 32 :: nat)" and "(65 :: nat) \<le> of_char c"
    by (auto simp: less_eq_char_def std_tolower_def)
  then have "\<not> std_tolower c \<le> CHR ''Z''"
    by (simp add: less_eq_char_def)
  then show ?thesis
    unfolding std_tolower_def [of "std_tolower c"] by auto
next
  case False
  then have "std_tolower c = c" by (auto simp: std_tolower_def)
  then show ?thesis by simp
qed

lemma starts_with_iff: "starts_with p s \<longleftrightarrow> take (length p) s = p"
  by (induction p s rule: starts_with.induct) auto

lemma starts_with_append [simp]: "starts_with p (p @ s)"
  by (simp add: starts_with_iff)

lemma starts_with_ex: "starts_with p s \<longleftrightarrow> (\<exists>r. s = p @ r)"
  by (metis append_take_drop_id starts_with_append starts_with_iff)

lemma starts_with_length: "starts_with p s \<Longrightarrow> length p \<le> length s"
  by (auto simp: starts_with_ex)

lemma find_first_of_None: "find_first_of cs s = None \<longleftrightarrow> set s \<inter> set cs = {}"
  by (induction s) auto

lemma find_first_of_Some:
  "find_first_of cs s = Some n \<longleftrightarrow>
     n < length s \<and> s ! n \<in> set cs \<and> (\<forall>k < n. s ! k \<notin> set cs)"
proof (induction s arbitrary: n)
  case Nil
  then show ?case by simp
next
  case (Cons x xs)
  then show ?case by (cases n) (auto simp: less_Suc_eq_0_disj)
qed

lemma char_find_None: "char_find c s = None \<longleftrightarrow> c \<notin> set s"
  by (auto simp: char_find_def find_first_of_None)

lemma char_find_Some:
  "char_find c s = Some n \<longleftrightarrow> n < length s \<and> s ! n = c \<and> (\<forall>k < n. s ! k \<noteq> c)"
  by (simp add: char_find_def find_first_of_Some)

lemma char_find_less: "char_find c s = Some n \<Longrightarrow> n < length s"
  by (simp add: char_find_Some)

lemma char_find_append:
  "c \<notin> set xs \<Longrightarrow> char_find c (xs @ c # ys) = Some (length xs)"
  by (auto simp: char_find_Some nth_append)

lemma char_find_split:
  assumes "char_find c s = Some n"
  shows "s = take n s @ c # drop (Suc n) s" "c \<notin> set (take n s)"
  using assms by (auto simp: char_find_Some id_take_nth_drop [symmetric] in_set_conv_nth)

lemma char_rfind_None: "char_rfind c s = None \<longleftrightarrow> c \<notin> set s"
  by (induction s) (auto split: option.splits)

lemma char_rfind_append:
  "c \<notin> set ys \<Longrightarrow> char_rfind c (xs @ c # ys) = Some (length xs)"
  by (induction xs) (auto simp: char_rfind_None split: option.splits)

lemma str_find_Some_drop: "str_find p s = Some n \<Longrightarrow> starts_with p (drop n s)"
  by (induction p s arbitrary: n rule: str_find.induct) (auto split: if_splits)

lemma str_find_length: "str_find p s = Some n \<Longrightarrow> n + length p \<le> length s"
proof (induction p s arbitrary: n rule: str_find.induct)
  case (2 p c cs)
  then show ?case by (auto dest: starts_with_length split: if_splits)
qed (auto split: if_splits)

lemma str_find_None_iff: "str_find p s = None \<longleftrightarrow> (\<forall>k \<le> length s. \<not> starts_with p (drop k s))"
proof (induction p s rule: str_find.induct)
  case (1 p)
  then show ?case by (cases p) auto
next
  case (2 p c cs)
  show ?case
  proof (cases "starts_with p (c # cs)")
    case True
    then show ?thesis by (auto intro!: exI [of _ 0])
  next
    case False
    with 2 have "str_find p (c # cs) = None \<longleftrightarrow> (\<forall>k \<le> length cs. \<not> starts_with p (drop (Suc k) (c # cs)))"
      by simp
    also have "\<dots> \<longleftrightarrow> (\<forall>k \<le> length (c # cs). \<not> starts_with p (drop k (c # cs)))"
      using False by (auto simp: less_Suc_eq_le) (metis Suc_le_mono drop_Suc_Cons drop0 not0_implies_Suc)
    finally show ?thesis .
  qed
qed

lemma takeWhile_dropWhile_stop:
  assumes "\<forall>x \<in> set xs. P x" and "ys = [] \<or> \<not> P (hd ys)"
  shows "takeWhile P (xs @ ys) = xs" "dropWhile P (xs @ ys) = ys"
  using assms by (induction xs; cases ys; auto)+

end
