(* ===== verification/Xml_Syntax.thy ===== *)
theory Xml_Syntax
  imports Httpfs_Prelude
begin

text \<open>
  The lexical layer of \<open>S3XMLReader\<close> (src/src/s3/s3_xml_response.cpp): characters, names,
  references, attribute values, the XML declaration, comments and namespaces.

  A routine of the reader advances \<open>position\<close> over \<open>input\<close>. The model passes the unread rest
  of the input instead, \<open>input.substr(position)\<close>, and returns the rest it leaves. A routine
  that returns \<open>false\<close> is \<open>None\<close>: the reader is discarded then, whatever it had consumed.
\<close>

section \<open>The UTF-8 library\<close>

text \<open>
  \<open>Utf8Proc\<close> is a library of DuckDB outside this repository. \<open>UTF8ToCodepoint\<close> yields the code
  point at the head of the input and its \<open>sz\<close> out parameter, at least 1, which the model keeps
  as the number of bytes after the first.
\<close>

record utf8proc =
  IsValid :: "string \<Rightarrow> bool"
  UTF8ToCodepoint :: "string \<Rightarrow> int \<times> nat"
  CodepointToUtf8 :: "int \<Rightarrow> string option"

section \<open>Characters\<close>

abbreviation AMP :: char where "AMP \<equiv> CHR ''&''"
abbreviation LT :: char where "LT \<equiv> CHR ''<''"
abbreviation GT :: char where "GT \<equiv> CHR ''>''"
abbreviation QUOT :: char where "QUOT \<equiv> CHR 0x22"
abbreviation APOS :: char where "APOS \<equiv> CHR 0x27"
abbreviation CR :: char where "CR \<equiv> CHR 0x0D"

definition IsXMLWhitespace :: "char \<Rightarrow> bool" where
  "IsXMLWhitespace v \<longleftrightarrow> v = CHR '' '' \<or> v = CHR 0x09 \<or> v = CHR 0x0D \<or> v = CHR 0x0A"

definition IsNameStart :: "char \<Rightarrow> bool" where
  "IsNameStart v \<longleftrightarrow>
     (CHR ''A'' \<le> v \<and> v \<le> CHR ''Z'') \<or> (CHR ''a'' \<le> v \<and> v \<le> CHR ''z'') \<or> v = CHR ''_''"

definition IsNameCharacter :: "char \<Rightarrow> bool" where
  "IsNameCharacter v \<longleftrightarrow>
     IsNameStart v \<or> (CHR ''0'' \<le> v \<and> v \<le> CHR ''9'') \<or> v = CHR ''.'' \<or> v = CHR ''-''"

definition IsXMLCharacter :: "int \<Rightarrow> bool" where
  "IsXMLCharacter cp \<longleftrightarrow>
     cp = 0x9 \<or> cp = 0xA \<or> cp = 0xD \<or> (0x20 \<le> cp \<and> cp \<le> 0xD7FF) \<or>
     (0xE000 \<le> cp \<and> cp \<le> 0xFFFD) \<or> (0x10000 \<le> cp \<and> cp \<le> 0x10FFFF)"

text \<open>The loop of \<open>ValidateCharacters\<close> over the code points of the input.\<close>

function ValidateCodepoints :: "utf8proc \<Rightarrow> string \<Rightarrow> bool" where
  "ValidateCodepoints U s =
     (if s = [] then True
      else if \<not> IsXMLCharacter (fst (UTF8ToCodepoint U s)) then False
      else ValidateCodepoints U (drop (Suc (snd (UTF8ToCodepoint U s))) s))"
  by pat_completeness auto
termination
  by (relation "measure (\<lambda>(U, s). length s)") auto

declare ValidateCodepoints.simps [simp del]

definition ValidateCharacters :: "utf8proc \<Rightarrow> string \<Rightarrow> bool" where
  "ValidateCharacters U s \<longleftrightarrow> IsValid U s \<and> ValidateCodepoints U s"

definition SkipWhitespace :: "string \<Rightarrow> string" where
  "SkipWhitespace s = dropWhile IsXMLWhitespace s"

section \<open>Names\<close>

record S3XMLQualifiedName =
  qn_prefix :: string
  qn_local_name :: string

record S3XMLAttribute =
  attr_name :: S3XMLQualifiedName
  attr_value :: string

record S3XMLNamespaceBinding =
  ns_prefix :: string
  ns_uri :: string

definition ParseQualifiedName :: "string \<Rightarrow> (S3XMLQualifiedName \<times> string) option" where
  "ParseQualifiedName s =
     (case s of
        [] \<Rightarrow> None
      | c # cs \<Rightarrow>
          if \<not> IsNameStart c then None
          else
            let first = c # takeWhile IsNameCharacter cs;
                r = dropWhile IsNameCharacter cs
            in if r = [] \<or> hd r \<noteq> CHR '':''
               then Some (\<lparr>qn_prefix = [], qn_local_name = first\<rparr>, r)
               else
                 (case tl r of
                    [] \<Rightarrow> None
                  | d # ds \<Rightarrow>
                      if \<not> IsNameStart d then None
                      else
                        let local = d # takeWhile IsNameCharacter ds;
                            r' = dropWhile IsNameCharacter ds
                        in if r' = [] \<or> hd r' \<noteq> CHR '':''
                           then Some (\<lparr>qn_prefix = first, qn_local_name = local\<rparr>, r')
                           else None))"

definition SameName :: "S3XMLQualifiedName \<Rightarrow> S3XMLQualifiedName \<Rightarrow> bool" where
  "SameName left right \<longleftrightarrow>
     qn_prefix left = qn_prefix right \<and> qn_local_name left = qn_local_name right"

section \<open>References\<close>

definition CharDifference :: "char \<Rightarrow> char \<Rightarrow> u32" where
  "CharDifference c d = of_int (int (of_char c) - int (of_char d))"

definition ReferenceDigit :: "u32 \<Rightarrow> char \<Rightarrow> u32 option" where
  "ReferenceDigit base current =
     (if CHR ''0'' \<le> current \<and> current \<le> CHR ''9'' then
        Some (CharDifference current (CHR ''0''))
      else if base = 16 \<and> CHR ''a'' \<le> current \<and> current \<le> CHR ''f'' then
        Some (CharDifference current (CHR ''a'') + 10)
      else if base = 16 \<and> CHR ''A'' \<le> current \<and> current \<le> CHR ''F'' then
        Some (CharDifference current (CHR ''A'') + 10)
      else None)"

fun ReferenceDigits :: "u32 \<Rightarrow> u32 \<Rightarrow> string \<Rightarrow> u32 option" where
  "ReferenceDigits base codepoint [] = Some codepoint"
| "ReferenceDigits base codepoint (c # cs) =
     (case ReferenceDigit base c of
        None \<Rightarrow> None
      | Some digit \<Rightarrow>
          if base \<le> digit \<or> (0x10FFFF - digit) div base < codepoint then None
          else ReferenceDigits base (codepoint * base + digit) cs)"

text \<open>The numeric reference \<open>#...\<close> or \<open>#x...\<close>; the argument is what follows the \<open>#\<close>.\<close>

definition NumericReference :: "string \<Rightarrow> u32 option" where
  "NumericReference ds =
     (let hex = (ds \<noteq> [] \<and> hd ds = CHR ''x'');
          base = (if hex then 16 else 10);
          digits = (if hex then tl ds else ds)
      in if digits = [] then None else ReferenceDigits base 0 digits)"

definition ParseReference :: "utf8proc \<Rightarrow> string \<Rightarrow> (string \<times> string) option" where
  "ParseReference U s =
     (if s = [] \<or> hd s \<noteq> AMP then None
      else case char_find (CHR '';'') (tl s) of
        None \<Rightarrow> None
      | Some n \<Rightarrow>
          let reference = take n (tl s); r = drop (Suc n) (tl s)
          in if reference = ''lt'' then Some ([LT], r)
             else if reference = ''gt'' then Some ([GT], r)
             else if reference = ''amp'' then Some ([AMP], r)
             else if reference = ''apos'' then Some ([APOS], r)
             else if reference = ''quot'' then Some ([QUOT], r)
             else if reference = [] \<or> hd reference \<noteq> CHR ''#'' then None
             else (case NumericReference (tl reference) of
                     None \<Rightarrow> None
                   | Some codepoint \<Rightarrow>
                       if \<not> IsXMLCharacter (sint codepoint) then None
                       else map_option (\<lambda>encoded. (encoded, r))
                              (CodepointToUtf8 U (sint codepoint))))"


lemma SkipWhitespace_length: "length (SkipWhitespace s) \<le> length s"
  by (simp add: SkipWhitespace_def length_dropWhile_le)

lemma ParseQualifiedName_length [consumes_input]:
  assumes "ParseQualifiedName s = Some (n, r)"
  shows "length r < length s"
proof -
  obtain c cs where s: "s = c # cs"
    using assms by (cases s) (auto simp: ParseQualifiedName_def)
  have a: "length (dropWhile IsNameCharacter xs) \<le> length xs" for xs
    by (rule length_dropWhile_le)
  have b: "length (dropWhile IsNameCharacter ds) < Suc (length cs)"
    if "tl (dropWhile IsNameCharacter cs) = d # ds" for d ds
    using a [of cs] a [of ds] arg_cong [OF that, of length] by simp
  show ?thesis
    using assms a [of cs]
    by (auto simp: s ParseQualifiedName_def Let_def le_imp_less_Suc
        split: if_splits list.splits dest: b)
qed

lemma ParseReference_length [consumes_input]:
  "ParseReference U s = Some (e, r) \<Longrightarrow> length r < length s"
  by (cases s)
     (auto simp: ParseReference_def Let_def split: if_splits option.splits dest!: char_find_less)

section \<open>Attribute values\<close>

function AttributeValueLoop ::
  "utf8proc \<Rightarrow> char \<Rightarrow> string \<Rightarrow> string \<Rightarrow> (string \<times> string) option" where
  "AttributeValueLoop U quote v s =
     (if s = [] then None
      else if hd s = quote then Some (v, tl s)
      else if hd s = LT then None
      else if hd s = AMP then
        (case ParseReference U s of
           None \<Rightarrow> None
         | Some (e, r) \<Rightarrow> AttributeValueLoop U quote (v @ e) r)
      else if IsXMLWhitespace (hd s) then AttributeValueLoop U quote (v @ [CHR '' '']) (tl s)
      else AttributeValueLoop U quote (v @ [hd s]) (tl s))"
  by pat_completeness auto
termination
  by (relation "measure (\<lambda>(U, q, v, s). length s)") (auto dest: ParseReference_length)

declare AttributeValueLoop.simps [simp del]

definition ParseAttributeValue :: "utf8proc \<Rightarrow> string \<Rightarrow> (string \<times> string) option" where
  "ParseAttributeValue U s =
     (if s = [] \<or> (hd s \<noteq> APOS \<and> hd s \<noteq> QUOT) then None
      else AttributeValueLoop U (hd s) [] (tl s))"

fun DeclarationValueLoop :: "char \<Rightarrow> string \<Rightarrow> string \<Rightarrow> (string \<times> string) option" where
  "DeclarationValueLoop quote v [] = None"
| "DeclarationValueLoop quote v (c # cs) =
     (if c = quote then Some (v, cs)
      else if c = LT \<or> c = AMP \<or> \<not> IsNameCharacter c then None
      else DeclarationValueLoop quote (v @ [c]) cs)"

definition ParseDeclarationValue :: "string \<Rightarrow> (string \<times> string) option" where
  "ParseDeclarationValue s =
     (if s = [] \<or> (hd s \<noteq> APOS \<and> hd s \<noteq> QUOT) then None
      else DeclarationValueLoop (hd s) [] (tl s))"

lemma AttributeValueLoop_length:
  "AttributeValueLoop U q v s = Some (v', r) \<Longrightarrow> length r < length s"
proof (induction U q v s rule: AttributeValueLoop.induct)
  case (1 U q v s)
  show ?case
    using 1
    by (subst (asm) (4) AttributeValueLoop.simps)
       (cases s; force split: if_splits option.splits dest: ParseReference_length)
qed

lemma ParseAttributeValue_length [consumes_input]:
  "ParseAttributeValue U s = Some (v, r) \<Longrightarrow> length r < length s"
  by (cases s) (auto simp: ParseAttributeValue_def split: if_splits dest!: AttributeValueLoop_length)

lemma DeclarationValueLoop_length:
  "DeclarationValueLoop q v s = Some (v', r) \<Longrightarrow> length r < length s"
  by (induction q v s rule: DeclarationValueLoop.induct) (auto split: if_splits)

lemma ParseDeclarationValue_length [consumes_input]:
  "ParseDeclarationValue s = Some (v, r) \<Longrightarrow> length r < length s"
  by (cases s)
     (auto simp: ParseDeclarationValue_def split: if_splits dest!: DeclarationValueLoop_length)

section \<open>The XML declaration and comments\<close>

text \<open>The name of an attribute up to its value: name, white space, \<open>=\<close>, white space.\<close>

definition ExpectEquals :: "string \<Rightarrow> string option" where
  "ExpectEquals s =
     (let r = SkipWhitespace s
      in if r = [] \<or> hd r \<noteq> CHR ''='' then None else Some (SkipWhitespace (tl r)))"

lemma ExpectEquals_length [consumes_input]: "ExpectEquals s = Some r \<Longrightarrow> length r < length s"
  using SkipWhitespace_length [of s] SkipWhitespace_length [of "tl (SkipWhitespace s)"]
  by (cases "SkipWhitespace s") (auto simp: ExpectEquals_def Let_def split: if_splits)

definition ParseDeclarationAttribute :: "string \<Rightarrow> (S3XMLAttribute \<times> string) option" where
  "ParseDeclarationAttribute s =
     (case ParseQualifiedName s of
        None \<Rightarrow> None
      | Some (name, r1) \<Rightarrow>
          if qn_prefix name \<noteq> [] then None
          else case ExpectEquals r1 of
            None \<Rightarrow> None
          | Some r2 \<Rightarrow>
              (case ParseDeclarationValue r2 of
                 None \<Rightarrow> None
               | Some (v, r3) \<Rightarrow> Some (\<lparr>attr_name = name, attr_value = v\<rparr>, r3)))"

lemma ParseDeclarationAttribute_length [consumes_input]:
  "ParseDeclarationAttribute s = Some (a, r) \<Longrightarrow> length r < length s"
  by (auto simp: ParseDeclarationAttribute_def split: option.splits if_splits dest!: consumes_input)

function DeclarationLoop ::
  "S3XMLAttribute list \<Rightarrow> string \<Rightarrow> (S3XMLAttribute list \<times> string) option" where
  "DeclarationLoop attributes s =
     (let r = SkipWhitespace s
      in if starts_with ''?>'' r then Some (attributes, drop 2 r)
         else case ParseDeclarationAttribute r of
           None \<Rightarrow> None
         | Some (a, r') \<Rightarrow>
             if \<not> starts_with ''?>'' r' \<and> (r' = [] \<or> \<not> IsXMLWhitespace (hd r')) then None
             else DeclarationLoop (attributes @ [a]) r')"
  by pat_completeness auto
termination
  by (relation "measure (\<lambda>(a, s). length s)")
     (auto dest!: ParseDeclarationAttribute_length intro: less_le_trans SkipWhitespace_length)

declare DeclarationLoop.simps [simp del]

definition CheckDeclarationAttributes :: "S3XMLAttribute list \<Rightarrow> bool" where
  "CheckDeclarationAttributes attributes =
     (case attributes of
        [] \<Rightarrow> False
      | version # rest \<Rightarrow>
          if qn_local_name (attr_name version) \<noteq> ''version'' \<or> attr_value version \<noteq> ''1.0'' then False
          else
            let has_encoding =
                  (rest \<noteq> [] \<and> qn_local_name (attr_name (hd rest)) = ''encoding'');
                rest' = (if has_encoding then tl rest else rest);
                has_standalone =
                  (rest' \<noteq> [] \<and> qn_local_name (attr_name (hd rest')) = ''standalone'');
                rest'' = (if has_standalone then tl rest' else rest')
            in if has_encoding \<and> map std_tolower (attr_value (hd rest)) \<noteq> ''utf-8'' then False
               else if has_standalone \<and> attr_value (hd rest') \<noteq> ''yes''
                       \<and> attr_value (hd rest') \<noteq> ''no'' then False
               else rest'' = [])"

text \<open>The argument starts with \<open><?xml\<close>.\<close>

definition ParseXMLDeclaration :: "string \<Rightarrow> string option" where
  "ParseXMLDeclaration s =
     (let r = drop 5 s
      in if r = [] \<or> \<not> IsXMLWhitespace (hd r) then None
         else case DeclarationLoop [] r of
           None \<Rightarrow> None
         | Some (attributes, r') \<Rightarrow>
             if CheckDeclarationAttributes attributes then Some r' else None)"

text \<open>The argument starts with \<open><!--\<close>.\<close>

definition ParseComment :: "string \<Rightarrow> string option" where
  "ParseComment s =
     (let r = drop 4 s
      in case str_find ''-->'' r of
           None \<Rightarrow> None
         | Some comment_end \<Rightarrow>
             if str_find ''--'' r \<noteq> Some comment_end then None
             else Some (drop (comment_end + 3) r))"

lemma ParseComment_length [consumes_input]:
  "ParseComment s = Some r \<Longrightarrow> length r \<le> length s - 4"
  by (auto simp: ParseComment_def Let_def split: option.splits if_splits)

section \<open>Namespaces\<close>

datatype S3XMLNameType = ELEMENT | ATTRIBUTE

definition XML_NAMESPACE :: string where
  "XML_NAMESPACE = ''http://www.w3.org/XML/1998/namespace''"

definition XMLNS_NAMESPACE :: string where
  "XMLNS_NAMESPACE = ''http://www.w3.org/2000/xmlns/''"

definition DeclaredPrefix :: "S3XMLAttribute \<Rightarrow> string option" where
  "DeclaredPrefix a =
     (if qn_prefix (attr_name a) = [] \<and> qn_local_name (attr_name a) = ''xmlns'' then Some []
      else if qn_prefix (attr_name a) = ''xmlns'' then Some (qn_local_name (attr_name a))
      else None)"

fun ApplyNamespaceDeclarations ::
  "S3XMLNamespaceBinding list \<Rightarrow> S3XMLAttribute list \<Rightarrow> S3XMLNamespaceBinding list option" where
  "ApplyNamespaceDeclarations nss [] = Some nss"
| "ApplyNamespaceDeclarations nss (a # as) =
     (case DeclaredPrefix a of
        None \<Rightarrow> ApplyNamespaceDeclarations nss as
      | Some p \<Rightarrow>
          if p = ''xmlns'' \<or> attr_value a = XMLNS_NAMESPACE then None
          else if p = ''xml'' \<and> attr_value a \<noteq> XML_NAMESPACE then None
          else if p \<noteq> ''xml'' \<and> (attr_value a = XML_NAMESPACE \<or> (p \<noteq> [] \<and> attr_value a = [])) then None
          else ApplyNamespaceDeclarations (nss @ [\<lparr>ns_prefix = p, ns_uri = attr_value a\<rparr>]) as)"

text \<open>The bindings are searched from the last one pushed to the first.\<close>

definition ResolveNamespace ::
  "S3XMLNamespaceBinding list \<Rightarrow> S3XMLQualifiedName \<Rightarrow> S3XMLNameType \<Rightarrow> string option" where
  "ResolveNamespace nss name name_type =
     (if qn_prefix name = ''xmlns'' then None
      else if qn_prefix name = [] \<and> name_type = ATTRIBUTE then Some []
      else case find (\<lambda>b. ns_prefix b = qn_prefix name) (rev nss) of
             Some b \<Rightarrow> Some (ns_uri b)
           | None \<Rightarrow> if qn_prefix name = [] then Some [] else None)"

fun ValidateAttributesLoop ::
  "S3XMLNamespaceBinding list \<Rightarrow> (string \<times> string) list \<Rightarrow> S3XMLAttribute list \<Rightarrow> bool" where
  "ValidateAttributesLoop nss expanded [] = True"
| "ValidateAttributesLoop nss expanded (a # as) =
     (if (qn_prefix (attr_name a) = [] \<and> qn_local_name (attr_name a) = ''xmlns'')
         \<or> qn_prefix (attr_name a) = ''xmlns''
      then ValidateAttributesLoop nss expanded as
      else case ResolveNamespace nss (attr_name a) ATTRIBUTE of
             None \<Rightarrow> False
           | Some uri \<Rightarrow>
               if (uri, qn_local_name (attr_name a)) \<in> set expanded then False
               else ValidateAttributesLoop nss (expanded @ [(uri, qn_local_name (attr_name a))]) as)"

definition ValidateAttributes ::
  "S3XMLNamespaceBinding list \<Rightarrow> S3XMLAttribute list \<Rightarrow> bool" where
  "ValidateAttributes nss attributes = ValidateAttributesLoop nss [] attributes"

lemma ApplyNamespaceDeclarations_extends:
  "ApplyNamespaceDeclarations nss as = Some nss' \<Longrightarrow> \<exists>new. nss' = nss @ new"
  by (induction nss as rule: ApplyNamespaceDeclarations.induct)
     (force split: option.splits if_splits)+

section \<open>A concrete library\<close>

text \<open>The UTF-8 library restricted to ASCII, at which the theorems are applied.\<close>

definition ascii_utf8 :: utf8proc where
  "ascii_utf8 =
     \<lparr>IsValid = list_all (\<lambda>c. of_char c < (128 :: nat)),
      UTF8ToCodepoint = (\<lambda>s. (of_char (hd s), 0)),
      CodepointToUtf8 = (\<lambda>cp. if 0 \<le> cp \<and> cp < 128 then Some [char_of (nat cp)] else None)\<rparr>"

end
