(* ===== verification/Xml_Parser.thy ===== *)
theory Xml_Parser
  imports Xml_Syntax
begin

text \<open>
  The document layer of \<open>S3XMLReader\<close>: text, CDATA, start and end tags and the main loop of
  \<open>ParseDocument\<close>, as functions on the reader's state and the unread rest of the input. The
  vector \<open>elements\<close> is a stack: the model's list has \<open>elements.back()\<close> at its head.
\<close>

section \<open>The reader's state\<close>

datatype S3XMLNode = S3XMLNode
  (node_local_name: string)
  (node_namespace_uri: string)
  (node_text: string)
  (node_children: "S3XMLNode list")

record S3XMLElementFrame =
  frame_name :: S3XMLQualifiedName
  frame_namespace_uri :: string
  frame_text :: string
  namespace_count :: nat
  frame_children :: "S3XMLNode list"

record S3XMLReader =
  root_seen :: bool
  root_closed :: bool
  root :: S3XMLNode
  namespaces :: "S3XMLNamespaceBinding list"
  elements :: "S3XMLElementFrame list"

definition xml_binding :: S3XMLNamespaceBinding where
  "xml_binding = \<lparr>ns_prefix = ''xml'', ns_uri = XML_NAMESPACE\<rparr>"

definition init_reader :: S3XMLReader where
  "init_reader =
     \<lparr>root_seen = False, root_closed = False, root = S3XMLNode [] [] [] [],
      namespaces = [xml_binding], elements = []\<rparr>"

definition MAX_NESTING_DEPTH :: nat where
  "MAX_NESTING_DEPTH = 256"

definition AppendText :: "string \<Rightarrow> S3XMLReader \<Rightarrow> S3XMLReader" where
  "AppendText t rd =
     rd\<lparr>elements :=
       (case elements rd of [] \<Rightarrow> [] | f # fs \<Rightarrow> f\<lparr>frame_text := frame_text f @ t\<rparr> # fs)\<rparr>"

section \<open>Text and CDATA\<close>

text \<open>\<open>k\<close> is the distance \<open>text_end - position\<close>.\<close>

function TextLoop :: "utf8proc \<Rightarrow> nat \<Rightarrow> string \<Rightarrow> string \<Rightarrow> (string \<times> string) option" where
  "TextLoop U k t s =
     (if k = 0 then Some (t, s)
      else if s \<noteq> [] \<and> hd s = AMP then
        (case ParseReference U s of
           None \<Rightarrow> None
         | Some (e, r) \<Rightarrow>
             if k < length s - length r then None
             else TextLoop U (k - (length s - length r)) (t @ e) r)
      else TextLoop U (k - 1) (t @ take 1 s) (tl s))"
  by pat_completeness auto
termination
  by (relation "measure (\<lambda>(U, k, t, s). k)") (auto dest: ParseReference_length)

declare TextLoop.simps [simp del]

definition ParseText :: "utf8proc \<Rightarrow> S3XMLReader \<Rightarrow> string \<Rightarrow> (S3XMLReader \<times> string) option" where
  "ParseText U rd s =
     (let text_end = (case char_find LT s of None \<Rightarrow> length s | Some n \<Rightarrow> n)
      in if elements rd = [] then
           (if list_all IsXMLWhitespace (take text_end s) then Some (rd, drop text_end s) else None)
         else if (case str_find '']]>'' s of None \<Rightarrow> False | Some n \<Rightarrow> n < text_end) then None
         else case TextLoop U text_end [] s of
                None \<Rightarrow> None
              | Some (t, r) \<Rightarrow> Some (AppendText t rd, r))"

text \<open>The argument starts with \<open><![CDATA[\<close>.\<close>

definition ParseCDATA :: "S3XMLReader \<Rightarrow> string \<Rightarrow> (S3XMLReader \<times> string) option" where
  "ParseCDATA rd s =
     (if elements rd = [] then None
      else
        let r = drop 9 s
        in case str_find '']]>'' r of
             None \<Rightarrow> None
           | Some content_end \<Rightarrow>
               Some (AppendText (take content_end r) rd, drop (content_end + 3) r))"

section \<open>Start and end tags\<close>

function StartTagLoop ::
  "utf8proc \<Rightarrow> S3XMLAttribute list \<Rightarrow> string \<Rightarrow> (S3XMLAttribute list \<times> bool \<times> string) option" where
  "StartTagLoop U attributes s =
     (if s = [] then None
      else if hd s = GT then Some (attributes, False, tl s)
      else if hd s = CHR ''/'' \<and> tl s \<noteq> [] \<and> hd (tl s) = GT then Some (attributes, True, tl (tl s))
      else if \<not> IsXMLWhitespace (hd s) then None
      else
        let r = SkipWhitespace s
        in if r = [] \<or> hd r = GT \<or> hd r = CHR ''/'' then StartTagLoop U attributes r
           else case ParseQualifiedName r of
             None \<Rightarrow> None
           | Some (name, r1) \<Rightarrow>
               if list_ex (\<lambda>existing. SameName (attr_name existing) name) attributes then None
               else case ExpectEquals r1 of
                 None \<Rightarrow> None
               | Some r2 \<Rightarrow>
                   (case ParseAttributeValue U r2 of
                      None \<Rightarrow> None
                    | Some (v, r3) \<Rightarrow>
                        StartTagLoop U (attributes @ [\<lparr>attr_name = name, attr_value = v\<rparr>]) r3))"
  by pat_completeness auto

lemma SkipWhitespace_shorter: "s \<noteq> [] \<Longrightarrow> IsXMLWhitespace (hd s) \<Longrightarrow> length (SkipWhitespace s) < length s"
  by (cases s) (auto simp: SkipWhitespace_def length_dropWhile_le less_Suc_eq_le)

termination StartTagLoop
  by (relation "measure (\<lambda>(U, a, s). length s)")
     (auto simp: SkipWhitespace_shorter dest!: consumes_input dest: SkipWhitespace_shorter
        intro: less_trans less_le_trans)

declare StartTagLoop.simps [simp del]

lemma StartTagLoop_length:
  "StartTagLoop U as s = Some (as', sc, r) \<Longrightarrow> length r < length s"
proof (induction U as s rule: StartTagLoop.induct)
  case (1 U as s)
  note [simp] = Let_def
  show ?case
    using 1 SkipWhitespace_shorter [of s]
    by (subst (asm) (3) StartTagLoop.simps)
       (cases s; cases "tl s"; force split: if_splits option.splits dest!: consumes_input)
qed

definition CloseElement :: "S3XMLReader \<Rightarrow> S3XMLReader" where
  "CloseElement rd =
     (case elements rd of
        [] \<Rightarrow> rd
      | frame # fs \<Rightarrow>
          let node = S3XMLNode (qn_local_name (frame_name frame)) (frame_namespace_uri frame)
                       (frame_text frame) (frame_children frame);
              rd' = rd\<lparr>elements := fs, namespaces := take (namespace_count frame) (namespaces rd)\<rparr>
          in case fs of
               [] \<Rightarrow> rd'\<lparr>root := node, root_closed := True\<rparr>
             | parent # gs \<Rightarrow>
                 rd'\<lparr>elements := parent\<lparr>frame_children := frame_children parent @ [node]\<rparr> # gs\<rparr>)"

text \<open>What \<open>ParseStartElement\<close> does once the tag has been read.\<close>

definition OpenElement ::
  "S3XMLReader \<Rightarrow> S3XMLQualifiedName \<Rightarrow> S3XMLAttribute list \<Rightarrow> bool \<Rightarrow> S3XMLReader option" where
  "OpenElement rd name attributes self_closing =
     (let count = length (namespaces rd)
      in case ApplyNamespaceDeclarations (namespaces rd) attributes of
        None \<Rightarrow> None
      | Some nss \<Rightarrow>
          (case ResolveNamespace nss name ELEMENT of
             None \<Rightarrow> None
           | Some uri \<Rightarrow>
               if \<not> ValidateAttributes nss attributes then None
               else if elements rd = [] \<and> root_seen rd then None
               else
                 let frame = \<lparr>frame_name = name, frame_namespace_uri = uri, frame_text = [],
                              namespace_count = count, frame_children = []\<rparr>;
                     rd' = rd\<lparr>root_seen := True, namespaces := nss, elements := frame # elements rd\<rparr>
                 in Some (if self_closing then CloseElement rd' else rd')))"

definition ParseStartElement ::
  "utf8proc \<Rightarrow> S3XMLReader \<Rightarrow> string \<Rightarrow> (S3XMLReader \<times> string) option" where
  "ParseStartElement U rd s =
     (if root_closed rd \<or> MAX_NESTING_DEPTH \<le> length (elements rd) \<or> s = [] \<or> hd s \<noteq> LT then None
      else case ParseQualifiedName (tl s) of
        None \<Rightarrow> None
      | Some (name, r) \<Rightarrow>
          if qn_prefix name = ''xmlns'' then None
          else case StartTagLoop U [] r of
            None \<Rightarrow> None
          | Some (attributes, self_closing, r') \<Rightarrow>
              map_option (\<lambda>rd'. (rd', r')) (OpenElement rd name attributes self_closing))"

definition ParseEndElement :: "S3XMLReader \<Rightarrow> string \<Rightarrow> (S3XMLReader \<times> string) option" where
  "ParseEndElement rd s =
     (case elements rd of
        [] \<Rightarrow> None
      | frame # _ \<Rightarrow>
          (case ParseQualifiedName (drop 2 s) of
             None \<Rightarrow> None
           | Some (name, r) \<Rightarrow>
               let r' = SkipWhitespace r
               in if r' = [] \<or> hd r' \<noteq> GT then None
                  else if \<not> SameName (frame_name frame) name then None
                  else Some (CloseElement rd, tl r')))"

section \<open>The document\<close>

definition ParseStep ::
  "utf8proc \<Rightarrow> S3XMLReader \<Rightarrow> string \<Rightarrow> (S3XMLReader \<times> string) option" where
  "ParseStep U rd s =
     (if hd s \<noteq> LT then ParseText U rd s
      else if starts_with ''<!--'' s then map_option (Pair rd) (ParseComment s)
      else if starts_with ''<![CDATA['' s then ParseCDATA rd s
      else if starts_with ''</'' s then ParseEndElement rd s
      else if starts_with ''<!'' s \<or> starts_with ''<?'' s then None
      else ParseStartElement U rd s)"

lemma TextLoop_length:
  "TextLoop U k t s = Some (t', r) \<Longrightarrow> k \<le> length s \<Longrightarrow> length r = length s - k"
proof (induction U k t s rule: TextLoop.induct)
  case (1 U k t s)
  show ?case
    using 1
    by (subst (asm) (3) TextLoop.simps)
       (force split: if_splits option.splits dest: ParseReference_length)
qed

lemma ParseText_length:
  assumes "ParseText U rd s = Some (rd', r)" "s \<noteq> []" "hd s \<noteq> LT"
  shows "length r < length s"
proof -
  define k where "k = (case char_find LT s of None \<Rightarrow> length s | Some n \<Rightarrow> n)"
  have "0 < k" "k \<le> length s"
    using assms(2,3)
    by (auto simp: k_def char_find_Some hd_conv_nth split: option.splits intro!: gr0I)
  with assms show ?thesis
    by (auto simp: ParseText_def k_def [symmetric] Let_def split: if_splits option.splits
        dest!: TextLoop_length)
qed

lemma ParseStep_length:
  assumes "ParseStep U rd s = Some (rd', r)" "s \<noteq> []"
  shows "length r < length s"
proof -
  have a: "length (drop 2 s) \<le> length s" "length (tl s) \<le> length s" "0 < length s"
    using assms(2) by auto
  show ?thesis
    using assms a ParseText_length [of U rd s rd' r] SkipWhitespace_length
    by (auto simp: ParseStep_def ParseCDATA_def ParseEndElement_def ParseStartElement_def Let_def
        split: if_splits option.splits list.splits
        dest!: consumes_input StartTagLoop_length str_find_length starts_with_length)
       (meson SkipWhitespace_length a(1) le_less_trans less_le_trans diff_le_self less_imp_le)+
qed

function DocumentLoop :: "utf8proc \<Rightarrow> S3XMLReader \<Rightarrow> string \<Rightarrow> S3XMLReader option" where
  "DocumentLoop U rd s =
     (if s = [] then Some rd
      else case ParseStep U rd s of
             None \<Rightarrow> None
           | Some (rd', r) \<Rightarrow> DocumentLoop U rd' r)"
  by pat_completeness auto
termination
  by (relation "measure (\<lambda>(U, rd, s). length s)") (auto dest: ParseStep_length)

declare DocumentLoop.simps [simp del]

definition UTF8_BOM :: string where
  "UTF8_BOM = [CHR 0xEF, CHR 0xBB, CHR 0xBF]"

definition ParseDocument :: "utf8proc \<Rightarrow> string \<Rightarrow> S3XMLNode option" where
  "ParseDocument U input =
     (if \<not> ValidateCharacters U input then None
      else
        let s = (if starts_with UTF8_BOM input then drop 3 input else input)
        in case (if starts_with ''<?xml'' s then ParseXMLDeclaration s else Some s) of
             None \<Rightarrow> None
           | Some r \<Rightarrow>
               (case DocumentLoop U init_reader r of
                  None \<Rightarrow> None
                | Some rd \<Rightarrow>
                    if \<not> root_seen rd \<or> \<not> root_closed rd \<or> elements rd \<noteq> [] then None
                    else Some (root rd)))"

end
