(* ===== verification/Xml_Invariants.thy ===== *)
theory Xml_Invariants
  imports Xml_Parser
begin

text \<open>
  The invariant of the reader's state over the main loop of \<open>ParseDocument\<close>: the stack never
  exceeds the nesting bound, every frame remembers a namespace count from which the bindings
  can be restored, and the subtrees built so far fit under the bound.
\<close>

section \<open>The invariant\<close>

primrec node_depth :: "S3XMLNode \<Rightarrow> nat" where
  "node_depth (S3XMLNode n u t cs) = Suc (foldr max (map node_depth cs) 0)"

fun frames_ok :: "nat \<Rightarrow> S3XMLElementFrame list \<Rightarrow> bool" where
  "frames_ok n [] = (n = 1)"
| "frames_ok n (f # fs) =
     (namespace_count f \<le> n \<and>
      list_all (\<lambda>c. node_depth c + length (f # fs) \<le> MAX_NESTING_DEPTH) (frame_children f) \<and>
      frames_ok (namespace_count f) fs)"

definition reader_inv :: "S3XMLReader \<Rightarrow> bool" where
  "reader_inv rd \<longleftrightarrow>
     length (elements rd) \<le> MAX_NESTING_DEPTH \<and>
     frames_ok (length (namespaces rd)) (elements rd) \<and>
     take 1 (namespaces rd) = [xml_binding] \<and>
     (root_seen rd \<longleftrightarrow> elements rd \<noteq> [] \<or> root_closed rd) \<and>
     (root_closed rd \<longrightarrow> elements rd = [] \<and> node_depth (root rd) \<le> MAX_NESTING_DEPTH)"

lemma foldr_max_le: "foldr max xs (0::nat) \<le> b \<longleftrightarrow> (\<forall>x \<in> set xs. x \<le> b)"
  by (induction xs) auto

lemma node_depth_le: "node_depth (S3XMLNode n u t cs) \<le> Suc b \<longleftrightarrow> (\<forall>c \<in> set cs. node_depth c \<le> b)"
  by (simp add: foldr_max_le)

lemma frames_ok_ge: "frames_ok n fs \<Longrightarrow> 1 \<le> n"
  by (induction n fs rule: frames_ok.induct) auto

lemma reader_inv_init: "reader_inv init_reader"
  by (simp add: reader_inv_def init_reader_def)

lemma AppendText_inv: "reader_inv rd \<Longrightarrow> reader_inv (AppendText t rd)"
  by (auto simp: reader_inv_def AppendText_def split: list.splits)

lemma take_take_one: "1 \<le> n \<Longrightarrow> take 1 (take n xs) = take 1 xs"
  by simp

lemma CloseElement_inv:
  assumes inv: "reader_inv rd" and open_el: "elements rd = f # fs"
  shows "reader_inv (CloseElement rd)"
proof -
  let ?node = "S3XMLNode (qn_local_name (frame_name f)) (frame_namespace_uri f) (frame_text f)
    (frame_children f)"
  from inv open_el have ok: "namespace_count f \<le> length (namespaces rd)"
      "frames_ok (namespace_count f) fs"
      "\<And>c. c \<in> set (frame_children f) \<Longrightarrow> node_depth c + length (f # fs) \<le> MAX_NESTING_DEPTH"
    and len: "length (f # fs) \<le> MAX_NESTING_DEPTH"
    by (auto simp: reader_inv_def list_all_iff)
  have "node_depth ?node \<le> Suc (MAX_NESTING_DEPTH - length (f # fs))"
    unfolding node_depth_le using ok(3) by fastforce
  then have depth: "node_depth ?node + length fs \<le> MAX_NESTING_DEPTH"
    using len by simp
  from ok(2) have "1 \<le> namespace_count f" by (rule frames_ok_ge)
  with inv open_el ok(1,2) depth len show ?thesis
    by (auto simp: reader_inv_def CloseElement_def Let_def take_take_one min_def
        simp del: node_depth.simps split: list.splits)
qed

lemma OpenElement_inv:
  assumes inv: "reader_inv rd" and step: "OpenElement rd name as sc = Some rd'"
    and room: "length (elements rd) < MAX_NESTING_DEPTH" and not_closed: "\<not> root_closed rd"
  shows "reader_inv rd'"
proof -
  from step obtain nss uri where
      nss: "ApplyNamespaceDeclarations (namespaces rd) as = Some nss" and
      rd': "rd' = (let frame = \<lparr>frame_name = name, frame_namespace_uri = uri, frame_text = [],
                     namespace_count = length (namespaces rd), frame_children = []\<rparr>;
                   opened = rd\<lparr>root_seen := True, namespaces := nss,
                     elements := frame # elements rd\<rparr>
               in if sc then CloseElement opened else opened)"
    by (auto simp: OpenElement_def Let_def split: option.splits if_splits)
  obtain new where new: "nss = namespaces rd @ new"
    using ApplyNamespaceDeclarations_extends [OF nss] by blast
  let ?frame = "\<lparr>frame_name = name, frame_namespace_uri = uri, frame_text = [],
                 namespace_count = length (namespaces rd), frame_children = []\<rparr>"
  let ?opened = "rd\<lparr>root_seen := True, namespaces := nss, elements := ?frame # elements rd\<rparr>"
  have "1 \<le> length (namespaces rd)"
    using inv frames_ok_ge by (auto simp: reader_inv_def)
  with inv room not_closed new have "reader_inv ?opened"
    by (simp add: reader_inv_def)
  then show ?thesis
    using CloseElement_inv [of ?opened ?frame "elements rd"] by (simp add: rd' Let_def)
qed

lemma ParseStep_inv:
  assumes "reader_inv rd" "ParseStep U rd s = Some (rd', r)"
  shows "reader_inv rd'"
  using assms
  by (auto simp: ParseStep_def ParseText_def ParseCDATA_def ParseEndElement_def
      ParseStartElement_def Let_def AppendText_inv CloseElement_inv
      not_le split: if_splits option.splits list.splits intro: OpenElement_inv)

lemma DocumentLoop_inv:
  "reader_inv rd \<Longrightarrow> DocumentLoop U rd s = Some rd' \<Longrightarrow> reader_inv rd'"
proof (induction U rd s rule: DocumentLoop.induct)
  case (1 U rd s)
  then show ?case
    by (subst (asm) (2) DocumentLoop.simps)
       (auto split: if_splits option.splits dest: ParseStep_inv)
qed

section \<open>Properties of the parsed document\<close>

text \<open>
  C37: every document the reader accepts has a tree at most 256 levels deep, however deeply the
  server's response nests its tags.
\<close>

theorem ParseDocument_depth:
  assumes "ParseDocument U input = Some node"
  shows "node_depth node \<le> 256"
proof -
  from assms obtain s rd where "DocumentLoop U init_reader s = Some rd"
      "root_closed rd" "node = root rd"
    by (auto simp: ParseDocument_def Let_def split: if_splits option.splits)
  moreover from this have "reader_inv rd"
    by (auto intro: DocumentLoop_inv reader_inv_init)
  ultimately show ?thesis by (simp add: reader_inv_def MAX_NESTING_DEPTH_def)
qed

theorem ParseDocument_depth_witness:
  "node_depth (S3XMLNode ''a'' [] [] [S3XMLNode ''b'' [] ''x'' []]) \<le> 256"
proof -
  have "ParseDocument ascii_utf8 ''<a><b>x</b></a>'' =
      Some (S3XMLNode ''a'' [] [] [S3XMLNode ''b'' [] ''x'' []])"
    by code_simp
  then show ?thesis by (rule ParseDocument_depth)
qed

text \<open>
  At any point of the document where no element is open the bindings in scope are those of
  the empty context again: declarations of an element are dropped when it is closed, also when
  it is self-closing.
\<close>

theorem DocumentLoop_namespaces:
  assumes "DocumentLoop U init_reader s = Some rd" "elements rd = []"
  shows "namespaces rd = [xml_binding]"
proof -
  have "reader_inv rd"
    using assms(1) by (auto intro: DocumentLoop_inv reader_inv_init)
  with assms(2) have "length (namespaces rd) = 1" "take 1 (namespaces rd) = [xml_binding]"
    by (auto simp: reader_inv_def)
  then show ?thesis by simp
qed

theorem DocumentLoop_namespaces_witness:
  "map_option namespaces (DocumentLoop ascii_utf8 init_reader
     (''<a xmlns:p='' @ QUOT # ''u'' @ QUOT # ''><p:b/></a>'')) = Some [xml_binding]"
proof -
  have "map_option elements (DocumentLoop ascii_utf8 init_reader
     (''<a xmlns:p='' @ QUOT # ''u'' @ QUOT # ''><p:b/></a>'')) = Some []"
    by code_simp
  then show ?thesis by (auto dest: DocumentLoop_namespaces)
qed

end
