(* ===== verification/Xml_Response.thy ===== *)
theory Xml_Response
  imports Xml_Invariants
begin

text \<open>
  What \<open>S3XMLReader\<close> reads off the tree of an accepted document: the multipart and error
  responses, a page of \<open>ListObjectsV2\<close> and the result of a bulk delete, and the entry points
  \<open>TryParse...\<close> of \<open>S3XMLResponseParser\<close> (src/src/s3/s3_xml_response.cpp). A routine of the code
  that returns \<open>false\<close> is \<open>None\<close>; its out parameter is the value of \<open>Some\<close>.
\<close>

section \<open>Results\<close>

datatype S3XMLResponseType = XML_UNKNOWN | MULTIPART_INITIALIZATION | MULTIPART_COMPLETION | XML_ERROR

record S3XMLResponse =
  response_type :: S3XMLResponseType
  response_upload_id :: string
  response_etag :: string
  response_error_code :: string
  response_error_message :: string
  response_error_access_key_id :: string

record S3XMLError =
  error_code :: string
  error_message :: string
  error_access_key_id :: string

record S3ListObjectsV2Object =
  object_key :: string
  object_last_modified :: string
  object_etag :: string
  object_size :: string

record S3ListObjectsV2Result =
  list_objects :: "S3ListObjectsV2Object list"
  list_common_prefixes :: "string list"
  list_continuation_token :: string

record S3DeleteObjectsError =
  delete_error_key :: string
  delete_error_code :: string
  delete_error_message :: string

section \<open>Children by name\<close>

definition S3_NAMESPACE :: string where
  "S3_NAMESPACE = ''http://s3.amazonaws.com/doc/2006-03-01/''"

definition GCS_S3_NAMESPACE :: string where
  "GCS_S3_NAMESPACE = ''http://doc.s3.amazonaws.com/2006-03-01''"

definition GCS_STORAGE_NAMESPACE :: string where
  "GCS_STORAGE_NAMESPACE = ''http://doc.storage.googleapis.com/2010-03-01''"

definition HasSupportedNamespace :: "S3XMLNode \<Rightarrow> bool" where
  "HasSupportedNamespace node \<longleftrightarrow>
     (let uri = node_namespace_uri node
      in uri = [] \<or> uri = S3_NAMESPACE \<or> uri = GCS_S3_NAMESPACE \<or> uri = GCS_S3_NAMESPACE @ ''/''
         \<or> uri = GCS_STORAGE_NAMESPACE \<or> uri = GCS_STORAGE_NAMESPACE @ ''/'')"

datatype ChildTextResult = CHILD_MISSING | CHILD_FOUND | CHILD_INVALID

definition ChildMatches :: "string \<Rightarrow> string \<Rightarrow> S3XMLNode \<Rightarrow> bool" where
  "ChildMatches uri local_name child \<longleftrightarrow>
     node_local_name child = local_name \<and> node_namespace_uri child = uri"

fun ChildTextLoop ::
  "string \<Rightarrow> string \<Rightarrow> S3XMLNode list \<Rightarrow> nat \<Rightarrow> string \<Rightarrow> ChildTextResult \<times> string" where
  "ChildTextLoop uri local_name [] matches result =
     (if matches > 1 then CHILD_INVALID else if matches = 1 then CHILD_FOUND else CHILD_MISSING,
      result)"
| "ChildTextLoop uri local_name (child # rest) matches result =
     (if \<not> ChildMatches uri local_name child then ChildTextLoop uri local_name rest matches result
      else if node_children child \<noteq> [] then (CHILD_INVALID, result)
      else ChildTextLoop uri local_name rest (Suc matches) (node_text child))"

text \<open>The out parameter \<open>result\<close> keeps its value unless a matching leaf is met.\<close>

definition GetChildText ::
  "S3XMLNode \<Rightarrow> string \<Rightarrow> string \<Rightarrow> string \<Rightarrow> ChildTextResult \<times> string" where
  "GetChildText parent uri local_name result =
     ChildTextLoop uri local_name (node_children parent) 0 result"

definition GetOptionalChildText :: "S3XMLNode \<Rightarrow> string \<Rightarrow> string \<Rightarrow> string \<Rightarrow> string option" where
  "GetOptionalChildText parent uri local_name result =
     (case GetChildText parent uri local_name result of
        (r, t) \<Rightarrow> if r = CHILD_INVALID then None else Some t)"

section \<open>Interpretation of the tree\<close>

definition init_response :: S3XMLResponse where
  "init_response =
     \<lparr>response_type = XML_UNKNOWN, response_upload_id = [], response_etag = [],
      response_error_code = [], response_error_message = [], response_error_access_key_id = []\<rparr>"

definition FoundTextOrEmpty :: "S3XMLNode \<Rightarrow> string \<Rightarrow> string" where
  "FoundTextOrEmpty node local_name =
     (case GetChildText node (node_namespace_uri node) local_name [] of
        (r, t) \<Rightarrow> if r \<noteq> CHILD_FOUND then [] else t)"

definition InterpretResponse :: "S3XMLNode \<Rightarrow> S3XMLResponse" where
  "InterpretResponse node =
     (let response = init_response; uri = node_namespace_uri node
      in if \<not> HasSupportedNamespace node then response
         else if node_local_name node = ''InitiateMultipartUploadResult'' then
           (case GetChildText node uri ''UploadId'' [] of
              (r, t) \<Rightarrow>
                response\<lparr>response_upload_id := t,
                  response_type := if r = CHILD_FOUND \<and> t \<noteq> [] then MULTIPART_INITIALIZATION
                                   else XML_UNKNOWN\<rparr>)
         else if node_local_name node = ''CompleteMultipartUploadResult'' then
           (case GetChildText node uri ''ETag'' [] of
              (r, t) \<Rightarrow>
                response\<lparr>response_etag := t,
                  response_type := if r = CHILD_FOUND \<and> t \<noteq> [] then MULTIPART_COMPLETION
                                   else XML_UNKNOWN\<rparr>)
         else if node_local_name node \<noteq> ''Error'' then response
         else response\<lparr>response_type := XML_ERROR,
                response_error_code := FoundTextOrEmpty node ''Code'',
                response_error_message := FoundTextOrEmpty node ''Message'',
                response_error_access_key_id := FoundTextOrEmpty node ''AWSAccessKeyId''\<rparr>)"

definition InterpretListObject :: "string \<Rightarrow> S3XMLNode \<Rightarrow> S3ListObjectsV2Object option" where
  "InterpretListObject uri child =
     (case GetChildText child uri ''Key'' [] of
        (r, key) \<Rightarrow>
          if r \<noteq> CHILD_FOUND \<or> key = [] then None
          else do {
            last_modified \<leftarrow> GetOptionalChildText child uri ''LastModified'' [];
            etag \<leftarrow> GetOptionalChildText child uri ''ETag'' [];
            size \<leftarrow> GetOptionalChildText child uri ''Size'' [];
            Some \<lparr>object_key = key, object_last_modified = last_modified, object_etag = etag,
                  object_size = size\<rparr>
          })"

fun ListObjectsLoop ::
  "string \<Rightarrow> S3XMLNode list \<Rightarrow> S3ListObjectsV2Result \<Rightarrow> S3ListObjectsV2Result option" where
  "ListObjectsLoop uri [] result = Some result"
| "ListObjectsLoop uri (child # rest) result =
     (if node_namespace_uri child \<noteq> uri then ListObjectsLoop uri rest result
      else if node_local_name child = ''Contents'' then
        (case InterpretListObject uri child of
           None \<Rightarrow> None
         | Some object \<Rightarrow>
             ListObjectsLoop uri rest (result\<lparr>list_objects := list_objects result @ [object]\<rparr>))
      else if node_local_name child = ''CommonPrefixes'' then
        (case GetChildText child uri ''Prefix'' [] of
           (r, p) \<Rightarrow>
             if r = CHILD_INVALID then None
             else if r = CHILD_FOUND \<and> p \<noteq> [] then
               ListObjectsLoop uri rest
                 (result\<lparr>list_common_prefixes := list_common_prefixes result @ [p]\<rparr>)
             else ListObjectsLoop uri rest result)
      else ListObjectsLoop uri rest result)"

definition InterpretListObjectsV2 :: "S3XMLNode \<Rightarrow> S3ListObjectsV2Result option" where
  "InterpretListObjectsV2 node =
     (if \<not> HasSupportedNamespace node \<or> node_local_name node \<noteq> ''ListBucketResult'' then None
      else case GetOptionalChildText node (node_namespace_uri node) ''NextContinuationToken'' [] of
             None \<Rightarrow> None
           | Some token \<Rightarrow>
               ListObjectsLoop (node_namespace_uri node) (node_children node)
                 \<lparr>list_objects = [], list_common_prefixes = [], list_continuation_token = token\<rparr>)"

definition InterpretDeleteError :: "string \<Rightarrow> S3XMLNode \<Rightarrow> S3DeleteObjectsError option" where
  "InterpretDeleteError uri child =
     (case GetChildText child uri ''Key'' [] of
        (kr, key) \<Rightarrow>
          if kr \<noteq> CHILD_FOUND \<or> key = [] then None
          else case GetChildText child uri ''Code'' [] of
            (cr, code) \<Rightarrow>
              if cr \<noteq> CHILD_FOUND \<or> code = [] then None
              else map_option
                     (\<lambda>message. \<lparr>delete_error_key = key, delete_error_code = code,
                                  delete_error_message = message\<rparr>)
                     (GetOptionalChildText child uri ''Message'' []))"

fun DeleteObjectsLoop ::
  "string \<Rightarrow> S3XMLNode list \<Rightarrow> S3DeleteObjectsError list \<Rightarrow> S3DeleteObjectsError list option" where
  "DeleteObjectsLoop uri [] errors = Some errors"
| "DeleteObjectsLoop uri (child # rest) errors =
     (if node_namespace_uri child \<noteq> uri \<or> node_local_name child \<noteq> ''Error'' then
        DeleteObjectsLoop uri rest errors
      else case InterpretDeleteError uri child of
             None \<Rightarrow> None
           | Some e \<Rightarrow> DeleteObjectsLoop uri rest (errors @ [e]))"

definition InterpretDeleteObjects :: "S3XMLNode \<Rightarrow> S3DeleteObjectsError list option" where
  "InterpretDeleteObjects node =
     (if \<not> HasSupportedNamespace node \<or> node_local_name node \<noteq> ''DeleteResult'' then None
      else DeleteObjectsLoop (node_namespace_uri node) (node_children node) [])"

section \<open>Entry points\<close>

definition TryParse :: "utf8proc \<Rightarrow> string \<Rightarrow> S3XMLResponse option" where
  "TryParse U input = map_option InterpretResponse (ParseDocument U input)"

definition TryParseError :: "utf8proc \<Rightarrow> string \<Rightarrow> S3XMLError option" where
  "TryParseError U input =
     (case TryParse U input of
        None \<Rightarrow> None
      | Some response \<Rightarrow>
          if response_type response \<noteq> XML_ERROR then None
          else Some \<lparr>error_code = response_error_code response,
                     error_message = response_error_message response,
                     error_access_key_id = response_error_access_key_id response\<rparr>)"

definition TryParseListObjectsV2 :: "utf8proc \<Rightarrow> string \<Rightarrow> S3ListObjectsV2Result option" where
  "TryParseListObjectsV2 U input = Option.bind (ParseDocument U input) InterpretListObjectsV2"

definition TryParseDeleteObjects :: "utf8proc \<Rightarrow> string \<Rightarrow> S3DeleteObjectsError list option" where
  "TryParseDeleteObjects U input = Option.bind (ParseDocument U input) InterpretDeleteObjects"


section \<open>Which child a text comes from\<close>

lemma ChildTextLoop_found:
  "fst (ChildTextLoop uri n cs m res) = CHILD_FOUND \<longleftrightarrow>
     m + length (filter (ChildMatches uri n) cs) = 1 \<and>
     list_all (\<lambda>c. node_children c = []) (filter (ChildMatches uri n) cs)"
  by (induction uri n cs m res rule: ChildTextLoop.induct) auto

lemma ChildTextLoop_text:
  "fst (ChildTextLoop uri n cs m res) = CHILD_FOUND \<Longrightarrow>
     snd (ChildTextLoop uri n cs m res) =
       (if filter (ChildMatches uri n) cs = [] then res
        else node_text (last (filter (ChildMatches uri n) cs)))"
  by (induction uri n cs m res rule: ChildTextLoop.induct) (auto split: if_splits)

lemma ChildTextLoop_missing:
  "ChildTextLoop uri n cs m res = (CHILD_MISSING, t) \<longleftrightarrow>
     m = 0 \<and> filter (ChildMatches uri n) cs = [] \<and> t = res"
  by (induction uri n cs m res rule: ChildTextLoop.induct) (auto split: if_splits)

lemma GetChildText_found_iff:
  "GetChildText parent uri n res = (CHILD_FOUND, t) \<longleftrightarrow>
     (\<exists>c. filter (ChildMatches uri n) (node_children parent) = [c] \<and> node_children c = [] \<and>
          t = node_text c)"
  using ChildTextLoop_text [of uri n "node_children parent" 0 res]
    ChildTextLoop_found [of uri n "node_children parent" 0 res]
  by (cases "ChildTextLoop uri n (node_children parent) 0 res")
     (auto simp: GetChildText_def length_Suc_conv)

text \<open>
  \<open>GetChildText\<close> reports \<open>FOUND\<close> exactly when one child carries the name in the parent's
  namespace and that child is a leaf, and then its text is the result; a duplicated element or
  one with children of its own is never taken for a value.
\<close>

theorem GetChildText_found:
  "GetChildText parent uri n res = (CHILD_FOUND, t) \<longleftrightarrow>
     (\<exists>c. filter (ChildMatches uri n) (node_children parent) = [c] \<and> node_children c = [] \<and>
          t = node_text c)"
  by (rule GetChildText_found_iff)

text \<open>
  An upload id is only ever reported from a document whose root is the multipart
  initialization result of a supported namespace, and it is the non-empty text of the only
  \<open>UploadId\<close> element of that root.
\<close>

theorem TryParse_upload_id:
  assumes "TryParse U input = Some response"
    and "response_type response = MULTIPART_INITIALIZATION"
  shows "\<exists>node c. ParseDocument U input = Some node \<and> HasSupportedNamespace node \<and>
    node_local_name node = ''InitiateMultipartUploadResult'' \<and>
    filter (ChildMatches (node_namespace_uri node) ''UploadId'') (node_children node) = [c] \<and>
    node_children c = [] \<and> response_upload_id response = node_text c \<and> node_text c \<noteq> []"
proof -
  from assms(1) obtain node where node: "ParseDocument U input = Some node"
      "response = InterpretResponse node"
    by (auto simp: TryParse_def)
  then show ?thesis
    using assms(2)
    by (auto simp: InterpretResponse_def init_response_def Let_def GetChildText_found_iff
        split: if_splits prod.splits)
qed

theorem TryParse_upload_id_witness:
  "\<exists>node c. ParseDocument ascii_utf8 ''<InitiateMultipartUploadResult><UploadId>u1</UploadId></InitiateMultipartUploadResult>'' = Some node \<and>
    HasSupportedNamespace node \<and>
    node_local_name node = ''InitiateMultipartUploadResult'' \<and>
    filter (ChildMatches (node_namespace_uri node) ''UploadId'') (node_children node) = [c] \<and>
    node_children c = [] \<and> ''u1'' = node_text c \<and> node_text c \<noteq> []"
proof -
  have "TryParse ascii_utf8
      ''<InitiateMultipartUploadResult><UploadId>u1</UploadId></InitiateMultipartUploadResult>'' =
      Some (init_response\<lparr>response_type := MULTIPART_INITIALIZATION, response_upload_id := ''u1''\<rparr>)"
    by code_simp
  from TryParse_upload_id [OF this] show ?thesis
    by simp
qed

lemma ListObjectsLoop_spec:
  "ListObjectsLoop uri cs result = Some result' \<Longrightarrow>
     \<exists>new. list_objects result' = list_objects result @ new \<and>
       list_all2 (\<lambda>c object. InterpretListObject uri c = Some object)
         (filter (ChildMatches uri ''Contents'') cs) new \<and>
       list_continuation_token result' = list_continuation_token result"
  by (induction uri cs result rule: ListObjectsLoop.induct)
     (fastforce simp: ChildMatches_def split: if_splits option.splits prod.splits)+

lemma ListObjectsLoop_prefixes:
  "ListObjectsLoop uri cs result = Some result' \<Longrightarrow>
     list_common_prefixes result' = list_common_prefixes result @
       concat (map (\<lambda>c. case GetChildText c uri ''Prefix'' [] of
                         (r, p) \<Rightarrow> if r = CHILD_FOUND \<and> p \<noteq> [] then [p] else [])
         (filter (ChildMatches uri ''CommonPrefixes'') cs))"
  by (induction uri cs result rule: ListObjectsLoop.induct)
     (auto simp: ChildMatches_def split: if_splits option.splits prod.splits)

text \<open>
  A page of \<open>ListObjectsV2\<close> that is accepted lists one object for every \<open>Contents\<close>
  element of the response, in the order of the response, none with an empty key, and exactly the
  non-empty prefixes of its \<open>CommonPrefixes\<close> elements.
\<close>

theorem ListObjectsV2_objects:
  assumes "InterpretListObjectsV2 node = Some result"
  shows "list_all2 (\<lambda>c object. InterpretListObject (node_namespace_uri node) c = Some object \<and>
             object_key object \<noteq> [])
           (filter (ChildMatches (node_namespace_uri node) ''Contents'') (node_children node))
           (list_objects result) \<and>
         list_common_prefixes result =
           concat (map (\<lambda>c. case GetChildText c (node_namespace_uri node) ''Prefix'' [] of
                             (r, p) \<Rightarrow> if r = CHILD_FOUND \<and> p \<noteq> [] then [p] else [])
             (filter (ChildMatches (node_namespace_uri node) ''CommonPrefixes'') (node_children node)))"
proof -
  have key: "object_key object \<noteq> []" if "InterpretListObject uri c = Some object" for uri c object
    using that by (auto simp: InterpretListObject_def split: if_splits prod.splits bind_splits)
  from assms obtain token where "ListObjectsLoop (node_namespace_uri node) (node_children node)
      \<lparr>list_objects = [], list_common_prefixes = [], list_continuation_token = token\<rparr> = Some result"
    by (auto simp: InterpretListObjectsV2_def split: if_splits option.splits)
  from ListObjectsLoop_spec [OF this] ListObjectsLoop_prefixes [OF this] show ?thesis
    by (auto intro: list_all2_mono dest: key)
qed

theorem ListObjectsV2_objects_witness:
  "list_all2 (\<lambda>c object. InterpretListObject [] c = Some object \<and> object_key object \<noteq> [])
     [S3XMLNode ''Contents'' [] [] [S3XMLNode ''Key'' [] ''k'' []]]
     [\<lparr>object_key = ''k'', object_last_modified = [], object_etag = [], object_size = []\<rparr>]"
proof -
  let ?c = "S3XMLNode ''Contents'' [] [] [S3XMLNode ''Key'' [] ''k'' []]"
  have "InterpretListObjectsV2 (S3XMLNode ''ListBucketResult'' [] [] [?c]) =
      Some \<lparr>list_objects = [\<lparr>object_key = ''k'', object_last_modified = [], object_etag = [],
                             object_size = []\<rparr>],
            list_common_prefixes = [], list_continuation_token = []\<rparr>"
    by code_simp
  from ListObjectsV2_objects [OF this] show ?thesis
    by (simp add: ChildMatches_def)
qed

end
