(* ===== verification/Xml_Writer.thy ===== *)
theory Xml_Writer
  imports Xml_Response
begin

text \<open>
  \<open>S3XMLWriter\<close> (src/src/s3/s3_xml_response.cpp): the bodies of the bulk delete and the multipart
  completion requests. The lemmas run the reader's model over what the writer's model produces:
  any text survives escaping and parsing, and the two bodies parse to the tree of their keys and
  ETags.
\<close>

section \<open>The writer\<close>

fun EscapeCharacter :: "char \<Rightarrow> string" where
  "EscapeCharacter v =
     (if v = AMP then ''&amp;''
      else if v = LT then ''&lt;''
      else if v = GT then ''&gt;''
      else if v = CR then ''&#13;''
      else [v])"

definition EscapeText :: "string \<Rightarrow> string" where
  "EscapeText t = concat (map EscapeCharacter t)"

text \<open>\<open>std::to_string\<close> of an unsigned integer.\<close>

fun to_string :: "nat \<Rightarrow> string" where
  "to_string n =
     (if n < 10 then [char_of (48 + n)] else to_string (n div 10) @ [char_of (48 + n mod 10)])"

declare to_string.simps [simp del]

definition DELETE_REQUEST_HEADER :: string where
  "DELETE_REQUEST_HEADER =
     ''<?xml version='' @ [QUOT] @ ''1.0'' @ [QUOT] @ '' encoding='' @ [QUOT] @ ''UTF-8'' @ [QUOT]
     @ ''?><Delete xmlns='' @ [QUOT] @ ''http://s3.amazonaws.com/doc/2006-03-01/'' @ [QUOT] @ ''>''"

definition WriteDeleteObject :: "string \<Rightarrow> string" where
  "WriteDeleteObject key = ''<Object><Key>'' @ EscapeText key @ ''</Key></Object>''"

text \<open>\<open>begin\<close> and \<open>end\<close> are within the keys, as the assertion of the code demands.\<close>

definition WriteDeleteObjectsRequest :: "string list \<Rightarrow> nat \<Rightarrow> nat \<Rightarrow> string" where
  "WriteDeleteObjectsRequest keys begin_idx end_idx =
     DELETE_REQUEST_HEADER
     @ concat (map (\<lambda>key_index. WriteDeleteObject (keys ! key_index)) [begin_idx..<end_idx])
     @ ''<Quiet>true</Quiet></Delete>''"

definition WritePart :: "string \<Rightarrow> nat \<Rightarrow> string" where
  "WritePart etag part_index =
     ''<Part><ETag>'' @ EscapeText etag @ ''</ETag><PartNumber>'' @ to_string (part_index + 1)
     @ ''</PartNumber></Part>''"

definition WriteCompleteMultipartUploadRequest :: "string list \<Rightarrow> string" where
  "WriteCompleteMultipartUploadRequest etags =
     ''<CompleteMultipartUpload xmlns='' @ [QUOT] @ ''http://s3.amazonaws.com/doc/2006-03-01/''
     @ [QUOT] @ ''>''
     @ concat (map (\<lambda>part_index. WritePart (etags ! part_index) part_index) [0..<length etags])
     @ ''</CompleteMultipartUpload>''"

section \<open>Escaped text is read back\<close>

text \<open>
  What the round trips need of the UTF-8 library: the encoding of the code point 13, the only
  one the writer emits as a numeric reference, is the byte 13.
\<close>

definition encodes_cr :: "utf8proc \<Rightarrow> bool" where
  "encodes_cr U \<longleftrightarrow> CodepointToUtf8 U 13 = Some [CR]"

lemma EscapeText_simps [simp]:
  "EscapeText [] = []"
  "EscapeText (c # t) = EscapeCharacter c @ EscapeText t"
  by (simp_all add: EscapeText_def)

lemma EscapeText_append: "EscapeText (s @ t) = EscapeText s @ EscapeText t"
  by (simp add: EscapeText_def)

lemma EscapeText_no_markup: "LT \<notin> set (EscapeText t)" "GT \<notin> set (EscapeText t)"
  by (induction t) auto

lemma EscapeText_empty_iff: "EscapeText t = [] \<longleftrightarrow> t = []"
  by (cases t) auto

lemma char_find_Cons:
  "char_find c (x # xs) = (if x = c then Some 0 else map_option Suc (char_find c xs))"
  by (simp add: char_find_def)

lemma ParseReference_entities:
  "ParseReference U (AMP # ''amp;'' @ r) = Some ([AMP], r)"
  "ParseReference U (AMP # ''lt;'' @ r) = Some ([LT], r)"
  "ParseReference U (AMP # ''gt;'' @ r) = Some ([GT], r)"
  by (simp_all add: ParseReference_def char_find_Cons)

lemma ParseReference_cr:
  assumes "encodes_cr U"
  shows "ParseReference U (AMP # ''#13;'' @ r) = Some ([CR], r)"
proof -
  have "NumericReference ''13'' = Some 13"
    by code_simp
  moreover have "IsXMLCharacter 13" "sint (13 :: u32) = 13"
    by (simp_all add: IsXMLCharacter_def)
  ultimately show ?thesis
    using assms by (simp add: ParseReference_def char_find_Cons encodes_cr_def)
qed

lemma TextLoop_reference:
  assumes "ParseReference U (AMP # e @ s) = Some (d, s)"
  shows "TextLoop U (Suc (length e) + k) t (AMP # e @ s) = TextLoop U k (t @ d) s"
  using assms by (subst TextLoop.simps) simp

lemma TextLoop_plain:
  assumes "c \<noteq> AMP"
  shows "TextLoop U (Suc k) t (c # s) = TextLoop U k (t @ [c]) s"
  using assms by (subst TextLoop.simps) simp

lemma TextLoop_EscapeText:
  assumes U: "encodes_cr U"
  shows "TextLoop U (length (EscapeText v)) t (EscapeText v @ s) = Some (t @ v, s)"
proof (induction v arbitrary: t)
  case Nil
  show ?case by (simp add: TextLoop.simps)
next
  case (Cons c v)
  let ?k = "length (EscapeText v)" and ?s = "EscapeText v @ s"
  consider "c = AMP" | "c = LT" | "c = GT" | "c = CR"
    | "c \<noteq> AMP" "c \<noteq> LT" "c \<noteq> GT" "c \<noteq> CR" by blast
  then show ?case
  proof cases
    case 1
    then show ?thesis
      using TextLoop_reference [OF ParseReference_entities(1) [of U ?s], of ?k t] Cons
      by (simp add: numeral_eq_Suc)
  next
    case 2
    then show ?thesis
      using TextLoop_reference [OF ParseReference_entities(2) [of U ?s], of ?k t] Cons
      by (simp add: numeral_eq_Suc)
  next
    case 3
    then show ?thesis
      using TextLoop_reference [OF ParseReference_entities(3) [of U ?s], of ?k t] Cons
      by (simp add: numeral_eq_Suc)
  next
    case 4
    then show ?thesis
      using TextLoop_reference [OF ParseReference_cr [OF U, of ?s], of ?k t] Cons
      by (simp add: numeral_eq_Suc)
  next
    case 5
    then show ?thesis
      using TextLoop_plain [of c U ?k t ?s] Cons by simp
  qed
qed

lemma char_find_EscapeText: "char_find LT (EscapeText t @ LT # r) = Some (length (EscapeText t))"
  using EscapeText_no_markup(1) by (rule char_find_append)

text \<open>A CDATA end cannot begin inside escaped text that a tag follows.\<close>

lemma no_cdata_end:
  assumes "GT \<notin> set e" "str_find '']]>'' (e @ LT # r) = Some n"
  shows "length e \<le> n"
proof (rule ccontr)
  assume "\<not> length e \<le> n"
  then have n: "n < length e" by simp
  have "starts_with '']]>'' (drop n e @ LT # r)"
    using str_find_Some_drop [OF assms(2)] n by simp
  moreover have "GT \<notin> set (drop n e)" "drop n e \<noteq> []"
    using assms(1) n by (auto dest: in_set_dropD)
  ultimately show False
    by (cases "drop n e"; cases "tl (drop n e)"; cases "tl (tl (drop n e))") auto
qed

lemma ParseText_EscapeText:
  assumes "encodes_cr U" "elements rd \<noteq> []"
  shows "ParseText U rd (EscapeText t @ LT # r) = Some (AppendText t rd, LT # r)"
  using assms TextLoop_EscapeText [OF assms(1), of t "[]" "LT # r"]
  by (auto simp: ParseText_def char_find_EscapeText Let_def split: option.splits
      dest: no_cdata_end [OF EscapeText_no_markup(2)])

end
