(* ===== verification/Xml_Roundtrip.thy ===== *)
theory Xml_Roundtrip
  imports Xml_Writer
begin

text \<open>
  The round trip between \<open>S3XMLWriter\<close> and \<open>S3XMLReader\<close>: lemmas that run the main loop of the
  reader over one tag, one leaf element and one composite element, and the two theorems that
  the request bodies parse to the tree of their keys, respectively of their ETags.
\<close>

section \<open>Tags\<close>

definition name_ok :: "string \<Rightarrow> bool" where
  "name_ok n \<longleftrightarrow> n \<noteq> [] \<and> IsNameStart (hd n) \<and> list_all IsNameCharacter n"

definition default_ns :: "S3XMLNamespaceBinding list \<Rightarrow> string" where
  "default_ns nss = (case find (\<lambda>b. ns_prefix b = []) (rev nss) of Some b \<Rightarrow> ns_uri b | None \<Rightarrow> [])"

definition add_child :: "S3XMLNode \<Rightarrow> S3XMLReader \<Rightarrow> S3XMLReader" where
  "add_child c rd =
     rd\<lparr>elements := (case elements rd of
          [] \<Rightarrow> []
        | f # fs \<Rightarrow> f\<lparr>frame_children := frame_children f @ [c]\<rparr> # fs)\<rparr>"

text \<open>Inside an element with room for \<open>d\<close> more levels.\<close>

definition in_element :: "nat \<Rightarrow> S3XMLReader \<Rightarrow> bool" where
  "in_element d rd \<longleftrightarrow>
     root_seen rd \<and> \<not> root_closed rd \<and> elements rd \<noteq> [] \<and>
     length (elements rd) + d \<le> MAX_NESTING_DEPTH"

definition opened_with :: "string \<Rightarrow> string \<Rightarrow> S3XMLNode list \<Rightarrow> S3XMLReader \<Rightarrow> S3XMLReader" where
  "opened_with n t cs rd =
     rd\<lparr>root_seen := True,
        elements := \<lparr>frame_name = \<lparr>qn_prefix = [], qn_local_name = n\<rparr>,
                     frame_namespace_uri = default_ns (namespaces rd), frame_text = t,
                     namespace_count = length (namespaces rd), frame_children = cs\<rparr> # elements rd\<rparr>"

abbreviation opened :: "string \<Rightarrow> S3XMLReader \<Rightarrow> S3XMLReader" where
  "opened n \<equiv> opened_with n [] []"

lemma AppendText_opened [simp]: "AppendText t (opened_with n [] cs rd) = opened_with n t cs rd"
  by (simp add: AppendText_def opened_with_def)

lemma add_child_opened [simp]:
  "add_child c (opened_with n t cs rd) = opened_with n t (cs @ [c]) rd"
  by (simp add: add_child_def opened_with_def)

lemma fold_add_child_opened:
  "fold add_child cs (opened_with n t ds rd) = opened_with n t (ds @ cs) rd"
  by (induction cs arbitrary: ds) simp_all

lemma AppendText_Nil: "AppendText [] rd = rd"
  by (cases rd) (simp add: AppendText_def split: list.split)

lemma NameStart_not_special:
  "IsNameStart c \<Longrightarrow> c \<noteq> CHR ''!'' \<and> c \<noteq> CHR ''?'' \<and> c \<noteq> CHR ''/''"
  by (auto simp: IsNameStart_def)

lemma GT_not_name: "\<not> IsNameCharacter GT"
  by (simp add: IsNameCharacter_def IsNameStart_def)

lemma ParseQualifiedName_simple:
  assumes "name_ok n" "r = [] \<or> \<not> IsNameCharacter (hd r) \<and> hd r \<noteq> CHR '':''"
  shows "ParseQualifiedName (n @ r) = Some (\<lparr>qn_prefix = [], qn_local_name = n\<rparr>, r)"
proof -
  obtain c cs where n: "n = c # cs" "IsNameStart c" "\<forall>x \<in> set cs. IsNameCharacter x"
    using assms(1) by (cases n) (auto simp: name_ok_def list_all_iff)
  have "takeWhile IsNameCharacter (cs @ r) = cs" "dropWhile IsNameCharacter (cs @ r) = r"
    using takeWhile_dropWhile_stop [of cs IsNameCharacter r] n(3) assms(2) by auto
  with n(1,2) assms(2) show ?thesis
    by (auto simp: ParseQualifiedName_def Let_def)
qed

lemma ResolveNamespace_default:
  "ResolveNamespace nss \<lparr>qn_prefix = [], qn_local_name = n\<rparr> ELEMENT = Some (default_ns nss)"
  by (simp add: ResolveNamespace_def default_ns_def split: option.splits)

lemma ParseStep_open:
  assumes "name_ok n" "\<not> root_closed rd" "length (elements rd) < MAX_NESTING_DEPTH"
    and "elements rd = [] \<Longrightarrow> \<not> root_seen rd"
  shows "ParseStep U rd (LT # n @ GT # r) = Some (opened n rd, r)"
proof -
  obtain c cs where n: "n = c # cs" "c \<noteq> CHR ''!''" "c \<noteq> CHR ''?''" "c \<noteq> CHR ''/''"
    using assms(1) NameStart_not_special by (cases n) (auto simp: name_ok_def)
  have "ParseQualifiedName (n @ GT # r) = Some (\<lparr>qn_prefix = [], qn_local_name = n\<rparr>, GT # r)"
    using assms(1) by (rule ParseQualifiedName_simple) (simp add: GT_not_name)
  moreover have "StartTagLoop U [] (GT # r) = Some ([], False, r)"
    by (simp add: StartTagLoop.simps)
  ultimately have "ParseStartElement U rd (LT # n @ GT # r) = Some (opened n rd, r)"
    using assms(2-4)
    by (auto simp: ParseStartElement_def OpenElement_def ResolveNamespace_default
        ValidateAttributes_def opened_with_def)
  then show ?thesis
    using n by (simp add: ParseStep_def)
qed

lemma ParseStep_close:
  assumes "name_ok n" "elements rd = f # fs"
    and "frame_name f = \<lparr>qn_prefix = [], qn_local_name = n\<rparr>"
  shows "ParseStep U rd (LT # CHR ''/'' # n @ GT # r) = Some (CloseElement rd, r)"
proof -
  have "ParseQualifiedName (n @ GT # r) = Some (\<lparr>qn_prefix = [], qn_local_name = n\<rparr>, GT # r)"
    using assms(1) by (rule ParseQualifiedName_simple) (simp add: GT_not_name)
  then have "ParseEndElement rd (LT # CHR ''/'' # n @ GT # r) = Some (CloseElement rd, r)"
    using assms(2,3)
    by (simp add: ParseEndElement_def SkipWhitespace_def IsXMLWhitespace_def SameName_def)
  then show ?thesis
    by (simp add: ParseStep_def)
qed

section \<open>Elements\<close>

lemma DocumentLoop_step:
  "ParseStep U rd s = Some (rd', r) \<Longrightarrow> s \<noteq> [] \<Longrightarrow> DocumentLoop U rd s = DocumentLoop U rd' r"
  by (subst DocumentLoop.simps) simp

lemma DocumentLoop_text:
  assumes "encodes_cr U" "elements rd \<noteq> []"
  shows "DocumentLoop U rd (EscapeText t @ LT # r) = DocumentLoop U (AppendText t rd) (LT # r)"
proof (cases "t = []")
  case True
  then show ?thesis by (simp add: AppendText_Nil)
next
  case False
  then have "EscapeText t \<noteq> []" by (simp add: EscapeText_empty_iff)
  moreover from this have "hd (EscapeText t @ LT # r) \<noteq> LT"
    using EscapeText_no_markup(1) [of t] by (cases "EscapeText t") auto
  ultimately show ?thesis
    using ParseText_EscapeText [OF assms, of t r]
    by (intro DocumentLoop_step) (simp_all add: ParseStep_def)
qed

lemma DocumentLoop_close:
  assumes "name_ok n" "in_element 0 rd"
  shows "DocumentLoop U (opened_with n t cs rd) (LT # CHR ''/'' # n @ GT # r) =
         DocumentLoop U (add_child (S3XMLNode n (default_ns (namespaces rd)) t cs) rd) r"
proof -
  have "ParseStep U (opened_with n t cs rd) (LT # CHR ''/'' # n @ GT # r) =
      Some (CloseElement (opened_with n t cs rd), r)"
    by (rule ParseStep_close [OF assms(1)]) (simp add: opened_with_def, simp)
  moreover have "CloseElement (opened_with n t cs rd) =
      add_child (S3XMLNode n (default_ns (namespaces rd)) t cs) rd"
    using assms(2)
    by (cases "elements rd"; cases rd)
       (simp_all add: CloseElement_def opened_with_def add_child_def in_element_def)
  ultimately show ?thesis
    by (simp add: DocumentLoop_step)
qed

lemma DocumentLoop_open:
  assumes "name_ok n" "in_element (Suc d) rd"
  shows "DocumentLoop U rd (LT # n @ GT # r) = DocumentLoop U (opened n rd) r"
  using assms by (intro DocumentLoop_step ParseStep_open) (auto simp: in_element_def)

lemma DocumentLoop_leaf:
  assumes U: "encodes_cr U" and n: "name_ok n" and inside: "in_element (Suc d) rd"
  shows "DocumentLoop U rd (LT # n @ GT # EscapeText t @ LT # CHR ''/'' # n @ GT # r) =
         DocumentLoop U (add_child (S3XMLNode n (default_ns (namespaces rd)) t []) rd) r"
proof -
  have "in_element 0 rd" "elements (opened n rd) \<noteq> []"
    using inside by (simp_all add: in_element_def opened_with_def)
  then show ?thesis
    using DocumentLoop_open [OF n inside] DocumentLoop_text [OF U]
      DocumentLoop_close [OF n] by simp
qed

lemma in_element_add_child [simp]: "in_element d (add_child c rd) = in_element d rd"
  by (auto simp: in_element_def add_child_def split: list.splits)

lemma in_element_opened: "in_element (Suc d) rd \<Longrightarrow> in_element d (opened n rd)"
  by (simp add: in_element_def opened_with_def)

lemma namespaces_frame [simp]:
  "namespaces (add_child c rd) = namespaces rd"
  "namespaces (opened_with n t cs rd) = namespaces rd"
  by (simp_all add: add_child_def opened_with_def)

text \<open>A composite element: its children have been added to the opened frame.\<close>

lemma DocumentLoop_composite:
  assumes "name_ok n" "in_element 0 rd"
  shows "DocumentLoop U (fold add_child cs (opened n rd)) (LT # CHR ''/'' # n @ GT # r) =
         DocumentLoop U (add_child (S3XMLNode n (default_ns (namespaces rd)) [] cs) rd) r"
  using DocumentLoop_close [OF assms] by (simp add: fold_add_child_opened)


section \<open>The bodies of the requests\<close>

text \<open>A start tag with one \<open>xmlns\<close> attribute, as both bodies open with.\<close>

definition plain_value :: "string \<Rightarrow> bool" where
  "plain_value v \<longleftrightarrow>
     list_all (\<lambda>c. c \<noteq> QUOT \<and> c \<noteq> LT \<and> c \<noteq> AMP \<and> \<not> IsXMLWhitespace c) v"

lemma AttributeValueLoop_plain:
  "plain_value v \<Longrightarrow> AttributeValueLoop U QUOT acc (v @ QUOT # r) = Some (acc @ v, r)"
proof (induction v arbitrary: acc)
  case Nil
  show ?case by (simp add: AttributeValueLoop.simps)
next
  case (Cons c v)
  then show ?case by (subst AttributeValueLoop.simps) (simp add: plain_value_def)
qed

definition xmlns_attribute :: "string \<Rightarrow> S3XMLAttribute" where
  "xmlns_attribute v =
     \<lparr>attr_name = \<lparr>qn_prefix = [], qn_local_name = ''xmlns''\<rparr>, attr_value = v\<rparr>"

lemma StartTagLoop_xmlns:
  assumes "plain_value v"
  shows "StartTagLoop U [] ('' xmlns='' @ QUOT # v @ QUOT # GT # r) =
         Some ([xmlns_attribute v], False, r)"
proof -
  have name: "ParseQualifiedName (''xmlns='' @ s) =
      Some (\<lparr>qn_prefix = [], qn_local_name = ''xmlns''\<rparr>, CHR ''='' # s)" for s
    using ParseQualifiedName_simple [of "''xmlns''" "CHR ''='' # s"]
    by (simp add: name_ok_def IsNameStart_def IsNameCharacter_def)
  have "ExpectEquals (CHR ''='' # QUOT # s) = Some (QUOT # s)" for s
    by (simp add: ExpectEquals_def SkipWhitespace_def IsXMLWhitespace_def)
  moreover have "ParseAttributeValue U (QUOT # v @ QUOT # GT # r) = Some (v, GT # r)"
    using AttributeValueLoop_plain [OF assms, of U "[]" "GT # r"]
    by (simp add: ParseAttributeValue_def)
  moreover have "StartTagLoop U as (GT # r) = Some (as, False, r)" for as
    by (simp add: StartTagLoop.simps)
  ultimately show ?thesis
    using name
    by (subst StartTagLoop.simps)
       (simp add: SkipWhitespace_def IsXMLWhitespace_def xmlns_attribute_def)
qed

text \<open>The state after the root's start tag.\<close>

definition in_root :: "string \<Rightarrow> S3XMLReader" where
  "in_root n =
     init_reader\<lparr>root_seen := True,
       namespaces := [xml_binding, \<lparr>ns_prefix = [], ns_uri = S3_NAMESPACE\<rparr>],
       elements := [\<lparr>frame_name = \<lparr>qn_prefix = [], qn_local_name = n\<rparr>,
                     frame_namespace_uri = S3_NAMESPACE, frame_text = [],
                     namespace_count = 1, frame_children = []\<rparr>]\<rparr>"

lemma ParseStep_root:
  assumes "name_ok n"
  shows "ParseStep U init_reader
           (LT # n @ '' xmlns='' @ QUOT # S3_NAMESPACE @ QUOT # GT # r) = Some (in_root n, r)"
proof -
  obtain c cs where n: "n = c # cs" "c \<noteq> CHR ''!''" "c \<noteq> CHR ''?''" "c \<noteq> CHR ''/''"
    using assms NameStart_not_special by (cases n) (auto simp: name_ok_def)
  have name: "ParseQualifiedName (n @ '' xmlns='' @ s) =
      Some (\<lparr>qn_prefix = [], qn_local_name = n\<rparr>, '' xmlns='' @ s)" for s
    using assms
    by (rule ParseQualifiedName_simple) (simp add: IsNameStart_def IsNameCharacter_def)
  have tag: "StartTagLoop U [] ('' xmlns='' @ QUOT # S3_NAMESPACE @ QUOT # GT # r) =
      Some ([xmlns_attribute S3_NAMESPACE], False, r)"
    by (rule StartTagLoop_xmlns) (simp add: plain_value_def S3_NAMESPACE_def IsXMLWhitespace_def)
  have "ApplyNamespaceDeclarations [xml_binding] [xmlns_attribute S3_NAMESPACE] =
      Some [xml_binding, \<lparr>ns_prefix = [], ns_uri = S3_NAMESPACE\<rparr>]"
    by (simp add: DeclaredPrefix_def xmlns_attribute_def S3_NAMESPACE_def XML_NAMESPACE_def
        XMLNS_NAMESPACE_def)
  moreover have "ValidateAttributes nss [xmlns_attribute S3_NAMESPACE]" for nss
    by (simp add: ValidateAttributes_def xmlns_attribute_def)
  ultimately have "OpenElement init_reader \<lparr>qn_prefix = [], qn_local_name = n\<rparr>
      [xmlns_attribute S3_NAMESPACE] False = Some (in_root n)"
    by (simp add: OpenElement_def init_reader_def in_root_def ResolveNamespace_default
        default_ns_def Let_def)
  then have "ParseStartElement U init_reader
      (LT # n @ '' xmlns='' @ QUOT # S3_NAMESPACE @ QUOT # GT # r) = Some (in_root n, r)"
    using name tag
    by (simp add: ParseStartElement_def init_reader_def MAX_NESTING_DEPTH_def)
  then show ?thesis
    using n by (simp add: ParseStep_def)
qed

lemma in_root_simps [simp]:
  "in_element 2 (in_root n)"
  "namespaces (in_root n) = [xml_binding, \<lparr>ns_prefix = [], ns_uri = S3_NAMESPACE\<rparr>]"
  by (simp_all add: in_root_def in_element_def init_reader_def MAX_NESTING_DEPTH_def)

lemma default_ns_root [simp]:
  "default_ns [xml_binding, \<lparr>ns_prefix = [], ns_uri = S3_NAMESPACE\<rparr>] = S3_NAMESPACE"
  by (simp add: default_ns_def)

lemma DocumentLoop_root_end:
  assumes "name_ok n"
  shows "\<exists>rd. DocumentLoop U (fold add_child cs (in_root n)) (LT # CHR ''/'' # n @ [GT]) = Some rd \<and>
    root_seen rd \<and> root_closed rd \<and> elements rd = [] \<and>
    root rd = S3XMLNode n S3_NAMESPACE [] cs"
proof -
  have fold: "fold add_child cs (rd\<lparr>elements := [f]\<rparr>) =
      rd\<lparr>elements := [f\<lparr>frame_children := frame_children f @ cs\<rparr>]\<rparr>" for rd f
    by (induction cs arbitrary: f) (simp_all add: add_child_def)
  let ?rd = "fold add_child cs (in_root n)"
  have rd: "elements ?rd = [\<lparr>frame_name = \<lparr>qn_prefix = [], qn_local_name = n\<rparr>,
      frame_namespace_uri = S3_NAMESPACE, frame_text = [], namespace_count = 1,
      frame_children = cs\<rparr>]" "root_seen ?rd"
    using fold by (simp_all add: in_root_def)
  have "ParseStep U ?rd (LT # CHR ''/'' # n @ [GT]) = Some (CloseElement ?rd, [])"
    by (rule ParseStep_close [OF assms rd(1)]) simp
  then have "DocumentLoop U ?rd (LT # CHR ''/'' # n @ [GT]) = Some (CloseElement ?rd)"
    by (simp add: DocumentLoop_step DocumentLoop.simps [of U _ "[]"])
  with rd show ?thesis by (simp add: CloseElement_def)
qed


definition ready :: "S3XMLReader \<Rightarrow> bool" where
  "ready rd \<longleftrightarrow> in_element 2 rd \<and> default_ns (namespaces rd) = S3_NAMESPACE"

lemma ready_simps [simp]:
  "ready (add_child c rd) = ready rd"
  "ready (in_root n)"
  by (simp_all add: ready_def)

definition leaf :: "string \<Rightarrow> string \<Rightarrow> S3XMLNode" where
  "leaf n t = S3XMLNode n S3_NAMESPACE t []"

definition delete_object_node :: "string \<Rightarrow> S3XMLNode" where
  "delete_object_node key = S3XMLNode ''Object'' S3_NAMESPACE [] [leaf ''Key'' key]"

definition part_node :: "string \<Rightarrow> nat \<Rightarrow> S3XMLNode" where
  "part_node etag part_index =
     S3XMLNode ''Part'' S3_NAMESPACE []
       [leaf ''ETag'' etag, leaf ''PartNumber'' (to_string (part_index + 1))]"

lemmas name_defs = name_ok_def IsNameStart_def IsNameCharacter_def

lemma ready_leaf:
  assumes "encodes_cr U" "ready rd" "name_ok n"
  shows "DocumentLoop U rd (LT # n @ GT # EscapeText t @ LT # CHR ''/'' # n @ GT # r) =
         DocumentLoop U (add_child (leaf n t) rd) r"
  using DocumentLoop_leaf [OF assms(1,3), of 1 rd] assms(2)
  by (simp add: ready_def leaf_def numeral_2_eq_2)

lemma opened_leaf:
  assumes "encodes_cr U" "ready rd" "name_ok n"
  shows "DocumentLoop U (opened_with m t cs rd)
           (LT # n @ GT # EscapeText v @ LT # CHR ''/'' # n @ GT # r) =
         DocumentLoop U (opened_with m t (cs @ [leaf n v]) rd) r"
proof -
  have "in_element (Suc 0) (opened_with m t cs rd)"
    using assms(2) by (simp add: ready_def in_element_def opened_with_def)
  then show ?thesis
    using DocumentLoop_leaf [OF assms(1,3), of 0 "opened_with m t cs rd"] assms(2)
    by (simp add: ready_def leaf_def)
qed

lemma ready_open: "ready rd \<Longrightarrow> name_ok n \<Longrightarrow>
    DocumentLoop U rd (LT # n @ GT # r) = DocumentLoop U (opened n rd) r"
  using DocumentLoop_open [of n 1 rd] by (simp add: ready_def numeral_2_eq_2)

lemma ready_close: "ready rd \<Longrightarrow> name_ok n \<Longrightarrow>
    DocumentLoop U (opened_with n t cs rd) (LT # CHR ''/'' # n @ GT # r) =
    DocumentLoop U (add_child (S3XMLNode n S3_NAMESPACE t cs) rd) r"
  using DocumentLoop_close [of n rd] by (simp add: ready_def in_element_def)

lemma DocumentLoop_delete_object:
  assumes "encodes_cr U" "ready rd"
  shows "DocumentLoop U rd (WriteDeleteObject key @ r) =
         DocumentLoop U (add_child (delete_object_node key) rd) r"
  using ready_open [OF assms(2), of "''Object''"]
    opened_leaf [OF assms, of "''Key''" "''Object''" "[]" "[]" key]
    ready_close [OF assms(2), of "''Object''"]
  by (simp add: WriteDeleteObject_def delete_object_node_def name_defs)

lemma EscapeText_to_string: "EscapeText (to_string n) = to_string n"
proof (induction n rule: to_string.induct)
  case (1 n)
  have digit: "EscapeCharacter (char_of (48 + k)) = [char_of (48 + k)]" if "k < 10" for k :: nat
  proof -
    have "char_of (48 + k) \<noteq> c" if "(of_char c :: nat) < 48 \<or> 57 < (of_char c :: nat)" for c
    proof
      assume "char_of (48 + k) = c"
      then have "(of_char c :: nat) = 48 + k"
        using \<open>k < 10\<close> by auto
      with that \<open>k < 10\<close> show False by simp
    qed
    from this [of AMP] this [of LT] this [of GT] this [of CR] show ?thesis by simp
  qed
  show ?case
    using 1 digit [of n] digit [of "n mod 10"]
    by (subst (1 2) to_string.simps) (simp add: EscapeText_append del: EscapeCharacter.simps)
qed

lemma DocumentLoop_part:
  assumes "encodes_cr U" "ready rd"
  shows "DocumentLoop U rd (WritePart etag i @ r) =
         DocumentLoop U (add_child (part_node etag i) rd) r"
  using ready_open [OF assms(2), of "''Part''"]
    opened_leaf [OF assms, of "''ETag''" "''Part''" "[]" "[]" etag]
    opened_leaf [OF assms, of "''PartNumber''" "''Part''" "[]" "[leaf ''ETag'' etag]"
      "to_string (i + 1)"]
    ready_close [OF assms(2), of "''Part''"]
  by (simp add: WritePart_def part_node_def name_defs EscapeText_to_string)

lemma DocumentLoop_children:
  assumes "\<And>x rd r. ready rd \<Longrightarrow> DocumentLoop U rd (f x @ r) = DocumentLoop U (add_child (g x) rd) r"
    and "ready rd"
  shows "DocumentLoop U rd (concat (map f xs) @ r) = DocumentLoop U (fold add_child (map g xs) rd) r"
  using assms(2) by (induction xs arbitrary: rd) (simp_all add: assms(1))

lemma ready_fold [simp]: "ready (fold add_child cs rd) = ready rd"
  by (induction cs arbitrary: rd) simp_all


section \<open>The round trips\<close>

lemma ParseDocument_intro:
  assumes "ValidateCharacters U s" "\<not> starts_with UTF8_BOM s"
    and "(if starts_with ''<?xml'' s then ParseXMLDeclaration s else Some s) = Some r"
    and "\<exists>rd. DocumentLoop U init_reader r = Some rd \<and> root_seen rd \<and> root_closed rd \<and>
           elements rd = [] \<and> root rd = node"
  shows "ParseDocument U s = Some node"
  using assms by (auto simp: ParseDocument_def Let_def)

lemma lower_utf8: "map std_tolower ''UTF-8'' = ''utf-8''"
  by code_simp

lemma parse_declaration:
  "ParseXMLDeclaration (''<?xml version='' @ QUOT # ''1.0'' @ QUOT # '' encoding='' @ QUOT #
     ''UTF-8'' @ QUOT # ''?>'' @ r) = Some r"
  by (simp add: ParseXMLDeclaration_def DeclarationLoop.simps ParseDeclarationAttribute_def
      ParseQualifiedName_def IsNameStart_def IsNameCharacter_def SkipWhitespace_def
      IsXMLWhitespace_def ExpectEquals_def ParseDeclarationValue_def Let_def
      CheckDeclarationAttributes_def lower_utf8 [simplified])

lemma document_with_root:
  assumes "name_ok n"
    and "\<And>rd r. ready rd \<Longrightarrow> DocumentLoop U rd (body @ r) = DocumentLoop U (fold add_child cs rd) r"
  shows "\<exists>rd. DocumentLoop U init_reader
      (LT # n @ '' xmlns='' @ QUOT # S3_NAMESPACE @ QUOT # GT # body @ LT # CHR ''/'' # n @ [GT])
        = Some rd \<and>
      root_seen rd \<and> root_closed rd \<and> elements rd = [] \<and> root rd = S3XMLNode n S3_NAMESPACE [] cs"
proof -
  have "DocumentLoop U init_reader
      (LT # n @ '' xmlns='' @ QUOT # S3_NAMESPACE @ QUOT # GT # body @ LT # CHR ''/'' # n @ [GT])
      = DocumentLoop U (in_root n) (body @ LT # CHR ''/'' # n @ [GT])"
    by (rule DocumentLoop_step [OF ParseStep_root [OF assms(1)]]) simp
  also have "\<dots> = DocumentLoop U (fold add_child cs (in_root n)) (LT # CHR ''/'' # n @ [GT])"
    by (rule assms(2)) simp
  finally show ?thesis
    using DocumentLoop_root_end [OF assms(1), of U cs] by simp
qed

lemma map_nth_range: "e \<le> length xs \<Longrightarrow> map (\<lambda>i. xs ! i) [b..<e] = take (e - b) (drop b xs)"
  by (rule nth_equalityI) auto

lemma delete_request_parsed:
  assumes "encodes_cr U" and "end_idx \<le> length keys"
    and "ValidateCharacters U (WriteDeleteObjectsRequest keys begin_idx end_idx)"
  shows "ParseDocument U (WriteDeleteObjectsRequest keys begin_idx end_idx) =
    Some (S3XMLNode ''Delete'' S3_NAMESPACE []
      (map delete_object_node (take (end_idx - begin_idx) (drop begin_idx keys))
       @ [leaf ''Quiet'' ''true'']))"
proof -
  let ?batch = "take (end_idx - begin_idx) (drop begin_idx keys)"
  let ?cs = "map delete_object_node ?batch @ [leaf ''Quiet'' ''true'']"
  let ?body = "concat (map WriteDeleteObject ?batch) @ ''<Quiet>true</Quiet>''"
  have body: "DocumentLoop U rd (?body @ r) = DocumentLoop U (fold add_child ?cs rd) r"
    if "ready rd" for rd r
    using DocumentLoop_children [OF DocumentLoop_delete_object [OF assms(1)] that, of "\<lambda>x. x" ?batch]
      ready_leaf [OF assms(1), of "fold add_child (map delete_object_node ?batch) rd" "''Quiet''"
        "''true''"] that
    by (simp add: name_defs)
  have "concat (map (\<lambda>i. WriteDeleteObject (keys ! i)) [begin_idx..<end_idx]) =
      concat (map WriteDeleteObject ?batch)"
    unfolding map_nth_range [OF assms(2), symmetric] by (simp add: comp_def)
  then have written: "WriteDeleteObjectsRequest keys begin_idx end_idx =
      ''<?xml version='' @ QUOT # ''1.0'' @ QUOT # '' encoding='' @ QUOT # ''UTF-8'' @ QUOT # ''?>'' @
      LT # ''Delete'' @ '' xmlns='' @ QUOT # S3_NAMESPACE @ QUOT # GT # ?body @
      LT # CHR ''/'' # ''Delete'' @ [GT]"
    by (simp add: WriteDeleteObjectsRequest_def DELETE_REQUEST_HEADER_def S3_NAMESPACE_def)
  show ?thesis
  proof (rule ParseDocument_intro [OF assms(3)])
    show "\<not> starts_with UTF8_BOM (WriteDeleteObjectsRequest keys begin_idx end_idx)"
      by (simp add: written UTF8_BOM_def)
    show "(if starts_with ''<?xml'' (WriteDeleteObjectsRequest keys begin_idx end_idx)
           then ParseXMLDeclaration (WriteDeleteObjectsRequest keys begin_idx end_idx)
           else Some (WriteDeleteObjectsRequest keys begin_idx end_idx)) =
        Some (LT # ''Delete'' @ '' xmlns='' @ QUOT # S3_NAMESPACE @ QUOT # GT # ?body @
          LT # CHR ''/'' # ''Delete'' @ [GT])"
      unfolding written parse_declaration by simp
    show "\<exists>rd. DocumentLoop U init_reader (LT # ''Delete'' @ '' xmlns='' @ QUOT # S3_NAMESPACE @
        QUOT # GT # ?body @ LT # CHR ''/'' # ''Delete'' @ [GT]) = Some rd \<and> root_seen rd \<and>
        root_closed rd \<and> elements rd = [] \<and> root rd = S3XMLNode ''Delete'' S3_NAMESPACE [] ?cs"
      by (rule document_with_root [OF _ body]) (simp_all add: name_defs)
  qed
qed

text \<open>
  Which bodies pass the check of characters. What the reader relies on of UTF-8: a byte below 128 is a
  character of its own and separates texts, and a valid text has a first character that what follows it does not change.
\<close>

definition utf8_text :: "utf8proc \<Rightarrow> bool" where
  "utf8_text U \<longleftrightarrow> encodes_cr U \<and> IsValid U [] \<and>
     (\<forall>a c b. of_char c < (128 :: nat) \<longrightarrow> IsValid U (a @ c # b) = (IsValid U a \<and> IsValid U b)) \<and>
     (\<forall>c b. of_char c < (128 :: nat) \<longrightarrow> UTF8ToCodepoint U (c # b) = (of_char c, 0)) \<and>
     (\<forall>a b. IsValid U a \<and> a \<noteq> [] \<longrightarrow> UTF8ToCodepoint U (a @ b) = UTF8ToCodepoint U a \<and>
        snd (UTF8ToCodepoint U a) < length a \<and> IsValid U (drop (Suc (snd (UTF8ToCodepoint U a))) a))"

lemma utf8_textD:
  assumes "utf8_text U"
  shows "encodes_cr U" "IsValid U []"
    "of_char c < (128 :: nat) \<Longrightarrow> IsValid U (a @ c # b) = (IsValid U a \<and> IsValid U b)"
    "of_char c < (128 :: nat) \<Longrightarrow> UTF8ToCodepoint U (c # b) = (of_char c, 0)"
    "IsValid U a \<Longrightarrow> a \<noteq> [] \<Longrightarrow> UTF8ToCodepoint U (a @ b) = UTF8ToCodepoint U a"
    "IsValid U a \<Longrightarrow> a \<noteq> [] \<Longrightarrow> snd (UTF8ToCodepoint U a) < length a"
    "IsValid U a \<Longrightarrow> a \<noteq> [] \<Longrightarrow> IsValid U (drop (Suc (snd (UTF8ToCodepoint U a))) a)"
  using assms unfolding utf8_text_def by (elim conjE, blast)+

lemma ValidateCodepoints_append:
  "utf8_text U \<Longrightarrow> IsValid U a \<Longrightarrow> ValidateCodepoints U (a @ b) \<longleftrightarrow> ValidateCodepoints U a \<and> ValidateCodepoints U b"
proof (induction "length a" arbitrary: a rule: less_induct)
  case less
  show ?case
  proof (cases "a = []")
    case True
    then show ?thesis by (simp add: ValidateCodepoints.simps [of U "[]"])
  next
    case False
    note a = utf8_textD(5-7) [OF less.prems False]
    let ?n = "snd (UTF8ToCodepoint U a)"
    have "ValidateCodepoints U (drop (Suc ?n) a @ b) \<longleftrightarrow> ValidateCodepoints U (drop (Suc ?n) a) \<and> ValidateCodepoints U b"
      by (rule less.hyps) (use False a less.prems(1) in auto)
    moreover have "ValidateCodepoints U (a @ b) \<longleftrightarrow>
        IsXMLCharacter (fst (UTF8ToCodepoint U a)) \<and> ValidateCodepoints U (drop (Suc ?n) a @ b)"
      using False a(2) by (subst ValidateCodepoints.simps) (simp add: a(1))
    moreover have "ValidateCodepoints U a \<longleftrightarrow>
        IsXMLCharacter (fst (UTF8ToCodepoint U a)) \<and> ValidateCodepoints U (drop (Suc ?n) a)"
      using False by (subst ValidateCodepoints.simps) simp
    ultimately show ?thesis by blast
  qed
qed

definition ascii_xml :: "char \<Rightarrow> bool" where
  "ascii_xml c \<longleftrightarrow> of_char c < (128 :: nat) \<and> IsXMLCharacter (of_char c)"

lemma ValidateCharacters_Nil: "utf8_text U \<Longrightarrow> ValidateCharacters U []"
  by (simp add: ValidateCharacters_def utf8_textD(2) ValidateCodepoints.simps)

lemma ValidateCharacters_char:
  assumes "utf8_text U" "ascii_xml c"
  shows "ValidateCharacters U (a @ c # b) \<longleftrightarrow> ValidateCharacters U a \<and> ValidateCharacters U b"
proof -
  have c: "of_char c < (128 :: nat)" using assms(2) by (simp add: ascii_xml_def)
  have "ValidateCodepoints U (c # b) \<longleftrightarrow> ValidateCodepoints U b"
    using assms(2) by (subst ValidateCodepoints.simps) (simp add: utf8_textD(4) [OF assms(1) c] ascii_xml_def)
  then show ?thesis
    using ValidateCodepoints_append [OF assms(1), of a "c # b"]
    by (auto simp: ValidateCharacters_def utf8_textD(3) [OF assms(1) c])
qed

lemma ValidateCharacters_markup:
  assumes "utf8_text U" "list_all ascii_xml m" "m \<noteq> []"
  shows "ValidateCharacters U (a @ m @ b) \<longleftrightarrow> ValidateCharacters U a \<and> ValidateCharacters U b"
  using assms(2,3)
proof (induction m arbitrary: a)
  case (Cons c m)
  then show ?case
    using ValidateCharacters_char [OF assms(1), of c a "m @ b"] Cons.IH [of "[]"] ValidateCharacters_Nil [OF assms(1)]
    by (cases "m = []") auto
qed simp

lemma ValidateCharacters_start:
  "utf8_text U \<Longrightarrow> list_all ascii_xml m \<Longrightarrow> m \<noteq> [] \<Longrightarrow> ValidateCharacters U (m @ b) \<longleftrightarrow> ValidateCharacters U b"
  using ValidateCharacters_markup [of U m "[]" b] ValidateCharacters_Nil by simp

lemma ascii_xml_special: "c \<in> {AMP, LT, GT, CR} \<Longrightarrow> ascii_xml c"
  by (elim insertE emptyE; hypsubst; code_simp)

lemma ascii_xml_escaped: "c \<in> {AMP, LT, GT, CR} \<Longrightarrow> list_all ascii_xml (EscapeCharacter c) \<and> EscapeCharacter c \<noteq> []"
  by (elim insertE emptyE; hypsubst; code_simp)

lemma ValidateCharacters_EscapeText:
  assumes "utf8_text U"
  shows "ValidateCharacters U (a @ EscapeText t) \<longleftrightarrow> ValidateCharacters U (a @ t)"
proof (induction t arbitrary: a)
  case (Cons c t)
  show ?case
  proof (cases "c \<in> {AMP, LT, GT, CR}")
    case True
    then have "ValidateCharacters U (a @ EscapeCharacter c @ EscapeText t) \<longleftrightarrow>
        ValidateCharacters U a \<and> ValidateCharacters U (EscapeText t)"
      using ascii_xml_escaped [OF True] by (intro ValidateCharacters_markup [OF assms]) blast+
    then show ?thesis
      using ValidateCharacters_char [OF assms ascii_xml_special [OF True], of a t] Cons.IH [of "[]"] by simp
  next
    case False
    then have "EscapeText (c # t) = c # EscapeText t" by simp
    then show ?thesis using Cons.IH [of "a @ [c]"] by simp
  qed
qed simp

lemma ascii_xml_literals:
  "list_all ascii_xml DELETE_REQUEST_HEADER" "list_all ascii_xml ''<Object><Key>''" "list_all ascii_xml ''</Key></Object>''"
  "list_all ascii_xml ''<Quiet>true</Quiet></Delete>''"
  by code_simp+

lemma ValidateCharacters_objects:
  assumes "utf8_text U"
  shows "ValidateCharacters U (concat (map WriteDeleteObject ks) @ ''<Quiet>true</Quiet></Delete>'') \<longleftrightarrow>
    list_all (ValidateCharacters U) ks"
proof (induction ks)
  case Nil
  show ?case
    using ValidateCharacters_start [OF assms ascii_xml_literals(4), of "[]"] ValidateCharacters_Nil [OF assms] by simp
next
  case (Cons k ks)
  let ?r = "concat (map WriteDeleteObject ks) @ ''<Quiet>true</Quiet></Delete>''"
  have "ValidateCharacters U (''<Object><Key>'' @ EscapeText k @ ''</Key></Object>'' @ ?r) \<longleftrightarrow>
      ValidateCharacters U (EscapeText k @ ''</Key></Object>'' @ ?r)"
    by (rule ValidateCharacters_start [OF assms ascii_xml_literals(2)]) simp
  also have "\<dots> \<longleftrightarrow> ValidateCharacters U (EscapeText k) \<and> ValidateCharacters U ?r"
    by (rule ValidateCharacters_markup [OF assms ascii_xml_literals(3)]) simp
  also have "ValidateCharacters U (EscapeText k) \<longleftrightarrow> ValidateCharacters U k"
    using ValidateCharacters_EscapeText [OF assms, of "[]"] by simp
  finally show ?case using Cons.IH by (simp add: WriteDeleteObject_def)
qed

lemma batch_written:
  assumes "end_idx \<le> length keys"
  shows "WriteDeleteObjectsRequest keys begin_idx end_idx = DELETE_REQUEST_HEADER @
    concat (map WriteDeleteObject (take (end_idx - begin_idx) (drop begin_idx keys))) @ ''<Quiet>true</Quiet></Delete>''"
  unfolding WriteDeleteObjectsRequest_def map_nth_range [OF assms, symmetric] by (simp add: comp_def)

lemma ValidateCharacters_batch:
  assumes "utf8_text U" "end_idx \<le> length keys"
  shows "ValidateCharacters U (WriteDeleteObjectsRequest keys begin_idx end_idx) \<longleftrightarrow>
    list_all (ValidateCharacters U) (take (end_idx - begin_idx) (drop begin_idx keys))"
  unfolding batch_written [OF assms(2)]
  using ValidateCharacters_start [OF assms(1) ascii_xml_literals(1)] ValidateCharacters_objects [OF assms(1)]
  by (simp only: DELETE_REQUEST_HEADER_def append_Cons append_assoc list.distinct not_False_eq_True if_True)

text \<open>
  C36: For every batch of keys, the reader accepts the body of the bulk delete request exactly when every key is valid
  UTF-8 of characters that XML allows, and then its tree names exactly the keys of the batch, in order and unchanged, whatever
  markup they hold. A key with other bytes makes the writer's document one that is not XML, and the reader refuses it.
\<close>

theorem DeleteObjectsRequest_roundtrip:
  assumes "utf8_text U" and "end_idx \<le> length keys"
  shows "ParseDocument U (WriteDeleteObjectsRequest keys begin_idx end_idx) =
    (if list_all (ValidateCharacters U) (take (end_idx - begin_idx) (drop begin_idx keys))
     then Some (S3XMLNode ''Delete'' S3_NAMESPACE []
       (map delete_object_node (take (end_idx - begin_idx) (drop begin_idx keys)) @ [leaf ''Quiet'' ''true'']))
     else None)"
proof (cases "list_all (ValidateCharacters U) (take (end_idx - begin_idx) (drop begin_idx keys))")
  case True
  then have "ValidateCharacters U (WriteDeleteObjectsRequest keys begin_idx end_idx)"
    by (simp only: ValidateCharacters_batch [OF assms])
  from delete_request_parsed [OF utf8_textD(1) [OF assms(1)] assms(2) this] True show ?thesis by simp
next
  case False
  then have "\<not> ValidateCharacters U (WriteDeleteObjectsRequest keys begin_idx end_idx)"
    by (simp only: ValidateCharacters_batch [OF assms] not_False_eq_True)
  with False show ?thesis by (simp only: ParseDocument_def if_False if_True not_False_eq_True)
qed

lemma encodes_cr_ascii: "encodes_cr ascii_utf8"
proof -
  have "char_of (13 :: nat) = CR"
    by code_simp
  then show ?thesis
    by (simp add: encodes_cr_def ascii_utf8_def)
qed

lemma utf8_text_ascii: "utf8_text ascii_utf8"
  unfolding utf8_text_def using encodes_cr_ascii by (auto simp: ascii_utf8_def list_all_iff dest: in_set_dropD)

theorem DeleteObjectsRequest_roundtrip_witness:
  "ParseDocument ascii_utf8 (WriteDeleteObjectsRequest [''x'', ''a<b&'', [CHR 0x01]] 1 2) =
     Some (S3XMLNode ''Delete'' S3_NAMESPACE [] [delete_object_node ''a<b&'', leaf ''Quiet'' ''true'']) \<and>
   ParseDocument ascii_utf8 (WriteDeleteObjectsRequest [''x'', ''a<b&'', [CHR 0x01]] 1 3) = None"
proof -
  have "ValidateCharacters ascii_utf8 ''a<b&''" "\<not> ValidateCharacters ascii_utf8 [CHR 0x01]"
    by code_simp+
  with DeleteObjectsRequest_roundtrip [OF utf8_text_ascii, of _ "[''x'', ''a<b&'', [CHR 0x01]]" 1] show ?thesis
    by simp
qed

text \<open>
  The body of the multipart completion request is accepted by the reader and lists the
  ETags of the parts in order, each with its one-based part number.
\<close>

theorem CompleteMultipartUpload_roundtrip:
  assumes "encodes_cr U"
    and "ValidateCharacters U (WriteCompleteMultipartUploadRequest etags)"
  shows "ParseDocument U (WriteCompleteMultipartUploadRequest etags) =
    Some (S3XMLNode ''CompleteMultipartUpload'' S3_NAMESPACE []
      (map (\<lambda>i. part_node (etags ! i) i) [0..<length etags]))"
proof -
  let ?cs = "map (\<lambda>i. part_node (etags ! i) i) [0..<length etags]"
  let ?body = "concat (map (\<lambda>i. WritePart (etags ! i) i) [0..<length etags])"
  have body: "DocumentLoop U rd (?body @ r) = DocumentLoop U (fold add_child ?cs rd) r"
    if "ready rd" for rd r
    by (rule DocumentLoop_children [OF DocumentLoop_part [OF assms(1)] that])
  have written: "WriteCompleteMultipartUploadRequest etags =
      LT # ''CompleteMultipartUpload'' @ '' xmlns='' @ QUOT # S3_NAMESPACE @ QUOT # GT # ?body @
      LT # CHR ''/'' # ''CompleteMultipartUpload'' @ [GT]"
    by (simp add: WriteCompleteMultipartUploadRequest_def S3_NAMESPACE_def)
  show ?thesis
  proof (rule ParseDocument_intro [OF assms(2)])
    show "\<not> starts_with UTF8_BOM (WriteCompleteMultipartUploadRequest etags)"
      by (simp add: written UTF8_BOM_def)
    show "\<exists>rd. DocumentLoop U init_reader (WriteCompleteMultipartUploadRequest etags) = Some rd \<and>
        root_seen rd \<and> root_closed rd \<and> elements rd = [] \<and>
        root rd = S3XMLNode ''CompleteMultipartUpload'' S3_NAMESPACE [] ?cs"
      unfolding written by (rule document_with_root [OF _ body]) (simp_all add: name_defs)
  qed (simp add: written)
qed

theorem CompleteMultipartUpload_roundtrip_witness:
  "ParseDocument ascii_utf8 (WriteCompleteMultipartUploadRequest [''e1'', ''e&2'']) =
    Some (S3XMLNode ''CompleteMultipartUpload'' S3_NAMESPACE []
      [part_node ''e1'' 0, part_node ''e&2'' 1])"
proof -
  have "ValidateCharacters ascii_utf8 (WriteCompleteMultipartUploadRequest [''e1'', ''e&2''])"
    by code_simp
  from CompleteMultipartUpload_roundtrip [OF encodes_cr_ascii this] show ?thesis
    by (simp add: upt_rec)
qed

end
