(* ===== verification/Duckdb_Api.thy ===== *)
theory Duckdb_Api
  imports Httpfs_Prelude
begin

text \<open>
  The string utilities of DuckDB that the extension calls (\<open>StringUtil\<close>, the glob matcher and the
  table \<open>EXTENSION_FILE_PREFIXES\<close>). They are not part of this repository, so they are the fields
  of a record that every definition using them takes as its argument \<open>D\<close>. What the code relies
  on is stated as the predicates \<open>byte_strings\<close> and \<open>url_coding\<close>; \<open>std_api\<close> is an instance of
  the former, at which theorems are applied.
\<close>

section \<open>The interface\<close>

record duckdb_api =
  Lower :: "string \<Rightarrow> string"
  Trim :: "string \<Rightarrow> string"
  StartsWith :: "string \<Rightarrow> string \<Rightarrow> bool"
  EndsWith :: "string \<Rightarrow> string \<Rightarrow> bool"
  Contains :: "string \<Rightarrow> string \<Rightarrow> bool"
  CIEquals :: "string \<Rightarrow> string \<Rightarrow> bool"
  CIStartsWith :: "string \<Rightarrow> string \<Rightarrow> bool"
  Replace :: "string \<Rightarrow> string \<Rightarrow> string \<Rightarrow> string"
  Split :: "string \<Rightarrow> string \<Rightarrow> string list"
  Join :: "string list \<Rightarrow> string \<Rightarrow> string"
  CharacterIsAlpha :: "char \<Rightarrow> bool"
  CharacterIsAlphaNumeric :: "char \<Rightarrow> bool"
  URLDecode :: "string \<Rightarrow> bool \<Rightarrow> string"
  URLEncode :: "string \<Rightarrow> bool \<Rightarrow> string"
  Glob :: "string \<Rightarrow> string \<Rightarrow> bool"
  extension_file_prefixes :: "string list"

definition is_space :: "char \<Rightarrow> bool" where
  "is_space c \<longleftrightarrow> c \<in> set [CHR '' '', CHR 0x09, CHR 0x0A, CHR 0x0B, CHR 0x0C, CHR 0x0D]"

definition trim_space :: "string \<Rightarrow> string" where
  "trim_space s = rev (dropWhile is_space (rev (dropWhile is_space s)))"

definition ends_with :: "string \<Rightarrow> string \<Rightarrow> bool" where
  "ends_with p s \<longleftrightarrow> starts_with (rev p) (rev s)"

section \<open>What the code relies on\<close>

definition byte_strings :: "duckdb_api \<Rightarrow> bool" where
  "byte_strings D \<longleftrightarrow>
     (\<forall>s. Lower D s = map std_tolower s) \<and>
     (\<forall>s. Trim D s = trim_space s) \<and>
     (\<forall>s p. StartsWith D s p = starts_with p s) \<and>
     (\<forall>s p. EndsWith D s p = ends_with p s) \<and>
     (\<forall>s p. Contains D s p = (str_find p s \<noteq> None)) \<and>
     (\<forall>s t. CIEquals D s t = (map std_tolower s = map std_tolower t)) \<and>
     (\<forall>s p. CIStartsWith D s p = starts_with (map std_tolower p) (map std_tolower s)) \<and>
     \<not> CharacterIsAlpha D (CHR '':'') \<and> \<not> CharacterIsAlphaNumeric D (CHR '':'')"

text \<open>
  Percent coding: decoding inverts encoding, and an encoded component holds none of the
  characters that separate components.
\<close>

definition url_coding :: "duckdb_api \<Rightarrow> bool" where
  "url_coding D \<longleftrightarrow>
     (\<forall>s. URLDecode D (URLEncode D s True) True = s) \<and>
     (\<forall>s. CHR ''&'' \<notin> set (URLEncode D s True) \<and> CHR ''='' \<notin> set (URLEncode D s True)) \<and>
     (\<forall>s. URLEncode D s True = [] \<longleftrightarrow> s = [])"

lemma byte_stringsD:
  assumes "byte_strings D"
  shows "Lower D s = map std_tolower s" "Trim D s = trim_space s"
    "StartsWith D s p = starts_with p s" "EndsWith D s p = ends_with p s"
    "Contains D s p = (str_find p s \<noteq> None)"
    "CIEquals D s p = (map std_tolower s = map std_tolower p)"
    "CIStartsWith D s p = starts_with (map std_tolower p) (map std_tolower s)"
    "\<not> CharacterIsAlpha D (CHR '':'')" "\<not> CharacterIsAlphaNumeric D (CHR '':'')"
  using assms by (simp_all add: byte_strings_def)

lemma trim_space_no_space [simp]: "list_all (\<lambda>c. \<not> is_space c) s \<Longrightarrow> trim_space s = s"
proof -
  assume a: "list_all (\<lambda>c. \<not> is_space c) s"
  have "dropWhile is_space xs = xs" if "list_all (\<lambda>c. \<not> is_space c) xs" for xs
    using that by (cases xs) auto
  with a show "trim_space s = s" by (simp add: trim_space_def)
qed

lemma trim_space_Nil: "trim_space s = [] \<longleftrightarrow> list_all is_space s"
  by (simp add: trim_space_def dropWhile_eq_Nil_conv list_all_iff)
     (metis dropWhile_eq_Nil_conv set_dropWhileD hd_dropWhile hd_in_set)

lemma set_trim_space: "set (trim_space s) \<subseteq> set s"
  by (auto simp: trim_space_def dest!: set_dropWhileD)

lemma ends_with_append [simp]: "ends_with p (s @ p)"
  by (simp add: ends_with_def)

lemma ends_with_Cons: "ends_with p s \<Longrightarrow> ends_with p (c # s)"
  by (auto simp: ends_with_def starts_with_ex)

section \<open>An instance\<close>

text \<open>Percent coding of every byte, and decoding of the escapes.\<close>

definition hex_digit :: "nat \<Rightarrow> char" where
  "hex_digit n = char_of (if n < 10 then 48 + n else 55 + n)"

definition hex_value :: "char \<Rightarrow> nat" where
  "hex_value c = (let n = of_char c in if n < 58 then n - 48 else n - 55)"

definition percent_encode :: "string \<Rightarrow> string" where
  "percent_encode s =
     concat (map (\<lambda>c. [CHR ''%'', hex_digit (of_char c div 16), hex_digit (of_char c mod 16)]) s)"

fun percent_decode :: "string \<Rightarrow> string" where
  "percent_decode (c # a # b # r) =
     (if c = CHR ''%'' then char_of (hex_value a * 16 + hex_value b) # percent_decode r
      else c # percent_decode (a # b # r))"
| "percent_decode s = s"

lemma hex_value_digit: "n < 16 \<Longrightarrow> hex_value (hex_digit n) = n"
  by (simp add: hex_value_def hex_digit_def)

lemma percent_decode_encode [simp]: "percent_decode (percent_encode s) = s"
proof (induction s)
  case (Cons c s)
  have "of_char c < (256 :: nat)" by simp
  then have "(of_char c :: nat) div 16 < 16" by (simp add: less_mult_imp_div_less)
  with Cons show ?case by (simp add: percent_encode_def hex_value_digit)
qed (simp add: percent_encode_def)

lemma set_percent_encode: "set (percent_encode s) \<subseteq> {CHR ''%''} \<union> hex_digit ` {n. n < 16}"
proof -
  have "(of_char c :: nat) div 16 < 16" for c :: char
  proof -
    have "of_char c < (256 :: nat)" by simp
    then show ?thesis by (simp add: less_mult_imp_div_less)
  qed
  then show ?thesis by (auto simp: percent_encode_def)
qed

lemma hex_digit_range: "n < 16 \<Longrightarrow> 48 \<le> (of_char (hex_digit n) :: nat) \<and>
    (of_char (hex_digit n) :: nat) \<noteq> 61"
  by (simp add: hex_digit_def)

lemma percent_encode_separators:
  "CHR ''&'' \<notin> set (percent_encode s)" "CHR ''='' \<notin> set (percent_encode s)"
proof -
  have "hex_digit n \<noteq> CHR ''&'' \<and> hex_digit n \<noteq> CHR ''=''" if "n < 16" for n
    using hex_digit_range [OF that] by auto
  then show "CHR ''&'' \<notin> set (percent_encode s)" "CHR ''='' \<notin> set (percent_encode s)"
    using set_percent_encode [of s] by (auto dest!: subsetD) metis+
qed

definition std_api :: duckdb_api where
  "std_api =
     \<lparr>Lower = map std_tolower,
      Trim = trim_space,
      StartsWith = (\<lambda>s p. starts_with p s),
      EndsWith = (\<lambda>s p. ends_with p s),
      Contains = (\<lambda>s p. str_find p s \<noteq> None),
      CIEquals = (\<lambda>s p. map std_tolower s = map std_tolower p),
      CIStartsWith = (\<lambda>s p. starts_with (map std_tolower p) (map std_tolower s)),
      Replace = (\<lambda>s f t. s),
      Split = (\<lambda>s p. [s]),
      Join = (\<lambda>xs sep. concat xs),
      CharacterIsAlpha = (\<lambda>c. CHR ''a'' \<le> std_tolower c \<and> std_tolower c \<le> CHR ''z''),
      CharacterIsAlphaNumeric = (\<lambda>c. CHR ''a'' \<le> std_tolower c \<and> std_tolower c \<le> CHR ''z'' \<or>
                                     CHR ''0'' \<le> c \<and> c \<le> CHR ''9''),
      URLDecode = (\<lambda>s b. percent_decode s),
      URLEncode = (\<lambda>s b. percent_encode s),
      Glob = (\<lambda>s p. s = p),
      extension_file_prefixes = [''http://'', ''https://'', ''hf://'']\<rparr>"

lemma byte_strings_std [simp]: "byte_strings std_api"
  by (simp add: byte_strings_def std_api_def std_tolower_def less_eq_char_def)

lemma url_coding_std [simp]: "url_coding std_api"
  by (simp add: url_coding_def std_api_def percent_encode_separators)
     (simp add: percent_encode_def)

end
