(* ===== verification/S3_Provider.thy ===== *)
theory S3_Provider
  imports Duckdb_Api
begin

text \<open>
  Providers and authentication parameters (src/src/s3/s3_provider.cpp, s3_auth.cpp): which URL
  belongs to which provider, the aliases of URL schemes, the parameters read from secrets and
  settings and the two phases in which the endpoint is completed. A \<open>Value\<close> holding a list of
  strings is a list whose \<open>None\<close> elements are NULL.
\<close>

section \<open>Providers\<close>

datatype S3ProviderType = S3 | GCS | R2

datatype S3AuthType = ANONYMOUS | SIGV4 | BEARER

record S3ProviderMatch =
  match_type :: S3ProviderType
  match_prefix :: string

definition ProviderMatches :: "S3ProviderMatch list" where
  "ProviderMatches =
     [\<lparr>match_type = S3, match_prefix = ''s3://''\<rparr>, \<lparr>match_type = S3, match_prefix = ''s3a://''\<rparr>,
      \<lparr>match_type = S3, match_prefix = ''s3n://''\<rparr>, \<lparr>match_type = GCS, match_prefix = ''gcs://''\<rparr>,
      \<lparr>match_type = GCS, match_prefix = ''gs://''\<rparr>, \<lparr>match_type = R2, match_prefix = ''r2://''\<rparr>]"

definition SchemeIsReserved :: "duckdb_api \<Rightarrow> string \<Rightarrow> bool" where
  "SchemeIsReserved D scheme \<longleftrightarrow>
     (let prefix = scheme @ ''://''
      in list_ex (\<lambda>m. prefix = match_prefix m) ProviderMatches \<or>
         list_ex (\<lambda>entry. prefix = entry) (extension_file_prefixes D) \<or>
         scheme = ''file'' \<or> scheme = ''abfs'')"

definition SchemeSyntaxIsValid :: "duckdb_api \<Rightarrow> string \<Rightarrow> bool" where
  "SchemeSyntaxIsValid D scheme \<longleftrightarrow>
     (case scheme of
        [] \<Rightarrow> False
      | c # cs \<Rightarrow>
          CharacterIsAlpha D c \<and>
          list_all (\<lambda>x. CharacterIsAlphaNumeric D x \<or> x = CHR ''+'' \<or> x = CHR ''-'' \<or> x = CHR ''.'') cs)"

text \<open>\<open>normalized\<close> and \<open>seen\<close> of the code hold the same strings.\<close>

fun NormalizeLoop :: "duckdb_api \<Rightarrow> string option list \<Rightarrow> string list \<Rightarrow> string list res" where
  "NormalizeLoop D [] seen = Inr seen"
| "NormalizeLoop D (None # rest) seen =
     Inl (Exn InvalidInputException ''s3_url_scheme_aliases does not accept NULL elements'' [])"
| "NormalizeLoop D (Some element # rest) seen =
     (let alias = Trim D (Lower D element)
      in if \<not> SchemeSyntaxIsValid D alias then
           Inl (Exn InvalidInputException
             (''Invalid URL scheme alias '%s': provide bare scheme names such as 'oss'' @ [CHR 0x27]) [element])
         else if SchemeIsReserved D alias then
           Inl (Exn InvalidInputException
             (''Scheme '%s' is already handled by a built-in filesystem and cannot be added to 's3_url_scheme_aliases'' @ [CHR 0x27])
             [alias])
         else NormalizeLoop D rest (if alias \<in> set seen then seen else seen @ [alias]))"

definition NormalizeSchemeAliases :: "duckdb_api \<Rightarrow> string option list option \<Rightarrow> string list res" where
  "NormalizeSchemeAliases D aliases =
     (case aliases of None \<Rightarrow> Inr [] | Some elements \<Rightarrow> NormalizeLoop D elements [])"

fun AliasPrefixLoop :: "duckdb_api \<Rightarrow> string option list \<Rightarrow> string list" where
  "AliasPrefixLoop D [] = []"
| "AliasPrefixLoop D (None # rest) = AliasPrefixLoop D rest"
| "AliasPrefixLoop D (Some element # rest) =
     (let alias = Lower D element
      in if \<not> SchemeSyntaxIsValid D alias \<or> SchemeIsReserved D alias then AliasPrefixLoop D rest
         else (alias @ ''://'') # AliasPrefixLoop D rest)"

text \<open>\<open>None\<close> is a setting that is missing, NULL or not a list.\<close>

definition GetSchemeAliasPrefixes :: "duckdb_api \<Rightarrow> string option list option \<Rightarrow> string list" where
  "GetSchemeAliasPrefixes D setting =
     (case setting of None \<Rightarrow> [] | Some elements \<Rightarrow> AliasPrefixLoop D elements)"

definition TryMatchUrl :: "duckdb_api \<Rightarrow> string \<Rightarrow> S3ProviderMatch option" where
  "TryMatchUrl D url = find (\<lambda>m. StartsWith D (Lower D url) (match_prefix m)) ProviderMatches"

definition TryMatchUrlAlias :: "duckdb_api \<Rightarrow> string \<Rightarrow> string list \<Rightarrow> S3ProviderMatch option" where
  "TryMatchUrlAlias D url scheme_alias_prefixes =
     (case TryMatchUrl D url of
        Some m \<Rightarrow> Some m
      | None \<Rightarrow>
          map_option (\<lambda>prefix. \<lparr>match_type = S3, match_prefix = prefix\<rparr>)
            (find (StartsWith D (Lower D url)) scheme_alias_prefixes))"

definition MatchUrl :: "duckdb_api \<Rightarrow> string \<Rightarrow> S3ProviderMatch res" where
  "MatchUrl D url =
     (case TryMatchUrl D url of
        Some m \<Rightarrow> Inr m
      | None \<Rightarrow>
          Inl (Exn IOException
            ''URL needs to start with %s (or a scheme listed in the 's3_url_scheme_aliases' setting)''
            [Join D (map match_prefix ProviderMatches) '', '']))"

definition DefaultSecretScope :: "string \<Rightarrow> string list res" where
  "DefaultSecretScope secret_type =
     (if secret_type = ''s3'' then Inr [''s3://'', ''s3n://'', ''s3a://'']
      else if secret_type = ''r2'' then Inr [''r2://'']
      else if secret_type = ''gcs'' then Inr [''gcs://'', ''gs://'']
      else if secret_type = ''aws'' then Inr ['''']
      else Inl (Exn InternalException (''Unknown secret type found in httpfs extension: '%s'' @ [CHR 0x27]) [secret_type]))"

definition SecretTypes :: "string list" where
  "SecretTypes = [''s3'', ''r2'', ''gcs'', ''aws'']"

definition CredentialMaterialKeys :: "string list" where
  "CredentialMaterialKeys =
     [''key_id'', ''secret'', ''session_token'', ''region'', ''endpoint'', ''kms_key_id'',
      ''url_style'', ''use_ssl'', ''url_compatibility_mode'', ''requester_pays'', ''bearer_token'',
      ''account_id'']"

section \<open>Authentication parameters\<close>

record S3AuthParams =
  provider_type :: S3ProviderType
  scheme_is_alias :: bool
  region :: string
  access_key_id :: string
  secret_access_key :: string
  session_token :: string
  endpoint :: string
  kms_key_id :: string
  url_style :: string
  use_ssl :: bool
  s3_url_compatibility_mode :: bool
  requester_pays :: bool
  oauth2_bearer_token :: string

definition init_auth :: S3AuthParams where
  "init_auth =
     \<lparr>provider_type = S3, scheme_is_alias = False, region = [], access_key_id = [],
      secret_access_key = [], session_token = [], endpoint = [], kms_key_id = [], url_style = [],
      use_ssl = True, s3_url_compatibility_mode = False, requester_pays = False,
      oauth2_bearer_token = []\<rparr>"

definition EndpointIsAWS :: "duckdb_api \<Rightarrow> string \<Rightarrow> bool" where
  "EndpointIsAWS D e \<longleftrightarrow> (if e = [] then True else StartsWith D e ''s3.'' \<and> EndsWith D e ''.amazonaws.com'')"

definition RequiresExplicitEndpoint :: "S3AuthParams \<Rightarrow> bool" where
  "RequiresExplicitEndpoint p \<longleftrightarrow> scheme_is_alias p \<or> provider_type p = R2"

definition EndpointIsUnresolved :: "duckdb_api \<Rightarrow> S3AuthParams \<Rightarrow> bool" where
  "EndpointIsUnresolved D p \<longleftrightarrow> Trim D (endpoint p) = []"

definition ApplyProviderDefaults :: "S3AuthParams \<Rightarrow> S3AuthParams" where
  "ApplyProviderDefaults p =
     (if provider_type p \<noteq> GCS then p
      else
        let q = (if endpoint p = [] then p\<lparr>endpoint := ''storage.googleapis.com''\<rparr> else p)
        in if url_style q = [] then q\<lparr>url_style := ''path''\<rparr> else q)"

definition aws_endpoint :: "string \<Rightarrow> string" where
  "aws_endpoint r = ''s3.'' @ r @ ''.amazonaws.com''"

definition ApplyDerivedDefaults :: "duckdb_api \<Rightarrow> S3AuthParams \<Rightarrow> S3AuthParams" where
  "ApplyDerivedDefaults D p =
     (if \<not> EndpointIsAWS D (endpoint p) then p
      else if region p = [] \<and> access_key_id p = [] then p\<lparr>endpoint := ''s3.amazonaws.com''\<rparr>
      else
        let q = (if region p = [] then p\<lparr>region := ''us-east-1''\<rparr> else p)
        in q\<lparr>endpoint := aws_endpoint (region q)\<rparr>)"

definition InitializeAuthParams :: "duckdb_api \<Rightarrow> S3AuthParams \<Rightarrow> S3AuthParams" where
  "InitializeAuthParams D p =
     (let q = ApplyProviderDefaults p
      in if RequiresExplicitEndpoint q \<and> EndpointIsUnresolved D q then q
         else ApplyDerivedDefaults D q)"

definition FinalizeAuthParams :: "duckdb_api \<Rightarrow> S3AuthParams \<Rightarrow> S3AuthParams res" where
  "FinalizeAuthParams D p =
     (let q = ApplyProviderDefaults p
      in if RequiresExplicitEndpoint q \<and> EndpointIsUnresolved D q then
           Inl (if provider_type q = R2
                then Exn IOException
                       ''R2 requires an endpoint; provide account_id in the secret or s3_endpoint in the URL'' []
                else Exn IOException
                       ''An aliased URL scheme requires an endpoint; provide ENDPOINT in the secret, set s3_endpoint, or pass s3_endpoint in the URL'' [])
         else Inr (ApplyDerivedDefaults D q))"

definition SetRegion :: "duckdb_api \<Rightarrow> string \<Rightarrow> S3AuthParams \<Rightarrow> S3AuthParams res" where
  "SetRegion D new_region p = FinalizeAuthParams D (p\<lparr>region := new_region\<rparr>)"

definition GetAuthType :: "S3AuthParams \<Rightarrow> S3AuthType" where
  "GetAuthType p =
     (if provider_type p = GCS \<and> oauth2_bearer_token p \<noteq> [] then BEARER
      else if secret_access_key p = [] \<and> access_key_id p = [] then ANONYMOUS
      else SIGV4)"

definition auth_equal :: "S3AuthParams \<Rightarrow> S3AuthParams \<Rightarrow> bool" where
  "auth_equal p q \<longleftrightarrow>
     provider_type p = provider_type q \<and> scheme_is_alias p = scheme_is_alias q \<and> region p = region q \<and>
     access_key_id p = access_key_id q \<and> secret_access_key p = secret_access_key q \<and>
     session_token p = session_token q \<and> endpoint p = endpoint q \<and> kms_key_id p = kms_key_id q \<and>
     url_style p = url_style q \<and> use_ssl p = use_ssl q \<and>
     s3_url_compatibility_mode p = s3_url_compatibility_mode q \<and>
     requester_pays p = requester_pays q \<and> oauth2_bearer_token p = oauth2_bearer_token q"

section \<open>Reading secrets and settings\<close>

text \<open>
  The secret reader of DuckDB returns the scope in which a key was found and its value, \<open>None\<close>
  for NULL. Its operations and the two conversions of a \<open>Value\<close> are parameters.
\<close>

datatype setting_scope = SECRET_SCOPE | GLOBAL_SCOPE | OTHER_SCOPE

record 'v S3KeyValueReader =
  use_env_variables :: bool
  read_key :: "string \<Rightarrow> setting_scope option \<times> 'v option"
  read_key_or_setting :: "string \<Rightarrow> string \<Rightarrow> setting_scope option \<times> 'v option"
  read_key_into :: "string \<Rightarrow> string \<Rightarrow> setting_scope option \<times> string"
  get_string :: "'v \<Rightarrow> string"
  get_bool :: "'v \<Rightarrow> bool"

definition accept_value :: "'v S3KeyValueReader \<Rightarrow> setting_scope option \<times> 'v option \<Rightarrow> ('v \<Rightarrow> 'a) \<Rightarrow> 'a \<Rightarrow> 'a" where
  "accept_value R found get result =
     (case found of
        (scope, None) \<Rightarrow> result
      | (scope, Some v) \<Rightarrow>
          if scope = Some GLOBAL_SCOPE \<and> \<not> use_env_variables R then result else get v)"

definition TryGetSecretKeyOrSetting ::
  "'v S3KeyValueReader \<Rightarrow> string \<Rightarrow> string \<Rightarrow> ('v \<Rightarrow> 'a) \<Rightarrow> 'a \<Rightarrow> setting_scope option \<times> 'a" where
  "TryGetSecretKeyOrSetting R secret_key setting_name get result =
     (let found = read_key_or_setting R secret_key setting_name
      in (fst found, accept_value R found get result))"

definition TryGetSecretKeysOrSetting ::
  "'v S3KeyValueReader \<Rightarrow> string \<Rightarrow> string \<Rightarrow> string \<Rightarrow> ('v \<Rightarrow> 'a) \<Rightarrow> 'a \<Rightarrow> setting_scope option \<times> 'a" where
  "TryGetSecretKeysOrSetting R secret_key legacy_secret_key setting_name get result =
     (let f1 = read_key R secret_key;
          f2 = (if fst f1 = None then read_key R legacy_secret_key else f1);
          found = (if fst f2 = None then read_key_or_setting R secret_key setting_name else f2)
      in (fst found, accept_value R found get result))"

definition ReadAuthParams :: "duckdb_api \<Rightarrow> 'v S3KeyValueReader \<Rightarrow> string \<Rightarrow> S3AuthParams \<Rightarrow> S3AuthParams" where
  "ReadAuthParams D R file_path result =
     (let provider_match = TryMatchUrl D file_path;
          str = (\<lambda>key setting old. snd (TryGetSecretKeyOrSetting R key setting (get_string R) old));
          flag = (\<lambda>key setting old. snd (TryGetSecretKeyOrSetting R key setting (get_bool R) old));
          r1 = result
            \<lparr>provider_type := (case provider_match of Some m \<Rightarrow> match_type m | None \<Rightarrow> S3),
             scheme_is_alias := provider_match = None,
             region := str ''region'' ''s3_region'' (region result),
             access_key_id := str ''key_id'' ''s3_access_key_id'' (access_key_id result),
             secret_access_key := str ''secret'' ''s3_secret_access_key'' (secret_access_key result),
             session_token := str ''session_token'' ''s3_session_token'' (session_token result),
             use_ssl := flag ''use_ssl'' ''s3_use_ssl'' (use_ssl result),
             kms_key_id := str ''kms_key_id'' ''s3_kms_key_id'' (kms_key_id result),
             s3_url_compatibility_mode :=
               snd (TryGetSecretKeysOrSetting R ''url_compatibility_mode'' ''s3_url_compatibility_mode''
                      ''s3_url_compatibility_mode'' (get_bool R) (s3_url_compatibility_mode result)),
             requester_pays := flag ''requester_pays'' ''s3_requester_pays'' (requester_pays result)\<rparr>;
          (endpoint_scope, e) =
            TryGetSecretKeyOrSetting R ''endpoint'' ''s3_endpoint'' (get_string R) (endpoint r1);
          (style_scope, u) =
            TryGetSecretKeyOrSetting R ''url_style'' ''s3_url_style'' (get_string R) (url_style r1);
          r2 = r1\<lparr>endpoint := e, url_style := u\<rparr>;
          r3 = (if provider_type r2 \<noteq> GCS then r2
                else r2
                  \<lparr>endpoint := (if e = [] \<or> endpoint_scope \<noteq> Some SECRET_SCOPE
                                then ''storage.googleapis.com'' else e),
                   url_style := (if u = [] \<or> style_scope \<noteq> Some SECRET_SCOPE then ''path'' else u),
                   oauth2_bearer_token := snd (read_key_into R ''bearer_token'' (oauth2_bearer_token r2))\<rparr>)
      in InitializeAuthParams D r3)"

text \<open>\<open>ReadFrom\<close> without a file opener has no settings or secrets to read.\<close>

definition ReadFrom :: "duckdb_api \<Rightarrow> 'v S3KeyValueReader option \<Rightarrow> string \<Rightarrow> S3AuthParams" where
  "ReadFrom D opener file_path =
     (case opener of
        None \<Rightarrow>
          init_auth
            \<lparr>provider_type := (case TryMatchUrl D file_path of Some m \<Rightarrow> match_type m | None \<Rightarrow> S3),
             scheme_is_alias := TryMatchUrl D file_path = None\<rparr>
      | Some R \<Rightarrow> ReadAuthParams D R file_path init_auth)"

section \<open>Error texts\<close>

definition NL :: char where
  "NL = CHR 0x0A"

definition GetBadRequestError :: "S3AuthParams \<Rightarrow> string \<Rightarrow> string" where
  "GetBadRequestError p correct_region =
     (if provider_type p \<noteq> S3 then []
      else [NL, NL] @ ''Bad Request - this can be caused by the S3 region being set incorrectly.'' @
        (if region p = [] then NL # ''* No region is provided.''
         else NL # ''* Provided region is: '' @ [CHR 0x22] @ region p @ [CHR 0x22]) @
        (if correct_region \<noteq> [] then NL # ''* Correct region is: '' @ [CHR 0x22] @ correct_region @ [CHR 0x22]
         else []))"

definition GetAuthError :: "S3AuthParams \<Rightarrow> string" where
  "GetAuthError p =
     (if provider_type p = GCS then
        [NL, NL] @ ''Authentication Failure - GCS authentication failed.'' @
        (if oauth2_bearer_token p = [] \<and> secret_access_key p = [] \<and> access_key_id p = [] then
           NL # ''* No credentials provided.'' @
           NL # ''* For OAuth2: CREATE SECRET (TYPE GCS, bearer_token 'your-token')'' @
           NL # ''* For HMAC: CREATE SECRET (TYPE GCS, key_id 'key', secret 'secret')''
         else if oauth2_bearer_token p \<noteq> [] then
           NL # ''* Bearer token was provided but authentication failed.'' @
           NL # ''* Ensure your OAuth2 token is valid and not expired.''
         else
           NL # ''* HMAC credentials were provided but authentication failed.'' @
           NL # ''* Ensure your HMAC key_id and secret are correct.'')
      else if provider_type p = R2 then
        [NL, NL] @ ''Authentication Failure - R2 authentication failed.'' @
        (if secret_access_key p = [] \<and> access_key_id p = [] then
           NL # ''* No credentials are provided.'' @
           NL # ''* Create an R2 secret with account_id, key_id, and secret.''
         else NL # ''* Credentials were provided, but they did not work.'')
      else
        [NL, NL] @ ''Authentication Failure - this is usually caused by invalid or missing credentials.'' @
        (if secret_access_key p = [] \<and> access_key_id p = [] then NL # ''* No credentials are provided.''
         else NL # ''* Credentials are provided, but they did not work.'') @
        NL # ''* See https://duckdb.org/docs/stable/extensions/httpfs/s3api.html'')"

section \<open>Scheme aliases\<close>

lemma starts_with_scheme:
  assumes "CHR '':'' \<notin> set x" "CHR '':'' \<notin> set y"
  shows "starts_with (x @ ''://'') (y @ ''://'' @ r) \<longleftrightarrow> x = y"
  using assms by (induction x arbitrary: y) (case_tac y; auto)+

lemma builtin_scheme:
  assumes "m \<in> set ProviderMatches"
  obtains x where "match_prefix m = x @ ''://''" "CHR '':'' \<notin> set x"
proof -
  have "\<forall>m \<in> set ProviderMatches. \<exists>x \<in> set [''s3'', ''s3a'', ''s3n'', ''gcs'', ''gs'', ''r2''].
      match_prefix m = x @ ''://'' \<and> CHR '':'' \<notin> set x"
    by (simp add: ProviderMatches_def)
  with assms that show ?thesis by blast
qed

lemma valid_scheme_colon: "byte_strings D \<Longrightarrow> SchemeSyntaxIsValid D s \<Longrightarrow> CHR '':'' \<notin> set s"
  by (auto simp: SchemeSyntaxIsValid_def list_all_iff dest: byte_stringsD split: list.splits)

definition accepted_alias :: "duckdb_api \<Rightarrow> string \<Rightarrow> bool" where
  "accepted_alias D y \<longleftrightarrow> Lower D y = y \<and> SchemeSyntaxIsValid D y \<and> \<not> SchemeIsReserved D y"

lemma Lower_Trim_Lower: "byte_strings D \<Longrightarrow> Lower D (Trim D (Lower D s)) = Trim D (Lower D s)"
  using set_trim_space [of "map std_tolower s"]
  by (auto simp: byte_stringsD intro!: map_idI)

lemma NormalizeLoop_accepted:
  "NormalizeLoop D xs seen = Inr ys \<Longrightarrow> byte_strings D \<Longrightarrow> distinct seen \<Longrightarrow>
     list_all (accepted_alias D) seen \<Longrightarrow> distinct ys \<and> list_all (accepted_alias D) ys"
  by (induction D xs seen rule: NormalizeLoop.induct)
     (auto simp: Let_def accepted_alias_def Lower_Trim_Lower split: if_splits)

lemma AliasPrefixLoop_accepted:
  "list_all (accepted_alias D) ys \<Longrightarrow> AliasPrefixLoop D (map Some ys) = map (\<lambda>y. y @ ''://'') ys"
  by (induction ys) (auto simp: accepted_alias_def)

lemma Normalize_accepted:
  assumes "byte_strings D" "NormalizeSchemeAliases D aliases = Inr ys"
  shows "distinct ys \<and> list_all (accepted_alias D) ys"
  using assms NormalizeLoop_accepted [of D _ "[]" ys]
  by (auto simp: NormalizeSchemeAliases_def split: option.splits)

lemma find_unique:
  "x \<in> set xs \<Longrightarrow> \<forall>y \<in> set xs. P y \<longleftrightarrow> y = x \<Longrightarrow> find P xs = Some x"
  by (induction xs) auto

lemma accepted_not_builtin:
  assumes "byte_strings D" "accepted_alias D y" "m \<in> set ProviderMatches"
  shows "\<not> starts_with (match_prefix m) (y @ ''://'' @ r)"
proof -
  from assms(3) obtain x where x: "match_prefix m = x @ ''://''" "CHR '':'' \<notin> set x"
    by (rule builtin_scheme)
  from assms(2,3) have "y @ ''://'' \<noteq> match_prefix m"
    by (auto simp: accepted_alias_def SchemeIsReserved_def Let_def list_ex_iff)
  with x assms(1,2) show ?thesis
    using starts_with_scheme [of x y r]
    by (auto simp: accepted_alias_def valid_scheme_colon)
qed

text \<open>
  C38: the aliases that the setting accepts are distinct, and reading them back gives exactly
  their prefixes; a URL in any letter case with such a scheme is then served by S3 under the
  prefix of its own scheme, never by a built-in provider or by another alias.
\<close>

theorem alias_routing:
  assumes "byte_strings D" "NormalizeSchemeAliases D aliases = Inr ys"
    and "y \<in> set ys" "Lower D scheme = y"
  shows "distinct ys \<and>
    GetSchemeAliasPrefixes D (Some (map Some ys)) = map (\<lambda>y. y @ ''://'') ys \<and>
    TryMatchUrlAlias D (scheme @ ''://'' @ rest) (GetSchemeAliasPrefixes D (Some (map Some ys))) =
      Some \<lparr>match_type = S3, match_prefix = y @ ''://''\<rparr>"
proof -
  from Normalize_accepted [OF assms(1,2)] have ys: "distinct ys" "list_all (accepted_alias D) ys"
    by auto
  then have get: "GetSchemeAliasPrefixes D (Some (map Some ys)) = map (\<lambda>y. y @ ''://'') ys"
    by (simp add: GetSchemeAliasPrefixes_def AliasPrefixLoop_accepted)
  from ys(2) assms(3) have y: "accepted_alias D y" by (simp add: list_all_iff)
  have colon: "map std_tolower ''://'' = ''://''" by code_simp
  have low: "Lower D (scheme @ ''://'' @ rest) = y @ ''://'' @ map std_tolower rest"
    using assms(1,4) colon by (simp add: byte_stringsD)
  have "TryMatchUrl D (scheme @ ''://'' @ rest) = None"
    unfolding TryMatchUrl_def low byte_stringsD(3) [OF assms(1)] find_None_iff
    using accepted_not_builtin [OF assms(1) y] by blast
  moreover have "find (StartsWith D (Lower D (scheme @ ''://'' @ rest))) (map (\<lambda>y. y @ ''://'') ys) =
      Some (y @ ''://'')"
  proof (rule find_unique, goal_cases)
    case 1
    show ?case using assms(3) by simp
  next
    case 2
    have colon_free: "CHR '':'' \<notin> set y'" if "y' \<in> set ys" for y'
      using that ys(2) valid_scheme_colon [OF assms(1)]
      by (simp add: list_all_iff accepted_alias_def)
    have "starts_with (y' @ ''://'') (y @ ''://'' @ map std_tolower rest) = (y' = y)"
      if "y' \<in> set ys" for y'
      using starts_with_scheme colon_free that assms(3) by blast
    then show ?case
      unfolding low by (auto simp: byte_stringsD(3) [OF assms(1)] simp del: append_Cons)
  qed
  ultimately show ?thesis
    using ys(1) by (simp add: get TryMatchUrlAlias_def)
qed

theorem alias_routing_witness:
  "GetSchemeAliasPrefixes std_api (Some [Some ''oss'']) = [''oss://''] \<and>
   TryMatchUrlAlias std_api ''OSS://b/k'' [''oss://''] =
     Some \<lparr>match_type = S3, match_prefix = ''oss://''\<rparr>"
proof -
  have "NormalizeSchemeAliases std_api (Some [Some '' Oss'', Some ''oss'']) = Inr [''oss'']"
    and "Lower std_api ''OSS'' = ''oss''"
    by code_simp+
  from alias_routing [OF byte_strings_std this(1) _ this(2), of "''b/k''"] show ?thesis
    by auto
qed

section \<open>The endpoint\<close>

lemma EndpointIsAWS_derived [simp]:
  assumes "byte_strings D"
  shows "EndpointIsAWS D (aws_endpoint r)" "EndpointIsAWS D ''s3.amazonaws.com''"
proof -
  have "ends_with ''.amazonaws.com'' ((''s3.'' @ r) @ ''.amazonaws.com'')"
    by (rule ends_with_append)
  with assms show "EndpointIsAWS D (aws_endpoint r)"
    by (simp add: EndpointIsAWS_def byte_stringsD aws_endpoint_def)
  have "ends_with ''.amazonaws.com'' ''s3.amazonaws.com''"
    by code_simp
  with assms show "EndpointIsAWS D ''s3.amazonaws.com''"
    by (simp add: EndpointIsAWS_def byte_stringsD)
qed

lemma derived_unresolved [simp]:
  assumes "byte_strings D"
  shows "Trim D (aws_endpoint r) \<noteq> []" "Trim D ''s3.amazonaws.com'' \<noteq> []"
  using assms by (simp_all add: byte_stringsD trim_space_Nil aws_endpoint_def is_space_def)

lemma ApplyDerivedDefaults_frame [simp]:
  "provider_type (ApplyDerivedDefaults D p) = provider_type p"
  "scheme_is_alias (ApplyDerivedDefaults D p) = scheme_is_alias p"
  "url_style (ApplyDerivedDefaults D p) = url_style p"
  "access_key_id (ApplyDerivedDefaults D p) = access_key_id p"
  by (simp_all add: ApplyDerivedDefaults_def Let_def)

lemma ApplyDerivedDefaults_idem:
  "byte_strings D \<Longrightarrow> ApplyDerivedDefaults D (ApplyDerivedDefaults D p) = ApplyDerivedDefaults D p"
  by (auto simp: ApplyDerivedDefaults_def Let_def)

lemma ApplyDerivedDefaults_endpoint:
  "endpoint p \<noteq> [] \<Longrightarrow> endpoint (ApplyDerivedDefaults D p) \<noteq> []"
  by (auto simp: ApplyDerivedDefaults_def Let_def aws_endpoint_def)

lemma ApplyDerivedDefaults_resolved:
  "byte_strings D \<Longrightarrow> \<not> EndpointIsUnresolved D p \<Longrightarrow>
     \<not> EndpointIsUnresolved D (ApplyDerivedDefaults D p)"
  by (auto simp: ApplyDerivedDefaults_def Let_def EndpointIsUnresolved_def)

lemma ApplyProviderDefaults_done:
  "provider_type p \<noteq> GCS \<or> endpoint p \<noteq> [] \<and> url_style p \<noteq> [] \<Longrightarrow> ApplyProviderDefaults p = p"
  by (auto simp: ApplyProviderDefaults_def)

lemma ApplyProviderDefaults_result:
  "provider_type (ApplyProviderDefaults p) \<noteq> GCS \<or>
   endpoint (ApplyProviderDefaults p) \<noteq> [] \<and> url_style (ApplyProviderDefaults p) \<noteq> []"
  by (auto simp: ApplyProviderDefaults_def Let_def)

lemma ApplyProviderDefaults_idem [simp]:
  "ApplyProviderDefaults (ApplyProviderDefaults p) = ApplyProviderDefaults p"
  by (rule ApplyProviderDefaults_done) (rule ApplyProviderDefaults_result)

lemma ApplyProviderDefaults_derived [simp]:
  "ApplyProviderDefaults (ApplyDerivedDefaults D (ApplyProviderDefaults p)) =
     ApplyDerivedDefaults D (ApplyProviderDefaults p)"
  using ApplyProviderDefaults_result [of p] ApplyDerivedDefaults_endpoint
  by (intro ApplyProviderDefaults_done) auto

lemma RequiresExplicitEndpoint_derived [simp]:
  "RequiresExplicitEndpoint (ApplyDerivedDefaults D p) = RequiresExplicitEndpoint p"
  by (simp add: RequiresExplicitEndpoint_def)

text \<open>
  C39: completing the parameters in two phases is the same as completing them once: when the URL
  adds no parameters in between, what the first phase derives is neither rejected nor changed by
  the second, and a missing endpoint is reported by the second as it would have been at once.
\<close>

theorem Finalize_Initialize:
  assumes "byte_strings D"
  shows "FinalizeAuthParams D (InitializeAuthParams D p) = FinalizeAuthParams D p"
  using assms
  by (auto simp: FinalizeAuthParams_def InitializeAuthParams_def Let_def ApplyDerivedDefaults_idem
      ApplyDerivedDefaults_resolved)

theorem Finalize_Initialize_witness:
  "FinalizeAuthParams std_api (InitializeAuthParams std_api init_auth) =
     FinalizeAuthParams std_api init_auth"
  by (rule Finalize_Initialize [OF byte_strings_std])

text \<open>
  For an R2 bucket or an aliased scheme no AWS host is ever made up: finalizing fails exactly
  when no endpoint was given (an all-blank one counts as none), and otherwise the parameters are
  kept as they are, unless the given endpoint is itself an AWS host.
\<close>

theorem FinalizeAuthParams_explicit:
  assumes "byte_strings D" "RequiresExplicitEndpoint p" "provider_type p \<noteq> GCS"
  shows "(case FinalizeAuthParams D p of
            Inl e \<Rightarrow> list_all is_space (endpoint p) \<and> exn_class e = IOException
          | Inr q \<Rightarrow> \<not> list_all is_space (endpoint p) \<and>
              (q = p \<or> starts_with ''s3.'' (endpoint p) \<and> ends_with ''.amazonaws.com'' (endpoint p)))"
proof (cases "list_all is_space (endpoint p)")
  case True
  then show ?thesis
    using assms
    by (simp add: FinalizeAuthParams_def ApplyProviderDefaults_done EndpointIsUnresolved_def
        byte_stringsD trim_space_Nil)
next
  case False
  then have "endpoint p \<noteq> []" by auto
  with False show ?thesis
    using assms
    by (simp add: FinalizeAuthParams_def ApplyProviderDefaults_done EndpointIsUnresolved_def
        byte_stringsD trim_space_Nil ApplyDerivedDefaults_def EndpointIsAWS_def)
qed

theorem FinalizeAuthParams_explicit_witness:
  "FinalizeAuthParams std_api (init_auth\<lparr>provider_type := R2, endpoint := ''acc.r2.cloudflarestorage.com''\<rparr>) =
     Inr (init_auth\<lparr>provider_type := R2, endpoint := ''acc.r2.cloudflarestorage.com''\<rparr>)"
proof -
  let ?p = "init_auth\<lparr>provider_type := R2, endpoint := ''acc.r2.cloudflarestorage.com''\<rparr>"
  have "RequiresExplicitEndpoint ?p" "provider_type ?p \<noteq> GCS"
    "\<not> list_all is_space (endpoint ?p)" "\<not> starts_with ''s3.'' (endpoint ?p)"
    by (simp_all add: RequiresExplicitEndpoint_def is_space_def)
  with FinalizeAuthParams_explicit [OF byte_strings_std, of ?p] show ?thesis
    by (simp split: sum.splits)
qed

text \<open>
  The retry with the region that the server named reaches that region: on an AWS endpoint
  the host is replaced by the one of the new region, on any other endpoint it is kept, and
  nothing but region and endpoint changes.
\<close>

theorem SetRegion_endpoint:
  assumes "byte_strings D" "provider_type p = S3" "\<not> scheme_is_alias p" "r \<noteq> []"
  shows "SetRegion D r p =
    Inr (p\<lparr>region := r, endpoint := (if EndpointIsAWS D (endpoint p) then aws_endpoint r else endpoint p)\<rparr>)"
  using assms
  by (simp add: SetRegion_def FinalizeAuthParams_def ApplyProviderDefaults_def
      RequiresExplicitEndpoint_def ApplyDerivedDefaults_def)

theorem SetRegion_endpoint_witness:
  "SetRegion std_api ''eu-west-1'' (init_auth\<lparr>endpoint := ''s3.us-east-1.amazonaws.com''\<rparr>) =
    Inr (init_auth\<lparr>region := ''eu-west-1'', endpoint := ''s3.eu-west-1.amazonaws.com''\<rparr>)"
proof -
  have "EndpointIsAWS std_api ''s3.us-east-1.amazonaws.com''"
    by code_simp
  then show ?thesis
    using SetRegion_endpoint [OF byte_strings_std, of "init_auth\<lparr>endpoint := ''s3.us-east-1.amazonaws.com''\<rparr>"
        "''eu-west-1''"]
    by (simp add: init_auth_def aws_endpoint_def)
qed

end
