(* ===== verification/S3_Url.thy ===== *)
theory S3_Url
  imports S3_Provider
begin

text \<open>
  S3 URLs (src/src/s3/s3_url.cpp): the split into bucket, key and query, the host and path for
  the two addressing styles, and the authentication parameters given in the query.
\<close>

section \<open>Query parameters\<close>

datatype S3URLEncodeMode = PATH | QUERY_COMPONENT

definition Decode :: "duckdb_api \<Rightarrow> string \<Rightarrow> string" where
  "Decode D input = URLDecode D input True"

definition Encode :: "duckdb_api \<Rightarrow> string \<Rightarrow> S3URLEncodeMode \<Rightarrow> string" where
  "Encode D input mode = URLEncode D input (mode = QUERY_COMPONENT)"

text \<open>
  The unordered map is an association list without duplicate keys; its order is never observed.
  The argument of the loop is the rest of the query from \<open>offset\<close> on.
\<close>

type_synonym query_params = "(string \<times> string) list"

definition erase_param :: "string \<Rightarrow> query_params \<Rightarrow> query_params" where
  "erase_param k ps = filter (\<lambda>p. fst p \<noteq> k) ps"

definition GetQueryParam :: "string \<Rightarrow> string \<Rightarrow> query_params \<Rightarrow> string \<times> query_params" where
  "GetQueryParam k param ps =
     (case map_of ps k of None \<Rightarrow> (param, ps) | Some v \<Rightarrow> (v, erase_param k ps))"

function ParseQueryLoop :: "duckdb_api \<Rightarrow> string \<Rightarrow> query_params \<Rightarrow> query_params res" where
  "ParseQueryLoop D s result =
     (let separator = char_find (CHR ''&'') s;
          parameter_end = (case separator of None \<Rightarrow> length s | Some n \<Rightarrow> n);
          equals = (case char_find (CHR ''='') s of
                      None \<Rightarrow> parameter_end
                    | Some e \<Rightarrow> if e > parameter_end then parameter_end else e);
          k = Decode D (take equals s);
          value_offset = (if equals = parameter_end then parameter_end else equals + 1);
          v = Decode D (substr s value_offset (parameter_end - value_offset))
      in if equals > 0 \<and> map_of result k \<noteq> None then
           Inl (Exn IOException (''Duplicate S3 URL query parameter '%s'' @ [CHR 0x27]) [k])
         else
           let result' = (if equals > 0 then (k, v) # result else result)
           in case separator of
                None \<Rightarrow> Inr result'
              | Some n \<Rightarrow> ParseQueryLoop D (drop (Suc n) s) result')"
  by pat_completeness auto
termination
  by (relation "measure (\<lambda>(D, s, r). length s)") (auto dest: char_find_less [OF sym])

declare ParseQueryLoop.simps [simp del]

definition ParseQueryParameters :: "duckdb_api \<Rightarrow> string \<Rightarrow> query_params res" where
  "ParseQueryParameters D url_query_param = ParseQueryLoop D url_query_param []"

definition bool_param ::
  "string \<Rightarrow> string \<Rightarrow> bool \<Rightarrow> query_params \<Rightarrow> (bool \<times> query_params) res" where
  "bool_param k message old ps =
     (case map_of ps k of
        None \<Rightarrow> Inr (old, ps)
      | Some v \<Rightarrow>
          if v = ''true'' then Inr (True, erase_param k ps)
          else if v = ''false'' then Inr (False, erase_param k ps)
          else Inl (Exn IOException message []))"

definition flag_message :: "string \<Rightarrow> string" where
  "flag_message name =
     ''Incorrect setting found for '' @ name @ '', allowed values are: 'true' or 'false'' @ [CHR 0x27]"

definition ReadQueryParams :: "duckdb_api \<Rightarrow> string \<Rightarrow> S3AuthParams \<Rightarrow> S3AuthParams res" where
  "ReadQueryParams D url_query_param params =
     (if url_query_param = [] then Inr params
      else bind_res (ParseQueryParameters D url_query_param) (\<lambda>q0.
        let (v1, q1) = GetQueryParam ''s3_region'' (region params) q0;
            (v2, q2) = GetQueryParam ''s3_access_key_id'' (access_key_id params) q1;
            (v3, q3) = GetQueryParam ''s3_secret_access_key'' (secret_access_key params) q2;
            (v4, q4) = GetQueryParam ''s3_session_token'' (session_token params) q3;
            (v5, q5) = GetQueryParam ''s3_endpoint'' (endpoint params) q4;
            (v6, q6) = GetQueryParam ''s3_url_style'' (url_style params) q5;
            params' = params\<lparr>region := v1, access_key_id := v2, secret_access_key := v3,
                             session_token := v4, endpoint := v5, url_style := v6\<rparr>
        in bind_res (bool_param ''s3_use_ssl''
               (flag_message ''s3_use_ssl'')
               (use_ssl params') q6) (\<lambda>(ssl, q7).
           bind_res (bool_param ''s3_requester_pays''
               (flag_message ''s3_requester_pays'')
               (requester_pays params') q7) (\<lambda>(pays, q8).
           if q8 \<noteq> [] then
             Inl (Exn IOException
               (''Invalid query parameters found. Supported parameters are:'' @ NL #
                '''s3_region', 's3_access_key_id', '' @
                '''s3_secret_access_key', 's3_session_token','' @ NL #
                '''s3_endpoint', 's3_url_style', 's3_use_ssl', 's3_requester_pays'' @ [CHR 0x27]) [])
           else Inr (params'\<lparr>use_ssl := ssl, requester_pays := pays\<rparr>)))))"

section \<open>Parsing\<close>

record ParsedS3Url =
  http_proto :: string
  url_prefix :: string
  url_host :: string
  url_bucket :: string
  url_key :: string
  url_path :: string
  url_query_param :: string
  trimmed_s3_url :: string

definition find_from :: "'a \<Rightarrow> 'a list \<Rightarrow> nat \<Rightarrow> nat option" where
  "find_from c s pos = map_option (\<lambda>n. pos + n) (char_find c (drop pos s))"

text \<open>The prefix of the URL: the one of its provider or, for an alias, its own scheme.\<close>

definition UrlPrefix :: "duckdb_api \<Rightarrow> string \<Rightarrow> string res" where
  "UrlPrefix D url =
     (case TryMatchUrl D url of
        Some m \<Rightarrow> Inr (match_prefix m)
      | None \<Rightarrow>
          (case str_find ''://'' url of
             None \<Rightarrow> bind_res (MatchUrl D url) (\<lambda>m. Inr (match_prefix m))
           | Some scheme_end \<Rightarrow> Inr (Lower D (take (scheme_end + 3) url))))"

text \<open>
  The query, the URL without it, and the key with its leading slash. When the question mark
  stands before \<open>slash_pos\<close> the unsigned difference wraps around and the key is the whole rest.
\<close>

definition SplitQuery :: "bool \<Rightarrow> string \<Rightarrow> nat \<Rightarrow> string \<times> string \<times> string" where
  "SplitQuery compatibility_mode url slash_pos =
     (if compatibility_mode then ([], url, drop slash_pos url)
      else
        let question_pos = char_find (CHR ''?'') url;
            query_param = (case question_pos of None \<Rightarrow> [] | Some q \<Rightarrow> drop (q + 1) url);
            trimmed = (case question_pos of None \<Rightarrow> url | Some q \<Rightarrow> take q url);
            key = (case question_pos of
                     Some q \<Rightarrow>
                       if query_param \<noteq> [] \<and> slash_pos \<le> q then substr url slash_pos (q - slash_pos)
                       else drop slash_pos url
                   | None \<Rightarrow> drop slash_pos url)
        in (query_param, trimmed, key))"

definition UseVhost :: "S3AuthParams \<Rightarrow> bool" where
  "UseVhost params \<longleftrightarrow> url_style params = [] \<or> url_style params = ''vhost'' \<or> url_style params = ''virtual''"

definition UsePath :: "S3AuthParams \<Rightarrow> string \<Rightarrow> bool" where
  "UsePath params bucket \<longleftrightarrow>
     url_style params = ''path'' \<or> (UseVhost params \<and> use_ssl params \<and> CHR ''.'' \<in> set bucket)"

text \<open>Host and path of the endpoint, before the key is appended to the path.\<close>

definition HostAndPath :: "S3AuthParams \<Rightarrow> string \<Rightarrow> string \<times> string" where
  "HostAndPath params bucket =
     (let (host, path) =
            (case char_find (CHR ''/'') (endpoint params) of
               Some sub \<Rightarrow> (take sub (endpoint params), drop sub (endpoint params))
             | None \<Rightarrow> (endpoint params, []))
      in if UsePath params bucket then (host, path @ ''/'' @ bucket)
         else if UseVhost params then (bucket @ ''.'' @ host, path)
         else (host, path))"

text \<open>\<open>find("//") + 2\<close> is 1 when nothing is found, because \<open>npos\<close> is the largest \<open>size_t\<close>.\<close>

definition Parse :: "duckdb_api \<Rightarrow> string \<Rightarrow> S3AuthParams \<Rightarrow> ParsedS3Url res" where
  "Parse D url params =
     bind_res (UrlPrefix D url) (\<lambda>prefix.
       let prefix_end_pos = (case str_find ''//'' url of None \<Rightarrow> 1 | Some n \<Rightarrow> n + 2)
       in case find_from (CHR ''/'') url prefix_end_pos of
            None \<Rightarrow> Inl (Exn IOException ''URL needs to contain a '/' after the host'' [])
          | Some slash_pos \<Rightarrow>
              let bucket = substr url prefix_end_pos (slash_pos - prefix_end_pos)
              in if bucket = [] then Inl (Exn IOException ''URL needs to contain a bucket name'' [])
                 else
                   let (query_param, trimmed, key) =
                         SplitQuery (s3_url_compatibility_mode params) url slash_pos;
                       (host, path) = HostAndPath params bucket
                   in if key = [] then Inl (Exn IOException ''URL needs to contain key'' [])
                      else Inr
                        \<lparr>http_proto = (if use_ssl params then ''https://'' else ''http://''),
                         url_prefix = prefix, url_host = host, url_bucket = bucket,
                         url_key = drop 1 key, url_path = path @ key,
                         url_query_param = query_param, trimmed_s3_url = trimmed\<rparr>)"

definition Resolve :: "duckdb_api \<Rightarrow> string \<Rightarrow> S3AuthParams \<Rightarrow> (ParsedS3Url \<times> S3AuthParams) res" where
  "Resolve D url params =
     bind_res (Parse D url params) (\<lambda>parsed_url.
     bind_res (ReadQueryParams D (url_query_param parsed_url) params) (\<lambda>params1.
     bind_res (FinalizeAuthParams D params1) (\<lambda>params2.
     bind_res (Parse D url params2) (\<lambda>parsed. Inr (parsed, params2)))))"

definition GetDisplayUrl :: "string \<Rightarrow> S3AuthParams \<Rightarrow> string" where
  "GetDisplayUrl url params =
     (if s3_url_compatibility_mode params then url
      else case char_find (CHR ''?'') url of None \<Rightarrow> url | Some q \<Rightarrow> take q url)"

definition GetHTTPUrl :: "duckdb_api \<Rightarrow> ParsedS3Url \<Rightarrow> string \<Rightarrow> string" where
  "GetHTTPUrl D u http_query_string =
     http_proto u @ url_host u @ Encode D (url_path u) PATH @
     (if http_query_string \<noteq> [] then ''?'' @ http_query_string else [])"

definition GetBucketPath :: "ParsedS3Url \<Rightarrow> string" where
  "GetBucketPath u =
     (let bucket_path = take (length (url_path u) - length (url_key u)) (url_path u)
      in if bucket_path = [] then ''/'' else bucket_path)"

section \<open>What a URL denotes\<close>

lemma str_find_slashes:
  assumes "CHR ''/'' \<notin> set scheme"
  shows "str_find ''//'' (scheme @ ''://'' @ r) = Some (length scheme + 1)"
  using assms by (induction scheme) auto

lemma char_find_take: "char_find c s = Some n \<Longrightarrow> c \<notin> set (take n s)"
  by (rule char_find_split)

lemma find_from_append:
  "c \<notin> set b \<Longrightarrow> find_from c (a @ b @ c # r) (length a) = Some (length a + length b)"
  by (simp add: find_from_def char_find_append)

lemma drop_prefix: "drop (length xs) (xs @ ys) = ys"
  by simp

lemma url_positions:
  fixes scheme bucket rest :: string
  assumes "CHR ''/'' \<notin> set scheme" "CHR ''/'' \<notin> set bucket"
  defines "url \<equiv> scheme @ ''://'' @ bucket @ CHR ''/'' # rest"
    and "host_pos \<equiv> length scheme + 1 + 2"
  shows "str_find ''//'' url = Some (length scheme + 1)"
    "find_from (CHR ''/'') url host_pos = Some (host_pos + length bucket)"
    "substr url host_pos (host_pos + length bucket - host_pos) = bucket"
    "drop (host_pos + length bucket) url = CHR ''/'' # rest"
proof -
  have u: "url = (scheme @ ''://'') @ bucket @ CHR ''/'' # rest" by (simp add: url_def)
  have l: "host_pos = length (scheme @ ''://'')" by (simp add: host_pos_def)
  show "str_find ''//'' url = Some (length scheme + 1)"
    using str_find_slashes [OF assms(1)] by (simp add: url_def)
  show "find_from (CHR ''/'') url host_pos = Some (host_pos + length bucket)"
    unfolding u l by (rule find_from_append [OF assms(2)])
  show "substr url host_pos (host_pos + length bucket - host_pos) = bucket"
    unfolding u l substr_def by simp
  have "drop (length ((scheme @ ''://'') @ bucket)) (((scheme @ ''://'') @ bucket) @ CHR ''/'' # rest) =
      CHR ''/'' # rest"
    by (rule drop_prefix)
  then show "drop (host_pos + length bucket) url = CHR ''/'' # rest"
    by (simp add: u l)
qed

lemma Parse_at:
  assumes "UrlPrefix D url = Inr prefix" "str_find ''//'' url = Some n"
    and "find_from (CHR ''/'') url (n + 2) = Some m"
    and "substr url (n + 2) (m - (n + 2)) = bucket" "bucket \<noteq> []"
    and "SplitQuery (s3_url_compatibility_mode params) url m = (query, trimmed, CHR ''/'' # key)"
  shows "Parse D url params =
    Inr \<lparr>http_proto = (if use_ssl params then ''https://'' else ''http://''),
         url_prefix = prefix, url_host = fst (HostAndPath params bucket), url_bucket = bucket,
         url_key = key, url_path = snd (HostAndPath params bucket) @ CHR ''/'' # key,
         url_query_param = query, trimmed_s3_url = trimmed\<rparr>"
  using assms by (simp add: Parse_def Let_def split: prod.splits)

lemma SplitQuery_plain:
  assumes "CHR ''?'' \<notin> set url \<or> mode"
  shows "SplitQuery mode url m = ([], url, drop m url)"
proof (cases mode)
  case False
  with assms have "char_find (CHR ''?'') url = None" by (simp add: char_find_None)
  with False show ?thesis by (simp add: SplitQuery_def)
qed (simp add: SplitQuery_def)

lemma SplitQuery_query:
  assumes "CHR ''?'' \<notin> set base" "query \<noteq> []" "m \<le> length base"
  shows "SplitQuery False (base @ CHR ''?'' # query) m = (query, base, drop m base)"
  using assms by (simp add: SplitQuery_def char_find_append substr_def)

lemma Parse_plain:
  assumes "CHR ''/'' \<notin> set scheme" "CHR ''/'' \<notin> set bucket" "bucket \<noteq> []"
    and "CHR ''?'' \<notin> set (scheme @ bucket @ key) \<or> s3_url_compatibility_mode params"
    and "UrlPrefix D (scheme @ ''://'' @ bucket @ CHR ''/'' # key) = Inr prefix"
  shows "Parse D (scheme @ ''://'' @ bucket @ CHR ''/'' # key) params =
    Inr \<lparr>http_proto = (if use_ssl params then ''https://'' else ''http://''),
         url_prefix = prefix, url_host = fst (HostAndPath params bucket), url_bucket = bucket,
         url_key = key, url_path = snd (HostAndPath params bucket) @ CHR ''/'' # key,
         url_query_param = [],
         trimmed_s3_url = scheme @ ''://'' @ bucket @ CHR ''/'' # key\<rparr>"
proof -
  note pos = url_positions [OF assms(1,2), of key]
  have q: "CHR ''?'' \<notin> set (scheme @ ''://'' @ bucket @ CHR ''/'' # key) \<or> s3_url_compatibility_mode params"
    using assms(4) by auto
  show ?thesis
    by (rule Parse_at [OF assms(5) pos(1,2,3) assms(3)])
       (simp only: SplitQuery_plain [OF q] pos(4))
qed

lemma Parse_query:
  assumes "CHR ''/'' \<notin> set scheme" "CHR ''/'' \<notin> set bucket" "bucket \<noteq> []"
    and "CHR ''?'' \<notin> set (scheme @ bucket @ key)" "\<not> s3_url_compatibility_mode params" "query \<noteq> []"
    and "UrlPrefix D (scheme @ ''://'' @ bucket @ CHR ''/'' # key @ CHR ''?'' # query) = Inr prefix"
  shows "Parse D (scheme @ ''://'' @ bucket @ CHR ''/'' # key @ CHR ''?'' # query) params =
    Inr \<lparr>http_proto = (if use_ssl params then ''https://'' else ''http://''),
         url_prefix = prefix, url_host = fst (HostAndPath params bucket), url_bucket = bucket,
         url_key = key, url_path = snd (HostAndPath params bucket) @ CHR ''/'' # key,
         url_query_param = query,
         trimmed_s3_url = scheme @ ''://'' @ bucket @ CHR ''/'' # key\<rparr>"
proof -
  let ?base = "scheme @ ''://'' @ bucket @ CHR ''/'' # key"
  let ?m = "length scheme + 1 + 2 + length bucket"
  note pos = url_positions [OF assms(1,2), of "key @ CHR ''?'' # query"]
  have b: "drop ?m ?base = CHR ''/'' # key"
    by (rule url_positions(4) [OF assms(1,2)])
  have q: "CHR ''?'' \<notin> set ?base"
    using assms(4) by simp
  have "SplitQuery False (?base @ CHR ''?'' # query) ?m = (query, ?base, CHR ''/'' # key)"
    using SplitQuery_query [OF q assms(6), of ?m] unfolding b by simp
  then have "SplitQuery (s3_url_compatibility_mode params)
      (scheme @ ''://'' @ bucket @ CHR ''/'' # key @ CHR ''?'' # query) ?m = (query, ?base, CHR ''/'' # key)"
    using assms(5) by simp
  then show ?thesis
    by (rule Parse_at [OF assms(7) pos(1,2,3) assms(3)])
qed

lemma UrlPrefix_scheme: "\<exists>prefix. UrlPrefix D (scheme @ ''://'' @ r) = Inr prefix"
proof -
  have "str_find ''://'' (scheme @ ''://'' @ r) \<noteq> None"
    by (auto simp: str_find_None_iff intro!: exI [of _ "length scheme"])
  then show ?thesis
    by (auto simp: UrlPrefix_def split: option.splits)
qed

text \<open>
  A URL with a query is split into exactly its bucket, its key and its query, and host and
  path are those of the addressing style.
\<close>

theorem Parse_url:
  assumes "CHR ''/'' \<notin> set scheme" "CHR ''/'' \<notin> set bucket" "bucket \<noteq> []"
    and "CHR ''?'' \<notin> set (scheme @ bucket @ key)" "\<not> s3_url_compatibility_mode params" "query \<noteq> []"
  shows "\<exists>prefix. Parse D (scheme @ ''://'' @ bucket @ CHR ''/'' # key @ CHR ''?'' # query) params =
    Inr \<lparr>http_proto = (if use_ssl params then ''https://'' else ''http://''),
         url_prefix = prefix, url_host = fst (HostAndPath params bucket), url_bucket = bucket,
         url_key = key, url_path = snd (HostAndPath params bucket) @ CHR ''/'' # key,
         url_query_param = query,
         trimmed_s3_url = scheme @ ''://'' @ bucket @ CHR ''/'' # key\<rparr>"
  using UrlPrefix_scheme [of D scheme "bucket @ CHR ''/'' # key @ CHR ''?'' # query"]
    Parse_query [OF assms] by blast

theorem Parse_url_witness:
  "\<exists>prefix. Parse std_api ''s3://my.bucket/a/b.csv?s3_region=eu'' (init_auth\<lparr>endpoint := ''localhost:9000/sub''\<rparr>) =
    Inr \<lparr>http_proto = ''https://'', url_prefix = prefix, url_host = ''localhost:9000'',
         url_bucket = ''my.bucket'', url_key = ''a/b.csv'', url_path = ''/sub/my.bucket/a/b.csv'',
         url_query_param = ''s3_region=eu'', trimmed_s3_url = ''s3://my.bucket/a/b.csv''\<rparr>"
proof -
  have "HostAndPath (init_auth\<lparr>endpoint := ''localhost:9000/sub''\<rparr>) ''my.bucket'' =
      (''localhost:9000'', ''/sub/my.bucket'')"
    by code_simp
  then show ?thesis
    using Parse_url [of "''s3''" "''my.bucket''" "''a/b.csv''"
        "init_auth\<lparr>endpoint := ''localhost:9000/sub''\<rparr>" "''s3_region=eu''" std_api]
    by (simp add: init_auth_def)
qed

lemma SplitQuery_key:
  assumes "slash_pos < length url" "url ! slash_pos = CHR ''/''"
    and "SplitQuery mode url slash_pos = (query, trimmed, key)"
  shows "key \<noteq> [] \<and> hd key = CHR ''/''"
proof -
  have d: "drop slash_pos url = CHR ''/'' # drop (Suc slash_pos) url"
    using assms(1,2) Cons_nth_drop_Suc by metis
  have "q \<noteq> slash_pos" if "char_find (CHR ''?'') url = Some q" for q
    using that assms(2) by (auto simp: char_find_Some)
  then have "slash_pos < q" if "char_find (CHR ''?'') url = Some q" "slash_pos \<le> q" for q
    using that by (simp add: le_less)
  then have "take (q - slash_pos) (CHR ''/'' # drop (Suc slash_pos) url) \<noteq> [] \<and>
      hd (take (q - slash_pos) (CHR ''/'' # drop (Suc slash_pos) url)) = CHR ''/''"
    if "char_find (CHR ''?'') url = Some q" "slash_pos \<le> q" for q
    using that by (cases "q - slash_pos") auto
  then show ?thesis
    using assms(3) d
    by (auto simp: SplitQuery_def Let_def substr_def split: if_splits option.splits)
qed

lemma find_from_Some: "find_from c s pos = Some n \<Longrightarrow> n < length s \<and> s ! n = c \<and> pos \<le> n"
  by (auto simp: find_from_def char_find_Some)

text \<open>
  For every URL that is parsed, of whatever shape, the path is the path of the bucket
  followed by the key, so a listing of the bucket and a request for the key address the same
  bucket.
\<close>

theorem GetBucketPath_key:
  assumes "Parse D url params = Inr u"
  shows "GetBucketPath u @ url_key u = url_path u \<and> last (GetBucketPath u) = CHR ''/'' \<and>
    url_bucket u \<noteq> []"
proof -
  define n where "n = (case str_find ''//'' url of None \<Rightarrow> 1 | Some n \<Rightarrow> n + 2)"
  from assms obtain prefix where
    "(case find_from (CHR ''/'') url n of
        None \<Rightarrow> Inl (Exn IOException ''URL needs to contain a '/' after the host'' [])
      | Some slash_pos \<Rightarrow>
          let bucket = substr url n (slash_pos - n)
          in if bucket = [] then Inl (Exn IOException ''URL needs to contain a bucket name'' [])
             else
               let (query_param, trimmed, key) =
                     SplitQuery (s3_url_compatibility_mode params) url slash_pos;
                   (host, path) = HostAndPath params bucket
               in if key = [] then Inl (Exn IOException ''URL needs to contain key'' [])
                  else Inr
                    \<lparr>http_proto = (if use_ssl params then ''https://'' else ''http://''),
                     url_prefix = prefix, url_host = host, url_bucket = bucket,
                     url_key = drop 1 key, url_path = path @ key,
                     url_query_param = query_param, trimmed_s3_url = trimmed\<rparr>) = Inr u"
    unfolding Parse_def bind_res_Inr_iff n_def [symmetric] Let_def by blast
  then obtain slash_pos query trimmed key path where
      slash: "find_from (CHR ''/'') url n = Some slash_pos"
    and key: "SplitQuery (s3_url_compatibility_mode params) url slash_pos = (query, trimmed, key)"
    and u: "url_key u = drop 1 key" "url_path u = path @ key" "url_bucket u \<noteq> []"
    by (auto simp: Let_def split: option.splits if_splits prod.splits)
  from SplitQuery_key [OF _ _ key] find_from_Some [OF slash] obtain k where "key = CHR ''/'' # k"
    by (cases key) auto
  with u show ?thesis
    by (simp add: GetBucketPath_def)
qed

theorem GetBucketPath_key_witness:
  "\<exists>u. Parse std_api ''s3://b/k'' init_auth = Inr u \<and> GetBucketPath u @ url_key u = url_path u"
proof -
  have "Parse std_api ''s3://b/k'' init_auth =
    Inr \<lparr>http_proto = ''https://'', url_prefix = ''s3://'', url_host = ''b.'', url_bucket = ''b'',
         url_key = ''k'', url_path = ''/k'', url_query_param = [], trimmed_s3_url = ''s3://b/k''\<rparr>"
    by code_simp
  from GetBucketPath_key [OF this] this show ?thesis by blast
qed

section \<open>Query parameters round trip\<close>

fun JoinQuery :: "duckdb_api \<Rightarrow> query_params \<Rightarrow> string" where
  "JoinQuery D [] = []"
| "JoinQuery D [(k, v)] = Encode D k QUERY_COMPONENT @ CHR ''='' # Encode D v QUERY_COMPONENT"
| "JoinQuery D ((k, v) # ps) =
     Encode D k QUERY_COMPONENT @ CHR ''='' # Encode D v QUERY_COMPONENT @ CHR ''&'' # JoinQuery D ps"

lemma ParseQueryLoop_last:
  assumes "url_coding D" "k \<noteq> []"
  shows "ParseQueryLoop D (Encode D k QUERY_COMPONENT @ CHR ''='' # Encode D v QUERY_COMPONENT) result =
    (if map_of result k = None then Inr ((k, v) # result)
     else Inl (Exn IOException (''Duplicate S3 URL query parameter '%s'' @ [CHR 0x27]) [k]))"
proof -
  let ?k = "URLEncode D k True" and ?v = "URLEncode D v True"
  from assms have c: "CHR ''&'' \<notin> set (?k @ CHR ''='' # ?v)" "CHR ''='' \<notin> set ?k" "?k \<noteq> []"
      "URLDecode D ?k True = k" "URLDecode D ?v True = v"
    by (auto simp: url_coding_def)
  have "char_find (CHR ''='') (?k @ CHR ''='' # ?v) = Some (length ?k)"
    using c(2) by (rule char_find_append)
  with c show ?thesis
    by (subst ParseQueryLoop.simps)
       (simp add: Let_def Encode_def Decode_def char_find_None [THEN iffD2] substr_def)
qed

lemma ParseQueryLoop_next:
  assumes "url_coding D" "k \<noteq> []"
  shows "ParseQueryLoop D (Encode D k QUERY_COMPONENT @ CHR ''='' # Encode D v QUERY_COMPONENT @ CHR ''&'' # s) result =
    (if map_of result k = None then ParseQueryLoop D s ((k, v) # result)
     else Inl (Exn IOException (''Duplicate S3 URL query parameter '%s'' @ [CHR 0x27]) [k]))"
proof -
  let ?k = "URLEncode D k True" and ?v = "URLEncode D v True"
  from assms have c: "CHR ''&'' \<notin> set (?k @ CHR ''='' # ?v)" "CHR ''='' \<notin> set ?k" "?k \<noteq> []"
      "URLDecode D ?k True = k" "URLDecode D ?v True = v"
    by (auto simp: url_coding_def)
  have "char_find (CHR ''='') (?k @ CHR ''='' # ?v @ CHR ''&'' # s) = Some (length ?k)"
    using c(2) by (rule char_find_append)
  moreover have "char_find (CHR ''&'') (?k @ CHR ''='' # ?v @ CHR ''&'' # s) = Some (length (?k @ CHR ''='' # ?v))"
    using char_find_append [OF c(1), of s] by simp
  ultimately show ?thesis
    using c
    by (subst ParseQueryLoop.simps)
       (simp add: Let_def Encode_def Decode_def substr_def)
qed

lemma ParseQueryLoop_JoinQuery:
  shows "url_coding D \<Longrightarrow> ps \<noteq> [] \<Longrightarrow> list_all (\<lambda>p. fst p \<noteq> []) ps \<Longrightarrow>
    distinct (map fst ps) \<and> fst ` set ps \<inter> fst ` set result = {} \<Longrightarrow>
    ParseQueryLoop D (JoinQuery D ps) result = Inr (rev ps @ result)"
proof (induction D ps arbitrary: result rule: JoinQuery.induct)
  case (2 D k v)
  then show ?case
    using map_of_eq_None_iff [of result k] by (simp add: ParseQueryLoop_last)
next
  case (3 D k v p ps)
  have "map_of result k = None"
    using "3.prems"(4) by (auto simp: map_of_eq_None_iff)
  moreover have "ParseQueryLoop D (JoinQuery D (p # ps)) ((k, v) # result) =
      Inr (rev (p # ps) @ (k, v) # result)"
    using "3.prems" by (intro "3.IH") auto
  ultimately show ?case
    using "3.prems" by (simp add: ParseQueryLoop_next)
qed simp

lemma ParseQueryLoop_duplicate:
  shows "url_coding D \<Longrightarrow> ps \<noteq> [] \<Longrightarrow> list_all (\<lambda>p. fst p \<noteq> []) ps \<Longrightarrow>
    \<not> (distinct (map fst ps) \<and> fst ` set ps \<inter> fst ` set result = {}) \<Longrightarrow>
    \<exists>k. ParseQueryLoop D (JoinQuery D ps) result =
      Inl (Exn IOException (''Duplicate S3 URL query parameter '%s'' @ [CHR 0x27]) [k])"
proof (induction D ps arbitrary: result rule: JoinQuery.induct)
  case (2 D k v)
  then show ?case
    using map_of_eq_None_iff [of result k] by (simp add: ParseQueryLoop_last)
next
  case (3 D k v p ps)
  show ?case
  proof (cases "map_of result k = None")
    case True
    then have "\<not> (distinct (map fst (p # ps)) \<and> fst ` set (p # ps) \<inter> fst ` set ((k, v) # result) = {})"
      using "3.prems"(4) by (auto simp: map_of_eq_None_iff)
    from "3.IH" [OF "3.prems"(1) _ _ this] "3.prems" True show ?thesis
      by (simp add: ParseQueryLoop_next)
  qed (use 3 in \<open>auto simp: ParseQueryLoop_next\<close>)
qed simp

text \<open>
  Parameters encoded into a query are read back as they were, and a query that names a
  parameter twice is rejected.
\<close>

theorem ParseQueryParameters_roundtrip:
  assumes "url_coding D" "ps \<noteq> []" "list_all (\<lambda>p. fst p \<noteq> []) ps"
  shows "if distinct (map fst ps) then ParseQueryParameters D (JoinQuery D ps) = Inr (rev ps)
    else \<exists>k. ParseQueryParameters D (JoinQuery D ps) =
      Inl (Exn IOException (''Duplicate S3 URL query parameter '%s'' @ [CHR 0x27]) [k])"
  using ParseQueryLoop_JoinQuery [OF assms, of "[]"] ParseQueryLoop_duplicate [OF assms, of "[]"]
  by (auto simp: ParseQueryParameters_def)

theorem ParseQueryParameters_roundtrip_witness:
  "ParseQueryParameters std_api (JoinQuery std_api [(''s3_region'', ''a&b=c'')]) =
    Inr [(''s3_region'', ''a&b=c'')]"
  using ParseQueryParameters_roundtrip [OF url_coding_std, of "[(''s3_region'', ''a&b=c'')]"] by simp

definition supported_parameters :: "string list" where
  "supported_parameters =
     [''s3_region'', ''s3_access_key_id'', ''s3_secret_access_key'', ''s3_session_token'',
      ''s3_endpoint'', ''s3_url_style'', ''s3_use_ssl'', ''s3_requester_pays'']"

definition override :: "query_params \<Rightarrow> string \<Rightarrow> string \<Rightarrow> string" where
  "override ps k old = (case map_of ps k of None \<Rightarrow> old | Some v \<Rightarrow> v)"

lemma map_of_erase [simp]: "map_of (erase_param k ps) j = (if j = k then None else map_of ps j)"
  by (induction ps) (auto simp: erase_param_def)

lemma erase_param_none: "map_of ps k = None \<Longrightarrow> erase_param k ps = ps"
  by (auto simp: erase_param_def map_of_eq_None_iff intro!: filter_True)

lemma GetQueryParam_eq:
  "GetQueryParam k old ps = (override ps k old, erase_param k ps)"
  by (cases "map_of ps k") (auto simp: GetQueryParam_def override_def erase_param_none)

lemma bool_param_Inr:
  "bool_param k m old ps = Inr (b, qs) \<longleftrightarrow>
     qs = erase_param k ps \<and>
     (map_of ps k = None \<and> b = old \<or> map_of ps k = Some ''true'' \<and> b \<or>
      map_of ps k = Some ''false'' \<and> \<not> b)"
  by (auto simp: bool_param_def erase_param_none split: option.splits)

lemma erase_all_supported:
  "foldl (\<lambda>q k. erase_param k q) ps ks = [] \<Longrightarrow> fst ` set ps \<subseteq> set ks"
proof (induction ks arbitrary: ps)
  case (Cons k ks)
  then have "fst ` set (erase_param k ps) \<subseteq> set ks" by simp
  then show ?case by (auto simp: erase_param_def)
qed simp

lemma override_erase [simp]: "j \<noteq> k \<Longrightarrow> override (erase_param k ps) j old = override ps j old"
  by (simp add: override_def)

text \<open>
  A query is accepted only when every parameter of it is a supported one and the two flags
  are \<open>true\<close> or \<open>false\<close>; each parameter given replaces the value from the secret, every other
  value is kept, and the provider, the encryption key, the compatibility mode and the bearer
  token cannot be set from a URL.
\<close>

theorem ReadQueryParams_accepted:
  assumes "ReadQueryParams D query params = Inr params'" "query \<noteq> []"
  shows "\<exists>ps. ParseQueryParameters D query = Inr ps \<and>
    fst ` set ps \<subseteq> set supported_parameters \<and>
    params' = params
      \<lparr>region := override ps ''s3_region'' (region params),
       access_key_id := override ps ''s3_access_key_id'' (access_key_id params),
       secret_access_key := override ps ''s3_secret_access_key'' (secret_access_key params),
       session_token := override ps ''s3_session_token'' (session_token params),
       endpoint := override ps ''s3_endpoint'' (endpoint params),
       url_style := override ps ''s3_url_style'' (url_style params),
       use_ssl := (case map_of ps ''s3_use_ssl'' of None \<Rightarrow> use_ssl params | Some v \<Rightarrow> v = ''true''),
       requester_pays :=
         (case map_of ps ''s3_requester_pays'' of None \<Rightarrow> requester_pays params | Some v \<Rightarrow> v = ''true'')\<rparr>"
proof -
  let ?strings = "[''s3_region'', ''s3_access_key_id'', ''s3_secret_access_key'',
    ''s3_session_token'', ''s3_endpoint'', ''s3_url_style'']"
  from assms obtain ps ssl q7 pays where ps: "ParseQueryParameters D query = Inr ps"
    and ssl: "bool_param ''s3_use_ssl''
               (flag_message ''s3_use_ssl'')
               (use_ssl params) (foldl (\<lambda>q k. erase_param k q) ps ?strings) = Inr (ssl, q7)"
    and pays: "bool_param ''s3_requester_pays''
               (flag_message ''s3_requester_pays'')
               (requester_pays params) q7 = Inr (pays, [])"
    and p': "params' = params
      \<lparr>region := override ps ''s3_region'' (region params),
       access_key_id := override ps ''s3_access_key_id'' (access_key_id params),
       secret_access_key := override ps ''s3_secret_access_key'' (secret_access_key params),
       session_token := override ps ''s3_session_token'' (session_token params),
       endpoint := override ps ''s3_endpoint'' (endpoint params),
       url_style := override ps ''s3_url_style'' (url_style params),
       use_ssl := ssl, requester_pays := pays\<rparr>"
    by (auto simp: ReadQueryParams_def GetQueryParam_eq bind_res_Inr_iff split: if_splits)
  have "foldl (\<lambda>q k. erase_param k q) ps supported_parameters = []"
    using ssl pays by (simp add: bool_param_Inr supported_parameters_def)
  then have "fst ` set ps \<subseteq> set supported_parameters"
    by (rule erase_all_supported)
  moreover have "ssl = (case map_of ps ''s3_use_ssl'' of None \<Rightarrow> use_ssl params | Some v \<Rightarrow> v = ''true'')"
    using ssl by (auto simp: bool_param_Inr)
  moreover have "pays =
      (case map_of ps ''s3_requester_pays'' of None \<Rightarrow> requester_pays params | Some v \<Rightarrow> v = ''true'')"
    using ssl pays by (auto simp: bool_param_Inr)
  ultimately show ?thesis using ps p' by auto
qed

theorem ReadQueryParams_accepted_witness:
  "map_of [(''s3_region'', ''eu'')] ''s3_region'' = Some ''eu'' \<and>
   ReadQueryParams std_api ''s3_region=eu'' init_auth = Inr (init_auth\<lparr>region := ''eu''\<rparr>)"
proof -
  have r: "ReadQueryParams std_api ''s3_region=eu'' init_auth = Inr (init_auth\<lparr>region := ''eu''\<rparr>)"
    by code_simp
  from ReadQueryParams_accepted [OF this] r show ?thesis by simp
qed

section \<open>A query that is empty\<close>

text \<open>
  A URL that ends in a question mark keeps the question mark in its key, although the trimmed
  URL and the query have dropped it.
\<close>

lemma Parse_empty_query:
  "\<exists>u. Parse std_api ''s3://b/k?'' init_auth = Inr u \<and> url_key u = ''k?'' \<and>
     url_query_param u = [] \<and> trimmed_s3_url u = ''s3://b/k''"
proof -
  have "map_sum id (\<lambda>u. (url_key u, url_query_param u, trimmed_s3_url u))
      (Parse std_api ''s3://b/k?'' init_auth) = Inr (''k?'', [], ''s3://b/k'')"
    by code_simp
  then show ?thesis by (cases "Parse std_api ''s3://b/k?'' init_auth") auto
qed

end
