(* ===== verification/S3_Settings.thy ===== *)
theory S3_Settings
  imports Httpfs_Prelude
begin

text \<open>
  The sizing of multipart uploads (src/src/s3/s3_settings.cpp): the size of the next part, the
  check that a schedule of parts covers a file of the maximal size, the binary search for the
  smallest first part, and the validation of the settings. All numbers are 64-bit words. The
  block size of DuckDB's storage is not part of the repository and is the argument
  \<open>block_size\<close>.
\<close>

section \<open>The schedule of parts\<close>

definition MIN_MULTIPART_PART_SIZE :: u64 where
  "MIN_MULTIPART_PART_SIZE = 5 * 1024 * 1024"

definition MAX_MULTIPART_PART_SIZE :: u64 where
  "MAX_MULTIPART_PART_SIZE = 5 * 1024 * 1024 * 1024"

definition MAX_MULTIPART_PARTS :: u64 where
  "MAX_MULTIPART_PARTS = 10000"

definition PART_SIZE_TIERS :: u64 where
  "PART_SIZE_TIERS = 11"

definition DEFAULT_MAX_FILESIZE :: u64 where
  "DEFAULT_MAX_FILESIZE = 80000000000"

definition DEFAULT_MAX_PARTS_PER_FILE :: u64 where
  "DEFAULT_MAX_PARTS_PER_FILE = 10000"

record S3UploadConfig =
  max_file_size :: u64
  max_parts :: u64
  initial_part_size :: u64
  growth_interval :: u64

fun PartSizeLoop :: "nat \<Rightarrow> u64 \<Rightarrow> u64" where
  "PartSizeLoop 0 result = result"
| "PartSizeLoop (Suc doubling_count) result =
     (if result < MAX_MULTIPART_PART_SIZE
      then PartSizeLoop doubling_count (min (result * 2) MAX_MULTIPART_PART_SIZE)
      else result)"

definition SizingPartSize :: "u64 \<Rightarrow> u64 \<Rightarrow> u64 \<Rightarrow> u64" where
  "SizingPartSize initial growth completed_parts =
     PartSizeLoop (unat (completed_parts div growth)) initial"

text \<open>
  A growth interval of zero divides by zero in the code; \<open>Create\<close> never produces one, and the
  model stops there.
\<close>

function ScheduleLoop :: "u64 \<Rightarrow> u64 \<Rightarrow> u64 \<Rightarrow> u64 \<Rightarrow> u64 \<Rightarrow> u64 \<Rightarrow> bool" where
  "ScheduleLoop initial max_size parts growth capacity completed_parts =
     (if growth = 0 \<or> \<not> completed_parts < parts then False
      else
        let part_size = SizingPartSize initial growth completed_parts;
            parts_at_size = min growth (parts - completed_parts)
        in if part_size > (max_size - min capacity max_size) div parts_at_size then True
           else
             let capacity' = capacity + part_size * parts_at_size
             in if capacity' \<ge> max_size then True
                else ScheduleLoop initial max_size parts growth capacity' (completed_parts + parts_at_size))"
  by pat_completeness auto

lemma parts_step:
  fixes c p g :: u64
  assumes "c < p" "g \<noteq> 0"
  shows "unat (c + min g (p - c)) = unat c + min (unat g) (unat p - unat c)"
    "0 < min (unat g) (unat p - unat c)"
    "unat (min g (p - c)) = min (unat g) (unat p - unat c)"
proof -
  have pc: "unat (p - c) = unat p - unat c"
    using assms(1) by (simp add: unat_sub less_imp_le)
  show m: "unat (min g (p - c)) = min (unat g) (unat p - unat c)"
    by (simp add: min_def word_le_nat_alt pc)
  have "unat c < unat p" "0 < unat g"
    using assms by (simp_all add: word_less_nat_alt unat_gt_0)
  then show "0 < min (unat g) (unat p - unat c)" by simp
  have "unat c + unat (min g (p - c)) < 18446744073709551616"
    using m \<open>unat c < unat p\<close> unat_u64 [of p] by simp
  then show "unat (c + min g (p - c)) = unat c + min (unat g) (unat p - unat c)"
    using m by (simp add: unat_u64_add)
qed

termination ScheduleLoop
proof (relation "measure (\<lambda>(i, m, p, g, k, c). unat p - unat c)", simp, goal_cases)
  case (1 i m p g k c)
  then have "c < p" "g \<noteq> 0" by auto
  then have "unat p - unat (c + min g (p - c)) < unat p - unat c"
    using parts_step [of c p g] by (intro diff_less_mono2) (auto simp: word_less_nat_alt)
  with 1 show ?case by simp
qed

declare ScheduleLoop.simps [simp del]

definition ScheduleCovers :: "u64 \<Rightarrow> u64 \<Rightarrow> u64 \<Rightarrow> u64 \<Rightarrow> bool" where
  "ScheduleCovers initial max_size parts growth = ScheduleLoop initial max_size parts growth 0 0"

function InitialPartSizeLoop :: "u64 \<Rightarrow> u64 \<Rightarrow> u64 \<Rightarrow> u64 \<Rightarrow> u64 \<Rightarrow> u64 \<Rightarrow> u64" where
  "InitialPartSizeLoop block_size max_size parts growth lower upper =
     (if lower < upper then
        let middle = lower + (upper - lower) div 2
        in if ScheduleCovers (middle * block_size) max_size parts growth
           then InitialPartSizeLoop block_size max_size parts growth lower middle
           else InitialPartSizeLoop block_size max_size parts growth (middle + 1) upper
      else lower)"
  by pat_completeness auto

lemma middle_unat:
  fixes l u :: u64
  assumes "l < u"
  shows "unat (l + (u - l) div 2) = unat l + (unat u - unat l) div 2"
    "unat (l + (u - l) div 2 + 1) = unat l + (unat u - unat l) div 2 + 1"
proof -
  have lu: "unat l < unat u" "unat u < 18446744073709551616"
    using assms unat_u64 [of u] by (simp_all add: word_less_nat_alt)
  have "unat ((u - l) div 2) = (unat u - unat l) div 2"
    using assms by (simp add: unat_div unat_sub less_imp_le)
  with lu show m: "unat (l + (u - l) div 2) = unat l + (unat u - unat l) div 2"
    by (subst unat_u64_add) auto
  have "unat (l + (u - l) div 2) + unat (1 :: u64) < 18446744073709551616"
    unfolding m using lu by simp
  then show "unat (l + (u - l) div 2 + 1) = unat l + (unat u - unat l) div 2 + 1"
    using m by (simp add: unat_u64_add)
qed

termination InitialPartSizeLoop
proof (relation "measure (\<lambda>(b, m, p, g, l, u). unat u - unat l)", simp, goal_cases)
  case (1 b m p g l u)
  then show ?case using middle_unat [of l u] by (auto simp: word_less_nat_alt)
next
  case (2 b m p g l u)
  then show ?case using middle_unat [of l u] by (auto simp: word_less_nat_alt)
qed

declare InitialPartSizeLoop.simps [simp del]

definition InitialPartSize :: "u64 \<Rightarrow> u64 \<Rightarrow> u64 \<Rightarrow> u64 \<Rightarrow> u64" where
  "InitialPartSize block_size max_size parts growth =
     InitialPartSizeLoop block_size max_size parts growth
       (MIN_MULTIPART_PART_SIZE div block_size) (MAX_MULTIPART_PART_SIZE div block_size) * block_size"

definition Create :: "u64 \<Rightarrow> u64 \<Rightarrow> u64 \<Rightarrow> S3UploadConfig res" where
  "Create block_size max_size parts =
     (if max_size = 0 then
        Inl (Exn InvalidInputException ''s3_uploader_max_filesize must be greater than zero'' [])
      else if parts = 0 \<or> parts > MAX_MULTIPART_PARTS then
        Inl (Exn InvalidInputException ''s3_uploader_max_parts_per_file must be between 1 and 10000'' [])
      else if max_size > MAX_MULTIPART_PART_SIZE * parts then
        Inl (Exn InvalidInputException
          ''s3_uploader_max_filesize exceeds the size supported by s3_uploader_max_parts_per_file'' [])
      else
        let growth = (parts + PART_SIZE_TIERS - 1) div PART_SIZE_TIERS
        in Inr \<lparr>max_file_size = max_size, max_parts = parts,
                initial_part_size = InitialPartSize block_size max_size parts growth,
                growth_interval = growth\<rparr>)"

text \<open>The settings as read and converted by DuckDB; \<open>None\<close> is a setting that is not found.\<close>

definition UploadConfigReadFrom :: "u64 \<Rightarrow> u64 option \<Rightarrow> u64 option \<Rightarrow> S3UploadConfig res" where
  "UploadConfigReadFrom block_size filesize_setting parts_setting =
     Create block_size
       (case filesize_setting of Some v \<Rightarrow> v | None \<Rightarrow> DEFAULT_MAX_FILESIZE)
       (case parts_setting of Some v \<Rightarrow> v | None \<Rightarrow> DEFAULT_MAX_PARTS_PER_FILE)"

definition PartSize :: "S3UploadConfig \<Rightarrow> u64 \<Rightarrow> u64" where
  "PartSize c reserved_parts = SizingPartSize (initial_part_size c) (growth_interval c) reserved_parts"

definition HasPartCapacity :: "S3UploadConfig \<Rightarrow> u64 \<Rightarrow> bool" where
  "HasPartCapacity c reserved_parts \<longleftrightarrow> reserved_parts < max_parts c"

section \<open>The size of a part in closed form\<close>

definition part_size_nat :: "nat \<Rightarrow> nat \<Rightarrow> nat \<Rightarrow> nat" where
  "part_size_nat initial growth k = min (initial * 2 ^ (k div growth)) 5368709120"

lemma max_part_nat: "unat MAX_MULTIPART_PART_SIZE = 5368709120"
  by (simp add: MAX_MULTIPART_PART_SIZE_def)

lemma min_double: "min (min (x * 2) M * 2 ^ n) M = min (x * 2 ^ Suc n) (M :: nat)"
proof (cases "x * 2 \<le> M")
  case False
  then have "M * 1 \<le> x * 2 * 2 ^ n" "M * 1 \<le> M * 2 ^ n"
    by (intro mult_le_mono; simp)+
  with False show ?thesis by (simp add: min_absorb2 mult.assoc)
qed (simp add: mult.assoc)

lemma PartSizeLoop_closed:
  "unat r \<le> 5368709120 \<Longrightarrow> unat (PartSizeLoop n r) = min (unat r * 2 ^ n) 5368709120"
proof (induction n r rule: PartSizeLoop.induct)
  case (2 n r)
  show ?case
  proof (cases "r < MAX_MULTIPART_PART_SIZE")
    case True
    have "unat r < 5368709120"
      using True by (simp add: word_less_nat_alt max_part_nat)
    then have d: "unat (r * 2) = unat r * 2"
      by (subst unat_u64_mult) auto
    have m: "unat (min (r * 2) MAX_MULTIPART_PART_SIZE) = min (unat r * 2) 5368709120"
      by (simp add: min_def word_le_nat_alt d max_part_nat)
    have "unat (PartSizeLoop n (min (r * 2) MAX_MULTIPART_PART_SIZE)) =
        min (min (unat r * 2) 5368709120 * 2 ^ n) 5368709120"
      using 2(1) [OF True] m by simp
    also have "\<dots> = min (unat r * 2 ^ Suc n) 5368709120"
      by (rule min_double)
    finally show ?thesis using True by simp
  next
    case False
    with 2(2) have "unat r = 5368709120"
      by (simp add: word_less_nat_alt max_part_nat)
    moreover have "unat r * 1 \<le> unat r * 2 ^ Suc n"
      by (intro mult_le_mono) auto
    ultimately show ?thesis using False by (simp add: min_absorb2)
  qed
qed simp

lemma SizingPartSize_nat:
  "unat initial \<le> 5368709120 \<Longrightarrow>
     unat (SizingPartSize initial growth k) = part_size_nat (unat initial) (unat growth) (unat k)"
  by (simp add: SizingPartSize_def PartSizeLoop_closed part_size_nat_def unat_div)

lemma part_size_nat_mono: "i \<le> j \<Longrightarrow> part_size_nat i g k \<le> part_size_nat j g k"
  by (simp add: part_size_nat_def min.coboundedI1 min.mono)

lemma part_size_nat_grows: "k \<le> l \<Longrightarrow> part_size_nat i g k \<le> part_size_nat i g l"
  unfolding part_size_nat_def
  by (intro min.mono mult_le_mono2 power_increasing div_le_mono) auto

lemma part_size_nat_bounds:
  assumes "5242880 \<le> i"
  shows "5242880 \<le> part_size_nat i g k" "part_size_nat i g k \<le> 5368709120"
proof -
  have "5242880 * 1 \<le> i * 2 ^ (k div g)"
    using assms by (intro mult_le_mono) auto
  then show "5242880 \<le> part_size_nat i g k" by (simp add: part_size_nat_def)
qed (simp add: part_size_nat_def)

section \<open>A schedule covers a file exactly when its parts add up to it\<close>

definition capacity_nat :: "nat \<Rightarrow> nat \<Rightarrow> nat \<Rightarrow> nat" where
  "capacity_nat initial growth n = (\<Sum>k<n. part_size_nat initial growth k)"

lemma capacity_nat_tier:
  assumes "g dvd c" "0 < g" "n \<le> g"
  shows "capacity_nat i g (c + n) = capacity_nat i g c + n * part_size_nat i g c"
  using assms(3)
proof (induction n)
  case (Suc n)
  from assms(1,2) Suc.prems have "(c + n) div g = c div g"
    by (auto elim!: dvdE simp: div_add1_eq)
  then have "part_size_nat i g (c + n) = part_size_nat i g c"
    by (simp add: part_size_nat_def)
  with Suc show ?case by (simp add: capacity_nat_def)
qed simp

lemma capacity_nat_mono: "m \<le> n \<Longrightarrow> capacity_nat i g m \<le> capacity_nat i g n"
  by (simp add: capacity_nat_def sum_mono2)

lemma capacity_nat_initial_mono: "i \<le> j \<Longrightarrow> capacity_nat i g n \<le> capacity_nat j g n"
  by (simp add: capacity_nat_def sum_mono part_size_nat_mono)

lemma div_less_iff_nat: "0 < c \<Longrightarrow> b div c < a \<longleftrightarrow> b < a * (c :: nat)"
  by (simp add: div_less_iff_less_mult)

text \<open>
  The invariant of the loop: the capacity is the sum of the first parts, whole tiers have been
  counted, and the capacity is still below the file size; then no product or sum wraps around.
\<close>

lemma ScheduleLoop_step:
  fixes initial max_size parts growth capacity completed :: u64
  assumes "unat initial \<le> 5368709120" "growth \<noteq> 0" "completed < parts"
    and "unat capacity = capacity_nat (unat initial) (unat growth) (unat completed)"
    and "capacity < max_size" "unat growth dvd unat completed"
  defines "part_size \<equiv> SizingPartSize initial growth completed"
    and "n \<equiv> min growth (parts - completed)"
  shows "unat (completed + n) \<le> unat parts" "unat growth dvd unat (completed + n) \<or> completed + n = parts"
    "part_size > (max_size - min capacity max_size) div n \<longleftrightarrow>
       unat max_size < capacity_nat (unat initial) (unat growth) (unat (completed + n))"
    "\<not> part_size > (max_size - min capacity max_size) div n \<Longrightarrow>
       unat (capacity + part_size * n) = capacity_nat (unat initial) (unat growth) (unat (completed + n))"
proof -
  let ?i = "unat initial" and ?g = "unat growth" and ?c = "unat completed" and ?p = "unat parts"
  note step = parts_step [OF assms(3,2), folded n_def]
  have cp: "?c < ?p" using assms(3) by (simp add: word_less_nat_alt)
  have n: "unat n = min ?g (?p - ?c)" "0 < unat n" using step by simp_all
  have g: "0 < ?g" using assms(2) by (simp add: unat_gt_0)
  have cn: "unat (completed + n) = ?c + unat n" using step n by simp
  show "unat (completed + n) \<le> ?p" using cn n cp by simp
  show "?g dvd unat (completed + n) \<or> completed + n = parts"
  proof (cases "?g \<le> ?p - ?c")
    case True
    with n(1) cn assms(6) show ?thesis by simp
  next
    case False
    with n(1) cn cp have "unat (completed + n) = ?p" by simp
    then show ?thesis by (simp add: word_unat_eq_iff)
  qed
  have ps: "unat part_size = part_size_nat ?i ?g ?c"
    unfolding part_size_def by (rule SizingPartSize_nat [OF assms(1)])
  have cap: "capacity_nat ?i ?g (unat (completed + n)) = unat capacity + unat n * unat part_size"
    unfolding cn assms(4) ps using n by (intro capacity_nat_tier assms(6) g) simp
  have mc: "unat (max_size - min capacity max_size) = unat max_size - unat capacity" "unat capacity < unat max_size"
    using assms(5) by (simp_all add: min_def unat_sub word_less_nat_alt word_le_nat_alt)
  have gt: "part_size > (max_size - min capacity max_size) div n \<longleftrightarrow>
      unat max_size - unat capacity < unat part_size * unat n"
    using n(2) by (simp add: word_less_nat_alt unat_div mc(1) div_less_iff_less_mult)
  then show "part_size > (max_size - min capacity max_size) div n \<longleftrightarrow>
      unat max_size < capacity_nat ?i ?g (unat (completed + n))"
    unfolding cap using mc(2) by (auto simp: mult.commute)
  assume "\<not> part_size > (max_size - min capacity max_size) div n"
  with gt mc(2) have le: "unat part_size * unat n + unat capacity \<le> unat max_size"
    by simp
  then have "unat (part_size * n) = unat part_size * unat n"
    using unat_u64 [of max_size] by (intro unat_u64_mult) simp
  then show "unat (capacity + part_size * n) = capacity_nat ?i ?g (unat (completed + n))"
    unfolding cap using le unat_u64 [of max_size] by (subst unat_u64_add) (simp_all add: mult.commute)
qed

text \<open>
  The invariant of the loop: the capacity is the sum of the first parts, whole tiers have been
  counted, and the capacity is still below the file size; then no product or sum wraps around.
\<close>

lemma ScheduleLoop_covers:
  "unat initial \<le> 5368709120 \<Longrightarrow> growth \<noteq> 0 \<Longrightarrow>
   unat capacity = capacity_nat (unat initial) (unat growth) (unat completed) \<Longrightarrow>
   unat completed \<le> unat parts \<Longrightarrow> capacity < max_size \<Longrightarrow>
   unat growth dvd unat completed \<or> completed = parts \<Longrightarrow>
   ScheduleLoop initial max_size parts growth capacity completed \<longleftrightarrow>
     unat max_size \<le> capacity_nat (unat initial) (unat growth) (unat parts)"
proof (induction initial max_size parts growth capacity completed rule: ScheduleLoop.induct)
  case (1 initial max_size parts growth capacity completed)
  let ?i = "unat initial" and ?g = "unat growth"
  let ?n = "min growth (parts - completed)" and ?part_size = "SizingPartSize initial growth completed"
  show ?case
  proof (cases "completed < parts")
    case False
    with "1.prems"(4) have "completed = parts"
      by (simp add: word_less_nat_alt word_unat_eq_iff)
    with "1.prems" show ?thesis
      by (subst ScheduleLoop.simps) (simp add: word_less_nat_alt)
  next
    case True
    with "1.prems"(6) have dvd: "?g dvd unat completed" by auto
    note step = ScheduleLoop_step [OF "1.prems"(1,2) True "1.prems"(3,5) dvd]
    have le: "capacity_nat ?i ?g (unat (completed + ?n)) \<le> capacity_nat ?i ?g (unat parts)"
      by (rule capacity_nat_mono [OF step(1)])
    show ?thesis
    proof (cases "?part_size > (max_size - min capacity max_size) div ?n")
      case gt: True
      with step(3) le True "1.prems"(2) show ?thesis
        by (subst ScheduleLoop.simps) (simp add: Let_def)
    next
      case not_gt: False
      note cap = step(4) [OF not_gt]
      show ?thesis
      proof (cases "capacity + ?part_size * ?n \<ge> max_size")
        case ge: True
        then have "unat max_size \<le> capacity_nat ?i ?g (unat (completed + ?n))"
          by (simp add: word_le_nat_alt cap)
        with ge le not_gt True "1.prems"(2) show ?thesis
          by (subst ScheduleLoop.simps) (simp add: Let_def)
      next
        case lt: False
        from lt have lt': "capacity + ?part_size * ?n < max_size" by simp
        have "ScheduleLoop initial max_size parts growth (capacity + ?part_size * ?n) (completed + ?n) \<longleftrightarrow>
            unat max_size \<le> capacity_nat ?i ?g (unat parts)"
          by (rule "1.IH" [OF _ refl refl not_gt refl lt "1.prems"(1,2) cap step(1) lt' step(2)])
             (use True "1.prems"(2) in simp)
        then show ?thesis
          using lt not_gt True "1.prems"(2)
          by (subst ScheduleLoop.simps) (simp add: Let_def)
      qed
    qed
  qed
qed

lemma ScheduleCovers_iff:
  assumes "unat initial \<le> 5368709120" "growth \<noteq> 0" "0 < max_size"
  shows "ScheduleCovers initial max_size parts growth \<longleftrightarrow>
    unat max_size \<le> capacity_nat (unat initial) (unat growth) (unat parts)"
  unfolding ScheduleCovers_def
  using assms by (intro ScheduleLoop_covers) (simp_all add: capacity_nat_def)

section \<open>The search for the first part size\<close>

lemma InitialPartSizeLoop_least:
  "lower \<le> upper \<Longrightarrow>
   (\<And>x y. x \<le> y \<Longrightarrow> y \<le> upper \<Longrightarrow> ScheduleCovers (x * b) m p g \<Longrightarrow> ScheduleCovers (y * b) m p g) \<Longrightarrow>
   ScheduleCovers (upper * b) m p g \<Longrightarrow>
   (let r = InitialPartSizeLoop b m p g lower upper
    in lower \<le> r \<and> r \<le> upper \<and> ScheduleCovers (r * b) m p g \<and>
       (\<forall>s. lower \<le> s \<and> s < r \<longrightarrow> \<not> ScheduleCovers (s * b) m p g))"
proof (induction b m p g lower upper rule: InitialPartSizeLoop.induct)
  case (1 b m p g lower upper)
  let ?mid = "lower + (upper - lower) div 2"
  show ?case
  proof (cases "lower < upper")
    case False
    with "1.prems" have "lower = upper" by simp
    with "1.prems" show ?thesis by (auto simp: InitialPartSizeLoop.simps)
  next
    case True
    note mid = middle_unat [OF True]
    have mid_le: "lower \<le> ?mid" "?mid < upper" "?mid + 1 \<le> upper" "lower \<le> ?mid + 1"
      using mid True by (simp_all add: word_le_nat_alt word_less_nat_alt)
    show ?thesis
    proof (cases "ScheduleCovers (?mid * b) m p g")
      case covers: True
      have "let r = InitialPartSizeLoop b m p g lower ?mid
          in lower \<le> r \<and> r \<le> ?mid \<and> ScheduleCovers (r * b) m p g \<and>
            (\<forall>s. lower \<le> s \<and> s < r \<longrightarrow> \<not> ScheduleCovers (s * b) m p g)"
        using covers mid_le "1.prems"(2)
        by (intro "1.IH"(1) [OF True refl covers]) (auto intro: order_trans less_imp_le)
      then show ?thesis
        using True covers mid_le by (subst InitialPartSizeLoop.simps) (auto simp: Let_def)
    next
      case not_covers: False
      have "let r = InitialPartSizeLoop b m p g (?mid + 1) upper
          in ?mid + 1 \<le> r \<and> r \<le> upper \<and> ScheduleCovers (r * b) m p g \<and>
            (\<forall>s. ?mid + 1 \<le> s \<and> s < r \<longrightarrow> \<not> ScheduleCovers (s * b) m p g)"
        using mid_le "1.prems" by (intro "1.IH"(2) [OF True refl not_covers]) auto
      moreover have "\<not> ScheduleCovers (s * b) m p g" if "s \<le> ?mid" for s
        using "1.prems"(2) [OF that] mid_le not_covers by (auto intro: less_imp_le)
      moreover have "s \<le> ?mid" if "\<not> ?mid + 1 \<le> s" for s
        using that mid by (simp add: word_le_nat_alt)
      ultimately show ?thesis
        using True not_covers mid_le
        by (subst InitialPartSizeLoop.simps) (auto simp: Let_def intro: order_trans)
    qed
  qed
qed

definition block_size_ok :: "u64 \<Rightarrow> bool" where
  "block_size_ok b \<longleftrightarrow> 0 < unat b \<and> unat b dvd 5242880 \<and> unat b dvd 5368709120"

lemma block_multiple:
  assumes "block_size_ok b" "x \<le> MAX_MULTIPART_PART_SIZE div b"
  shows "unat (x * b) = unat x * unat b" "unat x * unat b \<le> 5368709120"
proof -
  have "unat x \<le> 5368709120 div unat b"
    using assms(2) by (simp add: word_le_nat_alt unat_div max_part_nat)
  then have "unat x * unat b \<le> 5368709120 div unat b * unat b"
    by (rule mult_le_mono1)
  also have "\<dots> = 5368709120"
    using assms(1) by (simp add: block_size_ok_def)
  finally show le: "unat x * unat b \<le> 5368709120" .
  then show "unat (x * b) = unat x * unat b"
    by (intro unat_u64_mult) simp
qed

lemma InitialPartSize_least:
  assumes b: "block_size_ok b" and g: "g \<noteq> 0" and m: "0 < m"
    and fits: "unat m \<le> 5368709120 * unat p"
  shows "let i = unat (InitialPartSize b m p g)
    in 5242880 \<le> i \<and> i \<le> 5368709120 \<and> unat b dvd i \<and>
       unat m \<le> capacity_nat i (unat g) (unat p) \<and>
       (\<forall>s. 5242880 \<le> s * unat b \<and> s * unat b < i \<longrightarrow> capacity_nat (s * unat b) (unat g) (unat p) < unat m)"
proof -
  let ?lo = "MIN_MULTIPART_PART_SIZE div b" and ?hi = "MAX_MULTIPART_PART_SIZE div b"
  have lo: "unat ?lo * unat b = 5242880" and hi: "unat ?hi * unat b = 5368709120"
    using b by (auto simp: unat_div block_size_ok_def max_part_nat MIN_MULTIPART_PART_SIZE_def)
  have lohi: "?lo \<le> ?hi"
    by (simp add: word_le_nat_alt unat_div max_part_nat MIN_MULTIPART_PART_SIZE_def div_le_mono)
  have covers: "ScheduleCovers (x * b) m p g \<longleftrightarrow> unat m \<le> capacity_nat (unat x * unat b) (unat g) (unat p)"
    if "x \<le> ?hi" for x
    using ScheduleCovers_iff [OF _ g m, of "x * b" p] block_multiple [OF b that] by simp
  have mono: "ScheduleCovers (y * b) m p g" if "x \<le> y" "y \<le> ?hi" "ScheduleCovers (x * b) m p g" for x y
  proof -
    have "unat x * unat b \<le> unat y * unat b"
      using that(1) by (simp add: word_le_nat_alt)
    with that covers [of x] covers [of y] show ?thesis
      using capacity_nat_initial_mono [of "unat x * unat b" "unat y * unat b" "unat g" "unat p"] by auto
  qed
  have "capacity_nat 5368709120 (unat g) (unat p) = 5368709120 * unat p"
    by (simp add: capacity_nat_def part_size_nat_def min_absorb2)
  then have top: "ScheduleCovers (?hi * b) m p g"
    using covers [of ?hi] hi fits by simp
  define r where "r = InitialPartSizeLoop b m p g ?lo ?hi"
  have r: "?lo \<le> r" "r \<le> ?hi" "ScheduleCovers (r * b) m p g"
      "\<forall>s. ?lo \<le> s \<and> s < r \<longrightarrow> \<not> ScheduleCovers (s * b) m p g"
    using InitialPartSizeLoop_least [OF lohi mono top] by (auto simp: r_def Let_def)
  note rb = block_multiple [OF b r(2)]
  have "unat ?lo * unat b \<le> unat r * unat b"
    using r(1) by (simp add: word_le_nat_alt)
  moreover have "capacity_nat (s * unat b) (unat g) (unat p) < unat m"
    if s: "5242880 \<le> s * unat b" "s * unat b < unat r * unat b" for s
  proof -
    have sr: "s < unat r" using s(2) by simp
    define w :: u64 where "w = of_nat s"
    have w: "unat w = s"
      using sr unat_u64 [of r] by (simp add: w_def unat_of_nat take_bit_nat_eq_self)
    have "unat ?lo * unat b \<le> s * unat b" using s(1) lo by simp
    then have "unat ?lo \<le> s" using b by (simp add: block_size_ok_def)
    then have "?lo \<le> w" "w < r" using w sr by (simp_all add: word_le_nat_alt word_less_nat_alt)
    moreover from this r(2) have "w \<le> ?hi" by simp
    ultimately show ?thesis using r(4) covers [of w] w by auto
  qed
  ultimately show ?thesis
    using covers [OF r(2)] r(3) rb lo by (simp add: InitialPartSize_def r_def [symmetric] Let_def)
qed

lemma growth_nonzero:
  fixes parts :: u64
  assumes "parts \<noteq> 0" "parts \<le> MAX_MULTIPART_PARTS"
  shows "(parts + PART_SIZE_TIERS - 1) div PART_SIZE_TIERS \<noteq> 0"
proof -
  have p: "0 < unat parts" "unat parts \<le> 10000"
    using assms by (simp_all add: unat_gt_0 word_le_nat_alt MAX_MULTIPART_PARTS_def)
  have "parts + PART_SIZE_TIERS - 1 = parts + 10" by (simp add: PART_SIZE_TIERS_def)
  then have "unat (parts + PART_SIZE_TIERS - 1) = unat parts + 10"
    unfolding \<open>parts + PART_SIZE_TIERS - 1 = parts + 10\<close> using p unat_u64_add [of parts 10] by simp
  then have "0 < unat ((parts + PART_SIZE_TIERS - 1) div PART_SIZE_TIERS)"
    using p by (simp add: unat_div PART_SIZE_TIERS_def div_greater_zero_iff)
  then show ?thesis by (simp add: unat_gt_0)
qed

lemma Create_Inr:
  assumes "block_size_ok b" "Create b m p = Inr c"
  shows "max_file_size c = m \<and> max_parts c = p \<and> growth_interval c \<noteq> 0 \<and> 0 < m \<and> 0 < unat p \<and> unat p \<le> 10000 \<and>
    (let i = unat (initial_part_size c)
     in 5242880 \<le> i \<and> i \<le> 5368709120 \<and> unat b dvd i \<and>
        unat m \<le> capacity_nat i (unat (growth_interval c)) (unat p) \<and>
        (\<forall>s. 5242880 \<le> s * unat b \<and> s * unat b < i \<longrightarrow>
           capacity_nat (s * unat b) (unat (growth_interval c)) (unat p) < unat m))"
proof -
  from assms(2) have m: "m \<noteq> 0" and p: "p \<noteq> 0" "p \<le> MAX_MULTIPART_PARTS"
    and fits: "m \<le> MAX_MULTIPART_PART_SIZE * p"
    and c: "c = \<lparr>max_file_size = m, max_parts = p,
        initial_part_size = InitialPartSize b m p ((p + PART_SIZE_TIERS - 1) div PART_SIZE_TIERS),
        growth_interval = (p + PART_SIZE_TIERS - 1) div PART_SIZE_TIERS\<rparr>"
    by (auto simp: Create_def Let_def not_less split: if_splits)
  have pn: "unat p \<le> 10000" "0 < unat p"
    using p by (simp_all add: word_le_nat_alt MAX_MULTIPART_PARTS_def unat_gt_0)
  then have "unat (MAX_MULTIPART_PART_SIZE * p) = 5368709120 * unat p"
    by (subst unat_u64_mult) (simp_all add: max_part_nat)
  with fits have "unat m \<le> 5368709120 * unat p" by (simp add: word_le_nat_alt)
  from InitialPartSize_least [OF assms(1) growth_nonzero [OF p] _ this] m pn growth_nonzero [OF p]
  show ?thesis by (simp add: c word_gt_0_no [symmetric] word_neq_0_conv)
qed

text \<open>
  C21: whatever the settings, when they are accepted the schedule of parts reaches the maximal
  file size within the maximal number of parts, every part that is not the last lies between
  5 MiB and 5 GiB, sizes never shrink, and the first part is the smallest multiple of the block
  size for which this is so. No multiplication or addition of the sizing wraps around on the
  way.
\<close>

theorem Create_schedule:
  assumes "block_size_ok block_size" "Create block_size max_size parts = Inr c"
  shows "unat max_size \<le> (\<Sum>k<unat parts. unat (PartSize c (of_nat k))) \<and>
    (\<forall>k. 5242880 \<le> unat (PartSize c k) \<and> unat (PartSize c k) \<le> 5368709120) \<and>
    (\<forall>k l. k \<le> l \<longrightarrow> PartSize c k \<le> PartSize c l) \<and>
    (\<forall>s. 5242880 \<le> s * unat block_size \<and> s * unat block_size < unat (initial_part_size c) \<longrightarrow>
       capacity_nat (s * unat block_size) (unat (growth_interval c)) (unat parts) < unat max_size)"
proof -
  note c = Create_Inr [OF assms, unfolded Let_def]
  have size: "unat (PartSize c k) =
      part_size_nat (unat (initial_part_size c)) (unat (growth_interval c)) (unat k)" for k
    using c by (simp add: PartSize_def SizingPartSize_nat)
  have "unat (of_nat k :: u64) = k" if "k < unat parts" for k
    using that unat_u64 [of parts] by (simp add: unat_of_nat take_bit_nat_eq_self)
  then have "(\<Sum>k<unat parts. unat (PartSize c (of_nat k))) =
      capacity_nat (unat (initial_part_size c)) (unat (growth_interval c)) (unat parts)"
    by (simp add: size capacity_nat_def)
  then show ?thesis
    using c part_size_nat_bounds part_size_nat_grows by (auto simp: size word_le_nat_alt)
qed

theorem Create_schedule_witness:
  "unat (10000000 :: u64) \<le>
     (\<Sum>k<unat (2 :: u64). unat (PartSize
        \<lparr>max_file_size = 10000000, max_parts = 2, initial_part_size = 5242880, growth_interval = 1\<rparr>
        (of_nat k)))"
proof -
  have b: "block_size_ok 5242880" by (simp add: block_size_ok_def)
  have "Create 5242880 10000000 2 =
      Inr \<lparr>max_file_size = 10000000, max_parts = 2, initial_part_size = 5242880, growth_interval = 1\<rparr>"
    by code_simp
  from Create_schedule [OF b this] show ?thesis by blast
qed

end
