(* ===== verification/Http_Types.thy ===== *)
theory Http_Types
  imports Httpfs_Prelude Duckdb_Api
begin

text \<open>
  Requests, responses and errors as the extension sees them: the request types and the response
  of DuckDB's HTTP layer, whose headers are only looked up by name, and the status error of
  src/src/http/http_request.cpp.
\<close>

datatype RequestType =
    GET_REQUEST
  | PUT_REQUEST
  | HEAD_REQUEST
  | DELETE_REQUEST
  | POST_REQUEST
  | OPTIONS_REQUEST

text \<open>\<open>response_header\<close> is the lookup of a header by its name, whatever its letter case.\<close>

record HTTPResponse =
  request_error :: bool
  response_status :: int
  response_body :: string
  response_header :: "string \<Rightarrow> string option"

text \<open>\<open>ErrorData\<close>: the exception and the extra information attached to it.\<close>

record ErrorData =
  error_exn :: exn
  extra_info :: "string \<Rightarrow> string option"

definition GetRequestMethod :: "RequestType \<Rightarrow> string" where
  "GetRequestMethod request_type =
     (case request_type of
        GET_REQUEST \<Rightarrow> ''GET''
      | PUT_REQUEST \<Rightarrow> ''PUT''
      | HEAD_REQUEST \<Rightarrow> ''HEAD''
      | DELETE_REQUEST \<Rightarrow> ''DELETE''
      | POST_REQUEST \<Rightarrow> ''POST''
      | OPTIONS_REQUEST \<Rightarrow> ''OPTIONS'')"

text \<open>
  The texts of status codes and numbers come from DuckDB's formatter; they are the arguments
  \<open>status_text\<close>.
\<close>

definition GetHTTPStatusError ::
  "(int \<Rightarrow> string list) \<Rightarrow> HTTPResponse \<Rightarrow> RequestType \<Rightarrow> string \<Rightarrow> string \<Rightarrow> string \<Rightarrow> exn" where
  "GetHTTPStatusError status_text response request_type operation display_url details =
     Exn HTTPException ''HTTP %s error %s '%s' (HTTP %d %s)%s''
       ([GetRequestMethod request_type, operation, display_url] @
        status_text (response_status response) @ [details])"

definition GetHTTPError ::
  "(int \<Rightarrow> string list) \<Rightarrow> HTTPResponse \<Rightarrow> RequestType \<Rightarrow> string \<Rightarrow> exn" where
  "GetHTTPError status_text response request_type url =
     GetHTTPStatusError status_text response request_type ''on'' url
       (if response_status response = 416
        then '' This could mean the file was changed. Try disabling the duckdb http metadata cache '' @
             ''if enabled, and confirm the server supports range requests.''
        else [])"

end
