(* ===== verification/S3_Request.thy ===== *)
theory S3_Request
  imports Http_Types S3_Url Xml_Response "HOL-Library.Multiset"
begin

text \<open>
  S3 requests (src/src/s3/s3_request.cpp): the query of a request, the classification of
  responses and errors, and the executor that retries a request. The world the request is sent
  to, the credentials it refreshes and the session it reads are a state passed through the
  callbacks.
\<close>

section \<open>The query\<close>

record S3RequestQuery =
  query_parameters :: "(string \<times> string) list"
  wire_query :: string
  canonical_query :: string

definition EncodeParameters :: "duckdb_api \<Rightarrow> (string \<times> string) list \<Rightarrow> (string \<times> string) list" where
  "EncodeParameters D ps =
     map (\<lambda>(k, v). (Encode D k QUERY_COMPONENT, Encode D v QUERY_COMPONENT)) ps"

fun AppendParameters :: "string \<Rightarrow> (string \<times> string) list \<Rightarrow> string" where
  "AppendParameters wire [] = wire"
| "AppendParameters wire ((k, v) # ps) =
     AppendParameters ((if wire \<noteq> [] then wire @ ''&'' else wire) @ k @ ''='' @ v) ps"

definition MakeQuery :: "duckdb_api \<Rightarrow> (string \<times> string) list \<Rightarrow> S3RequestQuery" where
  "MakeQuery D ps =
     (let wire = AppendParameters [] (sort (EncodeParameters D ps))
      in \<lparr>query_parameters = ps, wire_query = wire, canonical_query = wire\<rparr>)"

definition HasParameter :: "S3RequestQuery \<Rightarrow> string \<Rightarrow> bool" where
  "HasParameter q name \<longleftrightarrow> list_ex (\<lambda>p. fst p = name) (query_parameters q)"

section \<open>Classification of responses and errors\<close>

datatype S3RequestTarget = OBJECT | BUCKET

datatype S3PostRequestMode = POST_DEFAULT | RETRY_RECEIVED_RESPONSES

definition IsAuthRefreshErrorBody :: "utf8proc \<Rightarrow> string \<Rightarrow> bool" where
  "IsAuthRefreshErrorBody U body \<longleftrightarrow>
     (case TryParseError U body of
        None \<Rightarrow> False
      | Some e \<Rightarrow> error_code e \<in> set [''ExpiredToken'', ''InvalidToken'', ''TokenRefreshRequired''])"

definition S3RequestOperation :: "RequestType \<Rightarrow> string" where
  "S3RequestOperation request_type =
     (case request_type of
        GET_REQUEST \<Rightarrow> ''reading''
      | HEAD_REQUEST \<Rightarrow> ''checking''
      | PUT_REQUEST \<Rightarrow> ''uploading to''
      | DELETE_REQUEST \<Rightarrow> ''deleting''
      | POST_REQUEST \<Rightarrow> ''sending a request to''
      | OPTIONS_REQUEST \<Rightarrow> ''checking options for'')"

definition ErrorIsAuthRefreshStatus :: "utf8proc \<Rightarrow> ErrorData \<Rightarrow> bool" where
  "ErrorIsAuthRefreshStatus U error \<longleftrightarrow>
     (case extra_info error ''status_code'' of
        None \<Rightarrow> False
      | Some code \<Rightarrow>
          if code = ''401'' \<or> code = ''403'' then True
          else if code \<noteq> ''400'' then False
          else case extra_info error ''response_body'' of
                 None \<Rightarrow> False
               | Some body \<Rightarrow> IsAuthRefreshErrorBody U body)"

definition IsAuthRefreshStatus :: "utf8proc \<Rightarrow> HTTPResponse \<Rightarrow> bool" where
  "IsAuthRefreshStatus U response \<longleftrightarrow>
     (if response_status response = 401 \<or> response_status response = 403 then True
      else response_status response = 400 \<and> IsAuthRefreshErrorBody U (response_body response))"

text \<open>The region the server names, when it is a different one.\<close>

definition GetRegionRedirect :: "HTTPResponse \<Rightarrow> string \<Rightarrow> string option" where
  "GetRegionRedirect response current_region =
     (if response_status response \<noteq> 301 \<and> response_status response \<noteq> 400 then None
      else case response_header response ''x-amz-bucket-region'' of
             None \<Rightarrow> None
           | Some r \<Rightarrow> if r = [] \<or> r = current_region then None else Some r)"

definition ErrorGetRegionRedirect :: "ErrorData \<Rightarrow> string \<Rightarrow> string option" where
  "ErrorGetRegionRedirect error current_region =
     (case extra_info error ''status_code'' of
        None \<Rightarrow> None
      | Some code \<Rightarrow>
          if code \<noteq> ''301'' \<and> code \<noteq> ''400'' then None
          else case extra_info error ''header_x-amz-bucket-region'' of
                 None \<Rightarrow> None
               | Some r \<Rightarrow> if r = [] \<or> r = current_region then None else Some r)"

definition IsRequestTimeout :: "utf8proc \<Rightarrow> HTTPResponse \<Rightarrow> bool" where
  "IsRequestTimeout U response \<longleftrightarrow>
     (if response_status response \<noteq> 400 \<or> response_body response = [] then False
      else case TryParseError U (response_body response) of
             None \<Rightarrow> False
           | Some e \<Rightarrow> error_code e = ''RequestTimeout'')"

definition IsRetryableReceivedResponse :: "utf8proc \<Rightarrow> HTTPResponse \<Rightarrow> bool" where
  "IsRetryableReceivedResponse U response \<longleftrightarrow>
     (if request_error response then False
      else if response_status response = 429 \<or>
              500 \<le> response_status response \<and> response_status response < 600 then True
      else case TryParseError U (response_body response) of
             None \<Rightarrow> False
           | Some e \<Rightarrow>
               error_code e \<in> set [''InternalError'', ''OperationAborted'', ''SlowDown'',
                 ''ServiceUnavailable'', ''TooManyRequests'', ''RequestTimeout''])"

definition IsS3RequestTimeoutError :: "utf8proc \<Rightarrow> ErrorData \<Rightarrow> bool" where
  "IsS3RequestTimeoutError U error \<longleftrightarrow>
     (case (extra_info error ''status_code'', extra_info error ''response_body'') of
        (Some code, Some body) \<Rightarrow>
          code = ''400'' \<and>
          (case TryParseError U body of None \<Rightarrow> False | Some e \<Rightarrow> error_code e = ''RequestTimeout'')
      | _ \<Rightarrow> False)"

definition IsTransientRetryEligibleMethod :: "RequestType \<Rightarrow> bool" where
  "IsTransientRetryEligibleMethod t \<longleftrightarrow>
     t = GET_REQUEST \<or> t = HEAD_REQUEST \<or> t = PUT_REQUEST \<or> t = DELETE_REQUEST"

definition ShouldRetryReceivedResponse ::
  "utf8proc \<Rightarrow> RequestType \<Rightarrow> HTTPResponse \<Rightarrow> S3PostRequestMode \<Rightarrow> bool" where
  "ShouldRetryReceivedResponse U request_type response mode \<longleftrightarrow>
     (if request_error response then False
      else if IsTransientRetryEligibleMethod request_type \<and> IsRequestTimeout U response then True
      else mode = RETRY_RECEIVED_RESPONSES \<and> IsRetryableReceivedResponse U response)"

section \<open>Error texts\<close>

definition ParseError :: "utf8proc \<Rightarrow> string \<Rightarrow> string" where
  "ParseError U error =
     (case TryParseError U error of
        None \<Rightarrow> []
      | Some e \<Rightarrow>
          if error_code e = [] then []
          else [NL, NL] @ error_code e @
            (if error_message e \<noteq> [] then '': '' @ error_message e else []) @
            (if error_code e = ''InvalidAccessKeyId'' \<and> error_access_key_id e \<noteq> []
             then NL # ''Invalid Access Key: '' @ [QUOT] @ error_access_key_id e @ [QUOT] else []))"

definition GetError ::
  "utf8proc \<Rightarrow> (int \<Rightarrow> string list) \<Rightarrow> S3AuthParams \<Rightarrow> HTTPResponse \<Rightarrow> RequestType \<Rightarrow> string \<Rightarrow> string \<Rightarrow> exn" where
  "GetError U status_text auth_params response request_type operation display_url =
     GetHTTPStatusError status_text response request_type operation display_url
       (ParseError U (response_body response) @
        (if response_status response = 400 then GetBadRequestError auth_params [] else []) @
        (if response_status response = 401 \<or> response_status response = 403
         then GetAuthError auth_params else []))"

section \<open>The executor\<close>

record S3RequestData =
  data_request_type :: RequestType
  data_auth_params :: S3AuthParams
  data_retries :: nat
  data_retry_wait :: nat
  data_display_url :: string

text \<open>
  The callbacks of \<open>Run\<close>, as functions of the world \<open>'w\<close>; each can throw. \<open>'d\<close> is the request data,
  which the callbacks may extend. The sleep before a transient retry is not modelled.
\<close>

record ('d, 'w) callbacks =
  create_data :: "'w \<Rightarrow> (ErrorData + 'd) \<times> 'w"
  send_request :: "'d \<Rightarrow> 'w \<Rightarrow> (ErrorData + HTTPResponse) \<times> 'w"
  refresh_auth_params :: "'d \<Rightarrow> 'w \<Rightarrow> (ErrorData + bool) \<times> 'w"
  set_region :: "'d \<Rightarrow> string \<Rightarrow> 'w \<Rightarrow> (ErrorData + unit) \<times> 'w"

record RunState =
  retried_auth_refresh :: bool
  retried_region :: bool
  transient_retries :: nat

datatype run_decision = RETURN | RETRY_AUTH | RETRY_REGION string | RETRY_TRANSIENT

text \<open>
  What follows a response or an exception; the second component is the world after the refresh
  of the credentials, when one was attempted.
\<close>

definition DecideResponse ::
  "utf8proc \<Rightarrow> ('a S3RequestData_scheme, 'w) callbacks \<Rightarrow> S3PostRequestMode \<Rightarrow> RunState \<Rightarrow> 'a S3RequestData_scheme \<Rightarrow>
     HTTPResponse \<Rightarrow> 'w \<Rightarrow> (ErrorData + run_decision) \<times> 'w" where
  "DecideResponse U C mode st request_data result w =
     (let received = \<not> request_error result;
          attempt = received \<and> \<not> retried_auth_refresh st \<and> IsAuthRefreshStatus U result
      in case (if attempt then refresh_auth_params C request_data w else (Inr False, w)) of
           (Inl e, w') \<Rightarrow> (Inl e, w')
         | (Inr refreshed, w') \<Rightarrow>
             if refreshed then (Inr RETRY_AUTH, w')
             else case (if received \<and> \<not> retried_region st
                        then GetRegionRedirect result (region (data_auth_params request_data)) else None) of
               Some r \<Rightarrow> (Inr (RETRY_REGION r), w')
             | None \<Rightarrow>
                 if received \<and> transient_retries st < data_retries request_data \<and>
                    ShouldRetryReceivedResponse U (data_request_type request_data) result mode
                 then (Inr RETRY_TRANSIENT, w') else (Inr RETURN, w'))"

definition DecideError ::
  "utf8proc \<Rightarrow> ('a S3RequestData_scheme, 'w) callbacks \<Rightarrow> RunState \<Rightarrow> 'a S3RequestData_scheme \<Rightarrow> ErrorData \<Rightarrow> 'w \<Rightarrow>
     (ErrorData + run_decision) \<times> 'w" where
  "DecideError U C st request_data error w =
     (let attempt = \<not> retried_auth_refresh st \<and> ErrorIsAuthRefreshStatus U error
      in case (if attempt then refresh_auth_params C request_data w else (Inr False, w)) of
           (Inl e, w') \<Rightarrow> (Inl e, w')
         | (Inr refreshed, w') \<Rightarrow>
             if refreshed then (Inr RETRY_AUTH, w')
             else case (if \<not> retried_region st
                        then ErrorGetRegionRedirect error (region (data_auth_params request_data)) else None) of
               Some r \<Rightarrow> (Inr (RETRY_REGION r), w')
             | None \<Rightarrow>
                 if IsTransientRetryEligibleMethod (data_request_type request_data) \<and>
                    transient_retries st < data_retries request_data \<and> IsS3RequestTimeoutError U error
                 then (Inr RETRY_TRANSIENT, w') else (Inr RETURN, w'))"

definition ApplyDecision ::
  "('d, 'w) callbacks \<Rightarrow> 'd \<Rightarrow> run_decision \<Rightarrow> RunState \<Rightarrow> 'w \<Rightarrow> (ErrorData + RunState) \<times> 'w" where
  "ApplyDecision C request_data d st w =
     (case d of
        RETURN \<Rightarrow> (Inr st, w)
      | RETRY_AUTH \<Rightarrow> (Inr (st\<lparr>retried_auth_refresh := True\<rparr>), w)
      | RETRY_REGION r \<Rightarrow> apfst (map_sum id (\<lambda>_. st\<lparr>retried_region := True\<rparr>)) (set_region C request_data r w)
      | RETRY_TRANSIENT \<Rightarrow> (Inr (st\<lparr>transient_retries := transient_retries st + 1\<rparr>), w))"

text \<open>
  The handler of an exception throws it again, or an exception of its callbacks, or goes on.
\<close>

definition HandleError ::
  "utf8proc \<Rightarrow> ('a S3RequestData_scheme, 'w) callbacks \<Rightarrow> RunState \<Rightarrow> 'a S3RequestData_scheme \<Rightarrow> ErrorData \<Rightarrow> 'w \<Rightarrow>
     (ErrorData + RunState) \<times> 'w" where
  "HandleError U C st request_data error w =
     (case DecideError U C st request_data error w of
        (Inl e, w') \<Rightarrow> (Inl e, w')
      | (Inr d, w') \<Rightarrow> if d = RETURN then (Inl error, w') else ApplyDecision C request_data d st w')"

text \<open>The body of the try block: its exceptions, also those of the callbacks, go to the handler.\<close>

definition HandleOutcome ::
  "utf8proc \<Rightarrow> ('a S3RequestData_scheme, 'w) callbacks \<Rightarrow> S3PostRequestMode \<Rightarrow> RunState \<Rightarrow> 'a S3RequestData_scheme \<Rightarrow>
     ErrorData + HTTPResponse \<Rightarrow> 'w \<Rightarrow> (ErrorData + HTTPResponse + RunState) \<times> 'w" where
  "HandleOutcome U C mode st request_data outcome w =
     (let caught = (\<lambda>e w. apfst (map_sum id Inr) (HandleError U C st request_data e w))
      in case outcome of
           Inl e \<Rightarrow> caught e w
         | Inr result \<Rightarrow>
             (case DecideResponse U C mode st request_data result w of
                (Inl e, w') \<Rightarrow> caught e w'
              | (Inr d, w') \<Rightarrow>
                  if d = RETURN then (Inr (Inl result), w')
                  else case ApplyDecision C request_data d st w' of
                    (Inl e, w'') \<Rightarrow> caught e w''
                  | (Inr st', w'') \<Rightarrow> (Inr (Inr st'), w'')))"

text \<open>
  The loop with a bound on its iterations; \<open>None\<close> is a loop that did not finish within it. The
  result carries the request data of the last attempt, which \<open>final_request\<close> receives, and the
  number of requests sent.
\<close>

fun RunLoop ::
  "utf8proc \<Rightarrow> ('a S3RequestData_scheme, 'w) callbacks \<Rightarrow> S3PostRequestMode \<Rightarrow> nat \<Rightarrow> RunState \<Rightarrow> nat \<Rightarrow> 'w \<Rightarrow>
     ((ErrorData + HTTPResponse \<times> 'a S3RequestData_scheme) \<times> nat \<times> 'w) option" where
  "RunLoop U C mode 0 st sent w = None"
| "RunLoop U C mode (Suc fuel) st sent w =
     (case create_data C w of
        (Inl e, w1) \<Rightarrow> Some (Inl e, sent, w1)
      | (Inr request_data, w1) \<Rightarrow>
          (case send_request C request_data w1 of
             (outcome, w2) \<Rightarrow>
               (case HandleOutcome U C mode st request_data outcome w2 of
                  (Inl e, w3) \<Rightarrow> Some (Inl e, Suc sent, w3)
                | (Inr (Inl result), w3) \<Rightarrow> Some (Inr (result, request_data), Suc sent, w3)
                | (Inr (Inr st'), w3) \<Rightarrow> RunLoop U C mode fuel st' (Suc sent) w3)))"

definition init_run :: RunState where
  "init_run = \<lparr>retried_auth_refresh = False, retried_region = False, transient_retries = 0\<rparr>"

text \<open>\<open>limit\<close> bounds the configured number of retries of every attempt.\<close>

definition Run ::
  "utf8proc \<Rightarrow> ('a S3RequestData_scheme, 'w) callbacks \<Rightarrow> S3PostRequestMode \<Rightarrow> nat \<Rightarrow> 'w \<Rightarrow>
     ((ErrorData + HTTPResponse \<times> 'a S3RequestData_scheme) \<times> nat \<times> 'w) option" where
  "Run U C mode limit w = RunLoop U C mode (limit + 3) init_run 0 w"

section \<open>The executor always returns\<close>

definition run_budget :: "nat \<Rightarrow> RunState \<Rightarrow> nat" where
  "run_budget limit st =
     (if retried_auth_refresh st then 0 else 1) + (if retried_region st then 0 else 1) +
     (limit - transient_retries st)"

definition decision_enabled :: "RunState \<Rightarrow> 'a S3RequestData_scheme \<Rightarrow> run_decision \<Rightarrow> bool" where
  "decision_enabled st rd d \<longleftrightarrow>
     (case d of
        RETURN \<Rightarrow> True
      | RETRY_AUTH \<Rightarrow> \<not> retried_auth_refresh st
      | RETRY_REGION r \<Rightarrow> \<not> retried_region st
      | RETRY_TRANSIENT \<Rightarrow> transient_retries st < data_retries rd)"

lemma DecideResponse_enabled:
  "DecideResponse U C mode st rd result w = (Inr d, w') \<Longrightarrow> decision_enabled st rd d"
  by (auto simp: DecideResponse_def Let_def decision_enabled_def
      split: prod.splits if_splits option.splits sum.splits)

lemma DecideError_enabled:
  "DecideError U C st rd e w = (Inr d, w') \<Longrightarrow> decision_enabled st rd d"
  by (auto simp: DecideError_def Let_def decision_enabled_def
      split: prod.splits if_splits option.splits sum.splits)

lemma ApplyDecision_budget:
  assumes "ApplyDecision C rd d st w = (Inr st', w')" "d \<noteq> RETURN" "data_retries rd \<le> limit"
    and "decision_enabled st rd d"
  shows "Suc (run_budget limit st') = run_budget limit st"
  using assms
  by (auto simp: ApplyDecision_def run_budget_def decision_enabled_def map_sum_def apfst_def map_prod_def
      split: run_decision.splits prod.splits sum.splits)

lemma HandleError_budget:
  assumes "HandleError U C st rd e w = (Inr st', w')" "data_retries rd \<le> limit"
  shows "Suc (run_budget limit st') = run_budget limit st"
  using assms ApplyDecision_budget [OF _ _ assms(2) DecideError_enabled]
  by (auto simp: HandleError_def split: prod.splits sum.splits if_splits)

lemma HandleOutcome_budget:
  assumes "HandleOutcome U C mode st rd outcome w = (Inr (Inr st'), w')" "data_retries rd \<le> limit"
  shows "Suc (run_budget limit st') = run_budget limit st"
proof -
  have caught: "Suc (run_budget limit st') = run_budget limit st"
    if caught: "apfst (map_sum id Inr) (HandleError U C st rd e w) = (Inr (Inr st'), w')" for e w
  proof -
    have "HandleError U C st rd e w = (Inr st', w')"
      using caught by (auto simp: apfst_def map_prod_def map_sum_def split: prod.splits sum.splits)
    from HandleError_budget [OF this assms(2)] show ?thesis .
  qed
  show ?thesis
    using assms(1) caught ApplyDecision_budget [OF _ _ assms(2) DecideResponse_enabled]
    by (auto simp: HandleOutcome_def Let_def split: prod.splits sum.splits if_splits)
qed

lemma RunLoop_returns:
  assumes "\<And>w rd w'. create_data C w = (Inr rd, w') \<Longrightarrow> data_retries rd \<le> limit"
  shows "run_budget limit st < fuel \<Longrightarrow>
    \<exists>outcome n w'. RunLoop U C mode fuel st sent w = Some (outcome, n, w') \<and>
      n \<le> sent + Suc (run_budget limit st)"
proof (induction fuel arbitrary: st sent w)
  case (Suc fuel)
  obtain o1 w1 where create: "create_data C w = (o1, w1)" by fastforce
  show ?case
  proof (cases o1)
    case (Inr rd)
    obtain outcome w2 where send: "send_request C rd w1 = (outcome, w2)" by fastforce
    obtain r w3 where handle: "HandleOutcome U C mode st rd outcome w2 = (r, w3)" by fastforce
    show ?thesis
    proof (cases "\<exists>st'. r = Inr (Inr st')")
      case True
      then obtain st' where r: "r = Inr (Inr st')" by blast
      then have "Suc (run_budget limit st') = run_budget limit st"
        using handle assms [of w rd w1] create Inr by (auto intro: HandleOutcome_budget)
      with Suc.IH [of st' "Suc sent" w3] Suc.prems obtain res n w' where
        "RunLoop U C mode fuel st' (Suc sent) w3 = Some (res, n, w')" "n \<le> sent + Suc (run_budget limit st)"
        by auto
      with create send handle r Inr show ?thesis by simp
    next
      case False
      with create send handle Inr show ?thesis by (auto split: sum.splits)
    qed
  qed (use create in auto)
qed simp

text \<open>
  C22: a request is never repeated for ever. However the server, the credential refresh and the
  region behave, the executor returns a response or an error after at most three requests more
  than the configured number of retries: one further for a refresh of the credentials, one for a
  change of the region and the first attempt itself.
\<close>

theorem Run_returns:
  assumes "\<And>w rd w'. create_data C w = (Inr rd, w') \<Longrightarrow> data_retries rd \<le> limit"
  shows "\<exists>outcome n w'. Run U C mode limit w = Some (outcome, n, w') \<and> n \<le> limit + 3"
proof -
  have "run_budget limit init_run = limit + 2" by (simp add: run_budget_def init_run_def)
  then show ?thesis
    using RunLoop_returns [of C limit init_run "limit + 3" U mode 0 w] assms
    by (auto simp: Run_def)
qed

definition once_callbacks :: "HTTPResponse \<Rightarrow> (S3RequestData, unit) callbacks" where
  "once_callbacks response =
     \<lparr>create_data = (\<lambda>w. (Inr \<lparr>data_request_type = GET_REQUEST, data_auth_params = init_auth,
                            data_retries = 2, data_retry_wait = 100, data_display_url = ''s3://b/k''\<rparr>, w)),
      send_request = (\<lambda>rd w. (Inr response, w)),
      refresh_auth_params = (\<lambda>rd w. (Inr False, w)),
      set_region = (\<lambda>rd r w. (Inr (), w))\<rparr>"

theorem Run_returns_witness:
  "\<exists>outcome n w'. Run ascii_utf8
     (once_callbacks \<lparr>request_error = False, response_status = 400,
        response_body = ''<Error><Code>RequestTimeout</Code></Error>'', response_header = (\<lambda>h. None)\<rparr>)
     POST_DEFAULT 2 () = Some (outcome, n, w') \<and> n \<le> 5"
  using Run_returns [of "once_callbacks \<lparr>request_error = False, response_status = 400,
        response_body = ''<Error><Code>RequestTimeout</Code></Error>'', response_header = (\<lambda>h. None)\<rparr>" 2
      ascii_utf8 POST_DEFAULT "()"]
  by (simp add: once_callbacks_def)

section \<open>Responses that were not received\<close>

text \<open>
  The callbacks with a record of their calls, in the order of the calls; they do nothing else than before.
\<close>

datatype run_event =
    Created
  | Sent "ErrorData + HTTPResponse"
  | Refreshing
  | Changing_Region string

definition recorded_call :: "('x \<Rightarrow> run_event) \<Rightarrow> ('w \<Rightarrow> 'x \<times> 'w) \<Rightarrow> 'w \<times> run_event list \<Rightarrow> 'x \<times> 'w \<times> run_event list" where
  "recorded_call ev f w = (let (x, w') = f (fst w) in (x, w', snd w @ [ev x]))"

definition recorded :: "('d, 'w) callbacks \<Rightarrow> ('d, 'w \<times> run_event list) callbacks" where
  "recorded C =
     \<lparr>create_data = recorded_call (\<lambda>_. Created) (create_data C),
      send_request = (\<lambda>rd. recorded_call Sent (send_request C rd)),
      refresh_auth_params = (\<lambda>rd. recorded_call (\<lambda>_. Refreshing) (refresh_auth_params C rd)),
      set_region = (\<lambda>rd r. recorded_call (\<lambda>_. Changing_Region r) (set_region C rd r))\<rparr>"

text \<open>The recording is the run itself, with the calls beside it.\<close>

lemma recorded_calls [simp]:
  "create_data (recorded C) w = (let (x, w') = create_data C (fst w) in (x, w', snd w @ [Created]))"
  "send_request (recorded C) rd w = (let (x, w') = send_request C rd (fst w) in (x, w', snd w @ [Sent x]))"
  "refresh_auth_params (recorded C) rd w = (let (x, w') = refresh_auth_params C rd (fst w) in (x, w', snd w @ [Refreshing]))"
  "set_region (recorded C) rd r w = (let (x, w') = set_region C rd r (fst w) in (x, w', snd w @ [Changing_Region r]))"
  by (simp_all add: recorded_def recorded_call_def)

lemma recorded_DecideResponse:
  "DecideResponse U (recorded C) mode st rd result w = (d, v) \<Longrightarrow> DecideResponse U C mode st rd result (fst w) = (d, fst v)"
  by (auto simp: DecideResponse_def Let_def split: prod.splits sum.splits option.splits if_splits)

lemma recorded_DecideError:
  "DecideError U (recorded C) st rd e w = (d, v) \<Longrightarrow> DecideError U C st rd e (fst w) = (d, fst v)"
  by (auto simp: DecideError_def Let_def split: prod.splits sum.splits option.splits if_splits)

lemma recorded_ApplyDecision:
  "ApplyDecision (recorded C) rd d st w = (r, v) \<Longrightarrow> ApplyDecision C rd d st (fst w) = (r, fst v)"
  by (auto simp: ApplyDecision_def Let_def split: prod.splits run_decision.splits)

lemma recorded_HandleError:
  "HandleError U (recorded C) st rd e w = (r, v) \<Longrightarrow> HandleError U C st rd e (fst w) = (r, fst v)"
  by (auto simp: HandleError_def split: prod.splits sum.splits if_splits dest!: recorded_DecideError recorded_ApplyDecision)

lemma recorded_HandleOutcome:
  "HandleOutcome U (recorded C) mode st rd outcome w = (r, v) \<Longrightarrow> HandleOutcome U C mode st rd outcome (fst w) = (r, fst v)"
  by (auto simp: HandleOutcome_def Let_def apfst_def map_prod_def split: prod.splits sum.splits if_splits
      dest!: recorded_DecideResponse recorded_ApplyDecision recorded_HandleError)

lemma recorded_RunLoop:
  "map_option (map_prod id (map_prod id fst)) (RunLoop U (recorded C) mode fuel st sent w) = RunLoop U C mode fuel st sent (fst w)"
proof (induction fuel arbitrary: st sent w)
  case (Suc fuel)
  show ?case
    using Suc.IH [of _ _ "(v, log)" for v log]
    by (auto simp: id_def split: prod.splits sum.splits dest!: recorded_HandleOutcome)
qed simp

lemma recorded_Run: "map_option (map_prod id (map_prod id fst)) (Run U (recorded C) mode limit (w, log)) = Run U C mode limit w"
  by (simp add: Run_def recorded_RunLoop)

definition not_sent :: "run_event list \<Rightarrow> bool" where
  "not_sent log \<longleftrightarrow> (\<forall>e \<in> set log. \<forall>x. e \<noteq> Sent x)"

lemma not_sent_simps [simp]:
  "not_sent []" "not_sent (xs @ ys) \<longleftrightarrow> not_sent xs \<and> not_sent ys"
  "not_sent [Created]" "not_sent [Refreshing]" "not_sent [Changing_Region r]" "\<not> not_sent [Sent x]"
  by (auto simp: not_sent_def)

definition extends_log :: "'w \<times> run_event list \<Rightarrow> 'w \<times> run_event list \<Rightarrow> bool" where
  "extends_log w w' \<longleftrightarrow> (\<exists>more. snd w' = snd w @ more \<and> not_sent more)"

lemma extends_log_refl [simp]: "extends_log w w"
  by (auto simp: extends_log_def intro: exI [of _ "[]"])

lemma extends_log_trans: "extends_log w w' \<Longrightarrow> extends_log w' w'' \<Longrightarrow> extends_log w w''"
  by (auto simp: extends_log_def)

lemma DecideResponse_log: "DecideResponse U (recorded C) mode st rd result w = (d, w') \<Longrightarrow> extends_log w w'"
  by (auto simp: DecideResponse_def Let_def extends_log_def split: prod.splits if_splits sum.splits option.splits)

lemma DecideError_log: "DecideError U (recorded C) st rd e w = (d, w') \<Longrightarrow> extends_log w w'"
  by (auto simp: DecideError_def Let_def extends_log_def split: prod.splits if_splits sum.splits option.splits)

lemma ApplyDecision_log: "ApplyDecision (recorded C) rd d st w = (r, w') \<Longrightarrow> extends_log w w'"
  by (auto simp: ApplyDecision_def Let_def extends_log_def apfst_def map_prod_def split: prod.splits run_decision.splits)

lemma HandleError_log: "HandleError U (recorded C) st rd e w = (r, w') \<Longrightarrow> extends_log w w'"
  by (auto simp: HandleError_def split: prod.splits sum.splits if_splits
      dest!: DecideError_log ApplyDecision_log intro: extends_log_trans)

lemma HandleOutcome_log:
  assumes "HandleOutcome U (recorded C) mode st rd outcome w = (r, w')"
  shows "extends_log w w'"
proof -
  have caught: "extends_log v w'" if "apfst (map_sum id Inr) (HandleError U (recorded C) st rd e v) = (r, w')" for e v
    using that HandleError_log [of U C st rd e v] by (cases "HandleError U (recorded C) st rd e v") auto
  show ?thesis
  proof (cases outcome)
    case (Inl e)
    then show ?thesis using assms caught by (simp add: HandleOutcome_def Let_def)
  next
    case (Inr result)
    obtain d w1 where decide: "DecideResponse U (recorded C) mode st rd result w = (d, w1)" by (metis surj_pair)
    note first = DecideResponse_log [OF decide]
    show ?thesis
    proof (cases d)
      case (Inl e)
      then show ?thesis
        using assms caught [of e w1] decide first \<open>outcome = Inr result\<close>
        by (auto simp: HandleOutcome_def Let_def intro: extends_log_trans)
    next
      case (Inr dec)
      obtain a w2 where applied: "ApplyDecision (recorded C) rd dec st w1 = (a, w2)" by (metis surj_pair)
      note second = extends_log_trans [OF first ApplyDecision_log [OF applied]]
      show ?thesis
        using assms caught [of _ w2] decide applied first second Inr \<open>outcome = Inr result\<close>
        by (cases a) (auto simp: HandleOutcome_def Let_def split: if_splits intro: extends_log_trans)
    qed
  qed
qed

definition unreceived :: "run_event \<Rightarrow> bool" where
  "unreceived e \<longleftrightarrow> (\<exists>result. e = Sent (Inr result) \<and> request_error result)"

lemma not_sent_received: "not_sent log \<Longrightarrow> list_all (\<lambda>e. \<not> unreceived e) log"
  by (auto simp: not_sent_def unreceived_def list_all_iff)

lemma HandleOutcome_unreceived:
  "request_error result \<Longrightarrow> HandleOutcome U C mode st rd (Inr result) w = (Inr (Inl result), w)"
  by (simp add: HandleOutcome_def DecideResponse_def)

lemma RunLoop_unreceived:
  assumes "RunLoop U (recorded C) mode fuel st sent (w, log) = Some (outcome, n, w', log')"
    and "list_all (\<lambda>e. \<not> unreceived e) log"
  shows "list_all (\<lambda>e. \<not> unreceived e) log' \<or>
    (\<exists>before result rd. log' = before @ [Sent (Inr result)] \<and> list_all (\<lambda>e. \<not> unreceived e) before \<and>
       request_error result \<and> outcome = Inr (result, rd))"
  using assms
proof (induction fuel arbitrary: st sent w log)
  case (Suc fuel)
  obtain d w1 where create: "create_data C w = (d, w1)" by (metis surj_pair)
  show ?case
  proof (cases d)
    case (Inl e)
    then show ?thesis using Suc.prems create by (auto simp: unreceived_def)
  next
    case (Inr rd)
    obtain x w2 where send: "send_request C rd w1 = (x, w2)" by (metis surj_pair)
    let ?log = "log @ [Created, Sent x]"
    obtain r v where handled: "HandleOutcome U (recorded C) mode st rd x (w2, ?log) = (r, v)" by (metis surj_pair)
    show ?thesis
    proof (cases "unreceived (Sent x)")
      case True
      then obtain result where x: "x = Inr result" "request_error result" by (auto simp: unreceived_def)
      then have "outcome = Inr (result, rd)" "log' = (log @ [Created]) @ [Sent (Inr result)]"
        using Suc.prems(1) create Inr send x(2) by (auto simp: HandleOutcome_unreceived)
      moreover have "list_all (\<lambda>e. \<not> unreceived e) (log @ [Created])" using Suc.prems(2) by (simp add: unreceived_def)
      ultimately show ?thesis using x(2) by blast
    next
      case False
      obtain w3 more where v: "v = (w3, ?log @ more)" "not_sent more"
        using HandleOutcome_log [OF handled] by (cases v) (auto simp: extends_log_def)
      have ok: "list_all (\<lambda>e. \<not> unreceived e) (?log @ more)"
        using Suc.prems(2) False not_sent_received [OF v(2)] by (simp add: unreceived_def)
      show ?thesis
      proof (cases "\<exists>st'. r = Inr (Inr st')")
        case True
        then obtain st' where "r = Inr (Inr st')" by blast
        then have "RunLoop U (recorded C) mode fuel st' (Suc sent) (w3, ?log @ more) = Some (outcome, n, w', log')"
          using Suc.prems(1) create Inr send handled v by simp
        from Suc.IH [OF this ok] show ?thesis .
      next
        case False
        then have "log' = ?log @ more"
          using Suc.prems(1) create Inr send handled v by (auto split: sum.splits)
        with ok show ?thesis by simp
      qed
    qed
  qed
qed simp

text \<open>
  C23: A request whose response was not received is never sent again, at whichever attempt this happens and whatever its kind,
  the retry mode and the retries left. Of all the calls of its callbacks that a run of the executor makes, the one that
  sent this attempt is the last: nothing is sent after it, neither the credentials nor the region are touched,
  and the run returns this response. The recording changes nothing else: the run without it returns the same.
\<close>

theorem Run_unreceived:
  assumes "Run U (recorded C) mode limit (w, []) = Some (outcome, n, w', calls)"
    and "calls = before @ Sent (Inr result) # after" "request_error result"
  shows "after = [] \<and> (\<exists>rd. outcome = Inr (result, rd)) \<and> Run U C mode limit w = Some (outcome, n, w')"
proof -
  have bad: "unreceived (Sent (Inr result))" using assms(3) by (simp add: unreceived_def)
  then have "\<not> list_all (\<lambda>e. \<not> unreceived e) calls" using assms(2) by simp
  then obtain first result' rd where last: "calls = first @ [Sent (Inr result')]" "list_all (\<lambda>e. \<not> unreceived e) first"
    "outcome = Inr (result', rd)"
    using RunLoop_unreceived [OF assms(1) [unfolded Run_def]] by auto
  have "after = []"
  proof (rule ccontr)
    assume "after \<noteq> []"
    then have "first = before @ Sent (Inr result) # butlast after"
      using last(1) assms(2) by (metis butlast.simps(2) butlast_append butlast_snoc list.distinct(1))
    with last(2) bad show False by simp
  qed
  moreover have "Run U C mode limit w = Some (outcome, n, w')" unfolding recorded_Run [of U C mode limit w "[]", symmetric] assms(1) by simp
  ultimately show ?thesis using last assms(2) by simp
qed

text \<open>A server that asks for a retry once, and whose second response does not arrive.\<close>

definition lossy_callbacks :: "(S3RequestData, bool) callbacks" where
  "lossy_callbacks =
     \<lparr>create_data = (\<lambda>w. (Inr \<lparr>data_request_type = GET_REQUEST, data_auth_params = init_auth,
                            data_retries = 2, data_retry_wait = 100, data_display_url = ''s3://b/k''\<rparr>, w)),
      send_request = (\<lambda>rd first. (Inr \<lparr>request_error = \<not> first, response_status = (if first then 503 else 0),
        response_body = [], response_header = (\<lambda>h. None)\<rparr>, False)),
      refresh_auth_params = (\<lambda>rd w. (Inr False, w)), set_region = (\<lambda>rd r w. (Inr (), w))\<rparr>"

definition lost_response :: HTTPResponse where
  "lost_response = \<lparr>request_error = True, response_status = 0, response_body = [], response_header = (\<lambda>h. None)\<rparr>"

definition busy_response :: HTTPResponse where
  "busy_response = \<lparr>request_error = False, response_status = 503, response_body = [], response_header = (\<lambda>h. None)\<rparr>"

theorem Run_unreceived_witness:
  "\<exists>outcome rd. Run ascii_utf8 (recorded lossy_callbacks) RETRY_RECEIVED_RESPONSES 2 (True, []) =
     Some (outcome, 2, False, [Created, Sent (Inr busy_response), Created, Sent (Inr lost_response)]) \<and>
     outcome = Inr (lost_response, rd)"
proof -
  have "\<exists>outcome. Run ascii_utf8 (recorded lossy_callbacks) RETRY_RECEIVED_RESPONSES 2 (True, []) =
     Some (outcome, 2, False, [Created, Sent (Inr busy_response), Created, Sent (Inr lost_response)])"
    by (simp add: Run_def numeral_eq_Suc lossy_callbacks_def busy_response_def lost_response_def HandleOutcome_def
        DecideResponse_def IsAuthRefreshStatus_def GetRegionRedirect_def ShouldRetryReceivedResponse_def
        IsRetryableReceivedResponse_def IsRequestTimeout_def ApplyDecision_def init_run_def)
  then obtain outcome where run: "Run ascii_utf8 (recorded lossy_callbacks) RETRY_RECEIVED_RESPONSES 2 (True, []) =
     Some (outcome, 2, False, [Created, Sent (Inr busy_response), Created, Sent (Inr lost_response)])" by blast
  from Run_unreceived [OF run, of "[Created, Sent (Inr busy_response), Created]" lost_response "[]"] run
  show ?thesis by (auto simp: lost_response_def)
qed

section \<open>The query is canonical\<close>

lemma AppendParameters_Nil:
  "wire \<noteq> [] \<Longrightarrow> AppendParameters wire ps =
     wire @ concat (map (\<lambda>(k, v). ''&'' @ k @ ''='' @ v) ps)"
  by (induction wire ps rule: AppendParameters.induct) auto

lemma AppendParameters_JoinQuery:
  "AppendParameters [] (EncodeParameters D ps) = JoinQuery D ps"
proof -
  have "AppendParameters [] ((Encode D k QUERY_COMPONENT, Encode D v QUERY_COMPONENT) # EncodeParameters D ps) =
      JoinQuery D ((k, v) # ps)" for k v ps
  proof (induction ps arbitrary: k v)
    case (Cons p ps)
    then show ?case
      by (cases p) (simp add: AppendParameters_Nil EncodeParameters_def)
  qed (simp add: EncodeParameters_def)
  then show ?thesis
    by (cases ps) (auto simp: EncodeParameters_def)
qed

lemma sort_EncodeParameters:
  "\<exists>qs. mset qs = mset ps \<and> sort (EncodeParameters D ps) = EncodeParameters D qs"
proof -
  let ?f = "\<lambda>(k, v). (Encode D k QUERY_COMPONENT, Encode D v QUERY_COMPONENT)"
  have "sort (map ?f ps) = map ?f (sort_key ?f ps)"
    by (rule properties_for_sort) (simp_all add: sorted_sort_key)
  then show ?thesis
    unfolding EncodeParameters_def by (intro exI [of _ "sort_key ?f ps"]) simp
qed

text \<open>
  C27: the query that is signed is the query that is sent, it does not depend on the order in
  which the parameters were given, and parsing it back gives exactly the parameters.
\<close>

theorem MakeQuery_canonical:
  assumes "url_coding D" "list_all (\<lambda>p. fst p \<noteq> []) ps" "distinct (map fst ps)" "ps \<noteq> []"
    and "mset qs = mset ps"
  shows "canonical_query (MakeQuery D ps) = wire_query (MakeQuery D ps) \<and>
    wire_query (MakeQuery D qs) = wire_query (MakeQuery D ps) \<and>
    (\<exists>rs. ParseQueryParameters D (wire_query (MakeQuery D ps)) = Inr rs \<and> mset rs = mset ps)"
proof -
  have "mset (EncodeParameters D qs) = mset (EncodeParameters D ps)"
    using assms(5) by (simp add: EncodeParameters_def)
  then have same: "sort (EncodeParameters D qs) = sort (EncodeParameters D ps)"
    by (metis mset_sort properties_for_sort sorted_sort)
  obtain rs where rs: "mset rs = mset ps" "sort (EncodeParameters D ps) = EncodeParameters D rs"
    using sort_EncodeParameters by blast
  have "mset (map fst rs) = mset (map fst ps)" using rs(1) by simp
  then have "distinct (map fst rs)" using assms(3) by (metis mset_eq_imp_distinct_iff)
  moreover have "set rs = set ps" using rs(1) by (rule mset_eq_setD)
  ultimately have "ParseQueryLoop D (JoinQuery D rs) [] = Inr (rev rs @ [])"
    using assms by (intro ParseQueryLoop_JoinQuery) (auto simp: list_all_iff)
  with rs same show ?thesis
    by (auto simp: MakeQuery_def Let_def AppendParameters_JoinQuery ParseQueryParameters_def)
qed

theorem MakeQuery_canonical_witness:
  "wire_query (MakeQuery std_api [(''uploadId'', ''x''), (''partNumber'', ''1'')]) =
   wire_query (MakeQuery std_api [(''partNumber'', ''1''), (''uploadId'', ''x'')])"
  using MakeQuery_canonical [OF url_coding_std, of "[(''partNumber'', ''1''), (''uploadId'', ''x'')]"
      "[(''uploadId'', ''x''), (''partNumber'', ''1'')]"]
  by simp

end
