(* ===== verification/S3_Upload_State.thy ===== *)
theory S3_Upload_State
  imports S3_Settings S3_Request Xml_Writer
begin

text \<open>
  The state of an S3 upload and its critical sections (src/src/s3/s3_upload_session.cpp). Every
  function below is what the code does while it holds \<open>state_lock\<close>; a section that waits on
  \<open>state_changed\<close> is \<open>Blocked\<close> in the states in which it waits, and leaves the state alone
  there. Memory buffers are the byte lists they hold. Offsets are natural numbers: the guard of
  \<open>PrepareWrite\<close> keeps them below \<open>max_file_size\<close>, a 64-bit word.
\<close>

section \<open>State\<close>

datatype LifecycleState = ACTIVE | FINALIZING | FINALIZED | ABORTING | ABORTED

datatype InitializationState = NOT_STARTED | INIT_IN_PROGRESS | SUCCEEDED | FAILED

datatype CleanupState = NONE | CLEANUP_IN_PROGRESS | COMPLETE

datatype FailureDisposition = DEFINITIVE | AMBIGUOUS

record BufferedPart =
  buffer_data :: string
  buffer_capacity :: nat

record PreparedPart =
  part_number :: nat
  part_data :: string

record PreparedWrite =
  prepared_parts :: "PreparedPart list"
  prepared_buffer :: "BufferedPart option"

record MultipartSnapshot =
  snapshot_upload_id :: "string option"
  snapshot_etags :: "string list"

record S3UploadSession =
  lifecycle_state :: LifecycleState
  active_operations :: nat
  next_offset :: nat
  buffered_part :: "BufferedPart option"
  initialization_state :: InitializationState
  multipart_upload_id :: "string option"
  part_etags :: "string list"
  primary_error :: "exn option"
  abort_error :: "exn option"
  failure_disposition :: FailureDisposition
  abort_suppressed :: bool
  cleanup_state :: CleanupState

definition init_session :: S3UploadSession where
  "init_session =
     \<lparr>lifecycle_state = ACTIVE, active_operations = 0, next_offset = 0, buffered_part = None,
      initialization_state = NOT_STARTED, multipart_upload_id = None, part_etags = [],
      primary_error = None, abort_error = None, failure_disposition = DEFINITIVE,
      abort_suppressed = False, cleanup_state = NONE\<rparr>"


section \<open>Failures\<close>

text \<open>The exception \<open>ThrowFailure\<close> throws for the captured failure.\<close>

definition ThrowFailure :: "S3UploadSession \<Rightarrow> exn" where
  "ThrowFailure s =
     (case primary_error s of
        None \<Rightarrow> Exn InternalException [] []
      | Some p \<Rightarrow>
          (case abort_error s of
             None \<Rightarrow> p
           | Some a \<Rightarrow>
               Exn (exn_class p) (exn_format p @ [NL, NL] @ ''Additionally, '' @ exn_format a)
                 (exn_args p @ exn_args a)))"

definition LatchFailureLocked :: "exn \<Rightarrow> FailureDisposition \<Rightarrow> S3UploadSession \<Rightarrow> S3UploadSession" where
  [session_defs]: "LatchFailureLocked e disposition s =
     (let s1 = (if primary_error s = None
                then s\<lparr>primary_error := Some e, failure_disposition := disposition\<rparr> else s);
          s2 = (if disposition = AMBIGUOUS then s1\<lparr>abort_suppressed := True\<rparr> else s1)
      in if lifecycle_state s2 = FINALIZING then s2\<lparr>lifecycle_state := ACTIVE\<rparr> else s2)"

definition ThrowIfFailed :: "S3UploadSession \<Rightarrow> unit outcome" where
  [session_defs]: "ThrowIfFailed s = (if primary_error s \<noteq> None then Raised (ThrowFailure s) else Done ())"

section \<open>Admission and release of operations\<close>

definition BeginWriteOperation :: "S3UploadSession \<Rightarrow> unit outcome \<times> S3UploadSession" where
  [session_defs]: "BeginWriteOperation s =
     (if primary_error s \<noteq> None \<and> cleanup_state s \<noteq> COMPLETE then (Blocked, s)
      else if primary_error s \<noteq> None then (Raised (ThrowFailure s), s)
      else if lifecycle_state s = ABORTING \<or> lifecycle_state s = ABORTED then
        (Raised (Exn IOException ''Cannot write to an aborted S3 upload'' []), s)
      else if lifecycle_state s = FINALIZING then
        (Raised (Exn IOException ''Concurrent S3 upload operations are not supported'' []), s)
      else if lifecycle_state s = FINALIZED then
        (Raised (Exn IOException ''Cannot write to a finalized S3 upload'' []), s)
      else (Done (), s\<lparr>active_operations := active_operations s + 1\<rparr>))"

datatype finalize_start = ALREADY_FINALIZED | FINALIZE_BEGUN "BufferedPart option"

definition BeginFinalize :: "S3UploadSession \<Rightarrow> finalize_start outcome \<times> S3UploadSession" where
  [session_defs]: "BeginFinalize s =
     (if primary_error s \<noteq> None \<and> cleanup_state s \<noteq> COMPLETE then (Blocked, s)
      else if primary_error s \<noteq> None then (Raised (ThrowFailure s), s)
      else if lifecycle_state s = ABORTING \<or> lifecycle_state s = ABORTED then
        (Raised (Exn IOException ''Cannot finalize an aborted S3 upload'' []), s)
      else if lifecycle_state s = FINALIZING \<or> active_operations s > 0 then
        (Raised (Exn IOException ''Concurrent S3 upload operations are not supported'' []), s)
      else if lifecycle_state s = FINALIZED then (Done ALREADY_FINALIZED, s)
      else (Done (FINALIZE_BEGUN (buffered_part s)),
            s\<lparr>lifecycle_state := FINALIZING, active_operations := active_operations s + 1,
              buffered_part := None\<rparr>))"

definition FinishFinalize :: "S3UploadSession \<Rightarrow> S3UploadSession" where
  [session_defs]: "FinishFinalize s =
     s\<lparr>active_operations := active_operations s - 1, lifecycle_state := FINALIZED\<rparr>"

text \<open>
  \<open>ReleaseOperation\<close> gives the operation back and decides what happens to a latched failure:
  nothing, the cleanup of the upload by this thread, or waiting for the cleanup to be complete.
\<close>

datatype release_next = RELEASED | OWN_CLEANUP string | AWAIT_CLEANUP

definition ReleaseOperation :: "S3UploadSession \<Rightarrow> release_next \<times> S3UploadSession" where
  [session_defs]: "ReleaseOperation s =
     (let s1 = s\<lparr>active_operations := active_operations s - 1\<rparr>
      in if primary_error s = None then (RELEASED, s1)
         else if active_operations s1 = 0 \<and> cleanup_state s1 = NONE then
           (case multipart_upload_id s1 of
              Some upload_id \<Rightarrow>
                if failure_disposition s1 = DEFINITIVE \<and> \<not> abort_suppressed s1
                then (OWN_CLEANUP upload_id, s1\<lparr>cleanup_state := CLEANUP_IN_PROGRESS\<rparr>)
                else (AWAIT_CLEANUP, s1\<lparr>cleanup_state := COMPLETE\<rparr>)
            | None \<Rightarrow> (AWAIT_CLEANUP, s1\<lparr>cleanup_state := COMPLETE\<rparr>))
         else (AWAIT_CLEANUP, s1))"

definition AwaitCleanup :: "S3UploadSession \<Rightarrow> unit outcome" where
  [session_defs]: "AwaitCleanup s =
     (if cleanup_state s \<noteq> COMPLETE then Blocked else Raised (ThrowFailure s))"

text \<open>The end of the cleanup; the operation then throws the failure.\<close>

definition FinishCleanup :: "exn option \<Rightarrow> S3UploadSession \<Rightarrow> S3UploadSession" where
  [session_defs]: "FinishCleanup error s =
     s\<lparr>abort_error := (if error \<noteq> None \<and> abort_error s = None then error else abort_error s),
       cleanup_state := COMPLETE\<rparr>"

section \<open>Preparing a write\<close>

text \<open>Returns the bytes copied into the buffer and the buffer.\<close>

definition AppendToBufferedPart :: "BufferedPart \<Rightarrow> string \<Rightarrow> nat \<times> BufferedPart" where
  "AppendToBufferedPart b data =
     (let copy_size = min (length data) (buffer_capacity b - length (buffer_data b))
      in (copy_size, b\<lparr>buffer_data := buffer_data b @ take copy_size data\<rparr>))"

definition ReservePart ::
  "S3UploadConfig \<Rightarrow> string list \<Rightarrow> string \<Rightarrow> exn + (string list \<times> PreparedPart)" where
  "ReservePart config etags data =
     (if \<not> HasPartCapacity config (of_nat (length etags)) then
        Inl (Exn IOException ''S3 upload exceeds the configured maximum of %llu multipart parts''
          [to_string (unat (max_parts config))])
      else Inr (etags @ [[]], \<lparr>part_number = length etags + 1, part_data = data\<rparr>))"

text \<open>
  The loop over the rest of the data. \<open>alloc\<close> says whether the buffer manager can allocate a
  buffer. An exception carries the ETag slots reserved before it.
\<close>

function PrepareLoop ::
  "S3UploadConfig \<Rightarrow> (nat \<Rightarrow> bool) \<Rightarrow> string \<Rightarrow> string list \<Rightarrow> PreparedPart list \<Rightarrow> BufferedPart option \<Rightarrow>
     (exn \<times> string list) + (string list \<times> PreparedWrite)" where
  "PrepareLoop config alloc data etags parts buf =
     (if data = [] then Inr (etags, \<lparr>prepared_parts = parts, prepared_buffer = buf\<rparr>)
      else
        let remaining = length data;
            part_size = unat (PartSize config (of_nat (length etags)));
            should_buffer = (if etags = [] then remaining \<le> part_size else remaining < part_size)
        in if should_buffer then
             (if \<not> alloc part_size then
                Inl (Exn OutOfMemoryException ''could not allocate buffer'' [], etags)
              else
                Inr (etags, \<lparr>prepared_parts = parts,
                  prepared_buffer = Some (snd (AppendToBufferedPart
                    \<lparr>buffer_data = [], buffer_capacity = part_size\<rparr> data))\<rparr>))
           else
             let direct_size = min remaining (unat MAX_MULTIPART_PART_SIZE)
             in case ReservePart config etags (take direct_size data) of
                  Inl e \<Rightarrow> Inl (e, etags)
                | Inr (etags', part) \<Rightarrow>
                    PrepareLoop config alloc (drop direct_size data) etags' (parts @ [part]) buf)"
  by pat_completeness auto
termination
  by (relation "measure (\<lambda>(c, a, data, e, p, b). length data)") (auto simp: max_part_nat)

declare PrepareLoop.simps [simp del]

text \<open>What happens to the buffer of the session first.\<close>

definition PrepareBuffered ::
  "S3UploadConfig \<Rightarrow> string \<Rightarrow> string list \<Rightarrow> BufferedPart option \<Rightarrow>
     (exn \<times> string list) + (string \<times> string list \<times> PreparedPart list \<times> BufferedPart option)" where
  "PrepareBuffered config data etags buf =
     (case buf of
        None \<Rightarrow> Inr (data, etags, [], None)
      | Some b \<Rightarrow>
          if data = [] then Inr (data, etags, [], Some b)
          else if length (buffer_data b) = buffer_capacity b then
            (case ReservePart config etags (buffer_data b) of
               Inl e \<Rightarrow> Inl (e, etags)
             | Inr (etags', part) \<Rightarrow> Inr (data, etags', [part], None))
          else
            let (input_offset, b') = AppendToBufferedPart b data
            in if length (buffer_data b') = buffer_capacity b' \<and> input_offset < length data then
                 (case ReservePart config etags (buffer_data b') of
                    Inl e \<Rightarrow> Inl (e, etags)
                  | Inr (etags', part) \<Rightarrow> Inr (drop input_offset data, etags', [part], None))
               else Inr (drop input_offset data, etags, [], Some b'))"

definition PrepareParts ::
  "S3UploadConfig \<Rightarrow> (nat \<Rightarrow> bool) \<Rightarrow> string \<Rightarrow> string list \<Rightarrow> BufferedPart option \<Rightarrow>
     (exn \<times> string list) + (string list \<times> PreparedWrite)" where
  "PrepareParts config alloc data etags buf =
     (case PrepareBuffered config data etags buf of
        Inl e \<Rightarrow> Inl e
      | Inr (rest, etags', parts, buf') \<Rightarrow> PrepareLoop config alloc rest etags' parts buf')"

definition PrepareWrite ::
  "S3UploadConfig \<Rightarrow> (nat \<Rightarrow> bool) \<Rightarrow> string \<Rightarrow> nat \<Rightarrow> S3UploadSession \<Rightarrow>
     PreparedPart list outcome \<times> S3UploadSession" where
  [session_defs]: "PrepareWrite config alloc data location s =
     (if location > next_offset s \<and> primary_error s = None then (Blocked, s)
      else if primary_error s \<noteq> None then (Raised (ThrowFailure s), s)
      else if location \<noteq> next_offset s then
        (Raised (Exn IOException ''S3 writes must be sequential: expected offset %llu, got %llu''
           [to_string (next_offset s), to_string location]), s)
      else if length data > unat (max_file_size config) - next_offset s then
        (Raised (Exn IOException ''S3 upload exceeds the configured maximum file size of %llu bytes''
           [to_string (unat (max_file_size config))]), s)
      else case PrepareParts config alloc data (part_etags s) (buffered_part s) of
             Inl (e, etags) \<Rightarrow> (Raised e, s\<lparr>buffered_part := None, part_etags := etags\<rparr>)
           | Inr (etags, w) \<Rightarrow>
               (Done (prepared_parts w),
                s\<lparr>part_etags := etags, buffered_part := prepared_buffer w,
                  next_offset := next_offset s + length data\<rparr>))"

section \<open>The multipart upload\<close>

datatype ensure_next = HAVE_UPLOAD "string option" | INITIALIZE

definition EnsureMultipartUpload :: "S3UploadSession \<Rightarrow> ensure_next outcome \<times> S3UploadSession" where
  [session_defs]: "EnsureMultipartUpload s =
     (if initialization_state s = INIT_IN_PROGRESS \<and> primary_error s = None then (Blocked, s)
      else if primary_error s \<noteq> None then (Raised (ThrowFailure s), s)
      else if initialization_state s = SUCCEEDED then (Done (HAVE_UPLOAD (multipart_upload_id s)), s)
      else if initialization_state s = FAILED then (Done INITIALIZE, s)
      else (Done INITIALIZE, s\<lparr>initialization_state := INIT_IN_PROGRESS\<rparr>))"

definition PublishInitialization :: "string \<Rightarrow> S3UploadSession \<Rightarrow> string outcome \<times> S3UploadSession" where
  [session_defs]: "PublishInitialization upload_id s =
     (let s1 = s\<lparr>multipart_upload_id := Some upload_id, initialization_state := SUCCEEDED\<rparr>
      in (if primary_error s1 \<noteq> None then Raised (ThrowFailure s1) else Done upload_id, s1))"

definition PublishInitializationFailure ::
  "exn \<Rightarrow> FailureDisposition \<Rightarrow> S3UploadSession \<Rightarrow> S3UploadSession" where
  [session_defs]: "PublishInitializationFailure e disposition s =
     LatchFailureLocked e disposition (s\<lparr>initialization_state := FAILED\<rparr>)"

definition StorePartETag :: "nat \<Rightarrow> string \<Rightarrow> S3UploadSession \<Rightarrow> unit outcome \<times> S3UploadSession" where
  [session_defs]: "StorePartETag n etag s =
     (if primary_error s \<noteq> None then (Raised (ThrowFailure s), s)
      else (Done (), s\<lparr>part_etags := (part_etags s)[n - 1 := etag]\<rparr>))"

definition GetMultipartSnapshot :: "S3UploadSession \<Rightarrow> MultipartSnapshot outcome" where
  [session_defs]: "GetMultipartSnapshot s =
     (if list_ex (\<lambda>etag. etag = []) (part_etags s) then
        Raised (Exn IOException ''S3 multipart upload is missing a completed part'' [])
      else Done \<lparr>snapshot_upload_id = multipart_upload_id s, snapshot_etags = part_etags s\<rparr>)"

text \<open>The last part of a multipart upload, reserved by \<open>Finalize\<close>.\<close>

definition ReserveFinalPart ::
  "S3UploadConfig \<Rightarrow> BufferedPart \<Rightarrow> S3UploadSession \<Rightarrow> PreparedPart outcome \<times> S3UploadSession" where
  [session_defs]: "ReserveFinalPart config b s =
     (case ReservePart config (part_etags s) (buffer_data b) of
        Inl e \<Rightarrow> (Raised e, s)
      | Inr (etags, part) \<Rightarrow> (Done part, s\<lparr>part_etags := etags\<rparr>))"

section \<open>Aborting\<close>

datatype abort_start = NOT_ABORTED | WAS_ABORTED | DRAIN

definition AbortBegin :: "S3UploadSession \<Rightarrow> abort_start outcome \<times> S3UploadSession" where
  [session_defs]: "AbortBegin s =
     (if lifecycle_state s = FINALIZING \<or> lifecycle_state s = ABORTING then (Blocked, s)
      else if lifecycle_state s = FINALIZED then (Done NOT_ABORTED, s)
      else if lifecycle_state s = ABORTED then (Done WAS_ABORTED, s)
      else (Done DRAIN, s\<lparr>lifecycle_state := ABORTING\<rparr>))"

datatype abort_next = ABORT_AWAIT | ABORT_CLEANUP string | ABORT_DONE

definition AbortDrain :: "S3UploadSession \<Rightarrow> abort_next outcome \<times> S3UploadSession" where
  [session_defs]: "AbortDrain s =
     (if active_operations s > 0 then (Blocked, s)
      else
        let s1 = s\<lparr>buffered_part := None\<rparr>
        in if primary_error s1 \<noteq> None then (Done ABORT_AWAIT, s1)
           else case multipart_upload_id s1 of
                  Some upload_id \<Rightarrow>
                    if \<not> abort_suppressed s1
                    then (Done (ABORT_CLEANUP upload_id), s1\<lparr>cleanup_state := CLEANUP_IN_PROGRESS\<rparr>)
                    else (Done ABORT_DONE, s1\<lparr>cleanup_state := COMPLETE, lifecycle_state := ABORTED\<rparr>)
                | None \<Rightarrow> (Done ABORT_DONE, s1\<lparr>cleanup_state := COMPLETE, lifecycle_state := ABORTED\<rparr>))"

definition AbortAwait :: "S3UploadSession \<Rightarrow> unit outcome \<times> S3UploadSession" where
  [session_defs]: "AbortAwait s =
     (if cleanup_state s \<noteq> COMPLETE then (Blocked, s)
      else (Raised (ThrowFailure s), s\<lparr>lifecycle_state := ABORTED\<rparr>))"

definition AbortFinish :: "S3UploadSession \<Rightarrow> S3UploadSession" where
  [session_defs]: "AbortFinish s = s\<lparr>cleanup_state := COMPLETE, lifecycle_state := ABORTED\<rparr>"

section \<open>Reading the responses\<close>

record S3RequestContext =
  context_request_type :: RequestType
  context_auth_params :: S3AuthParams
  context_display_url :: string

type_synonym 'a request_result = "(FailureDisposition \<times> exn) + 'a"

definition GetStatusError ::
  "utf8proc \<Rightarrow> (int \<Rightarrow> string list) \<Rightarrow> HTTPResponse \<Rightarrow> S3RequestContext \<Rightarrow> string \<Rightarrow> exn" where
  "GetStatusError U status_text response ctx operation =
     GetError U status_text (context_auth_params ctx) response (context_request_type ctx) operation
       (context_display_url ctx)"

definition IsSuccessfulStatus :: "int \<Rightarrow> bool" where
  "IsSuccessfulStatus status \<longleftrightarrow> status \<ge> 200 \<and> status < 300"

text \<open>
  The messages name the object between double quotes. A request either throws or returns a
  response, the context of its last attempt and, for a POST, the body it received.
\<close>

type_synonym reply = "exn + (HTTPResponse \<times> S3RequestContext \<times> string)"

definition ambiguous :: "string \<Rightarrow> string \<Rightarrow> S3RequestContext \<Rightarrow> FailureDisposition \<times> exn" where
  "ambiguous operation what ctx =
     (AMBIGUOUS, Exn IOException
        (''S3 multipart upload '' @ operation @ '' for '' @ [QUOT] @ ''%s'' @ [QUOT] @ '' '' @ what)
        [context_display_url ctx])"

definition InitializeMultipartUpload ::
  "utf8proc \<Rightarrow> (int \<Rightarrow> string list) \<Rightarrow> reply \<Rightarrow> string request_result" where
  "InitializeMultipartUpload U status_text reply =
     (case reply of
        Inl e \<Rightarrow> Inl (DEFINITIVE, e)
      | Inr (response, ctx, result) \<Rightarrow>
          if request_error response then
            Inl (ambiguous ''initialization''
              ''has an unknown outcome because the response was not received; the request was not retried and cannot be aborted without an upload ID'' ctx)
          else if \<not> IsSuccessfulStatus (response_status response) then
            Inl (DEFINITIVE, GetStatusError U status_text response ctx ''initializing multipart upload for'')
          else case TryParse U result of
                 None \<Rightarrow>
                   Inl (ambiguous ''initialization''
                     ''returned malformed XML; the request was not retried and cannot be aborted without an upload ID'' ctx)
               | Some parsed \<Rightarrow>
                   if response_type parsed \<noteq> MULTIPART_INITIALIZATION then
                     Inl (ambiguous ''initialization''
                       ''returned an unrecognized response; the request was not retried and cannot be aborted without an upload ID'' ctx)
                   else Inr (response_upload_id parsed))"

definition Upload :: "utf8proc \<Rightarrow> (int \<Rightarrow> string list) \<Rightarrow> reply \<Rightarrow> string request_result" where
  "Upload U status_text reply =
     (case reply of
        Inl e \<Rightarrow> Inl (DEFINITIVE, e)
      | Inr (response, ctx, result) \<Rightarrow>
          if request_error response then
            Inl (DEFINITIVE, Exn IOException
              (''S3 upload request for '' @ [QUOT] @ ''%s'' @ [QUOT] @ '' could not be completed'')
              [context_display_url ctx])
          else if response_status response \<noteq> 200 then
            Inl (DEFINITIVE, GetStatusError U status_text response ctx ''uploading to'')
          else case response_header response ''ETag'' of
                 None \<Rightarrow> Inl (DEFINITIVE, Exn IOException ''Unexpected response when uploading to S3'' [])
               | Some etag \<Rightarrow> Inr etag)"

definition CompleteMultipartUpload ::
  "utf8proc \<Rightarrow> (int \<Rightarrow> string list) \<Rightarrow> reply \<Rightarrow> unit request_result" where
  "CompleteMultipartUpload U status_text reply =
     (case reply of
        Inl e \<Rightarrow> Inl (DEFINITIVE, e)
      | Inr (response, ctx, result) \<Rightarrow>
          if request_error response then
            Inl (ambiguous ''completion''
              ''has an unknown outcome because the response was not received; the request was not retried or aborted'' ctx)
          else if \<not> IsSuccessfulStatus (response_status response) then
            Inl (DEFINITIVE, GetStatusError U status_text response ctx ''completing multipart upload for'')
          else case TryParse U result of
                 None \<Rightarrow>
                   Inl (ambiguous ''completion'' ''returned malformed XML; the request was not retried or aborted'' ctx)
               | Some parsed \<Rightarrow>
                   if response_type parsed = XML_ERROR then
                     Inl (DEFINITIVE, Exn HTTPException
                       (''S3 multipart upload completion for '' @ [QUOT] @ ''%s'' @ [QUOT] @ '' failed: %s%s%s'')
                       [context_display_url ctx,
                        if response_error_code parsed = [] then ''S3 returned an embedded error''
                        else response_error_code parsed,
                        if response_error_message parsed = [] then [] else '': '',
                        response_error_message parsed])
                   else if response_type parsed \<noteq> MULTIPART_COMPLETION then
                     Inl (ambiguous ''completion''
                       ''returned an unrecognized response; the request was not retried or aborted'' ctx)
                   else Inr ())"

text \<open>The error of the abort request, \<open>None\<close> when the upload is gone.\<close>

definition AbortMultipartUpload ::
  "utf8proc \<Rightarrow> (int \<Rightarrow> string list) \<Rightarrow> string \<Rightarrow> reply \<Rightarrow> exn option" where
  "AbortMultipartUpload U status_text display_path reply =
     (case reply of
        Inl e \<Rightarrow>
          Some (Exn (exn_class e)
            (''Failed to abort S3 multipart upload for '' @ [QUOT] @ ''%s'' @ [QUOT] @
             '': the cleanup request could not be completed'') [display_path])
      | Inr (response, ctx, result) \<Rightarrow>
          if response_status response = 204 then None
          else
            let e = GetStatusError U status_text response ctx ''aborting multipart upload for''
            in Some (Exn (exn_class e) (''Failed to abort S3 multipart upload: '' @ exn_format e) (exn_args e)))"

section \<open>What is reserved is what was written\<close>

text \<open>
  The interface between the sizing and the upload: a schedule gives every part a positive size.
\<close>

locale part_schedule =
  fixes sized :: "'c \<Rightarrow> bool" and size_of :: "'c \<Rightarrow> u64 \<Rightarrow> nat"
  assumes lower: "sized c \<Longrightarrow> 5242880 \<le> size_of c k"
    and upper: "sized c \<Longrightarrow> size_of c k \<le> 5368709120"
begin

lemma positive: "sized c \<Longrightarrow> 0 < size_of c k"
  using lower [of c k] by simp

lemma direct_part:
  assumes "sized c" "size_of c k \<le> n"
  shows "5242880 \<le> min n 5368709120" "min n 5368709120 \<le> (5368709120 :: nat)"
  using assms lower [of c k] by auto

end

definition upload_config_ok :: "S3UploadConfig \<Rightarrow> bool" where
  "upload_config_ok c \<longleftrightarrow>
     5242880 \<le> unat (initial_part_size c) \<and> unat (initial_part_size c) \<le> 5368709120"

interpretation parts: part_schedule upload_config_ok "\<lambda>c k. unat (PartSize c k)"
  by unfold_locales
     (auto simp: upload_config_ok_def PartSize_def SizingPartSize_nat part_size_nat_bounds)

lemma Create_upload_config_ok:
  "block_size_ok b \<Longrightarrow> Create b m p = Inr c \<Longrightarrow> upload_config_ok c"
  using Create_Inr [of b m p c] by (simp add: upload_config_ok_def Let_def)

definition buffer_bytes :: "BufferedPart option \<Rightarrow> string" where
  "buffer_bytes b = (case b of None \<Rightarrow> [] | Some x \<Rightarrow> buffer_data x)"

definition part_bytes :: "PreparedPart list \<Rightarrow> string" where
  "part_bytes parts = concat (map part_data parts)"

text \<open>A buffer never exceeds its capacity, which is the size of a part.\<close>

definition buffer_ok :: "BufferedPart option \<Rightarrow> bool" where
  "buffer_ok b \<longleftrightarrow>
     (case b of None \<Rightarrow> True
      | Some x \<Rightarrow> length (buffer_data x) \<le> buffer_capacity x \<and>
          5242880 \<le> buffer_capacity x \<and> buffer_capacity x \<le> 5368709120)"

text \<open>The parts continue the numbering at \<open>n\<close> and have the size S3 asks of a part.\<close>

definition parts_ok :: "nat \<Rightarrow> PreparedPart list \<Rightarrow> bool" where
  "parts_ok n parts \<longleftrightarrow>
     map part_number parts = map Suc [n..<n + length parts] \<and>
     list_all (\<lambda>p. 5242880 \<le> length (part_data p) \<and> length (part_data p) \<le> 5368709120) parts"

definition prepared_ok :: "string list \<Rightarrow> string \<Rightarrow> string list \<Rightarrow> PreparedPart list \<Rightarrow> BufferedPart option \<Rightarrow> bool" where
  "prepared_ok etags data etags' parts buf \<longleftrightarrow>
     etags' = etags @ replicate (length parts) [] \<and> parts_ok (length etags) parts \<and>
     part_bytes parts @ buffer_bytes buf = data \<and> buffer_ok buf"

lemma ReservePart_Inr:
  "ReservePart c etags data = Inr (etags', part) \<longleftrightarrow>
     HasPartCapacity c (of_nat (length etags)) \<and> etags' = etags @ [[]] \<and>
     part = \<lparr>part_number = length etags + 1, part_data = data\<rparr>"
  by (auto simp: ReservePart_def)

lemma parts_ok_snoc:
  assumes "parts_ok n parts" "part_number p = n + length parts + 1"
    and "5242880 \<le> length (part_data p)" "length (part_data p) \<le> 5368709120"
  shows "parts_ok n (parts @ [p])"
  using assms by (simp add: parts_ok_def)

lemma part_bytes_snoc [simp]: "part_bytes (ps @ [p]) = part_bytes ps @ part_data p"
  by (simp add: part_bytes_def)

lemma part_bytes_Nil [simp]: "part_bytes [] = []"
  by (simp add: part_bytes_def)

lemma buffer_bytes_simps [simp]: "buffer_bytes None = []" "buffer_bytes (Some b) = buffer_data b"
  by (simp_all add: buffer_bytes_def)

lemma replicate_snoc: "replicate n x @ [x] = replicate (Suc n) x"
  by (simp add: replicate_append_same)

lemma prepared_ok_snoc:
  assumes "prepared_ok etags old etags' parts None"
    and "5242880 \<le> length data" "length data \<le> 5368709120"
  shows "prepared_ok etags (old @ data) (etags' @ [[]])
    (parts @ [\<lparr>part_number = length etags' + 1, part_data = data\<rparr>]) None"
  using assms
  by (auto simp: prepared_ok_def replicate_append_same intro!: parts_ok_snoc)

lemma PrepareLoop_ok:
  "PrepareLoop c alloc data etags' parts buf = Inr (etags'', w) \<Longrightarrow> upload_config_ok c \<Longrightarrow>
    prepared_ok etags old etags' parts buf \<Longrightarrow> data \<noteq> [] \<longrightarrow> buf = None \<Longrightarrow>
    prepared_ok etags (old @ data) etags'' (prepared_parts w) (prepared_buffer w)"
proof (induction c alloc data etags' parts buf arbitrary: old rule: PrepareLoop.induct)
  case (1 c alloc data etags' parts buf)
  let ?size = "unat (PartSize c (of_nat (length etags')))"
  let ?direct = "min (length data) (unat MAX_MULTIPART_PART_SIZE)"
  let ?buffered = "if etags' = [] then length data \<le> ?size else length data < ?size"
  note run = "1.prems"(1)
  show ?case
  proof (cases "data = []")
    case True
    then show ?thesis using run "1.prems"(3) by (auto simp: PrepareLoop.simps)
  next
    case nonempty: False
    with "1.prems"(3,4) have ok: "prepared_ok etags old etags' parts None" by simp
    show ?thesis
    proof (cases ?buffered)
      case True
      have le: "length data \<le> ?size" using True by (auto split: if_splits)
      have "etags'' = etags' \<and> w = \<lparr>prepared_parts = parts,
          prepared_buffer = Some \<lparr>buffer_data = data, buffer_capacity = ?size\<rparr>\<rparr>"
        using run nonempty True le
        by (subst (asm) PrepareLoop.simps)
           (auto simp: Let_def AppendToBufferedPart_def min_absorb1 split: if_splits)
      with ok le parts.lower [OF "1.prems"(2)] parts.upper [OF "1.prems"(2)] show ?thesis
        by (simp add: prepared_ok_def buffer_ok_def)
    next
      case False
      then have size: "?size \<le> length data" by (auto split: if_splits)
      from run nonempty False obtain part where
          part: "ReservePart c etags' (take ?direct data) = Inr (etags' @ [[]], part)"
        and rest: "PrepareLoop c alloc (drop ?direct data) (etags' @ [[]]) (parts @ [part]) buf = Inr (etags'', w)"
        by (subst (asm) PrepareLoop.simps)
           (auto simp: Let_def ReservePart_Inr split: sum.splits if_splits)
      have len: "5242880 \<le> length (take ?direct data)" "length (take ?direct data) \<le> 5368709120"
        using parts.direct_part [OF "1.prems"(2) size] by (simp_all add: max_part_nat)
      have "part = \<lparr>part_number = length etags' + 1, part_data = take ?direct data\<rparr>"
        using part by (simp add: ReservePart_Inr)
      then have "prepared_ok etags (old @ take ?direct data) (etags' @ [[]]) (parts @ [part]) None"
        using prepared_ok_snoc [OF ok len] by simp
      then have "prepared_ok etags ((old @ take ?direct data) @ drop ?direct data) etags''
          (prepared_parts w) (prepared_buffer w)"
        using nonempty "1.prems"(2,4) rest
        by (intro "1.IH" [OF nonempty refl refl refl False refl part refl]) auto
      then show ?thesis by (simp add: append_assoc)
    qed
  qed
qed

lemma PrepareBuffered_ok:
  assumes "PrepareBuffered c data etags buf = Inr (rest, etags', parts, buf')" "buffer_ok buf"
  shows "\<exists>taken. data = taken @ rest \<and>
    prepared_ok etags (buffer_bytes buf @ taken) etags' parts buf' \<and> (rest \<noteq> [] \<longrightarrow> buf' = None)"
proof (cases buf)
  case None
  with assms show ?thesis
    by (auto simp: PrepareBuffered_def prepared_ok_def parts_ok_def buffer_ok_def)
next
  case (Some b)
  let ?b' = "snd (AppendToBufferedPart b data)" and ?n = "fst (AppendToBufferedPart b data)"
  have empty: "prepared_ok etags [] etags [] None"
    by (simp add: prepared_ok_def parts_ok_def buffer_ok_def)
  from assms(2) Some have b: "length (buffer_data b) \<le> buffer_capacity b"
    "5242880 \<le> buffer_capacity b" "buffer_capacity b \<le> 5368709120"
    by (simp_all add: buffer_ok_def)
  consider (nothing) "data = []" | (full) "data \<noteq> []" "length (buffer_data b) = buffer_capacity b"
    | (room) "data \<noteq> []" "length (buffer_data b) \<noteq> buffer_capacity b" by blast
  then show ?thesis
  proof cases
    case nothing
    with assms Some show ?thesis
      by (auto simp: PrepareBuffered_def prepared_ok_def parts_ok_def)
  next
    case full
    with assms(1) Some have r: "rest = data" "etags' = etags @ [[]]" "buf' = None"
      "parts = [] @ [\<lparr>part_number = length etags + 1, part_data = buffer_data b\<rparr>]"
      by (auto simp: PrepareBuffered_def ReservePart_Inr split: sum.splits)
    have "prepared_ok etags ([] @ buffer_data b) (etags @ [[]])
        ([] @ [\<lparr>part_number = length etags + 1, part_data = buffer_data b\<rparr>]) None"
      using full b by (intro prepared_ok_snoc [OF empty]) simp_all
    with r Some show ?thesis by simp
  next
    case room
    have app: "buffer_data ?b' = buffer_data b @ take ?n data" "buffer_capacity ?b' = buffer_capacity b"
      "length (buffer_data ?b') \<le> buffer_capacity b" "?n \<le> length data"
      "length (buffer_data ?b') \<noteq> buffer_capacity ?b' \<Longrightarrow> ?n = length data"
      using b by (auto simp: AppendToBufferedPart_def Let_def)
    show ?thesis
    proof (cases "length (buffer_data ?b') = buffer_capacity ?b' \<and> ?n < length data")
      case True
      with assms(1) Some room have r: "rest = drop ?n data" "etags' = etags @ [[]]" "buf' = None"
        "parts = [] @ [\<lparr>part_number = length etags + 1, part_data = buffer_data ?b'\<rparr>]"
        by (auto simp: PrepareBuffered_def ReservePart_Inr split: sum.splits prod.splits)
      have "prepared_ok etags ([] @ buffer_data ?b') (etags @ [[]])
          ([] @ [\<lparr>part_number = length etags + 1, part_data = buffer_data ?b'\<rparr>]) None"
        using True b app(2) by (intro prepared_ok_snoc [OF empty]) simp_all
      with r Some app(1) show ?thesis
        by (intro exI [of _ "take ?n data"]) simp
    next
      case False
      then have all: "?n = length data" using app(4,5) by auto
      from False assms(1) Some room have r: "rest = drop ?n data" "etags' = etags" "buf' = Some ?b'" "parts = []"
        by (auto simp: PrepareBuffered_def split: sum.splits prod.splits if_splits)
      with Some app b all show ?thesis
        by (auto simp: prepared_ok_def parts_ok_def buffer_ok_def)
    qed
  qed
qed

lemma PrepareParts_ok:
  assumes "PrepareParts c alloc data etags buf = Inr (etags', w)" "upload_config_ok c" "buffer_ok buf"
  shows "prepared_ok etags (buffer_bytes buf @ data) etags' (prepared_parts w) (prepared_buffer w)"
proof -
  from assms(1) obtain rest etags1 parts buf1 where
      first: "PrepareBuffered c data etags buf = Inr (rest, etags1, parts, buf1)"
    and loop: "PrepareLoop c alloc rest etags1 parts buf1 = Inr (etags', w)"
    by (auto simp: PrepareParts_def split: sum.splits)
  from PrepareBuffered_ok [OF first assms(3)] obtain taken where
    "data = taken @ rest" "prepared_ok etags (buffer_bytes buf @ taken) etags1 parts buf1"
    "rest \<noteq> [] \<longrightarrow> buf1 = None" by blast
  with PrepareLoop_ok [OF loop assms(2)] show ?thesis by (metis append_assoc)
qed

end
