(* ===== verification/S3_Upload_Session.thy ===== *)
theory S3_Upload_Session
  imports S3_Upload_State
begin

text \<open>
  The operations \<open>Write\<close>, \<open>Finalize\<close> and \<open>Abort\<close> of an upload session as threads that interleave
  at the boundaries of the critical sections (src/src/s3/s3_upload_session.cpp). A thread is the
  point of the code at which it stands with the values it has at hand; what the environment
  contributes to a step (a new call, the answer to a request, the buffer manager) is an input.
  The system records besides what was written, what was reserved, and what the server accepted.
\<close>

section \<open>Threads\<close>

text \<open>What follows the upload of a part: the other parts of the write, or the completion.\<close>

datatype part_owner = WRITING "PreparedPart list" | FINISHING

datatype thread =
    Idle
  | Prepare string nat
  | Parts "PreparedPart list"
  | Ensure PreparedPart part_owner
  | Initializing PreparedPart part_owner
  | CheckUpload PreparedPart part_owner "string option"
  | Putting PreparedPart part_owner "string option"
  | Storing PreparedPart part_owner string
  | Claimed
  | Decide "BufferedPart option"
  | Single "BufferedPart option"
  | ReserveFinal BufferedPart
  | CheckFinal
  | Snapshot
  | Completing MultipartSnapshot
  | Finishing
  | Failing FailureDisposition exn
  | Releasing
  | Cleaning string
  | Awaiting
  | Draining
  | AbortAwaiting
  | AbortCleaning string

datatype input =
    StartWrite string nat
  | StartFinalize
  | StartAbort
  | Continue
  | Memory "nat \<Rightarrow> bool"
  | Reply reply

text \<open>What a step contributes to the record of the system.\<close>

datatype event =
    Silent
  | Written string "PreparedPart list"
  | Reserved string
  | Stored nat string
  | StoredObject string
  | Completed "string list"
  | AbortSent

record upload_env =
  env_config :: S3UploadConfig
  env_utf8 :: utf8proc
  env_status_text :: "int \<Rightarrow> string list"
  env_display_path :: string

type_synonym thread_result = "(thread \<times> S3UploadSession \<times> event) option"

section \<open>Steps of Write\<close>

definition StartWriteStep :: "string \<Rightarrow> nat \<Rightarrow> S3UploadSession \<Rightarrow> thread_result" where
  [session_defs]: "StartWriteStep data location s =
     (case BeginWriteOperation s of
        (Blocked, s') \<Rightarrow> None
      | (Raised e, s') \<Rightarrow> Some (Idle, s', Silent)
      | (Done _, s') \<Rightarrow> Some (Prepare data location, s', Silent))"

definition PrepareStep ::
  "S3UploadConfig \<Rightarrow> (nat \<Rightarrow> bool) \<Rightarrow> string \<Rightarrow> nat \<Rightarrow> S3UploadSession \<Rightarrow> thread_result" where
  "PrepareStep config alloc data location s =
     (case PrepareWrite config alloc data location s of
        (Blocked, s') \<Rightarrow> None
      | (Raised e, s') \<Rightarrow> Some (Failing DEFINITIVE e, s', Silent)
      | (Done ps, s') \<Rightarrow> Some (Parts ps, s', Written data ps))"

definition CheckedStep :: "thread \<Rightarrow> S3UploadSession \<Rightarrow> thread_result" where
  [session_defs]: "CheckedStep next_thread s =
     (case ThrowIfFailed s of
        Blocked \<Rightarrow> None
      | Raised e \<Rightarrow> Some (Failing DEFINITIVE e, s, Silent)
      | Done _ \<Rightarrow> Some (next_thread, s, Silent))"

definition PartsStep :: "PreparedPart list \<Rightarrow> S3UploadSession \<Rightarrow> thread_result" where
  [session_defs]: "PartsStep ps s =
     (case ps of
        [] \<Rightarrow> Some (Claimed, s, Silent)
      | p # rest \<Rightarrow> CheckedStep (Ensure p (WRITING rest)) s)"

definition after_part :: "part_owner \<Rightarrow> thread" where
  "after_part owner = (case owner of WRITING rest \<Rightarrow> Parts rest | FINISHING \<Rightarrow> CheckFinal)"

definition EnsureStep :: "PreparedPart \<Rightarrow> part_owner \<Rightarrow> S3UploadSession \<Rightarrow> thread_result" where
  [session_defs]: "EnsureStep p owner s =
     (case EnsureMultipartUpload s of
        (Blocked, s') \<Rightarrow> None
      | (Raised e, s') \<Rightarrow> Some (Failing DEFINITIVE e, s', Silent)
      | (Done (HAVE_UPLOAD upload_id), s') \<Rightarrow> Some (CheckUpload p owner upload_id, s', Silent)
      | (Done INITIALIZE, s') \<Rightarrow> Some (Initializing p owner, s', Silent))"

definition InitializingStep ::
  "upload_env \<Rightarrow> reply \<Rightarrow> PreparedPart \<Rightarrow> part_owner \<Rightarrow> S3UploadSession \<Rightarrow> thread_result" where
  "InitializingStep env r p owner s =
     (case InitializeMultipartUpload (env_utf8 env) (env_status_text env) r of
        Inl (disposition, e) \<Rightarrow>
          Some (Failing disposition e, PublishInitializationFailure e disposition s, Silent)
      | Inr upload_id \<Rightarrow>
          (case PublishInitialization upload_id s of
             (Blocked, s') \<Rightarrow> None
           | (Raised e, s') \<Rightarrow> Some (Failing DEFINITIVE e, s', Silent)
           | (Done u, s') \<Rightarrow> Some (CheckUpload p owner (Some u), s', Silent)))"

definition PuttingStep ::
  "upload_env \<Rightarrow> reply \<Rightarrow> PreparedPart \<Rightarrow> part_owner \<Rightarrow> S3UploadSession \<Rightarrow> thread_result" where
  "PuttingStep env r p owner s =
     (case Upload (env_utf8 env) (env_status_text env) r of
        Inl (disposition, e) \<Rightarrow> Some (Failing disposition e, s, Silent)
      | Inr etag \<Rightarrow> Some (Storing p owner etag, s, Stored (part_number p) (part_data p)))"

definition StoringStep :: "PreparedPart \<Rightarrow> part_owner \<Rightarrow> string \<Rightarrow> S3UploadSession \<Rightarrow> thread_result" where
  [session_defs]: "StoringStep p owner etag s =
     (case StorePartETag (part_number p) etag s of
        (Blocked, s') \<Rightarrow> None
      | (Raised e, s') \<Rightarrow> Some (Failing DEFINITIVE e, s', Silent)
      | (Done _, s') \<Rightarrow> Some (after_part owner, s', Silent))"

definition ReleaseStep :: "S3UploadSession \<Rightarrow> thread_result" where
  [session_defs]: "ReleaseStep s =
     (case ReleaseOperation s of
        (RELEASED, s') \<Rightarrow> Some (Idle, s', Silent)
      | (OWN_CLEANUP upload_id, s') \<Rightarrow> Some (Cleaning upload_id, s', AbortSent)
      | (AWAIT_CLEANUP, s') \<Rightarrow> Some (Awaiting, s', Silent))"

definition AwaitStep :: "S3UploadSession \<Rightarrow> thread_result" where
  [session_defs]: "AwaitStep s =
     (case AwaitCleanup s of Blocked \<Rightarrow> None | _ \<Rightarrow> Some (Idle, s, Silent))"

section \<open>Steps of Finalize\<close>

definition StartFinalizeStep :: "S3UploadSession \<Rightarrow> thread_result" where
  [session_defs]: "StartFinalizeStep s =
     (case BeginFinalize s of
        (Blocked, s') \<Rightarrow> None
      | (Raised e, s') \<Rightarrow> Some (Idle, s', Silent)
      | (Done ALREADY_FINALIZED, s') \<Rightarrow> Some (Idle, s', Silent)
      | (Done (FINALIZE_BEGUN b), s') \<Rightarrow> Some (Decide b, s', Silent))"

definition DecideStep :: "BufferedPart option \<Rightarrow> S3UploadSession \<Rightarrow> thread_result" where
  [session_defs]: "DecideStep b s =
     Some (if part_etags s = [] then Single b
           else case b of Some x \<Rightarrow> ReserveFinal x | None \<Rightarrow> CheckFinal, s, Silent)"

definition SingleStep ::
  "upload_env \<Rightarrow> reply \<Rightarrow> BufferedPart option \<Rightarrow> S3UploadSession \<Rightarrow> thread_result" where
  "SingleStep env r b s =
     (case Upload (env_utf8 env) (env_status_text env) r of
        Inl (disposition, e) \<Rightarrow> Some (Failing disposition e, s, Silent)
      | Inr etag \<Rightarrow> Some (Finishing, s, StoredObject (buffer_bytes b)))"

definition ReserveFinalStep :: "S3UploadConfig \<Rightarrow> BufferedPart \<Rightarrow> S3UploadSession \<Rightarrow> thread_result" where
  "ReserveFinalStep config b s =
     (case ReserveFinalPart config b s of
        (Blocked, s') \<Rightarrow> None
      | (Raised e, s') \<Rightarrow> Some (Failing DEFINITIVE e, s', Silent)
      | (Done p, s') \<Rightarrow> Some (Ensure p FINISHING, s', Reserved (buffer_data b)))"

definition SnapshotStep :: "S3UploadSession \<Rightarrow> thread_result" where
  [session_defs]: "SnapshotStep s =
     (case GetMultipartSnapshot s of
        Blocked \<Rightarrow> None
      | Raised e \<Rightarrow> Some (Failing DEFINITIVE e, s, Silent)
      | Done snapshot \<Rightarrow> Some (Completing snapshot, s, Silent))"

definition CompletingStep ::
  "upload_env \<Rightarrow> reply \<Rightarrow> MultipartSnapshot \<Rightarrow> S3UploadSession \<Rightarrow> thread_result" where
  "CompletingStep env r snapshot s =
     (case CompleteMultipartUpload (env_utf8 env) (env_status_text env) r of
        Inl (disposition, e) \<Rightarrow> Some (Failing disposition e, s, Silent)
      | Inr _ \<Rightarrow> Some (Finishing, s, Completed (snapshot_etags snapshot)))"

section \<open>Steps of Abort\<close>

definition StartAbortStep :: "S3UploadSession \<Rightarrow> thread_result" where
  [session_defs]: "StartAbortStep s =
     (case AbortBegin s of
        (Blocked, s') \<Rightarrow> None
      | (Done DRAIN, s') \<Rightarrow> Some (Draining, s', Silent)
      | (_, s') \<Rightarrow> Some (Idle, s', Silent))"

definition DrainStep :: "S3UploadSession \<Rightarrow> thread_result" where
  [session_defs]: "DrainStep s =
     (case AbortDrain s of
        (Done ABORT_AWAIT, s') \<Rightarrow> Some (AbortAwaiting, s', Silent)
      | (Done (ABORT_CLEANUP upload_id), s') \<Rightarrow> Some (AbortCleaning upload_id, s', AbortSent)
      | (Done ABORT_DONE, s') \<Rightarrow> Some (Idle, s', Silent)
      | _ \<Rightarrow> None)"

definition AbortAwaitStep :: "S3UploadSession \<Rightarrow> thread_result" where
  [session_defs]: "AbortAwaitStep s =
     (case AbortAwait s of (Blocked, s') \<Rightarrow> None | (_, s') \<Rightarrow> Some (Idle, s', Silent))"

section \<open>One step of a thread\<close>

text \<open>A step of the code itself, an answer to a request, and the buffer manager.\<close>

definition on_continue :: "input \<Rightarrow> thread_result \<Rightarrow> thread_result" where
  "on_continue i r = (case i of Continue \<Rightarrow> r | _ \<Rightarrow> None)"

definition on_reply :: "input \<Rightarrow> (reply \<Rightarrow> thread_result) \<Rightarrow> thread_result" where
  "on_reply i f = (case i of Reply r \<Rightarrow> f r | _ \<Rightarrow> None)"

definition IdleStep :: "input \<Rightarrow> S3UploadSession \<Rightarrow> thread_result" where
  "IdleStep i s =
     (case i of
        StartWrite data location \<Rightarrow> StartWriteStep data location s
      | StartFinalize \<Rightarrow> StartFinalizeStep s
      | StartAbort \<Rightarrow> StartAbortStep s
      | _ \<Rightarrow> None)"

definition thread_step :: "upload_env \<Rightarrow> input \<Rightarrow> thread \<Rightarrow> S3UploadSession \<Rightarrow> thread_result" where
  "thread_step env i th s =
     (case th of
        Idle \<Rightarrow> IdleStep i s
      | Prepare data location \<Rightarrow>
          (case i of Memory alloc \<Rightarrow> PrepareStep (env_config env) alloc data location s | _ \<Rightarrow> None)
      | Parts ps \<Rightarrow> on_continue i (PartsStep ps s)
      | Ensure p owner \<Rightarrow> on_continue i (EnsureStep p owner s)
      | Initializing p owner \<Rightarrow> on_reply i (\<lambda>r. InitializingStep env r p owner s)
      | CheckUpload p owner u \<Rightarrow> on_continue i (CheckedStep (Putting p owner u) s)
      | Putting p owner u \<Rightarrow> on_reply i (\<lambda>r. PuttingStep env r p owner s)
      | Storing p owner etag \<Rightarrow> on_continue i (StoringStep p owner etag s)
      | Claimed \<Rightarrow> on_continue i (ReleaseStep s)
      | Decide b \<Rightarrow> on_continue i (DecideStep b s)
      | Single b \<Rightarrow> on_reply i (\<lambda>r. SingleStep env r b s)
      | ReserveFinal b \<Rightarrow> on_continue i (ReserveFinalStep (env_config env) b s)
      | CheckFinal \<Rightarrow> on_continue i (CheckedStep Snapshot s)
      | Snapshot \<Rightarrow> on_continue i (SnapshotStep s)
      | Completing snapshot \<Rightarrow> on_reply i (\<lambda>r. CompletingStep env r snapshot s)
      | Finishing \<Rightarrow> on_continue i (Some (Idle, FinishFinalize s, Silent))
      | Failing disposition e \<Rightarrow>
          on_continue i (Some (Releasing, LatchFailureLocked e disposition s, Silent))
      | Releasing \<Rightarrow> on_continue i (ReleaseStep s)
      | Cleaning upload_id \<Rightarrow>
          on_reply i (\<lambda>r. Some (Idle, FinishCleanup (AbortMultipartUpload (env_utf8 env)
            (env_status_text env) (env_display_path env) r) s, Silent))
      | Awaiting \<Rightarrow> on_continue i (AwaitStep s)
      | Draining \<Rightarrow> on_continue i (DrainStep s)
      | AbortAwaiting \<Rightarrow> on_continue i (AbortAwaitStep s)
      | AbortCleaning upload_id \<Rightarrow> on_reply i (\<lambda>r. Some (Idle, AbortFinish s, Silent)))"

section \<open>The system\<close>

record system =
  session :: S3UploadSession
  threads :: "nat \<Rightarrow> thread"
  written :: string
  reserved :: "string list"
  stored :: "nat \<Rightarrow> string option"
  stored_object :: "string option"
  aborts_sent :: nat

definition init_system :: system where
  "init_system =
     \<lparr>session = init_session, threads = (\<lambda>t. Idle), written = [], reserved = [],
      stored = (\<lambda>n. None), stored_object = None, aborts_sent = 0\<rparr>"

fun observe :: "event \<Rightarrow> system \<Rightarrow> system" where
  "observe Silent \<sigma> = \<sigma>"
| "observe (Written data ps) \<sigma> =
     \<sigma>\<lparr>written := written \<sigma> @ data, reserved := reserved \<sigma> @ map part_data ps\<rparr>"
| "observe (Reserved data) \<sigma> = \<sigma>\<lparr>reserved := reserved \<sigma> @ [data]\<rparr>"
| "observe (Stored n data) \<sigma> = \<sigma>\<lparr>stored := (stored \<sigma>)(n := Some data)\<rparr>"
| "observe (StoredObject data) \<sigma> = \<sigma>\<lparr>stored_object := Some data\<rparr>"
| "observe (Completed etags) \<sigma> =
     \<sigma>\<lparr>stored_object := Some (concat (map (\<lambda>n. the (stored \<sigma> (Suc n))) [0..<length etags]))\<rparr>"
| "observe AbortSent \<sigma> = \<sigma>\<lparr>aborts_sent := aborts_sent \<sigma> + 1\<rparr>"

definition system_step :: "upload_env \<Rightarrow> nat \<Rightarrow> input \<Rightarrow> system \<Rightarrow> system option" where
  "system_step env t i \<sigma> =
     map_option (\<lambda>(th, s, ev). (observe ev \<sigma>)\<lparr>session := s, threads := (threads \<sigma>)(t := th)\<rparr>)
       (thread_step env i (threads \<sigma> t) (session \<sigma>))"

inductive step :: "upload_env \<Rightarrow> system \<Rightarrow> system \<Rightarrow> bool" for env where
  "system_step env t i \<sigma> = Some \<sigma>' \<Longrightarrow> step env \<sigma> \<sigma>'"

inductive_cases stepE: "step env \<sigma> \<sigma>'"

inductive reachable :: "upload_env \<Rightarrow> system \<Rightarrow> bool" for env where
  initial: "reachable env init_system"
| further: "reachable env \<sigma> \<Longrightarrow> step env \<sigma> \<sigma>' \<Longrightarrow> reachable env \<sigma>'"

text \<open>A run that is given by the threads that move and their inputs.\<close>

fun run_steps :: "upload_env \<Rightarrow> (nat \<times> input) list \<Rightarrow> system \<Rightarrow> system option" where
  "run_steps env [] \<sigma> = Some \<sigma>"
| "run_steps env ((t, i) # rest) \<sigma> =
     (case system_step env t i \<sigma> of None \<Rightarrow> None | Some \<sigma>' \<Rightarrow> run_steps env rest \<sigma>')"

lemma run_steps_reachable:
  "run_steps env steps \<sigma> = Some \<sigma>' \<Longrightarrow> reachable env \<sigma> \<Longrightarrow> reachable env \<sigma>'"
  by (induction env steps \<sigma> rule: run_steps.induct)
     (auto split: option.splits intro: reachable.further step.intros)

end
