(* ===== verification/S3_Upload_Invariants.thy ===== *)
theory S3_Upload_Invariants
  imports S3_Upload_Session
begin

text \<open>
  The invariants of an upload session under every interleaving. The control invariant relates
  the state behind the lock to the number of threads in each role.
\<close>

section \<open>Roles\<close>

text \<open>
  A holder is a thread counted in \<open>active_operations\<close>: a write, the finalizer, or a thread whose
  failure is not latched yet. The others have left the session or take part in its end.
\<close>

datatype role = R_NONE | R_HOLD | R_WINIT | R_FIN | R_FINIT | R_FAIL | R_CLEAN | R_DRAIN | R_WAIT | R_ABORT

fun owner_role :: "role \<Rightarrow> role \<Rightarrow> part_owner \<Rightarrow> role" where
  "owner_role w f (WRITING ps) = w"
| "owner_role w f FINISHING = f"

fun thread_role :: "thread \<Rightarrow> role" where
  "thread_role Idle = R_NONE"
| "thread_role (Prepare d l) = R_HOLD"
| "thread_role (Parts ps) = R_HOLD"
| "thread_role (Ensure p ow) = owner_role R_HOLD R_FIN ow"
| "thread_role (Initializing p ow) = owner_role R_WINIT R_FINIT ow"
| "thread_role (CheckUpload p ow u) = owner_role R_HOLD R_FIN ow"
| "thread_role (Putting p ow u) = owner_role R_HOLD R_FIN ow"
| "thread_role (Storing p ow e) = owner_role R_HOLD R_FIN ow"
| "thread_role Claimed = R_HOLD"
| "thread_role (Decide b) = R_FIN"
| "thread_role (Single b) = R_FIN"
| "thread_role (ReserveFinal b) = R_FIN"
| "thread_role CheckFinal = R_FIN"
| "thread_role Snapshot = R_FIN"
| "thread_role (Completing sn) = R_FIN"
| "thread_role Finishing = R_FIN"
| "thread_role (Failing d e) = R_FAIL"
| "thread_role Releasing = R_HOLD"
| "thread_role (Cleaning u) = R_CLEAN"
| "thread_role Awaiting = R_NONE"
| "thread_role Draining = R_DRAIN"
| "thread_role AbortAwaiting = R_WAIT"
| "thread_role (AbortCleaning u) = R_ABORT"

definition holders :: "(role \<Rightarrow> nat) \<Rightarrow> nat" where
  "holders c = c R_HOLD + c R_WINIT + c R_FIN + c R_FINIT + c R_FAIL"

definition control_inv :: "S3UploadSession \<Rightarrow> (role \<Rightarrow> nat) \<Rightarrow> bool" where
  "control_inv s c \<longleftrightarrow>
     active_operations s = holders c \<and>
     c R_WINIT + c R_FINIT = (if initialization_state s = INIT_IN_PROGRESS then 1 else 0) \<and>
     c R_CLEAN + c R_ABORT = (if cleanup_state s = CLEANUP_IN_PROGRESS then 1 else 0) \<and>
     c R_DRAIN + c R_WAIT + c R_ABORT = (if lifecycle_state s = ABORTING then 1 else 0) \<and>
     (initialization_state s = SUCCEEDED \<longleftrightarrow> multipart_upload_id s \<noteq> None) \<and>
     (initialization_state s \<noteq> FAILED \<or> primary_error s \<noteq> None) \<and>
     (cleanup_state s = NONE \<or> holders c = 0 \<and>
        (primary_error s \<noteq> None \<or> lifecycle_state s = ABORTING \<or> lifecycle_state s = ABORTED)) \<and>
     (primary_error s = None \<or> holders c \<noteq> 0 \<or> cleanup_state s \<noteq> NONE) \<and>
     (lifecycle_state s \<noteq> ABORTING \<or> primary_error s \<noteq> None \<or> cleanup_state s = NONE \<or> c R_ABORT = 1) \<and>
     (c R_ABORT = 0 \<or> primary_error s = None) \<and>
     (c R_CLEAN = 0 \<or> primary_error s \<noteq> None) \<and>
     (c R_WAIT = 0 \<or> primary_error s \<noteq> None \<and> holders c = 0) \<and>
     (lifecycle_state s \<noteq> FINALIZING \<or>
        holders c = 1 \<and> c R_HOLD = 0 \<and> c R_WINIT = 0 \<and> primary_error s = None) \<and>
     (c R_FIN + c R_FINIT = 0 \<or> lifecycle_state s = FINALIZING) \<and>
     (lifecycle_state s \<noteq> FINALIZED \<or>
        holders c = 0 \<and> primary_error s = None \<and> cleanup_state s = NONE) \<and>
     (lifecycle_state s \<noteq> ABORTED \<or> holders c = 0 \<and> cleanup_state s = COMPLETE) \<and>
     (\<not> abort_suppressed s \<or> primary_error s \<noteq> None \<and> cleanup_state s \<noteq> CLEANUP_IN_PROGRESS)"

text \<open>One thread more in role \<open>r\<close>.\<close>

definition plus_one :: "role \<Rightarrow> (role \<Rightarrow> nat) \<Rightarrow> role \<Rightarrow> nat" where
  "plus_one r c = c(r := Suc (c r))"

lemmas thread_step_defs = thread_step_def on_continue_def on_reply_def IdleStep_def

definition same_control :: "S3UploadSession \<Rightarrow> S3UploadSession \<Rightarrow> bool" where
  "same_control s s' \<longleftrightarrow>
     lifecycle_state s' = lifecycle_state s \<and> active_operations s' = active_operations s \<and>
     initialization_state s' = initialization_state s \<and> multipart_upload_id s' = multipart_upload_id s \<and>
     primary_error s' = primary_error s \<and> abort_suppressed s' = abort_suppressed s \<and>
     cleanup_state s' = cleanup_state s"

lemma PrepareWrite_frame:
  "PrepareWrite config alloc data location s = (out, s') \<Longrightarrow> same_control s s'"
  by (auto simp: PrepareWrite_def same_control_def split: if_splits sum.splits prod.splits)

lemma ReserveFinalPart_frame:
  "ReserveFinalPart config b s = (out, s') \<Longrightarrow> same_control s s'"
  by (auto simp: ReserveFinalPart_def same_control_def split: sum.splits)

lemmas control_defs = control_inv_def plus_one_def holders_def

lemma same_control_inv: "same_control s s' \<Longrightarrow> control_inv s' c = control_inv s c"
  by (simp add: same_control_def control_inv_def)

lemma control_fail:
  assumes "control_inv s (plus_one r c)" "r = R_HOLD \<or> r = R_FIN"
  shows "control_inv s (plus_one R_FAIL c)"
  using assms
  by (elim disjE conjE; hypsubst; cases "primary_error s"; cases "lifecycle_state s"; cases "cleanup_state s";
      simp add: control_defs)

lemma control_begin_write:
  assumes "control_inv s (plus_one R_NONE c)" "lifecycle_state s = ACTIVE" "primary_error s = None"
  shows "control_inv (s\<lparr>active_operations := active_operations s + 1\<rparr>) (plus_one R_HOLD c)"
  using assms by (simp add: control_defs) 

lemma control_begin_finalize:
  assumes "control_inv s (plus_one R_NONE c)" "lifecycle_state s = ACTIVE" "primary_error s = None"
    "active_operations s = 0"
  shows "control_inv (s\<lparr>lifecycle_state := FINALIZING, active_operations := active_operations s + 1,
      buffered_part := None\<rparr>) (plus_one R_FIN c)"
  using assms by (simp add: control_defs)

lemma control_init_start_write:
  assumes "control_inv s (plus_one R_HOLD c)" "primary_error s = None" "initialization_state s = NOT_STARTED"
  shows "control_inv (s\<lparr>initialization_state := INIT_IN_PROGRESS\<rparr>) (plus_one R_WINIT c)"
  using assms by (cases "lifecycle_state s"; cases "cleanup_state s"; simp add: control_defs)

lemma control_init_start_finish:
  assumes "control_inv s (plus_one R_FIN c)" "primary_error s = None" "initialization_state s = NOT_STARTED"
  shows "control_inv (s\<lparr>initialization_state := INIT_IN_PROGRESS\<rparr>) (plus_one R_FINIT c)"
  using assms by (cases "lifecycle_state s"; cases "cleanup_state s"; simp add: control_defs)

lemma control_init_done:
  assumes "control_inv s (plus_one r c)"
    and "r = R_WINIT \<and> r' = R_HOLD \<or> r = R_FINIT \<and> r' = R_FIN"
    and "s' = s\<lparr>multipart_upload_id := Some u, initialization_state := SUCCEEDED\<rparr>"
  shows "control_inv s' (plus_one r' c)"
  using assms
  by (elim disjE conjE; hypsubst; cases "primary_error s"; cases "lifecycle_state s"; cases "cleanup_state s";
      cases "initialization_state s";
      simp add: control_defs)

lemma LatchFailureLocked_fields [simp]:
  "lifecycle_state (LatchFailureLocked e d s) =
     (if lifecycle_state s = FINALIZING then ACTIVE else lifecycle_state s)"
  "primary_error (LatchFailureLocked e d s) = Some (case primary_error s of None \<Rightarrow> e | Some x \<Rightarrow> x)"
  "abort_suppressed (LatchFailureLocked e d s) = (abort_suppressed s \<or> d = AMBIGUOUS)"
  "active_operations (LatchFailureLocked e d s) = active_operations s"
  "initialization_state (LatchFailureLocked e d s) = initialization_state s"
  "multipart_upload_id (LatchFailureLocked e d s) = multipart_upload_id s"
  "cleanup_state (LatchFailureLocked e d s) = cleanup_state s"
  "part_etags (LatchFailureLocked e d s) = part_etags s"
  "next_offset (LatchFailureLocked e d s) = next_offset s"
  "buffered_part (LatchFailureLocked e d s) = buffered_part s"
  by (simp_all add: LatchFailureLocked_def Let_def split: option.splits)

lemma control_init_failed:
  assumes "control_inv s (plus_one r c)" "r = R_WINIT \<or> r = R_FINIT"
  shows "control_inv (PublishInitializationFailure e d s) (plus_one R_FAIL c)"
  using assms
  by (elim disjE conjE; hypsubst; cases "lifecycle_state s"; cases "cleanup_state s";
      cases "initialization_state s"; simp add: control_defs PublishInitializationFailure_def)

lemma control_latch:
  assumes "control_inv s (plus_one R_FAIL c)"
  shows "control_inv (LatchFailureLocked e d s) (plus_one R_HOLD c)"
  using assms
  by (cases "lifecycle_state s"; cases "cleanup_state s"; simp add: control_defs)

lemma control_finish:
  assumes "control_inv s (plus_one R_FIN c)"
  shows "control_inv (FinishFinalize s) (plus_one R_NONE c)"
  using assms
  by (cases "lifecycle_state s"; cases "initialization_state s"; cases "primary_error s";
      simp add: control_defs FinishFinalize_def)

lemma control_release_silent:
  assumes "control_inv s (plus_one R_HOLD c)"
    and "primary_error s = None \<or> active_operations s - 1 \<noteq> 0 \<or> cleanup_state s \<noteq> NONE"
    and "s' = s\<lparr>active_operations := active_operations s - 1\<rparr>"
  shows "control_inv s' (plus_one R_NONE c)"
  using assms
  by (cases "primary_error s"; cases "lifecycle_state s"; cases "cleanup_state s"; simp add: control_defs)

lemma control_release_last:
  assumes "control_inv s (plus_one R_HOLD c)" "primary_error s = Some e" "active_operations s - 1 = 0"
    and "s' = s\<lparr>active_operations := active_operations s - 1, cleanup_state := COMPLETE\<rparr>"
  shows "control_inv s' (plus_one R_NONE c)"
  using assms
  by (cases "lifecycle_state s"; cases "cleanup_state s"; simp add: control_defs)

lemma control_release_clean:
  assumes "control_inv s (plus_one R_HOLD c)" "primary_error s = Some e" "active_operations s - 1 = 0"
    and "\<not> abort_suppressed s" "cleanup_state s = NONE"
    and "s' = s\<lparr>active_operations := active_operations s - 1, cleanup_state := CLEANUP_IN_PROGRESS\<rparr>"
  shows "control_inv s' (plus_one R_CLEAN c)"
  using assms by (cases "lifecycle_state s"; simp add: control_defs)

lemma control_release:
  assumes "control_inv s (plus_one R_HOLD c)" "ReleaseOperation s = (n, s')"
  shows "control_inv s' (plus_one (case n of OWN_CLEANUP u \<Rightarrow> R_CLEAN | _ \<Rightarrow> R_NONE) c)"
  using assms(2) control_release_silent [OF assms(1)] control_release_last [OF assms(1)]
    control_release_clean [OF assms(1)]
  by (auto simp: ReleaseOperation_def Let_def split: if_splits option.splits)

lemma control_cleaned:
  assumes "control_inv s (plus_one R_CLEAN c)"
  shows "control_inv (FinishCleanup e s) (plus_one R_NONE c)"
  using assms
  by (cases "lifecycle_state s"; cases "cleanup_state s"; simp add: control_defs FinishCleanup_def)

lemma control_abort_begin:
  assumes "control_inv s (plus_one R_NONE c)" "lifecycle_state s = ACTIVE"
  shows "control_inv (s\<lparr>lifecycle_state := ABORTING\<rparr>) (plus_one R_DRAIN c)"
  using assms
  by (cases "primary_error s"; cases "cleanup_state s"; simp add: control_defs)

lemma control_drain_wait:
  assumes "control_inv s (plus_one R_DRAIN c)" "primary_error s = Some e" "active_operations s = 0"
  shows "control_inv (s\<lparr>buffered_part := None\<rparr>) (plus_one R_WAIT c)"
  using assms by (cases "lifecycle_state s"; cases "cleanup_state s"; simp add: control_defs)

lemma control_drain_clean:
  assumes "control_inv s (plus_one R_DRAIN c)" "primary_error s = None" "active_operations s = 0"
    and "\<not> abort_suppressed s"
  shows "control_inv (s\<lparr>buffered_part := None, cleanup_state := CLEANUP_IN_PROGRESS\<rparr>) (plus_one R_ABORT c)"
  using assms by (cases "lifecycle_state s"; cases "cleanup_state s"; simp add: control_defs)

lemma control_drain_done:
  assumes "control_inv s (plus_one R_DRAIN c)" "primary_error s = None" "active_operations s = 0"
  shows "control_inv (s\<lparr>buffered_part := None, cleanup_state := COMPLETE, lifecycle_state := ABORTED\<rparr>)
    (plus_one R_NONE c)"
  using assms by (cases "lifecycle_state s"; cases "cleanup_state s"; simp add: control_defs)

lemma control_drain:
  assumes "control_inv s (plus_one R_DRAIN c)" "AbortDrain s = (Done n, s')"
  shows "control_inv s' (plus_one
    (case n of ABORT_AWAIT \<Rightarrow> R_WAIT | ABORT_CLEANUP u \<Rightarrow> R_ABORT | ABORT_DONE \<Rightarrow> R_NONE) c)"
  using assms(2) control_drain_wait [OF assms(1)] control_drain_clean [OF assms(1)]
    control_drain_done [OF assms(1)]
  by (auto simp: AbortDrain_def Let_def split: if_splits option.splits)

lemma control_abort_await:
  assumes "control_inv s (plus_one R_WAIT c)" "cleanup_state s = COMPLETE"
  shows "control_inv (s\<lparr>lifecycle_state := ABORTED\<rparr>) (plus_one R_NONE c)"
  using assms by (cases "primary_error s"; cases "lifecycle_state s"; simp add: control_defs)

lemma control_abort_finish:
  assumes "control_inv s (plus_one R_ABORT c)"
  shows "control_inv (AbortFinish s) (plus_one R_NONE c)"
  using assms
  by (cases "lifecycle_state s"; cases "cleanup_state s"; simp add: control_defs AbortFinish_def)

section \<open>Every step preserves the control invariant\<close>

lemma control_stay:
  assumes "control_inv s (plus_one (thread_role th) c)" "same_control s s'"
    and "thread_role th' = thread_role th \<or>
      thread_role th' = R_FAIL \<and> (thread_role th = R_HOLD \<or> thread_role th = R_FIN)"
  shows "control_inv s' (plus_one (thread_role th') c)"
  using assms control_fail [OF assms(1)] by (auto simp: same_control_inv)

lemma same_control_refl [simp]: "same_control s s"
  by (simp add: same_control_def)

lemma owner_role_cases [elim]:
  obtains "owner_role w f ow = w" "\<And>w f. owner_role w f ow = w"
  | "owner_role w f ow = f" "\<And>w f. owner_role w f ow = f"
  by (cases ow) auto

lemma owner_role_fail:
  "owner_role R_HOLD R_FIN ow = R_HOLD \<or> owner_role R_HOLD R_FIN ow = R_FIN"
  by (cases ow) auto

lemma thread_role_after_part [simp]: "thread_role (after_part ow) = owner_role R_HOLD R_FIN ow"
  by (cases ow) (simp_all add: after_part_def)

lemma control_step_idle:
  assumes "IdleStep i s = Some (th', s', ev)" "control_inv s (plus_one R_NONE c)"
  shows "control_inv s' (plus_one (thread_role th') c)"
  using assms control_begin_write [OF assms(2)] control_begin_finalize [OF assms(2)]
    control_abort_begin [OF assms(2)]
  by (auto simp: IdleStep_def session_defs split: input.splits if_splits LifecycleState.splits)
     (metis LifecycleState.exhaust)+

lemma control_step_ensure:
  assumes "EnsureStep p ow s = Some (th', s', ev)"
    and "control_inv s (plus_one (owner_role R_HOLD R_FIN ow) c)"
  shows "control_inv s' (plus_one (thread_role th') c)"
proof (cases "primary_error s")
  case (Some e)
  with assms(1) have "th' = Failing DEFINITIVE (ThrowFailure s)" "s' = s"
    by (auto simp: EnsureStep_def EnsureMultipartUpload_def)
  with control_fail [OF assms(2) owner_role_fail] show ?thesis by simp
next
  case None
  note step = assms(1) [unfolded EnsureStep_def EnsureMultipartUpload_def]
  show ?thesis
  proof (cases "initialization_state s")
    case NOT_STARTED
    with None step have s': "th' = Initializing p ow"
        "s' = s\<lparr>initialization_state := INIT_IN_PROGRESS\<rparr>" by simp_all
    show ?thesis
    proof (cases ow)
      case (WRITING ps)
      with assms(2) control_init_start_write [OF _ None NOT_STARTED, of c] s' show ?thesis by simp
    next
      case FINISHING
      with assms(2) control_init_start_finish [OF _ None NOT_STARTED, of c] s' show ?thesis by simp
    qed
  next
    case SUCCEEDED
    with None step assms(2) show ?thesis by (cases ow) auto
  next
    case FAILED
    with None assms(2) show ?thesis by (simp add: control_inv_def)
  next
    case INIT_IN_PROGRESS
    with None step show ?thesis by simp
  qed
qed

lemma control_step_initializing:
  assumes "InitializingStep env r p ow s = Some (th', s', ev)"
    and "control_inv s (plus_one (owner_role R_WINIT R_FINIT ow) c)"
  shows "control_inv s' (plus_one (thread_role th') c)"
proof (cases "InitializeMultipartUpload (env_utf8 env) (env_status_text env) r")
  case (Inl x)
  obtain d e where "x = (d, e)" by fastforce
  with Inl assms(1) have "th' = Failing d e" "s' = PublishInitializationFailure e d s"
    by (auto simp: InitializingStep_def)
  moreover have "owner_role R_WINIT R_FINIT ow = R_WINIT \<or> owner_role R_WINIT R_FINIT ow = R_FINIT"
    by (cases ow) auto
  ultimately show ?thesis
    using control_init_failed [OF assms(2)] by simp
next
  case (Inr u)
  define s1 where "s1 = s\<lparr>multipart_upload_id := Some u, initialization_state := SUCCEEDED\<rparr>"
  have ok: "control_inv s1 (plus_one (owner_role R_HOLD R_FIN ow) c)"
    by (rule control_init_done [OF assms(2) _ s1_def]) (cases ow; simp)
  from Inr assms(1) have "s' = s1" "th' = CheckUpload p ow (Some u) \<or> (\<exists>e. th' = Failing DEFINITIVE e)"
    by (auto simp: InitializingStep_def PublishInitialization_def Let_def s1_def split: if_splits)
  with ok control_fail [OF ok owner_role_fail] show ?thesis by auto
qed

lemma control_step:
  assumes "thread_step env i th s = Some (th', s', ev)" "control_inv s (plus_one (thread_role th) c)"
  shows "control_inv s' (plus_one (thread_role th') c)"
proof (cases th)
  case Idle
  with assms control_step_idle show ?thesis by (simp add: thread_step_def)
next
  case (Prepare d l)
  with assms(1) obtain alloc out where "PrepareWrite (env_config env) alloc d l s = (out, s')"
      and "thread_role th' = R_HOLD \<or> thread_role th' = R_FAIL"
    by (auto simp: thread_step_defs PrepareStep_def split: input.splits outcome.splits prod.splits)
  with Prepare show ?thesis
    by (intro control_stay [OF assms(2)] PrepareWrite_frame) auto
next
  case (Parts ps)
  with assms(1) show ?thesis
    by (intro control_stay [OF assms(2)])
       (auto simp: thread_step_defs session_defs split: input.splits list.splits if_splits)
next
  case (Ensure p ow)
  with assms show ?thesis
    by (intro control_step_ensure) (auto simp: thread_step_defs split: input.splits)
next
  case (Initializing p ow)
  with assms show ?thesis
    by (auto simp: thread_step_defs split: input.splits intro: control_step_initializing)
next
  case (CheckUpload p ow u)
  with assms(1) owner_role_fail [of ow] show ?thesis
    by (intro control_stay [OF assms(2)])
       (auto simp: thread_step_defs session_defs split: input.splits if_splits)
next
  case (Putting p ow u)
  with assms(1) owner_role_fail [of ow] show ?thesis
    by (intro control_stay [OF assms(2)])
       (auto simp: thread_step_defs PuttingStep_def split: input.splits sum.splits)
next
  case (Storing p ow e)
  with assms(1) owner_role_fail [of ow] show ?thesis
    by (intro control_stay [OF assms(2)])
       (auto simp: thread_step_defs session_defs same_control_def split: input.splits if_splits)
next
  case Claimed
  with assms show ?thesis
    using control_release [of s c]
    by (force simp: thread_step_defs ReleaseStep_def split: input.splits release_next.splits prod.splits)
next
  case (Decide b)
  with assms(1) show ?thesis
    by (intro control_stay [OF assms(2)])
       (auto simp: thread_step_defs session_defs split: input.splits if_splits option.splits)
next
  case (Single b)
  with assms(1) show ?thesis
    by (intro control_stay [OF assms(2)])
       (auto simp: thread_step_defs SingleStep_def split: input.splits sum.splits)
next
  case (ReserveFinal b)
  with assms(1) obtain out where "ReserveFinalPart (env_config env) b s = (out, s')"
      and "thread_role th' = R_FIN \<or> thread_role th' = R_FAIL"
    by (auto simp: thread_step_defs ReserveFinalStep_def split: input.splits outcome.splits prod.splits)
  with ReserveFinal show ?thesis
    by (intro control_stay [OF assms(2)] ReserveFinalPart_frame) auto
next
  case CheckFinal
  with assms(1) show ?thesis
    by (intro control_stay [OF assms(2)])
       (auto simp: thread_step_defs session_defs split: input.splits if_splits)
next
  case Snapshot
  with assms(1) show ?thesis
    by (intro control_stay [OF assms(2)])
       (auto simp: thread_step_defs session_defs split: input.splits if_splits)
next
  case (Completing sn)
  with assms(1) show ?thesis
    by (intro control_stay [OF assms(2)])
       (auto simp: thread_step_defs CompletingStep_def split: input.splits sum.splits)
next
  case Finishing
  with assms control_finish [of s c] show ?thesis
    by (auto simp: thread_step_defs split: input.splits)
next
  case (Failing d e)
  with assms control_latch [of s c] show ?thesis
    by (auto simp: thread_step_defs split: input.splits)
next
  case Releasing
  with assms show ?thesis
    using control_release [of s c]
    by (force simp: thread_step_defs ReleaseStep_def split: input.splits release_next.splits prod.splits)
next
  case (Cleaning u)
  with assms control_cleaned [of s c] show ?thesis
    by (auto simp: thread_step_defs split: input.splits)
next
  case Awaiting
  with assms(1) show ?thesis
    by (intro control_stay [OF assms(2)])
       (auto simp: thread_step_defs session_defs split: input.splits if_splits)
next
  case Draining
  with assms show ?thesis
    using control_drain [of s c]
    by (force simp: thread_step_defs DrainStep_def
        split: input.splits outcome.splits abort_next.splits prod.splits)
next
  case AbortAwaiting
  with assms control_abort_await [of s c] show ?thesis
    by (auto simp: thread_step_defs session_defs split: input.splits if_splits)
next
  case (AbortCleaning u)
  with assms control_abort_finish [of s c] show ?thesis
    by (auto simp: thread_step_defs split: input.splits)
qed

end
