(* ===== verification/S3_Upload_Control.thy ===== *)
theory S3_Upload_Control
  imports S3_Upload_Invariants
begin

text \<open>
  The control invariant of the threads of one session, lifted to every reachable state of the
  system: who is counted in \<open>active_operations\<close>, who owns the cleanup, how many abort requests
  were sent, and why a waiting thread is never the last one that can move.
\<close>

section \<open>Counting threads by role\<close>

definition others :: "(nat \<Rightarrow> thread) \<Rightarrow> nat \<Rightarrow> role \<Rightarrow> nat" where
  "others T t r = card {u. u \<noteq> t \<and> thread_role (T u) = r}"

definition role_count :: "(nat \<Rightarrow> thread) \<Rightarrow> role \<Rightarrow> nat" where
  "role_count T r = card {u. thread_role (T u) = r}"

definition few_busy :: "(nat \<Rightarrow> thread) \<Rightarrow> bool" where
  "few_busy T \<longleftrightarrow> finite {u. thread_role (T u) \<noteq> R_NONE}"

lemma few_busy_update [simp]: "few_busy (T(t := th)) = few_busy T"
proof -
  have "{u. thread_role ((T(t := th)) u) \<noteq> R_NONE} \<subseteq> insert t {u. thread_role (T u) \<noteq> R_NONE}"
    and "{u. thread_role (T u) \<noteq> R_NONE} \<subseteq> insert t {u. thread_role ((T(t := th)) u) \<noteq> R_NONE}"
    by auto
  then show ?thesis unfolding few_busy_def by (meson finite_insert finite_subset)
qed

lemma few_busy_role: "few_busy T \<Longrightarrow> r \<noteq> R_NONE \<Longrightarrow> finite {u. thread_role (T u) = r}"
  unfolding few_busy_def by (rule finite_subset [of _ "{u. thread_role (T u) \<noteq> R_NONE}"]) auto

lemma role_count_split:
  assumes "few_busy T" "r \<noteq> R_NONE"
  shows "role_count T r = plus_one (thread_role (T t)) (others T t) r"
proof (cases "thread_role (T t) = r")
  case True
  then have "{u. thread_role (T u) = r} = insert t {u. u \<noteq> t \<and> thread_role (T u) = r}" by auto
  moreover have "finite {u. u \<noteq> t \<and> thread_role (T u) = r}"
    using few_busy_role [OF assms] by (rule rev_finite_subset) auto
  ultimately show ?thesis using True by (simp add: role_count_def others_def plus_one_def)
next
  case False
  then have "{u. thread_role (T u) = r} = {u. u \<noteq> t \<and> thread_role (T u) = r}" by auto
  with False show ?thesis by (simp add: role_count_def others_def plus_one_def)
qed

lemma others_update [simp]: "others (T(t := th)) t = others T t"
  by (rule ext) (auto simp: others_def intro: arg_cong [where f = card])

lemma control_inv_cong:
  assumes "\<And>r. r \<noteq> R_NONE \<Longrightarrow> c r = c' r"
  shows "control_inv s c = control_inv s c'"
  by (simp add: control_inv_def holders_def assms)

lemma control_inv_split:
  "few_busy T \<Longrightarrow> control_inv s (role_count T) = control_inv s (plus_one (thread_role (T t)) (others T t))"
  by (rule control_inv_cong) (rule role_count_split)

lemma role_count_pos:
  assumes "few_busy T" "r \<noteq> R_NONE"
  shows "(role_count T r = 0) = (\<forall>u. thread_role (T u) \<noteq> r)"
  using few_busy_role [OF assms] by (simp add: role_count_def)

section \<open>The control invariant of the system\<close>

definition control_ok :: "system \<Rightarrow> bool" where
  "control_ok \<sigma> \<longleftrightarrow> few_busy (threads \<sigma>) \<and> control_inv (session \<sigma>) (role_count (threads \<sigma>))"

lemma observe_frame [simp]:
  "session (observe ev \<sigma>) = session \<sigma>" "threads (observe ev \<sigma>) = threads \<sigma>"
  by (cases ev; simp)+

lemma system_stepE:
  assumes "system_step env t i \<sigma> = Some \<sigma>'"
  obtains th s ev where "thread_step env i (threads \<sigma> t) (session \<sigma>) = Some (th, s, ev)"
    and "\<sigma>' = (observe ev \<sigma>)\<lparr>session := s, threads := (threads \<sigma>)(t := th)\<rparr>"
  using assms by (auto simp: system_step_def)

lemma control_ok_init: "control_ok init_system"
proof -
  have "role_count (\<lambda>t. Idle) r = 0" if "r \<noteq> R_NONE" for r
    using that by (simp add: role_count_def)
  then show ?thesis
    by (simp add: control_ok_def init_system_def init_session_def few_busy_def control_inv_def holders_def)
qed

lemma control_ok_step:
  assumes "system_step env t i \<sigma> = Some \<sigma>'" "control_ok \<sigma>"
  shows "control_ok \<sigma>'"
  using assms(1)
proof (rule system_stepE)
  fix th s ev
  assume run: "thread_step env i (threads \<sigma> t) (session \<sigma>) = Some (th, s, ev)"
    and \<sigma>': "\<sigma>' = (observe ev \<sigma>)\<lparr>session := s, threads := (threads \<sigma>)(t := th)\<rparr>"
  from assms(2) have busy: "few_busy (threads \<sigma>)"
    and inv: "control_inv (session \<sigma>) (plus_one (thread_role (threads \<sigma> t)) (others (threads \<sigma>) t))"
    using control_inv_split [of "threads \<sigma>" _ t] by (auto simp: control_ok_def)
  from control_step [OF run inv] busy show "control_ok \<sigma>'"
    using control_inv_split [of "(threads \<sigma>)(t := th)" s t] by (simp add: control_ok_def \<sigma>')
qed

lemma reachable_control: "reachable env \<sigma> \<Longrightarrow> control_ok \<sigma>"
  by (induction rule: reachable.induct) (auto simp: control_ok_init elim!: stepE intro: control_ok_step)

text \<open>The invariant of the roles around the thread that moves, before and after its step.\<close>

lemma control_around:
  "control_ok \<sigma> \<Longrightarrow> control_inv (session \<sigma>) (plus_one (thread_role (threads \<sigma> t)) (others (threads \<sigma>) t))"
  using control_inv_split by (auto simp: control_ok_def)

section \<open>The abort requests\<close>

text \<open>
  The number of abort requests is a function of the state behind the lock: one as soon as the
  cleanup has been decided for an upload that exists and whose outcome is not in doubt.
\<close>

definition aborts_due :: "S3UploadSession \<Rightarrow> nat" where
  "aborts_due s =
     (if cleanup_state s \<noteq> NONE \<and> multipart_upload_id s \<noteq> None \<and> \<not> abort_suppressed s then 1 else 0)"

definition doubt_ok :: "S3UploadSession \<Rightarrow> bool" where
  "doubt_ok s \<longleftrightarrow> failure_disposition s = AMBIGUOUS \<longrightarrow> abort_suppressed s"

lemma aborts_due_NONE [simp]: "cleanup_state s = NONE \<Longrightarrow> aborts_due s = 0"
  by (simp add: aborts_due_def)

lemma control_cleanup_holders:
  "control_inv s c \<Longrightarrow> holders c \<noteq> 0 \<Longrightarrow> cleanup_state s = NONE"
  by (simp add: control_inv_def)

lemma holder_cleanup:
  assumes "control_inv s (plus_one r c)" "r \<in> {R_HOLD, R_WINIT, R_FIN, R_FINIT, R_FAIL}"
  shows "cleanup_state s = NONE"
  using assms(2) by (intro control_cleanup_holders [OF assms(1)]) (auto simp: holders_def plus_one_def)

lemma same_control_due: "same_control s s' \<Longrightarrow> aborts_due s' = aborts_due s"
  by (simp add: same_control_def aborts_due_def)

lemma PrepareWrite_disposition:
  "PrepareWrite config alloc data location s = (out, s') \<Longrightarrow> failure_disposition s' = failure_disposition s"
  by (auto simp: PrepareWrite_def split: if_splits sum.splits prod.splits)

lemma ReserveFinalPart_disposition:
  "ReserveFinalPart config b s = (out, s') \<Longrightarrow> failure_disposition s' = failure_disposition s"
  by (auto simp: ReserveFinalPart_def split: sum.splits)

definition due_step :: "S3UploadSession \<Rightarrow> S3UploadSession \<Rightarrow> event \<Rightarrow> bool" where
  "due_step s s' ev \<longleftrightarrow>
     (doubt_ok s \<longrightarrow> doubt_ok s' \<and> aborts_due s' = aborts_due s + (if ev = AbortSent then 1 else 0))"

lemma due_quiet:
  "same_control s s' \<Longrightarrow> failure_disposition s' = failure_disposition s \<Longrightarrow> ev \<noteq> AbortSent \<Longrightarrow>
    due_step s s' ev"
  by (simp add: due_step_def aborts_due_def doubt_ok_def same_control_def)

lemma due_early:
  "cleanup_state s = NONE \<Longrightarrow> cleanup_state s' = NONE \<Longrightarrow> doubt_ok s' \<or> \<not> doubt_ok s \<Longrightarrow> ev \<noteq> AbortSent \<Longrightarrow>
    due_step s s' ev"
  by (auto simp: due_step_def)

lemma due_release:
  assumes "ReleaseOperation s = (n, s')" "cleanup_state s = NONE"
  shows "due_step s s' (case n of OWN_CLEANUP u \<Rightarrow> AbortSent | _ \<Rightarrow> Silent)"
proof (cases "primary_error s = None \<or> active_operations s - 1 \<noteq> 0")
  case True
  with assms have "s' = s\<lparr>active_operations := active_operations s - 1\<rparr>"
    and "n = RELEASED \<or> n = AWAIT_CLEANUP"
    by (auto simp: ReleaseOperation_def Let_def split: if_splits)
  then show ?thesis by (elim disjE; hypsubst; simp add: due_step_def doubt_ok_def aborts_due_def)
next
  case False
  then obtain e where e: "primary_error s = Some e" "active_operations s - 1 = 0" by auto
  show ?thesis
    using assms e
    by (cases "multipart_upload_id s"; cases "failure_disposition s"; cases "abort_suppressed s";
        simp add: ReleaseOperation_def Let_def; elim conjE; hypsubst;
        simp add: due_step_def aborts_due_def doubt_ok_def)
qed

lemma due_drain:
  assumes "AbortDrain s = (Done n, s')" "cleanup_state s = NONE \<or> primary_error s \<noteq> None"
  shows "due_step s s' (case n of ABORT_CLEANUP u \<Rightarrow> AbortSent | _ \<Rightarrow> Silent)"
  using assms
  by (auto simp: AbortDrain_def Let_def due_step_def aborts_due_def doubt_ok_def
      split: if_splits option.splits)

lemma drain_cleanup:
  assumes "control_inv s (plus_one R_DRAIN c)"
  shows "cleanup_state s = NONE \<or> primary_error s \<noteq> None"
  using assms by (cases "lifecycle_state s"; cases "cleanup_state s"; simp add: control_defs)

lemma due_latch:
  "cleanup_state s = NONE \<Longrightarrow> due_step s (LatchFailureLocked e d s) Silent"
  by (rule due_early) (auto simp: doubt_ok_def LatchFailureLocked_def Let_def)

lemma due_init_failed:
  "cleanup_state s = NONE \<Longrightarrow> due_step s (PublishInitializationFailure e d s) Silent"
  by (rule due_early) (auto simp: doubt_ok_def PublishInitializationFailure_def LatchFailureLocked_def Let_def)

lemma clean_in_progress:
  "control_inv s (plus_one R_CLEAN c) \<or> control_inv s (plus_one R_ABORT c) \<Longrightarrow>
    cleanup_state s = CLEANUP_IN_PROGRESS"
  by (cases "cleanup_state s"; auto simp: control_defs)

text \<open>The roles whose steps leave the cleanup alone.\<close>

lemma quiet_write:
  assumes "thread_step env i th s = Some (th', s', ev)"
    and "(\<exists>d l. th = Prepare d l) \<or> (\<exists>ps. th = Parts ps) \<or> (\<exists>p ow u. th = CheckUpload p ow u) \<or>
      (\<exists>p ow u. th = Putting p ow u) \<or> (\<exists>p ow e. th = Storing p ow e) \<or> (\<exists>b. th = Decide b) \<or>
      (\<exists>b. th = Single b) \<or> (\<exists>b. th = ReserveFinal b) \<or> th = CheckFinal \<or> th = Snapshot \<or>
      (\<exists>sn. th = Completing sn) \<or> th = Awaiting"
  shows "same_control s s'" "failure_disposition s' = failure_disposition s" "ev \<noteq> AbortSent"
proof -
  have "same_control s s' \<and> failure_disposition s' = failure_disposition s \<and> ev \<noteq> AbortSent"
    using assms
    apply (elim disjE exE; hypsubst)
               apply (auto simp: thread_step_defs PrepareStep_def intro: PrepareWrite_frame PrepareWrite_disposition
                 split: input.splits outcome.splits prod.splits) [1]
              apply (auto simp: thread_step_defs session_defs split: input.splits list.splits if_splits) [1]
             apply (auto simp: thread_step_defs session_defs split: input.splits if_splits) [1]
            apply (auto simp: thread_step_defs PuttingStep_def split: input.splits sum.splits) [1]
           apply (auto simp: thread_step_defs session_defs same_control_def split: input.splits if_splits) [1]
          apply (auto simp: thread_step_defs session_defs split: input.splits if_splits) [1]
         apply (auto simp: thread_step_defs SingleStep_def split: input.splits sum.splits) [1]
        apply (auto simp: thread_step_defs ReserveFinalStep_def intro: ReserveFinalPart_frame
          ReserveFinalPart_disposition split: input.splits outcome.splits prod.splits) [1]
       apply (auto simp: thread_step_defs session_defs split: input.splits if_splits) [1]
      apply (auto simp: thread_step_defs session_defs split: input.splits if_splits) [1]
     apply (auto simp: thread_step_defs CompletingStep_def split: input.splits sum.splits) [1]
    apply (auto simp: thread_step_defs session_defs split: input.splits if_splits) [1]
    done
  then show "same_control s s'" "failure_disposition s' = failure_disposition s" "ev \<noteq> AbortSent" by blast+
qed

lemma due_thread_step:
  assumes "thread_step env i th s = Some (th', s', ev)" "control_inv s (plus_one (thread_role th) c)"
  shows "due_step s s' ev"
proof -
  note inv = assms(2)
  have quiet: ?thesis if "same_control s s'" "failure_disposition s' = failure_disposition s" "ev \<noteq> AbortSent"
    using that by (rule due_quiet)
  have early: "cleanup_state s = NONE" if "thread_role th \<in> {R_HOLD, R_WINIT, R_FIN, R_FINIT, R_FAIL}"
    using holder_cleanup [OF inv that] .
  show ?thesis
  proof (cases th)
    case Idle
    with assms(1) show ?thesis
      by (auto simp: thread_step_defs session_defs due_step_def doubt_ok_def aborts_due_def
          split: input.splits if_splits LifecycleState.splits)
  next
    case (Ensure p ow)
    have "cleanup_state s = NONE" by (rule early) (use Ensure owner_role_fail [of ow] in auto)
    with Ensure assms(1) show ?thesis
      by (intro due_early)
         (auto simp: thread_step_defs session_defs doubt_ok_def split: input.splits if_splits)
  next
    case (Initializing p ow)
    have none: "cleanup_state s = NONE" by (rule early) (use Initializing in \<open>cases ow; auto\<close>)
    show ?thesis
    proof (cases "\<exists>e d. s' = PublishInitializationFailure e d s \<and> ev = Silent")
      case True
      with due_init_failed [OF none] show ?thesis by auto
    next
      case False
      with Initializing assms(1) none show ?thesis
        by (intro due_early)
           (auto simp: thread_step_defs InitializingStep_def PublishInitialization_def Let_def doubt_ok_def
             split: input.splits sum.splits if_splits)
    qed
  next
    case Claimed
    with assms(1) early due_release [of s] show ?thesis
      by (force simp: thread_step_defs ReleaseStep_def split: input.splits release_next.splits prod.splits)
  next
    case Releasing
    with assms(1) early due_release [of s] show ?thesis
      by (force simp: thread_step_defs ReleaseStep_def split: input.splits release_next.splits prod.splits)
  next
    case Finishing
    with assms(1) early show ?thesis
      by (intro due_early) (auto simp: thread_step_defs FinishFinalize_def doubt_ok_def split: input.splits)
  next
    case (Failing d e)
    with assms(1) early due_latch [of s] show ?thesis
      by (auto simp: thread_step_defs split: input.splits)
  next
    case (Cleaning u)
    with inv clean_in_progress [of s c] have "cleanup_state s = CLEANUP_IN_PROGRESS" by simp
    with Cleaning assms(1) show ?thesis
      by (auto simp: thread_step_defs FinishCleanup_def due_step_def aborts_due_def doubt_ok_def
          split: input.splits)
  next
    case Draining
    with inv drain_cleanup [of s c] have "cleanup_state s = NONE \<or> primary_error s \<noteq> None" by simp
    with Draining assms(1) due_drain [of s] show ?thesis
      by (force simp: thread_step_defs DrainStep_def
          split: input.splits outcome.splits abort_next.splits prod.splits)
  next
    case AbortAwaiting
    with assms(1) show ?thesis
      by (auto simp: thread_step_defs session_defs due_step_def aborts_due_def doubt_ok_def
          split: input.splits if_splits)
  next
    case (AbortCleaning u)
    with inv clean_in_progress [of s c] have "cleanup_state s = CLEANUP_IN_PROGRESS" by simp
    with AbortCleaning assms(1) show ?thesis
      by (auto simp: thread_step_defs AbortFinish_def due_step_def aborts_due_def doubt_ok_def
          split: input.splits)
  qed (rule quiet; rule quiet_write [OF assms(1)]; simp)+
qed

definition aborts_ok :: "system \<Rightarrow> bool" where
  "aborts_ok \<sigma> \<longleftrightarrow> doubt_ok (session \<sigma>) \<and> aborts_sent \<sigma> = aborts_due (session \<sigma>)"

lemma observe_aborts: "aborts_sent (observe ev \<sigma>) = aborts_sent \<sigma> + (if ev = AbortSent then 1 else 0)"
  by (cases ev) simp_all

lemma aborts_ok_step:
  assumes "system_step env t i \<sigma> = Some \<sigma>'" "control_ok \<sigma>" "aborts_ok \<sigma>"
  shows "aborts_ok \<sigma>'"
  using assms(1)
proof (rule system_stepE)
  fix th s ev
  assume run: "thread_step env i (threads \<sigma> t) (session \<sigma>) = Some (th, s, ev)"
    and \<sigma>': "\<sigma>' = (observe ev \<sigma>)\<lparr>session := s, threads := (threads \<sigma>)(t := th)\<rparr>"
  from due_thread_step [OF run control_around [OF assms(2)]] assms(3)
  show "aborts_ok \<sigma>'" by (simp add: \<sigma>' aborts_ok_def due_step_def observe_aborts)
qed

lemma reachable_aborts: "reachable env \<sigma> \<Longrightarrow> aborts_ok \<sigma>"
proof (induction rule: reachable.induct)
  case initial
  then show ?case
    by (simp add: aborts_ok_def doubt_ok_def aborts_due_def init_system_def init_session_def)
next
  case (further \<sigma> \<sigma>')
  then show ?case by (auto elim!: stepE intro: aborts_ok_step reachable_control)
qed

end
