(* ===== verification/S3_Upload_Parts.thy ===== *)
theory S3_Upload_Parts
  imports S3_Upload_Control
begin

text \<open>
  The slots of the parts: every reserved part is in the hand of exactly one thread until its
  ETag is stored, an upload id is never replaced, and a failure is never forgotten. From these
  facts: a session never gets stuck while one of its threads could still move.
\<close>

section \<open>Parts in the hand of a thread\<close>

fun owner_rest :: "part_owner \<Rightarrow> PreparedPart list" where
  "owner_rest (WRITING ps) = ps"
| "owner_rest FINISHING = []"

fun hand :: "thread \<Rightarrow> PreparedPart list" where
  "hand (Parts ps) = ps"
| "hand (Ensure p ow) = p # owner_rest ow"
| "hand (Initializing p ow) = p # owner_rest ow"
| "hand (CheckUpload p ow u) = p # owner_rest ow"
| "hand (Putting p ow u) = p # owner_rest ow"
| "hand (Storing p ow e) = p # owner_rest ow"
| "hand _ = []"

lemma hand_after_part [simp]: "hand (after_part ow) = owner_rest ow"
  by (cases ow) (simp_all add: after_part_def)

text \<open>The slots a failed preparation has reserved stay empty.\<close>

lemma ReservePart_Inl: "ReservePart c etags data = Inl e \<Longrightarrow> \<not> HasPartCapacity c (of_nat (length etags))"
  by (auto simp: ReservePart_def split: if_splits)

lemma PrepareLoop_error:
  "PrepareLoop c alloc data etags parts buf = Inl (e, etags') \<Longrightarrow> \<exists>k. etags' = etags @ replicate k []"
proof (induction c alloc data etags parts buf rule: PrepareLoop.induct)
  case (1 c alloc data etags parts buf)
  let ?size = "unat (PartSize c (of_nat (length etags)))"
  let ?direct = "min (length data) (unat MAX_MULTIPART_PART_SIZE)"
  let ?buffered = "if etags = [] then length data \<le> ?size else length data < ?size"
  note run = "1.prems"
  show ?case
  proof (cases "data = [] \<or> ?buffered")
    case True
    then show ?thesis using run
      by (subst (asm) PrepareLoop.simps) (auto simp: Let_def split: if_splits intro: exI [of _ 0])
  next
    case False
    then have nonempty: "data \<noteq> []" and direct: "\<not> ?buffered" by auto
    show ?thesis
    proof (cases "ReservePart c etags (take ?direct data)")
      case (Inl e')
      then show ?thesis using run nonempty direct
        by (subst (asm) PrepareLoop.simps) (auto simp: Let_def intro: exI [of _ 0])
    next
      case (Inr x)
      then obtain part where part: "ReservePart c etags (take ?direct data) = Inr (etags @ [[]], part)"
        by (cases x) (auto simp: ReservePart_Inr)
      with run nonempty direct
      have "PrepareLoop c alloc (drop ?direct data) (etags @ [[]]) (parts @ [part]) buf = Inl (e, etags')"
        by (subst (asm) PrepareLoop.simps) (auto simp: Let_def)
      from "1.IH" [OF nonempty refl refl refl direct refl part refl this]
      obtain k where "etags' = (etags @ [[]]) @ replicate k []" by blast
      then have "etags' = etags @ replicate (Suc k) []" by simp
      then show ?thesis by blast
    qed
  qed
qed

lemma PrepareParts_error:
  assumes "PrepareParts c alloc data etags buf = Inl (e, etags')"
  shows "\<exists>k. etags' = etags @ replicate k []"
proof (cases "PrepareBuffered c data etags buf")
  case (Inl x)
  with assms show ?thesis
    by (auto simp: PrepareParts_def PrepareBuffered_def Let_def
        split: option.splits if_splits sum.splits prod.splits intro: exI [of _ 0])
next
  case (Inr x)
  then obtain rest etags1 parts1 buf1 where x: "PrepareBuffered c data etags buf = Inr (rest, etags1, parts1, buf1)"
    by (cases x) auto
  then have "etags1 = etags \<or> etags1 = etags @ [[]]"
    by (auto simp: PrepareBuffered_def Let_def ReservePart_Inr
        split: option.splits if_splits sum.splits prod.splits)
  moreover from x assms have "PrepareLoop c alloc rest etags1 parts1 buf1 = Inl (e, etags')"
    by (auto simp: PrepareParts_def split: sum.splits)
  then obtain k where "etags' = etags1 @ replicate k []" using PrepareLoop_error by blast
  ultimately have "etags' = etags @ replicate k [] \<or> etags' = etags @ replicate (Suc k) []"
    by auto
  then show ?thesis by blast
qed

section \<open>The slots\<close>

definition slots :: "thread \<Rightarrow> nat list" where
  "slots th = map part_number (hand th)"

definition slot_free :: "string list \<Rightarrow> nat \<Rightarrow> bool" where
  "slot_free etags n \<longleftrightarrow> 0 < n \<and> n \<le> length etags \<and> etags ! (n - 1) = []"

definition slots_ok :: "string list \<Rightarrow> (nat \<Rightarrow> thread) \<Rightarrow> bool" where
  "slots_ok etags T \<longleftrightarrow>
     (\<forall>t. distinct (slots (T t)) \<and> (\<forall>n\<in>set (slots (T t)). slot_free etags n)) \<and>
     (\<forall>t u. t \<noteq> u \<longrightarrow> set (slots (T t)) \<inter> set (slots (T u)) = {})"

text \<open>A step keeps or drops the slots of its thread, reserves new ones, or fills the first.\<close>

fun storing :: "thread \<Rightarrow> bool" where
  "storing (Storing p ow e) = True"
| "storing _ = False"

definition slot_change :: "string list \<Rightarrow> thread \<Rightarrow> string list \<Rightarrow> thread \<Rightarrow> bool" where
  "slot_change etags th etags' th' \<longleftrightarrow>
     etags' = etags \<and> (slots th' = slots th \<or> slots th' = []) \<or>
     (\<exists>k. etags' = etags @ replicate k [] \<and>
        (slots th' = map Suc [length etags..<length etags + k] \<or> slots th' = [])) \<or>
     (\<exists>n e. storing th \<and> slots th = n # slots th' \<and> etags' = etags[n - 1 := e])"

lemma slot_free_append: "slot_free etags n \<Longrightarrow> slot_free (etags @ xs) n"
  by (auto simp: slot_free_def nth_append)

lemma slot_free_update:
  "slot_free etags n \<Longrightarrow> slot_free etags m \<Longrightarrow> n \<noteq> m \<Longrightarrow> slot_free (etags[m - 1 := e]) n"
  by (auto simp: slot_free_def nth_list_update)

lemma slot_free_new: "n \<in> set (map Suc [length etags..<length etags + k]) \<Longrightarrow>
    slot_free (etags @ replicate k []) n"
  by (auto simp: slot_free_def nth_append)

lemma slots_new:
  "slot_free etags n \<Longrightarrow> n \<notin> set (map Suc [length etags..<length etags + k])"
  by (auto simp: slot_free_def)

lemma slots_ok_step:
  assumes ok: "slots_ok etags T" and change: "slot_change etags (T t) etags' th"
  shows "slots_ok etags' (T(t := th))"
proof -
  have free: "slot_free etags n" if "n \<in> set (slots (T u))" for u n
    using ok that by (auto simp: slots_ok_def)
  have apart: "set (slots (T u)) \<inter> set (slots (T v)) = {}" if "u \<noteq> v" for u v
    using ok that by (auto simp: slots_ok_def)
  have dist: "distinct (slots (T u))" for u using ok by (auto simp: slots_ok_def)
  from change consider (same) "etags' = etags" "slots th = slots (T t) \<or> slots th = []"
    | (new) k where "etags' = etags @ replicate k []"
        "slots th = map Suc [length etags..<length etags + k] \<or> slots th = []"
    | (fill) n e where "slots (T t) = n # slots th" "etags' = etags[n - 1 := e]"
    by (auto simp: slot_change_def)
  then show ?thesis
  proof cases
    case same
    have 1: "set (slots th) \<subseteq> set (slots (T t))" "distinct (slots th)"
      using same(2) dist [of t] by auto
    show ?thesis using 1 same(1) free apart dist unfolding slots_ok_def
      by (auto simp: disjoint_iff subset_iff)
  next
    case new
    have 1: "distinct (slots th)" using new(2) by (auto simp: distinct_map)
    have 2: "slot_free etags' n" if "n \<in> set (slots th)" for n
      using new that slot_free_new [of n etags k] by auto
    have 3: "set (slots th) \<inter> set (slots (T u)) = {}" for u
      using new(2) free [of _ u] slots_new [of etags _ k] by (metis disjoint_iff empty_iff list.set(1))
    have 4: "slot_free etags' n" if "n \<in> set (slots (T u))" for u n
      using free [OF that] new(1) slot_free_append by simp
    show ?thesis using 1 2 3 4 apart dist by (auto simp: slots_ok_def)
  next
    case fill
    have n: "slot_free etags n" using free [of n t] fill(1) by simp
    have 1: "slot_free etags' m" if "m \<in> set (slots th)" for m
      using that fill dist [of t] free [of m t] slot_free_update [OF _ n] by auto
    have 2: "slot_free etags' m" if "m \<in> set (slots (T u))" "u \<noteq> t" for u m
      using that fill apart [of u t] free [of m u] slot_free_update [OF _ n] by auto
    have 3: "set (slots th) \<subseteq> set (slots (T t))" "distinct (slots th)"
      using fill(1) dist [of t] by auto
    show ?thesis using 1 2 3 apart dist unfolding slots_ok_def
      by (auto simp: disjoint_iff subset_iff)
  qed
qed

text \<open>What a step does to the parts and the buffer.\<close>

lemma slots_first: "hand th = p # hand th' \<Longrightarrow> slots th = part_number p # slots th'"
  by (simp add: slots_def)

lemma slot_keep:
  "etags' = etags \<Longrightarrow> hand th' = hand th \<or> hand th' = [] \<Longrightarrow> slot_change etags th etags' th'"
  by (auto simp: slot_change_def slots_def)

lemma slot_reserve:
  assumes "PrepareWrite config alloc data location s = (out, s')"
    and "upload_config_ok config" "buffer_ok (buffered_part s)"
    and "(case out of Done ps \<Rightarrow> hand th' = ps | _ \<Rightarrow> hand th' = [])" "hand th = []"
  shows "slot_change (part_etags s) th (part_etags s') th'" "buffer_ok (buffered_part s')"
proof -
  have "slot_change (part_etags s) th (part_etags s') th' \<and> buffer_ok (buffered_part s')"
  proof (cases "PrepareParts config alloc data (part_etags s) (buffered_part s)")
    case (Inl x)
    then obtain e etags where x: "x = (e, etags)" by fastforce
    with Inl obtain k where k: "etags = part_etags s @ replicate k []" using PrepareParts_error by blast
    have "slot_change (part_etags s) th (part_etags s @ replicate k []) th'" if "hand th' = []"
      using that by (auto simp: slot_change_def slots_def)
    with Inl x k assms(1,3,4,5) show ?thesis
      by (auto simp: PrepareWrite_def buffer_ok_def intro: slot_keep split: if_splits)
  next
    case (Inr x)
    then obtain etags w where x: "x = (etags, w)" by fastforce
    with Inr PrepareParts_ok [OF _ assms(2,3)]
    have ok: "prepared_ok (part_etags s) (buffer_bytes (buffered_part s) @ data) etags
        (prepared_parts w) (prepared_buffer w)" by blast
    then have "slot_change (part_etags s) th etags th'" if "hand th' = prepared_parts w"
      using that by (auto simp: slot_change_def slots_def prepared_ok_def parts_ok_def)
    with Inr x ok assms(1,3,4,5) show ?thesis
      by (auto simp: PrepareWrite_def prepared_ok_def intro: slot_keep split: if_splits)
  qed
  then show "slot_change (part_etags s) th (part_etags s') th'" "buffer_ok (buffered_part s')" by blast+
qed

lemma slot_store:
  "StorePartETag (part_number p) etag s = (Done x, s') \<Longrightarrow> storing th \<Longrightarrow> hand th = p # hand th' \<Longrightarrow>
    slot_change (part_etags s) th (part_etags s') th'"
  unfolding slot_change_def
  by (rule disjI2, rule disjI2, rule exI [of _ "part_number p"], rule exI [of _ etag])
     (auto simp: StorePartETag_def slots_first split: if_splits)

lemma slot_final:
  assumes "ReserveFinalPart config b s = (Done p, s')" "hand th' = [p]"
  shows "slot_change (part_etags s) th (part_etags s') th'"
proof -
  from assms have "part_etags s' = part_etags s @ replicate 1 []" "slots th' = map Suc [length (part_etags s)..<length (part_etags s) + 1]"
    by (auto simp: ReserveFinalPart_def slots_def ReservePart_Inr split: sum.splits)
  then show ?thesis unfolding slot_change_def by blast
qed

lemma buffer_ok_None [simp]: "buffer_ok None"
  by (simp add: buffer_ok_def)

definition parts_step :: "S3UploadSession \<Rightarrow> thread \<Rightarrow> S3UploadSession \<Rightarrow> thread \<Rightarrow> bool" where
  "parts_step s th s' th' \<longleftrightarrow> slot_change (part_etags s) th (part_etags s') th' \<and> buffer_ok (buffered_part s')"

lemma parts_keep:
  "part_etags s' = part_etags s \<Longrightarrow> buffered_part s' = buffered_part s \<or> buffered_part s' = None \<Longrightarrow>
    buffer_ok (buffered_part s) \<Longrightarrow> hand th' = hand th \<or> hand th' = [] \<Longrightarrow> parts_step s th s' th'"
  by (auto simp: parts_step_def intro: slot_keep)

lemma parts_thread_step:
  assumes "thread_step env i th s = Some (th', s', ev)" "upload_config_ok (env_config env)"
    and ok: "buffer_ok (buffered_part s)"
  shows "parts_step s th s' th'"
proof (cases th)
  case Idle
  with assms(1) show ?thesis
    by (intro parts_keep [OF _ _ ok])
       (auto simp: thread_step_defs session_defs split: input.splits if_splits LifecycleState.splits)
next
  case (Prepare d l)
  with assms(1) obtain alloc out where out: "PrepareWrite (env_config env) alloc d l s = (out, s')"
      "case out of Done ps \<Rightarrow> hand th' = ps | _ \<Rightarrow> hand th' = []"
    by (auto simp: thread_step_defs PrepareStep_def split: input.splits outcome.splits prod.splits)
  have "hand th = []" using Prepare by simp
  from slot_reserve [OF out(1) assms(2) ok out(2) this] show ?thesis
    by (simp add: parts_step_def)
next
  case (Parts ps)
  with assms(1) show ?thesis
    by (intro parts_keep [OF _ _ ok])
       (auto simp: thread_step_defs session_defs split: input.splits list.splits if_splits)
next
  case (Ensure p ow)
  with assms(1) show ?thesis
    by (intro parts_keep [OF _ _ ok])
       (auto simp: thread_step_defs session_defs split: input.splits if_splits)
next
  case (Initializing p ow)
  with assms(1) show ?thesis
    by (intro parts_keep [OF _ _ ok])
       (auto simp: thread_step_defs InitializingStep_def PublishInitialization_def Let_def
         PublishInitializationFailure_def split: input.splits sum.splits if_splits)
next
  case (CheckUpload p ow u)
  with assms(1) show ?thesis
    by (intro parts_keep [OF _ _ ok])
       (auto simp: thread_step_defs session_defs split: input.splits if_splits)
next
  case (Putting p ow u)
  with assms(1) show ?thesis
    by (intro parts_keep [OF _ _ ok])
       (auto simp: thread_step_defs PuttingStep_def split: input.splits sum.splits)
next
  case (Storing p ow e)
  show ?thesis
  proof (cases "primary_error s")
    case None
    with Storing assms(1) have "StorePartETag (part_number p) e s = (Done (), s')" "th' = after_part ow"
      by (auto simp: thread_step_defs session_defs split: input.splits)
    with Storing slot_store [of p e s "()" s' th th'] ok show ?thesis
      by (auto simp: parts_step_def StorePartETag_def split: if_splits)
  next
    case (Some x)
    with Storing assms(1) show ?thesis
      by (intro parts_keep [OF _ _ ok])
         (auto simp: thread_step_defs session_defs split: input.splits)
  qed
next
  case (ReserveFinal b)
  with assms(1) obtain out where out: "ReserveFinalPart (env_config env) b s = (out, s')"
      "case out of Done p \<Rightarrow> th' = Ensure p FINISHING | _ \<Rightarrow> hand th' = []"
    by (auto simp: thread_step_defs ReserveFinalStep_def split: input.splits outcome.splits prod.splits)
  show ?thesis
  proof (cases out)
    case (Done p)
    with out ok show ?thesis
      using slot_final [of "env_config env" b s p s' th' th]
      by (auto simp: parts_step_def ReserveFinalPart_def split: sum.splits)
  next
    case (Raised e)
    with out show ?thesis
      by (intro parts_keep [OF _ _ ok]) (auto simp: ReserveFinalPart_def split: sum.splits)
  next
    case Blocked
    with out show ?thesis by (auto simp: ReserveFinalPart_def split: sum.splits)
  qed
next
  case Claimed
  with assms(1) show ?thesis
    by (intro parts_keep [OF _ _ ok])
       (auto simp: thread_step_defs ReleaseStep_def ReleaseOperation_def Let_def
         split: input.splits if_splits option.splits)
next
  case Releasing
  with assms(1) show ?thesis
    by (intro parts_keep [OF _ _ ok])
       (auto simp: thread_step_defs ReleaseStep_def ReleaseOperation_def Let_def
         split: input.splits if_splits option.splits)
next
  case Draining
  with assms(1) show ?thesis
    by (intro parts_keep [OF _ _ ok])
       (auto simp: thread_step_defs DrainStep_def AbortDrain_def Let_def
         split: input.splits if_splits option.splits)
next
  case (Single b)
  with assms(1) show ?thesis
    by (intro parts_keep [OF _ _ ok])
       (auto simp: thread_step_defs SingleStep_def split: input.splits sum.splits)
next
  case (Completing b)
  with assms(1) show ?thesis
    by (intro parts_keep [OF _ _ ok])
       (auto simp: thread_step_defs CompletingStep_def split: input.splits sum.splits)
next
  case (Failing d e)
  with assms(1) show ?thesis
    by (intro parts_keep [OF _ _ ok]) (auto simp: thread_step_defs split: input.splits)
next
  case (Cleaning u)
  with assms(1) show ?thesis
    by (intro parts_keep [OF _ _ ok]) (auto simp: thread_step_defs FinishCleanup_def split: input.splits)
qed (rule parts_keep [OF _ _ ok],
     (use assms(1) in \<open>auto simp: thread_step_defs session_defs split: input.splits if_splits option.splits\<close>) [3])+

section \<open>What a step never takes back\<close>

definition stable :: "S3UploadSession \<Rightarrow> S3UploadSession \<Rightarrow> bool" where
  "stable s s' \<longleftrightarrow>
     (primary_error s \<noteq> None \<longrightarrow> primary_error s' = primary_error s) \<and>
     (multipart_upload_id s \<noteq> None \<longrightarrow> multipart_upload_id s' = multipart_upload_id s)"

lemma same_control_stable: "same_control s s' \<Longrightarrow> stable s s'"
  by (auto simp: same_control_def stable_def)

lemma init_no_upload:
  assumes "control_inv s (plus_one (owner_role R_WINIT R_FINIT ow) c)"
  shows "multipart_upload_id s = None"
  using assms
  by (cases ow; cases "initialization_state s"; cases "multipart_upload_id s"; simp add: control_defs)

lemma stable_step:
  assumes "thread_step env i th s = Some (th', s', ev)" "control_inv s (plus_one (thread_role th) c)"
  shows "stable s s'"
proof (cases th)
  case Idle
  with assms(1) show ?thesis
    by (auto simp: thread_step_defs session_defs stable_def
        split: input.splits if_splits LifecycleState.splits)
next
  case (Ensure p ow)
  with assms(1) show ?thesis
    by (auto simp: thread_step_defs session_defs stable_def split: input.splits if_splits)
next
  case (Initializing p ow)
  with assms init_no_upload [of s ow c] show ?thesis
    by (auto simp: thread_step_defs InitializingStep_def PublishInitialization_def Let_def stable_def
        PublishInitializationFailure_def split: input.splits sum.splits if_splits)
next
  case Claimed
  with assms(1) show ?thesis
    by (auto simp: thread_step_defs ReleaseStep_def ReleaseOperation_def Let_def stable_def
        split: input.splits if_splits option.splits)
next
  case Releasing
  with assms(1) show ?thesis
    by (auto simp: thread_step_defs ReleaseStep_def ReleaseOperation_def Let_def stable_def
        split: input.splits if_splits option.splits)
next
  case Draining
  with assms(1) show ?thesis
    by (auto simp: thread_step_defs DrainStep_def AbortDrain_def Let_def stable_def
        split: input.splits if_splits option.splits)
next
  case Finishing
  with assms(1) show ?thesis
    by (auto simp: thread_step_defs FinishFinalize_def stable_def split: input.splits)
next
  case (Failing d e)
  with assms(1) show ?thesis
    by (auto simp: thread_step_defs stable_def split: input.splits)
next
  case (Cleaning u)
  with assms(1) show ?thesis
    by (auto simp: thread_step_defs FinishCleanup_def stable_def split: input.splits)
next
  case AbortAwaiting
  with assms(1) show ?thesis
    by (auto simp: thread_step_defs session_defs stable_def split: input.splits if_splits)
next
  case (AbortCleaning u)
  with assms(1) show ?thesis
    by (auto simp: thread_step_defs AbortFinish_def stable_def split: input.splits)
qed (rule same_control_stable, rule quiet_write(1) [OF assms(1)], simp)+

text \<open>What a thread relies on.\<close>

fun thread_fact :: "S3UploadSession \<Rightarrow> thread \<Rightarrow> bool" where
  "thread_fact s Awaiting = (primary_error s \<noteq> None)"
| "thread_fact s (CheckUpload p ow u) = (u \<noteq> None \<and> multipart_upload_id s = u)"
| "thread_fact s (Putting p ow u) = (u \<noteq> None \<and> multipart_upload_id s = u)"
| "thread_fact s (Storing p ow e) = (multipart_upload_id s \<noteq> None)"
| "thread_fact s _ = True"

definition etags_fact :: "S3UploadSession \<Rightarrow> bool" where
  "etags_fact s \<longleftrightarrow> (\<exists>e\<in>set (part_etags s). e \<noteq> []) \<longrightarrow> multipart_upload_id s \<noteq> None"

lemma thread_fact_stable: "stable s s' \<Longrightarrow> thread_fact s th \<Longrightarrow> thread_fact s' th"
  by (cases th) (auto simp: stable_def)

lemma thread_fact_after [simp]: "thread_fact s (after_part ow)"
  by (cases ow) (simp_all add: after_part_def)

lemma ensure_upload:
  assumes "control_inv s c" "initialization_state s = SUCCEEDED"
  shows "multipart_upload_id s \<noteq> None"
  using assms by (simp add: control_inv_def)

lemma thread_fact_step:
  assumes "thread_step env i th s = Some (th', s', ev)" "control_inv s (plus_one (thread_role th) c)"
    and "thread_fact s th"
  shows "thread_fact s' th'"
proof (cases th)
  case Idle
  with assms(1) show ?thesis
    by (auto simp: thread_step_defs session_defs split: input.splits if_splits LifecycleState.splits)
next
  case (Prepare d l)
  with assms(1) show ?thesis
    by (auto simp: thread_step_defs PrepareStep_def split: input.splits outcome.splits prod.splits)
next
  case (Parts ps)
  with assms(1) show ?thesis
    by (auto simp: thread_step_defs session_defs split: input.splits list.splits if_splits)
next
  case (Ensure p ow)
  with assms(1) ensure_upload [OF assms(2)] show ?thesis
    by (auto simp: thread_step_defs session_defs split: input.splits if_splits)
next
  case (Initializing p ow)
  with assms(1) show ?thesis
    by (auto simp: thread_step_defs InitializingStep_def PublishInitialization_def Let_def
        split: input.splits sum.splits if_splits)
next
  case (Putting p ow u)
  with assms(1,3) show ?thesis
    by (auto simp: thread_step_defs PuttingStep_def split: input.splits sum.splits)
next
  case (Single b)
  with assms(1) show ?thesis
    by (auto simp: thread_step_defs SingleStep_def split: input.splits sum.splits)
next
  case (ReserveFinal b)
  with assms(1) show ?thesis
    by (auto simp: thread_step_defs ReserveFinalStep_def split: input.splits outcome.splits prod.splits)
next
  case (Completing b)
  with assms(1) show ?thesis
    by (auto simp: thread_step_defs CompletingStep_def split: input.splits sum.splits)
next
  case Claimed
  with assms(1) show ?thesis
    by (auto simp: thread_step_defs ReleaseStep_def ReleaseOperation_def Let_def
        split: input.splits if_splits option.splits)
next
  case Releasing
  with assms(1) show ?thesis
    by (auto simp: thread_step_defs ReleaseStep_def ReleaseOperation_def Let_def
        split: input.splits if_splits option.splits)
next
  case Draining
  with assms(1) show ?thesis
    by (auto simp: thread_step_defs DrainStep_def AbortDrain_def Let_def
        split: input.splits if_splits option.splits)
qed (use assms(1,3) in \<open>auto simp: thread_step_defs session_defs split: input.splits if_splits option.splits\<close>)+

lemma etags_fact_step:
  assumes change: "slot_change (part_etags s) th (part_etags s') th'" and stable: "stable s s'"
    and "thread_fact s th" "etags_fact s"
  shows "etags_fact s'"
proof (cases "storing th")
  case True
  then have "multipart_upload_id s \<noteq> None" using assms(3) by (cases th) auto
  with stable show ?thesis by (auto simp: stable_def etags_fact_def)
next
  case False
  with change have "set (part_etags s') \<subseteq> insert [] (set (part_etags s))"
    by (auto simp: slot_change_def)
  with assms(4) stable show ?thesis by (auto simp: stable_def etags_fact_def)
qed

section \<open>The invariant of the system\<close>

definition parts_ok_system :: "system \<Rightarrow> bool" where
  "parts_ok_system \<sigma> \<longleftrightarrow>
     slots_ok (part_etags (session \<sigma>)) (threads \<sigma>) \<and> buffer_ok (buffered_part (session \<sigma>)) \<and>
     (\<forall>t. thread_fact (session \<sigma>) (threads \<sigma> t)) \<and> etags_fact (session \<sigma>)"

lemma parts_ok_system_step:
  assumes "system_step env t i \<sigma> = Some \<sigma>'" "upload_config_ok (env_config env)"
    and "control_ok \<sigma>" "parts_ok_system \<sigma>"
  shows "parts_ok_system \<sigma>'"
  using assms(1)
proof (rule system_stepE)
  fix th s ev
  assume run: "thread_step env i (threads \<sigma> t) (session \<sigma>) = Some (th, s, ev)"
    and \<sigma>': "\<sigma>' = (observe ev \<sigma>)\<lparr>session := s, threads := (threads \<sigma>)(t := th)\<rparr>"
  note inv = control_around [OF assms(3), of t]
  from assms(4) have ok: "slots_ok (part_etags (session \<sigma>)) (threads \<sigma>)"
    "buffer_ok (buffered_part (session \<sigma>))" "\<And>u. thread_fact (session \<sigma>) (threads \<sigma> u)"
    "etags_fact (session \<sigma>)" by (auto simp: parts_ok_system_def)
  have parts: "slot_change (part_etags (session \<sigma>)) (threads \<sigma> t) (part_etags s) th"
    "buffer_ok (buffered_part s)"
    using parts_thread_step [OF run assms(2) ok(2)] by (simp_all add: parts_step_def)
  have stable: "stable (session \<sigma>) s" by (rule stable_step [OF run inv])
  have "thread_fact s (threads \<sigma> u)" for u using stable ok(3) by (rule thread_fact_stable)
  with slots_ok_step [OF ok(1) parts(1)] parts(2) thread_fact_step [OF run inv ok(3)]
    etags_fact_step [OF parts(1) stable ok(3,4)]
  show "parts_ok_system \<sigma>'" by (simp add: \<sigma>' parts_ok_system_def)
qed

lemma parts_ok_system_init: "parts_ok_system init_system"
  by (simp add: parts_ok_system_def slots_ok_def slots_def etags_fact_def init_system_def init_session_def)

lemma reachable_parts:
  assumes "reachable env \<sigma>" "upload_config_ok (env_config env)"
  shows "parts_ok_system \<sigma>"
  using assms(1)
proof (induction rule: reachable.induct)
  case initial
  then show ?case by (rule parts_ok_system_init)
next
  case (further \<sigma> \<sigma>')
  with assms(2) show ?case by (auto elim!: stepE intro: parts_ok_system_step reachable_control)
qed

end
