(* ===== verification/S3_Upload_Progress.thy ===== *)
theory S3_Upload_Progress
  imports S3_Upload_Parts
begin

text \<open>
  What the threads of an upload session may rely on in every reachable state, whatever the
  interleaving: the counts, the single owner of the cleanup, the abort requests, the assertions of
  the code, and that the session is never stuck.
\<close>

section \<open>Waiting threads\<close>

fun waiting :: "S3UploadSession \<Rightarrow> thread \<Rightarrow> bool" where
  "waiting s (Prepare d l) = (next_offset s < l \<and> primary_error s = None)"
| "waiting s (Ensure p ow) = (initialization_state s = INIT_IN_PROGRESS \<and> primary_error s = None)"
| "waiting s Awaiting = (cleanup_state s \<noteq> COMPLETE)"
| "waiting s Draining = (active_operations s > 0)"
| "waiting s AbortAwaiting = (cleanup_state s \<noteq> COMPLETE)"
| "waiting s _ = False"

lemma thread_moves:
  assumes "th \<noteq> Idle" "\<not> waiting s th"
  shows "\<exists>i. thread_step env i th s \<noteq> None"
proof -
  let ?reply = "Reply (Inl (Exn IOException [] []))"
  have "thread_step env Continue th s \<noteq> None \<or> thread_step env ?reply th s \<noteq> None \<or>
      thread_step env (Memory (\<lambda>n. True)) th s \<noteq> None"
  proof (cases th)
    case (Prepare d l)
    with assms(2) show ?thesis
      by (auto simp: thread_step_defs PrepareStep_def PrepareWrite_def
          split: outcome.splits prod.splits if_splits sum.splits)
  next
    case (ReserveFinal b)
    then show ?thesis
      by (auto simp: thread_step_defs ReserveFinalStep_def ReserveFinalPart_def
          split: outcome.splits prod.splits sum.splits)
  qed (use assms in \<open>auto simp: thread_step_defs session_defs InitializingStep_def PuttingStep_def
      SingleStep_def CompletingStep_def InitializeMultipartUpload_def Upload_def
      CompleteMultipartUpload_def Let_def split: list.splits if_splits option.splits\<close>)
  then show ?thesis by blast
qed

lemma system_moves:
  assumes "threads \<sigma> t \<noteq> Idle" "\<not> waiting (session \<sigma>) (threads \<sigma> t)"
  shows "\<exists>i. system_step env t i \<sigma> \<noteq> None"
  using thread_moves [OF assms] by (auto simp: system_step_def)

lemma control_ok_count:
  assumes "control_ok \<sigma>" "r \<noteq> R_NONE"
  shows "(role_count (threads \<sigma>) r \<noteq> 0) = (\<exists>u. thread_role (threads \<sigma> u) = r)"
  using role_count_pos [of "threads \<sigma>" r] assms by (auto simp: control_ok_def)

lemma role_init: "thread_role th = R_WINIT \<or> thread_role th = R_FINIT \<Longrightarrow> \<exists>p ow. th = Initializing p ow"
  by (cases th) (auto elim!: owner_role.elims)

lemma role_clean: "thread_role th = R_CLEAN \<or> thread_role th = R_ABORT \<Longrightarrow>
    \<exists>u. th = Cleaning u \<or> th = AbortCleaning u"
  by (cases th) (auto elim!: owner_role.elims)

lemma role_waiting:
  assumes "thread_role th \<in> {R_HOLD, R_WINIT, R_FIN, R_FINIT, R_FAIL}" "waiting s th"
    and "\<And>d l. th = Prepare d l \<Longrightarrow> l \<le> next_offset s \<or> primary_error s \<noteq> None"
  shows "initialization_state s = INIT_IN_PROGRESS"
  using assms by (cases th) (auto elim!: owner_role.elims)

lemma init_owner:
  assumes "control_ok \<sigma>" "initialization_state (session \<sigma>) = INIT_IN_PROGRESS"
  shows "\<exists>u p ow. threads \<sigma> u = Initializing p ow"
proof -
  from assms have "role_count (threads \<sigma>) R_WINIT + role_count (threads \<sigma>) R_FINIT = 1"
    by (simp add: control_ok_def control_inv_def)
  then have "role_count (threads \<sigma>) R_WINIT \<noteq> 0 \<or> role_count (threads \<sigma>) R_FINIT \<noteq> 0" by linarith
  with control_ok_count [OF assms(1)] role_init show ?thesis by (metis role.distinct)
qed

lemma clean_owner:
  assumes "control_ok \<sigma>" "cleanup_state (session \<sigma>) = CLEANUP_IN_PROGRESS"
  shows "\<exists>t u. threads \<sigma> t = Cleaning u \<or> threads \<sigma> t = AbortCleaning u"
proof -
  from assms have "role_count (threads \<sigma>) R_CLEAN + role_count (threads \<sigma>) R_ABORT = 1"
    by (simp add: control_ok_def control_inv_def)
  then have "role_count (threads \<sigma>) R_CLEAN \<noteq> 0 \<or> role_count (threads \<sigma>) R_ABORT \<noteq> 0" by linarith
  with control_ok_count [OF assms(1)] role_clean show ?thesis by (metis role.distinct)
qed

lemma holder_exists:
  assumes "control_ok \<sigma>" "active_operations (session \<sigma>) > 0"
  shows "\<exists>u. thread_role (threads \<sigma> u) \<in> {R_HOLD, R_WINIT, R_FIN, R_FINIT, R_FAIL}"
proof (rule ccontr)
  assume none: "\<not> ?thesis"
  have "role_count (threads \<sigma>) r = 0" if "r \<in> {R_HOLD, R_WINIT, R_FIN, R_FINIT, R_FAIL}" for r
    using that none control_ok_count [OF assms(1), of r] by auto
  with assms show False by (simp add: control_ok_def control_inv_def holders_def)
qed

lemma cleanup_pending:
  assumes "control_ok \<sigma>" "primary_error (session \<sigma>) \<noteq> None" "active_operations (session \<sigma>) = 0"
    and "cleanup_state (session \<sigma>) \<noteq> COMPLETE"
  shows "cleanup_state (session \<sigma>) = CLEANUP_IN_PROGRESS"
proof -
  from assms(1) have "primary_error (session \<sigma>) = None \<or> holders (role_count (threads \<sigma>)) \<noteq> 0 \<or>
      cleanup_state (session \<sigma>) \<noteq> NONE"
    and "active_operations (session \<sigma>) = holders (role_count (threads \<sigma>))"
    unfolding control_ok_def control_inv_def by blast+
  with assms(2,3) have "cleanup_state (session \<sigma>) \<noteq> NONE" by auto
  with assms(4) show ?thesis by (cases "cleanup_state (session \<sigma>)") auto
qed

lemma abort_waits_failed:
  assumes "control_ok \<sigma>" "threads \<sigma> t = AbortAwaiting"
  shows "primary_error (session \<sigma>) \<noteq> None"
proof -
  from control_ok_count [OF assms(1), of R_WAIT] assms(2) have "role_count (threads \<sigma>) R_WAIT \<noteq> 0"
    by (metis role.distinct(15) thread_role.simps(22))
  with assms(1) show ?thesis by (auto simp: control_ok_def control_inv_def)
qed

lemma cleaner_unique:
  assumes "control_ok \<sigma>" "thread_role (threads \<sigma> t) \<in> {R_CLEAN, R_ABORT}"
    and "thread_role (threads \<sigma> t') \<in> {R_CLEAN, R_ABORT}"
  shows "t = t'"
proof -
  let ?clean = "{v. thread_role (threads \<sigma> v) = R_CLEAN}" and ?abort = "{v. thread_role (threads \<sigma> v) = R_ABORT}"
  from assms(1) have busy: "few_busy (threads \<sigma>)"
    and count: "role_count (threads \<sigma>) R_CLEAN + role_count (threads \<sigma>) R_ABORT =
      (if cleanup_state (session \<sigma>) = CLEANUP_IN_PROGRESS then 1 else 0)"
    unfolding control_ok_def control_inv_def by blast+
  have fin: "finite ?clean" "finite ?abort" using few_busy_role [OF busy] by auto
  have "card (?clean \<union> ?abort) \<le> card ?clean + card ?abort" by (rule card_Un_le)
  also have "\<dots> \<le> Suc 0" using count by (auto simp: role_count_def split: if_splits)
  finally have "card (?clean \<union> ?abort) \<le> Suc 0" .
  moreover have "t \<in> ?clean \<union> ?abort" "t' \<in> ?clean \<union> ?abort" using assms(2,3) by auto
  ultimately show "t = t'" using fin by (metis card_le_Suc0_iff_eq finite_UnI)
qed

text \<open>Waiting threads have one ahead of them that can step, unless a write waits for earlier bytes.\<close>

lemma session_unstuck:
  assumes "reachable env \<sigma>" "upload_config_ok (env_config env)" "threads \<sigma> t \<noteq> Idle"
    and "\<And>u data location. threads \<sigma> u = Prepare data location \<Longrightarrow>
      location \<le> next_offset (session \<sigma>) \<or> primary_error (session \<sigma>) \<noteq> None"
  shows "\<exists>u i \<sigma>'. threads \<sigma> u \<noteq> Idle \<and> system_step env u i \<sigma> = Some \<sigma>'"
proof (rule ccontr)
  assume "\<not> ?thesis"
  then have stuck: "waiting (session \<sigma>) (threads \<sigma> u)" if "threads \<sigma> u \<noteq> Idle" for u
    using that system_moves [of \<sigma> u env] by blast
  note ok = reachable_control [OF assms(1)] and parts = reachable_parts [OF assms(1,2)]
  have no_init: "initialization_state (session \<sigma>) \<noteq> INIT_IN_PROGRESS"
  proof
    assume "initialization_state (session \<sigma>) = INIT_IN_PROGRESS"
    with init_owner [OF ok] obtain u p ow where "threads \<sigma> u = Initializing p ow" by blast
    with stuck [of u] show False by simp
  qed
  have no_clean: "cleanup_state (session \<sigma>) \<noteq> CLEANUP_IN_PROGRESS"
  proof
    assume "cleanup_state (session \<sigma>) = CLEANUP_IN_PROGRESS"
    with clean_owner [OF ok] obtain v u where "threads \<sigma> v = Cleaning u \<or> threads \<sigma> v = AbortCleaning u"
      by blast
    with stuck [of v] show False by auto
  qed
  have none: "active_operations (session \<sigma>) = 0"
  proof (rule ccontr)
    assume "active_operations (session \<sigma>) \<noteq> 0"
    with holder_exists [OF ok] obtain u where
      u: "thread_role (threads \<sigma> u) \<in> {R_HOLD, R_WINIT, R_FIN, R_FINIT, R_FAIL}" by auto
    then have "threads \<sigma> u \<noteq> Idle" by auto
    with u stuck role_waiting assms(4) no_init show False by blast
  qed
  have failed: "primary_error (session \<sigma>) \<noteq> None" if "threads \<sigma> t = Awaiting"
    using parts that unfolding parts_ok_system_def by (metis thread_fact.simps(1))
  from stuck [OF assms(3)] none no_init no_clean cleanup_pending [OF ok _ none] failed
    abort_waits_failed [OF ok] assms(4)
  show False by (cases "threads \<sigma> t") (auto, fastforce+)
qed

section \<open>Properties\<close>

definition holding :: "thread \<Rightarrow> bool" where
  "holding th \<longleftrightarrow> thread_role th \<in> {R_HOLD, R_WINIT, R_FIN, R_FINIT, R_FAIL}"

text \<open>
  However the threads of a session interleave, \<open>active_operations\<close> is the number of threads
  between \<open>BeginWriteOperation\<close> or \<open>BeginFinalize\<close> and the release of their operation; a thread
  that finalizes is the only one of them, and a finalized or aborted session has none left.
\<close>

theorem active_operations_count:
  assumes "reachable env \<sigma>"
  shows "active_operations (session \<sigma>) = card {t. holding (threads \<sigma> t)} \<and>
    (lifecycle_state (session \<sigma>) = FINALIZING \<longrightarrow> card {t. holding (threads \<sigma> t)} = 1) \<and>
    (lifecycle_state (session \<sigma>) = FINALIZED \<or> lifecycle_state (session \<sigma>) = ABORTED \<longrightarrow>
      {t. holding (threads \<sigma> t)} = {})"
proof -
  note ok = reachable_control [OF assms]
  let ?R = "{R_HOLD, R_WINIT, R_FIN, R_FINIT, R_FAIL}"
  have busy: "few_busy (threads \<sigma>)" and inv: "control_inv (session \<sigma>) (role_count (threads \<sigma>))"
    using ok by (simp_all add: control_ok_def)
  have fin: "finite {t. thread_role (threads \<sigma> t) = r}" if "r \<in> ?R" for r
    using few_busy_role [OF busy] that by auto
  have "{t. holding (threads \<sigma> t)} = (\<Union>r\<in>?R. {t. thread_role (threads \<sigma> t) = r})"
    by (auto simp: holding_def)
  moreover have "card (\<Union>r\<in>?R. {t. thread_role (threads \<sigma> t) = r}) =
      (\<Sum>r\<in>?R. role_count (threads \<sigma>) r)"
    unfolding role_count_def
  proof (rule card_UN_disjoint)
    show "\<forall>r\<in>?R. finite {t. thread_role (threads \<sigma> t) = r}" using fin by blast
  qed (simp, blast)
  ultimately have count: "card {t. holding (threads \<sigma> t)} = holders (role_count (threads \<sigma>))"
    by (simp add: holders_def)
  have fin_all: "finite {t. holding (threads \<sigma> t)}"
    using busy unfolding few_busy_def by (rule rev_finite_subset) (auto simp: holding_def)
  from inv have 1: "active_operations (session \<sigma>) = holders (role_count (threads \<sigma>))"
    and 2: "lifecycle_state (session \<sigma>) \<noteq> FINALIZING \<or> holders (role_count (threads \<sigma>)) = 1"
    and 3: "lifecycle_state (session \<sigma>) \<noteq> FINALIZED \<or> holders (role_count (threads \<sigma>)) = 0"
    and 4: "lifecycle_state (session \<sigma>) \<noteq> ABORTED \<or> holders (role_count (threads \<sigma>)) = 0"
    by (auto simp: control_inv_def)
  have "{t. holding (threads \<sigma> t)} = {}"
    if "lifecycle_state (session \<sigma>) = FINALIZED \<or> lifecycle_state (session \<sigma>) = ABORTED"
  proof -
    from that 3 4 count have "card {t. holding (threads \<sigma> t)} = 0" by auto
    with fin_all show ?thesis by simp
  qed
  with 1 2 count show ?thesis by auto
qed


text \<open>
  C8: The upload of a failed or aborted session is aborted once and by one thread: the number of
  abort requests sent is one as soon as the cleanup is decided, the upload has an id and no request
  ended in doubt; it is zero otherwise, in particular after an ambiguous failure and for a session
  that finalized.
\<close>

theorem aborts_exact:
  assumes "reachable env \<sigma>"
  shows "aborts_sent \<sigma> =
      (if cleanup_state (session \<sigma>) \<noteq> NONE \<and> multipart_upload_id (session \<sigma>) \<noteq> None \<and>
          \<not> abort_suppressed (session \<sigma>) then 1 else 0) \<and>
    (failure_disposition (session \<sigma>) = AMBIGUOUS \<or> lifecycle_state (session \<sigma>) = FINALIZED \<longrightarrow>
      aborts_sent \<sigma> = 0) \<and>
    (\<forall>t t' u u'. (threads \<sigma> t = Cleaning u \<or> threads \<sigma> t = AbortCleaning u) \<and>
      (threads \<sigma> t' = Cleaning u' \<or> threads \<sigma> t' = AbortCleaning u') \<longrightarrow> t = t')"
proof -
  note aborts = reachable_aborts [OF assms] and ok = reachable_control [OF assms]
  have sent: "aborts_sent \<sigma> =
      (if cleanup_state (session \<sigma>) \<noteq> NONE \<and> multipart_upload_id (session \<sigma>) \<noteq> None \<and>
          \<not> abort_suppressed (session \<sigma>) then 1 else 0)"
    using aborts by (simp add: aborts_ok_def aborts_due_def)
  have "lifecycle_state (session \<sigma>) \<noteq> FINALIZED \<or> cleanup_state (session \<sigma>) = NONE"
    using ok unfolding control_ok_def control_inv_def by blast
  with sent aborts have none: "aborts_sent \<sigma> = 0"
    if "failure_disposition (session \<sigma>) = AMBIGUOUS \<or> lifecycle_state (session \<sigma>) = FINALIZED"
    using that by (auto simp: aborts_ok_def doubt_ok_def)
  have "t = t'" if t: "threads \<sigma> t = Cleaning u \<or> threads \<sigma> t = AbortCleaning u"
    and t': "threads \<sigma> t' = Cleaning u' \<or> threads \<sigma> t' = AbortCleaning u'" for t t' u u'
    using cleaner_unique [OF ok, of t t'] t t' by auto
  with sent none show ?thesis by blast
qed

text \<open>
  C9: A session never gets stuck. Unless a write still waits for the bytes that come before its
  location, some thread that is inside an operation can take a step whenever any is inside one: the
  waiting threads always have a thread that initializes, cleans up or holds an operation ahead of
  them.
\<close>

theorem session_progress:
  assumes "reachable env \<sigma>" "upload_config_ok (env_config env)" "threads \<sigma> t \<noteq> Idle"
    and "\<And>u data location. threads \<sigma> u = Prepare data location \<Longrightarrow>
      location \<le> next_offset (session \<sigma>) \<or> primary_error (session \<sigma>) \<noteq> None"
  shows "\<exists>u i \<sigma>'. threads \<sigma> u \<noteq> Idle \<and> system_step env u i \<sigma> = Some \<sigma>'"
  using assms by (rule session_unstuck)

section \<open>Concrete runs\<close>

text \<open>An environment with parts of two bytes, and one with the sizes S3 asks for.\<close>

definition upload_env_of :: "u64 \<Rightarrow> upload_env" where
  "upload_env_of part_size =
     \<lparr>env_config = \<lparr>max_file_size = 80000000000, max_parts = 10000, initial_part_size = part_size,
        growth_interval = 910\<rparr>,
      env_utf8 = ascii_utf8, env_status_text = (\<lambda>n. [''status'']), env_display_path = ''s3://b/k''\<rparr>"

definition sample_response :: "int \<Rightarrow> string \<Rightarrow> string \<Rightarrow> input" where
  "sample_response status etag body = Reply (Inr
     (\<lparr>request_error = False, response_status = status, response_body = body,
       response_header = (\<lambda>h. if h = ''ETag'' then Some etag else None)\<rparr>,
      \<lparr>context_request_type = PUT_REQUEST, context_auth_params = init_auth,
       context_display_url = ''s3://b/k''\<rparr>, body))"

definition initiated :: input where
  "initiated = sample_response 200 []
     ''<InitiateMultipartUploadResult><UploadId>u</UploadId></InitiateMultipartUploadResult>''"

lemma run_witness:
  assumes "run_steps env steps init_system \<noteq> None" "\<And>\<sigma>. reachable env \<sigma> \<Longrightarrow> P \<sigma>"
  shows "case run_steps env steps init_system of None \<Rightarrow> False | Some \<sigma> \<Rightarrow> P \<sigma>"
  using assms run_steps_reachable [OF _ reachable.initial] by (auto split: option.splits)

text \<open>A write whose part is refused: the upload is aborted by the thread that releases last.\<close>

definition refused_part :: "(nat \<times> input) list" where
  "refused_part =
     [(0, StartWrite ''abc'' 0), (0, Memory (\<lambda>n. True)), (0, Continue), (0, Continue), (0, initiated),
      (0, Continue), (0, sample_response 403 [] []), (0, Continue), (0, Continue)]"

lemma sample_initiated:
  "TryParse ascii_utf8 ''<InitiateMultipartUploadResult><UploadId>u</UploadId></InitiateMultipartUploadResult>'' =
     Some \<lparr>response_type = MULTIPART_INITIALIZATION, response_upload_id = ''u'', response_etag = [],
       response_error_code = [], response_error_message = [], response_error_access_key_id = []\<rparr>"
  by code_simp

lemma sample_initiate [simp]:
  "InitializeMultipartUpload ascii_utf8 st (Inr
     (\<lparr>request_error = False, response_status = 200, response_body =
         ''<InitiateMultipartUploadResult><UploadId>u</UploadId></InitiateMultipartUploadResult>'',
       response_header = h\<rparr>, ctx,
      ''<InitiateMultipartUploadResult><UploadId>u</UploadId></InitiateMultipartUploadResult>'')) = Inr ''u''"
  unfolding InitializeMultipartUpload_def by (simp add: sample_initiated IsSuccessfulStatus_def)

lemma sample_prepare [simp]:
  "PrepareParts \<lparr>max_file_size = 80000000000, max_parts = 10000, initial_part_size = 2, growth_interval = 910\<rparr>
     alloc ''abc'' [] None = Inr ([[]], \<lparr>prepared_parts = [\<lparr>part_number = 1, part_data = ''abc''\<rparr>],
       prepared_buffer = None\<rparr>)"
  by (simp add: PrepareParts_def PrepareBuffered_def PrepareLoop.simps PartSize_def SizingPartSize_def
      ReservePart_def HasPartCapacity_def max_part_nat)

lemma refused_part_run:
  "map_option aborts_sent (run_steps (upload_env_of 2) refused_part init_system) = Some 1"
  by (simp add: refused_part_def upload_env_of_def initiated_def sample_response_def system_step_def
      init_system_def init_session_def thread_step_defs session_defs PrepareStep_def InitializingStep_def
      Let_def PublishInitialization_def PuttingStep_def Upload_def ReleaseStep_def ReleaseOperation_def
      LatchFailureLocked_def GetStatusError_def)

lemma refused_part_state:
  obtains \<sigma> where "run_steps (upload_env_of 2) refused_part init_system = Some \<sigma>"
    and "reachable (upload_env_of 2) \<sigma>" "aborts_sent \<sigma> = 1"
  using refused_part_run run_steps_reachable [OF _ reachable.initial] by (auto simp: map_option_case split: option.splits)

theorem aborts_exact_witness:
  "\<exists>\<sigma>. run_steps (upload_env_of 2) refused_part init_system = Some \<sigma> \<and> aborts_sent \<sigma> = 1 \<and>
    aborts_sent \<sigma> = (if cleanup_state (session \<sigma>) \<noteq> NONE \<and> multipart_upload_id (session \<sigma>) \<noteq> None \<and>
      \<not> abort_suppressed (session \<sigma>) then 1 else 0)"
proof -
  obtain \<sigma> where \<sigma>: "run_steps (upload_env_of 2) refused_part init_system = Some \<sigma>"
    "reachable (upload_env_of 2) \<sigma>" "aborts_sent \<sigma> = 1" by (rule refused_part_state)
  then show ?thesis using aborts_exact [OF \<sigma>(2)] by blast
qed

text \<open>A write that has been admitted.\<close>

lemma admitted_write:
  obtains \<sigma> where "run_steps (upload_env_of 5242880) [(7, StartWrite ''a'' 0)] init_system = Some \<sigma>"
    and "reachable (upload_env_of 5242880) \<sigma>" "threads \<sigma> = (\<lambda>t. Idle)(7 := Prepare ''a'' 0)"
    and "active_operations (session \<sigma>) = 1" "next_offset (session \<sigma>) = 0"
proof -
  have run: "run_steps (upload_env_of 5242880) [(7, StartWrite ''a'' 0)] init_system =
      Some (init_system\<lparr>session := init_session\<lparr>active_operations := 1\<rparr>,
        threads := (\<lambda>t. Idle)(7 := Prepare ''a'' 0)\<rparr>)"
    by (simp add: system_step_def init_system_def init_session_def thread_step_defs session_defs)
  from that [OF run run_steps_reachable [OF run reachable.initial]] show ?thesis
    by (simp add: init_session_def)
qed

theorem session_progress_witness:
  "\<exists>\<sigma> u i \<sigma>'. run_steps (upload_env_of 5242880) [(7, StartWrite ''a'' 0)] init_system = Some \<sigma> \<and>
     threads \<sigma> u \<noteq> Idle \<and> system_step (upload_env_of 5242880) u i \<sigma> = Some \<sigma>'"
proof -
  obtain \<sigma> where \<sigma>: "run_steps (upload_env_of 5242880) [(7, StartWrite ''a'' 0)] init_system = Some \<sigma>"
    "reachable (upload_env_of 5242880) \<sigma>" "threads \<sigma> = (\<lambda>t. Idle)(7 := Prepare ''a'' 0)"
    "next_offset (session \<sigma>) = 0"
    by (rule admitted_write)
  have config: "upload_config_ok (env_config (upload_env_of 5242880))"
    by (simp add: upload_config_ok_def upload_env_of_def)
  have busy: "threads \<sigma> 7 \<noteq> Idle" using \<sigma>(3) by simp
  have "\<exists>u i \<sigma>'. threads \<sigma> u \<noteq> Idle \<and> system_step (upload_env_of 5242880) u i \<sigma> = Some \<sigma>'"
  proof (rule session_progress [OF \<sigma>(2) config busy])
    fix u data location
    assume "threads \<sigma> u = Prepare data location"
    then show "location \<le> next_offset (session \<sigma>) \<or> primary_error (session \<sigma>) \<noteq> None"
      using \<sigma>(3,4) by (auto split: if_splits)
  qed
  with \<sigma>(1) show ?thesis by blast
qed

theorem active_operations_count_witness:
  "\<exists>\<sigma>. run_steps (upload_env_of 5242880) [(7, StartWrite ''a'' 0)] init_system = Some \<sigma> \<and>
     card {t. holding (threads \<sigma> t)} = 1"
proof -
  obtain \<sigma> where \<sigma>: "run_steps (upload_env_of 5242880) [(7, StartWrite ''a'' 0)] init_system = Some \<sigma>"
    "reachable (upload_env_of 5242880) \<sigma>" "active_operations (session \<sigma>) = 1"
    by (rule admitted_write)
  with active_operations_count [OF \<sigma>(2)] show ?thesis by simp
qed

end
