(* ===== verification/S3_Upload_Correct.thy ===== *)
theory S3_Upload_Correct
  imports S3_Upload_Progress
begin

text \<open>
  The contents of an upload: whatever the interleaving of the threads of a session, the object that
  the server has after a successful \<open>Finalize\<close> is the bytes that were written, in order.
\<close>

section \<open>Sessions without a failure\<close>

definition live :: "system \<Rightarrow> bool" where
  "live \<sigma> \<longleftrightarrow>
     primary_error (session \<sigma>) = None \<and> lifecycle_state (session \<sigma>) \<notin> {ABORTING, ABORTED} \<and>
     (\<forall>t. thread_role (threads \<sigma> t) \<noteq> R_FAIL)"

lemma owner_role_case: "owner_role w f ow = (case ow of WRITING ps \<Rightarrow> w | FINISHING \<Rightarrow> f)"
  by (cases ow) simp_all

definition finalizer :: "thread \<Rightarrow> bool" where
  "finalizer th \<longleftrightarrow> thread_role th = R_FIN \<or> thread_role th = R_FINIT"

lemma fin_role:
  assumes "control_inv s (plus_one R_FIN c)"
  shows "lifecycle_state s = FINALIZING"
  using assms by (auto simp: control_inv_def plus_one_def)

lemma aborted_stays:
  assumes "thread_step env i th s = Some (th', s', ev)" "control_inv s (plus_one (thread_role th) c)"
    and "lifecycle_state s \<in> {ABORTING, ABORTED}"
  shows "lifecycle_state s' \<in> {ABORTING, ABORTED}"
proof (cases th)
  case Idle
  with assms(1,3) show ?thesis
    by (auto simp: thread_step_defs session_defs split: input.splits if_splits LifecycleState.splits)
next
  case (Ensure p ow)
  with assms(1,3) show ?thesis
    by (auto simp: thread_step_defs session_defs split: input.splits if_splits)
next
  case (Initializing p ow)
  with assms(1,3) show ?thesis
    by (auto simp: thread_step_defs InitializingStep_def PublishInitialization_def Let_def
        PublishInitializationFailure_def split: input.splits sum.splits if_splits)
next
  case Claimed
  with assms(1,3) show ?thesis
    by (auto simp: thread_step_defs ReleaseStep_def ReleaseOperation_def Let_def
        split: input.splits if_splits option.splits)
next
  case Releasing
  with assms(1,3) show ?thesis
    by (auto simp: thread_step_defs ReleaseStep_def ReleaseOperation_def Let_def
        split: input.splits if_splits option.splits)
next
  case Draining
  with assms(1,3) show ?thesis
    by (auto simp: thread_step_defs DrainStep_def AbortDrain_def Let_def
        split: input.splits if_splits option.splits)
next
  case Finishing
  with assms(2,3) fin_role [of s c] show ?thesis by auto
next
  case (Failing d e)
  with assms(1,3) show ?thesis
    by (auto simp: thread_step_defs split: input.splits)
next
  case (Cleaning u)
  with assms(1,3) show ?thesis
    by (auto simp: thread_step_defs FinishCleanup_def split: input.splits)
next
  case AbortAwaiting
  with assms(1,3) show ?thesis
    by (auto simp: thread_step_defs session_defs split: input.splits if_splits)
next
  case (AbortCleaning u)
  with assms(1,3) show ?thesis
    by (auto simp: thread_step_defs AbortFinish_def split: input.splits)
qed (use assms(3) in \<open>simp add: quiet_write(1) [OF assms(1), unfolded same_control_def, THEN conjunct1]\<close>)+

lemma live_back:
  assumes run: "thread_step env i (threads \<sigma> t) (session \<sigma>) = Some (th, s, ev)"
    and \<sigma>': "\<sigma>' = (observe ev \<sigma>)\<lparr>session := s, threads := (threads \<sigma>)(t := th)\<rparr>"
    and "control_ok \<sigma>" "live \<sigma>'"
  shows "live \<sigma>"
proof -
  note inv = control_around [OF assms(3), of t]
  from assms(4) have s: "primary_error s = None" "lifecycle_state s \<notin> {ABORTING, ABORTED}"
    and roles: "\<And>u. u \<noteq> t \<Longrightarrow> thread_role (threads \<sigma> u) \<noteq> R_FAIL"
    by (auto simp: live_def \<sigma>' split: if_splits)
  have "primary_error (session \<sigma>) = None"
    using stable_step [OF run inv] s(1) by (auto simp: stable_def)
  moreover have "lifecycle_state (session \<sigma>) \<notin> {ABORTING, ABORTED}"
    using aborted_stays [OF run inv] s(2) by blast
  moreover have "thread_role (threads \<sigma> t) \<noteq> R_FAIL"
  proof
    assume "thread_role (threads \<sigma> t) = R_FAIL"
    then obtain d e where "threads \<sigma> t = Failing d e"
      by (cases "threads \<sigma> t") (auto elim!: owner_role.elims)
    with run s(1) show False by (auto simp: thread_step_defs split: input.splits)
  qed
  ultimately show ?thesis using roles by (auto simp: live_def) (metis)
qed

text \<open>While one thread finalizes, the others do nothing to the session.\<close>

lemma others_pos:
  assumes "few_busy T" "u \<noteq> t" "thread_role (T u) = r" "r \<noteq> R_NONE"
  shows "others T t r \<noteq> 0"
proof -
  have "finite {v. v \<noteq> t \<and> thread_role (T v) = r}"
    using few_busy_role [OF assms(1,4)] by (rule rev_finite_subset) auto
  with assms(2,3) show ?thesis unfolding others_def by auto
qed

lemma finalizer_other:
  assumes "control_inv s (plus_one r c)" "c R_FIN + c R_FINIT \<noteq> 0"
  shows "lifecycle_state s = FINALIZING" "r \<notin> {R_HOLD, R_WINIT, R_FIN, R_FINIT, R_FAIL}"
    "r \<notin> {R_DRAIN, R_WAIT, R_ABORT, R_CLEAN}"
proof -
  let ?c = "plus_one r c"
  from assms(1) have 1: "?c R_FIN + ?c R_FINIT = 0 \<or> lifecycle_state s = FINALIZING"
    and 2: "lifecycle_state s \<noteq> FINALIZING \<or>
        holders ?c = 1 \<and> ?c R_HOLD = 0 \<and> ?c R_WINIT = 0 \<and> primary_error s = None"
    and 3: "?c R_DRAIN + ?c R_WAIT + ?c R_ABORT = (if lifecycle_state s = ABORTING then 1 else 0)"
    and 4: "cleanup_state s = NONE \<or> holders ?c = 0 \<and>
        (primary_error s \<noteq> None \<or> lifecycle_state s = ABORTING \<or> lifecycle_state s = ABORTED)"
    and 5: "?c R_CLEAN + ?c R_ABORT = (if cleanup_state s = CLEANUP_IN_PROGRESS then 1 else 0)"
    by (simp_all only: control_inv_def)
  from 1 assms(2) show fin: "lifecycle_state s = FINALIZING" by (auto simp: plus_one_def split: if_splits)
  show "r \<notin> {R_HOLD, R_WINIT, R_FIN, R_FINIT, R_FAIL}"
    using 2 fin assms(2) by (auto simp: plus_one_def holders_def)
  show "r \<notin> {R_DRAIN, R_WAIT, R_ABORT, R_CLEAN}"
    using 2 3 4 5 fin by (auto simp: plus_one_def split: if_splits)
qed

lemma finalizing_others:
  assumes run: "thread_step env i (threads \<sigma> t) (session \<sigma>) = Some (th, s, ev)"
    and "control_ok \<sigma>" "u \<noteq> t" "finalizer (threads \<sigma> u)"
  shows "s = session \<sigma> \<and> ev = Silent \<and> th = Idle"
proof -
  let ?c = "others (threads \<sigma>) t"
  have "?c R_FIN + ?c R_FINIT \<noteq> 0"
    using others_pos [of "threads \<sigma>" u t] assms(2-4) by (auto simp: finalizer_def control_ok_def)
  note other = finalizer_other [OF control_around [OF assms(2)] this]
  have "threads \<sigma> t = Idle \<or> threads \<sigma> t = Awaiting"
    using other(2,3) by (cases "threads \<sigma> t") (simp_all add: owner_role_case split: part_owner.splits)
  with run other(1) show ?thesis
    by (auto simp: thread_step_defs session_defs split: input.splits if_splits)
qed

section \<open>The data invariant\<close>

definition settled :: "system \<Rightarrow> bool" where
  "settled \<sigma> \<longleftrightarrow> written \<sigma> = concat (reserved \<sigma>)"

text \<open>What a thread that is at a given point knows about the data.\<close>

fun phase :: "system \<Rightarrow> thread \<Rightarrow> bool" where
  "phase \<sigma> (Ensure p ow) = (ow = FINISHING \<longrightarrow> settled \<sigma>)"
| "phase \<sigma> (Initializing p ow) = (ow = FINISHING \<longrightarrow> settled \<sigma>)"
| "phase \<sigma> (CheckUpload p ow u) = (ow = FINISHING \<longrightarrow> settled \<sigma>)"
| "phase \<sigma> (Putting p ow u) = (ow = FINISHING \<longrightarrow> settled \<sigma>)"
| "phase \<sigma> (Storing p ow e) = ((ow = FINISHING \<longrightarrow> settled \<sigma>) \<and> stored \<sigma> (part_number p) \<noteq> None)"
| "phase \<sigma> (Decide b) = (written \<sigma> = concat (reserved \<sigma>) @ buffer_bytes b)"
| "phase \<sigma> (Single b) =
     (written \<sigma> = concat (reserved \<sigma>) @ buffer_bytes b \<and> part_etags (session \<sigma>) = [])"
| "phase \<sigma> (ReserveFinal b) = (written \<sigma> = concat (reserved \<sigma>) @ buffer_data b)"
| "phase \<sigma> CheckFinal = settled \<sigma>"
| "phase \<sigma> Snapshot = settled \<sigma>"
| "phase \<sigma> (Completing sn) =
     (settled \<sigma> \<and> snapshot_etags sn = part_etags (session \<sigma>) \<and> [] \<notin> set (part_etags (session \<sigma>)))"
| "phase \<sigma> Finishing = (stored_object \<sigma> = Some (written \<sigma>))"
| "phase \<sigma> _ = True"

definition hand_data :: "system \<Rightarrow> thread \<Rightarrow> bool" where
  "hand_data \<sigma> th \<longleftrightarrow> (\<forall>p\<in>set (hand th). 0 < part_number p \<and> part_number p \<le> length (reserved \<sigma>) \<and>
     part_data p = reserved \<sigma> ! (part_number p - 1))"

definition stored_ok :: "system \<Rightarrow> bool" where
  "stored_ok \<sigma> \<longleftrightarrow>
     length (written \<sigma>) = next_offset (session \<sigma>) \<and>
     length (reserved \<sigma>) = length (part_etags (session \<sigma>)) \<and>
     (\<forall>n d. stored \<sigma> n = Some d \<longrightarrow> 0 < n \<and> n \<le> length (reserved \<sigma>) \<and> d = reserved \<sigma> ! (n - 1)) \<and>
     (\<forall>k<length (part_etags (session \<sigma>)). part_etags (session \<sigma>) ! k \<noteq> [] \<longrightarrow> stored \<sigma> (Suc k) \<noteq> None)"

definition buffer_inv :: "system \<Rightarrow> bool" where
  "buffer_inv \<sigma> \<longleftrightarrow>
     (lifecycle_state (session \<sigma>) = ACTIVE \<longrightarrow>
        written \<sigma> = concat (reserved \<sigma>) @ buffer_bytes (buffered_part (session \<sigma>))) \<and>
     (lifecycle_state (session \<sigma>) = FINALIZED \<longrightarrow> stored_object \<sigma> = Some (written \<sigma>))"

definition data_inv :: "system \<Rightarrow> bool" where
  "data_inv \<sigma> \<longleftrightarrow> stored_ok \<sigma> \<and> buffer_inv \<sigma> \<and> (\<forall>t. hand_data \<sigma> (threads \<sigma> t) \<and> phase \<sigma> (threads \<sigma> t))"

lemmas data_defs = stored_ok_def buffer_inv_def hand_data_def

text \<open>The record of the system only grows.\<close>

definition extends :: "system \<Rightarrow> system \<Rightarrow> bool" where
  "extends \<sigma> \<sigma>' \<longleftrightarrow> (\<exists>x. reserved \<sigma>' = reserved \<sigma> @ x) \<and>
     (\<forall>n. stored \<sigma> n \<noteq> None \<longrightarrow> stored \<sigma>' n \<noteq> None)"

lemma nth_grow: "0 < n \<Longrightarrow> n \<le> length xs \<Longrightarrow> (xs @ ys) ! (n - 1) = xs ! (n - 1)"
  by (cases n) (simp_all add: nth_append)

lemma hand_data_extends: "extends \<sigma> \<sigma>' \<Longrightarrow> hand_data \<sigma> th \<Longrightarrow> hand_data \<sigma>' th"
  unfolding extends_def hand_data_def by (metis nth_grow length_append trans_le_add1)

lemma phase_extends:
  assumes "extends \<sigma> \<sigma>'" "phase \<sigma> th" "\<not> finalizer th"
  shows "phase \<sigma>' th"
  using assms
  by (cases th) (auto simp: extends_def finalizer_def owner_role_case split: part_owner.splits)

lemma observe_extends: "extends \<sigma> (observe ev \<sigma>)"
  by (cases ev) (auto simp: extends_def)

lemma extends_frame [simp]:
  "extends \<sigma> (\<sigma>'\<lparr>session := s, threads := T\<rparr>) = extends \<sigma> \<sigma>'"
  by (simp add: extends_def)

definition data_goal :: "system \<Rightarrow> thread \<Rightarrow> bool" where
  "data_goal \<sigma> th \<longleftrightarrow> stored_ok \<sigma> \<and> buffer_inv \<sigma> \<and> hand_data \<sigma> th \<and> phase \<sigma> th"

text \<open>A step that only moves its thread.\<close>

lemma data_quiet:
  assumes "data_inv \<sigma>" "\<sigma>' = \<sigma>\<lparr>session := s, threads := T\<rparr>"
    and "next_offset s = next_offset (session \<sigma>)" "part_etags s = part_etags (session \<sigma>)"
    and "lifecycle_state s = ACTIVE \<Longrightarrow>
      lifecycle_state (session \<sigma>) = ACTIVE \<and> buffered_part s = buffered_part (session \<sigma>)"
    and "lifecycle_state s = FINALIZED \<Longrightarrow>
      lifecycle_state (session \<sigma>) = FINALIZED \<or> stored_object \<sigma> = Some (written \<sigma>)"
    and "hand th = hand (threads \<sigma> t) \<or> hand th = []" "phase \<sigma>' th"
  shows "data_goal \<sigma>' th"
proof -
  from assms(1) have "stored_ok \<sigma>" "buffer_inv \<sigma>" "hand_data \<sigma> (threads \<sigma> t)"
    by (auto simp: data_inv_def)
  with assms(2-8) show ?thesis
    by (auto simp: data_goal_def stored_ok_def buffer_inv_def hand_data_def)
qed

lemma hold_active:
  assumes "control_inv s (plus_one r c)" "r = R_HOLD \<or> r = R_WINIT" "primary_error s = None"
    and "lifecycle_state s \<notin> {ABORTING, ABORTED}"
  shows "lifecycle_state s = ACTIVE"
proof -
  let ?c = "plus_one r c"
  from assms(1) have 1: "lifecycle_state s \<noteq> FINALIZING \<or>
        holders ?c = 1 \<and> ?c R_HOLD = 0 \<and> ?c R_WINIT = 0 \<and> primary_error s = None"
    and 2: "lifecycle_state s \<noteq> FINALIZED \<or> holders ?c = 0 \<and> primary_error s = None \<and> cleanup_state s = NONE"
    by (simp_all only: control_inv_def)
  with assms(2,4) show ?thesis
    by (cases "lifecycle_state s") (auto simp: plus_one_def holders_def)
qed

lemma fin_finalizing:
  assumes "control_inv s (plus_one r c)" "r = R_FIN \<or> r = R_FINIT"
  shows "lifecycle_state s = FINALIZING"
proof -
  from assms(1) have "plus_one r c R_FIN + plus_one r c R_FINIT = 0 \<or> lifecycle_state s = FINALIZING"
    by (simp_all only: control_inv_def)
  with assms(2) show ?thesis by (auto simp: plus_one_def)
qed

text \<open>The preparation of a write: the new parts and the buffer are what was there and the data.\<close>

lemma data_prepare:
  assumes "data_inv \<sigma>" "upload_config_ok config" "buffer_ok (buffered_part (session \<sigma>))"
    and "lifecycle_state (session \<sigma>) = ACTIVE"
    and run: "PrepareWrite config alloc data location (session \<sigma>) = (Done ps, s)"
    and \<sigma>': "\<sigma>' = (observe (Written data ps) \<sigma>)\<lparr>session := s, threads := T\<rparr>"
  shows "data_goal \<sigma>' (Parts ps)"
proof -
  let ?s = "session \<sigma>"
  from run obtain etags w where parts: "PrepareParts config alloc data (part_etags ?s) (buffered_part ?s) = Inr (etags, w)"
    and s: "s = ?s\<lparr>part_etags := etags, buffered_part := prepared_buffer w, next_offset := next_offset ?s + length data\<rparr>"
    and ps: "ps = prepared_parts w"
    by (auto simp: PrepareWrite_def split: if_splits sum.splits)
  from PrepareParts_ok [OF parts assms(2,3)]
  have etags: "etags = part_etags ?s @ replicate (length ps) []"
    and numbers: "map part_number ps = map Suc [length (part_etags ?s)..<length (part_etags ?s) + length ps]"
    and bytes: "concat (map part_data ps) @ buffer_bytes (prepared_buffer w) = buffer_bytes (buffered_part ?s) @ data"
    by (simp_all add: prepared_ok_def parts_ok_def ps part_bytes_def)
  from assms(1,4) have ok: "stored_ok \<sigma>" and buf: "written \<sigma> = concat (reserved \<sigma>) @ buffer_bytes (buffered_part ?s)"
    by (auto simp: data_inv_def buffer_inv_def)
  from ok have len: "length (reserved \<sigma>) = length (part_etags ?s)" by (simp add: stored_ok_def)
  have st: "0 < n \<and> n \<le> length (reserved \<sigma>) \<and> d = reserved \<sigma> ! (n - 1)" if "stored \<sigma> n = Some d" for n d
    using ok that unfolding stored_ok_def by blast
  have sl: "stored \<sigma> (Suc k) \<noteq> None" if "k < length (part_etags ?s)" "part_etags ?s ! k \<noteq> []" for k
    using ok that by (simp add: stored_ok_def)
  have "stored_ok \<sigma>'"
    unfolding stored_ok_def
  proof (intro conjI allI impI)
    show "length (written \<sigma>') = next_offset (session \<sigma>')" using ok by (simp add: \<sigma>' s stored_ok_def)
    show "length (reserved \<sigma>') = length (part_etags (session \<sigma>'))" using len by (simp add: \<sigma>' s etags)
    fix n d assume "stored \<sigma>' n = Some d"
    then have "stored \<sigma> n = Some d" by (simp add: \<sigma>')
    from st [OF this] show "0 < n" "n \<le> length (reserved \<sigma>')" "d = reserved \<sigma>' ! (n - 1)"
      using nth_grow [of n "reserved \<sigma>"] by (simp_all add: \<sigma>')
  next
    fix k assume "k < length (part_etags (session \<sigma>'))" "part_etags (session \<sigma>') ! k \<noteq> []"
    then show "stored \<sigma>' (Suc k) \<noteq> None"
      using sl [of k] by (auto simp: \<sigma>' s etags nth_append split: if_splits)
  qed
  moreover have "buffer_inv \<sigma>'"
    using buf bytes assms(4) by (simp add: buffer_inv_def \<sigma>' s)
  moreover have "hand_data \<sigma>' (Parts ps)"
    unfolding hand_data_def
  proof
    fix p assume "p \<in> set (hand (Parts ps))"
    then obtain j where j: "j < length ps" "p = ps ! j" by (auto simp: in_set_conv_nth)
    have "part_number p = map part_number ps ! j" using j by simp
    also have "\<dots> = Suc (length (part_etags ?s) + j)" using j unfolding numbers by simp
    finally show "0 < part_number p \<and> part_number p \<le> length (reserved \<sigma>') \<and>
        part_data p = reserved \<sigma>' ! (part_number p - 1)"
      using j len by (simp add: \<sigma>' nth_append)
  qed
  ultimately show ?thesis by (simp add: data_goal_def)
qed

text \<open>The answer to the upload of a part.\<close>

lemma data_put:
  assumes "data_inv \<sigma>" "threads \<sigma> t = Putting p ow u"
    and \<sigma>': "\<sigma>' = (observe (Stored (part_number p) (part_data p)) \<sigma>)\<lparr>session := session \<sigma>, threads := T\<rparr>"
  shows "data_goal \<sigma>' (Storing p ow etag)"
proof -
  from assms(1,2) have ok: "stored_ok \<sigma>" "buffer_inv \<sigma>" and hand: "hand_data \<sigma> (Putting p ow u)"
    and phase: "phase \<sigma> (Putting p ow u)" unfolding data_inv_def by metis+
  from hand have p: "0 < part_number p" "part_number p \<le> length (reserved \<sigma>)"
    "part_data p = reserved \<sigma> ! (part_number p - 1)" by (auto simp: hand_data_def)
  have "stored_ok \<sigma>'" using ok(1) p by (auto simp: stored_ok_def \<sigma>')
  moreover have "buffer_inv \<sigma>'" using ok(2) by (simp add: buffer_inv_def \<sigma>')
  ultimately show ?thesis using hand phase
    by (auto simp: data_goal_def hand_data_def settled_def \<sigma>')
qed

lemma data_store:
  assumes "data_inv \<sigma>" "threads \<sigma> t = Storing p ow e"
    and \<sigma>': "\<sigma>' = \<sigma>\<lparr>session := (session \<sigma>)\<lparr>part_etags := (part_etags (session \<sigma>))[part_number p - 1 := e]\<rparr>,
      threads := T\<rparr>"
  shows "data_goal \<sigma>' (after_part ow)"
proof -
  from assms(1,2) have ok: "stored_ok \<sigma>" "buffer_inv \<sigma>" and hand: "hand_data \<sigma> (Storing p ow e)"
    and phase: "phase \<sigma> (Storing p ow e)" unfolding data_inv_def by metis+
  from hand have p: "0 < part_number p" by (auto simp: hand_data_def)
  from phase have "stored \<sigma> (Suc (part_number p - 1)) \<noteq> None" using p by simp
  then have "stored \<sigma> (Suc k) \<noteq> None"
    if "k < length (part_etags (session \<sigma>))" "(part_etags (session \<sigma>))[part_number p - 1 := e] ! k \<noteq> []" for k
    using that ok(1) by (cases "k = part_number p - 1") (auto simp: stored_ok_def)
  then have "stored_ok \<sigma>'" using ok(1) unfolding stored_ok_def \<sigma>' by auto
  moreover have "buffer_inv \<sigma>'" using ok(2) by (simp add: buffer_inv_def \<sigma>')
  ultimately show ?thesis using hand phase
    by (cases ow) (auto simp: data_goal_def hand_data_def settled_def after_part_def \<sigma>')
qed

lemma data_reserve:
  assumes "data_inv \<sigma>" "threads \<sigma> t = ReserveFinal b"
    and "lifecycle_state (session \<sigma>) = FINALIZING"
    and \<sigma>': "\<sigma>' = (observe (Reserved (buffer_data b)) \<sigma>)\<lparr>
      session := (session \<sigma>)\<lparr>part_etags := part_etags (session \<sigma>) @ [[]]\<rparr>, threads := T\<rparr>"
  shows "data_goal \<sigma>' (Ensure \<lparr>part_number = length (part_etags (session \<sigma>)) + 1, part_data = buffer_data b\<rparr> FINISHING)"
proof -
  from assms(1,2) have ok: "stored_ok \<sigma>" and phase: "phase \<sigma> (ReserveFinal b)"
    unfolding data_inv_def by metis+
  from ok have len: "length (reserved \<sigma>) = length (part_etags (session \<sigma>))" by (simp add: stored_ok_def)
  have "0 < n \<and> n \<le> length (reserved \<sigma>) \<and> d = reserved \<sigma> ! (n - 1)" if "stored \<sigma> n = Some d" for n d
    using ok that unfolding stored_ok_def by blast
  then have "0 < n \<and> n \<le> length (reserved \<sigma>') \<and> d = reserved \<sigma>' ! (n - 1)" if "stored \<sigma>' n = Some d" for n d
    using that nth_grow [of n "reserved \<sigma>" "[buffer_data b]"] by (fastforce simp: \<sigma>')
  moreover have "stored \<sigma>' (Suc k) \<noteq> None"
    if "k < length (part_etags (session \<sigma>'))" "part_etags (session \<sigma>') ! k \<noteq> []" for k
    using that ok by (auto simp: \<sigma>' nth_append stored_ok_def less_Suc_eq split: if_splits)
  moreover have "length (written \<sigma>') = next_offset (session \<sigma>')" "length (reserved \<sigma>') = length (part_etags (session \<sigma>'))"
    using ok by (simp_all add: \<sigma>' stored_ok_def)
  ultimately have "stored_ok \<sigma>'" unfolding stored_ok_def by blast
  moreover have "buffer_inv \<sigma>'" using assms(3) by (simp add: buffer_inv_def \<sigma>')
  ultimately show ?thesis using phase len
    by (simp add: data_goal_def hand_data_def settled_def \<sigma>' nth_append)
qed

text \<open>The object of a single upload, and of a completed multipart upload.\<close>

lemma data_single:
  assumes "data_inv \<sigma>" "threads \<sigma> t = Single b" "lifecycle_state (session \<sigma>) = FINALIZING"
    and \<sigma>': "\<sigma>' = (observe (StoredObject (buffer_bytes b)) \<sigma>)\<lparr>session := session \<sigma>, threads := T\<rparr>"
  shows "data_goal \<sigma>' Finishing"
proof -
  from assms(1,2) have ok: "stored_ok \<sigma>" and phase: "phase \<sigma> (Single b)"
    unfolding data_inv_def by metis+
  then have "reserved \<sigma> = []" by (simp add: stored_ok_def)
  with ok phase assms(3) show ?thesis
    by (simp add: data_goal_def \<sigma>' stored_ok_def buffer_inv_def hand_data_def)
qed

lemma stored_concat:
  assumes "stored_ok \<sigma>" "[] \<notin> set (part_etags (session \<sigma>))"
  shows "map (\<lambda>n. the (stored \<sigma> (Suc n))) [0..<length (part_etags (session \<sigma>))] = reserved \<sigma>"
proof (rule nth_equalityI)
  show "length (map (\<lambda>n. the (stored \<sigma> (Suc n))) [0..<length (part_etags (session \<sigma>))]) = length (reserved \<sigma>)"
    using assms(1) by (simp add: stored_ok_def)
  fix k assume "k < length (map (\<lambda>n. the (stored \<sigma> (Suc n))) [0..<length (part_etags (session \<sigma>))])"
  then have k: "k < length (part_etags (session \<sigma>))" by simp
  with assms(2) have "part_etags (session \<sigma>) ! k \<noteq> []" by (metis nth_mem)
  with k assms(1) obtain d where d: "stored \<sigma> (Suc k) = Some d" unfolding stored_ok_def by blast
  with assms(1) have "d = reserved \<sigma> ! (Suc k - 1)" unfolding stored_ok_def by blast
  with k d show "map (\<lambda>n. the (stored \<sigma> (Suc n))) [0..<length (part_etags (session \<sigma>))] ! k = reserved \<sigma> ! k"
    by simp
qed

lemma data_complete:
  assumes "data_inv \<sigma>" "threads \<sigma> t = Completing sn" "lifecycle_state (session \<sigma>) = FINALIZING"
    and \<sigma>': "\<sigma>' = (observe (Completed (snapshot_etags sn)) \<sigma>)\<lparr>session := session \<sigma>, threads := T\<rparr>"
  shows "data_goal \<sigma>' Finishing"
proof -
  from assms(1,2) have ok: "stored_ok \<sigma>" and phase: "phase \<sigma> (Completing sn)"
    unfolding data_inv_def by metis+
  have "stored_object \<sigma>' = Some (written \<sigma>')"
    using phase stored_concat [OF ok] by (simp add: \<sigma>' settled_def)
  with ok assms(3) show ?thesis
    by (auto simp: data_goal_def \<sigma>' stored_ok_def buffer_inv_def hand_data_def)
qed

lemma data_thread_step:
  assumes run: "thread_step env i (threads \<sigma> t) (session \<sigma>) = Some (th, s, ev)"
    and \<sigma>': "\<sigma>' = (observe ev \<sigma>)\<lparr>session := s, threads := (threads \<sigma>)(t := th)\<rparr>"
    and inv: "control_inv (session \<sigma>) (plus_one (thread_role (threads \<sigma> t)) c)"
    and data: "data_inv \<sigma>" and live: "live \<sigma>" "live \<sigma>'"
    and config: "upload_config_ok (env_config env)" "buffer_ok (buffered_part (session \<sigma>))"
  shows "data_goal \<sigma>' th"
proof -
  from live have s: "primary_error s = None" "lifecycle_state s \<notin> {ABORTING, ABORTED}"
    and role: "thread_role th \<noteq> R_FAIL"
    and s0: "primary_error (session \<sigma>) = None" "lifecycle_state (session \<sigma>) \<notin> {ABORTING, ABORTED}"
    by (auto simp: live_def \<sigma>' split: if_splits)
  note active = hold_active [OF inv _ s0] and finalizing = fin_finalizing [OF inv]
  have phase: "phase \<sigma> (threads \<sigma> t)" using data by (simp add: data_inv_def)
  note quiet = data_quiet [OF data, where t = t and s = s and th = th and T = "(threads \<sigma>)(t := th)"]
  have start: "lifecycle_state (session \<sigma>) \<noteq> FINALIZING \<Longrightarrow> lifecycle_state (session \<sigma>) \<noteq> FINALIZED \<Longrightarrow>
      written \<sigma> = concat (reserved \<sigma>) @ buffer_bytes (buffered_part (session \<sigma>))"
    using data s0(2) by (cases "lifecycle_state (session \<sigma>)") (auto simp: data_inv_def buffer_inv_def)
  show ?thesis
  proof (cases "threads \<sigma> t")
    case Idle
    with run s role s0 \<sigma>' start show ?thesis
      by (intro quiet)
         (auto simp: thread_step_defs session_defs split: input.splits if_splits LifecycleState.splits)
  next
    case (Prepare d l)
    with run role obtain alloc ps where "PrepareWrite (env_config env) alloc d l (session \<sigma>) = (Done ps, s)"
        "th = Parts ps" "ev = Written d ps"
      by (auto simp: thread_step_defs PrepareStep_def split: input.splits outcome.splits prod.splits)
    with data_prepare [OF data config] active Prepare \<sigma>' show ?thesis by auto
  next
    case (Parts ps)
    with run role \<sigma>' show ?thesis
      by (intro quiet)
         (auto simp: thread_step_defs session_defs split: input.splits list.splits if_splits)
  next
    case (Ensure p ow)
    with run role phase \<sigma>' show ?thesis
      by (intro quiet)
         (auto simp: thread_step_defs session_defs settled_def split: input.splits if_splits)
  next
    case (Initializing p ow)
    with run role phase \<sigma>' show ?thesis
      by (intro quiet)
         (auto simp: thread_step_defs InitializingStep_def PublishInitialization_def Let_def settled_def
           split: input.splits sum.splits if_splits)
  next
    case (CheckUpload p ow u)
    with run role phase \<sigma>' show ?thesis
      by (intro quiet)
         (auto simp: thread_step_defs session_defs settled_def split: input.splits if_splits)
  next
    case (Putting p ow u)
    with run role obtain etag where "th = Storing p ow etag" "s = session \<sigma>"
        "ev = Stored (part_number p) (part_data p)"
      by (auto simp: thread_step_defs PuttingStep_def split: input.splits sum.splits)
    with data_put [OF data Putting] \<sigma>' show ?thesis by simp
  next
    case (Storing p ow e)
    with run role have "th = after_part ow" "ev = Silent"
        "s = (session \<sigma>)\<lparr>part_etags := (part_etags (session \<sigma>))[part_number p - 1 := e]\<rparr>"
      by (auto simp: thread_step_defs session_defs split: input.splits if_splits)
    with data_store [OF data Storing] \<sigma>' show ?thesis by simp
  next
    case Claimed
    with run s0 \<sigma>' show ?thesis
      by (intro quiet)
         (auto simp: thread_step_defs ReleaseStep_def ReleaseOperation_def Let_def split: input.splits)
  next
    case (Decide b)
    with run role phase finalizing \<sigma>' show ?thesis
      by (intro quiet)
         (auto simp: thread_step_defs session_defs settled_def split: input.splits if_splits option.splits)
  next
    case (Single b)
    with run role have "th = Finishing" "ev = StoredObject (buffer_bytes b)" "s = session \<sigma>"
      by (auto simp: thread_step_defs SingleStep_def split: input.splits sum.splits)
    with data_single [OF data Single] finalizing Single \<sigma>' show ?thesis by simp
  next
    case (ReserveFinal b)
    with run role have "ev = Reserved (buffer_data b)"
        "s = (session \<sigma>)\<lparr>part_etags := part_etags (session \<sigma>) @ [[]]\<rparr>"
        "th = Ensure \<lparr>part_number = length (part_etags (session \<sigma>)) + 1, part_data = buffer_data b\<rparr> FINISHING"
      by (auto simp: thread_step_defs ReserveFinalStep_def ReserveFinalPart_def ReservePart_Inr
          split: input.splits outcome.splits prod.splits sum.splits)
    with data_reserve [OF data ReserveFinal] finalizing ReserveFinal \<sigma>' show ?thesis by simp
  next
    case CheckFinal
    with run role phase \<sigma>' show ?thesis
      by (intro quiet)
         (auto simp: thread_step_defs session_defs settled_def split: input.splits if_splits)
  next
    case Snapshot
    with run role phase \<sigma>' show ?thesis
      by (intro quiet)
         (auto simp: thread_step_defs session_defs settled_def list_ex_iff split: input.splits if_splits)
  next
    case (Completing sn)
    with run role have "th = Finishing" "ev = Completed (snapshot_etags sn)" "s = session \<sigma>"
      by (auto simp: thread_step_defs CompletingStep_def split: input.splits sum.splits)
    with data_complete [OF data Completing] finalizing Completing \<sigma>' show ?thesis by simp
  next
    case Finishing
    with run phase \<sigma>' show ?thesis
      by (intro quiet) (auto simp: thread_step_defs session_defs split: input.splits)
  next
    case (Failing d e)
    with live(1) show ?thesis by (simp add: live_def) (metis thread_role.simps(17))
  next
    case Releasing
    with run s0 \<sigma>' show ?thesis
      by (intro quiet)
         (auto simp: thread_step_defs ReleaseStep_def ReleaseOperation_def Let_def split: input.splits)
  next
    case (Cleaning u)
    with run \<sigma>' show ?thesis
      by (intro quiet) (auto simp: thread_step_defs FinishCleanup_def split: input.splits)
  next
    case Awaiting
    with run \<sigma>' show ?thesis
      by (intro quiet) (auto simp: thread_step_defs session_defs split: input.splits if_splits)
  next
    case Draining
    with inv have "lifecycle_state (session \<sigma>) = ABORTING"
      by (auto simp: control_inv_def plus_one_def split: if_splits)
    with s0 show ?thesis by simp
  next
    case AbortAwaiting
    with run s show ?thesis
      by (auto simp: thread_step_defs session_defs split: input.splits if_splits)
  next
    case (AbortCleaning u)
    with run s show ?thesis
      by (auto simp: thread_step_defs session_defs split: input.splits)
  qed
qed

lemma data_step:
  assumes "system_step env t i \<sigma> = Some \<sigma>'" "upload_config_ok (env_config env)"
    and ok: "control_ok \<sigma>" "parts_ok_system \<sigma>" and live: "live \<sigma>'"
    and data: "live \<sigma> \<Longrightarrow> data_inv \<sigma>"
  shows "data_inv \<sigma>'"
  using assms(1)
proof (rule system_stepE)
  fix th s ev
  assume run: "thread_step env i (threads \<sigma> t) (session \<sigma>) = Some (th, s, ev)"
    and \<sigma>': "\<sigma>' = (observe ev \<sigma>)\<lparr>session := s, threads := (threads \<sigma>)(t := th)\<rparr>"
  have live0: "live \<sigma>" by (rule live_back [OF run \<sigma>' ok(1) live])
  with data have data: "data_inv \<sigma>" by blast
  show "data_inv \<sigma>'"
  proof (cases "\<exists>u. u \<noteq> t \<and> finalizer (threads \<sigma> u)")
    case True
    with finalizing_others [OF run ok(1)] have "s = session \<sigma>" "ev = Silent" "th = Idle" by blast+
    with \<sigma>' have eq: "\<sigma>' = \<sigma>\<lparr>threads := (threads \<sigma>)(t := Idle)\<rparr>" by simp
    have "phase \<sigma>' u = phase \<sigma> u" for u by (cases u) (simp_all add: eq settled_def)
    with data show ?thesis by (auto simp: data_inv_def eq stored_ok_def buffer_inv_def hand_data_def)
  next
    case False
    have goal: "data_goal \<sigma>' th"
      using data_thread_step [OF run \<sigma>' control_around [OF ok(1)] data live0 live assms(2)] ok(2)
      by (simp add: parts_ok_system_def)
    have extends: "extends \<sigma> \<sigma>'" by (simp add: \<sigma>' observe_extends)
    have "hand_data \<sigma>' (threads \<sigma>' u) \<and> phase \<sigma>' (threads \<sigma>' u)" for u
    proof (cases "u = t")
      case True
      then show ?thesis using goal by (simp add: data_goal_def \<sigma>')
    next
      case other: False
      with False have "\<not> finalizer (threads \<sigma> u)" by blast
      with other data show ?thesis
        using hand_data_extends [OF extends] phase_extends [OF extends] by (simp add: data_inv_def \<sigma>')
    qed
    with goal show ?thesis by (simp add: data_inv_def data_goal_def)
  qed
qed

lemma data_inv_init: "data_inv init_system"
  by (simp add: data_inv_def data_defs init_system_def init_session_def)

lemma reachable_data:
  assumes "reachable env \<sigma>" "upload_config_ok (env_config env)"
  shows "live \<sigma> \<Longrightarrow> data_inv \<sigma>"
  using assms(1)
proof (induction rule: reachable.induct)
  case initial
  show ?case by (rule data_inv_init)
next
  case (further \<sigma> \<sigma>')
  from further.hyps(2) obtain t i where "system_step env t i \<sigma> = Some \<sigma>'" by (rule stepE)
  then show ?case
    using assms(2) reachable_control [OF further.hyps(1)] reachable_parts [OF further.hyps(1) assms(2)]
      further.prems further.IH by (rule data_step)
qed

lemma finalized_live:
  assumes "control_ok \<sigma>" "lifecycle_state (session \<sigma>) = FINALIZED"
  shows "live \<sigma>"
proof -
  from assms have "lifecycle_state (session \<sigma>) \<noteq> FINALIZED \<or>
      holders (role_count (threads \<sigma>)) = 0 \<and> primary_error (session \<sigma>) = None \<and> cleanup_state (session \<sigma>) = NONE"
    by (simp_all only: control_ok_def control_inv_def)
  with assms(2) have "role_count (threads \<sigma>) R_FAIL = 0" "primary_error (session \<sigma>) = None"
    by (auto simp: holders_def)
  with control_ok_count [OF assms(1), of R_FAIL] assms(2) show ?thesis by (auto simp: live_def)
qed

section \<open>Properties\<close>

text \<open>
  C1: A finalized upload is what was written. Whatever threads write, finalize and abort at the
  same time, whatever the sizes of the writes and whatever order the parts are uploaded in: once
  \<open>Finalize\<close> has succeeded, the object of the server is exactly the bytes of the accepted writes,
  in the order of their locations, and no abort request was ever sent for it.
\<close>

theorem finalized_contents:
  assumes "reachable env \<sigma>" "upload_config_ok (env_config env)"
    and "lifecycle_state (session \<sigma>) = FINALIZED"
  shows "stored_object \<sigma> = Some (written \<sigma>) \<and> length (written \<sigma>) = next_offset (session \<sigma>) \<and> aborts_sent \<sigma> = 0"
proof -
  note control = reachable_control [OF assms(1)]
  have data: "data_inv \<sigma>" by (rule reachable_data [OF assms(1,2) finalized_live [OF control assms(3)]])
  have "cleanup_state (session \<sigma>) = NONE"
    using control assms(3) by (auto simp: control_ok_def control_inv_def)
  with reachable_aborts [OF assms(1)] have "aborts_sent \<sigma> = 0" by (simp add: aborts_ok_def)
  with data assms(3) show ?thesis by (simp add: data_inv_def buffer_inv_def stored_ok_def)
qed

text \<open>
  The assertions of the upload hold. A thread that stores the ETag of a part owns a slot that
  is in range and still empty, no other thread has a part of that number, and a thread that sends a
  part has the upload id of the session.
\<close>

theorem upload_assertions:
  assumes "reachable env \<sigma>" "upload_config_ok (env_config env)"
  shows "(\<forall>t p ow e. threads \<sigma> t = Storing p ow e \<longrightarrow>
      0 < part_number p \<and> part_number p \<le> length (part_etags (session \<sigma>)) \<and>
      part_etags (session \<sigma>) ! (part_number p - 1) = [] \<and>
      (\<forall>u. u \<noteq> t \<longrightarrow> part_number p \<notin> part_number ` set (hand (threads \<sigma> u)))) \<and>
    (\<forall>t p ow upload_id. threads \<sigma> t = Putting p ow upload_id \<longrightarrow>
      upload_id \<noteq> None \<and> multipart_upload_id (session \<sigma>) = upload_id)"
proof -
  from reachable_parts [OF assms] have slots: "slots_ok (part_etags (session \<sigma>)) (threads \<sigma>)"
    and facts: "\<And>t. thread_fact (session \<sigma>) (threads \<sigma> t)" by (auto simp: parts_ok_system_def)
  have "0 < part_number p \<and> part_number p \<le> length (part_etags (session \<sigma>)) \<and>
      part_etags (session \<sigma>) ! (part_number p - 1) = [] \<and>
      (\<forall>u. u \<noteq> t \<longrightarrow> part_number p \<notin> part_number ` set (hand (threads \<sigma> u)))"
    if "threads \<sigma> t = Storing p ow e" for t p ow e
  proof -
    have mine: "part_number p \<in> set (slots (threads \<sigma> t))" using that by (simp add: slots_def)
    with slots have "slot_free (part_etags (session \<sigma>)) (part_number p)" by (auto simp: slots_ok_def)
    moreover have "part_number p \<notin> set (slots (threads \<sigma> u))" if "u \<noteq> t" for u
      using slots mine that unfolding slots_ok_def by (metis disjoint_iff)
    ultimately show ?thesis by (auto simp: slot_free_def slots_def)
  qed
  moreover have "upload_id \<noteq> None \<and> multipart_upload_id (session \<sigma>) = upload_id"
    if "threads \<sigma> t = Putting p ow upload_id" for t p ow upload_id
    using facts [of t] that by simp
  ultimately show ?thesis by blast
qed

text \<open>
  C20: A write loses nothing and makes parts that S3 accepts. When the preparation of a write
  succeeds, the bytes buffered before followed by the written ones are the bytes of the new parts
  followed by the new buffer; the parts continue the numbering without a gap, and each has between
  5 MiB and 5 GiB.
\<close>

theorem PrepareWrite_parts:
  assumes "PrepareWrite config alloc data location s = (Done ps, s')"
    and "upload_config_ok config" "buffer_ok (buffered_part s)"
  shows "concat (map part_data ps) @ buffer_bytes (buffered_part s') = buffer_bytes (buffered_part s) @ data \<and>
    map part_number ps = map Suc [length (part_etags s)..<length (part_etags s')] \<and>
    list_all (\<lambda>p. 5 * 1024 ^ 2 \<le> length (part_data p) \<and> length (part_data p) \<le> 5 * 1024 ^ 3) ps \<and>
    next_offset s' = next_offset s + length data \<and> next_offset s' \<le> max (unat (max_file_size config)) (next_offset s)"
proof -
  from assms(1) obtain etags w where parts: "PrepareParts config alloc data (part_etags s) (buffered_part s) = Inr (etags, w)"
    and s': "s' = s\<lparr>part_etags := etags, buffered_part := prepared_buffer w, next_offset := next_offset s + length data\<rparr>"
    and ps: "ps = prepared_parts w" and fits: "length data \<le> unat (max_file_size config) - next_offset s"
    by (auto simp: PrepareWrite_def split: if_splits sum.splits)
  from fits have "next_offset s + length data \<le> max (unat (max_file_size config)) (next_offset s)" by linarith
  with PrepareParts_ok [OF parts assms(2,3)] show ?thesis
    by (simp add: prepared_ok_def parts_ok_def part_bytes_def s' ps)
qed

section \<open>Concrete runs\<close>

lemma sample_buffered:
  "PrepareParts \<lparr>max_file_size = 80000000000, max_parts = 10000, initial_part_size = 5242880, growth_interval = 910\<rparr>
     (\<lambda>n. True) ''ab'' [] None = Inr ([], \<lparr>prepared_parts = [],
       prepared_buffer = Some \<lparr>buffer_data = ''ab'', buffer_capacity = 5242880\<rparr>\<rparr>)"
  by (simp add: PrepareParts_def PrepareBuffered_def PrepareLoop.simps PartSize_def SizingPartSize_def
      AppendToBufferedPart_def Let_def)

theorem PrepareWrite_parts_witness:
  "case PrepareWrite (env_config (upload_env_of 5242880)) (\<lambda>n. True) ''ab'' 0 init_session of
     (Done ps, s') \<Rightarrow> concat (map part_data ps) @ buffer_bytes (buffered_part s') = ''ab'' \<and> next_offset s' = 2
   | _ \<Rightarrow> False"
proof -
  let ?c = "env_config (upload_env_of 5242880)"
  have run: "PrepareWrite ?c (\<lambda>n. True) ''ab'' 0 init_session =
      (Done [], init_session\<lparr>buffered_part := Some \<lparr>buffer_data = ''ab'', buffer_capacity = 5242880\<rparr>, next_offset := 2\<rparr>)"
    by (simp add: PrepareWrite_def upload_env_of_def init_session_def sample_buffered)
  have "upload_config_ok ?c" "buffer_ok (buffered_part init_session)"
    by (simp_all add: upload_config_ok_def upload_env_of_def init_session_def)
  from PrepareWrite_parts [OF run this] show ?thesis unfolding run by (simp add: init_session_def)
qed

text \<open>One write of two bytes and a \<open>Finalize\<close> that uploads them with a single request.\<close>

definition small_upload :: "(nat \<times> input) list" where
  "small_upload =
     [(0, StartWrite ''ab'' 0), (0, Memory (\<lambda>n. True)), (0, Continue), (0, Continue),
      (1, StartFinalize), (1, Continue), (1, sample_response 200 ''e'' []), (1, Continue)]"

lemma small_upload_run:
  "map_option (\<lambda>\<sigma>. lifecycle_state (session \<sigma>)) (run_steps (upload_env_of 5242880) small_upload init_system) =
     Some FINALIZED"
  by (simp add: small_upload_def upload_env_of_def sample_response_def system_step_def
      init_system_def init_session_def thread_step_defs session_defs PrepareStep_def sample_buffered
      Let_def SingleStep_def Upload_def ReleaseStep_def ReleaseOperation_def)

lemma sample_config_ok: "upload_config_ok (env_config (upload_env_of 5242880))"
  by (simp add: upload_config_ok_def upload_env_of_def)

theorem finalized_contents_witness:
  "\<exists>\<sigma>. run_steps (upload_env_of 5242880) small_upload init_system = Some \<sigma> \<and>
     stored_object \<sigma> = Some (written \<sigma>) \<and> aborts_sent \<sigma> = 0"
proof -
  from small_upload_run obtain \<sigma> where run: "run_steps (upload_env_of 5242880) small_upload init_system = Some \<sigma>"
    "lifecycle_state (session \<sigma>) = FINALIZED" by (auto simp: map_option_case split: option.splits)
  with finalized_contents [OF run_steps_reachable [OF run(1) reachable.initial] sample_config_ok] show ?thesis by simp
qed

text \<open>A write of six million bytes, whose part has been sent.\<close>

definition large_data :: string where
  "large_data = replicate 6000000 (CHR ''a'')"

definition large_write :: "(nat \<times> input) list" where
  "large_write =
     [(0, StartWrite large_data 0), (0, Memory (\<lambda>n. True)), (0, Continue), (0, Continue), (0, initiated),
      (0, Continue), (0, sample_response 200 ''e'' [])]"

lemma sample_large:
  "PrepareParts \<lparr>max_file_size = 80000000000, max_parts = 10000, initial_part_size = 5242880, growth_interval = 910\<rparr>
     (\<lambda>n. True) large_data [] None =
     Inr ([[]], \<lparr>prepared_parts = [\<lparr>part_number = 1, part_data = large_data\<rparr>], prepared_buffer = None\<rparr>)"
proof -
  have large: "length large_data = 6000000" "large_data \<noteq> []" by (simp_all add: large_data_def)
  show ?thesis
    by (simp add: PrepareParts_def PrepareBuffered_def PrepareLoop.simps PartSize_def SizingPartSize_def
        ReservePart_def HasPartCapacity_def max_part_nat large Let_def)
qed

lemma large_write_run:
  "map_option (\<lambda>\<sigma>. threads \<sigma> 0) (run_steps (upload_env_of 5242880) large_write init_system) =
     Some (Storing \<lparr>part_number = 1, part_data = large_data\<rparr> (WRITING []) ''e'')"
proof -
  have large: "length large_data = 6000000" by (simp add: large_data_def)
  show ?thesis
    by (simp add: large_write_def upload_env_of_def initiated_def sample_response_def system_step_def
        init_system_def init_session_def thread_step_defs session_defs PrepareStep_def sample_large large
        Let_def InitializingStep_def PublishInitialization_def PuttingStep_def Upload_def)
qed

theorem upload_assertions_witness:
  "\<exists>\<sigma>. run_steps (upload_env_of 5242880) large_write init_system = Some \<sigma> \<and>
     length (part_etags (session \<sigma>)) \<ge> 1 \<and> part_etags (session \<sigma>) ! 0 = [] \<and>
     1 \<notin> part_number ` set (hand (threads \<sigma> 5))"
proof -
  from large_write_run obtain \<sigma> where run: "run_steps (upload_env_of 5242880) large_write init_system = Some \<sigma>"
    "threads \<sigma> 0 = Storing \<lparr>part_number = 1, part_data = large_data\<rparr> (WRITING []) ''e''"
    by (auto simp: map_option_case split: option.splits)
  note slot = upload_assertions [OF run_steps_reachable [OF run(1) reachable.initial] sample_config_ok,
      THEN conjunct1, rule_format, OF run(2)]
  from slot have "1 \<le> length (part_etags (session \<sigma>))" "part_etags (session \<sigma>) ! 0 = []"
    by simp_all
  moreover from slot have "1 \<notin> part_number ` set (hand (threads \<sigma> 5))"
    by (simp only: PreparedPart.simps) simp
  ultimately show ?thesis using run(1) by blast
qed

end
