(* ===== verification/S3_Headers.thy ===== *)
theory S3_Headers
  imports S3_Request
begin

text \<open>
  The headers of an S3 request and its signature (src/src/s3/s3_request.cpp, from
  \<open>HTTPFSOwnedS3Headers\<close> to \<open>S3RequestUtil::CreateHeaders\<close>). DuckDB's \<open>HTTPHeaders\<close> is a map whose
  keys ignore the letter case and whose iteration order is unspecified: it is the argument \<open>H\<close>, and
  \<open>header_laws\<close> says what the code relies on. The hash functions are the argument \<open>C\<close>, the current
  time is \<open>clock\<close>.
\<close>

section \<open>The header map\<close>

record 'h headers_api =
  headers_empty :: 'h
  header_set :: "string \<Rightarrow> string \<Rightarrow> 'h \<Rightarrow> 'h"
  header_insert :: "string \<Rightarrow> string \<Rightarrow> 'h \<Rightarrow> 'h"
  header_find :: "'h \<Rightarrow> string \<Rightarrow> string option"
  header_items :: "'h \<Rightarrow> (string \<times> string) list"

abbreviation fold_name :: "string \<Rightarrow> string" where
  "fold_name \<equiv> map std_tolower"

definition header_laws :: "'h headers_api \<Rightarrow> bool" where
  "header_laws H \<longleftrightarrow>
     (\<forall>k. header_find H (headers_empty H) k = None) \<and>
     (\<forall>h k v j. header_find H (header_set H k v h) j =
        (if fold_name j = fold_name k then Some v else header_find H h j)) \<and>
     (\<forall>h k v j. header_find H (header_insert H k v h) j =
        (if header_find H h k = None \<and> fold_name j = fold_name k then Some v else header_find H h j)) \<and>
     (\<forall>h. distinct (map (\<lambda>p. fold_name (fst p)) (header_items H h))) \<and>
     (\<forall>h k v. header_find H h k = Some v \<longleftrightarrow> (\<exists>n. (n, v) \<in> set (header_items H h) \<and> fold_name n = fold_name k))"

lemma header_lawsD:
  assumes "header_laws H"
  shows "header_find H (headers_empty H) k = None"
    and "header_find H (header_set H k v h) j = (if fold_name j = fold_name k then Some v else header_find H h j)"
    and "header_find H (header_insert H k v h) j =
      (if header_find H h k = None \<and> fold_name j = fold_name k then Some v else header_find H h j)"
  using assms by (simp_all add: header_laws_def)

text \<open>
  The interface that the canonical form needs: a finite map up to the letter case, which can be
  iterated. Whatever the order of the iteration, sorting by the folded names gives one list.
\<close>

locale case_insensitive_map =
  fixes find_h :: "'h \<Rightarrow> string \<Rightarrow> string option" and items_h :: "'h \<Rightarrow> (string \<times> string) list"
  assumes distinct_items: "distinct (map (\<lambda>p. fold_name (fst p)) (items_h h))"
    and find_items: "find_h h k = Some v \<longleftrightarrow> (\<exists>n. (n, v) \<in> set (items_h h) \<and> fold_name n = fold_name k)"
begin

lemma folded_items: "set (map (apfst fold_name) (items_h h)) = {(fold_name k, v) | k v. find_h h k = Some v}"
  by (force simp: find_items apfst_def map_prod_def)

lemma folded_distinct: "distinct (map fst (map (apfst fold_name) (items_h h)))"
  using distinct_items [of h] by (simp add: comp_def apfst_def map_prod_def case_prod_beta)

lemma find_h_cong: "fold_name j = fold_name k \<Longrightarrow> find_h h j = find_h h k"
  using find_items [of h j] find_items [of h k] by (metis option.exhaust)

end

lemma header_laws_map: "header_laws H \<Longrightarrow> case_insensitive_map (header_find H) (header_items H)"
  by unfold_locales (simp_all add: header_laws_def)

lemma sort_key_unique:
  fixes f :: "'a \<Rightarrow> 'b :: linorder"
  assumes "set xs = set ys" "distinct xs" "distinct ys" "inj_on f (set xs)"
  shows "sort_key f xs = sort_key f ys"
proof (rule map_sorted_distinct_set_unique)
  show "inj_on f (set (sort_key f xs) \<union> set (sort_key f ys))" using assms by simp
  show "distinct (map f (sort_key f xs))" "distinct (map f (sort_key f ys))"
    using assms by (simp_all add: distinct_map distinct_sort)
qed (use assms in \<open>simp_all add: sorted_sort_key\<close>)

lemma sorted_keys_unique:
  "set xs = set ys \<Longrightarrow> distinct (map fst xs) \<Longrightarrow> distinct (map fst ys) \<Longrightarrow> sort_key fst xs = sort_key fst ys"
  by (rule sort_key_unique) (auto simp: distinct_map)

section \<open>Headers the extension owns\<close>

definition owned_headers :: "string list" where
  "owned_headers =
     [''Host'', ''Authorization'', ''Content-Length'', ''Content-Type'', ''Content-MD5'', ''Range'', ''If-Match'',
      ''x-amz-date'', ''x-amz-content-sha256'', ''x-amz-security-token'', ''x-amz-request-payer'',
      ''x-amz-server-side-encryption'', ''x-amz-server-side-encryption-aws-kms-key-id'']"

definition CanonicalName :: "string \<Rightarrow> string option" where
  "CanonicalName name = find (\<lambda>n. fold_name n = fold_name name) owned_headers"

definition OwnsHeader :: "string \<Rightarrow> bool" where
  "OwnsHeader name \<longleftrightarrow> CanonicalName name \<noteq> None"

section \<open>The signature\<close>

record crypto_api =
  sha256_hash :: "string \<Rightarrow> string"
  hmac256_hash :: "string \<Rightarrow> string \<Rightarrow> string"
  to_hex :: "string \<Rightarrow> string"

definition hex_sha256 :: "crypto_api \<Rightarrow> string \<Rightarrow> string" where
  "hex_sha256 C s = to_hex C (sha256_hash C s)"

record S3HeaderBuilder =
  builder_url :: string
  builder_query :: string
  builder_host :: string
  builder_service :: string
  builder_method :: string
  builder_auth :: S3AuthParams
  builder_date :: string
  builder_datetime :: string
  builder_payload_hash :: string
  builder_content_type :: string
  builder_content_md5 :: string
  builder_sse_kms :: bool

definition UseSseKms :: "S3AuthParams \<Rightarrow> RequestType \<Rightarrow> S3RequestQuery \<Rightarrow> bool" where
  "UseSseKms auth request_type query \<longleftrightarrow>
     kms_key_id auth \<noteq> [] \<and> (request_type = POST_REQUEST \<or> request_type = PUT_REQUEST) \<and>
     \<not> HasParameter query ''uploadId''"

definition EMPTY_PAYLOAD_HASH :: string where
  "EMPTY_PAYLOAD_HASH = ''e3b0c44298fc1c149afbf4c8996fb92427ae41e4649b934ca495991b7852b855''"

definition InitializeDefaults :: "string \<times> string \<Rightarrow> S3HeaderBuilder \<Rightarrow> S3HeaderBuilder" where
  "InitializeDefaults clock b =
     (let b1 = (if builder_payload_hash b = [] then b\<lparr>builder_payload_hash := EMPTY_PAYLOAD_HASH\<rparr> else b)
      in if builder_datetime b1 = []
         then b1\<lparr>builder_date := fst clock, builder_datetime := snd clock\<rparr> else b1)"

definition AddRequestHeaders :: "'h headers_api \<Rightarrow> S3HeaderBuilder \<Rightarrow> 'h \<Rightarrow> 'h" where
  "AddRequestHeaders H b h =
     (let auth = builder_auth b;
          h1 = header_set H ''x-amz-date'' (builder_datetime b) h;
          h2 = header_set H ''x-amz-content-sha256'' (builder_payload_hash b) h1;
          h3 = (if session_token auth \<noteq> [] then header_set H ''x-amz-security-token'' (session_token auth) h2 else h2);
          h4 = (if builder_sse_kms b
                then header_set H ''x-amz-server-side-encryption-aws-kms-key-id'' (kms_key_id auth)
                       (header_set H ''x-amz-server-side-encryption'' ''aws:kms'' h3)
                else h3);
          h5 = (if requester_pays auth then header_set H ''x-amz-request-payer'' ''requester'' h4 else h4);
          h6 = (if builder_content_md5 b \<noteq> [] then header_set H ''content-md5'' (builder_content_md5 b) h5 else h5)
      in if builder_content_type b \<noteq> [] \<and> builder_content_type b \<noteq> ''application/octet-stream''
         then header_set H ''content-type'' (builder_content_type b) h6 else h6)"

definition ShouldSignHeader :: "duckdb_api \<Rightarrow> string \<Rightarrow> bool" where
  "ShouldSignHeader D name \<longleftrightarrow>
     CIEquals D name ''host'' \<or> CIEquals D name ''content-md5'' \<or> CIEquals D name ''content-type'' \<or>
     CIStartsWith D name ''x-amz-'' \<or> CIStartsWith D name ''x-goog-''"

fun NormalizeValueLoop :: "string \<Rightarrow> bool \<Rightarrow> string \<Rightarrow> string" where
  "NormalizeValueLoop [] whitespace result = result"
| "NormalizeValueLoop (c # cs) whitespace result =
     (if c = CHR '' '' \<or> c = CHR 0x09 then NormalizeValueLoop cs (result \<noteq> []) result
      else NormalizeValueLoop cs False ((if whitespace then result @ '' '' else result) @ [c]))"

definition NormalizeHeaderValue :: "string \<Rightarrow> string" where
  "NormalizeHeaderValue v = NormalizeValueLoop v False []"

definition CanonicalHeader :: "duckdb_api \<Rightarrow> string \<times> string \<Rightarrow> string \<times> string" where
  "CanonicalHeader D header =
     (Lower D (fst header),
      if OwnsHeader (fst header) then snd header else NormalizeHeaderValue (snd header))"

definition BuildCanonicalHeaders ::
  "duckdb_api \<Rightarrow> 'h headers_api \<Rightarrow> S3HeaderBuilder \<Rightarrow> 'h \<Rightarrow> (string \<times> string) list" where
  "BuildCanonicalHeaders D H b h =
     sort_key fst
       (map (CanonicalHeader D) (filter (\<lambda>p. ShouldSignHeader D (fst p)) (header_items H h)) @
        (if builder_content_type b \<noteq> [] \<and> header_find H h ''content-type'' = None
         then [(''content-type'', builder_content_type b)] else []))"

fun SignedHeadersLoop :: "string \<Rightarrow> (string \<times> string) list \<Rightarrow> string" where
  "SignedHeadersLoop result [] = result"
| "SignedHeadersLoop result (header # rest) =
     SignedHeadersLoop ((if result \<noteq> [] then result @ '';'' else result) @ fst header) rest"

definition BuildSignedHeaders :: "(string \<times> string) list \<Rightarrow> string" where
  "BuildSignedHeaders canonical = SignedHeadersLoop [] canonical"

definition BuildCanonicalRequest ::
  "duckdb_api \<Rightarrow> S3HeaderBuilder \<Rightarrow> (string \<times> string) list \<Rightarrow> string \<Rightarrow> string" where
  "BuildCanonicalRequest D b canonical signed_headers =
     builder_method b @ [NL] @ Encode D (builder_url b) PATH @ [NL] @ builder_query b @
     concat (map (\<lambda>(name, v). [NL] @ name @ '':'' @ v) canonical) @
     [NL, NL] @ signed_headers @ [NL] @ builder_payload_hash b"

definition CredentialScope :: "S3HeaderBuilder \<Rightarrow> string" where
  "CredentialScope b =
     builder_date b @ ''/'' @ region (builder_auth b) @ ''/'' @ builder_service b @ ''/aws4_request''"

definition CreateSignature :: "crypto_api \<Rightarrow> S3HeaderBuilder \<Rightarrow> string \<Rightarrow> string" where
  "CreateSignature C b canonical_request =
     (let string_to_sign = ''AWS4-HMAC-SHA256'' @ [NL] @ builder_datetime b @ [NL] @ CredentialScope b @ [NL] @
            hex_sha256 C canonical_request;
          sign_key = ''AWS4'' @ secret_access_key (builder_auth b);
          k_date = hmac256_hash C (builder_date b) sign_key;
          k_region = hmac256_hash C (region (builder_auth b)) k_date;
          k_service = hmac256_hash C (builder_service b) k_region;
          signing_key = hmac256_hash C ''aws4_request'' k_service
      in to_hex C (hmac256_hash C string_to_sign signing_key))"

text \<open>\<open>S3HeaderBuilder::Create\<close>.\<close>

definition SignHeaders ::
  "duckdb_api \<Rightarrow> 'h headers_api \<Rightarrow> crypto_api \<Rightarrow> string \<times> string \<Rightarrow> S3HeaderBuilder \<Rightarrow> 'h \<Rightarrow> 'h" where
  "SignHeaders D H C clock b0 headers =
     (let h1 = header_set H ''Host'' (builder_host b0) headers;
          b = InitializeDefaults clock b0;
          h2 = AddRequestHeaders H b h1;
          canonical = BuildCanonicalHeaders D H b h2;
          signed_headers = BuildSignedHeaders canonical;
          signature = CreateSignature C b (BuildCanonicalRequest D b canonical signed_headers)
      in header_set H ''Authorization''
           (''AWS4-HMAC-SHA256 Credential='' @ access_key_id (builder_auth b) @ ''/'' @ CredentialScope b @
            '', SignedHeaders='' @ signed_headers @ '', Signature='' @ signature) h2)"

section \<open>Configured headers\<close>

text \<open>The \<open>unordered_map\<close> of the configured headers is a list of its entries, in any order.\<close>

definition SortConfigured :: "duckdb_api \<Rightarrow> (string \<times> string) list \<Rightarrow> (string \<times> string) list" where
  "SortConfigured D headers = sort_key (\<lambda>(k, v). (Lower D k, k)) headers"

definition quoted :: string where
  "quoted = [QUOT] @ ''%s'' @ [QUOT]"

fun CheckConfigured :: "duckdb_api \<Rightarrow> string option \<Rightarrow> (string \<times> string) list \<Rightarrow> exn option" where
  "CheckConfigured D previous [] = None"
| "CheckConfigured D previous (header # rest) =
     (case previous of
        Some p \<Rightarrow>
          if CIEquals D p (fst header) then
            Some (Exn InvalidInputException (''Configured S3 headers '' @ quoted @ '' and '' @ quoted @ '' differ only by case'') [p, fst header])
          else if OwnsHeader (fst header) then
            Some (Exn InvalidInputException (''Configured S3 header '' @ quoted @ '' conflicts with HTTPFS-owned header '' @ quoted)
              [fst header, the (CanonicalName (fst header))])
          else CheckConfigured D (Some (fst header)) rest
      | None \<Rightarrow>
          if OwnsHeader (fst header) then
            Some (Exn InvalidInputException (''Configured S3 header '' @ quoted @ '' conflicts with HTTPFS-owned header '' @ quoted)
              [fst header, the (CanonicalName (fst header))])
          else CheckConfigured D (Some (fst header)) rest)"

definition CreateConfiguredS3Headers ::
  "duckdb_api \<Rightarrow> 'h headers_api \<Rightarrow> (string \<times> string) list \<Rightarrow> string \<Rightarrow> 'h res" where
  "CreateConfiguredS3Headers D H extra_headers user_agent =
     (let sorted_headers = SortConfigured D extra_headers
      in case CheckConfigured D None sorted_headers of
           Some e \<Rightarrow> Inl e
         | None \<Rightarrow>
             let result = fold (\<lambda>(k, v). header_set H k v) sorted_headers (headers_empty H)
             in Inr (if user_agent \<noteq> [] then header_insert H ''User-Agent'' user_agent result else result))"

definition CreateHeaders ::
  "duckdb_api \<Rightarrow> 'h headers_api \<Rightarrow> crypto_api \<Rightarrow> string \<times> string \<Rightarrow> ParsedS3Url \<Rightarrow> S3RequestQuery \<Rightarrow> RequestType \<Rightarrow>
     S3AuthParams \<Rightarrow> string \<Rightarrow> string \<Rightarrow> string \<Rightarrow> string \<Rightarrow> string \<Rightarrow> (string \<times> string) list \<Rightarrow> string \<Rightarrow> 'h res" where
  "CreateHeaders D H C clock parsed_url query request_type auth date_now datetime_now payload_hash content_type
     content_md5 extra_headers user_agent =
     bind_res (CreateConfiguredS3Headers D H extra_headers user_agent) (\<lambda>headers.
       case GetAuthType auth of
         ANONYMOUS \<Rightarrow> Inr (header_set H ''Host'' (url_host parsed_url) headers)
       | SIGV4 \<Rightarrow>
           Inr (SignHeaders D H C clock
             \<lparr>builder_url = url_path parsed_url, builder_query = canonical_query query,
              builder_host = url_host parsed_url, builder_service = ''s3'',
              builder_method = GetRequestMethod request_type, builder_auth = auth, builder_date = date_now,
              builder_datetime = datetime_now, builder_payload_hash = payload_hash,
              builder_content_type = content_type, builder_content_md5 = content_md5,
              builder_sse_kms = UseSseKms auth request_type query\<rparr> headers)
       | BEARER \<Rightarrow>
           let h1 = header_set H ''Authorization'' (''Bearer '' @ oauth2_bearer_token auth) headers;
               h2 = header_set H ''Host'' (url_host parsed_url) h1;
               h3 = (if content_type \<noteq> [] then header_set H ''Content-Type'' content_type h2 else h2)
           in Inr (if content_md5 \<noteq> [] then header_set H ''Content-MD5'' content_md5 h3 else h3))"

section \<open>The canonical headers are canonical\<close>

lemma OwnsHeader_iff: "OwnsHeader n \<longleftrightarrow> fold_name n \<in> fold_name ` set owned_headers"
  unfolding OwnsHeader_def CanonicalName_def find_None_iff image_iff by metis

lemma OwnsHeader_cong: "fold_name j = fold_name k \<Longrightarrow> OwnsHeader j = OwnsHeader k"
  by (simp add: OwnsHeader_iff)

lemma std_tolower_comp [simp]: "std_tolower \<circ> std_tolower = std_tolower"
  by (rule ext) simp

lemma fold_name_idem: "fold_name (fold_name n) = fold_name n"
  by simp

lemma OwnsHeader_fold [simp]: "OwnsHeader (fold_name n) = OwnsHeader n"
  by (rule OwnsHeader_cong) (rule fold_name_idem)

lemma ShouldSignHeader_fold:
  "byte_strings D \<Longrightarrow> ShouldSignHeader D (fold_name n) = ShouldSignHeader D n"
  by (simp only: ShouldSignHeader_def byte_stringsD fold_name_idem)

definition canonical_value :: "string \<times> string \<Rightarrow> string \<times> string" where
  "canonical_value p = (fst p, if OwnsHeader (fst p) then snd p else NormalizeHeaderValue (snd p))"

lemma canonical_entries:
  assumes "byte_strings D"
  shows "map (CanonicalHeader D) (filter (\<lambda>p. ShouldSignHeader D (fst p)) xs) =
    map canonical_value (filter (\<lambda>p. ShouldSignHeader D (fst p)) (map (apfst fold_name) xs))"
  by (induction xs)
     (auto simp: CanonicalHeader_def canonical_value_def byte_stringsD [OF assms] ShouldSignHeader_fold [OF assms]
       simp del: List.map.compositionality)

lemma fst_canonical_value [simp]: "map fst (map canonical_value xs) = map fst xs"
  by (induction xs) (simp_all add: canonical_value_def)

lemma distinct_filter_keys: "distinct (map fst xs) \<Longrightarrow> distinct (map fst (filter P xs))"
  by (rule distinct_map_filter)

text \<open>The entries before sorting: their names are distinct, and they depend on the lookup only.\<close>

definition signed_entries :: "duckdb_api \<Rightarrow> 'h headers_api \<Rightarrow> S3HeaderBuilder \<Rightarrow> 'h \<Rightarrow> (string \<times> string) list" where
  "signed_entries D H b h =
     map canonical_value (filter (\<lambda>p. ShouldSignHeader D (fst p)) (map (apfst fold_name) (header_items H h))) @
     (if builder_content_type b \<noteq> [] \<and> header_find H h ''content-type'' = None
      then [(''content-type'', builder_content_type b)] else [])"

lemma BuildCanonicalHeaders_entries:
  "byte_strings D \<Longrightarrow> BuildCanonicalHeaders D H b h = sort_key fst (signed_entries D H b h)"
  by (simp add: BuildCanonicalHeaders_def signed_entries_def canonical_entries)

lemma content_type_fold [simp]: "fold_name ''content-type'' = ''content-type''"
  by code_simp

lemma folded_find:
  assumes "header_laws H" "(n, v) \<in> set (map (apfst fold_name) (header_items H h))"
  shows "header_find H h n = Some v"
proof -
  note laws = header_laws_map [OF assms(1)]
  from assms(2) obtain m where m: "(m, v) \<in> set (header_items H h)" "n = fold_name m" by auto
  then have "header_find H h m = Some v"
    unfolding case_insensitive_map.find_items [OF laws] by blast
  with m(2) case_insensitive_map.find_h_cong [OF laws, of n m h] fold_name_idem show ?thesis by metis
qed

lemma signed_entries_distinct:
  assumes "header_laws H"
  shows "distinct (map fst (signed_entries D H b h))"
proof -
  let ?xs = "map (apfst fold_name) (header_items H h)"
  let ?ys = "map canonical_value (filter (\<lambda>p. ShouldSignHeader D (fst p)) ?xs)"
  have ys: "map fst ?ys = map fst (filter (\<lambda>p. ShouldSignHeader D (fst p)) ?xs)"
    by (rule fst_canonical_value)
  have "distinct (map fst (filter (\<lambda>p. ShouldSignHeader D (fst p)) ?xs))"
    using case_insensitive_map.folded_distinct [OF header_laws_map [OF assms]] by (rule distinct_filter_keys)
  then have 1: "distinct (map fst ?ys)" unfolding ys .
  have 2: "''content-type'' \<notin> set (map fst ?ys)" if "header_find H h ''content-type'' = None"
  proof
    assume "''content-type'' \<in> set (map fst ?ys)"
    then obtain v where "(''content-type'', v) \<in> set ?xs" unfolding ys by force
    from folded_find [OF assms this] that show False by simp
  qed
  show ?thesis
  proof (cases "builder_content_type b \<noteq> [] \<and> header_find H h ''content-type'' = None")
    case True
    then have eq: "signed_entries D H b h = ?ys @ [(''content-type'', builder_content_type b)]"
      unfolding signed_entries_def by simp
    from 1 2 True show ?thesis unfolding eq map_append distinct_append by simp
  next
    case False
    then have eq: "signed_entries D H b h = ?ys" unfolding signed_entries_def by simp
    from 1 show ?thesis unfolding eq .
  qed
qed

lemma signed_entries_set:
  assumes "header_laws H" "header_find H h = header_find H g"
  shows "set (signed_entries D H b h) = set (signed_entries D H b g)"
proof -
  note folded = case_insensitive_map.folded_items [OF header_laws_map [OF assms(1)]]
  have "set (map (apfst fold_name) (header_items H h)) = set (map (apfst fold_name) (header_items H g))"
    unfolding folded assms(2) ..
  then have "set (filter P (map (apfst fold_name) (header_items H h))) =
      set (filter P (map (apfst fold_name) (header_items H g)))" for P
    by (simp only: set_filter)
  then show ?thesis unfolding signed_entries_def set_append set_map assms(2) by (simp only: set_map)
qed

section \<open>An instance of the header map\<close>

text \<open>An association list whose first entry for a name counts.\<close>

fun assoc_find :: "(string \<times> string) list \<Rightarrow> string \<Rightarrow> string option" where
  "assoc_find [] k = None"
| "assoc_find ((n, v) # h) k = (if fold_name n = fold_name k then Some v else assoc_find h k)"

fun assoc_items :: "(string \<times> string) list \<Rightarrow> (string \<times> string) list" where
  "assoc_items [] = []"
| "assoc_items ((n, v) # h) = (n, v) # filter (\<lambda>p. fold_name (fst p) \<noteq> fold_name n) (assoc_items h)"

definition assoc_headers :: "(string \<times> string) list headers_api" where
  "assoc_headers =
     \<lparr>headers_empty = [], header_set = (\<lambda>k v h. (k, v) # h),
      header_insert = (\<lambda>k v h. if assoc_find h k = None then (k, v) # h else h),
      header_find = assoc_find, header_items = assoc_items\<rparr>"

lemma assoc_items_distinct: "distinct (map (\<lambda>p. fold_name (fst p)) (assoc_items h))"
  by (induction h rule: assoc_items.induct) (auto simp: distinct_map inj_on_def)

lemma assoc_find_items:
  "assoc_find h k = Some v \<longleftrightarrow> (\<exists>n. (n, v) \<in> set (assoc_items h) \<and> fold_name n = fold_name k)"
proof (induction h k rule: assoc_find.induct)
  case (2 n w h k)
  then show ?case by (cases "fold_name n = fold_name k") auto
qed simp

lemma assoc_find_swap:
  "fold_name a \<noteq> fold_name b \<Longrightarrow> assoc_find ((a, v) # (b, w) # h) k = assoc_find ((b, w) # (a, v) # h) k"
  by (auto simp del: List.list.map)

interpretation assoc: case_insensitive_map assoc_find assoc_items
  by unfold_locales (simp_all only: assoc_items_distinct assoc_find_items)

lemma header_laws_assoc [simp]: "header_laws assoc_headers"
proof -
  have "assoc_find (if assoc_find h k = None then (k, v) # h else h) j =
      (if assoc_find h k = None \<and> fold_name j = fold_name k then Some v else assoc_find h j)" for h k v j
    by (cases "assoc_find h k") (auto simp del: List.list.map)
  moreover have "assoc_find ((k, v) # h) j = (if fold_name j = fold_name k then Some v else assoc_find h j)" for h k v j
    by (auto simp del: List.list.map)
  ultimately show ?thesis
    by (simp only: header_laws_def assoc_headers_def headers_api.simps assoc_find.simps(1)
        assoc.distinct_items assoc.find_items simp_thms)
qed

section \<open>Properties\<close>

text \<open>
  C28: The canonical headers of a signature depend on what the header map holds, not on the order in
  which it is iterated: they are strictly sorted by their lower-case names, and every header that
  must be signed is among them, with its value as it is sent or, for a configured header, with its
  white space normalized.
\<close>

theorem BuildCanonicalHeaders_canonical:
  assumes "header_laws H" "byte_strings D" "header_find H h = header_find H g"
  shows "BuildCanonicalHeaders D H b h = BuildCanonicalHeaders D H b g \<and>
    sorted_wrt (<) (map fst (BuildCanonicalHeaders D H b h)) \<and>
    (\<forall>name v. header_find H h name = Some v \<and> ShouldSignHeader D name \<longrightarrow>
      (fold_name name, if OwnsHeader name then v else NormalizeHeaderValue v) \<in> set (BuildCanonicalHeaders D H b h))"
proof (intro conjI allI impI)
  note entries = BuildCanonicalHeaders_entries [OF assms(2)]
  note distinct = signed_entries_distinct [OF assms(1)]
  show "BuildCanonicalHeaders D H b h = BuildCanonicalHeaders D H b g"
    unfolding entries by (rule sorted_keys_unique [OF signed_entries_set [OF assms(1,3)] distinct distinct])
  have "distinct (map fst (sort_key fst (signed_entries D H b h)))"
    using distinct [of D b h] by (simp add: distinct_map)
  then show "sorted_wrt (<) (map fst (BuildCanonicalHeaders D H b h))"
    unfolding entries by (simp add: strict_sorted_iff)
  fix name v assume present: "header_find H h name = Some v \<and> ShouldSignHeader D name"
  then have "(fold_name name, v) \<in> set (map (apfst fold_name) (header_items H h))"
    unfolding case_insensitive_map.folded_items [OF header_laws_map [OF assms(1)]] by blast
  then have "(fold_name name, v) \<in>
      set (filter (\<lambda>p. ShouldSignHeader D (fst p)) (map (apfst fold_name) (header_items H h)))"
    using present ShouldSignHeader_fold [OF assms(2)] unfolding set_filter by simp
  then have "canonical_value (fold_name name, v) \<in> set (signed_entries D H b h)"
    unfolding signed_entries_def set_append set_map by blast
  then show "(fold_name name, if OwnsHeader name then v else NormalizeHeaderValue v) \<in>
      set (BuildCanonicalHeaders D H b h)"
    unfolding entries set_sort canonical_value_def fst_conv snd_conv OwnsHeader_fold .
qed

theorem BuildCanonicalHeaders_canonical_witness:
  "\<forall>b. BuildCanonicalHeaders std_api assoc_headers b [(''Host'', ''h''), (''x-amz-date'', ''d'')] =
   BuildCanonicalHeaders std_api assoc_headers b [(''x-amz-date'', ''d''), (''Host'', ''h'')]"
proof -
  have "fold_name ''Host'' \<noteq> fold_name ''x-amz-date''" by code_simp
  then have "assoc_find [(''Host'', ''h''), (''x-amz-date'', ''d'')] k =
      assoc_find [(''x-amz-date'', ''d''), (''Host'', ''h'')] k" for k
    by (rule assoc_find_swap)
  then have "header_find assoc_headers [(''Host'', ''h''), (''x-amz-date'', ''d'')] =
      header_find assoc_headers [(''x-amz-date'', ''d''), (''Host'', ''h'')]"
    by (intro ext) (simp only: assoc_headers_def headers_api.simps)
  from BuildCanonicalHeaders_canonical [OF header_laws_assoc byte_strings_std this] show ?thesis by blast
qed

section \<open>Configured headers reach the server unchanged\<close>

lemma fold_pair: "(\<lambda>(k, v). header_set H k v) = (\<lambda>p. header_set H (fst p) (snd p))"
  by (rule ext) (simp add: case_prod_beta)

lemma find_fold_set:
  assumes "header_laws H"
  shows "header_find H (fold (\<lambda>p. header_set H (fst p) (snd p)) xs h) j =
    (case find (\<lambda>p. fold_name j = fold_name (fst p)) (rev xs) of Some p \<Rightarrow> Some (snd p) | None \<Rightarrow> header_find H h j)"
proof (induction xs arbitrary: h)
  case (Cons x xs)
  have snoc: "find P (ys @ [y]) = (case find P ys of Some p \<Rightarrow> Some p | None \<Rightarrow> if P y then Some y else None)"
    for P :: "string \<times> string \<Rightarrow> bool" and ys y by (induction ys) auto
  show ?case unfolding fold.simps comp_apply Cons rev.simps snoc header_lawsD(2) [OF assms]
    by (auto split: option.splits simp del: List.list.map)
qed simp

lemma find_fold_set_in:
  assumes "header_laws H" "distinct (map (\<lambda>p. fold_name (fst p)) xs)" "(k, v) \<in> set xs"
  shows "header_find H (fold (\<lambda>p. header_set H (fst p) (snd p)) xs h) k = Some v"
proof -
  have "find (\<lambda>p. fold_name k = fold_name (fst p)) (rev xs) = Some (k, v)"
  proof (cases "find (\<lambda>p. fold_name k = fold_name (fst p)) (rev xs)")
    case None
    with assms(3) show ?thesis by (auto simp: find_None_iff)
  next
    case (Some p)
    then have "p \<in> set xs" "fold_name k = fold_name (fst p)"
      by (auto simp: find_Some_iff simp del: List.list.map intro: nth_mem) (metis length_rev nth_mem set_rev)
    with assms(2,3) Some show ?thesis
      by (metis (mono_tags, lifting) distinct_map fst_conv inj_on_eq_iff)
  qed
  then show ?thesis unfolding find_fold_set [OF assms(1)] by simp
qed

text \<open>The sorted check finds every clash: equal folded names are neighbours.\<close>

lemma CheckConfigured_None:
  assumes "byte_strings D" "CheckConfigured D previous xs = None" "sorted (map (\<lambda>p. fold_name (fst p)) xs)"
    and "\<And>p x. previous = Some p \<Longrightarrow> x \<in> set xs \<Longrightarrow> fold_name p \<le> fold_name (fst x)"
  shows "distinct (map (\<lambda>p. fold_name (fst p)) xs) \<and> (\<forall>x \<in> set xs. \<not> OwnsHeader (fst x)) \<and>
    (\<forall>p. previous = Some p \<longrightarrow> fold_name p \<notin> set (map (\<lambda>p. fold_name (fst p)) xs))"
  using assms(2-)
proof (induction xs arbitrary: previous)
  case Nil
  then show ?case by simp
next
  case (Cons header rest)
  from Cons(2) have own: "\<not> OwnsHeader (fst header)"
    and rest: "CheckConfigured D (Some (fst header)) rest = None"
    and clash: "previous = Some p \<Longrightarrow> fold_name p \<noteq> fold_name (fst header)" for p
    by (auto simp: byte_stringsD [OF assms(1)] split: option.splits if_splits simp del: List.list.map)
  have sorted: "sorted (map (\<lambda>p. fold_name (fst p)) rest)"
    "\<forall>x \<in> set rest. fold_name (fst header) \<le> fold_name (fst x)" using Cons(3) by simp_all
  have "distinct (map (\<lambda>p. fold_name (fst p)) rest) \<and> (\<forall>x \<in> set rest. \<not> OwnsHeader (fst x)) \<and>
      fold_name (fst header) \<notin> set (map (\<lambda>p. fold_name (fst p)) rest)"
    using Cons(1) [OF rest] sorted by (auto simp del: List.list.map)
  moreover have "fold_name p \<notin> set (map (\<lambda>p. fold_name (fst p)) (header # rest))" if "previous = Some p" for p
  proof
    assume "fold_name p \<in> set (map (\<lambda>p. fold_name (fst p)) (header # rest))"
    then have "fold_name (fst header) \<le> fold_name p" using clash [OF that] sorted(2) by auto
    with Cons(4) [OF that, of header] clash [OF that] show False by simp
  qed
  ultimately show ?case using own by simp
qed

lemma sorted_fst_lex: "sorted (map (\<lambda>p. (f (fst p), g p)) xs) \<Longrightarrow> sorted (map (\<lambda>p. f (fst p)) xs)"
  for f :: "'a \<Rightarrow> 'b :: linorder" and g :: "'a \<times> 'c \<Rightarrow> 'd :: linorder"
  by (induction xs) auto

lemma SortConfigured_key:
  "byte_strings D \<Longrightarrow> SortConfigured D xs = sort_key (\<lambda>p. (fold_name (fst p), fst p)) xs"
  by (simp add: SortConfigured_def byte_stringsD case_prod_beta')

lemma SortConfigured_sorted:
  assumes "byte_strings D"
  shows "sorted (map (\<lambda>p. fold_name (fst p)) (SortConfigured D xs))"
  unfolding SortConfigured_key [OF assms]
  by (rule sorted_fst_lex [where g = fst]) (rule sorted_sort_key)

lemma SortConfigured_mset:
  assumes "byte_strings D" "mset xs = mset ys" "distinct (map fst xs)"
  shows "SortConfigured D xs = SortConfigured D ys"
  unfolding SortConfigured_key [OF assms(1)]
proof (rule sort_key_unique)
  show "set xs = set ys" using assms(2) by (rule mset_eq_setD)
  show "distinct xs" using assms(3) by (rule distinct_map [THEN iffD1, THEN conjunct1])
  then show "distinct ys" using assms(2) by (metis mset_eq_imp_distinct_iff)
  show "inj_on (\<lambda>p. (fold_name (fst p), fst p)) (set xs)"
    using assms(3) by (simp add: distinct_map inj_on_def)
qed

lemma CheckConfigured_valid:
  assumes "byte_strings D" "distinct (map (\<lambda>p. fold_name (fst p)) xs)" "\<forall>x \<in> set xs. \<not> OwnsHeader (fst x)"
    and "\<And>p. previous = Some p \<Longrightarrow> fold_name p \<notin> set (map (\<lambda>p. fold_name (fst p)) xs)"
  shows "CheckConfigured D previous xs = None"
  using assms(2-)
proof (induction xs arbitrary: previous)
  case (Cons header rest)
  have "CheckConfigured D (Some (fst header)) rest = None"
    using Cons(2,3) by (intro Cons(1)) auto
  with Cons(3,4) show ?case
    by (auto simp: byte_stringsD [OF assms(1)] split: option.splits simp del: List.list.map)
qed simp

text \<open>Configured headers are valid when none is owned and no two differ only by case.\<close>

definition valid_configured :: "(string \<times> string) list \<Rightarrow> bool" where
  "valid_configured xs \<longleftrightarrow>
     distinct (map (\<lambda>p. fold_name (fst p)) xs) \<and> (\<forall>x \<in> set xs. \<not> OwnsHeader (fst x))"

lemma SortConfigured_set [simp]: "set (SortConfigured D xs) = set xs"
  by (simp add: SortConfigured_def)

lemma SortConfigured_distinct [simp]:
  "distinct (map (\<lambda>p. fold_name (fst p)) (SortConfigured D xs)) = distinct (map (\<lambda>p. fold_name (fst p)) xs)"
  by (simp add: SortConfigured_def distinct_map)

lemma CheckConfigured_iff:
  assumes "byte_strings D"
  shows "CheckConfigured D None (SortConfigured D xs) = None \<longleftrightarrow> valid_configured xs"
proof
  assume "CheckConfigured D None (SortConfigured D xs) = None"
  from CheckConfigured_None [OF assms this SortConfigured_sorted [OF assms]]
  show "valid_configured xs" unfolding valid_configured_def SortConfigured_set SortConfigured_distinct by simp
next
  assume "valid_configured xs"
  then show "CheckConfigured D None (SortConfigured D xs) = None"
    unfolding valid_configured_def by (intro CheckConfigured_valid [OF assms]) simp_all
qed

lemma CreateConfigured_find:
  assumes "header_laws H" "byte_strings D" "CreateConfiguredS3Headers D H xs ua = Inr h"
  shows "valid_configured xs" "(k, v) \<in> set xs \<Longrightarrow> header_find H h k = Some v"
    and "OwnsHeader n \<Longrightarrow> header_find H h n = None"
proof -
  let ?g = "fold (\<lambda>p. header_set H (fst p) (snd p)) (SortConfigured D xs) (headers_empty H)"
  have h: "h = (if ua \<noteq> [] then header_insert H ''User-Agent'' ua ?g else ?g)"
    and ok: "CheckConfigured D None (SortConfigured D xs) = None"
    using assms(3) unfolding CreateConfiguredS3Headers_def Let_def fold_pair by (auto split: option.splits)
  show valid: "valid_configured xs" using ok unfolding CheckConfigured_iff [OF assms(2)] .
  show "header_find H h k = Some v" if "(k, v) \<in> set xs"
  proof -
    have "header_find H ?g k = Some v"
      using valid that unfolding valid_configured_def by (intro find_fold_set_in [OF assms(1)]) simp_all
    moreover have "header_find H ?g ''User-Agent'' = header_find H ?g k" if "fold_name k = fold_name ''User-Agent''"
      by (rule case_insensitive_map.find_h_cong [OF header_laws_map [OF assms(1)]]) (rule that [symmetric])
    ultimately have "header_find H (header_insert H ''User-Agent'' ua ?g) k = Some v"
      unfolding header_lawsD(3) [OF assms(1)] by (metis option.distinct(1))
    with \<open>header_find H ?g k = Some v\<close> show ?thesis unfolding h by (simp only: split: if_split) blast
  qed
  show "header_find H h n = None" if "OwnsHeader n"
  proof -
    have "find (\<lambda>p. fold_name n = fold_name (fst p)) (rev (SortConfigured D xs)) = None"
      using valid OwnsHeader_cong [of n] that
      unfolding find_None_iff valid_configured_def set_rev SortConfigured_set by blast
    then have "header_find H ?g n = None"
      unfolding find_fold_set [OF assms(1)] by (simp add: header_lawsD [OF assms(1)])
    moreover have "fold_name n \<noteq> fold_name ''User-Agent''"
    proof
      assume "fold_name n = fold_name ''User-Agent''"
      then have "OwnsHeader ''User-Agent''" using that OwnsHeader_cong by blast
      then show False by code_simp
    qed
    ultimately have "header_find H (header_insert H ''User-Agent'' ua ?g) n = None"
      unfolding header_lawsD(3) [OF assms(1)] by (simp only: simp_thms if_False)
    with \<open>header_find H ?g n = None\<close> show ?thesis unfolding h by (simp only: split: if_split) blast
  qed
qed

lemma find_set_owned:
  assumes "header_laws H" "OwnsHeader n" "\<not> OwnsHeader k"
  shows "header_find H (header_set H n v h) k = header_find H h k"
proof -
  have "fold_name k \<noteq> fold_name n" using assms(2,3) OwnsHeader_cong by blast
  then show ?thesis by (simp only: header_lawsD(2) [OF assms(1)] if_False)
qed

lemma find_set_host:
  assumes "header_laws H"
  shows "fold_name ''Host'' \<noteq> fold_name n \<Longrightarrow>
      header_find H (header_set H n v h) ''Host'' = header_find H h ''Host''"
    and "header_find H (header_set H ''Host'' v h) ''Host'' = Some v"
    and "fold_name ''Host'' \<noteq> fold_name n \<Longrightarrow> header_find H (header_set H ''Host'' v h) n = header_find H h n"
  by (simp_all only: header_lawsD(2) [OF assms] if_True if_False simp_thms) (simp add: eq_commute del: List.list.map)

lemma owned_names:
  "OwnsHeader ''Host''" "OwnsHeader ''Authorization''" "OwnsHeader ''Content-Type''" "OwnsHeader ''Content-MD5''"
  "OwnsHeader ''content-type''" "OwnsHeader ''content-md5''" "OwnsHeader ''x-amz-date''"
  "OwnsHeader ''x-amz-content-sha256''" "OwnsHeader ''x-amz-security-token''" "OwnsHeader ''x-amz-request-payer''"
  "OwnsHeader ''x-amz-server-side-encryption''" "OwnsHeader ''x-amz-server-side-encryption-aws-kms-key-id''"
  by code_simp+

lemma host_names:
  "fold_name ''Host'' \<noteq> fold_name ''Authorization''" "fold_name ''Host'' \<noteq> fold_name ''Content-Type''"
  "fold_name ''Host'' \<noteq> fold_name ''Content-MD5''" "fold_name ''Host'' \<noteq> fold_name ''content-type''"
  "fold_name ''Host'' \<noteq> fold_name ''content-md5''" "fold_name ''Host'' \<noteq> fold_name ''x-amz-date''"
  "fold_name ''Host'' \<noteq> fold_name ''x-amz-content-sha256''" "fold_name ''Host'' \<noteq> fold_name ''x-amz-security-token''"
  "fold_name ''Host'' \<noteq> fold_name ''x-amz-request-payer''"
  "fold_name ''Host'' \<noteq> fold_name ''x-amz-server-side-encryption''"
  "fold_name ''Host'' \<noteq> fold_name ''x-amz-server-side-encryption-aws-kms-key-id''"
  by code_simp+

lemma find_if:
  "header_find H g k = w \<Longrightarrow> header_find H h k = w \<Longrightarrow> header_find H (if c then g else h) k = w"
  by simp

lemma AddRequestHeaders_find:
  assumes "header_laws H" "\<not> OwnsHeader k \<or> k = ''Host''"
  shows "header_find H (AddRequestHeaders H b h) k = header_find H h k"
proof -
  have keep: "header_find H (header_set H n v g) k = w" if "OwnsHeader n" "fold_name ''Host'' \<noteq> fold_name n" "header_find H g k = w" for n v g w
    using assms(2) find_set_owned [OF assms(1), of n k] find_set_host(1) [OF assms(1), of n] that by metis
  have keep_if: "header_find H (if c then header_set H n v g else g) k = w"
    if "OwnsHeader n" "fold_name ''Host'' \<noteq> fold_name n" "header_find H g k = w" for c n v g w
    using keep [OF that(1,2), of g w v] that(3) by simp
  show ?thesis
    unfolding AddRequestHeaders_def Let_def
    by (intro keep_if find_if keep owned_names host_names refl)
qed

lemma SignHeaders_find:
  assumes "header_laws H"
  shows "\<not> OwnsHeader k \<Longrightarrow> header_find H (SignHeaders D H C clock b h) k = header_find H h k"
    and "header_find H (SignHeaders D H C clock b h) ''Host'' = Some (builder_host b)"
  unfolding SignHeaders_def Let_def
  by (simp_all only: find_set_owned [OF assms] owned_names AddRequestHeaders_find [OF assms] simp_thms
      find_set_host [OF assms] host_names)

lemma CreateConfigured_error:
  "byte_strings D \<Longrightarrow> CreateConfiguredS3Headers D H xs ua = Inl e \<Longrightarrow> \<not> valid_configured xs"
  unfolding CheckConfigured_iff [symmetric]
  by (auto simp: CreateConfiguredS3Headers_def Let_def split: option.splits)

text \<open>
  Configured headers reach an S3 request unchanged, or the request fails before it is sent: the
  headers are refused exactly when one of them is owned by the extension or two differ only by
  case; otherwise every configured header has its configured value, whatever the authentication,
  and the host is the one of the URL. An anonymous request carries no authorization. The order
  in which the configured headers are kept does not matter.
\<close>

theorem CreateHeaders_configured:
  assumes "header_laws H" "byte_strings D"
  shows "(case CreateHeaders D H C clock url query request_type auth date datetime payload_hash content_type
             content_digest xs ua of
       Inl e \<Rightarrow> \<not> valid_configured xs
     | Inr h \<Rightarrow> valid_configured xs \<and> (\<forall>(k, v) \<in> set xs. header_find H h k = Some v) \<and>
         header_find H h ''Host'' = Some (url_host url) \<and>
         (GetAuthType auth = ANONYMOUS \<longrightarrow> header_find H h ''Authorization'' = None)) \<and>
    (\<forall>ys. mset xs = mset ys \<and> distinct (map fst xs) \<longrightarrow>
       CreateHeaders D H C clock url query request_type auth date datetime payload_hash content_type content_digest ys ua =
       CreateHeaders D H C clock url query request_type auth date datetime payload_hash content_type content_digest xs ua)"
proof (intro conjI allI impI)
  fix ys assume "mset xs = mset ys \<and> distinct (map fst xs)"
  then have "SortConfigured D ys = SortConfigured D xs" using SortConfigured_mset [OF assms(2)] by metis
  then show "CreateHeaders D H C clock url query request_type auth date datetime payload_hash content_type content_digest ys ua =
       CreateHeaders D H C clock url query request_type auth date datetime payload_hash content_type content_digest xs ua"
    unfolding CreateHeaders_def CreateConfiguredS3Headers_def by (simp only:)
next
  show "case CreateHeaders D H C clock url query request_type auth date datetime payload_hash content_type
             content_digest xs ua of
       Inl e \<Rightarrow> \<not> valid_configured xs
     | Inr h \<Rightarrow> valid_configured xs \<and> (\<forall>(k, v) \<in> set xs. header_find H h k = Some v) \<and>
         header_find H h ''Host'' = Some (url_host url) \<and>
         (GetAuthType auth = ANONYMOUS \<longrightarrow> header_find H h ''Authorization'' = None)"
  proof (cases "CreateConfiguredS3Headers D H xs ua")
    case (Inl e)
    then show ?thesis using CreateConfigured_error [OF assms(2)] by (simp add: CreateHeaders_def)
  next
    case (Inr g)
    note conf = CreateConfigured_find [OF assms Inr]
    have not_owned: "\<not> OwnsHeader k" if "(k, v) \<in> set xs" for k v
      using conf(1) that by (auto simp: valid_configured_def)
    show ?thesis
      unfolding CreateHeaders_def Inr Let_def
      by (cases "GetAuthType auth")
        (auto simp: conf not_owned find_set_owned [OF assms(1)] owned_names SignHeaders_find [OF assms(1)]
          find_set_host [OF assms(1)] host_names simp del: List.list.map)
  qed
qed

definition sample_url :: ParsedS3Url where
  "sample_url =
     \<lparr>http_proto = ''https://'', url_prefix = ''s3://'', url_host = ''h'', url_bucket = ''b'', url_key = ''k'',
      url_path = ''/k'', url_query_param = [], trimmed_s3_url = ''s3://b/k''\<rparr>"

definition sample_crypto :: crypto_api where
  "sample_crypto = \<lparr>sha256_hash = id, hmac256_hash = (@), to_hex = id\<rparr>"

theorem CreateHeaders_configured_witness:
  "(case CreateHeaders std_api assoc_headers sample_crypto (''d'', ''t'') sample_url (MakeQuery std_api []) GET_REQUEST
      init_auth [] [] [] [] [] [(''X-Tag'', ''a''), (''x-Id'', ''b'')] ''duckdb'' of
     Inl e \<Rightarrow> False
   | Inr h \<Rightarrow> header_find assoc_headers h ''X-Tag'' = Some ''a'')"
proof -
  have valid: "valid_configured [(''X-Tag'', ''a''), (''x-Id'', ''b'')]" by code_simp
  have pick: "case r of Inl e \<Rightarrow> False | Inr h \<Rightarrow> P h k w"
    if "(case r of Inl e \<Rightarrow> \<not> V | Inr h \<Rightarrow> V \<and> (\<forall>(k, v) \<in> set xs. P h k v) \<and> Q h \<and> R h) \<and> S" "V" "(k, w) \<in> set xs"
    for r :: "'e + 'h" and V P and xs :: "(string \<times> string) list" and Q R S k w
    using that by (cases r) auto
  show ?thesis
    by (rule pick [OF CreateHeaders_configured [OF header_laws_assoc byte_strings_std] valid]) simp
qed

end
