(* ===== verification/Thread_Pool.thy ===== *)
theory Thread_Pool
  imports Httpfs_Prelude
begin

text \<open>
  Threads that share one object. \<open>pool step\<close> lets one thread of a list take one step, which may
  change the shared state and the thread itself. The locale \<open>baton\<close> is the contract of an object
  that hands one baton at a time to its threads: the probe of the range support and the download
  of a file are two of them.
\<close>

section \<open>Interleavings\<close>

inductive pool :: "('t \<Rightarrow> 's \<Rightarrow> 't \<Rightarrow> 's \<Rightarrow> bool) \<Rightarrow> 's \<times> 't list \<Rightarrow> 's \<times> 't list \<Rightarrow> bool"
  for step :: "'t \<Rightarrow> 's \<Rightarrow> 't \<Rightarrow> 's \<Rightarrow> bool" where
  pool_step: "i < length ts \<Longrightarrow> step (ts ! i) s t' s' \<Longrightarrow> pool step (s, ts) (s', ts[i := t'])"

inductive_cases pool_elim: "pool step (s, ts) c"

abbreviation pools :: "('t \<Rightarrow> 's \<Rightarrow> 't \<Rightarrow> 's \<Rightarrow> bool) \<Rightarrow> 's \<times> 't list \<Rightarrow> 's \<times> 't list \<Rightarrow> bool" where
  "pools step \<equiv> (pool step)\<^sup>*\<^sup>*"

lemma pool_length: "pool step (s, ts) (s', ts') \<Longrightarrow> length ts' = length ts"
  by (auto elim: pool_elim)

lemma pools_length: "pools step c c' \<Longrightarrow> length (snd c') = length (snd c)"
  by (induction rule: rtranclp_induct) (auto elim: pool.cases)

lemma pools_step:
  "pools step c (s, ts) \<Longrightarrow> i < length ts \<Longrightarrow> step (ts ! i) s t' s' \<Longrightarrow> c' = (s', ts[i := t']) \<Longrightarrow> pools step c c'"
  using pool_step [of i ts step s t' s'] by (auto intro: rtranclp.rtrancl_into_rtrancl)

lemma count_update:
  "i < length ts \<Longrightarrow> length (filter P (ts[i := t])) + of_bool (P (ts ! i)) = length (filter P ts) + of_bool (P t)"
proof (induction ts arbitrary: i)
  case (Cons x ts)
  then show ?case by (cases i) auto
qed simp

lemma count_member:
  assumes "i < length ts" "P (ts ! i)"
  shows "0 < length (filter P ts)"
proof -
  have "ts ! i \<in> set (filter P ts)" using assms by simp
  then show ?thesis by (metis length_pos_if_in_set)
qed

lemma count_two:
  assumes "i < length ts" "j < length ts" "P (ts ! i)" "P (ts ! j)" "length (filter P ts) \<le> 1"
  shows "i = j"
proof (rule ccontr)
  assume "i \<noteq> j"
  have "{i, j} \<subseteq> {k. k < length ts \<and> P (ts ! k)}" using assms by auto
  then have "card {i, j} \<le> length (filter P ts)"
    unfolding length_filter_conv_card by (intro card_mono) auto
  with \<open>i \<noteq> j\<close> assms(5) show False by simp
qed

section \<open>One baton\<close>

text \<open>
  \<open>ok t s\<close> is what a thread knows of the state. A step keeps what its own thread knows, and, since
  two threads never own the baton together, what every other thread knows.
\<close>

locale baton =
  fixes step :: "'t \<Rightarrow> 's \<Rightarrow> 't \<Rightarrow> 's \<Rightarrow> bool"
    and owner :: "'t \<Rightarrow> bool" and busy :: "'s \<Rightarrow> bool" and ok :: "'t \<Rightarrow> 's \<Rightarrow> bool"
  assumes own_ok: "step t s t' s' \<Longrightarrow> ok t s \<Longrightarrow> (owner t \<Longrightarrow> busy s) \<Longrightarrow> ok t' s'"
    and other_ok: "step t s t' s' \<Longrightarrow> ok t s \<Longrightarrow> ok u s \<Longrightarrow> \<not> (owner t \<and> owner u) \<Longrightarrow>
      (owner t \<or> owner u \<Longrightarrow> busy s) \<Longrightarrow> ok u s'"
    and pass: "step t s t' s' \<Longrightarrow> ok t s \<Longrightarrow> (owner t \<Longrightarrow> busy s) \<Longrightarrow>
      (if owner t = owner t' then busy s' = busy s else busy s = owner t \<and> busy s' = owner t')"
begin

definition pool_inv :: "'s \<times> 't list \<Rightarrow> bool" where
  "pool_inv c \<longleftrightarrow>
     length (filter owner (snd c)) = of_bool (busy (fst c)) \<and> (\<forall>t \<in> set (snd c). ok t (fst c))"

lemma pool_inv_step:
  assumes "pool step c c'" "pool_inv c"
  shows "pool_inv c'"
  using assms(1)
proof cases
  case (pool_step i ts s t' s')
  let ?t = "ts ! i"
  have count: "length (filter owner ts) = of_bool (busy s)" and ok: "\<And>t. t \<in> set ts \<Longrightarrow> ok t s"
    using assms(2) pool_step(1) by (simp_all add: pool_inv_def)
  have oki: "ok ?t s" using ok pool_step(3) by simp
  have busy: "busy s" if "j < length ts" "owner (ts ! j)" for j
    using count count_member [of j ts owner] that by (cases "busy s") auto
  have "length (filter owner (ts[i := t'])) + of_bool (owner ?t) = of_bool (busy s) + of_bool (owner t')"
    using count_update [OF pool_step(3), of owner t'] count by simp
  with pass [OF pool_step(4) oki] busy [OF pool_step(3)]
  have "length (filter owner (ts[i := t'])) = of_bool (busy s')"
    by (cases "owner ?t"; cases "owner t'"; cases "busy s"; cases "busy s'") auto
  moreover have "ok (ts[i := t'] ! j) s'" if "j < length ts" for j
  proof (cases "j = i")
    case True
    then show ?thesis using own_ok [OF pool_step(4) oki] busy [OF pool_step(3)] that by simp
  next
    case False
    have "\<not> (owner ?t \<and> owner (ts ! j))"
      using count_two [of i ts j owner] count pool_step(3) that False by (cases "busy s") auto
    moreover have "ok (ts ! j) s" using ok that by simp
    ultimately have "ok (ts ! j) s'"
      using other_ok [OF pool_step(4) oki] busy pool_step(3) that by metis
    then show ?thesis using False by simp
  qed
  ultimately show ?thesis
    unfolding pool_step(2) pool_inv_def by (auto simp: in_set_conv_nth)
qed

lemma pool_inv_steps: "pools step c c' \<Longrightarrow> pool_inv c \<Longrightarrow> pool_inv c'"
  by (induction rule: rtranclp_induct) (auto intro: pool_inv_step)

lemma pool_inv_owner:
  "pool_inv (s, ts) \<Longrightarrow> busy s \<longleftrightarrow> (\<exists>t \<in> set ts. owner t)"
proof (cases "busy s")
  case True
  assume "pool_inv (s, ts)"
  then have "filter owner ts \<noteq> []" using True by (auto simp: pool_inv_def)
  then show ?thesis using True by (auto simp: filter_empty_conv)
qed (auto simp: pool_inv_def filter_empty_conv)

lemma pool_inv_unique:
  "pool_inv (s, ts) \<Longrightarrow> i < length ts \<Longrightarrow> j < length ts \<Longrightarrow> owner (ts ! i) \<Longrightarrow> owner (ts ! j) \<Longrightarrow> i = j"
  unfolding pool_inv_def by (rule count_two [of i ts j owner]) auto

lemma pool_inv_ok: "pool_inv (s, ts) \<Longrightarrow> i < length ts \<Longrightarrow> ok (ts ! i) s"
  unfolding pool_inv_def by simp

lemma pool_inv_init: "\<not> busy s \<Longrightarrow> (\<And>t. t \<in> set ts \<Longrightarrow> \<not> owner t \<and> ok t s) \<Longrightarrow> pool_inv (s, ts)"
  unfolding pool_inv_def by (auto simp: filter_empty_conv)

end

end
