(* ===== verification/Http_Probe.thy ===== *)
theory Http_Probe
  imports Thread_Pool
begin

text \<open>
  Whether a server supports range requests (\<open>RangeRequestState\<close> of src/src/include/http/http_state.hpp).
  The first request to a file probes the server while the others wait; its guard resolves the
  probe or gives it up. Every function is one access under the lock, or the one load outside it.
\<close>

section \<open>State and guards\<close>

datatype RangeRequestSupport = UNKNOWN | SUPPORTED | NOT_SUPPORTED

record RangeRequestState =
  probing :: bool
  range_support :: RangeRequestSupport

definition init_range_state :: RangeRequestState where
  "init_range_state = \<lparr>probing = False, range_support = UNKNOWN\<rparr>"

record Guard =
  guard_support :: RangeRequestSupport
  guard_enabled :: bool
  owns_probe :: bool

definition GuardLoad :: "bool \<Rightarrow> RangeRequestState \<Rightarrow> Guard" where
  "GuardLoad enabled st =
     \<lparr>guard_support = (if enabled then range_support st else SUPPORTED), guard_enabled = enabled, owns_probe = False\<rparr>"

text \<open>The part of the constructor under the lock, for a guard that loaded \<open>UNKNOWN\<close>.\<close>

definition GuardProbe :: "Guard \<Rightarrow> RangeRequestState \<Rightarrow> (Guard \<times> RangeRequestState) outcome" where
  "GuardProbe g st =
     (if probing st \<and> range_support st = UNKNOWN then Blocked
      else let g1 = g\<lparr>guard_support := range_support st\<rparr>
        in if range_support st = UNKNOWN then Done (g1\<lparr>owns_probe := True\<rparr>, st\<lparr>probing := True\<rparr>)
           else Done (g1, st))"

definition ResolveProbe :: "RangeRequestSupport \<Rightarrow> RangeRequestState \<Rightarrow> RangeRequestState" where
  "ResolveProbe new_support st = st\<lparr>range_support := new_support, probing := False\<rparr>"

definition AbortProbe :: "RangeRequestState \<Rightarrow> RangeRequestState" where
  "AbortProbe st = (if range_support st = UNKNOWN then st\<lparr>probing := False\<rparr> else st)"

definition MarkSupported :: "Guard \<Rightarrow> RangeRequestState \<Rightarrow> Guard \<times> RangeRequestState" where
  "MarkSupported g st =
     (if guard_enabled g \<and> guard_support g = UNKNOWN
      then (g\<lparr>guard_support := SUPPORTED, owns_probe := False\<rparr>, ResolveProbe SUPPORTED st)
      else (g, st))"

definition MarkNotSupported :: "Guard \<Rightarrow> RangeRequestState \<Rightarrow> Guard \<times> RangeRequestState" where
  "MarkNotSupported g st =
     (if \<not> guard_enabled g then (g, st)
      else (g\<lparr>guard_support := NOT_SUPPORTED, owns_probe := False\<rparr>, ResolveProbe NOT_SUPPORTED st))"

definition DestroyGuard :: "Guard \<Rightarrow> RangeRequestState \<Rightarrow> RangeRequestState" where
  "DestroyGuard g st = (if owns_probe g then AbortProbe st else st)"

lemmas guard_defs =
  GuardLoad_def GuardProbe_def ResolveProbe_def AbortProbe_def MarkSupported_def MarkNotSupported_def DestroyGuard_def

section \<open>Threads with a guard\<close>

text \<open>A thread has no guard, or one that is at the lock, or one that it uses for a request.\<close>

datatype GuardThread = OUTSIDE | WAITING Guard | HOLDING Guard

inductive guard_step :: "GuardThread \<Rightarrow> RangeRequestState \<Rightarrow> GuardThread \<Rightarrow> RangeRequestState \<Rightarrow> bool" where
  begin_request: "g = GuardLoad enabled s \<Longrightarrow>
    guard_step OUTSIDE s (if guard_enabled g \<and> guard_support g = UNKNOWN then WAITING g else HOLDING g) s"
| probe: "GuardProbe g s = Done (g', s') \<Longrightarrow> guard_step (WAITING g) s (HOLDING g') s'"
| mark_supported: "MarkSupported g s = (g', s') \<Longrightarrow> guard_step (HOLDING g) s (HOLDING g') s'"
| mark_not_supported: "MarkNotSupported g s = (g', s') \<Longrightarrow> guard_step (HOLDING g) s (HOLDING g') s'"
| destroyed: "s' = DestroyGuard g s \<Longrightarrow> guard_step (HOLDING g) s OUTSIDE s'"

fun owns_guard :: "GuardThread \<Rightarrow> bool" where
  "owns_guard (HOLDING g) = owns_probe g"
| "owns_guard t = False"

fun guard_ok :: "GuardThread \<Rightarrow> RangeRequestState \<Rightarrow> bool" where
  "guard_ok OUTSIDE s = (probing s \<longrightarrow> range_support s = UNKNOWN)"
| "guard_ok (WAITING g) s =
     ((probing s \<longrightarrow> range_support s = UNKNOWN) \<and> guard_enabled g \<and> \<not> owns_probe g)"
| "guard_ok (HOLDING g) s =
     ((probing s \<longrightarrow> range_support s = UNKNOWN) \<and>
      (if owns_probe g then guard_enabled g \<and> guard_support g = UNKNOWN \<and> range_support s = UNKNOWN
       else guard_enabled g \<longrightarrow> guard_support g \<noteq> UNKNOWN \<and> range_support s \<noteq> UNKNOWN))"

interpretation probe: baton guard_step owns_guard probing guard_ok
proof
  fix t s t' s' assume step: "guard_step t s t' s'" and ok: "guard_ok t s"
  show "guard_ok t' s'" if "owns_guard t \<Longrightarrow> probing s"
    using step ok that by cases (auto simp: guard_defs Let_def split: if_splits)
  show "guard_ok u s'"
    if "guard_ok u s" "\<not> (owns_guard t \<and> owns_guard u)" "owns_guard t \<or> owns_guard u \<Longrightarrow> probing s" for u
    using step ok that by cases (cases u; auto simp: guard_defs Let_def split: if_splits)+
  show "if owns_guard t = owns_guard t' then probing s' = probing s else probing s = owns_guard t \<and> probing s' = owns_guard t'"
    if "owns_guard t \<Longrightarrow> probing s"
    using step ok that by cases (auto simp: guard_defs Let_def split: if_splits)
qed

definition init_guards :: "nat \<Rightarrow> RangeRequestState \<times> GuardThread list" where
  "init_guards n = (init_range_state, replicate n OUTSIDE)"

lemma reachable_guards: "pools guard_step (init_guards n) c \<Longrightarrow> probe.pool_inv c"
  by (rule probe.pool_inv_steps)
     (auto simp: init_guards_def init_range_state_def intro: probe.pool_inv_init)

section \<open>Properties\<close>

text \<open>
  However requests interleave, at most one of them probes the server: the probe is marked as
  running exactly while one guard owns it, and a guard in use whose support is unknown is the
  owner, so a server is never probed by two requests at once.
\<close>

theorem single_probe:
  assumes "pools guard_step (init_guards n) (s, ts)"
  shows "(probing s \<longleftrightarrow> (\<exists>i < length ts. owns_guard (ts ! i))) \<and>
    (\<forall>i < length ts. \<forall>j < length ts. owns_guard (ts ! i) \<and> owns_guard (ts ! j) \<longrightarrow> i = j) \<and>
    (\<forall>i < length ts. \<forall>g. ts ! i = HOLDING g \<and> guard_enabled g \<and> guard_support g = UNKNOWN \<longrightarrow> owns_probe g)"
proof (intro conjI allI impI)
  note inv = reachable_guards [OF assms]
  show "probing s \<longleftrightarrow> (\<exists>i < length ts. owns_guard (ts ! i))"
    unfolding probe.pool_inv_owner [OF inv] by (metis in_set_conv_nth)
  show "i = j" if "i < length ts" "j < length ts" "owns_guard (ts ! i) \<and> owns_guard (ts ! j)" for i j
    using probe.pool_inv_unique [OF inv that(1,2)] that(3) by blast
  show "owns_probe g"
    if "i < length ts" "ts ! i = HOLDING g \<and> guard_enabled g \<and> guard_support g = UNKNOWN" for i g
    using probe.pool_inv_ok [OF inv that(1)] that(2) by (auto split: if_splits)
qed

text \<open>Two requests begin, and the first one becomes the owner of the probe.\<close>

abbreviation waiting_guard :: Guard where
  "waiting_guard \<equiv> \<lparr>guard_support = UNKNOWN, guard_enabled = True, owns_probe = False\<rparr>"

abbreviation probing_guard :: Guard where
  "probing_guard \<equiv> \<lparr>guard_support = UNKNOWN, guard_enabled = True, owns_probe = True\<rparr>"

lemma guard_step_load: "guard_step OUTSIDE init_range_state (WAITING waiting_guard) init_range_state"
  using begin_request [OF refl, of init_range_state True] by (simp add: GuardLoad_def init_range_state_def)

lemma guards_run:
  "pools guard_step (init_guards 2)
     (\<lparr>probing = True, range_support = UNKNOWN\<rparr>, [HOLDING probing_guard, WAITING waiting_guard])"
proof -
  have "pools guard_step (init_guards 2) (init_range_state, [OUTSIDE, OUTSIDE])"
    by (simp add: init_guards_def numeral_2_eq_2)
  then have "pools guard_step (init_guards 2) (init_range_state, [WAITING waiting_guard, OUTSIDE])"
    by (rule pools_step [where i = 0]) (simp_all add: guard_step_load)
  then have "pools guard_step (init_guards 2) (init_range_state, [WAITING waiting_guard, WAITING waiting_guard])"
    by (rule pools_step [where i = 1]) (simp_all add: guard_step_load)
  then show ?thesis
    by (rule pools_step [where i = 0]) (auto intro: probe simp: GuardProbe_def init_range_state_def)
qed

theorem single_probe_witness:
  "\<exists>i < length [HOLDING probing_guard, WAITING waiting_guard].
     owns_guard ([HOLDING probing_guard, WAITING waiting_guard] ! i)"
  using single_probe [OF guards_run] by simp

text \<open>
  The answer about a server is final: once the support of range requests is known it is never
  unknown again, and once it is known that the server does not support them, no request that is
  still under way can make it supported.
\<close>

theorem not_supported_final:
  assumes "pools guard_step (init_guards n) c" "pools guard_step c c'"
  shows "(range_support (fst c) = NOT_SUPPORTED \<longrightarrow> range_support (fst c') = NOT_SUPPORTED) \<and>
    (range_support (fst c) \<noteq> UNKNOWN \<longrightarrow> range_support (fst c') \<noteq> UNKNOWN)"
proof -
  have step: "(range_support s = NOT_SUPPORTED \<longrightarrow> range_support s' = NOT_SUPPORTED) \<and>
      (range_support s \<noteq> UNKNOWN \<longrightarrow> range_support s' \<noteq> UNKNOWN)"
    if "guard_step t s t' s'" "guard_ok t s" for t s t' s'
    using that by cases (auto simp: guard_defs Let_def split: if_splits)
  from assms(2,1) show ?thesis
  proof (induction rule: rtranclp_induct)
    case (step c1 c2)
    then have inv: "probe.pool_inv c1" using reachable_guards rtranclp_trans [of "pool guard_step"] by metis
    from step(2) show ?case
    proof cases
      case (pool_step i ts s t' s')
      then have "guard_ok (ts ! i) s" using probe.pool_inv_ok inv by blast
      with \<open>\<And>t s t' s'. guard_step t s t' s' \<Longrightarrow> guard_ok t s \<Longrightarrow> _\<close> [OF pool_step(4)] step.IH step.prems pool_step
      show ?thesis by auto
    qed
  qed simp
qed

text \<open>The owner finds that ranges are not supported; the waiting guard takes the answer over.\<close>

abbreviation refused_guard :: Guard where
  "refused_guard \<equiv> \<lparr>guard_support = NOT_SUPPORTED, guard_enabled = True, owns_probe = False\<rparr>"

abbreviation refused_state :: RangeRequestState where
  "refused_state \<equiv> \<lparr>probing = False, range_support = NOT_SUPPORTED\<rparr>"

theorem not_supported_final_witness:
  "pools guard_step (init_guards 2) (refused_state, [HOLDING refused_guard, HOLDING refused_guard]) \<and>
   range_support (fst (refused_state, [HOLDING refused_guard, HOLDING refused_guard])) = NOT_SUPPORTED"
proof -
  have 1: "pools guard_step (init_guards 2) (refused_state, [HOLDING refused_guard, WAITING waiting_guard])"
    by (rule pools_step [OF guards_run, where i = 0])
       (auto intro: mark_not_supported simp: MarkNotSupported_def ResolveProbe_def)
  have 2: "pools guard_step (refused_state, [HOLDING refused_guard, WAITING waiting_guard])
      (refused_state, [HOLDING refused_guard, HOLDING refused_guard])"
    by (rule pools_step [OF rtranclp.rtrancl_refl, where i = 1]) (auto intro: probe simp: GuardProbe_def)
  from not_supported_final [OF 1 2] rtranclp_trans [OF 1 2] show ?thesis by simp
qed

text \<open>
  C30: No request waits for ever on the probe: a guard at the lock proceeds at once, or another
  request owns the probe, and whatever that request does last with its guard, whether it finds the server
  to support ranges or not or fails, lets the waiting guard proceed.
\<close>

theorem probe_progress:
  assumes "pools guard_step (init_guards n) (s, ts)" "i < length ts" "ts ! i = WAITING g"
  shows "(\<exists>g' s'. guard_step (WAITING g) s (HOLDING g') s') \<or>
    (\<exists>j < length ts. \<exists>h. j \<noteq> i \<and> ts ! j = HOLDING h \<and> owns_probe h \<and>
       (\<forall>s' \<in> {snd (MarkSupported h s), snd (MarkNotSupported h s), DestroyGuard h s}.
          \<exists>g' s''. guard_step (WAITING g) s' (HOLDING g') s''))"
proof (cases "GuardProbe g s")
  case Blocked
  note inv = reachable_guards [OF assms(1)]
  have busy: "probing s" "range_support s = UNKNOWN" using Blocked by (auto simp: GuardProbe_def Let_def split: if_splits)
  then obtain t where "t \<in> set ts" "owns_guard t" using probe.pool_inv_owner [OF inv] by blast
  then obtain j h where j: "j < length ts" "ts ! j = HOLDING h" "owns_probe h"
    by (metis in_set_conv_nth owns_guard.elims(2))
  have h: "guard_enabled h" "guard_support h = UNKNOWN"
    using probe.pool_inv_ok [OF inv j(1)] j(2,3) by simp_all
  have free: "\<exists>g' s''. guard_step (WAITING g) s' (HOLDING g') s''" if "\<not> probing s'" for s'
    using probe [of g s'] that by (cases "GuardProbe g s'") (auto simp: GuardProbe_def Let_def split: if_splits)
  have "\<not> probing (snd (MarkSupported h s))" "\<not> probing (snd (MarkNotSupported h s))" "\<not> probing (DestroyGuard h s)"
    using h j(3) busy by (simp_all add: guard_defs)
  then have "\<forall>s' \<in> {snd (MarkSupported h s), snd (MarkNotSupported h s), DestroyGuard h s}.
      \<exists>g' s''. guard_step (WAITING g) s' (HOLDING g') s''"
    using free by blast
  moreover have "j \<noteq> i" using assms(3) j(2) by auto
  ultimately show ?thesis using j by blast
next
  case (Done x)
  then show ?thesis using probe [of g s] by (cases x) blast
qed (auto simp: GuardProbe_def Let_def split: if_splits)

theorem probe_progress_witness:
  "\<exists>g' s''. guard_step (WAITING waiting_guard) (DestroyGuard probing_guard \<lparr>probing = True, range_support = UNKNOWN\<rparr>)
     (HOLDING g') s''"
proof -
  have blocked: "\<not> guard_step (WAITING waiting_guard) \<lparr>probing = True, range_support = UNKNOWN\<rparr> (HOLDING g') s'" for g' s'
    by (auto elim: guard_step.cases simp: GuardProbe_def)
  have "h = probing_guard" if "[HOLDING probing_guard, WAITING waiting_guard] ! j = HOLDING h" "j < Suc (Suc 0)" for j h
    using that by (auto simp: less_Suc_eq)
  moreover obtain j h where "j < Suc (Suc 0)" "[HOLDING probing_guard, WAITING waiting_guard] ! j = HOLDING h"
    "\<forall>s' \<in> {snd (MarkSupported h \<lparr>probing = True, range_support = UNKNOWN\<rparr>),
        snd (MarkNotSupported h \<lparr>probing = True, range_support = UNKNOWN\<rparr>),
        DestroyGuard h \<lparr>probing = True, range_support = UNKNOWN\<rparr>}.
       \<exists>g' s''. guard_step (WAITING waiting_guard) s' (HOLDING g') s''"
    using probe_progress [OF guards_run, of 1 waiting_guard] blocked by fastforce
  ultimately show ?thesis by blast
qed

end
