(* ===== verification/Http_Cached_File.thy ===== *)
theory Http_Cached_File
  imports Thread_Pool
begin

text \<open>
  The full download of a file that the handles of a query share (\<open>CachedFile\<close> of
  src/src/http/http_state.cpp). One thread downloads while the others wait. The buffer of a
  download is the list of the bytes of its allocation; an access outside of it is \<open>MemoryFault\<close>, a
  loop that does not end is \<open>Diverged\<close>. \<open>A\<close> is the allocator.
\<close>

section \<open>The buffer of a download\<close>

datatype 'a memory_result = Diverged | MemoryFault | Thrown exn | Returned 'a

record CachedFileDownload =
  download_data :: string
  download_capacity :: u64
  download_size :: u64

definition init_download :: CachedFileDownload where
  "init_download = \<lparr>download_data = [], download_capacity = 0, download_size = 0\<rparr>"

definition mem_read :: "string \<Rightarrow> nat \<Rightarrow> string option" where
  "mem_read m n = (if n \<le> length m then Some (take n m) else None)"

definition mem_write :: "string \<Rightarrow> nat \<Rightarrow> string \<Rightarrow> string option" where
  "mem_write m offset src =
     (if offset + length src \<le> length m then Some (take offset m @ src @ drop (offset + length src) m) else None)"

definition ReserveInternal :: "(u64 \<Rightarrow> string) \<Rightarrow> u64 \<Rightarrow> CachedFileDownload \<Rightarrow> CachedFileDownload memory_result" where
  "ReserveInternal A capacity dl =
     (if capacity \<le> download_capacity dl then Returned dl
      else
        let new_data = A capacity;
            copied = (if download_size dl > 0
                      then Option.bind (mem_read (download_data dl) (unat (download_size dl))) (mem_write new_data 0)
                      else Some new_data)
        in case copied of
             None \<Rightarrow> MemoryFault
           | Some m \<Rightarrow> Returned (dl\<lparr>download_data := m, download_capacity := capacity\<rparr>))"

definition Reserve :: "(u64 \<Rightarrow> string) \<Rightarrow> u64 \<Rightarrow> CachedFileDownload \<Rightarrow> CachedFileDownload memory_result" where
  "Reserve A capacity dl = ReserveInternal A capacity dl"

text \<open>The doubling of the capacity, which would not end from capacity zero.\<close>

partial_function (option) GrowLoop :: "u64 \<Rightarrow> u64 \<Rightarrow> u64 option" where
  "GrowLoop new_capacity required_capacity =
     (if new_capacity < required_capacity then
        (if new_capacity > (- 1) div 2 then Some required_capacity
         else GrowLoop (new_capacity * 2) required_capacity)
      else Some new_capacity)"

definition Append :: "(u64 \<Rightarrow> string) \<Rightarrow> string \<Rightarrow> CachedFileDownload \<Rightarrow> CachedFileDownload memory_result" where
  "Append A data dl =
     (let len = word_of_nat (length data) :: u64
      in if len = 0 then Returned dl
         else if len > - 1 - download_size dl then
           Thrown (Exn OutOfMemoryException ''Cached file size exceeds the maximum allocation size'' [])
         else
           let required_capacity = download_size dl + len;
               grown = (if required_capacity > download_capacity dl then
                          (case GrowLoop (max (download_capacity dl) len) required_capacity of
                             None \<Rightarrow> Diverged
                           | Some new_capacity \<Rightarrow> ReserveInternal A new_capacity dl)
                        else Returned dl)
           in case grown of
                Returned dl1 \<Rightarrow>
                  (case mem_write (download_data dl1) (unat (download_size dl1)) data of
                     None \<Rightarrow> MemoryFault
                   | Some m \<Rightarrow> Returned (dl1\<lparr>download_data := m, download_size := download_size dl1 + len\<rparr>))
              | r \<Rightarrow> r)"

text \<open>\<open>CachedFileDownload::Reset\<close>.\<close>

definition ResetDownload :: "CachedFileDownload \<Rightarrow> CachedFileDownload" where
  "ResetDownload dl = dl\<lparr>download_data := [], download_capacity := 0, download_size := 0\<rparr>"

section \<open>The shared file\<close>

record CachedFileData =
  cached_bytes :: string
  cached_size :: u64

record CachedFile =
  cached_data :: "CachedFileData option"
  downloading :: bool

definition init_cached_file :: CachedFile where
  "init_cached_file = \<lparr>cached_data = None, downloading = False\<rparr>"

definition TryGetHandle :: "CachedFile \<Rightarrow> CachedFileData option" where
  "TryGetHandle f = cached_data f"

definition GetData :: "CachedFileData \<Rightarrow> string" where
  "GetData h = cached_bytes h"

definition GetSize :: "CachedFileData \<Rightarrow> u64" where
  "GetSize h = cached_size h"

definition StartDownload :: "CachedFile \<Rightarrow> (CachedFileDownload option \<times> CachedFile) outcome" where
  "StartDownload f =
     (if downloading f then Blocked
      else if cached_data f \<noteq> None then Done (None, f)
      else Done (Some init_download, f\<lparr>downloading := True\<rparr>))"

definition Invalidate :: "CachedFile \<Rightarrow> CachedFile" where
  "Invalidate f = f\<lparr>cached_data := None\<rparr>"

definition FinalizeDownload :: "CachedFileDownload \<Rightarrow> CachedFile \<Rightarrow> CachedFileData \<times> CachedFile" where
  "FinalizeDownload dl f =
     (let result = \<lparr>cached_bytes = download_data dl, cached_size = download_size dl\<rparr>
      in (result, f\<lparr>cached_data := Some result, downloading := False\<rparr>))"

definition AbortDownload :: "CachedFile \<Rightarrow> CachedFile" where
  "AbortDownload f = f\<lparr>downloading := False\<rparr>"

section \<open>The buffer holds what was appended\<close>

definition allocates :: "(u64 \<Rightarrow> string) \<Rightarrow> bool" where
  "allocates A \<longleftrightarrow> (\<forall>n. length (A n) = unat n)"

definition download_inv :: "CachedFileDownload \<Rightarrow> string \<Rightarrow> bool" where
  "download_inv dl bytes \<longleftrightarrow>
     length (download_data dl) = unat (download_capacity dl) \<and> unat (download_size dl) = length bytes \<and>
     length bytes \<le> unat (download_capacity dl) \<and> take (length bytes) (download_data dl) = bytes"

lemma half_u64: "unat (((- 1) :: u64) div 2) = 9223372036854775807"
  by (simp add: unat_div unsigned_minus_1_eq_mask mask_eq_exp_minus_1)

lemma double_u64:
  "\<not> n > ((- 1) :: u64) div 2 \<Longrightarrow> unat (n * 2) = unat n * 2"
  using half_u64 by (intro trans [OF unat_u64_mult]) (simp_all add: word_less_nat_alt)

lemma GrowLoop_returns:
  assumes "0 < n"
  shows "\<exists>c. GrowLoop n r = Some c \<and> r \<le> c \<and> n \<le> c"
  using assms
proof (induction "unat r - unat n" arbitrary: n rule: less_induct)
  case less
  show ?case
  proof (cases "n < r \<and> \<not> n > (- 1) div 2")
    case True
    then have double: "unat (n * 2) = unat n * 2" by (intro double_u64) blast
    have pos: "0 < unat n" using less(2) by (simp add: word_less_nat_alt)
    have "unat r - unat (n * 2) < unat r - unat n"
      using True pos unfolding double word_less_nat_alt by arith
    moreover have "0 < n * 2" using pos by (simp add: word_less_nat_alt double)
    ultimately have step: "unat r - unat (n * 2) < unat r - unat n" "0 < n * 2" .
    from less(1) [OF step] obtain c where "GrowLoop (n * 2) r = Some c" "r \<le> c" "n * 2 \<le> c" by blast
    moreover have "n \<le> n * 2" by (simp add: word_le_nat_alt double)
    ultimately show ?thesis using True GrowLoop.simps [of n r] by auto
  next
    case False
    then show ?thesis using GrowLoop.simps [of n r] by (auto simp: not_less)
  qed
qed

lemma mem_write_inv:
  "offset + length src \<le> length m \<Longrightarrow>
    \<exists>m'. mem_write m offset src = Some m' \<and> length m' = length m \<and>
      take (offset + length src) m' = take offset m @ src"
  by (simp add: mem_write_def)

lemma ReserveInternal_inv:
  assumes "allocates A" "download_inv dl bytes"
  shows "\<exists>dl'. ReserveInternal A c dl = Returned dl' \<and> download_inv dl' bytes \<and> c \<le> download_capacity dl' \<and>
    download_size dl' = download_size dl"
proof (cases "c \<le> download_capacity dl")
  case True
  with assms show ?thesis by (auto simp: ReserveInternal_def)
next
  case False
  then have c: "length bytes \<le> unat c" using assms(2) by (auto simp: download_inv_def word_le_nat_alt)
  have read: "mem_read (download_data dl) (unat (download_size dl)) = Some bytes"
    using assms(2) by (simp add: mem_read_def download_inv_def)
  have copy: "mem_write (A c) 0 bytes = Some (bytes @ drop (length bytes) (A c))"
    using c assms(1) by (simp add: mem_write_def allocates_def)
  have empty: "0 < download_size dl \<longleftrightarrow> bytes \<noteq> []"
    using assms(2) by (simp add: download_inv_def word_less_nat_alt)
  show ?thesis
    using False assms c read copy empty
    by (auto simp: ReserveInternal_def download_inv_def allocates_def Let_def word_neq_0_conv)
qed

lemma Append_inv:
  assumes "allocates A" "download_inv dl bytes" "length data < 18446744073709551616"
  shows "if length bytes + length data < 18446744073709551616
    then \<exists>dl'. Append A data dl = Returned dl' \<and> download_inv dl' (bytes @ data)
    else Append A data dl = Thrown (Exn OutOfMemoryException ''Cached file size exceeds the maximum allocation size'' [])"
proof -
  let ?len = "word_of_nat (length data) :: u64"
  have len: "unat ?len = length data" using assms(3) by (simp add: unat_of_nat)
  have size: "unat (download_size dl) = length bytes" using assms(2) by (simp add: download_inv_def)
  have room: "?len > - 1 - download_size dl \<longleftrightarrow> \<not> length bytes + length data < 18446744073709551616"
  proof -
    have "unat (- 1 - download_size dl) = 18446744073709551615 - length bytes"
      by (subst unat_sub) (simp_all add: size unsigned_minus_1_eq_mask mask_eq_exp_minus_1)
    moreover have "length bytes < 18446744073709551616" using unat_u64 [of "download_size dl"] size by simp
    ultimately show ?thesis using len unfolding word_less_nat_alt by auto
  qed
  show ?thesis
  proof (cases "length bytes + length data < 18446744073709551616 \<and> data \<noteq> []")
    case True
    then have pos: "0 < ?len" using len by (simp add: word_less_nat_alt)
    have required: "unat (download_size dl + ?len) = length bytes + length data"
      using True by (subst unat_u64_add) (simp_all add: len size)
    obtain dl1 where dl1: "download_inv dl1 bytes" "download_size dl + ?len \<le> download_capacity dl1"
      "download_size dl1 = download_size dl"
      and grown: "(if download_size dl + ?len > download_capacity dl then
                          (case GrowLoop (max (download_capacity dl) ?len) (download_size dl + ?len) of
                             None \<Rightarrow> Diverged
                           | Some new_capacity \<Rightarrow> ReserveInternal A new_capacity dl)
                        else Returned dl) = Returned dl1"
    proof (cases "download_size dl + ?len > download_capacity dl")
      case grow: True
      have "0 < max (download_capacity dl) ?len" using pos by (rule less_le_trans) simp
      from GrowLoop_returns [OF this] obtain c
        where c: "GrowLoop (max (download_capacity dl) ?len) (download_size dl + ?len) = Some c"
          "download_size dl + ?len \<le> c" by blast
      with ReserveInternal_inv [OF assms(1,2), of c] grow that show ?thesis by force
    next
      case False
      with that [of dl] assms(2) show ?thesis by (simp add: not_less)
    qed
    have "length bytes + length data \<le> length (download_data dl1)"
      using dl1(1,2) required by (simp add: download_inv_def word_le_nat_alt)
    from mem_write_inv [OF this] obtain m where m: "mem_write (download_data dl1) (length bytes) data = Some m"
      "length m = length (download_data dl1)"
      "take (length bytes + length data) m = take (length bytes) (download_data dl1) @ data" by blast
    have "Append A data dl = Returned (dl1\<lparr>download_data := m, download_size := download_size dl + ?len\<rparr>)"
      unfolding Append_def Let_def grown using pos room True dl1(3) size m(1)
      by (simp add: word_neq_0_conv)
    moreover have "download_inv (dl1\<lparr>download_data := m, download_size := download_size dl + ?len\<rparr>) (bytes @ data)"
      using m dl1 required by (simp add: download_inv_def word_le_nat_alt)
    ultimately show ?thesis using True by simp
  next
    case False
    show ?thesis
    proof (cases "data = []")
      case True
      then show ?thesis using assms(2) unat_u64 [of "download_size dl"] size by (simp add: Append_def)
    next
      case nonempty: False
      then have "?len \<noteq> 0" using len by auto
      then show ?thesis using False nonempty room by (auto simp: Append_def)
    qed
  qed
qed

section \<open>Threads that download the file\<close>

text \<open>
  A download carries the bytes that were appended since it was started or reset. A thread without a
  download may invalidate the file at any time.
\<close>

datatype DownloadThread =
    NO_DOWNLOAD
  | AWAITING_DOWNLOAD
  | DOWNLOADING CachedFileDownload string

inductive download_step ::
  "(u64 \<Rightarrow> string) \<Rightarrow> DownloadThread \<Rightarrow> CachedFile \<Rightarrow> DownloadThread \<Rightarrow> CachedFile \<Rightarrow> bool" for A where
  begin_download: "download_step A NO_DOWNLOAD f AWAITING_DOWNLOAD f"
| start_download: "StartDownload f = Done (Some dl, f') \<Longrightarrow>
    download_step A AWAITING_DOWNLOAD f (DOWNLOADING dl []) f'"
| start_finished: "StartDownload f = Done (None, f') \<Longrightarrow> download_step A AWAITING_DOWNLOAD f NO_DOWNLOAD f'"
| invalidate: "f' = Invalidate f \<Longrightarrow> download_step A NO_DOWNLOAD f NO_DOWNLOAD f'"
| reserve: "Reserve A c dl = Returned dl' \<Longrightarrow>
    download_step A (DOWNLOADING dl bytes) f (DOWNLOADING dl' bytes) f"
| append_data: "length data < 18446744073709551616 \<Longrightarrow> Append A data dl = Returned dl' \<Longrightarrow>
    download_step A (DOWNLOADING dl bytes) f (DOWNLOADING dl' (bytes @ data)) f"
| reset: "download_step A (DOWNLOADING dl bytes) f (DOWNLOADING (ResetDownload dl) []) f"
| finalize: "FinalizeDownload dl f = (h, f') \<Longrightarrow> download_step A (DOWNLOADING dl bytes) f NO_DOWNLOAD f'"
| abort: "f' = AbortDownload f \<Longrightarrow> download_step A (DOWNLOADING dl bytes) f NO_DOWNLOAD f'"

fun owns_download :: "DownloadThread \<Rightarrow> bool" where
  "owns_download (DOWNLOADING dl bytes) = True"
| "owns_download t = False"

fun download_ok :: "DownloadThread \<Rightarrow> CachedFile \<Rightarrow> bool" where
  "download_ok (DOWNLOADING dl bytes) f = (cached_data f = None \<and> download_inv dl bytes)"
| "download_ok t f = True"

lemma download_inv_init: "download_inv init_download []" "download_inv (ResetDownload dl) []"
  by (simp_all add: download_inv_def init_download_def ResetDownload_def)

lemma download_inv_reserve:
  "allocates A \<Longrightarrow> download_inv dl bytes \<Longrightarrow> Reserve A c dl = Returned dl' \<Longrightarrow> download_inv dl' bytes"
  using ReserveInternal_inv [of A dl bytes c] by (auto simp: Reserve_def)

lemma download_inv_append:
  "allocates A \<Longrightarrow> download_inv dl bytes \<Longrightarrow> length data < 18446744073709551616 \<Longrightarrow>
    Append A data dl = Returned dl' \<Longrightarrow> download_inv dl' (bytes @ data)"
  using Append_inv [of A dl bytes data] by (auto split: if_splits)

lemma baton_download:
  assumes "allocates A"
  shows "baton (download_step A) owns_download downloading download_ok"
proof
  fix t f t' f' assume step: "download_step A t f t' f'" and ok: "download_ok t f"
  show "download_ok t' f'" if "owns_download t \<Longrightarrow> downloading f"
    using step ok that
    by cases (auto simp: StartDownload_def download_inv_init split: if_splits
        intro: download_inv_reserve [OF assms] download_inv_append [OF assms])
  show "download_ok u f'"
    if "download_ok u f" "\<not> (owns_download t \<and> owns_download u)" "owns_download t \<or> owns_download u \<Longrightarrow> downloading f" for u
    using step ok that
    by cases (cases u; auto simp: StartDownload_def Invalidate_def AbortDownload_def FinalizeDownload_def split: if_splits)+
  show "if owns_download t = owns_download t' then downloading f' = downloading f
      else downloading f = owns_download t \<and> downloading f' = owns_download t'"
    if "owns_download t \<Longrightarrow> downloading f"
    using step ok that
    by cases (auto simp: StartDownload_def Invalidate_def AbortDownload_def FinalizeDownload_def Let_def split: if_splits)
qed

text \<open>An allocator that hands out zeroed memory.\<close>

definition zero_alloc :: "u64 \<Rightarrow> string" where
  "zero_alloc n = replicate (unat n) (CHR 0x00)"

lemma allocates_zero [simp]: "allocates zero_alloc"
  by (simp add: allocates_def zero_alloc_def)

interpretation zero: baton "download_step zero_alloc" owns_download downloading download_ok
  by (rule baton_download [OF allocates_zero])

definition init_downloads :: "nat \<Rightarrow> CachedFile \<times> DownloadThread list" where
  "init_downloads n = (init_cached_file, replicate n NO_DOWNLOAD)"

lemma reachable_downloads:
  assumes "allocates A" "pools (download_step A) (init_downloads n) c"
  shows "baton.pool_inv owns_download downloading download_ok c"
  by (rule baton.pool_inv_steps [OF baton_download [OF assms(1)] assms(2)])
     (auto simp: init_downloads_def init_cached_file_def intro: baton.pool_inv_init [OF baton_download [OF assms(1)]])

section \<open>Properties\<close>

text \<open>
  C31: What the handles of a query read from a downloaded file is exactly what was downloaded: in
  every reachable state the download that is under way is the only one, publishing it publishes
  the bytes appended since it was started or last reset, in their order, and no growth of its buffer
  writes outside the allocation, fails to end or overflows; only a file of 2\<open>^\<close>64 bytes or more is
  refused. The assertions of the code on the shared state hold.
\<close>

theorem download_contents:
  assumes "allocates A" "pools (download_step A) (init_downloads n) (f, ts)"
    and "i < length ts" "ts ! i = DOWNLOADING dl bytes"
  shows "downloading f \<and> cached_data f = None \<and>
    (\<forall>j < length ts. owns_download (ts ! j) \<longrightarrow> j = i) \<and>
    take (unat (GetSize (fst (FinalizeDownload dl f)))) (GetData (fst (FinalizeDownload dl f))) = bytes \<and>
    unat (GetSize (fst (FinalizeDownload dl f))) = length bytes \<and>
    TryGetHandle (snd (FinalizeDownload dl f)) = Some (fst (FinalizeDownload dl f)) \<and>
    (\<forall>c. \<exists>dl'. Reserve A c dl = Returned dl') \<and>
    (\<forall>data. length data < 18446744073709551616 \<longrightarrow>
       (if length bytes + length data < 18446744073709551616 then \<exists>dl'. Append A data dl = Returned dl'
        else \<exists>e. Append A data dl = Thrown e))"
proof -
  note bat = baton_download [OF assms(1)]
  note inv = reachable_downloads [OF assms(1,2)]
  have own: "owns_download (ts ! i)" using assms(4) by simp
  have ok: "cached_data f = None" "download_inv dl bytes"
    using baton.pool_inv_ok [OF bat inv assms(3)] assms(4) by simp_all
  have busy: "downloading f"
    unfolding baton.pool_inv_owner [OF bat inv] using assms(3) own by (auto intro: nth_mem)
  have unique: "\<forall>j < length ts. owns_download (ts ! j) \<longrightarrow> j = i"
    using baton.pool_inv_unique [OF bat inv _ assms(3) _ own] by blast
  have reserve: "\<exists>dl'. Reserve A c dl = Returned dl'" for c
    using ReserveInternal_inv [OF assms(1) ok(2)] unfolding Reserve_def by blast
  have append: "if length bytes + length data < 18446744073709551616 then \<exists>dl'. Append A data dl = Returned dl'
      else \<exists>e. Append A data dl = Thrown e" if "length data < 18446744073709551616" for data
    using Append_inv [OF assms(1) ok(2) that] by (auto split: if_splits)
  show ?thesis
    using busy ok unique reserve append
    by (simp add: FinalizeDownload_def Let_def GetSize_def GetData_def TryGetHandle_def download_inv_def)
qed

lemma downloads_start:
  "pools (download_step A) (init_downloads 2)
     (\<lparr>cached_data = None, downloading = True\<rparr>, [DOWNLOADING init_download [], AWAITING_DOWNLOAD])"
proof -
  have "pools (download_step A) (init_downloads 2) (init_cached_file, [NO_DOWNLOAD, NO_DOWNLOAD])"
    by (simp add: init_downloads_def numeral_2_eq_2)
  then have "pools (download_step A) (init_downloads 2) (init_cached_file, [AWAITING_DOWNLOAD, NO_DOWNLOAD])"
    by (rule pools_step [where i = 0]) (auto intro: begin_download)
  then have "pools (download_step A) (init_downloads 2) (init_cached_file, [AWAITING_DOWNLOAD, AWAITING_DOWNLOAD])"
    by (rule pools_step [where i = 1]) (auto intro: begin_download)
  then show ?thesis
    by (rule pools_step [where i = 0]) (auto intro: start_download simp: StartDownload_def init_cached_file_def)
qed

theorem download_contents_witness:
  "\<exists>dl'. Append zero_alloc ''abc'' init_download = Returned dl'"
  using download_contents [OF allocates_zero downloads_start, of 0 init_download "[]"] by (force split: if_splits)

text \<open>
  C32: A file that was downloaded does not change under the handles that read it: it stays as it is
  until it is invalidated, and another download can only start after that.
\<close>

theorem cached_file_stable:
  assumes "allocates A" "pools (download_step A) (init_downloads n) c" "pool (download_step A) c c'"
    and "TryGetHandle (fst c) = Some h"
  shows "(TryGetHandle (fst c') = Some h \<or> fst c' = Invalidate (fst c)) \<and>
    \<not> downloading (fst c) \<and> \<not> downloading (fst c')"
proof -
  note bat = baton_download [OF assms(1)]
  have inv: "baton.pool_inv owns_download downloading download_ok c"
    by (rule reachable_downloads [OF assms(1,2)])
  obtain f ts where c: "c = (f, ts)" by (cases c)
  have data: "cached_data f \<noteq> None" using assms(4) c by (simp add: TryGetHandle_def)
  have none: "\<not> owns_download (ts ! i)" if "i < length ts" for i
    using baton.pool_inv_ok [OF bat inv [unfolded c] that] data by (cases "ts ! i") auto
  then have idle: "\<not> downloading f"
    unfolding baton.pool_inv_owner [OF bat inv [unfolded c]] by (metis in_set_conv_nth)
  from assms(3) [unfolded c] obtain i t' f' where step: "c' = (f', ts[i := t'])" "i < length ts"
    "download_step A (ts ! i) f t' f'" by (auto elim: pool_elim)
  from step(3) none [OF step(2)] data idle assms(4) show ?thesis
    unfolding c step(1) fst_conv
    by cases (auto simp: StartDownload_def TryGetHandle_def Invalidate_def split: if_splits)
qed

lemma downloads_finished:
  "pools (download_step A) (init_downloads 2)
     (\<lparr>cached_data = Some \<lparr>cached_bytes = [], cached_size = 0\<rparr>, downloading = False\<rparr>, [NO_DOWNLOAD, AWAITING_DOWNLOAD])"
  by (rule pools_step [OF downloads_start, where i = 0])
     (auto intro: finalize simp: FinalizeDownload_def Let_def init_download_def)

theorem cached_file_stable_witness:
  "\<exists>c'. pool (download_step zero_alloc)
     (\<lparr>cached_data = Some \<lparr>cached_bytes = [], cached_size = 0\<rparr>, downloading = False\<rparr>, [NO_DOWNLOAD, AWAITING_DOWNLOAD]) c' \<and>
     \<not> downloading (fst c')"
proof -
  let ?f = "\<lparr>cached_data = Some \<lparr>cached_bytes = [], cached_size = 0\<rparr>, downloading = False\<rparr>"
  have "download_step zero_alloc ([NO_DOWNLOAD, AWAITING_DOWNLOAD] ! 1) ?f NO_DOWNLOAD ?f"
    by (auto intro: start_finished simp: StartDownload_def)
  from pool_step [where i = 1 and step = "download_step zero_alloc" and ts = "[NO_DOWNLOAD, AWAITING_DOWNLOAD]", OF _ this]
  have "pool (download_step zero_alloc) (?f, [NO_DOWNLOAD, AWAITING_DOWNLOAD]) (?f, [NO_DOWNLOAD, NO_DOWNLOAD])" by simp
  with cached_file_stable [OF allocates_zero downloads_finished this] show ?thesis
    by (auto simp: TryGetHandle_def)
qed

text \<open>
  No thread waits for ever for a file: a thread that wants to download it proceeds at once, or
  another thread downloads it, and both the end of that download and its failure let the
  waiting thread proceed: after the end it finds the file, after a failure it starts the
  download itself.
\<close>

theorem download_progress:
  assumes "allocates A" "pools (download_step A) (init_downloads n) (f, ts)" "i < length ts" "ts ! i = AWAITING_DOWNLOAD"
  shows "StartDownload f \<noteq> Blocked \<or>
    (\<exists>j < length ts. \<exists>dl bytes. j \<noteq> i \<and> ts ! j = DOWNLOADING dl bytes \<and>
       StartDownload (snd (FinalizeDownload dl f)) = Done (None, snd (FinalizeDownload dl f)) \<and>
       StartDownload (AbortDownload f) = Done (Some init_download, f))"
proof (cases "downloading f")
  case True
  note bat = baton_download [OF assms(1)]
  note inv = reachable_downloads [OF assms(1,2)]
  obtain t where "t \<in> set ts" "owns_download t" using True baton.pool_inv_owner [OF bat inv] by blast
  then obtain j dl bytes where j: "j < length ts" "ts ! j = DOWNLOADING dl bytes"
    by (metis in_set_conv_nth owns_download.elims(2))
  have "cached_data f = None" using baton.pool_inv_ok [OF bat inv j(1)] j(2) by simp
  with True have "StartDownload (snd (FinalizeDownload dl f)) = Done (None, snd (FinalizeDownload dl f))"
    "StartDownload (AbortDownload f) = Done (Some init_download, f)"
    by (simp_all add: StartDownload_def FinalizeDownload_def AbortDownload_def Let_def)
  moreover have "j \<noteq> i" using assms(4) j(2) by auto
  ultimately show ?thesis using j by blast
qed (simp add: StartDownload_def)

theorem download_progress_witness:
  "\<exists>dl. StartDownload (AbortDownload \<lparr>cached_data = None, downloading = True\<rparr>) =
     Done (Some dl, \<lparr>cached_data = None, downloading = True\<rparr>)"
proof -
  have "StartDownload \<lparr>cached_data = None, downloading = True\<rparr> = Blocked" by (simp add: StartDownload_def)
  with download_progress [OF allocates_zero downloads_start, of 1] show ?thesis by auto
qed

end
