(* ===== verification/Http_Metadata.thy ===== *)
theory Http_Metadata
  imports Http_Probe Http_Cached_File
begin

text \<open>
  What outlives a request: the metadata of files (src/src/include/http/http_metadata_cache.hpp) and the
  state per path and the counters of a query (\<open>HTTPState\<close> of src/src/http/http_state.cpp). A
  \<open>shared_ptr\<close> to the state of a file is its number; the states themselves are \<open>file_heap\<close>, so that a
  handle keeps its state when the entry of its path is erased.
\<close>

section \<open>The metadata cache\<close>

record HTTPMetadataCacheEntry =
  entry_length :: u64
  entry_last_modified :: int
  entry_etag :: string
  entry_version_id :: string
  entry_properties :: "(string \<times> string) list"

datatype HTTPMetadataCacheMode = GLOBAL | QUERY_LOCAL

record HTTPMetadataCache =
  cache_map :: "string \<rightharpoonup> HTTPMetadataCacheEntry"
  cache_mode :: HTTPMetadataCacheMode

definition init_cache :: "HTTPMetadataCacheMode \<Rightarrow> HTTPMetadataCache" where
  "init_cache mode = \<lparr>cache_map = Map.empty, cache_mode = mode\<rparr>"

definition CacheInsert :: "string \<Rightarrow> HTTPMetadataCacheEntry \<Rightarrow> HTTPMetadataCache \<Rightarrow> HTTPMetadataCache" where
  "CacheInsert path val c = c\<lparr>cache_map := (cache_map c)(path \<mapsto> val)\<rparr>"

definition CacheErase :: "string \<Rightarrow> HTTPMetadataCache \<Rightarrow> HTTPMetadataCache" where
  "CacheErase path c = c\<lparr>cache_map := (cache_map c)(path := None)\<rparr>"

definition CacheFind :: "string \<Rightarrow> HTTPMetadataCache \<Rightarrow> HTTPMetadataCacheEntry option" where
  "CacheFind path c = cache_map c path"

definition CacheClear :: "HTTPMetadataCache \<Rightarrow> HTTPMetadataCache" where
  "CacheClear c = c\<lparr>cache_map := Map.empty\<rparr>"

definition CacheQueryEnd :: "HTTPMetadataCache \<Rightarrow> HTTPMetadataCache" where
  "CacheQueryEnd c = (if cache_mode c = QUERY_LOCAL then CacheClear c else c)"

text \<open>The global cache of a file system is created when it is first asked for.\<close>

definition GetGlobalCache :: "HTTPMetadataCache option \<Rightarrow> HTTPMetadataCache" where
  "GetGlobalCache c = (case c of None \<Rightarrow> init_cache GLOBAL | Some m \<Rightarrow> m)"

definition EraseGlobalCacheEntry :: "string \<Rightarrow> HTTPMetadataCache option \<Rightarrow> HTTPMetadataCache option" where
  "EraseGlobalCacheEntry path c = map_option (CacheErase path) c"

section \<open>The state of a query\<close>

record HTTPFileState =
  cached_file :: CachedFile
  range_request_state :: RangeRequestState

definition init_file_state :: HTTPFileState where
  "init_file_state = \<lparr>cached_file = init_cached_file, range_request_state = init_range_state\<rparr>"

record HTTPCounters =
  head_count :: u64
  get_count :: u64
  put_count :: u64
  post_count :: u64
  delete_count :: u64
  total_bytes_received :: u64
  total_bytes_sent :: u64

definition zero_counters :: HTTPCounters where
  "zero_counters =
     \<lparr>head_count = 0, get_count = 0, put_count = 0, post_count = 0, delete_count = 0, total_bytes_received = 0,
      total_bytes_sent = 0\<rparr>"

record HTTPState =
  state_counters :: HTTPCounters
  file_states :: "string \<rightharpoonup> nat"
  file_heap :: "nat \<Rightarrow> HTTPFileState"
  file_next :: nat

definition init_http_state :: HTTPState where
  "init_http_state =
     \<lparr>state_counters = zero_counters, file_states = Map.empty, file_heap = (\<lambda>_. init_file_state), file_next = 0\<rparr>"

text \<open>\<open>HTTPState::Reset\<close>.\<close>

definition ResetState :: "HTTPState \<Rightarrow> HTTPState" where
  "ResetState s = s\<lparr>state_counters := zero_counters, file_states := Map.empty\<rparr>"

definition GetFileState :: "string \<Rightarrow> HTTPState \<Rightarrow> nat \<times> HTTPState" where
  "GetFileState path s =
     (case file_states s path of
        Some i \<Rightarrow> (i, s)
      | None \<Rightarrow>
          (file_next s,
           s\<lparr>file_states := (file_states s)(path \<mapsto> file_next s),
             file_heap := (file_heap s)(file_next s := init_file_state), file_next := Suc (file_next s)\<rparr>))"

definition EraseFileState :: "string \<Rightarrow> HTTPState \<Rightarrow> HTTPState" where
  "EraseFileState path s = s\<lparr>file_states := (file_states s)(path := None)\<rparr>"

definition IsEmpty :: "HTTPState \<Rightarrow> bool" where
  "IsEmpty s \<longleftrightarrow>
     (let c = state_counters s
      in head_count c = 0 \<and> get_count c = 0 \<and> put_count c = 0 \<and> post_count c = 0 \<and> delete_count c = 0 \<and>
         total_bytes_received c = 0 \<and> total_bytes_sent c = 0)"

text \<open>Access to the state of one file.\<close>

definition update_file :: "nat \<Rightarrow> (HTTPFileState \<Rightarrow> HTTPFileState) \<Rightarrow> HTTPState \<Rightarrow> HTTPState" where
  "update_file i f s = s\<lparr>file_heap := (file_heap s)(i := f (file_heap s i))\<rparr>"

lemma file_heap_update [simp]:
  "file_heap (update_file i f s) j = (if j = i then f (file_heap s i) else file_heap s j)"
  by (simp add: update_file_def)

definition TryGetCachedFileHandle :: "nat \<Rightarrow> HTTPState \<Rightarrow> CachedFileData option" where
  "TryGetCachedFileHandle i s = TryGetHandle (cached_file (file_heap s i))"

definition InvalidateCachedFile :: "nat \<Rightarrow> HTTPState \<Rightarrow> HTTPState" where
  "InvalidateCachedFile i s = update_file i (\<lambda>f. f\<lparr>cached_file := Invalidate (cached_file f)\<rparr>) s"

definition update_range :: "nat \<Rightarrow> RangeRequestState \<Rightarrow> HTTPState \<Rightarrow> HTTPState" where
  "update_range i r s = update_file i (\<lambda>f. f\<lparr>range_request_state := r\<rparr>) s"

text \<open>
  \<open>BeginRangeRequest\<close>, for a caller that is not made to wait: \<open>None\<close> while another guard probes.
\<close>

definition BeginRangeRequest :: "bool \<Rightarrow> nat \<Rightarrow> HTTPState \<Rightarrow> (Guard \<times> HTTPState) option" where
  "BeginRangeRequest enabled i s =
     (let st = range_request_state (file_heap s i);
          g = GuardLoad enabled st
      in if guard_enabled g \<and> guard_support g = UNKNOWN
         then (case GuardProbe g st of
                 Done (g', st') \<Rightarrow> Some (g', update_range i st' s)
               | _ \<Rightarrow> None)
         else Some (g, s))"

definition MarkRangeRequestsSupported :: "nat \<Rightarrow> HTTPState \<Rightarrow> HTTPState option" where
  "MarkRangeRequestsSupported i s =
     map_option (\<lambda>(g, s1).
       let (g', st) = MarkSupported g (range_request_state (file_heap s1 i))
       in update_range i (DestroyGuard g' st) s1) (BeginRangeRequest True i s)"

section \<open>Files keep apart\<close>

definition states_wf :: "HTTPState \<Rightarrow> bool" where
  "states_wf s \<longleftrightarrow> ran (file_states s) \<subseteq> {..< file_next s} \<and> inj_on (file_states s) (dom (file_states s))"

lemma GetFileState_wf:
  assumes "states_wf s"
  shows "states_wf (snd (GetFileState path s))"
proof (cases "file_states s path")
  case None
  then have "file_next s \<notin> ran (file_states s)" using assms by (auto simp: states_wf_def)
  with assms None show ?thesis
    by (auto simp: states_wf_def GetFileState_def inj_on_def ran_def domIff subset_iff less_Suc_eq split: if_splits)
qed (simp add: GetFileState_def assms)

lemma states_wf_ops:
  "states_wf init_http_state" "states_wf (ResetState s)"
  "states_wf s \<Longrightarrow> states_wf (EraseFileState path s)" "states_wf s \<Longrightarrow> states_wf (update_file i f s)"
  by (auto simp: states_wf_def init_http_state_def ResetState_def EraseFileState_def update_file_def inj_on_def ran_def
      split: if_splits)

text \<open>
  Handles share the state of a file exactly when they open the same path: two lookups in one
  query give the same state if and only if their paths are the same, whatever was looked up, erased
  or reset before; a state that is looked up for the first time is fresh, and a lookup leaves the
  states of all other files alone, also those whose path was erased while a handle still uses them.
\<close>

theorem GetFileState_shares:
  assumes "states_wf s" "GetFileState p s = (i, s1)" "GetFileState q s1 = (j, s2)"
  shows "(i = j \<longleftrightarrow> p = q) \<and> states_wf s2 \<and>
    (file_states s p = None \<longrightarrow> file_heap s1 i = init_file_state) \<and>
    (\<forall>k < file_next s. file_heap s2 k = file_heap s k) \<and>
    states_wf (EraseFileState p s2) \<and> states_wf (ResetState s2)"
proof -
  have s1: "s1 = snd (GetFileState p s)" and s2: "s2 = snd (GetFileState q s1)" and i: "i = fst (GetFileState p s)"
    and j: "j = fst (GetFileState q s1)" using assms(2,3) by simp_all
  have wf1: "states_wf s1" unfolding s1 by (rule GetFileState_wf) (rule assms(1))
  have wf2: "states_wf s2" unfolding s2 by (rule GetFileState_wf) (rule wf1)
  have found: "file_states s1 p = Some i" unfolding s1 i by (auto simp: GetFileState_def split: option.splits)
  have "i = j \<longleftrightarrow> p = q"
  proof
    assume "i = j"
    show "p = q"
    proof (cases "file_states s1 q")
      case None
      then have "j = file_next s1" unfolding j by (simp add: GetFileState_def)
      moreover have "i < file_next s1" using wf1 found by (auto simp: states_wf_def ran_def)
      ultimately show ?thesis using \<open>i = j\<close> by simp
    next
      case (Some k)
      then have "file_states s1 q = file_states s1 p" using \<open>i = j\<close> found unfolding j by (simp add: GetFileState_def)
      with wf1 Some found show ?thesis by (auto simp: states_wf_def inj_on_def dom_def)
    qed
  next
    assume "p = q"
    with found show "i = j" unfolding j by (simp add: GetFileState_def)
  qed
  moreover have "file_states s p = None \<longrightarrow> file_heap s1 i = init_file_state"
    unfolding s1 i by (simp add: GetFileState_def)
  moreover have "file_heap s2 k = file_heap s k" if "k < file_next s" for k
    using that unfolding s2 s1 by (auto simp: GetFileState_def split: option.splits)
  ultimately show ?thesis using wf2 states_wf_ops by blast
qed

theorem GetFileState_shares_witness:
  "fst (GetFileState ''a'' init_http_state) \<noteq> fst (GetFileState ''b'' (snd (GetFileState ''a'' init_http_state)))"
  using GetFileState_shares [OF states_wf_ops(1), of "''a''" _ _ "''b''", OF surjective_pairing surjective_pairing] by simp

end
