(* ===== verification/Http_Range.thy ===== *)
theory Http_Range
  imports Http_Metadata Http_Types S3_Headers
begin

text \<open>
  One GET request (src/src/http/http_request.cpp): the handlers that receive the response and its
  content, for a range that is read into a buffer (\<open>HTTPRangeRequestContext\<close>) and for a whole file
  that is downloaded. The HTTP client that calls the handlers is not part of this theory: a request
  is sent by a parameter \<open>send\<close>.
\<close>

section \<open>Responses and handlers\<close>

text \<open>
  A response to a GET request also tells whether it counts as a success, and carries the exception
  that \<open>ErrorData\<close> reads from its request error.
\<close>

record GetResponse = HTTPResponse +
  response_success :: bool
  response_failure :: exn

record 's GetHandlers =
  response_handler :: "GetResponse \<Rightarrow> 's \<Rightarrow> bool res \<times> 's"
  content_handler :: "string \<Rightarrow> 's \<Rightarrow> bool res \<times> 's"

record 'h GetRequest =
  request_url :: string
  request_headers :: 'h
  try_request :: bool

datatype HTTPReadConditionType = READ_NONE | READ_ETAG | READ_S3_VERSION_ID

record HTTPReadCondition =
  condition_type :: HTTPReadConditionType
  condition_value :: string

record HTTPReadConfig =
  read_condition :: HTTPReadCondition
  read_etag :: string
  validate_etag :: bool
  auto_fallback :: bool

definition RangeRequestNotSupported :: exn where
  "RangeRequestNotSupported =
     Exn HTTPException (''Content-Length from server mismatches requested range, server may not support range requests. You can try to '' @
       ''resolve this by enabling `SET force_download=true`'') []"

section \<open>Headers of a request\<close>

definition StripETagQuotes :: "string \<Rightarrow> string" where
  "StripETagQuotes etag =
     (if 2 \<le> length etag \<and> hd etag = QUOT \<and> last etag = QUOT then substr etag 1 (length etag - 2) else etag)"

definition ApplyReadCondition :: "'h headers_api \<Rightarrow> HTTPReadConfig \<Rightarrow> 'h \<Rightarrow> 'h" where
  "ApplyReadCondition H config headers =
     (if condition_type (read_condition config) = READ_ETAG
      then header_set H ''If-Match'' (condition_value (read_condition config)) headers else headers)"

definition RemoveRangeHeader :: "duckdb_api \<Rightarrow> 'h headers_api \<Rightarrow> 'h \<Rightarrow> 'h" where
  "RemoveRangeHeader D H headers =
     fold (\<lambda>(k, v) result. if \<not> CIEquals D k ''Range'' then header_set H k v result else result)
       (header_items H headers) (headers_empty H)"

definition PrepareFullGetHeaders :: "duckdb_api \<Rightarrow> 'h headers_api \<Rightarrow> HTTPReadConfig \<Rightarrow> 'h \<Rightarrow> 'h" where
  "PrepareFullGetHeaders D H config headers = ApplyReadCondition H config (RemoveRangeHeader D H headers)"

section \<open>Numbers in headers\<close>

text \<open>\<open>std::stoull\<close>: white space, a sign, digits; what follows is ignored, a minus sign negates.\<close>

definition is_digit :: "char \<Rightarrow> bool" where
  "is_digit c \<longleftrightarrow> (48 :: nat) \<le> of_char c \<and> (of_char c :: nat) \<le> 57"

fun digits_value :: "nat \<Rightarrow> string \<Rightarrow> nat" where
  "digits_value n [] = n"
| "digits_value n (c # cs) = digits_value (n * 10 + (of_char c - 48)) cs"

definition stoull :: "string \<Rightarrow> u64 option" where
  "stoull s =
     (let s1 = dropWhile is_space s;
          negative = (s1 \<noteq> [] \<and> hd s1 = CHR ''-'');
          s2 = (if s1 \<noteq> [] \<and> hd s1 \<in> set ''+-'' then tl s1 else s1);
          digits = takeWhile is_digit s2;
          n = digits_value 0 digits
      in if digits = [] \<or> 18446744073709551616 \<le> n then None
         else Some (if negative then - word_of_nat n else word_of_nat n))"

text \<open>An \<open>optional_idx\<close> cannot hold the largest value, which stands for no value.\<close>

definition optional_idx :: "u64 \<Rightarrow> u64 option" where
  "optional_idx n = (if n = - 1 then None else Some n)"

section \<open>ETags\<close>

text \<open>The validation of a response, and the exception for a response whose condition failed.\<close>

definition ValidateResponseETag :: "string \<Rightarrow> HTTPReadConfig \<Rightarrow> 'a HTTPResponse_scheme \<Rightarrow> exn option" where
  "ValidateResponseETag path config response =
     (if \<not> validate_etag config \<or> read_etag config = [] then None
      else case response_header response ''ETag'' of
             None \<Rightarrow> None
           | Some e \<Rightarrow>
               if e = [] \<or> StripETagQuotes e = StripETagQuotes (read_etag config) then None
               else Some (Exn HTTPException (''ETag on reading file '' @ quoted @ '' was initially %s and now it returned %s, this likely means '' @
                 ''the remote file has changed.'' @ [NL] @ ''For parquet or similar single table sources, consider '' @
                 ''retrying the query, for persistent FileHandles such as databases consider `DETACH` and re-`ATTACH` '' @
                 [NL] @ ''You can disable checking etags via `SET unsafe_disable_etag_checks = true;`'')
                 [path, read_etag config, e]))"

definition ThrowIfReadConditionFailed :: "string \<Rightarrow> HTTPReadConfig \<Rightarrow> 'a HTTPResponse_scheme \<Rightarrow> exn option" where
  "ThrowIfReadConditionFailed path config response =
     (if response_status response \<noteq> 412 \<or> condition_type (read_condition config) \<noteq> READ_ETAG then None
      else Some (Exn HTTPException (''ETag on reading file '' @ quoted @ '' changed after it was opened: the server rejected %s'')
        [path, condition_value (read_condition config)]))"

section \<open>The state the handlers change\<close>

text \<open>
  The buffer of a range request is \<open>None\<close> for a null pointer. \<open>memory_fault\<close> records an access
  outside of a buffer, or a loop that does not end.
\<close>

record RangeContext =
  buffer_out :: "string option"
  buffer_out_len :: u64
  out_offset :: u64
  range_request_not_supported :: bool
  range_guard :: Guard

record HTTPTransfer =
  http_state :: HTTPState
  global_metadata_cache :: "HTTPMetadataCache option"
  range_context :: RangeContext
  full_download :: CachedFileDownload
  memory_fault :: bool

abbreviation set_context :: "(RangeContext \<Rightarrow> RangeContext) \<Rightarrow> HTTPTransfer \<Rightarrow> HTTPTransfer" where
  "set_context f s \<equiv> s\<lparr>range_context := f (range_context s)\<rparr>"

text \<open>A mark of the guard, which changes the state of the file \<open>i\<close>.\<close>

definition mark_guard ::
  "(Guard \<Rightarrow> RangeRequestState \<Rightarrow> Guard \<times> RangeRequestState) \<Rightarrow> nat \<Rightarrow> HTTPTransfer \<Rightarrow> HTTPTransfer" where
  "mark_guard mark i s =
     (let (g, r) = mark (range_guard (range_context s)) (range_request_state (file_heap (http_state s) i))
      in s\<lparr>http_state := update_range i r (http_state s), range_context := (range_context s)\<lparr>range_guard := g\<rparr>\<rparr>)"

section \<open>A range request\<close>

definition ValidateContentLength :: "nat \<Rightarrow> GetResponse \<Rightarrow> HTTPTransfer \<Rightarrow> bool \<times> HTTPTransfer" where
  "ValidateContentLength i response s =
     (case response_header response ''Content-Length'' of
        None \<Rightarrow> (True, s)
      | Some text \<Rightarrow>
          (case stoull text of
             None \<Rightarrow> (True, s)
           | Some content_length \<Rightarrow>
               if content_length = buffer_out_len (range_context s) then (True, s)
               else (False, mark_guard MarkNotSupported i
                      (set_context (\<lambda>c. c\<lparr>range_request_not_supported := True\<rparr>) s))))"

definition HandleResponse ::
  "string \<Rightarrow> nat \<Rightarrow> HTTPReadConfig \<Rightarrow> (GetResponse \<Rightarrow> exn) \<Rightarrow> GetResponse \<Rightarrow> HTTPTransfer \<Rightarrow> bool res \<times> HTTPTransfer" where
  "HandleResponse path i config get_error response s =
     (if response_status response = 412 \<and> condition_type (read_condition config) = READ_ETAG then (Inr False, s)
      else if 400 \<le> response_status response then (Inl (get_error response), s)
      else if 300 \<le> response_status response then (Inr True, s)
      else
        let s1 = set_context (\<lambda>c. c\<lparr>out_offset := 0\<rparr>) s
        in case ValidateResponseETag path config response of
             Some e \<Rightarrow> (Inl e, s1\<lparr>global_metadata_cache := EraseGlobalCacheEntry path (global_metadata_cache s1)\<rparr>)
           | None \<Rightarrow>
               let (valid, s2) = ValidateContentLength i response s1
               in if \<not> valid then (Inr False, s2)
                  else (Inr True, if response_status response = 206 then mark_guard MarkSupported i s2 else s2))"

definition HandleContent :: "string \<Rightarrow> HTTPTransfer \<Rightarrow> bool res \<times> HTTPTransfer" where
  "HandleContent data s =
     (let c = range_context s; data_length = word_of_nat (length data) :: u64
      in case buffer_out c of
           None \<Rightarrow> (Inr True, s)
         | Some buffer \<Rightarrow>
             if out_offset c > buffer_out_len c \<or> data_length > buffer_out_len c - out_offset c then
               (Inl (Exn HTTPException (''Server sent back more data than expected, `SET force_download=true` might '' @
                  ''help in this case'') []), s)
             else
               (case mem_write buffer (unat (out_offset c)) data of
                  None \<Rightarrow> (Inr True, s\<lparr>memory_fault := True\<rparr>)
                | Some m \<Rightarrow>
                    (Inr True, set_context (\<lambda>c. c\<lparr>buffer_out := Some m, out_offset := out_offset c + data_length\<rparr>) s)))"

definition SetRangeRequestNotSupported :: "GetResponse \<Rightarrow> GetResponse" where
  "SetRangeRequestNotSupported response =
     response\<lparr>request_error := True, response_failure := RangeRequestNotSupported, response_success := False\<rparr>"

text \<open>The text of a 64-bit number is the argument \<open>text_of\<close>.\<close>

definition ValidateReadLength ::
  "(u64 \<Rightarrow> string) \<Rightarrow> string \<Rightarrow> string \<Rightarrow> GetResponse option \<Rightarrow> RangeContext \<Rightarrow> exn option" where
  "ValidateReadLength text_of url range_expression response c =
     (case response of
        None \<Rightarrow> None
      | Some r \<Rightarrow>
          if request_error r \<or> \<not> response_success r \<or> buffer_out c = None \<or> out_offset c = buffer_out_len c then None
          else Some (Exn IOException ''Short read for HTTP GET to '%s': requested range %s (%llu bytes), but received %llu bytes''
            [url, range_expression, text_of (buffer_out_len c), text_of (out_offset c)]))"

definition IsSuccessfulResponse :: "GetResponse option \<Rightarrow> bool" where
  "IsSuccessfulResponse response \<longleftrightarrow>
     (case response of
        None \<Rightarrow> False
      | Some r \<Rightarrow> response_success r \<or> response_status r = 206 \<or> response_status r = 202)"

text \<open>\<open>HTTPRangeRequestContext::Finalize\<close>; the network sample it records is not modelled.\<close>

definition FinalizeRange ::
  "(u64 \<Rightarrow> string) \<Rightarrow> string \<Rightarrow> string \<Rightarrow> nat \<Rightarrow> GetResponse option \<Rightarrow> HTTPTransfer \<Rightarrow>
     GetResponse option res \<times> HTTPTransfer" where
  "FinalizeRange text_of url range_expression i response s =
     (if range_request_not_supported (range_context s) then (Inr (map_option SetRangeRequestNotSupported response), s)
      else case ValidateReadLength text_of url range_expression response (range_context s) of
             Some e \<Rightarrow> (Inl e, s)
           | None \<Rightarrow> (Inr response, if IsSuccessfulResponse response then mark_guard MarkSupported i s else s))"

definition range_handlers ::
  "string \<Rightarrow> nat \<Rightarrow> HTTPReadConfig \<Rightarrow> (GetResponse \<Rightarrow> exn) \<Rightarrow> HTTPTransfer GetHandlers" where
  "range_handlers path i config get_error =
     \<lparr>response_handler = HandleResponse path i config get_error, content_handler = HandleContent\<rparr>"

text \<open>The guard is destroyed with the context, also when an exception leaves the request.\<close>

definition end_guard :: "nat \<Rightarrow> HTTPTransfer \<Rightarrow> HTTPTransfer" where
  "end_guard i s =
     s\<lparr>http_state := update_range i
         (DestroyGuard (range_guard (range_context s)) (range_request_state (file_heap (http_state s) i))) (http_state s)\<rparr>"

definition range_expr :: "(u64 \<Rightarrow> string) \<Rightarrow> u64 \<Rightarrow> u64 \<Rightarrow> string" where
  "range_expr text_of file_offset len = ''bytes='' @ text_of file_offset @ ''-'' @ text_of (file_offset + len - 1)"

text \<open>\<open>None\<close> is a request that has to wait for the probe of another one.\<close>

definition RunGetRangeRequest ::
  "'h headers_api \<Rightarrow> (u64 \<Rightarrow> string) \<Rightarrow>
     ('h GetRequest \<Rightarrow> HTTPTransfer GetHandlers \<Rightarrow> HTTPTransfer \<times> 'w \<Rightarrow> GetResponse option res \<times> HTTPTransfer \<times> 'w) \<Rightarrow>
     string \<Rightarrow> nat \<Rightarrow> string \<Rightarrow> 'h \<Rightarrow> HTTPReadConfig \<Rightarrow> u64 \<Rightarrow> string option \<Rightarrow> u64 \<Rightarrow> (GetResponse \<Rightarrow> exn) \<Rightarrow>
     HTTPTransfer \<times> 'w \<Rightarrow> (GetResponse option res \<times> HTTPTransfer \<times> 'w) option" where
  "RunGetRangeRequest H text_of send path i url header_map config file_offset buffer len get_error sw =
     (let range_expression = range_expr text_of file_offset len;
          headers = ApplyReadCondition H config (header_set H ''Range'' range_expression header_map);
          (s, w) = sw
      in map_option (\<lambda>(g, hs).
           let s1 = s\<lparr>http_state := hs, range_context :=
                 \<lparr>buffer_out = buffer, buffer_out_len = len, out_offset = 0, range_request_not_supported = False,
                  range_guard = g\<rparr>\<rparr>
           in if guard_support g = NOT_SUPPORTED \<and> auto_fallback config then
                (Inr (Some (SetRangeRequestNotSupported
                   \<lparr>request_error = False, response_status = 0, response_body = [], response_header = Map.empty,
                    response_success = True, response_failure = RangeRequestNotSupported\<rparr>)), end_guard i s1, w)
              else
                let (outcome, s2, w2) = send
                      \<lparr>request_url = url, request_headers = headers, try_request = auto_fallback config\<rparr>
                      (range_handlers path i config get_error) (s1, w)
                in case outcome of
                     Inl e \<Rightarrow> (Inl e, end_guard i s2, w2)
                   | Inr response \<Rightarrow>
                       let (result, s3) = FinalizeRange text_of url range_expression i response s2
                       in (result, end_guard i s3, w2))
         (BeginRangeRequest (auto_fallback config) i (http_state s)))"

section \<open>A full download\<close>

definition HandleFullResponse ::
  "(u64 \<Rightarrow> string) \<Rightarrow> string \<Rightarrow> HTTPReadConfig \<Rightarrow> (GetResponse \<Rightarrow> exn) \<Rightarrow> GetResponse \<Rightarrow> HTTPTransfer \<Rightarrow> bool res \<times> HTTPTransfer" where
  "HandleFullResponse A path config get_error response s =
     (if response_status response = 412 \<and> condition_type (read_condition config) = READ_ETAG then (Inr False, s)
      else if 400 \<le> response_status response then (Inl (get_error response), s)
      else
        case (if response_status response < 300 then ValidateResponseETag path config response else None) of
          Some e \<Rightarrow> (Inl e, s\<lparr>global_metadata_cache := EraseGlobalCacheEntry path (global_metadata_cache s)\<rparr>)
        | None \<Rightarrow>
            let s1 = s\<lparr>full_download := ResetDownload (full_download s)\<rparr>;
                content_length = Option.bind (Option.bind (response_header response ''Content-Length'') stoull) optional_idx
            in case content_length of
                 Some n \<Rightarrow>
                   if n > 0 then
                     (case Reserve A n (full_download s1) of
                        Returned dl \<Rightarrow> (Inr True, s1\<lparr>full_download := dl\<rparr>)
                      | Thrown e \<Rightarrow> (Inl e, s1)
                      | _ \<Rightarrow> (Inr True, s1\<lparr>memory_fault := True\<rparr>))
                   else (Inr True, s1)
               | None \<Rightarrow> (Inr True, s1))"

definition HandleFullContent :: "(u64 \<Rightarrow> string) \<Rightarrow> string \<Rightarrow> HTTPTransfer \<Rightarrow> bool res \<times> HTTPTransfer" where
  "HandleFullContent A data s =
     (case Append A data (full_download s) of
        Returned dl \<Rightarrow> (Inr True, s\<lparr>full_download := dl\<rparr>)
      | Thrown e \<Rightarrow> (Inl e, s)
      | _ \<Rightarrow> (Inr True, s\<lparr>memory_fault := True\<rparr>))"

definition full_handlers ::
  "(u64 \<Rightarrow> string) \<Rightarrow> string \<Rightarrow> HTTPReadConfig \<Rightarrow> (GetResponse \<Rightarrow> exn) \<Rightarrow> HTTPTransfer GetHandlers" where
  "full_handlers A path config get_error =
     \<lparr>response_handler = HandleFullResponse A path config get_error, content_handler = HandleFullContent A\<rparr>"

definition RunGetRequest ::
  "duckdb_api \<Rightarrow> 'h headers_api \<Rightarrow> (u64 \<Rightarrow> string) \<Rightarrow>
     ('h GetRequest \<Rightarrow> HTTPTransfer GetHandlers \<Rightarrow> HTTPTransfer \<times> 'w \<Rightarrow> GetResponse option res \<times> HTTPTransfer \<times> 'w) \<Rightarrow>
     string \<Rightarrow> string \<Rightarrow> 'h \<Rightarrow> HTTPReadConfig \<Rightarrow> (GetResponse \<Rightarrow> exn) \<Rightarrow>
     HTTPTransfer \<times> 'w \<Rightarrow> GetResponse option res \<times> HTTPTransfer \<times> 'w" where
  "RunGetRequest D H A send path url header_map config get_error sw =
     send \<lparr>request_url = url, request_headers = PrepareFullGetHeaders D H config header_map, try_request = False\<rparr>
       (full_handlers A path config get_error) sw"

section \<open>What an HTTP client does with the handlers\<close>

text \<open>
  A client makes any number of attempts: for each it calls the response handler once, and then the
  content handler with the chunks of the content until a handler stops or throws.
\<close>

type_synonym attempt = "GetResponse \<times> string list"

fun run_content :: "'s GetHandlers \<Rightarrow> string list \<Rightarrow> 's \<Rightarrow> bool res \<times> 's" where
  "run_content h [] s = (Inr True, s)"
| "run_content h (chunk # chunks) s =
     (case content_handler h chunk s of
        (Inr True, s') \<Rightarrow> run_content h chunks s'
      | r \<Rightarrow> r)"

definition run_attempt :: "'s GetHandlers \<Rightarrow> attempt \<Rightarrow> 's \<Rightarrow> bool res \<times> 's" where
  "run_attempt h a s =
     (case response_handler h (fst a) s of
        (Inr True, s') \<Rightarrow> run_content h (snd a) s'
      | r \<Rightarrow> r)"

definition run_attempts :: "'s GetHandlers \<Rightarrow> attempt list \<Rightarrow> 's \<Rightarrow> 's" where
  "run_attempts h as s = fold (\<lambda>a. snd \<circ> run_attempt h a) as s"

abbreviation set_counters :: "HTTPCounters \<Rightarrow> HTTPTransfer \<Rightarrow> HTTPTransfer" where
  "set_counters c s \<equiv> s\<lparr>http_state := (http_state s)\<lparr>state_counters := c\<rparr>\<rparr>"

text \<open>
  The contract of a client: it changes the state through the handlers only, up to the counters,
  and when it returns a response with a status below 300 and no request error, the last attempt
  got that status and no handler threw in it. A success is a status below 300 (304 would answer a
  condition that is never sent). \<open>served\<close> is what is known about the content of an
  attempt that the handlers completed. A client throws a request error unless it was asked to try.
\<close>

definition attempt_ok :: "attempt \<Rightarrow> bool" where
  "attempt_ok a \<longleftrightarrow> list_all (\<lambda>chunk. length chunk < 18446744073709551616) (snd a)"

definition client_run ::
  "(attempt \<Rightarrow> bool) \<Rightarrow> HTTPTransfer GetHandlers \<Rightarrow> attempt list \<Rightarrow> HTTPTransfer \<Rightarrow> GetResponse option res \<Rightarrow>
     HTTPTransfer \<Rightarrow> bool" where
  "client_run served h as s outcome s' \<longleftrightarrow>
     list_all attempt_ok as \<and> (\<exists>c. s' = set_counters c (run_attempts h as s)) \<and>
     (\<forall>r. outcome = Inr (Some r) \<and> \<not> request_error r \<and> response_success r \<longrightarrow> response_status r < 300) \<and>
     (\<forall>r. outcome = Inr (Some r) \<and> \<not> request_error r \<and> response_status r < 300 \<longrightarrow>
        as \<noteq> [] \<and> response_status (fst (last as)) = response_status r \<and>
        (\<exists>b. fst (run_attempt h (last as) (run_attempts h (butlast as) s)) = Inr b \<and> (b \<longrightarrow> served (last as))))"

type_synonym ('h, 'w) sender =
  "'h GetRequest \<Rightarrow> HTTPTransfer GetHandlers \<Rightarrow> HTTPTransfer \<times> 'w \<Rightarrow> GetResponse option res \<times> HTTPTransfer \<times> 'w"

definition http_client :: "('h GetRequest \<Rightarrow> attempt \<Rightarrow> bool) \<Rightarrow> ('h, 'w) sender \<Rightarrow> bool" where
  "http_client served send \<longleftrightarrow>
     (\<forall>req h s w.
        (\<exists>as. client_run (served req) h as s (fst (send req h (s, w))) (fst (snd (send req h (s, w))))) \<and>
        (\<not> try_request req \<longrightarrow> (\<forall>r. fst (send req h (s, w)) = Inr (Some r) \<longrightarrow> \<not> request_error r)))"

lemma client_runs:
  "http_client served send \<Longrightarrow>
    \<exists>as. client_run (served req) h as s (fst (send req h (s, w))) (fst (snd (send req h (s, w))))"
  by (simp add: http_client_def)

section \<open>Invariants of the handlers\<close>

text \<open>
  The contract of a pair of handlers: \<open>inv\<close> holds of the state whatever the attempts, and an attempt
  that was completed leaves \<open>got content\<close>, an attempt that was stopped leaves \<open>stopped\<close>.
\<close>

locale transfer_handlers =
  fixes handlers :: "HTTPTransfer GetHandlers"
    and inv :: "HTTPTransfer \<Rightarrow> bool" and got :: "string \<Rightarrow> HTTPTransfer \<Rightarrow> bool" and stopped :: "HTTPTransfer \<Rightarrow> bool"
  assumes response_inv: "inv s \<Longrightarrow> inv (snd (response_handler handlers r s))"
    and content_inv: "inv s \<Longrightarrow> length chunk < 18446744073709551616 \<Longrightarrow> inv (snd (content_handler handlers chunk s))"
    and response_got: "inv s \<Longrightarrow> response_status r < 300 \<Longrightarrow> fst (response_handler handlers r s) = Inr True \<Longrightarrow>
      got [] (snd (response_handler handlers r s))"
    and content_got: "inv s \<Longrightarrow> got bytes s \<Longrightarrow> length chunk < 18446744073709551616 \<Longrightarrow>
      fst (content_handler handlers chunk s) = Inr True \<Longrightarrow> got (bytes @ chunk) (snd (content_handler handlers chunk s))"
    and response_stopped: "inv s \<Longrightarrow> response_status r < 300 \<Longrightarrow> fst (response_handler handlers r s) = Inr False \<Longrightarrow>
      stopped (snd (response_handler handlers r s))"
    and content_goes_on: "fst (content_handler handlers chunk s) \<noteq> Inr False"
begin

lemma run_content_inv:
  "inv s \<Longrightarrow> list_all (\<lambda>chunk. length chunk < 18446744073709551616) chunks \<Longrightarrow> inv (snd (run_content handlers chunks s))"
proof (induction chunks arbitrary: s)
  case (Cons chunk chunks)
  then have "inv (snd (content_handler handlers chunk s))" by (intro content_inv) simp_all
  with Cons show ?case
    by (cases "content_handler handlers chunk s") (auto split: sum.splits bool.splits)
qed simp

lemma run_content_got:
  "inv s \<Longrightarrow> got bytes s \<Longrightarrow> list_all (\<lambda>chunk. length chunk < 18446744073709551616) chunks \<Longrightarrow>
    run_content handlers chunks s = (Inr b, s') \<Longrightarrow> b \<and> got (bytes @ concat chunks) s'"
proof (induction chunks arbitrary: s bytes)
  case (Cons chunk chunks)
  obtain r s1 where run: "content_handler handlers chunk s = (r, s1)" by (cases "content_handler handlers chunk s")
  have r: "r = Inr True"
    using Cons.prems(4) run content_goes_on [of chunk s] by (cases r) (auto split: bool.splits)
  have "inv s1" "got (bytes @ chunk) s1"
    using content_inv [OF Cons.prems(1), of chunk] content_got [OF Cons.prems(1,2), of chunk] Cons.prems(3) run r by simp_all
  from Cons.IH [OF this] Cons.prems(3,4) run r show ?case by simp
qed simp

lemma run_attempt_inv: "inv s \<Longrightarrow> attempt_ok a \<Longrightarrow> inv (snd (run_attempt handlers a s))"
proof -
  assume "inv s" "attempt_ok a"
  moreover obtain r s1 where run: "response_handler handlers (fst a) s = (r, s1)"
    by (cases "response_handler handlers (fst a) s")
  ultimately show ?thesis
    using response_inv [of s "fst a"] run_content_inv [of s1 "snd a"]
    by (auto simp: run_attempt_def attempt_ok_def split: sum.splits bool.splits)
qed

lemma run_attempts_inv: "inv s \<Longrightarrow> list_all attempt_ok as \<Longrightarrow> inv (run_attempts handlers as s)"
  unfolding run_attempts_def by (induction as arbitrary: s) (simp_all add: run_attempt_inv)

lemma run_attempt_result:
  assumes "inv s" "attempt_ok a" "response_status (fst a) < 300" "run_attempt handlers a s = (Inr b, s')"
  shows "if b then got (concat (snd a)) s' else stopped s'"
proof -
  obtain r s1 where run: "response_handler handlers (fst a) s = (r, s1)"
    by (cases "response_handler handlers (fst a) s")
  show ?thesis
  proof (cases "r = Inr True")
    case True
    then have "inv s1" "got [] s1"
      using response_inv [OF assms(1), of "fst a"] response_got [OF assms(1,3)] run by simp_all
    from run_content_got [OF this, of "snd a" b s'] True run assms(2,4) show ?thesis
      by (simp add: run_attempt_def attempt_ok_def)
  next
    case False
    then have "r = Inr False" "s' = s1" "\<not> b"
      using assms(4) run by (auto simp: run_attempt_def split: sum.splits bool.splits)
    with response_stopped [OF assms(1,3)] run show ?thesis by simp
  qed
qed

text \<open>What a client that keeps its contract leaves behind.\<close>

lemma client_result:
  assumes "client_run served handlers as s outcome s'" "inv s"
  shows "\<exists>c s1. s' = set_counters c s1 \<and> inv s1 \<and>
    (\<forall>r. outcome = Inr (Some r) \<and> \<not> request_error r \<and> response_status r < 300 \<longrightarrow>
       (\<exists>a. response_status (fst a) = response_status r \<and> (served a \<and> got (concat (snd a)) s1 \<or> stopped s1)))"
proof -
  have as: "list_all attempt_ok as" and s': "\<exists>c. s' = set_counters c (run_attempts handlers as s)"
    using assms(1) by (simp_all add: client_run_def)
  have "\<exists>a. response_status (fst a) = response_status r \<and>
      (served a \<and> got (concat (snd a)) (run_attempts handlers as s) \<or> stopped (run_attempts handlers as s))"
    if r: "outcome = Inr (Some r)" "\<not> request_error r" "response_status r < 300" for r
  proof -
    obtain b where last: "as \<noteq> []" "response_status (fst (last as)) = response_status r"
      "fst (run_attempt handlers (last as) (run_attempts handlers (butlast as) s)) = Inr b" "b \<longrightarrow> served (last as)"
      using assms(1) r unfolding client_run_def by blast
    have ok: "list_all attempt_ok (butlast as)" "attempt_ok (last as)"
      using as last(1) by (auto simp: list_all_iff dest: in_set_butlastD)
    have inv: "inv (run_attempts handlers (butlast as) s)" by (rule run_attempts_inv [OF assms(2) ok(1)])
    have "run_attempts handlers (butlast as @ [last as]) s =
        snd (run_attempt handlers (last as) (run_attempts handlers (butlast as) s))"
      by (simp add: run_attempts_def)
    then have "run_attempt handlers (last as) (run_attempts handlers (butlast as) s) =
        (Inr b, run_attempts handlers as s)"
      using last(1,3) by (simp add: prod_eq_iff)
    from run_attempt_result [OF inv ok(2) _ this] last r(3) show ?thesis
      by (intro exI [of _ "last as"]) (auto split: if_splits)
  qed
  with s' run_attempts_inv [OF assms(2) as] show ?thesis by blast
qed

end

section \<open>The handlers of a range request\<close>

text \<open>The part of the buffer behind the range keeps the bytes of the caller's buffer \<open>b0\<close>.\<close>

definition range_inv :: "string \<Rightarrow> u64 \<Rightarrow> HTTPTransfer \<Rightarrow> bool" where
  "range_inv b0 len s \<longleftrightarrow>
     \<not> memory_fault s \<and> unat len \<le> length b0 \<and> buffer_out_len (range_context s) = len \<and>
     out_offset (range_context s) \<le> len \<and>
     (\<exists>b. buffer_out (range_context s) = Some b \<and> length b = length b0 \<and> drop (unat len) b = drop (unat len) b0)"

definition range_got :: "string \<Rightarrow> HTTPTransfer \<Rightarrow> bool" where
  "range_got bytes s \<longleftrightarrow>
     (\<exists>b. buffer_out (range_context s) = Some b \<and> take (unat (out_offset (range_context s))) b = bytes \<and>
        unat (out_offset (range_context s)) = length bytes)"

definition range_stopped :: "HTTPTransfer \<Rightarrow> bool" where
  "range_stopped s \<longleftrightarrow> range_request_not_supported (range_context s)"

lemma mark_guard_context [simp]:
  "buffer_out (range_context (mark_guard m i s)) = buffer_out (range_context s)"
  "buffer_out_len (range_context (mark_guard m i s)) = buffer_out_len (range_context s)"
  "out_offset (range_context (mark_guard m i s)) = out_offset (range_context s)"
  "range_request_not_supported (range_context (mark_guard m i s)) = range_request_not_supported (range_context s)"
  "memory_fault (mark_guard m i s) = memory_fault s" "full_download (mark_guard m i s) = full_download s"
  by (simp_all add: mark_guard_def case_prod_beta)

lemma ValidateContentLength_cases:
  assumes "ValidateContentLength i r s = (valid, s')"
  shows "(valid \<and> s' = s) \<or>
    (\<not> valid \<and> s' = mark_guard MarkNotSupported i (set_context (\<lambda>c. c\<lparr>range_request_not_supported := True\<rparr>) s))"
  using assms by (auto simp: ValidateContentLength_def split: option.splits if_splits)

text \<open>The response handler moves the offset back to the start, or leaves the buffer as it is.\<close>

lemma HandleResponse_buffer:
  assumes "HandleResponse path i config get_error r s = (res, s')"
  shows "buffer_out (range_context s') = buffer_out (range_context s)"
    and "buffer_out_len (range_context s') = buffer_out_len (range_context s)"
    and "out_offset (range_context s') = out_offset (range_context s) \<or> out_offset (range_context s') = 0"
    and "memory_fault s' = memory_fault s"
    and "response_status r < 300 \<Longrightarrow> res = Inr True \<Longrightarrow> out_offset (range_context s') = 0"
    and "response_status r < 300 \<Longrightarrow> res = Inr False \<Longrightarrow> range_request_not_supported (range_context s')"
  using assms
  by (auto simp: HandleResponse_def Let_def split: if_splits option.splits prod.splits dest!: ValidateContentLength_cases)

lemma HandleContent_buffer:
  assumes "range_inv b0 len s" "range_got bytes s" "length chunk < 18446744073709551616"
    and "HandleContent chunk s = (res, s')"
  shows "range_inv b0 len s' \<and> (res = Inr True \<longrightarrow> range_got (bytes @ chunk) s') \<and> res \<noteq> Inr False"
proof -
  let ?c = "range_context s" let ?n = "word_of_nat (length chunk) :: u64"
  obtain b where b: "buffer_out ?c = Some b" "length b = length b0" "drop (unat len) b = drop (unat len) b0"
    "take (unat (out_offset ?c)) b = bytes" "unat (out_offset ?c) = length bytes"
    and inv: "\<not> memory_fault s" "unat len \<le> length b0" "buffer_out_len ?c = len" "out_offset ?c \<le> len"
    using assms(1,2) by (auto simp: range_inv_def range_got_def)
  have n: "unat ?n = length chunk" using assms(3) by (simp add: unat_of_nat)
  have gap: "unat (len - out_offset ?c) = unat len - length bytes" using inv(4) b(5) by (simp add: unat_sub)
  show "range_inv b0 len s' \<and> (res = Inr True \<longrightarrow> range_got (bytes @ chunk) s') \<and> res \<noteq> Inr False"
  proof (cases "?n > len - out_offset ?c")
    case True
    with assms b(1) inv show ?thesis by (auto simp: HandleContent_def Let_def)
  next
    case False
    then have fits: "length bytes + length chunk \<le> unat len"
      using n gap inv(4) b(5) by (simp add: word_less_nat_alt word_le_nat_alt not_less)
    let ?m = "take (length bytes) b @ chunk @ drop (length bytes + length chunk) b"
    have m: "mem_write b (length bytes) chunk = Some ?m"
      using fits inv(2) b(2) by (simp add: mem_write_def)
    have off: "unat (out_offset ?c + ?n) = length bytes + length chunk"
      using fits n b(5) unat_u64 [of len] by (subst unat_u64_add) simp_all
    have "drop (unat len) ?m = drop (unat len) b0"
      using fits inv(2) b(2,3) by (simp add: drop_append)
    moreover have "length ?m = length b0" using fits inv(2) b(2) by simp
    moreover have "take (length bytes + length chunk) ?m = bytes @ chunk" using b(4,5) fits inv(2) b(2) by simp
    moreover have "HandleContent chunk s =
        (Inr True, set_context (\<lambda>c. c\<lparr>buffer_out := Some ?m, out_offset := out_offset c + ?n\<rparr>) s)"
      using False inv(3,4) b(1,5) m by (simp add: HandleContent_def Let_def not_less)
    ultimately show ?thesis
      using assms(4) inv off fits by (auto simp: range_inv_def range_got_def word_le_nat_alt)
  qed
qed

lemma range_inv_got: "range_inv b0 len s \<Longrightarrow> \<exists>bytes. range_got bytes s"
  by (auto simp: range_inv_def range_got_def word_le_nat_alt)

interpretation range: transfer_handlers "range_handlers path i config get_error" "range_inv b0 len" range_got range_stopped
  for path i config get_error b0 len
proof
  fix s r assume inv: "range_inv b0 len s"
  obtain res s' where run: "HandleResponse path i config get_error r s = (res, s')"
    by (cases "HandleResponse path i config get_error r s")
  note buffer = HandleResponse_buffer [OF run]
  show "range_inv b0 len (snd (response_handler (range_handlers path i config get_error) r s))"
    using inv buffer(1-4) by (auto simp: range_handlers_def run range_inv_def)
  show "range_got [] (snd (response_handler (range_handlers path i config get_error) r s))"
    if "response_status r < 300" "fst (response_handler (range_handlers path i config get_error) r s) = Inr True"
    using inv buffer(1) buffer(5) that by (auto simp: range_handlers_def run range_inv_def range_got_def)
  show "range_stopped (snd (response_handler (range_handlers path i config get_error) r s))"
    if "response_status r < 300" "fst (response_handler (range_handlers path i config get_error) r s) = Inr False"
    using buffer(6) that by (simp add: range_handlers_def run range_stopped_def)
  fix chunk :: string assume len: "length chunk < 18446744073709551616"
  obtain bytes where "range_got bytes s" using range_inv_got [OF inv] by blast
  then show "range_inv b0 len (snd (content_handler (range_handlers path i config get_error) chunk s))"
    using HandleContent_buffer [OF inv _ len] by (simp add: range_handlers_def prod_eq_iff)
next
  fix s bytes chunk assume "range_inv b0 len s" "range_got bytes s" "length (chunk :: string) < 18446744073709551616"
    "fst (content_handler (range_handlers path i config get_error) chunk s) = Inr True"
  then show "range_got (bytes @ chunk) (snd (content_handler (range_handlers path i config get_error) chunk s))"
    using HandleContent_buffer [of b0 len s bytes chunk] by (simp add: range_handlers_def prod_eq_iff)
next
  fix chunk s
  show "fst (content_handler (range_handlers path i config get_error) chunk s) \<noteq> Inr False"
    by (auto simp: range_handlers_def HandleContent_def Let_def split: option.splits if_splits)
qed

lemma range_inv_counters [simp]:
  "range_inv b0 len (set_counters c s) = range_inv b0 len s" "range_got bytes (set_counters c s) = range_got bytes s"
  "range_stopped (set_counters c s) = range_stopped s"
  by (simp_all add: range_inv_def range_got_def range_stopped_def)

lemma range_inv_end_guard [simp]:
  "range_inv b0 len (end_guard i s) = range_inv b0 len s" "range_got bytes (end_guard i s) = range_got bytes s"
  by (simp_all add: range_inv_def range_got_def end_guard_def)

lemma FinalizeRange_state:
  "FinalizeRange text_of url e i response s = (result, s') \<Longrightarrow>
    range_inv b0 len s' = range_inv b0 len s \<and> range_got bytes s' = range_got bytes s"
  by (auto simp: FinalizeRange_def range_inv_def range_got_def split: if_splits option.splits)

text \<open>The request that \<open>RunGetRangeRequest\<close> sends.\<close>

definition range_request ::
  "'h headers_api \<Rightarrow> (u64 \<Rightarrow> string) \<Rightarrow> string \<Rightarrow> 'h \<Rightarrow> HTTPReadConfig \<Rightarrow> u64 \<Rightarrow> u64 \<Rightarrow> 'h GetRequest" where
  "range_request H text_of url header_map config file_offset len =
     \<lparr>request_url = url,
      request_headers = ApplyReadCondition H config (header_set H ''Range'' (range_expr text_of file_offset len) header_map),
      try_request = auto_fallback config\<rparr>"

text \<open>What a request for a range into the buffer \<open>b0\<close> leaves, whatever the client and the server do.\<close>

lemma RunGetRangeRequest_buffer:
  assumes "http_client served send" "unat len \<le> length b0" "\<not> memory_fault s"
    and "RunGetRangeRequest H text_of send path i url header_map config file_offset (Some b0) len get_error (s, w) =
      Some (result, s', w')"
  shows "range_inv b0 len s' \<and>
    (\<forall>r. result = Inr (Some r) \<and> \<not> request_error r \<and>
        (response_success r \<or> response_status r = 206 \<or> response_status r = 202) \<longrightarrow> response_status r < 300) \<and>
    (\<forall>r. result = Inr (Some r) \<and> \<not> request_error r \<and> response_status r < 300 \<longrightarrow>
       (\<exists>a. served (range_request H text_of url header_map config file_offset len) a \<and>
          response_status (fst a) = response_status r \<and> range_got (concat (snd a)) s' \<and>
          (response_success r \<longrightarrow> length (concat (snd a)) = unat len)))"
proof -
  obtain g hs where begun: "BeginRangeRequest (auto_fallback config) i (http_state s) = Some (g, hs)"
    using assms(4) by (auto simp: RunGetRangeRequest_def Let_def)
  define s1 where "s1 = s\<lparr>http_state := hs, range_context :=
      \<lparr>buffer_out = Some b0, buffer_out_len = len, out_offset = 0, range_request_not_supported = False, range_guard = g\<rparr>\<rparr>"
  have inv1: "range_inv b0 len s1" using assms(2,3) by (simp add: s1_def range_inv_def)
  let ?h = "range_handlers path i config get_error"
  let ?req = "range_request H text_of url header_map config file_offset len"
  let ?expr = "range_expr text_of file_offset len"
  show ?thesis
  proof (cases "guard_support g = NOT_SUPPORTED \<and> auto_fallback config")
    case True
    then have "s' = end_guard i s1" "\<exists>r. result = Inr (Some (SetRangeRequestNotSupported r))"
      using assms(4) begun by (auto simp: RunGetRangeRequest_def Let_def s1_def)
    then show ?thesis using inv1 by (auto simp: SetRangeRequestNotSupported_def)
  next
    case False
    obtain outcome s2 w2 where sent: "send ?req ?h (s1, w) = (outcome, s2, w2)" by (cases "send ?req ?h (s1, w)") auto
    obtain as where run: "client_run (served ?req) ?h as s1 outcome s2"
      using client_runs [OF assms(1), of _ ?h s1 w] sent by (metis fst_conv snd_conv)
    from range.client_result [OF run inv1] obtain c s3 where s2: "s2 = set_counters c s3" "range_inv b0 len s3"
      and res: "\<And>r. outcome = Inr (Some r) \<Longrightarrow> \<not> request_error r \<Longrightarrow> response_status r < 300 \<Longrightarrow>
        \<exists>a. response_status (fst a) = response_status r \<and>
          (served ?req a \<and> range_got (concat (snd a)) s3 \<or> range_stopped s3)"
      by blast
    have final: "(case outcome of
          Inl e \<Rightarrow> (Inl e, end_guard i s2, w2)
        | Inr response \<Rightarrow>
            let (result, s3) = FinalizeRange text_of url ?expr i response s2
            in (result, end_guard i s3, w2)) = (result, s', w')"
      using assms(4) begun False
      by (auto simp: RunGetRangeRequest_def Let_def sent [unfolded s1_def range_request_def])
    show ?thesis
    proof (cases outcome)
      case (Inl e)
      then show ?thesis using final s2 by auto
    next
      case (Inr response)
      obtain fin s4 where fin: "FinalizeRange text_of url ?expr i response s2 = (fin, s4)"
        by (cases "FinalizeRange text_of url ?expr i response s2")
      then have eq: "result = fin" "s' = end_guard i s4" using final Inr by simp_all
      have inv: "range_inv b0 len s'" using FinalizeRange_state [OF fin] s2 eq by simp
      moreover have "\<exists>a. served ?req a \<and> response_status (fst a) = response_status r \<and>
          range_got (concat (snd a)) s' \<and> (response_success r \<longrightarrow> length (concat (snd a)) = unat len)"
        if r: "result = Inr (Some r)" "\<not> request_error r" "response_status r < 300" for r
      proof -
        have supported: "\<not> range_stopped s2" "response = Some r"
          and short: "ValidateReadLength text_of url ?expr response (range_context s2) = None"
          using fin eq(1) r
          by (auto simp: FinalizeRange_def range_stopped_def SetRangeRequestNotSupported_def split: if_splits option.splits)
        from res [of r] Inr supported r s2 obtain a where a: "served ?req a" "response_status (fst a) = response_status r"
          "range_got (concat (snd a)) s3" by auto
        have got: "range_got (concat (snd a)) s'" using a(3) FinalizeRange_state [OF fin] s2 eq by simp
        have "length (concat (snd a)) = unat len" if "response_success r"
          using short supported(2) r(2) that a(3) s2
          by (auto simp: ValidateReadLength_def range_got_def range_inv_def split: if_splits)
        with a got show ?thesis by blast
      qed
      moreover have "response_status r < 300"
        if r: "result = Inr (Some r)" "\<not> request_error r"
          "response_success r \<or> response_status r = 206 \<or> response_status r = 202" for r
      proof -
        have "response = Some r"
          using fin eq(1) r(1,2)
          by (auto simp: FinalizeRange_def SetRangeRequestNotSupported_def split: if_splits option.splits)
        then show ?thesis using run Inr r unfolding client_run_def by auto
      qed
      ultimately show ?thesis by blast
    qed
  qed
qed

lemma RunGetRangeRequest_sent:
  assumes "BeginRangeRequest (auto_fallback config) i (http_state s) = Some (g, hs)"
    and "\<not> (guard_support g = NOT_SUPPORTED \<and> auto_fallback config)"
    and "send (range_request H text_of url header_map config file_offset len) (range_handlers path i config get_error)
      (s\<lparr>http_state := hs, range_context := \<lparr>buffer_out = buffer, buffer_out_len = len, out_offset = 0,
         range_request_not_supported = False, range_guard = g\<rparr>\<rparr>, w) = (Inr response, s2, w2)"
    and "FinalizeRange text_of url (range_expr text_of file_offset len) i response s2 = (result, s3)"
  shows "RunGetRangeRequest H text_of send path i url header_map config file_offset buffer len get_error (s, w) =
    Some (result, end_guard i s3, w2)"
  using assms by (auto simp: RunGetRangeRequest_def Let_def range_request_def)

section \<open>The handlers of a full download\<close>

definition full_inv :: "HTTPTransfer \<Rightarrow> bool" where
  "full_inv s \<longleftrightarrow> \<not> memory_fault s \<and> (\<exists>bytes. download_inv (full_download s) bytes)"

definition full_got :: "string \<Rightarrow> HTTPTransfer \<Rightarrow> bool" where
  "full_got bytes s \<longleftrightarrow> download_inv (full_download s) bytes"

lemma full_handlers_contract:
  assumes "allocates A"
  shows "transfer_handlers (full_handlers A path config get_error) full_inv full_got (\<lambda>s. False)"
proof
  fix s r assume inv: "full_inv s"
  obtain res s' where run: "HandleFullResponse A path config get_error r s = (res, s')"
    by (cases "HandleFullResponse A path config get_error r s")
  have reserved: "\<exists>dl. Reserve A n (ResetDownload (full_download s)) = Returned dl \<and> download_inv dl []" for n
    using ReserveInternal_inv [OF assms download_inv_init(2)] unfolding Reserve_def by blast
  have "full_inv s' \<and> (response_status r < 300 \<longrightarrow> res = Inr True \<longrightarrow> full_got [] s') \<and>
      (response_status r < 300 \<longrightarrow> res \<noteq> Inr False)"
    using run inv reserved download_inv_init(2) [of "full_download s"]
    by (auto simp: HandleFullResponse_def Let_def full_inv_def full_got_def split: if_splits option.splits memory_result.splits)
       (metis memory_result.distinct memory_result.inject)+
  then show "full_inv (snd (response_handler (full_handlers A path config get_error) r s))"
    "response_status r < 300 \<Longrightarrow> fst (response_handler (full_handlers A path config get_error) r s) = Inr True \<Longrightarrow>
      full_got [] (snd (response_handler (full_handlers A path config get_error) r s))"
    "response_status r < 300 \<Longrightarrow> fst (response_handler (full_handlers A path config get_error) r s) = Inr False \<Longrightarrow> False"
    by (simp_all add: full_handlers_def run)
next
  fix s bytes chunk assume "full_inv s" "length (chunk :: string) < 18446744073709551616"
  then obtain all_bytes where inv: "\<not> memory_fault s" "download_inv (full_download s) all_bytes"
    and len: "length chunk < 18446744073709551616" by (auto simp: full_inv_def)
  note append = Append_inv [OF assms inv(2) len]
  show "full_inv (snd (content_handler (full_handlers A path config get_error) chunk s))"
    using append inv by (auto simp: full_handlers_def HandleFullContent_def full_inv_def split: if_splits)
next
  fix s bytes chunk assume "full_inv s" "full_got bytes s" "length (chunk :: string) < 18446744073709551616"
    "fst (content_handler (full_handlers A path config get_error) chunk s) = Inr True"
  then show "full_got (bytes @ chunk) (snd (content_handler (full_handlers A path config get_error) chunk s))"
    using Append_inv [OF assms, of "full_download s" bytes chunk]
    by (auto simp: full_handlers_def HandleFullContent_def full_got_def split: if_splits)
next
  fix chunk s
  show "fst (content_handler (full_handlers A path config get_error) chunk s) \<noteq> Inr False"
    by (auto simp: full_handlers_def HandleFullContent_def split: memory_result.splits)
qed

text \<open>The request that \<open>RunGetRequest\<close> sends.\<close>

definition full_request :: "duckdb_api \<Rightarrow> 'h headers_api \<Rightarrow> string \<Rightarrow> 'h \<Rightarrow> HTTPReadConfig \<Rightarrow> 'h GetRequest" where
  "full_request D H url header_map config =
     \<lparr>request_url = url, request_headers = PrepareFullGetHeaders D H config header_map, try_request = False\<rparr>"

lemma full_inv_counters [simp]:
  "full_inv (set_counters c s) = full_inv s" "full_got bytes (set_counters c s) = full_got bytes s"
  by (simp_all add: full_inv_def full_got_def)

lemma RunGetRequest_download:
  assumes "allocates A" "http_client served send" "full_inv s"
    and "RunGetRequest D H A send path url header_map config get_error (s, w) = (result, s', w')"
  shows "full_inv s' \<and>
    (\<forall>r. result = Inr (Some r) \<and> \<not> request_error r \<and> response_status r < 300 \<longrightarrow>
       (\<exists>a. served (full_request D H url header_map config) a \<and> response_status (fst a) = response_status r \<and>
          full_got (concat (snd a)) s')) \<and>
    (\<forall>r. result = Inr (Some r) \<longrightarrow> \<not> request_error r)"
proof -
  let ?h = "full_handlers A path config get_error" and ?req = "full_request D H url header_map config"
  have sent: "send ?req ?h (s, w) = (result, s', w')"
    using assms(4) by (simp add: RunGetRequest_def full_request_def)
  obtain as where "client_run (served ?req) ?h as s result s'"
    using client_runs [OF assms(2), of _ ?h s w] sent by (metis fst_conv snd_conv)
  from transfer_handlers.client_result [OF full_handlers_contract [OF assms(1)] this assms(3)]
  obtain c s1 where s': "s' = set_counters c s1" "full_inv s1"
    and res: "\<forall>r. result = Inr (Some r) \<and> \<not> request_error r \<and> response_status r < 300 \<longrightarrow>
       (\<exists>a. response_status (fst a) = response_status r \<and> (served ?req a \<and> full_got (concat (snd a)) s1 \<or> False))"
    by blast
  have "\<forall>r. result = Inr (Some r) \<longrightarrow> \<not> request_error r"
    using assms(2) sent unfolding http_client_def by (metis fst_conv GetRequest.select_convs(3) full_request_def)
  then show ?thesis unfolding s' full_inv_counters using s'(2) res by blast
qed

section \<open>The probe of a range request\<close>

text \<open>
  While a request is under way alone, the probe of its file runs exactly when its guard owns it.
\<close>

definition probe_inv :: "nat \<Rightarrow> HTTPTransfer \<Rightarrow> bool" where
  "probe_inv i s \<longleftrightarrow>
     (let g = range_guard (range_context s); st = range_request_state (file_heap (http_state s) i)
      in guard_ok (HOLDING g) st \<and> (probing st \<longrightarrow> owns_probe g))"

lemma probe_inv_marks:
  "probe_inv i s \<Longrightarrow> probe_inv i (mark_guard MarkSupported i s)"
  "probe_inv i s \<Longrightarrow> probe_inv i (mark_guard MarkNotSupported i s)"
  by (auto simp: probe_inv_def mark_guard_def guard_defs update_range_def Let_def split: if_splits)

lemma probe_inv_context [simp]:
  "probe_inv i (set_context (\<lambda>c. c\<lparr>out_offset := n\<rparr>) s) = probe_inv i s"
  "probe_inv i (set_context (\<lambda>c. c\<lparr>range_request_not_supported := b\<rparr>) s) = probe_inv i s"
  "probe_inv i (set_context (\<lambda>c. c\<lparr>buffer_out := m, out_offset := n\<rparr>) s) = probe_inv i s"
  "probe_inv i (set_context (\<lambda>c. c\<lparr>out_offset := n, range_request_not_supported := b\<rparr>) s) = probe_inv i s"
  "probe_inv i (s\<lparr>memory_fault := b\<rparr>) = probe_inv i s"
  "probe_inv i (s\<lparr>global_metadata_cache := m'\<rparr>) = probe_inv i s"
  "probe_inv i (set_counters c s) = probe_inv i s"
  by (simp_all add: probe_inv_def)

lemma HandleResponse_probe: "probe_inv i s \<Longrightarrow> probe_inv i (snd (HandleResponse path i config get_error r s))"
  by (auto simp: HandleResponse_def Let_def ValidateContentLength_def probe_inv_marks
      split: option.splits if_splits prod.splits)

lemma HandleContent_probe: "probe_inv i s \<Longrightarrow> probe_inv i (snd (HandleContent chunk s))"
  by (auto simp: HandleContent_def Let_def split: option.splits)

interpretation probing: transfer_handlers "range_handlers path i config get_error" "probe_inv i" "\<lambda>bytes s. True" "\<lambda>s. True"
  for path i config get_error
proof
  fix chunk s
  show "fst (content_handler (range_handlers path i config get_error) chunk s) \<noteq> Inr False"
    by (auto simp: range_handlers_def HandleContent_def Let_def split: option.splits if_splits)
qed (simp_all add: range_handlers_def HandleResponse_probe HandleContent_probe)

lemma BeginRangeRequest_probe:
  assumes "BeginRangeRequest enabled i hs = Some (g, hs')" "\<not> probing (range_request_state (file_heap hs i))"
  shows "guard_enabled g = enabled \<and> guard_ok (HOLDING g) (range_request_state (file_heap hs' i)) \<and>
    (probing (range_request_state (file_heap hs' i)) \<longrightarrow> owns_probe g)"
  using assms by (auto simp: BeginRangeRequest_def GuardLoad_def GuardProbe_def update_range_def Let_def split: if_splits)

lemma end_guard_probe:
  "probe_inv i s \<Longrightarrow> \<not> probing (range_request_state (file_heap (http_state (end_guard i s)) i))"
  by (auto simp: probe_inv_def end_guard_def DestroyGuard_def AbortProbe_def update_range_def Let_def)

section \<open>The downloaded file\<close>

text \<open>No handler changes the downloaded file that the handles share.\<close>

definition kept_file :: "nat \<Rightarrow> CachedFile \<Rightarrow> HTTPTransfer \<Rightarrow> bool" where
  "kept_file i f s \<longleftrightarrow> cached_file (file_heap (http_state s) i) = f"

lemma kept_file_simps [simp]:
  "kept_file i f (mark_guard m j s) = kept_file i f s" "kept_file i f (end_guard j s) = kept_file i f s"
  "kept_file i f (set_counters c s) = kept_file i f s"
  "kept_file i f (s\<lparr>range_context := rc\<rparr>) = kept_file i f s" "kept_file i f (s\<lparr>memory_fault := b\<rparr>) = kept_file i f s"
  "kept_file i f (s\<lparr>global_metadata_cache := m'\<rparr>) = kept_file i f s" "kept_file i f (s\<lparr>full_download := dl\<rparr>) = kept_file i f s"
  by (simp_all add: kept_file_def mark_guard_def end_guard_def update_range_def case_prod_beta)

interpretation range_kept: transfer_handlers "range_handlers path j config get_error" "kept_file i f" "\<lambda>bytes s. True" "\<lambda>s. True"
  for path j config get_error i f
proof
  fix chunk s
  show "fst (content_handler (range_handlers path j config get_error) chunk s) \<noteq> Inr False"
    by (auto simp: range_handlers_def HandleContent_def Let_def split: option.splits if_splits)
qed (auto simp: range_handlers_def HandleResponse_def HandleContent_def ValidateContentLength_def Let_def
    split: option.splits if_splits prod.splits)

interpretation full_kept: transfer_handlers "full_handlers A path config get_error" "kept_file i f" "\<lambda>bytes s. True" "\<lambda>s. True"
  for A path config get_error i f
proof
  fix chunk s
  show "fst (content_handler (full_handlers A path config get_error) chunk s) \<noteq> Inr False"
    by (auto simp: full_handlers_def HandleFullContent_def split: memory_result.splits)
qed (auto simp: full_handlers_def HandleFullResponse_def HandleFullContent_def Let_def
    split: option.splits if_splits memory_result.splits)

lemma kept_begin:
  assumes "BeginRangeRequest enabled j hs = Some (g, hs')"
  shows "cached_file (file_heap hs' i) = cached_file (file_heap hs i)"
  using assms by (auto simp: BeginRangeRequest_def update_range_def Let_def split: if_splits outcome.splits prod.splits)

lemma RunGetRangeRequest_kept:
  assumes "http_client served send"
    and "RunGetRangeRequest H text_of send path j url header_map config file_offset buffer len get_error (s, w) =
      Some (result, s', w')"
  shows "cached_file (file_heap (http_state s') i) = cached_file (file_heap (http_state s) i)"
proof -
  obtain g hs where begun: "BeginRangeRequest (auto_fallback config) j (http_state s) = Some (g, hs)"
    using assms(2) by (auto simp: RunGetRangeRequest_def Let_def)
  let ?f = "cached_file (file_heap (http_state s) i)"
  define s1 where "s1 = s\<lparr>http_state := hs, range_context :=
      \<lparr>buffer_out = buffer, buffer_out_len = len, out_offset = 0, range_request_not_supported = False, range_guard = g\<rparr>\<rparr>"
  have kept1: "kept_file i ?f s1" using kept_begin [OF begun, of i] by (simp add: s1_def kept_file_def)
  let ?h = "range_handlers path j config get_error"
  let ?req = "range_request H text_of url header_map config file_offset len"
  have "kept_file i ?f s'"
  proof (cases "guard_support g = NOT_SUPPORTED \<and> auto_fallback config")
    case True
    then show ?thesis using assms(2) begun kept1 by (auto simp: RunGetRangeRequest_def Let_def s1_def)
  next
    case False
    obtain outcome s2 w2 where sent: "send ?req ?h (s1, w) = (outcome, s2, w2)" by (cases "send ?req ?h (s1, w)") auto
    obtain as where "client_run (served ?req) ?h as s1 outcome s2"
      using client_runs [OF assms(1), of ?req ?h s1 w] sent by (metis fst_conv snd_conv)
    from range_kept.client_result [OF this kept1] have kept2: "kept_file i ?f s2" by auto
    have fin: "kept_file i ?f (snd (FinalizeRange text_of url e j response s2))" for e response
      using kept2 by (auto simp: FinalizeRange_def split: option.splits)
    show ?thesis
      using assms(2) begun False kept2 fin
      by (auto simp: RunGetRangeRequest_def Let_def sent [unfolded s1_def range_request_def] case_prod_beta split: sum.splits)
  qed
  then show ?thesis by (simp add: kept_file_def)
qed

lemma RunGetRequest_kept:
  assumes "http_client served send"
    and "RunGetRequest D H A send path url header_map config get_error (s, w) = (result, s', w')"
  shows "cached_file (file_heap (http_state s') i) = cached_file (file_heap (http_state s) i)"
proof -
  let ?h = "full_handlers A path config get_error" and ?req = "full_request D H url header_map config"
  have sent: "send ?req ?h (s, w) = (result, s', w')"
    using assms(2) by (simp add: RunGetRequest_def full_request_def)
  obtain as where "client_run (served ?req) ?h as s result s'"
    using client_runs [OF assms(1), of ?req ?h s w] sent by (metis fst_conv snd_conv)
  from full_kept.client_result [OF this, of i "cached_file (file_heap (http_state s) i)"] show ?thesis
    by (auto simp: kept_file_def)
qed

end
