(* ===== verification/Http_Params.thy ===== *)
theory Http_Params
  imports S3_Headers "HOL-Library.AList"
begin

text \<open>
  The parameters of an HTTP request (\<open>HTTPFSParams\<close> of src/src/include/http/httpfs_client.hpp) and how
  they are read from the settings and secrets (\<open>HTTPParametersInitializer\<close> of
  src/src/http/httpfs.cpp). DuckDB's settings and secrets are the fields of \<open>opener_api\<close>: the value of
  a setting or of a secret key, converted to its type, when there is one. The floating-point retry
  backoff is left out.
\<close>

section \<open>Parameters\<close>

datatype HTTPClientReuseMode = SESSION_LOCAL | SHARED | REUSE_NONE

text \<open>
  \<open>extra_headers\<close> are the entries of an \<open>unordered_map\<close>, each name once; \<open>params_util\<close> is the identity
  of the \<open>HTTPUtil\<close> object.
\<close>

record HTTPFSParams =
  params_util :: nat
  timeout :: u64
  retries :: u64
  retry_wait_ms :: u64
  keep_alive :: bool
  http_proxy :: string
  http_proxy_port :: u64
  http_proxy_username :: string
  http_proxy_password :: string
  extra_headers :: "(string \<times> string) list"
  override_verify_ssl :: bool
  verify_ssl :: bool
  force_download :: bool
  auto_fallback_to_full_download :: bool
  force_download_threshold :: u64
  enable_server_cert_verification :: bool
  enable_curl_server_cert_verification :: bool
  hf_max_per_page :: u64
  ca_cert_file :: string
  bearer_token :: string
  unsafe_disable_etag_checks :: bool
  s3_version_id_pinning :: bool
  user_agent :: string
  pre_merged_headers :: bool
  client_reuse_mode :: HTTPClientReuseMode

text \<open>The default parameters, for examples.\<close>

definition sample_params :: HTTPFSParams where
  "sample_params =
     \<lparr>params_util = 0, timeout = 30, retries = 3, retry_wait_ms = 100, keep_alive = True, http_proxy = [],
      http_proxy_port = 0, http_proxy_username = [], http_proxy_password = [], extra_headers = [],
      override_verify_ssl = False, verify_ssl = True, force_download = False, auto_fallback_to_full_download = True,
      force_download_threshold = 0, enable_server_cert_verification = False,
      enable_curl_server_cert_verification = True, hf_max_per_page = 0, ca_cert_file = [], bearer_token = [],
      unsafe_disable_etag_checks = False, s3_version_id_pinning = False, user_agent = [], pre_merged_headers = False,
      client_reuse_mode = SESSION_LOCAL\<rparr>"

section \<open>Settings and secrets\<close>

text \<open>A value given for the extra headers: NULL, not a map, or the entries of a map.\<close>

datatype header_value = NullHeaders | NotAMap string | HeaderMap "(string \<times> string option) list"

record opener_api =
  setting_bool :: "string \<Rightarrow> bool option"
  setting_number :: "string \<Rightarrow> u64 option"
  setting_text :: "string \<Rightarrow> string option"
  setting_headers :: "string \<Rightarrow> header_value option"
  secret_bool :: "string list \<Rightarrow> string \<Rightarrow> bool option"
  secret_text :: "string list \<Rightarrow> string \<Rightarrow> string option"
  secret_headers :: "string list \<Rightarrow> string \<Rightarrow> header_value option"
  database_user_agent :: "string option"
  parse_proxy_host :: "string \<Rightarrow> string \<times> u64"

abbreviation keep_or :: "'a option \<Rightarrow> 'a \<Rightarrow> 'a" where
  "keep_or setting old \<equiv> (case setting of None \<Rightarrow> old | Some v \<Rightarrow> v)"

fun MergeEntries :: "(string \<times> string option) list \<Rightarrow> HTTPFSParams \<Rightarrow> HTTPFSParams res" where
  "MergeEntries [] result = Inr result"
| "MergeEntries ((key, v) # children) result =
     (case v of
        None \<Rightarrow> Inl (Exn InvalidInputException (''extra_http_headers value for '' @ quoted @ '' must not be NULL'') [key])
      | Some value \<Rightarrow> MergeEntries children (result\<lparr>extra_headers := AList.update key value (extra_headers result)\<rparr>))"

definition MergeExtraHeaders :: "header_value \<Rightarrow> HTTPFSParams \<Rightarrow> HTTPFSParams res" where
  "MergeExtraHeaders headers result =
     (case headers of
        NullHeaders \<Rightarrow> Inr result
      | NotAMap type \<Rightarrow>
          Inl (Exn InvalidInputException (''extra_http_headers must be a MAP(VARCHAR, VARCHAR), got '' @ quoted) [type])
      | HeaderMap children \<Rightarrow> MergeEntries children result)"

definition ReadSettings :: "opener_api \<Rightarrow> HTTPFSParams \<Rightarrow> HTTPFSParams res" where
  "ReadSettings P result =
     (let r = result\<lparr>
          timeout := keep_or (setting_number P ''http_timeout'') (timeout result),
          force_download := keep_or (setting_bool P ''force_download'') (force_download result),
          force_download_threshold :=
            keep_or (setting_number P ''force_download_threshold'') (force_download_threshold result),
          auto_fallback_to_full_download :=
            keep_or (setting_bool P ''auto_fallback_to_full_download'') (auto_fallback_to_full_download result),
          retries := keep_or (setting_number P ''http_retries'') (retries result),
          retry_wait_ms := keep_or (setting_number P ''http_retry_wait_ms'') (retry_wait_ms result),
          keep_alive := keep_or (setting_bool P ''http_keep_alive'') (keep_alive result),
          enable_curl_server_cert_verification :=
            keep_or (setting_bool P ''enable_curl_server_cert_verification'') (enable_curl_server_cert_verification result),
          enable_server_cert_verification :=
            keep_or (setting_bool P ''enable_server_cert_verification'') (enable_server_cert_verification result),
          ca_cert_file := keep_or (setting_text P ''ca_cert_file'') (ca_cert_file result),
          hf_max_per_page := keep_or (setting_number P ''hf_max_per_page'') (hf_max_per_page result),
          unsafe_disable_etag_checks :=
            keep_or (setting_bool P ''unsafe_disable_etag_checks'') (unsafe_disable_etag_checks result),
          s3_version_id_pinning := keep_or (setting_bool P ''s3_version_id_pinning'') (s3_version_id_pinning result)\<rparr>
      in case setting_headers P ''extra_http_headers'' of
           None \<Rightarrow> Inr r
         | Some headers \<Rightarrow> MergeExtraHeaders headers r)"

definition SetUserAgent :: "opener_api \<Rightarrow> HTTPFSParams \<Rightarrow> HTTPFSParams" where
  "SetUserAgent P result =
     (case database_user_agent P of None \<Rightarrow> result | Some agent \<Rightarrow> result\<lparr>user_agent := agent\<rparr>)"

text \<open>The types of the secrets that are read, in the order in which they are looked up.\<close>

definition SettingsReaderTypes :: "opener_api \<Rightarrow> bool \<Rightarrow> string list" where
  "SettingsReaderTypes P is_s3_path =
     (if is_s3_path then
        (if setting_bool P ''merge_http_secret_into_s3_request'' = Some False then SecretTypes
         else SecretTypes @ [''http''])
      else [''http''])"

definition ReadSecrets :: "opener_api \<Rightarrow> string list \<Rightarrow> HTTPFSParams \<Rightarrow> HTTPFSParams res" where
  "ReadSecrets P types result =
     (let r1 = (case secret_text P types ''http_proxy'' of
            None \<Rightarrow> result
          | Some proxy_setting \<Rightarrow>
              if proxy_setting = [] then result
              else let (host, port) = parse_proxy_host P proxy_setting
                in result\<lparr>http_proxy := host, http_proxy_port := port\<rparr>);
          r2 = (case secret_bool P types ''verify_ssl'' of
            None \<Rightarrow> r1\<lparr>override_verify_ssl := False\<rparr>
          | Some v \<Rightarrow> r1\<lparr>override_verify_ssl := True, verify_ssl := v\<rparr>);
          r3 = r2\<lparr>http_proxy_username := keep_or (secret_text P types ''http_proxy_username'') (http_proxy_username r2),
              http_proxy_password := keep_or (secret_text P types ''http_proxy_password'') (http_proxy_password r2),
              bearer_token := keep_or (secret_text P types ''bearer_token'') (bearer_token r2)\<rparr>
      in case secret_headers P types ''extra_http_headers'' of
           None \<Rightarrow> Inr r3
         | Some headers \<Rightarrow> MergeExtraHeaders headers r3)"

text \<open>
  \<open>Initialize\<close>, from the parameters that DuckDB initialised; \<open>None\<close> for the opener is a null
  pointer, and \<open>is_s3_path\<close> is the answer of \<open>IsS3Path\<close>.
\<close>

definition InitializeParameters ::
  "HTTPClientReuseMode \<Rightarrow> opener_api option \<Rightarrow> bool \<Rightarrow> HTTPFSParams \<Rightarrow> HTTPFSParams res" where
  "InitializeParameters reuse_mode opener is_s3_path initial =
     (let result = initial\<lparr>client_reuse_mode := reuse_mode\<rparr>
      in case opener of
           None \<Rightarrow> Inr result
         | Some P \<Rightarrow>
             bind_res (ReadSettings P result) (\<lambda>r.
               ReadSecrets P (SettingsReaderTypes P is_s3_path) (SetUserAgent P r)))"

section \<open>Properties\<close>

definition header_entries :: "header_value option \<Rightarrow> string \<rightharpoonup> string" where
  "header_entries v = (case v of Some (HeaderMap children) \<Rightarrow> map_of (rev (map (apsnd the) children)) | _ \<Rightarrow> Map.empty)"

definition headers_valid :: "header_value option \<Rightarrow> bool" where
  "headers_valid v =
     (case v of
        Some (HeaderMap children) \<Rightarrow> list_all (\<lambda>c. snd c \<noteq> None) children
      | Some (NotAMap type) \<Rightarrow> False
      | _ \<Rightarrow> True)"

lemma MergeEntries_result:
  "(list_all (\<lambda>c. snd c \<noteq> None) children \<longleftrightarrow> (\<exists>r. MergeEntries children result = Inr r)) \<and>
   (\<forall>r. MergeEntries children result = Inr r \<longrightarrow>
     map_of (extra_headers r) = map_of (extra_headers result) ++ map_of (rev (map (apsnd the) children)) \<and>
     r\<lparr>extra_headers := []\<rparr> = result\<lparr>extra_headers := []\<rparr>)"
proof (induction children arbitrary: result)
  case (Cons c children)
  obtain k v where c: "c = (k, v)" by (cases c)
  show ?case
  proof (cases v)
    case (Some w)
    have merge: "MergeEntries (c # children) result =
        MergeEntries children (result\<lparr>extra_headers := AList.update k w (extra_headers result)\<rparr>)" by (simp add: c Some)
    have map: "map_of (AList.update k w (extra_headers result)) ++ m = map_of (extra_headers result) ++ ([k \<mapsto> w] ++ m)" for m
      by (simp add: update_conv' map_add_def fun_eq_iff split: option.splits)
    show ?thesis
      using Cons [of "result\<lparr>extra_headers := AList.update k w (extra_headers result)\<rparr>"] unfolding merge
      by (auto simp: c Some map map_add_assoc [symmetric])
  qed (simp add: c)
qed simp

lemma MergeExtraHeaders_result:
  "(headers_valid (Some v) \<longleftrightarrow> (\<exists>r. MergeExtraHeaders v result = Inr r)) \<and>
   (\<forall>r. MergeExtraHeaders v result = Inr r \<longrightarrow>
     map_of (extra_headers r) = map_of (extra_headers result) ++ header_entries (Some v) \<and>
     r\<lparr>extra_headers := []\<rparr> = result\<lparr>extra_headers := []\<rparr>)"
  using MergeEntries_result by (cases v) (simp_all add: MergeExtraHeaders_def header_entries_def headers_valid_def)

lemma MergeOptional_result:
  "(headers_valid v \<longleftrightarrow> (\<exists>r. (case v of None \<Rightarrow> Inr result | Some headers \<Rightarrow> MergeExtraHeaders headers result) = Inr r)) \<and>
   (\<forall>r. (case v of None \<Rightarrow> Inr result | Some headers \<Rightarrow> MergeExtraHeaders headers result) = Inr r \<longrightarrow>
     map_of (extra_headers r) = map_of (extra_headers result) ++ header_entries v \<and>
     r\<lparr>extra_headers := []\<rparr> = result\<lparr>extra_headers := []\<rparr>)"
  using MergeExtraHeaders_result by (cases v) (auto simp: header_entries_def headers_valid_def)

lemma MergeOptional_valid:
  "(case v of None \<Rightarrow> Inr result | Some headers \<Rightarrow> MergeExtraHeaders headers result) = Inr r \<Longrightarrow> headers_valid v"
  using MergeOptional_result [THEN conjunct1] by blast

lemma MergeOptional_error:
  "(case v of None \<Rightarrow> Inr result | Some headers \<Rightarrow> MergeExtraHeaders headers result) = Inl e \<Longrightarrow> \<not> headers_valid v"
  using MergeOptional_result [THEN conjunct1, of v result] by auto

lemma rest_fields:
  assumes "r\<lparr>extra_headers := []\<rparr> = s\<lparr>extra_headers := []\<rparr>"
  shows "bearer_token r = bearer_token s" "override_verify_ssl r = override_verify_ssl s"
    "client_reuse_mode r = client_reuse_mode s" "verify_ssl r = verify_ssl s" "params_util r = params_util s"
  using assms by (cases r; cases s; simp)+

text \<open>
  The headers of every request are read per key: a secret's value wins over the setting's, and that
  over what was there before; they are refused exactly when one of them is not a map or
  holds a NULL. A generic HTTP secret takes part unless the path is an S3 path and the merge is switched
  off, and the verification of certificates is overridden exactly when the secret says so.
\<close>

theorem InitializeParameters_headers:
  "case InitializeParameters mode (Some P) is_s3 initial of
     Inl e \<Rightarrow>
       \<not> (headers_valid (setting_headers P ''extra_http_headers'') \<and>
          headers_valid (secret_headers P (SettingsReaderTypes P is_s3) ''extra_http_headers''))
   | Inr r \<Rightarrow>
       headers_valid (setting_headers P ''extra_http_headers'') \<and>
       headers_valid (secret_headers P (SettingsReaderTypes P is_s3) ''extra_http_headers'') \<and>
       map_of (extra_headers r) = map_of (extra_headers initial) ++
         header_entries (setting_headers P ''extra_http_headers'') ++
         header_entries (secret_headers P (SettingsReaderTypes P is_s3) ''extra_http_headers'') \<and>
       bearer_token r = keep_or (secret_text P (SettingsReaderTypes P is_s3) ''bearer_token'') (bearer_token initial) \<and>
       override_verify_ssl r = (secret_bool P (SettingsReaderTypes P is_s3) ''verify_ssl'' \<noteq> None) \<and>
       (''http'' \<in> set (SettingsReaderTypes P is_s3)) =
         (\<not> (is_s3 \<and> setting_bool P ''merge_http_secret_into_s3_request'' = Some False))"
proof -
  let ?types = "SettingsReaderTypes P is_s3"
  have http: "(''http'' \<in> set ?types) = (\<not> (is_s3 \<and> setting_bool P ''merge_http_secret_into_s3_request'' = Some False))"
    by (simp add: SettingsReaderTypes_def SecretTypes_def)
  show ?thesis
  proof (cases "ReadSettings P (initial\<lparr>client_reuse_mode := mode\<rparr>)")
    case (Inl e)
    then have "\<not> headers_valid (setting_headers P ''extra_http_headers'')"
      unfolding ReadSettings_def Let_def by (rule MergeOptional_error)
    then show ?thesis by (simp add: InitializeParameters_def Let_def Inl)
  next
    case (Inr r)
    note read = MergeOptional_result [THEN conjunct2, rule_format, OF Inr [unfolded ReadSettings_def Let_def]]
    have "headers_valid (setting_headers P ''extra_http_headers'')"
      by (rule MergeOptional_valid [OF Inr [unfolded ReadSettings_def Let_def]])
    moreover have "map_of (extra_headers r) =
        map_of (extra_headers initial) ++ header_entries (setting_headers P ''extra_http_headers'')"
      using read [THEN conjunct1] by simp
    moreover have "bearer_token r = bearer_token initial"
      using rest_fields(1) [OF read [THEN conjunct2]] by simp
    ultimately have settings: "headers_valid (setting_headers P ''extra_http_headers'')"
      "map_of (extra_headers r) = map_of (extra_headers initial) ++ header_entries (setting_headers P ''extra_http_headers'')"
      "bearer_token r = bearer_token initial" .
    have agent: "extra_headers (SetUserAgent P r) = extra_headers r" "bearer_token (SetUserAgent P r) = bearer_token r"
      by (simp_all add: SetUserAgent_def split: option.splits)
    show ?thesis
    proof (cases "ReadSecrets P ?types (SetUserAgent P r)")
      case secrets: (Inl e)
      then have "\<not> headers_valid (secret_headers P ?types ''extra_http_headers'')"
        unfolding ReadSecrets_def Let_def by (rule MergeOptional_error)
      then show ?thesis by (simp add: InitializeParameters_def Let_def Inr secrets)
    next
      case secrets: (Inr q)
      note merged = MergeOptional_result [THEN conjunct2, rule_format, OF secrets [unfolded ReadSecrets_def Let_def]]
      have "headers_valid (secret_headers P ?types ''extra_http_headers'')"
        by (rule MergeOptional_valid [OF secrets [unfolded ReadSecrets_def Let_def]])
      moreover have "map_of (extra_headers q) = map_of (extra_headers r) ++ header_entries (secret_headers P ?types ''extra_http_headers'')"
        using merged [THEN conjunct1] agent(1) by (auto split: option.splits prod.splits if_splits)
      moreover have "bearer_token q = keep_or (secret_text P ?types ''bearer_token'') (bearer_token initial)"
        "override_verify_ssl q = (secret_bool P ?types ''verify_ssl'' \<noteq> None)"
        using rest_fields [OF merged [THEN conjunct2]] agent(2) unfolding settings(3) [symmetric] by (auto split: option.splits prod.splits if_splits)
      ultimately show ?thesis using settings http by (simp add: InitializeParameters_def Let_def Inr secrets)
    qed
  qed
qed

end
