(* ===== verification/Http_File.thy ===== *)
theory Http_File
  imports Http_Range Http_Params
begin

text \<open>
  Reading a file over HTTP (src/src/http/httpfs.cpp): the range request with its fallback to a full
  download, the reads at a position and at the cursor, and how the length and the ETag of a file
  are found when it is opened. Requests are the arguments \<open>get_range\<close>, \<open>get_full\<close> and \<open>get_head\<close>, which
  the file systems implement; \<open>http_requests\<close> states what the reads rely on. A result is \<open>None\<close> when
  the thread has to wait for another one.
\<close>

type_synonym 'w world = "HTTPTransfer \<times> 'w"

type_synonym ('a, 'w) io = "'w world \<Rightarrow> ('a res \<times> 'w world) option"

definition bind_io :: "('a, 'w) io \<Rightarrow> ('a \<Rightarrow> ('b, 'w) io) \<Rightarrow> ('b, 'w) io" where
  "bind_io m f sw =
     (case m sw of
        None \<Rightarrow> None
      | Some (Inl e, sw') \<Rightarrow> Some (Inl e, sw')
      | Some (Inr x, sw') \<Rightarrow> f x sw')"

definition return_io :: "'a \<Rightarrow> ('a, 'w) io" where
  "return_io x sw = Some (Inr x, sw)"

definition throw_io :: "exn \<Rightarrow> ('a, 'w) io" where
  "throw_io e sw = Some (Inl e, sw)"

definition modify_io :: "(HTTPTransfer \<Rightarrow> HTTPTransfer) \<Rightarrow> (unit, 'w) io" where
  "modify_io f sw = Some (Inr (), f (fst sw), snd sw)"

lemma io_simps [simp]:
  "return_io x sw = Some (Inr x, sw)" "throw_io e sw = Some (Inl e, sw)"
  "modify_io f sw = Some (Inr (), f (fst sw), snd sw)"
  by (simp_all add: return_io_def throw_io_def modify_io_def)

lemma bind_io_Inr:
  "bind_io m f sw = Some (Inr y, sw'') \<longleftrightarrow> (\<exists>x sw'. m sw = Some (Inr x, sw') \<and> f x sw' = Some (Inr y, sw''))"
  by (auto simp: bind_io_def split: option.splits sum.splits)

section \<open>The handle of a file\<close>

record OpenFlags =
  open_for_reading :: bool
  open_for_writing :: bool
  create_if_not_exists :: bool
  overwrite_existing :: bool

record HTTPFileHandle =
  handle_path :: string
  handle_flags :: OpenFlags
  handle_length :: u64
  last_modified :: int
  handle_etag :: string
  force_full_download :: bool
  handle_initialized :: bool
  auto_fallback_to_full_file_download :: bool
  write_overwrite_mode :: bool
  file_state :: nat
  file_offset :: u64
  version_id :: string
  read_config :: "HTTPReadConfig option"

text \<open>\<open>extended_info\<close>: the properties that a caller knows, each one when it is there.\<close>

record ExtendedInfo =
  info_last_modified :: "int option"
  info_etag :: "string option"
  info_file_size :: "u64 option"
  info_force_full_download :: "bool option"

definition CreateHandle :: "string \<Rightarrow> OpenFlags \<Rightarrow> ExtendedInfo option \<Rightarrow> HTTPFileHandle" where
  "CreateHandle path flags extended_info =
     (let h = \<lparr>handle_path = path, handle_flags = flags, handle_length = 0, last_modified = 0, handle_etag = [],
            force_full_download = False, handle_initialized = False, auto_fallback_to_full_file_download = True,
            write_overwrite_mode = False, file_state = 0, file_offset = 0, version_id = [], read_config = None\<rparr>
      in case extended_info of
           None \<Rightarrow> h
         | Some info \<Rightarrow>
             h\<lparr>last_modified := keep_or (info_last_modified info) (last_modified h),
               handle_etag := keep_or (info_etag info) (handle_etag h),
               handle_length := keep_or (info_file_size info) (handle_length h),
               force_full_download := keep_or (info_force_full_download info) (force_full_download h),
               handle_initialized := info_last_modified info \<noteq> None \<and> info_etag info \<noteq> None \<and> info_file_size info \<noteq> None\<rparr>)"

definition IsStrongETag :: "duckdb_api \<Rightarrow> string \<Rightarrow> bool" where
  "IsStrongETag D text =
     (let etag = Trim D text
      in if length etag < 2 \<or> hd etag \<noteq> QUOT \<or> last etag \<noteq> QUOT \<or> StartsWith D etag ''W/'' then False
         else list_all (\<lambda>c. \<not> ((of_char c :: nat) \<le> 32 \<or> c = QUOT \<or> c = CHR 0x7F)) (substr etag 1 (length etag - 2)))"

definition BuildReadConfig :: "duckdb_api \<Rightarrow> HTTPFSParams \<Rightarrow> HTTPFileHandle \<Rightarrow> HTTPReadConfig" where
  "BuildReadConfig D params h =
     (let validate = \<not> unsafe_disable_etag_checks params
      in \<lparr>read_condition =
            (if validate \<and> IsStrongETag D (handle_etag h)
             then \<lparr>condition_type = READ_ETAG, condition_value = Trim D (handle_etag h)\<rparr>
             else \<lparr>condition_type = READ_NONE, condition_value = []\<rparr>),
          read_etag = handle_etag h, validate_etag = validate,
          auto_fallback = (auto_fallback_to_full_file_download h \<and> auto_fallback_to_full_download params)\<rparr>)"

definition FinalizeReadConfig :: "duckdb_api \<Rightarrow> HTTPFSParams \<Rightarrow> HTTPFileHandle \<Rightarrow> HTTPFileHandle" where
  "FinalizeReadConfig D params h = h\<lparr>read_config := Some (BuildReadConfig D params h)\<rparr>"

section \<open>Range requests\<close>

definition RespondedWithRangeRequestNotSupported :: "GetResponse \<Rightarrow> bool" where
  "RespondedWithRangeRequestNotSupported r \<longleftrightarrow> request_error r \<and> response_failure r = RangeRequestNotSupported"

type_synonym 'w range_request =
  "HTTPReadConfig \<Rightarrow> u64 \<Rightarrow> string option \<Rightarrow> u64 \<Rightarrow> (GetResponse option, 'w) io"

definition check_condition :: "string \<Rightarrow> HTTPReadConfig \<Rightarrow> GetResponse \<Rightarrow> (unit, 'w) io" where
  "check_condition path config r =
     (case ThrowIfReadConditionFailed path config r of
        None \<Rightarrow> return_io ()
      | Some e \<Rightarrow>
          bind_io (modify_io (\<lambda>s. s\<lparr>global_metadata_cache := EraseGlobalCacheEntry path (global_metadata_cache s)\<rparr>))
            (\<lambda>_. throw_io e))"

definition TryRangeRequest ::
  "'w range_request \<Rightarrow> (GetResponse \<Rightarrow> exn) \<Rightarrow> string \<Rightarrow> HTTPReadConfig \<Rightarrow> u64 \<Rightarrow> string \<Rightarrow> u64 \<Rightarrow> (bool, 'w) io" where
  "TryRangeRequest get_range http_error path config offset buffer len =
     bind_io (get_range config offset (Some buffer) len) (\<lambda>res.
       case res of
         None \<Rightarrow> throw_io (Exn IOException (''Unknown error for HTTP %s to '%s'' @ [CHR 0x27]) [''GET_REQUEST'', path])
       | Some r \<Rightarrow>
           bind_io (check_condition path config r) (\<lambda>_.
             if request_error r then
               (if RespondedWithRangeRequestNotSupported r \<and> auto_fallback config then return_io False
                else throw_io (response_failure r))
             else if response_success r \<or> response_status r = 206 \<or> response_status r = 202 then return_io True
             else throw_io (http_error r)))"

text \<open>The buffer after a range request; it is written in place.\<close>

definition buffer_now :: "string \<Rightarrow> (string, 'w) io" where
  "buffer_now old sw =
     return_io (case buffer_out (range_context (fst sw)) of Some b \<Rightarrow> b | None \<Rightarrow> old) sw"

definition memory_check :: "'a option \<Rightarrow> 'a \<Rightarrow> ('a, 'w) io" where
  "memory_check m old sw =
     (case m of
        Some x \<Rightarrow> Some (Inr x, sw)
      | None \<Rightarrow> Some (Inr old, (fst sw)\<lparr>memory_fault := True\<rparr>, snd sw))"

text \<open>\<open>ReadAt\<close> gives the buffer after the read, or \<open>None\<close> for false.\<close>

definition ReadAt ::
  "'w range_request \<Rightarrow> (GetResponse \<Rightarrow> exn) \<Rightarrow> HTTPFileHandle \<Rightarrow> string \<Rightarrow> u64 \<Rightarrow> u64 \<Rightarrow> HTTPReadConfig \<Rightarrow>
     (string option, 'w) io" where
  "ReadAt get_range http_error h buffer read_size location config sw =
     (if read_size > - 1 - location then
        throw_io (Exn IOException (''HTTP read range overflow for file '' @ quoted) [handle_path h]) sw
      else
        let read_end = location + read_size
        in case TryGetCachedFileHandle (file_state h) (http_state (fst sw)) of
             Some cached \<Rightarrow>
               if GetSize cached < read_end then
                 throw_io (Exn IOException (''Cached file length can't satisfy the requested Read. You can try to resolve this by '' @
                   ''enabling `SET force_download=true`'') []) sw
               else if read_size > 0 then
                 bind_io (memory_check
                     (Option.bind (mem_read (drop (unat location) (GetData cached)) (unat read_size)) (mem_write buffer 0)) buffer)
                   (\<lambda>b. return_io (Some b)) sw
               else return_io (Some buffer) sw
           | None \<Rightarrow>
               if read_size > 0 then
                 bind_io (TryRangeRequest get_range http_error (handle_path h) config location buffer read_size)
                   (\<lambda>ok. if ok then bind_io (buffer_now buffer) (\<lambda>b. return_io (Some b)) else return_io None) sw
               else return_io (Some buffer) sw)"

section \<open>Full downloads\<close>

definition set_cached_file :: "nat \<Rightarrow> CachedFile \<Rightarrow> HTTPTransfer \<Rightarrow> HTTPTransfer" where
  "set_cached_file i f s = s\<lparr>http_state := update_file i (\<lambda>st. st\<lparr>cached_file := f\<rparr>) (http_state s)\<rparr>"

abbreviation cached_file_of :: "nat \<Rightarrow> HTTPTransfer \<Rightarrow> CachedFile" where
  "cached_file_of i s \<equiv> cached_file (file_heap (http_state s) i)"

type_synonym 'w full_request = "HTTPReadConfig \<Rightarrow> (GetResponse option, 'w) io"

text \<open>The download is aborted by its destructor when an exception leaves the function.\<close>

definition on_exception :: "(HTTPTransfer \<Rightarrow> HTTPTransfer) \<Rightarrow> ('a, 'w) io \<Rightarrow> ('a, 'w) io" where
  "on_exception f m sw =
     (case m sw of
        Some (Inl e, s', w') \<Rightarrow> Some (Inl e, f s', w')
      | r \<Rightarrow> r)"

definition download_file ::
  "'w full_request \<Rightarrow> (GetResponse \<Rightarrow> exn) \<Rightarrow> HTTPFileHandle \<Rightarrow> HTTPReadConfig \<Rightarrow> (CachedFileData, 'w) io" where
  "download_file get_full http_error h config =
     on_exception (\<lambda>s. set_cached_file (file_state h) (AbortDownload (cached_file_of (file_state h) s)) s)
       (bind_io (get_full config) (\<lambda>res.
          case res of
            None \<Rightarrow> throw_io (Exn InternalException [] [])
          | Some r \<Rightarrow>
              bind_io (check_condition (handle_path h) config r) (\<lambda>_ sw.
                if response_status r \<noteq> 200 then throw_io (http_error r) sw
                else
                  let (data, f) = FinalizeDownload (full_download (fst sw)) (cached_file_of (file_state h) (fst sw))
                  in Some (Inr data, set_cached_file (file_state h) f (fst sw), snd sw))))"

text \<open>
  The loop is bounded by \<open>fuel\<close>. It goes round again only when another thread finished the download
  between the two accesses; a thread that is alone needs one round.
\<close>

fun FullDownload ::
  "nat \<Rightarrow> 'w full_request \<Rightarrow> (GetResponse \<Rightarrow> exn) \<Rightarrow> HTTPFileHandle \<Rightarrow> HTTPReadConfig \<Rightarrow> (CachedFileData, 'w) io" where
  "FullDownload 0 get_full http_error h config sw = None"
| "FullDownload (Suc fuel) get_full http_error h config sw =
     (case TryGetCachedFileHandle (file_state h) (http_state (fst sw)) of
        Some cached \<Rightarrow> return_io cached sw
      | None \<Rightarrow>
          (case StartDownload (cached_file_of (file_state h) (fst sw)) of
             Done (Some dl, f) \<Rightarrow>
               download_file get_full http_error h config
                 ((set_cached_file (file_state h) f (fst sw))\<lparr>full_download := dl\<rparr>, snd sw)
           | Done (None, f) \<Rightarrow> FullDownload fuel get_full http_error h config sw
           | _ \<Rightarrow> None))"

section \<open>Reads\<close>

record 'w file_requests =
  get_range :: "'w range_request"
  get_full :: "'w full_request"
  get_error :: "GetResponse \<Rightarrow> exn"

definition ReadAtWithFallback ::
  "'w file_requests \<Rightarrow> (u64 \<Rightarrow> string) \<Rightarrow> HTTPFileHandle \<Rightarrow> string \<Rightarrow> u64 \<Rightarrow> u64 \<Rightarrow> HTTPReadConfig \<Rightarrow> (string, 'w) io" where
  "ReadAtWithFallback R text_of h buffer read_size location config =
     bind_io (ReadAt (get_range R) (get_error R) h buffer read_size location config) (\<lambda>first.
       case first of
         Some b \<Rightarrow> return_io b
       | None \<Rightarrow>
           bind_io (FullDownload 1 (get_full R) (get_error R) h config) (\<lambda>cached.
             if GetSize cached \<noteq> handle_length h then
               bind_io (modify_io (\<lambda>s. s\<lparr>http_state :=
                   EraseFileState (handle_path h) (InvalidateCachedFile (file_state h) (http_state s))\<rparr>))
                 (\<lambda>_. throw_io (Exn HTTPException (''The size reported by HEAD for '%s' was %llu bytes, but the full GET downloaded %llu bytes. You can try '' @
                    ''to resolve this by enabling `SET force_download=true`'')
                    [handle_path h, text_of (handle_length h), text_of (GetSize cached)]))
             else
               bind_io (ReadAt (get_range R) (get_error R) h buffer read_size location config) (\<lambda>second.
                 case second of
                   Some b \<Rightarrow> return_io b
                 | None \<Rightarrow> throw_io (Exn HTTPException
                     ''Failed to read from HTTP file after automatically retrying a full file download.'' []))))"

text \<open>\<open>GetReadConfig\<close> asserts that the configuration was finalized.\<close>

definition GetReadConfig :: "HTTPFileHandle \<Rightarrow> HTTPReadConfig res" where
  "GetReadConfig h =
     (case read_config h of Some c \<Rightarrow> Inr c | None \<Rightarrow> Inl (Exn InternalException ''read_config_initialized'' []))"

text \<open>\<open>NumericCast<idx_t>\<close> of a signed size.\<close>

definition cast_size :: "int \<Rightarrow> u64 res" where
  "cast_size nr_bytes = (if nr_bytes < 0 then Inl (Exn InternalException [] []) else Inr (word_of_int nr_bytes))"

text \<open>The read at a position.\<close>

definition ReadPosition ::
  "'w file_requests \<Rightarrow> (u64 \<Rightarrow> string) \<Rightarrow> HTTPFileHandle \<Rightarrow> string \<Rightarrow> int \<Rightarrow> u64 \<Rightarrow> (string, 'w) io" where
  "ReadPosition R text_of h buffer nr_bytes location =
     (case cast_size nr_bytes of
        Inl e \<Rightarrow> throw_io e
      | Inr read_size \<Rightarrow>
          if read_size = 0 then return_io buffer
          else case GetReadConfig h of
                 Inl e \<Rightarrow> throw_io e
               | Inr config \<Rightarrow> ReadAtWithFallback R text_of h buffer read_size location config)"

text \<open>The read at the cursor gives the buffer, the number of bytes read and the handle.\<close>

definition ReadCursor ::
  "'w file_requests \<Rightarrow> (u64 \<Rightarrow> string) \<Rightarrow> HTTPFileHandle \<Rightarrow> string \<Rightarrow> int \<Rightarrow> (string \<times> int \<times> HTTPFileHandle, 'w) io" where
  "ReadCursor R text_of h buffer nr_bytes =
     (case cast_size nr_bytes of
        Inl e \<Rightarrow> throw_io e
      | Inr requested \<Rightarrow>
          if requested = 0 \<or> file_offset h \<ge> handle_length h then return_io (buffer, 0, h)
          else
            let read_size = min (handle_length h - file_offset h) requested
            in case GetReadConfig h of
                 Inl e \<Rightarrow> throw_io e
               | Inr config \<Rightarrow>
                   bind_io (ReadAtWithFallback R text_of h buffer read_size (file_offset h) config) (\<lambda>b.
                     return_io (b, uint read_size, h\<lparr>file_offset := file_offset h + read_size\<rparr>)))"

definition Seek :: "u64 \<Rightarrow> HTTPFileHandle \<Rightarrow> HTTPFileHandle" where
  "Seek location h = h\<lparr>file_offset := location\<rparr>"

definition SeekPosition :: "HTTPFileHandle \<Rightarrow> u64" where
  "SeekPosition h = file_offset h"

section \<open>What reads rely on\<close>

text \<open>
  \<open>file_ok\<close>: nothing was written out of bounds, and a downloaded file is the content. The contract of the
  requests of a handle for a file that does not change: a range request writes inside the range
  only, and when it counts as successful the buffer holds the bytes of the range, or, for a server
  that answers with the whole file, the whole content; a full request with status 200 downloads the content.
\<close>

definition file_ok :: "string \<Rightarrow> nat \<Rightarrow> HTTPTransfer \<Rightarrow> bool" where
  "file_ok content i s \<longleftrightarrow>
     \<not> memory_fault s \<and>
     (\<forall>d. cached_data (cached_file_of i s) = Some d \<longrightarrow>
        take (unat (GetSize d)) (GetData d) = content \<and> unat (GetSize d) = length content)"

locale http_requests =
  fixes R :: "'w file_requests" and content :: string and i :: nat
  assumes range_request:
    "get_range R config offset (Some b0) len (s, w) = Some (result, s', w') \<Longrightarrow> unat len \<le> length b0 \<Longrightarrow>
      \<not> memory_fault s \<Longrightarrow>
      range_inv b0 len s' \<and> cached_file_of i s' = cached_file_of i s \<and>
      (\<forall>r. result = Inr (Some r) \<and> \<not> request_error r \<and>
          (response_success r \<or> response_status r = 206 \<or> response_status r = 202) \<longrightarrow>
        (if response_status r = 206 then range_got (take (unat len) (drop (unat offset) content)) s'
         else range_got content s' \<and> (response_status r = 202 \<or> length content = unat len)))"
    and full_request:
    "get_full R config (s, w) = Some (fetched, s', w') \<Longrightarrow> full_inv s \<Longrightarrow>
      full_inv s' \<and> cached_file_of i s' = cached_file_of i s \<and>
      (\<forall>r. fetched = Inr (Some r) \<and> response_status r = 200 \<longrightarrow> full_got content s')"
begin

lemma TryRange:
  assumes "TryRangeRequest (get_range R) err path config offset b0 len (s, w) = Some (result, s', w')"
    and "unat len \<le> length b0" "file_ok content i s" "unat offset + unat len \<le> length content" "0 < len"
  shows "file_ok content i s' \<and> (\<forall>b. result = Inr True \<and> buffer_out (range_context s') = Some b \<longrightarrow>
      length b = length b0 \<and> drop (unat len) b = drop (unat len) b0 \<and>
      take (unat len) b = take (unat len) (drop (unat offset) content)) \<and>
    (result = Inr True \<longrightarrow> buffer_out (range_context s') \<noteq> None)"
proof -
  obtain res s1 w1 where got: "get_range R config offset (Some b0) len (s, w) = Some (res, s1, w1)"
    using assms(1) by (auto simp: TryRangeRequest_def bind_io_def split: option.splits)
  have fault: "\<not> memory_fault s" using assms(3) by (simp add: file_ok_def)
  note range = range_request [OF got assms(2) fault]
  have s': "range_inv b0 len s' = range_inv b0 len s1" "cached_file_of i s' = cached_file_of i s1"
    "range_context s' = range_context s1" "memory_fault s' = memory_fault s1"
    using assms(1) got
    by (auto simp: TryRangeRequest_def bind_io_def check_condition_def range_inv_def split: option.splits sum.splits if_splits)
  have "file_ok content i s'"
    using range s' assms(3) unfolding file_ok_def range_inv_def by metis
  moreover have "length b = length b0 \<and> drop (unat len) b = drop (unat len) b0 \<and>
      take (unat len) b = take (unat len) (drop (unat offset) content)"
    if b: "result = Inr True" "buffer_out (range_context s') = Some b" for b
  proof -
    obtain r where r: "res = Inr (Some r)" "\<not> request_error r"
      "response_success r \<or> response_status r = 206 \<or> response_status r = 202"
      using assms(1) got b(1)
      by (auto simp: TryRangeRequest_def bind_io_def check_condition_def split: option.splits sum.splits if_splits)
    then have "if response_status r = 206 then range_got (take (unat len) (drop (unat offset) content)) s1
         else range_got content s1 \<and> (response_status r = 202 \<or> length content = unat len)"
      using range by blast
    moreover have inv: "range_inv b0 len s1" using range by blast
    moreover have "unat offset = 0 \<and> unat (out_offset (range_context s1)) = unat len" if "range_got content s1"
    proof -
      have "length content = unat (out_offset (range_context s1))" "unat (out_offset (range_context s1)) \<le> unat len"
        using that inv by (auto simp: range_got_def range_inv_def word_le_nat_alt)
      then show ?thesis using assms(4) by arith
    qed
    ultimately show ?thesis
      using b(2) assms(4) s'(3)
      by (auto simp: range_got_def range_inv_def split: if_splits)
  qed
  moreover have "buffer_out (range_context s') \<noteq> None"
    using range s' by (auto simp: range_inv_def)
  ultimately show ?thesis by blast
qed

lemma ReadAt_bytes:
  assumes "ReadAt (get_range R) err h buffer n location config (s, w) = Some (result, s', w')"
    and "file_state h = i" "file_ok content i s" "unat n \<le> length buffer" "unat location + unat n \<le> length content"
  shows "file_ok content i s' \<and>
    (\<forall>b. result = Inr (Some b) \<longrightarrow> length b = length buffer \<and> drop (unat n) b = drop (unat n) buffer \<and>
       take (unat n) b = take (unat n) (drop (unat location) content))"
proof (cases "n > - 1 - location \<or> n = 0")
  case True
  with assms show ?thesis by (auto simp: ReadAt_def Let_def split: option.splits if_splits)
next
  case False
  then have n: "0 < n" by (simp add: word_neq_0_conv)
  show ?thesis
  proof (cases "TryGetCachedFileHandle i (http_state s)")
    case None
    obtain res s1 w1 where got:
      "TryRangeRequest (get_range R) err (handle_path h) config location buffer n (s, w) = Some (res, s1, w1)"
      using assms(1,2) False None n by (auto simp: ReadAt_def Let_def bind_io_def split: option.splits)
    note tried = TryRange [OF got assms(4,3,5) n]
    have "s' = s1" "\<forall>b. result = Inr (Some b) \<longrightarrow> res = Inr True \<and> Some b = buffer_out (range_context s1)"
      using assms(1,2) False None n got tried
      by (auto simp: ReadAt_def Let_def bind_io_def buffer_now_def split: sum.splits if_splits option.splits)
    with tried show ?thesis by auto
  next
    case (Some d)
    then have d: "take (unat (GetSize d)) (GetData d) = content" "unat (GetSize d) = length content"
      using assms(3) unfolding file_ok_def TryGetCachedFileHandle_def TryGetHandle_def by blast+
    let ?slice = "take (unat n) (drop (unat location) (GetData d))"
    have "length content \<le> length (GetData d)" using d by (metis length_take min.cobounded1)
    then have read: "mem_read (drop (unat location) (GetData d)) (unat n) = Some ?slice"
      using assms(5) by (simp add: mem_read_def)
    have slice: "?slice = take (unat n) (drop (unat location) content)"
      using assms(5) d by (metis drop_take take_take min.absorb1 add_le_imp_le_diff add.commute le_diff_conv2 d(2))
    have len: "length ?slice = unat n" unfolding slice using assms(5) by simp
    obtain m where m: "m = ?slice @ drop (unat n) buffer" by blast
    have copy: "mem_write buffer 0 ?slice = Some m"
      using assms(4) len by (simp add: mem_write_def m)
    have "s' = s \<and> (\<forall>b. result = Inr (Some b) \<longrightarrow> b = m)"
    proof (cases "GetSize d < location + n")
      case True
      then show ?thesis using assms(1,2) False Some by (auto simp: ReadAt_def Let_def)
    next
      case fits: False
      have eq: "ReadAt (get_range R) err h buffer n location config (s, w) = Some (Inr (Some m), s, w)"
        using False fits n Some
        by (simp add: ReadAt_def Let_def assms(2) read copy bind_io_def memory_check_def del: take_drop drop_drop)
      from assms(1) [unfolded eq] show ?thesis by auto
    qed
    moreover have "length m = length buffer \<and> drop (unat n) m = drop (unat n) buffer \<and>
        take (unat n) m = take (unat n) (drop (unat location) content)"
      using assms(4) len slice by (simp add: m)
    ultimately show ?thesis using assms(3) by blast
  qed
qed

lemma FullDownload_file:
  assumes "FullDownload (Suc fuel) (get_full R) err h config (s, w) = Some (result, s', w')"
    and "file_state h = i" "file_ok content i s"
  shows "file_ok content i s' \<and>
    (\<forall>d. result = Inr d \<longrightarrow> cached_data (cached_file_of i s') = Some d \<and> unat (GetSize d) = length content)"
proof (cases "TryGetCachedFileHandle i (http_state s)")
  case (Some d)
  then have "s' = s" "result = Inr d" using assms(1,2) by auto
  moreover have "cached_data (cached_file_of i s) = Some d"
    using Some by (simp add: TryGetCachedFileHandle_def TryGetHandle_def)
  ultimately show ?thesis using assms(3) unfolding file_ok_def by blast
next
  case None
  then have none: "cached_data (cached_file_of i s) = None" by (simp add: TryGetCachedFileHandle_def TryGetHandle_def)
  with assms(1,2) None have idle: "\<not> downloading (cached_file_of i s)"
    by (auto simp: StartDownload_def split: if_splits)
  define s0 where "s0 = (set_cached_file i ((cached_file_of i s)\<lparr>downloading := True\<rparr>) s)\<lparr>full_download := init_download\<rparr>"
  have run: "download_file (get_full R) err h config (s0, w) = Some (result, s', w')"
    using assms(1,2) None idle none by (simp add: StartDownload_def s0_def)
  have start: "full_inv s0" "cached_data (cached_file_of i s0) = None"
    using assms(3) none download_inv_init(1) by (auto simp: s0_def full_inv_def set_cached_file_def file_ok_def)
  obtain res s1 w1 where got: "get_full R config (s0, w) = Some (res, s1, w1)"
    using run by (auto simp: download_file_def on_exception_def bind_io_def split: option.splits)
  note full = full_request [OF got start(1)]
  have none1: "cached_data (cached_file_of i s1) = None" using full start(2) by simp
  have fault: "\<not> memory_fault s1" using full by (simp add: full_inv_def)
  show ?thesis
  proof (cases result)
    case (Inl e)
    then have "\<not> memory_fault s' \<and> cached_data (cached_file_of i s') = None"
      using run got none1 fault assms(2)
      by (auto simp: download_file_def on_exception_def bind_io_def check_condition_def set_cached_file_def
          AbortDownload_def Let_def split: option.splits sum.splits if_splits prod.splits)
    then show ?thesis unfolding file_ok_def using Inl by simp
  next
    case (Inr d)
    obtain r where r: "res = Inr (Some r)" "response_status r = 200"
      "d = fst (FinalizeDownload (full_download s1) (cached_file_of i s1))"
      "s' = set_cached_file i (snd (FinalizeDownload (full_download s1) (cached_file_of i s1))) s1"
      using run got assms(2) Inr
      by (auto simp: download_file_def on_exception_def bind_io_def check_condition_def Let_def
          split: option.splits sum.splits if_splits prod.splits)
    have "full_got content s1" using full r(1,2) by blast
    then have d: "take (unat (GetSize d)) (GetData d) = content" "unat (GetSize d) = length content"
      by (simp_all add: r(3) full_got_def FinalizeDownload_def Let_def GetSize_def GetData_def download_inv_def)
    have "cached_data (cached_file_of i s') = Some d" "\<not> memory_fault s'"
      using fault by (simp_all add: r(3,4) FinalizeDownload_def Let_def set_cached_file_def)
    with d show ?thesis unfolding file_ok_def Inr by auto
  qed
qed

lemma FullDownload_returns:
  assumes "file_state h = i" "file_ok content i s" "\<not> downloading (cached_file_of i s)"
    and "\<And>sw. \<exists>r sw'. get_full R config sw = Some (Inr (Some r), sw') \<and> response_status r = 200"
  shows "\<exists>d s' w'. FullDownload (Suc fuel) (get_full R) err h config (s, w) = Some (Inr d, s', w') \<and>
    cached_data (cached_file_of i s') = Some d \<and> unat (GetSize d) = length content \<and> file_ok content i s'"
proof -
  have condition: "check_condition path config r = return_io ()" if "response_status r = 200" for path config and r :: GetResponse
    using that by (simp add: check_condition_def ThrowIfReadConditionFailed_def)
  have "\<exists>d s' w'. FullDownload (Suc fuel) (get_full R) err h config (s, w) = Some (Inr d, s', w')"
  proof (cases "TryGetCachedFileHandle i (http_state s)")
    case None
    then have none: "cached_data (cached_file_of i s) = None" by (simp add: TryGetCachedFileHandle_def TryGetHandle_def)
    define s0 where
      "s0 = (set_cached_file i ((cached_file_of i s)\<lparr>downloading := True\<rparr>) s)\<lparr>full_download := init_download\<rparr>"
    obtain r s1 w1 where got: "get_full R config (s0, w) = Some (Inr (Some r), s1, w1)" "response_status r = 200"
      using assms(4) [of "(s0, w)"] by auto
    then have "\<exists>d s' w'. download_file (get_full R) err h config (s0, w) = Some (Inr d, s', w')"
      by (simp add: download_file_def on_exception_def bind_io_def condition Let_def case_prod_beta)
    then show ?thesis using None none assms(1,3) by (simp add: StartDownload_def s0_def)
  qed (simp add: assms(1))
  then obtain d s' w' where run: "FullDownload (Suc fuel) (get_full R) err h config (s, w) = Some (Inr d, s', w')" by blast
  from FullDownload_file [OF this assms(1,2)] run show ?thesis by blast
qed

lemma ReadAtWithFallback_bytes:
  assumes "ReadAtWithFallback R text_of h buffer n location config (s, w) = Some (result, s', w')"
    and "file_state h = i" "file_ok content i s" "unat n \<le> length buffer" "unat location + unat n \<le> length content"
  shows "file_ok content i s' \<and>
    (\<forall>b. result = Inr b \<longrightarrow> length b = length buffer \<and> drop (unat n) b = drop (unat n) buffer \<and>
       take (unat n) b = take (unat n) (drop (unat location) content))"
proof -
  obtain res1 s1 w1 where first: "ReadAt (get_range R) (get_error R) h buffer n location config (s, w) = Some (res1, s1, w1)"
    using assms(1) by (auto simp: ReadAtWithFallback_def bind_io_def split: option.splits)
  note read1 = ReadAt_bytes [OF first assms(2-5)]
  show ?thesis
  proof (cases "res1 = Inr None")
    case False
    then have "s' = s1 \<and> (\<forall>b. result = Inr b \<longrightarrow> res1 = Inr (Some b))"
      using assms(1) first by (auto simp: ReadAtWithFallback_def bind_io_def split: sum.splits option.splits)
    with read1 show ?thesis by auto
  next
    case True
    obtain res2 s2 w2 where second: "FullDownload 1 (get_full R) (get_error R) h config (s1, w1) = Some (res2, s2, w2)"
      using assms(1) first True by (auto simp: ReadAtWithFallback_def bind_io_def split: option.splits)
    have ok1: "file_ok content i s1" using read1 by blast
    note full = FullDownload_file [OF second [unfolded One_nat_def] assms(2) ok1]
    show ?thesis
    proof (cases "\<exists>d. res2 = Inr d \<and> GetSize d = handle_length h")
      case False
      have mismatch: "file_ok content i (s2\<lparr>http_state := EraseFileState p (InvalidateCachedFile i (http_state s2))\<rparr>)" for p
        using full by (simp add: file_ok_def InvalidateCachedFile_def EraseFileState_def Invalidate_def)
      have "(s' = s2 \<or> s' = s2\<lparr>http_state := EraseFileState (handle_path h) (InvalidateCachedFile i (http_state s2))\<rparr>) \<and>
          (\<exists>e. result = Inl e)"
        using assms(1,2) first True second False
        by (auto simp: ReadAtWithFallback_def bind_io_def split: sum.splits if_splits)
      with full mismatch show ?thesis by auto
    next
      case found: True
      then obtain d where d: "res2 = Inr d" "GetSize d = handle_length h" by blast
      obtain res3 s3 w3 where third:
        "ReadAt (get_range R) (get_error R) h buffer n location config (s2, w2) = Some (res3, s3, w3)"
        using assms(1) first True second d by (auto simp: ReadAtWithFallback_def bind_io_def split: option.splits)
      have "file_ok content i s2" using full by blast
      note read3 = ReadAt_bytes [OF third assms(2) this assms(4,5)]
      have "s' = s3 \<and> (\<forall>b. result = Inr b \<longrightarrow> res3 = Inr (Some b))"
        using assms(1) first True second d third
        by (auto simp: ReadAtWithFallback_def bind_io_def split: sum.splits option.splits)
      with read3 show ?thesis by auto
    qed
  qed
qed

end

section \<open>The requests of the HTTP file system\<close>

definition AddConfiguredHeaders :: "'h headers_api \<Rightarrow> HTTPFSParams \<Rightarrow> 'h \<Rightarrow> 'h" where
  "AddConfiguredHeaders H params headers =
     fold (\<lambda>(k, v). header_set H k v) (extra_headers params)
       (if user_agent params \<noteq> [] then header_insert H ''User-Agent'' (user_agent params) headers else headers)"

definition request_headers_of :: "'h headers_api \<Rightarrow> HTTPFSParams \<Rightarrow> 'h" where
  "request_headers_of H params = AddConfiguredHeaders H params (headers_empty H)"

text \<open>\<open>GetRangeRequest\<close> and \<open>GetRequest\<close> of a handle; \<open>err\<close> is \<open>GetHTTPError\<close> for its path.\<close>

definition GetRangeRequest ::
  "'h headers_api \<Rightarrow> (u64 \<Rightarrow> string) \<Rightarrow> ('h, 'w) sender \<Rightarrow> HTTPFSParams \<Rightarrow> (GetResponse \<Rightarrow> exn) \<Rightarrow> HTTPFileHandle \<Rightarrow>
     'w range_request" where
  "GetRangeRequest H text_of send params err h config offset buffer len =
     RunGetRangeRequest H text_of send (handle_path h) (file_state h) (handle_path h) (request_headers_of H params)
       config offset buffer len err"

definition HTTPGetRequest ::
  "duckdb_api \<Rightarrow> 'h headers_api \<Rightarrow> (u64 \<Rightarrow> string) \<Rightarrow> ('h, 'w) sender \<Rightarrow> HTTPFSParams \<Rightarrow> (GetResponse \<Rightarrow> exn) \<Rightarrow>
     HTTPFileHandle \<Rightarrow> 'w full_request" where
  "HTTPGetRequest D H A send params err h config sw =
     Some (RunGetRequest D H A send (handle_path h) (handle_path h) (request_headers_of H params) config err sw)"

definition http_file_requests ::
  "duckdb_api \<Rightarrow> 'h headers_api \<Rightarrow> (u64 \<Rightarrow> string) \<Rightarrow> (u64 \<Rightarrow> string) \<Rightarrow> ('h, 'w) sender \<Rightarrow> HTTPFSParams \<Rightarrow>
     (int \<Rightarrow> string list) \<Rightarrow> HTTPFileHandle \<Rightarrow> 'w file_requests" where
  "http_file_requests D H A text_of send params status_text h =
     (let err = (\<lambda>r. GetHTTPError status_text (HTTPResponse.truncate r) GET_REQUEST (handle_path h))
      in \<lparr>get_range = GetRangeRequest H text_of send params err h, get_full = HTTPGetRequest D H A send params err h,
          get_error = err\<rparr>)"

text \<open>
  A server of a file that does not change: a partial response holds the bytes of the range, any
  other successful response to a read holds the whole file.
\<close>

definition serves_content ::
  "duckdb_api \<Rightarrow> 'h headers_api \<Rightarrow> (u64 \<Rightarrow> string) \<Rightarrow> string \<Rightarrow> 'h \<Rightarrow> string \<Rightarrow> ('h GetRequest \<Rightarrow> attempt \<Rightarrow> bool) \<Rightarrow> bool" where
  "serves_content D H text_of url headers content served \<longleftrightarrow>
     (\<forall>config offset len a. served (range_request H text_of url headers config offset len) a \<and> response_status (fst a) < 300 \<longrightarrow>
        concat (snd a) =
          (if response_status (fst a) = 206 then take (unat len) (drop (unat offset) content) else content)) \<and>
     (\<forall>config a. served (full_request D H url headers config) a \<and> response_status (fst a) < 300 \<longrightarrow>
        concat (snd a) = content)"

lemma http_requests_http:
  assumes "http_client served send" "allocates A"
    and "serves_content D H text_of (handle_path h) (request_headers_of H params) content served"
  shows "http_requests (http_file_requests D H A text_of send params status_text h) content i"
proof
  fix config offset b0 len s w result s' w'
  assume run: "get_range (http_file_requests D H A text_of send params status_text h) config offset (Some b0) len (s, w) =
      Some (result, s', w')"
    and len: "unat len \<le> length b0" and fault: "\<not> memory_fault s"
  let ?req = "range_request H text_of (handle_path h) (request_headers_of H params) config offset len"
  note run' = run [unfolded http_file_requests_def Let_def file_requests.simps GetRangeRequest_def]
  note buffer = RunGetRangeRequest_buffer [OF assms(1) len fault run']
  have "if response_status r = 206 then range_got (take (unat len) (drop (unat offset) content)) s'
         else range_got content s' \<and> (response_status r = 202 \<or> length content = unat len)"
    if r: "result = Inr (Some r)" "\<not> request_error r"
      "response_success r \<or> response_status r = 206 \<or> response_status r = 202" for r
  proof -
    have "response_status r < 300" using buffer r by blast
    then obtain a where a: "served ?req a" "response_status (fst a) = response_status r" "range_got (concat (snd a)) s'"
      "response_success r \<longrightarrow> length (concat (snd a)) = unat len" using buffer r by blast
    have "concat (snd a) =
        (if response_status (fst a) = 206 then take (unat len) (drop (unat offset) content) else content)"
      using assms(3) a(1,2) \<open>response_status r < 300\<close> unfolding serves_content_def by metis
    with a r(3) show ?thesis by auto
  qed
  then show "range_inv b0 len s' \<and> cached_file_of i s' = cached_file_of i s \<and>
      (\<forall>r. result = Inr (Some r) \<and> \<not> request_error r \<and>
          (response_success r \<or> response_status r = 206 \<or> response_status r = 202) \<longrightarrow>
        (if response_status r = 206 then range_got (take (unat len) (drop (unat offset) content)) s'
         else range_got content s' \<and> (response_status r = 202 \<or> length content = unat len)))"
    using buffer RunGetRangeRequest_kept [OF assms(1) run'] by blast
next
  fix config s w fetched s' w'
  assume run: "get_full (http_file_requests D H A text_of send params status_text h) config (s, w) = Some (fetched, s', w')"
    and inv: "full_inv s"
  note run' = run [unfolded http_file_requests_def Let_def file_requests.simps HTTPGetRequest_def option.inject]
  note full = RunGetRequest_download [OF assms(2,1) inv run']
  have "full_got content s'" if r: "fetched = Inr (Some r)" "response_status r = 200" for r
  proof -
    obtain a where "served (full_request D H (handle_path h) (request_headers_of H params) config) a"
      "response_status (fst a) < 300" "full_got (concat (snd a)) s'" using full r by fastforce
    then show ?thesis using assms(3) unfolding serves_content_def by metis
  qed
  then show "full_inv s' \<and> cached_file_of i s' = cached_file_of i s \<and>
      (\<forall>r. fetched = Inr (Some r) \<and> response_status r = 200 \<longrightarrow> full_got content s')"
    using full RunGetRequest_kept [OF assms(1) run'] by blast
qed

end
