(* ===== verification/Http_Read.thy ===== *)
theory Http_Read
  imports Http_File
begin

text \<open>
  What reading a file over HTTP gives, on top of the contract of Http_File: the properties of the
  reads at a position and at the cursor, and of the fallback to a full download. A small server
  that keeps one file shows that the hypotheses can hold.
\<close>

section \<open>A server\<close>

text \<open>A client that makes one attempt per request.\<close>

definition single_client :: "('h GetRequest \<Rightarrow> attempt) \<Rightarrow> ('h, unit) sender" where
  "single_client serve req h sw =
     (case run_attempt h (serve req) (fst sw) of
        (Inl e, s') \<Rightarrow> (Inl e, s', snd sw)
      | (Inr b, s') \<Rightarrow> (Inr (Some (fst (serve req))), s', snd sw))"

definition served_by :: "('h GetRequest \<Rightarrow> attempt) \<Rightarrow> 'h GetRequest \<Rightarrow> attempt \<Rightarrow> bool" where
  "served_by serve req a \<longleftrightarrow> a = serve req"

lemma single_client_ok:
  assumes "\<And>req. attempt_ok (serve req) \<and> \<not> request_error (fst (serve req)) \<and> response_status (fst (serve req)) < 300"
  shows "http_client (served_by serve) (single_client serve)"
  unfolding http_client_def
proof (intro allI conjI impI)
  fix req h s w
  have same: "\<exists>c. s1 = set_counters c s1" for s1 :: HTTPTransfer
    by (rule exI [of _ "state_counters (http_state s1)"]) simp
  show "\<exists>as. client_run (served_by serve req) h as s (fst (single_client serve req h (s, w)))
      (fst (snd (single_client serve req h (s, w))))"
  proof (intro exI [of _ "[serve req]"])
    obtain res s1 where run: "run_attempt h (serve req) s = (res, s1)" by (cases "run_attempt h (serve req) s")
    show "client_run (served_by serve req) h [serve req] s (fst (single_client serve req h (s, w)))
      (fst (snd (single_client serve req h (s, w))))"
      using assms [of req] same run
      by (cases res) (auto simp: client_run_def single_client_def run_attempts_def served_by_def)
  qed
  fix r assume "fst (single_client serve req h (s, w)) = Inr (Some r)"
  then show "\<not> request_error r"
    using assms [of req] by (auto simp: single_client_def split: prod.splits sum.splits)
qed

text \<open>Numbers are written in unary, so that the range header is read back easily.\<close>

definition unary :: "u64 \<Rightarrow> string" where
  "unary n = replicate (unat n) (CHR ''1'')"

definition parse_unary :: "string \<Rightarrow> u64 \<times> u64" where
  "parse_unary text =
     (let first = takeWhile (\<lambda>c. c = CHR ''1'') (drop 6 text);
          last = drop (7 + length first) text
      in (word_of_nat (length first), word_of_nat (length last) + 1 - word_of_nat (length first)))"

lemma parse_unary_expr: "parse_unary (range_expr unary offset len) = (offset, len)"
proof -
  have "takeWhile (\<lambda>c. c = CHR ''1'') (replicate n (CHR ''1'') @ CHR ''-'' # t) = replicate n (CHR ''1'')" for n t
    by (induction n) simp_all
  then show ?thesis
    by (simp add: parse_unary_def range_expr_def unary_def Let_def)
qed

definition sample_response :: "int \<Rightarrow> GetResponse" where
  "sample_response status =
     \<lparr>request_error = False, response_status = status, response_body = [], response_header = Map.empty,
      response_success = True, response_failure = RangeRequestNotSupported\<rparr>"

text \<open>The file \<open>content\<close>, sent in two chunks.\<close>

definition serve_file :: "string \<Rightarrow> (string \<times> string) list GetRequest \<Rightarrow> attempt" where
  "serve_file content req =
     (case assoc_find (request_headers req) ''Range'' of
        None \<Rightarrow> (sample_response 200, [content])
      | Some text \<Rightarrow>
          let (offset, len) = parse_unary text; bytes = take (unat len) (drop (unat offset) content)
          in (sample_response 206, [take 1 bytes, drop 1 bytes]))"

lemma ApplyReadCondition_range:
  "assoc_find (ApplyReadCondition assoc_headers config h) ''Range'' = assoc_find h ''Range''"
proof -
  have "fold_name ''If-Match'' \<noteq> fold_name ''Range''" by code_simp
  then have "assoc_find ((''If-Match'', v) # h) ''Range'' = assoc_find h ''Range''" for v by (simp only: assoc_find.simps if_False)
  then show ?thesis by (simp add: ApplyReadCondition_def assoc_headers_def del: assoc_find.simps)
qed

lemma RemoveRangeHeader_gone:
  assumes "header_laws H" "byte_strings D"
  shows "header_find H (RemoveRangeHeader D H h) ''Range'' = None"
proof -
  have step: "header_find H (fold (\<lambda>(k, v) result. if \<not> CIEquals D k ''Range'' then header_set H k v result else result) xs g)
      ''Range'' = header_find H g ''Range''" for xs g
    by (induction xs arbitrary: g)
       (auto simp: byte_stringsD [OF assms(2)] header_lawsD [OF assms(1)] simp del: List.list.map split: if_splits)
  show ?thesis unfolding RemoveRangeHeader_def step by (rule header_lawsD(1) [OF assms(1)])
qed

lemma serve_file_range:
  "serve_file content (range_request assoc_headers unary url headers config offset len) =
     (let bytes = take (unat len) (drop (unat offset) content)
      in (sample_response 206, [take 1 bytes, drop 1 bytes]))"
proof -
  have "assoc_find (request_headers (range_request assoc_headers unary url headers config offset len)) ''Range'' =
      Some (range_expr unary offset len)"
    unfolding range_request_def GetRequest.simps ApplyReadCondition_range
    by (simp add: assoc_headers_def del: List.list.map)
  then show ?thesis by (simp add: serve_file_def parse_unary_expr Let_def)
qed

lemma serve_file_content:
  "serves_content std_api assoc_headers unary url headers content (served_by (serve_file content))"
proof -
  have 2: "assoc_find (request_headers (full_request std_api assoc_headers url headers config)) ''Range'' = None" for config
    using RemoveRangeHeader_gone [OF header_laws_assoc byte_strings_std, of headers]
    unfolding full_request_def GetRequest.simps PrepareFullGetHeaders_def ApplyReadCondition_range
    by (simp add: assoc_headers_def)
  have split: "take 1 bytes @ drop 1 bytes = bytes" for bytes :: string by (rule append_take_drop_id)
  show ?thesis
    unfolding serves_content_def served_by_def
    by (auto simp: serve_file_range serve_file_def [of _ "full_request D H u h c" for D H u h c] 2 sample_response_def split Let_def
        simp del: One_nat_def take_take)
qed

lemma serve_file_client:
  "length content < 18446744073709551616 \<Longrightarrow>
    http_client (served_by (serve_file content)) (single_client (serve_file content))"
  by (rule single_client_ok)
     (auto simp: serve_file_def attempt_ok_def sample_response_def Let_def split: option.splits prod.splits)

definition sample_content :: string where
  "sample_content = ''0123456789''"

definition sample_handle :: HTTPFileHandle where
  "sample_handle =
     (CreateHandle ''http://h/f'' \<lparr>open_for_reading = True, open_for_writing = False, create_if_not_exists = False,
        overwrite_existing = False\<rparr> None)
     \<lparr>handle_length := 10, read_config := Some (BuildReadConfig std_api sample_params
        (CreateHandle ''http://h/f'' \<lparr>open_for_reading = True, open_for_writing = False, create_if_not_exists = False,
        overwrite_existing = False\<rparr> None))\<rparr>"

definition sample_transfer :: HTTPTransfer where
  "sample_transfer =
     \<lparr>http_state = init_http_state, global_metadata_cache = None,
      range_context = \<lparr>buffer_out = None, buffer_out_len = 0, out_offset = 0, range_request_not_supported = False,
        range_guard = \<lparr>guard_support = SUPPORTED, guard_enabled = False, owns_probe = False\<rparr>\<rparr>,
      full_download = init_download, memory_fault = False\<rparr>"

abbreviation sample_requests :: "unit file_requests" where
  "sample_requests \<equiv>
     http_file_requests std_api assoc_headers zero_alloc unary (single_client (serve_file sample_content)) sample_params
       (\<lambda>n. []) sample_handle"

lemma sample_client: "http_client (served_by (serve_file sample_content)) (single_client (serve_file sample_content))"
  by (rule serve_file_client) (simp add: sample_content_def)

lemma sample_serves:
  "serves_content std_api assoc_headers unary (handle_path sample_handle) (request_headers_of assoc_headers sample_params)
     sample_content (served_by (serve_file sample_content))"
  by (rule serve_file_content)

interpretation sample: http_requests sample_requests sample_content i for i
  by (rule http_requests_http [OF sample_client allocates_zero sample_serves])

lemma sample_file_ok: "file_ok content i sample_transfer"
  by (simp add: file_ok_def sample_transfer_def init_http_state_def init_file_state_def init_cached_file_def)

section \<open>Properties\<close>

text \<open>
  C2: A read at a position returns exactly the bytes of the file, for any server that keeps serving the
  same file: whatever answers come, with or without support for ranges, from a range request, after a fallback to
  a full download, or from a file that was downloaded before, a read that returns filled
  the buffer with the bytes at its position and left the rest of the buffer alone; no access was
  outside a buffer, and what the handles share still is the file.
\<close>

theorem ReadPosition_bytes:
  assumes "http_client served send" "allocates A"
    and "serves_content D H text_of (handle_path h) (request_headers_of H params) content served"
    and "file_ok content (file_state h) s" "nat n \<le> length buffer" "unat location + nat n \<le> length content"
    and "n < 18446744073709551616"
    and "ReadPosition (http_file_requests D H A text_of send params status_text h) text_of h buffer n location (s, w) =
      Some (result, s', w')"
  shows "file_ok content (file_state h) s' \<and>
    (\<forall>b. result = Inr b \<longrightarrow>
       b = take (nat n) (drop (unat location) content) @ drop (nat n) buffer)"
proof (cases "n \<le> 0")
  case True
  with assms(4,8) show ?thesis
    by (cases "n = 0") (auto simp: ReadPosition_def cast_size_def split: if_splits sum.splits)
next
  case positive: False
  let ?n = "word_of_int n :: u64"
  have n: "unat ?n = nat n"
    using positive assms(7) by (simp add: unat_eq_nat_uint uint_word_of_int)
  then have nonzero: "?n \<noteq> 0" using positive by (metis unat_0 nat_0_iff)
  show ?thesis
  proof (cases "GetReadConfig h")
    case (Inl e)
    with assms(4,8) positive nonzero show ?thesis
      by (auto simp: ReadPosition_def cast_size_def split: if_splits sum.splits)
  next
    case (Inr config)
    then have run: "ReadAtWithFallback (http_file_requests D H A text_of send params status_text h) text_of h buffer ?n
        location config (s, w) = Some (result, s', w')"
      using assms(8) positive nonzero by (simp add: ReadPosition_def cast_size_def)
    note read = http_requests.ReadAtWithFallback_bytes [OF http_requests_http [OF assms(1-3)] run refl assms(4)]
    have fits: "unat ?n \<le> length buffer" "unat location + unat ?n \<le> length content"
      using assms(5,6) n by simp_all
    from read [OF fits] show ?thesis unfolding n by (metis append_take_drop_id)
  qed
qed

lemma sample_config: "GetReadConfig sample_handle = Inr
    \<lparr>read_condition = \<lparr>condition_type = READ_NONE, condition_value = []\<rparr>, read_etag = [], validate_etag = True,
     auto_fallback = True\<rparr>"
  by (simp add: GetReadConfig_def sample_handle_def BuildReadConfig_def CreateHandle_def sample_params_def IsStrongETag_def
      std_api_def trim_space_def)

lemma HandleResponse_sample:
  "HandleResponse path i config err (sample_response 206) s =
     (Inr True, mark_guard MarkSupported i (set_context (\<lambda>c. c\<lparr>out_offset := 0\<rparr>) s))"
  by (simp add: HandleResponse_def sample_response_def ValidateContentLength_def ValidateResponseETag_def)

lemma sample_begin:
  "\<exists>g hs. BeginRangeRequest enabled i init_http_state = Some (g, hs) \<and> guard_support g \<noteq> NOT_SUPPORTED"
  by (simp add: BeginRangeRequest_def GuardLoad_def GuardProbe_def init_http_state_def init_file_state_def init_range_state_def Let_def)

lemma sample_attempt:
  assumes "buffer_out (range_context s) = Some ''zzzz''" "buffer_out_len (range_context s) = 3"
  shows "\<exists>s'. run_attempt (range_handlers path i config err) (sample_response 206, [''2'', ''34'']) s = (Inr True, s') \<and>
    buffer_out (range_context s') = Some ''234z'' \<and> out_offset (range_context s') = 3 \<and> buffer_out_len (range_context s') = 3 \<and>
    range_request_not_supported (range_context s') = range_request_not_supported (range_context s)"
  using assms
  by (simp add: run_attempt_def range_handlers_def HandleResponse_sample HandleContent_def mem_write_def)

lemma sample_range:
  "\<exists>s' w'. GetRangeRequest assoc_headers unary (single_client (serve_file sample_content)) params err h config
     2 (Some ''zzzz'') 3 (sample_transfer, ()) = Some (Inr (Some (sample_response 206)), s', w') \<and>
     buffer_out (range_context s') = Some ''234z''"
proof -
  let ?i = "file_state h" and ?u = "handle_path h" and ?hm = "request_headers_of assoc_headers params"
  obtain g hs where begun: "BeginRangeRequest (auto_fallback config) ?i (http_state sample_transfer) = Some (g, hs)"
    "guard_support g \<noteq> NOT_SUPPORTED"
    using sample_begin unfolding sample_transfer_def HTTPTransfer.simps by blast
  define s1 where "s1 = sample_transfer\<lparr>http_state := hs, range_context := \<lparr>buffer_out = Some ''zzzz'', buffer_out_len = 3,
      out_offset = 0, range_request_not_supported = False, range_guard = g\<rparr>\<rparr>"
  have served: "serve_file sample_content (range_request assoc_headers unary ?u ?hm config 2 3) =
      (sample_response 206, [''2'', ''34''])"
    unfolding serve_file_range by (simp add: sample_content_def)
  obtain s2 where s2: "run_attempt (range_handlers ?u ?i config err) (sample_response 206, [''2'', ''34'']) s1 = (Inr True, s2)"
    "buffer_out (range_context s2) = Some ''234z''" "out_offset (range_context s2) = 3"
    "buffer_out_len (range_context s2) = 3" "\<not> range_request_not_supported (range_context s2)"
    using sample_attempt [of s1 ?u ?i config err] by (auto simp: s1_def)
  have sent: "single_client (serve_file sample_content) (range_request assoc_headers unary ?u ?hm config 2 3)
      (range_handlers ?u ?i config err) (s1, ()) = (Inr (Some (sample_response 206)), s2, ())"
    unfolding single_client_def fst_conv served s2(1) by simp
  have fin: "FinalizeRange unary ?u e ?i (Some (sample_response 206)) s2 =
      (Inr (Some (sample_response 206)), mark_guard MarkSupported ?i s2)" for e
    using s2 by (simp add: FinalizeRange_def ValidateReadLength_def IsSuccessfulResponse_def sample_response_def)
  have notns: "\<not> (guard_support g = NOT_SUPPORTED \<and> auto_fallback config)" using begun(2) by blast
  have "GetRangeRequest assoc_headers unary (single_client (serve_file sample_content)) params err h config
     2 (Some ''zzzz'') 3 (sample_transfer, ()) =
      Some (Inr (Some (sample_response 206)), end_guard ?i (mark_guard MarkSupported ?i s2), ())"
    unfolding GetRangeRequest_def
    by (rule RunGetRangeRequest_sent, rule begun(1), rule notns, rule sent [unfolded s1_def], rule fin)
  then show ?thesis using s2(2) by (simp add: end_guard_def)
qed

abbreviation sample_requests_of :: "HTTPFileHandle \<Rightarrow> unit file_requests" where
  "sample_requests_of h \<equiv>
     http_file_requests std_api assoc_headers zero_alloc unary (single_client (serve_file sample_content)) sample_params
       (\<lambda>n. []) h"

lemma sample_read:
  "\<exists>b s' w'. ReadAtWithFallback (sample_requests_of h) unary h ''zzzz'' 3 2 config (sample_transfer, ()) = Some (Inr b, s', w')"
proof -
  let ?err = "\<lambda>r. GetHTTPError (\<lambda>n. []) (HTTPResponse.truncate r) GET_REQUEST (handle_path h)"
  obtain s' where got: "GetRangeRequest assoc_headers unary (single_client (serve_file sample_content)) sample_params ?err
     h config 2 (Some ''zzzz'') 3 (sample_transfer, ()) = Some (Inr (Some (sample_response 206)), s', ())"
    using sample_range [of sample_params ?err h config] by auto
  have cached: "TryGetCachedFileHandle i (http_state sample_transfer) = None" for i
    by (simp add: TryGetCachedFileHandle_def TryGetHandle_def sample_transfer_def init_http_state_def init_file_state_def
        init_cached_file_def)
  have condition: "ThrowIfReadConditionFailed path config (sample_response 206) = None" for path
    by (simp add: ThrowIfReadConditionFailed_def sample_response_def)
  have "\<exists>b. ReadAt (GetRangeRequest assoc_headers unary (single_client (serve_file sample_content)) sample_params ?err h)
      ?err h ''zzzz'' 3 2 config (sample_transfer, ()) = Some (Inr (Some b), s', ())"
    by (simp add: ReadAt_def cached TryRangeRequest_def bind_io_def got check_condition_def condition buffer_now_def)
      (simp add: sample_response_def)
  then show ?thesis
    by (auto simp: ReadAtWithFallback_def http_file_requests_def Let_def bind_io_def)
qed

theorem ReadPosition_bytes_witness:
  "\<exists>s' w'. ReadPosition sample_requests unary sample_handle ''zzzz'' 3 2 (sample_transfer, ()) = Some (Inr ''234z'', s', w')"
proof -
  obtain config where "GetReadConfig sample_handle = Inr config" using sample_config by blast
  then obtain b s' w' where run:
    "ReadPosition sample_requests unary sample_handle ''zzzz'' 3 2 (sample_transfer, ()) = Some (Inr b, s', w')"
    using sample_read [of sample_handle config] by (auto simp: ReadPosition_def cast_size_def)
  have "b = ''234z''"
    using ReadPosition_bytes [OF sample_client allocates_zero sample_serves sample_file_ok _ _ _ run]
    by (simp add: sample_content_def)
  with run show ?thesis by blast
qed

text \<open>
  C5: Reading at the cursor gives the next bytes of the file and moves the cursor behind them: as many
  as were asked for, or as are left, and none at the end of the file, where nothing is requested.
\<close>

theorem ReadCursor_bytes:
  assumes "http_client served send" "allocates A"
    and "serves_content D H text_of (handle_path h) (request_headers_of H params) content served"
    and "file_ok content (file_state h) s" "nat n \<le> length buffer" "unat (handle_length h) = length content"
    and "n < 18446744073709551616"
    and "ReadCursor (http_file_requests D H A text_of send params status_text h) text_of h buffer n (s, w) =
      Some (Inr (b, nread, h'), s', w')"
  shows "file_ok content (file_state h) s' \<and> 0 \<le> n \<and>
    nread = int (min (nat n) (length content - unat (file_offset h))) \<and>
    b = take (nat n) (drop (unat (file_offset h)) content) @ drop (nat nread) buffer \<and>
    h' = h\<lparr>file_offset := file_offset h + word_of_int nread\<rparr> \<and>
    (length content \<le> unat (file_offset h) \<longrightarrow> nread = 0 \<and> s' = s \<and> w' = w)"
proof -
  let ?n = "word_of_int n :: u64" and ?o = "file_offset h"
  have n0: "0 \<le> n" using assms(8) by (auto simp: ReadCursor_def cast_size_def split: if_splits)
  have n: "unat ?n = nat n"
    using n0 assms(7) by (simp add: unat_eq_nat_uint uint_word_of_int)
  show ?thesis
  proof (cases "?n = 0 \<or> ?o \<ge> handle_length h")
    case True
    then have res: "b = buffer" "nread = 0" "h' = h" "s' = s" "w' = w"
      using assms(8) n0 by (auto simp: ReadCursor_def cast_size_def)
    have "nat n = 0 \<or> length content \<le> unat ?o"
      using True n assms(6) by (auto simp: word_le_nat_alt)
    with res assms(4) n0 show ?thesis by (auto simp: min_def)
  next
    case False
    let ?m = "min (handle_length h - ?o) ?n"
    have left: "unat (handle_length h - ?o) = length content - unat ?o"
      using False assms(6) by (subst unat_sub) (auto simp: not_le)
    have m: "unat ?m = min (nat n) (length content - unat ?o)"
      using n left by (auto simp: min_def word_le_nat_alt)
    obtain config where config: "GetReadConfig h = Inr config"
      using assms(8) n0 False by (cases "GetReadConfig h") (auto simp: ReadCursor_def cast_size_def Let_def)
    have run: "ReadAtWithFallback (http_file_requests D H A text_of send params status_text h) text_of h buffer ?m
        ?o config (s, w) = Some (Inr b, s', w')"
      and res: "nread = uint ?m" "h' = h\<lparr>file_offset := ?o + ?m\<rparr>"
      using assms(8) n0 False config
      by (auto simp: ReadCursor_def cast_size_def Let_def bind_io_def split: option.splits sum.splits)
    note read = http_requests.ReadAtWithFallback_bytes [OF http_requests_http [OF assms(1-3)] run refl assms(4)]
    have fits: "unat ?m \<le> length buffer" "unat ?o + unat ?m \<le> length content"
      using assms(5,6) m False by (auto simp: word_le_nat_alt)
    have b: "b = take (unat ?m) (drop (unat ?o) content) @ drop (unat ?m) buffer"
      using read [OF fits] by (metis append_take_drop_id)
    have taken: "take (unat ?m) (drop (unat ?o) content) = take (nat n) (drop (unat ?o) content)"
      unfolding m by (simp add: min_def)
    have count: "nread = int (unat ?m)" "nat nread = unat ?m" "word_of_int nread = ?m" by (simp_all add: res(1))
    have more: "\<not> length content \<le> unat ?o" using False assms(6) by (simp add: word_le_nat_alt)
    have "nread = int (min (nat n) (length content - unat ?o))" unfolding count(1) m ..
    moreover have "b = take (nat n) (drop (unat ?o) content) @ drop (nat nread) buffer"
      unfolding count(2) taken [symmetric] by (rule b)
    moreover have "h' = h\<lparr>file_offset := ?o + word_of_int nread\<rparr>" unfolding count(3) by (rule res(2))
    ultimately show ?thesis using read [OF fits] n0 more by blast
  qed
qed

theorem ReadCursor_bytes_witness:
  "\<exists>b h' s' w'. ReadCursor (sample_requests_of (Seek 2 sample_handle)) unary (Seek 2 sample_handle) ''zzzz'' 3 (sample_transfer, ()) =
     Some (Inr (b, 3, h'), s', w') \<and> b = ''234z'' \<and> SeekPosition h' = 5"
proof -
  let ?h = "Seek 2 sample_handle"
  have h: "file_offset ?h = 2" "handle_length ?h = 10" "handle_path ?h = handle_path sample_handle"
    by (simp_all add: Seek_def sample_handle_def)
  obtain config where "GetReadConfig ?h = Inr config" using sample_config by (simp add: GetReadConfig_def Seek_def)
  moreover obtain b s' w' where
    "ReadAtWithFallback (sample_requests_of ?h) unary ?h ''zzzz'' 3 2 config (sample_transfer, ()) = Some (Inr b, s', w')"
    using sample_read by blast
  ultimately have run: "ReadCursor (sample_requests_of ?h) unary ?h ''zzzz'' 3 (sample_transfer, ()) =
      Some (Inr (b, 3, ?h\<lparr>file_offset := 5\<rparr>), s', w')"
    by (simp add: ReadCursor_def cast_size_def h bind_io_def)
  have "b = ''234z''"
    using ReadCursor_bytes [OF sample_client allocates_zero sample_serves [folded h(3)] sample_file_ok _ _ _ run]
    by (simp add: sample_content_def h)
  with run show ?thesis by (simp add: SeekPosition_def)
qed

text \<open>
  C29: A request for a range never leaves the probe of its file running, however it ends, with a
  response, with an exception of a handler or of the client, so no other request waits for it; and when
  the server is already known not to support ranges and the fallback is enabled, no request is sent at all.
\<close>

theorem RunGetRangeRequest_probe:
  assumes "http_client served send" "\<not> probing (range_request_state (file_heap (http_state s) i))"
    and "RunGetRangeRequest H text_of send path i url header_map config offset buffer len err (s, w) =
      Some (result, s', w')"
  shows "\<not> probing (range_request_state (file_heap (http_state s') i)) \<and>
    (range_support (range_request_state (file_heap (http_state s) i)) = NOT_SUPPORTED \<and> auto_fallback config \<longrightarrow>
       w' = w \<and> (\<exists>r. result = Inr (Some r) \<and> request_error r \<and> response_failure r = RangeRequestNotSupported))"
proof -
  obtain g hs where begun: "BeginRangeRequest (auto_fallback config) i (http_state s) = Some (g, hs)"
    using assms(3) by (auto simp: RunGetRangeRequest_def Let_def)
  define s1 where "s1 = s\<lparr>http_state := hs, range_context :=
      \<lparr>buffer_out = buffer, buffer_out_len = len, out_offset = 0, range_request_not_supported = False, range_guard = g\<rparr>\<rparr>"
  have inv1: "probe_inv i s1" using BeginRangeRequest_probe [OF begun assms(2)] by (auto simp: s1_def probe_inv_def Let_def split: if_splits)
  let ?h = "range_handlers path i config err"
  let ?req = "range_request H text_of url header_map config offset len"
  show ?thesis
  proof (cases "guard_support g = NOT_SUPPORTED \<and> auto_fallback config")
    case True
    then have "s' = end_guard i s1" "w' = w" "\<exists>r. result = Inr (Some (SetRangeRequestNotSupported r))"
      using assms(3) begun by (auto simp: RunGetRangeRequest_def Let_def s1_def)
    then show ?thesis using end_guard_probe [OF inv1] by (auto simp: SetRangeRequestNotSupported_def)
  next
    case False
    obtain outcome s2 w2 where sent: "send ?req ?h (s1, w) = (outcome, s2, w2)" by (cases "send ?req ?h (s1, w)") auto
    obtain as where "client_run (served ?req) ?h as s1 outcome s2"
      using client_runs [OF assms(1), of _ ?h s1 w] sent by (metis fst_conv snd_conv)
    from probing.client_result [OF this inv1] have inv2: "probe_inv i s2" by auto
    have "\<exists>s3. probe_inv i s3 \<and> s' = end_guard i s3"
    proof (cases outcome)
      case (Inl e)
      then have "s' = end_guard i s2"
        using assms(3) begun False by (auto simp: RunGetRangeRequest_def Let_def sent [unfolded s1_def range_request_def])
      with inv2 show ?thesis by blast
    next
      case (Inr response)
      obtain fin s4 where fin: "FinalizeRange text_of url (range_expr text_of offset len) i response s2 = (fin, s4)"
        by (cases "FinalizeRange text_of url (range_expr text_of offset len) i response s2")
      then have "s' = end_guard i s4"
        using assms(3) begun False Inr by (auto simp: RunGetRangeRequest_def Let_def sent [unfolded s1_def range_request_def])
      moreover have "probe_inv i s4"
        using fin inv2 by (auto simp: FinalizeRange_def probe_inv_marks split: if_splits option.splits)
      ultimately show ?thesis by blast
    qed
    moreover have "range_support (range_request_state (file_heap (http_state s) i)) \<noteq> NOT_SUPPORTED \<or> \<not> auto_fallback config"
      using begun False by (auto simp: BeginRangeRequest_def GuardLoad_def Let_def split: if_splits)
    ultimately show ?thesis using end_guard_probe by blast
  qed
qed

theorem RunGetRangeRequest_probe_witness:
  "\<exists>result s' w'. GetRangeRequest assoc_headers unary (single_client (serve_file sample_content)) sample_params
     (\<lambda>r. Exn HTTPException [] []) sample_handle
     \<lparr>read_condition = \<lparr>condition_type = READ_NONE, condition_value = []\<rparr>, read_etag = [], validate_etag = True,
      auto_fallback = True\<rparr> 2 (Some ''zzzz'') 3 (sample_transfer, ()) = Some (result, s', w') \<and>
     \<not> probing (range_request_state (file_heap (http_state s') (file_state sample_handle)))"
proof -
  let ?config = "\<lparr>read_condition = \<lparr>condition_type = READ_NONE, condition_value = []\<rparr>, read_etag = [], validate_etag = True,
      auto_fallback = True\<rparr>"
  obtain s' w' where run: "GetRangeRequest assoc_headers unary (single_client (serve_file sample_content)) sample_params
     (\<lambda>r. Exn HTTPException [] []) sample_handle ?config 2 (Some ''zzzz'') 3 (sample_transfer, ()) = Some (Inr (Some (sample_response 206)), s', w')"
    using sample_range [of sample_params "\<lambda>r. Exn HTTPException [] []" sample_handle ?config] by blast
  have "\<not> probing (range_request_state (file_heap (http_state sample_transfer) (file_state sample_handle)))"
    by (simp add: sample_transfer_def init_http_state_def init_file_state_def init_range_state_def)
  from RunGetRangeRequest_probe [OF sample_client this run [unfolded GetRangeRequest_def]] run show ?thesis by blast
qed

text \<open>
  C3: A server without support for ranges can still be read: when it refuses a range request and the
  fallback is enabled, the file is downloaded once, in a single round, the read succeeds with the
  bytes of the file, and the downloaded file stays for the reads that follow.
\<close>

theorem fallback_succeeds:
  assumes "http_requests R content (file_state h)" "file_ok content (file_state h) s"
    and "cached_file_of (file_state h) s = init_cached_file"
    and "get_range R config location (Some buffer) n (s, w) = Some (Inr (Some r), s1, w1)"
    and "RespondedWithRangeRequestNotSupported r" "auto_fallback config" "response_status r \<noteq> 412"
    and "\<And>sw. \<exists>q sw'. get_full R config sw = Some (Inr (Some q), sw') \<and> response_status q = 200"
    and "unat (handle_length h) = length content" "0 < n" "unat n \<le> length buffer"
    and "unat location + unat n \<le> length content"
  shows "\<exists>b s' w'. ReadAtWithFallback R text_of h buffer n location config (s, w) = Some (Inr b, s', w') \<and>
    b = take (unat n) (drop (unat location) content) @ drop (unat n) buffer \<and>
    (\<exists>d. TryGetCachedFileHandle (file_state h) (http_state s') = Some d \<and> unat (GetSize d) = length content)"
proof -
  let ?i = "file_state h"
  have fault: "\<not> memory_fault s" using assms(2) by (simp add: file_ok_def)
  note range = http_requests.range_request [OF assms(1,4,11) fault]
  have cached1: "cached_file_of ?i s1 = init_cached_file" using range assms(3) by simp
  have ok1: "file_ok content ?i s1"
  proof -
    have "\<not> memory_fault s1" using range by (simp add: range_inv_def)
    then show ?thesis unfolding file_ok_def cached1 by (simp add: init_cached_file_def)
  qed
  have room: "\<not> n > - 1 - location"
  proof -
    have "unat location + unat n < 18446744073709551616"
      using assms(9,12) unat_u64 [of "handle_length h"] by simp
    then have "unat n \<le> unat (- 1 - location)"
      by (subst unat_sub) (simp_all add: unsigned_minus_1_eq_mask mask_eq_exp_minus_1)
    then show ?thesis by (simp add: word_le_nat_alt not_less)
  qed
  have read_end: "unat (location + n) = unat location + unat n"
    using assms(9,12) unat_u64 [of "handle_length h"] by (intro unat_u64_add) simp
  have refused: "check_condition (handle_path h) config r sw = Some (Inr (), sw)" for sw
    using assms(7) by (simp add: check_condition_def ThrowIfReadConditionFailed_def)
  have none: "TryGetCachedFileHandle ?i (http_state s) = None"
    using assms(3) by (simp add: TryGetCachedFileHandle_def TryGetHandle_def init_cached_file_def)
  have first: "ReadAt (get_range R) (get_error R) h buffer n location config (s, w) = Some (Inr None, s1, w1)"
    using room none assms(4-6,10)
    by (simp add: refused ReadAt_def TryRangeRequest_def bind_io_def Let_def RespondedWithRangeRequestNotSupported_def)
  obtain d s2 w2 where full: "FullDownload 1 (get_full R) (get_error R) h config (s1, w1) = Some (Inr d, s2, w2)"
    "cached_data (cached_file_of ?i s2) = Some d" "unat (GetSize d) = length content" "file_ok content ?i s2"
    using http_requests.FullDownload_returns [OF assms(1) refl ok1 _ assms(8), of 0 "get_error R" w1] cached1
    by (auto simp: init_cached_file_def)
  have found: "TryGetCachedFileHandle ?i (http_state s2) = Some d"
    using full(2) by (simp add: TryGetCachedFileHandle_def TryGetHandle_def)
  have size: "GetSize d = handle_length h" using full(3) assms(9) by (simp add: word_unat_eq_iff)
  have fits: "\<not> GetSize d < location + n" using full(3) assms(12) read_end by (simp add: word_less_nat_alt)
  have state: "\<exists>b s3. ReadAt (get_range R) (get_error R) h buffer n location config (s2, w2) = Some (Inr (Some b), s3, w2) \<and>
      http_state s3 = http_state s2"
    using room found fits assms(10)
    by (auto simp: ReadAt_def Let_def bind_io_def memory_check_def split: option.splits)
  then obtain b s3 where second: "ReadAt (get_range R) (get_error R) h buffer n location config (s2, w2) = Some (Inr (Some b), s3, w2)"
    "http_state s3 = http_state s2" by blast
  have run: "ReadAtWithFallback R text_of h buffer n location config (s, w) = Some (Inr b, s3, w2)"
    unfolding ReadAtWithFallback_def by (simp add: bind_io_def first full(1) size second(1) del: FullDownload.simps One_nat_def)
  from http_requests.ReadAtWithFallback_bytes [OF assms(1) run refl assms(2,11,12)]
  have "b = take (unat n) (drop (unat location) content) @ drop (unat n) buffer" by (metis append_take_drop_id)
  with run found second(2) full(3) show ?thesis by auto
qed

text \<open>Requests to a server that refuses ranges and sends \<open>content\<close> as a whole.\<close>

definition whole_download :: "string \<Rightarrow> CachedFileDownload" where
  "whole_download content =
     \<lparr>download_data = content, download_capacity = word_of_nat (length content), download_size = word_of_nat (length content)\<rparr>"

definition whole_requests :: "string \<Rightarrow> unit file_requests" where
  "whole_requests content =
     \<lparr>get_range = (\<lambda>config offset buffer len sw.
        Some (Inr (Some (SetRangeRequestNotSupported (sample_response 200))),
          (fst sw)\<lparr>range_context := \<lparr>buffer_out = buffer, buffer_out_len = len, out_offset = 0,
             range_request_not_supported = True, range_guard = range_guard (range_context (fst sw))\<rparr>\<rparr>, snd sw)),
      get_full = (\<lambda>config sw.
        Some (Inr (Some (sample_response 200)), (fst sw)\<lparr>full_download := whole_download content\<rparr>, snd sw)),
      get_error = (\<lambda>r. Exn HTTPException [] [])\<rparr>"

interpretation whole: http_requests "whole_requests sample_content" sample_content i for i
proof
  have "download_inv (whole_download sample_content) sample_content"
    by (simp add: download_inv_def whole_download_def sample_content_def)
  then show "full_inv s' \<and> cached_file_of i s' = cached_file_of i s \<and>
      (\<forall>r. fetched = Inr (Some r) \<and> response_status r = 200 \<longrightarrow> full_got sample_content s')"
    if "get_full (whole_requests sample_content) config (s, w) = Some (fetched, s', w')" "full_inv s" for config s w fetched s' w'
    using that by (auto simp: whole_requests_def full_inv_def full_got_def)
qed (auto simp: whole_requests_def range_inv_def SetRangeRequestNotSupported_def)

theorem fallback_succeeds_witness:
  "\<exists>s' w'. ReadAtWithFallback (whole_requests sample_content) unary sample_handle ''zzzz'' 3 2
     \<lparr>read_condition = \<lparr>condition_type = READ_NONE, condition_value = []\<rparr>, read_etag = [], validate_etag = True,
      auto_fallback = True\<rparr> (sample_transfer, ()) = Some (Inr ''234z'', s', w')"
proof -
  have full: "\<exists>q sw'. get_full (whole_requests sample_content) config sw = Some (Inr (Some q), sw') \<and> response_status q = 200"
    for config sw by (simp add: whole_requests_def sample_response_def)
  have fresh: "cached_file_of i sample_transfer = init_cached_file" for i
    by (simp add: sample_transfer_def init_http_state_def init_file_state_def)
  let ?config = "\<lparr>read_condition = \<lparr>condition_type = READ_NONE, condition_value = []\<rparr>, read_etag = [], validate_etag = True,
      auto_fallback = True\<rparr>"
  have refused: "\<exists>s1. get_range (whole_requests sample_content) ?config 2 (Some ''zzzz'') 3 (sample_transfer, ()) =
      Some (Inr (Some (SetRangeRequestNotSupported (sample_response 200))), s1, ())"
    by (simp add: whole_requests_def)
  then obtain s1 where s1: "get_range (whole_requests sample_content) ?config 2 (Some ''zzzz'') 3 (sample_transfer, ()) =
      Some (Inr (Some (SetRangeRequestNotSupported (sample_response 200))), s1, ())" by blast
  have response: "RespondedWithRangeRequestNotSupported (SetRangeRequestNotSupported (sample_response 200))"
    "response_status (SetRangeRequestNotSupported (sample_response 200)) \<noteq> 412"
    by (simp_all add: RespondedWithRangeRequestNotSupported_def SetRangeRequestNotSupported_def sample_response_def)
  have lengths: "unat (handle_length sample_handle) = length sample_content" "length sample_content = 10"
    by (simp_all add: sample_handle_def sample_content_def)
  have "\<exists>b s' w'. ReadAtWithFallback (whole_requests sample_content) unary sample_handle ''zzzz'' 3 2 ?config
      (sample_transfer, ()) = Some (Inr b, s', w') \<and>
    b = take (unat (3 :: u64)) (drop (unat (2 :: u64)) sample_content) @ drop (unat (3 :: u64)) ''zzzz'' \<and>
    (\<exists>d. TryGetCachedFileHandle (file_state sample_handle) (http_state s') = Some d \<and> unat (GetSize d) = length sample_content)"
    by (rule fallback_succeeds [OF whole.http_requests_axioms sample_file_ok fresh s1 response(1) _ response(2) full lengths(1)])
      (simp_all add: lengths(2))
  then show ?thesis by (auto simp: sample_content_def)
qed

end
