(* ===== verification/S3_Glob.thy ===== *)
theory S3_Glob
  imports S3_Upload_State S3_Headers
begin

text \<open>
  Listing and glob on S3 (src/src/s3/s3_list.cpp): the matcher of key components, the requests for
  pages of a listing, and \<open>S3GlobResult\<close>, which expands a glob one page at a time and descends
  into common prefixes when the top level holds dense directories.
\<close>

section \<open>Matching of key components\<close>

datatype S3GlobMatchMode = MATCH_PREFIX | MATCH_COMPLETE

text \<open>
  \<open>MatchLoop\<close> is the loop of \<open>Match\<close> after its first test, \<open>StarLoop\<close> the inner loop at a \<open>**\<close>
  that is not the last component; the iterators are the rests of the two lists.
\<close>

function Match :: "duckdb_api \<Rightarrow> S3GlobMatchMode \<Rightarrow> string list \<Rightarrow> string list \<Rightarrow> bool"
  and MatchLoop :: "duckdb_api \<Rightarrow> S3GlobMatchMode \<Rightarrow> string list \<Rightarrow> string list \<Rightarrow> bool"
  and StarLoop :: "duckdb_api \<Rightarrow> S3GlobMatchMode \<Rightarrow> string list \<Rightarrow> string list \<Rightarrow> bool" where
  "Match D mode k pattern = (if k = [] \<and> mode = MATCH_PREFIX then True else MatchLoop D mode k pattern)"
| "MatchLoop D mode k pattern =
     (case (k, pattern) of
        (c # ks, p # ps) \<Rightarrow>
          if p = ''**'' then (if ps = [] then True else StarLoop D mode k ps)
          else if \<not> Glob D c p then False
          else MatchLoop D mode ks ps
      | _ \<Rightarrow>
          if pattern \<noteq> [] \<and> mode = MATCH_PREFIX then True
          else k = [] \<and> pattern = [])"
| "StarLoop D mode k ps =
     (case k of
        [] \<Rightarrow> mode = MATCH_PREFIX
      | c # ks \<Rightarrow> if Match D mode k ps then True else StarLoop D mode ks ps)"
  by pat_completeness auto
termination
  by (relation "inv_image (less_than <*lex*> less_than <*lex*> less_than)
        (\<lambda>x. case x of
           Inl (D, m, k, p) \<Rightarrow> (length p, length k, 2 :: nat)
         | Inr (Inl (D, m, k, p)) \<Rightarrow> (length p, length k, 1)
         | Inr (Inr (D, m, k, p)) \<Rightarrow> (length p, length k, 3))") auto

declare Match.simps [simp del] MatchLoop.simps [simp del] StarLoop.simps [simp del]

section \<open>Requests for a page\<close>

datatype S3ListMode = LIST_FLAT | LIST_HIERARCHICAL

text \<open>\<open>S3ListRequest::Finish\<close>; \<open>trim_slashes\<close> is \<open>RTrim\<close> of slashes.\<close>

definition FinishList ::
  "utf8proc \<Rightarrow> (int \<Rightarrow> string list) \<Rightarrow> (string \<Rightarrow> string) \<Rightarrow> (HTTPResponse \<Rightarrow> string) \<Rightarrow> S3RequestContext \<Rightarrow>
     HTTPResponse \<Rightarrow> S3ListObjectsV2Result res" where
  "FinishList U status_text trim_slashes error_text ctx response =
     (if request_error response \<or> response_status response \<noteq> 200 then
        let display_url = trim_slashes (context_display_url ctx)
        in if request_error response then
             Inl (Exn IOException (''%s error for HTTP GET to '%s'' @ [CHR 0x27]) [error_text response, display_url])
           else Inl (GetError U status_text (context_auth_params ctx) response (context_request_type ctx)
                  ''listing'' display_url)
      else case TryParseListObjectsV2 U (response_body response) of
             None \<Rightarrow> Inl (Exn IOException (''Malformed S3 list response for '' @ quoted) [context_display_url ctx])
           | Some result \<Rightarrow> Inr result)"

definition BuildListParameters ::
  "(nat \<Rightarrow> string) \<Rightarrow> ParsedS3Url \<Rightarrow> string \<Rightarrow> S3ListMode \<Rightarrow> nat option \<Rightarrow> (string \<times> string) list" where
  "BuildListParameters text_of parsed_url continuation_token mode max_keys =
     (if continuation_token \<noteq> [] then [(''continuation-token'', continuation_token)] else []) @
     (if mode = LIST_HIERARCHICAL then [(''delimiter'', ''/'')] else []) @
     [(''encoding-type'', ''url''), (''list-type'', ''2'')] @
     (case max_keys of None \<Rightarrow> [] | Some n \<Rightarrow> [(''max-keys'', text_of n)]) @
     [(''prefix'', url_key parsed_url)]"

definition BuildListQuery ::
  "duckdb_api \<Rightarrow> (nat \<Rightarrow> string) \<Rightarrow> ParsedS3Url \<Rightarrow> string \<Rightarrow> S3ListMode \<Rightarrow> nat option \<Rightarrow> S3RequestQuery" where
  "BuildListQuery D text_of parsed_url continuation_token mode max_keys =
     MakeQuery D (BuildListParameters text_of parsed_url continuation_token mode max_keys)"

text \<open>
  \<open>AWSListObjectV2::Request\<close>: \<open>run_session\<close> is \<open>RunSession\<close> for a GET request to the bucket of a
  path, with the query made from the parsed path; it gives the response and its request context.
\<close>

definition ListRequest ::
  "duckdb_api \<Rightarrow> (nat \<Rightarrow> string) \<Rightarrow> (S3RequestContext \<Rightarrow> HTTPResponse \<Rightarrow> S3ListObjectsV2Result res) \<Rightarrow>
     (string \<Rightarrow> (ParsedS3Url \<Rightarrow> S3RequestQuery) \<Rightarrow> 'w \<Rightarrow> (S3RequestContext \<times> HTTPResponse) res \<times> 'w) \<Rightarrow>
     string \<Rightarrow> string \<Rightarrow> S3ListMode \<Rightarrow> nat option \<Rightarrow> 'w \<Rightarrow> S3ListObjectsV2Result res \<times> 'w" where
  "ListRequest D text_of finish run_session path continuation_token mode max_keys w =
     (case run_session path (\<lambda>parsed_url. BuildListQuery D text_of parsed_url continuation_token mode max_keys) w of
        (Inl e, w') \<Rightarrow> (Inl e, w')
      | (Inr (ctx, response), w') \<Rightarrow> (finish ctx response, w'))"

section \<open>Listed files\<close>

record 'v OpenFileInfo =
  info_path :: string
  info_options :: "string \<rightharpoonup> 'v"

text \<open>The values of DuckDB; a cast that fails gives the message of its exception.\<close>

record 'v value_api =
  text_value :: "string \<Rightarrow> 'v"
  timestamp_value :: "string \<Rightarrow> string + 'v"
  ubigint_value :: "string \<Rightarrow> string + 'v"

definition set_option :: "string \<Rightarrow> string \<Rightarrow> (string \<Rightarrow> string + 'v) \<Rightarrow> 'v OpenFileInfo \<Rightarrow> string + 'v OpenFileInfo" where
  "set_option name text cast info =
     (if text = [] then Inr info
      else map_sum id (\<lambda>v. info\<lparr>info_options := (info_options info)(name \<mapsto> v)\<rparr>) (cast text))"

text \<open>One round of \<open>AppendFileList\<close>; \<open>None\<close> is a key that names a directory.\<close>

definition ListedFile :: "duckdb_api \<Rightarrow> 'v value_api \<Rightarrow> S3ListObjectsV2Object \<Rightarrow> (string + 'v OpenFileInfo) option" where
  "ListedFile D V object =
     (let parsed_path = Decode D (object_key object)
      in if parsed_path \<noteq> [] \<and> last parsed_path = CHR ''/'' then None
         else Some (case set_option ''last_modified'' (object_last_modified object) (timestamp_value V)
                        \<lparr>info_path = parsed_path, info_options = Map.empty\<rparr> of
                      Inl m \<Rightarrow> Inl m
                    | Inr i1 \<Rightarrow>
                        (case set_option ''etag'' (object_etag object) (Inr \<circ> text_value V) i1 of
                           Inl m \<Rightarrow> Inl m
                         | Inr i2 \<Rightarrow> set_option ''file_size'' (object_size object) (ubigint_value V) i2)))"

fun AppendFileList ::
  "duckdb_api \<Rightarrow> 'v value_api \<Rightarrow> S3ListObjectsV2Object list \<Rightarrow> 'v OpenFileInfo list \<Rightarrow> 'v OpenFileInfo list res" where
  "AppendFileList D V [] result = Inr result"
| "AppendFileList D V (object # objects) result =
     (case ListedFile D V object of
        None \<Rightarrow> AppendFileList D V objects result
      | Some (Inl m) \<Rightarrow>
          Inl (Exn IOException (''Malformed S3 list response for key '' @ quoted @ '': %s'') [object_key object, m])
      | Some (Inr info) \<Rightarrow> AppendFileList D V objects (result @ [info]))"

section \<open>The state of a glob\<close>

datatype GlobType = GLOB_HIERARCHICAL | GLOB_LISTING | GLOB_UNKNOWN

record 'v S3GlobResult =
  glob_finished :: bool
  glob_shared_path :: string
  glob_url :: ParsedS3Url
  main_continuation_token :: string
  current_common_prefix :: string
  prefix_continuation_token :: string
  glob_common_prefixes :: "string list"
  glob_type :: GlobType
  expanded_files :: "'v OpenFileInfo list"

text \<open>
  The constructor: \<open>auth\<close> are the parameters read for the pattern. A pattern without a wildcard, or
  any in compatibility mode, is itself the result.
\<close>

definition empty_url :: ParsedS3Url where
  "empty_url = \<lparr>http_proto = [], url_prefix = [], url_host = [], url_bucket = [], url_key = [], url_path = [],
     url_query_param = [], trimmed_s3_url = []\<rparr>"

definition new_glob :: "ParsedS3Url \<Rightarrow> 'v S3GlobResult" where
  "new_glob url =
     \<lparr>glob_finished = False, glob_shared_path = [], glob_url = url, main_continuation_token = [],
      current_common_prefix = [], prefix_continuation_token = [], glob_common_prefixes = [], glob_type = GLOB_UNKNOWN,
      expanded_files = []\<rparr>"

definition whole_pattern :: "string \<Rightarrow> ParsedS3Url \<Rightarrow> 'v S3GlobResult" where
  "whole_pattern glob_pattern url =
     (new_glob url)\<lparr>glob_finished := True, expanded_files := [\<lparr>info_path = glob_pattern, info_options = Map.empty\<rparr>]\<rparr>"

definition CreateGlob :: "duckdb_api \<Rightarrow> S3AuthParams \<Rightarrow> string \<Rightarrow> 'v S3GlobResult res" where
  "CreateGlob D auth glob_pattern =
     (if s3_url_compatibility_mode auth then Inr (whole_pattern glob_pattern empty_url)
      else bind_res (Resolve D glob_pattern auth) (\<lambda>(url, auth').
        case find_first_of (''*['' @ [CHR 0x5C]) (trimmed_s3_url url) of
          None \<Rightarrow> Inr (whole_pattern glob_pattern url)
        | Some first_wildcard_pos \<Rightarrow>
            Inr ((new_glob url)\<lparr>glob_shared_path := take first_wildcard_pos (trimmed_s3_url url)\<rparr>)))"

type_synonym 'w list_request = "string \<Rightarrow> string \<Rightarrow> S3ListMode \<Rightarrow> 'w \<Rightarrow> S3ListObjectsV2Result res \<times> 'w"

definition SelectNextCommonPrefix :: "'v S3GlobResult \<Rightarrow> 'v S3GlobResult" where
  "SelectNextCommonPrefix st =
     (if glob_common_prefixes st = [] then st\<lparr>current_common_prefix := []\<rparr>
      else st\<lparr>current_common_prefix := last (glob_common_prefixes st),
              glob_common_prefixes := butlast (glob_common_prefixes st)\<rparr>)"

definition end_of_prefix :: "'v S3GlobResult \<Rightarrow> 'v S3GlobResult" where
  "end_of_prefix st = (if prefix_continuation_token st = [] then SelectNextCommonPrefix st else st)"

definition ScanCurrentCommonPrefix ::
  "duckdb_api \<Rightarrow> 'v value_api \<Rightarrow> 'w list_request \<Rightarrow> 'v S3GlobResult \<Rightarrow> 'w \<Rightarrow>
     'v OpenFileInfo list res \<times> 'v S3GlobResult \<times> 'w" where
  "ScanCurrentCommonPrefix D V R st w =
     (let url = glob_url st;
          prefix_path = url_prefix url @ url_bucket url @ CHR ''/'' # current_common_prefix st;
          st1 = st\<lparr>current_common_prefix := Decode D (current_common_prefix st)\<rparr>;
          key_splits = Split D (current_common_prefix st1) ''/'';
          pattern_splits = Split D (url_key url) ''/''
      in if Match D MATCH_PREFIX key_splits pattern_splits then
           (case R (Decode D prefix_path) (prefix_continuation_token st1) LIST_HIERARCHICAL w of
              (Inl e, w') \<Rightarrow> (Inl e, st1, w')
            | (Inr response, w') \<Rightarrow>
                (case AppendFileList D V (list_objects response) [] of
                   Inl e \<Rightarrow> (Inl e, st1, w')
                 | Inr s3_keys \<Rightarrow>
                     (Inr s3_keys,
                      end_of_prefix (st1\<lparr>glob_common_prefixes := glob_common_prefixes st1 @ list_common_prefixes response,
                        prefix_continuation_token := list_continuation_token response\<rparr>), w')))
         else (Inr [], end_of_prefix st1, w))"

text \<open>\<open>allow_recursive\<close> is the setting \<open>s3_allow_recursive_globbing\<close>, when there is one.\<close>

definition ShouldInvestigateRecursiveGlob :: "duckdb_api \<Rightarrow> bool option \<Rightarrow> 'v S3GlobResult \<Rightarrow> bool" where
  "ShouldInvestigateRecursiveGlob D allow_recursive st =
     (if glob_type st \<noteq> GLOB_UNKNOWN \<or> Contains D (url_key (glob_url st)) ''**'' then False
      else case allow_recursive of None \<Rightarrow> True | Some b \<Rightarrow> b)"

definition ContainsDenseDirectories :: "duckdb_api \<Rightarrow> 'v OpenFileInfo list \<Rightarrow> bool" where
  "ContainsDenseDirectories D s3_keys =
     (let directory = (\<lambda>s3_key. concat (map (\<lambda>split. split @ ''/'') (butlast (Split D (info_path s3_key) ''/''))))
      in card (set (map directory s3_keys)) * 100 < length s3_keys)"

text \<open>The result replaces the response and the token of the caller.\<close>

definition SelectGlobType ::
  "duckdb_api \<Rightarrow> 'v value_api \<Rightarrow> 'w list_request \<Rightarrow> S3ListObjectsV2Result \<Rightarrow> 'v S3GlobResult \<Rightarrow> 'w \<Rightarrow>
     S3ListObjectsV2Result res \<times> 'v S3GlobResult \<times> 'w" where
  "SelectGlobType D V R response st w =
     (case AppendFileList D V (list_objects response) [] of
        Inl e \<Rightarrow> (Inl e, st, w)
      | Inr s3_keys \<Rightarrow>
          if \<not> ContainsDenseDirectories D s3_keys then (Inr response, st\<lparr>glob_type := GLOB_LISTING\<rparr>, w)
          else
            (case R (glob_shared_path st) (main_continuation_token st) LIST_HIERARCHICAL w of
               (Inl e, w') \<Rightarrow> (Inl e, st, w')
             | (Inr response', w') \<Rightarrow> (Inr response', st\<lparr>glob_type := GLOB_HIERARCHICAL\<rparr>, w')))"

definition ScanTopLevel ::
  "duckdb_api \<Rightarrow> 'v value_api \<Rightarrow> 'w list_request \<Rightarrow> bool option \<Rightarrow> 'v S3GlobResult \<Rightarrow> 'w \<Rightarrow>
     'v OpenFileInfo list res \<times> 'v S3GlobResult \<times> 'w" where
  "ScanTopLevel D V R allow_recursive st w =
     (if glob_common_prefixes st \<noteq> [] then
        (Inl (Exn InternalException ''We have common prefixes but we are doing a top-level request'' []), st, w)
      else
        let list_mode = (if glob_type st = GLOB_HIERARCHICAL then LIST_HIERARCHICAL else LIST_FLAT)
        in case R (glob_shared_path st) (main_continuation_token st) list_mode w of
             (Inl e, w1) \<Rightarrow> (Inl e, st, w1)
           | (Inr response, w1) \<Rightarrow>
               (case (if ShouldInvestigateRecursiveGlob D allow_recursive st \<and> list_continuation_token response \<noteq> []
                      then SelectGlobType D V R response st w1 else (Inr response, st, w1)) of
                  (Inl e, st2, w2) \<Rightarrow> (Inl e, st2, w2)
                | (Inr response', st2, w2) \<Rightarrow>
                    let st3 = st2\<lparr>main_continuation_token := list_continuation_token response'\<rparr>
                    in case AppendFileList D V (list_objects response') [] of
                         Inl e \<Rightarrow> (Inl e, st3, w2)
                       | Inr s3_keys \<Rightarrow>
                           (Inr s3_keys,
                            SelectNextCommonPrefix (st3\<lparr>glob_common_prefixes := list_common_prefixes response'\<rparr>), w2)))"

text \<open>\<open>session_region\<close> is the region of the current snapshot of the session.\<close>

definition AppendMatchingFiles ::
  "duckdb_api \<Rightarrow> 'v value_api \<Rightarrow> string \<Rightarrow> 'v OpenFileInfo list \<Rightarrow> 'v S3GlobResult \<Rightarrow> 'v S3GlobResult" where
  "AppendMatchingFiles D V session_region s3_keys st =
     (let url = glob_url st; pattern_splits = Split D (url_key url) ''/'';
          matching = filter (\<lambda>s3_key. Match D MATCH_COMPLETE (Split D (info_path s3_key) ''/'') pattern_splits) s3_keys
      in st\<lparr>expanded_files := expanded_files st @
           map (\<lambda>s3_key. s3_key\<lparr>
               info_path := url_prefix url @ url_bucket url @ ''/'' @ info_path s3_key @
                 (if url_query_param url \<noteq> [] then ''?'' @ url_query_param url else []),
               info_options := (if session_region \<noteq> [] then (info_options s3_key)(''s3_region'' \<mapsto> text_value V session_region)
                                else info_options s3_key)\<rparr>) matching\<rparr>)"

definition ExpandNextPath ::
  "duckdb_api \<Rightarrow> 'v value_api \<Rightarrow> 'w list_request \<Rightarrow> bool option \<Rightarrow> ('w \<Rightarrow> string) \<Rightarrow> 'v S3GlobResult \<Rightarrow> 'w \<Rightarrow>
     bool res \<times> 'v S3GlobResult \<times> 'w" where
  "ExpandNextPath D V R allow_recursive session_region st w =
     (if glob_finished st then (Inr False, st, w)
      else
        case (if current_common_prefix st \<noteq> [] then ScanCurrentCommonPrefix D V R st w
              else ScanTopLevel D V R allow_recursive st w) of
          (Inl e, st1, w1) \<Rightarrow> (Inl e, st1, w1)
        | (Inr s3_keys, st1, w1) \<Rightarrow>
            let st2 = (if main_continuation_token st1 = [] \<and> current_common_prefix st1 = []
                       then st1\<lparr>glob_finished := True\<rparr> else st1)
            in (Inr True, AppendMatchingFiles D V (session_region w1) s3_keys st2, w1))"

section \<open>Listing a directory\<close>

text \<open>
  \<open>ListFilesExtended\<close>: \<open>files\<close> are the results of the glob for the trimmed directory and \<open>**\<close>;
  the callback receives the names below the directory, and those before an error too.
\<close>

fun StripBasePath :: "duckdb_api \<Rightarrow> string \<Rightarrow> string \<Rightarrow> 'v OpenFileInfo list \<Rightarrow> 'v OpenFileInfo list \<times> bool res" where
  "StripBasePath D directory base_path [] = ([], Inr True)"
| "StripBasePath D directory base_path (file # files) =
     (if \<not> StartsWith D (info_path file) base_path then
        ([], Inl (Exn InvalidInputException
          (''Globbed directory '' @ quoted @ '', but found file '' @ quoted @
           '' that does not start with base path '' @ quoted) [directory, info_path file, base_path]))
      else
        let (called, result) = StripBasePath D directory base_path files
        in (file\<lparr>info_path := drop (length base_path) (info_path file)\<rparr> # called, result))"

definition ListFilesExtended ::
  "duckdb_api \<Rightarrow> (string \<Rightarrow> string) \<Rightarrow> string \<Rightarrow> 'v OpenFileInfo list \<Rightarrow> 'v OpenFileInfo list \<times> bool res" where
  "ListFilesExtended D trim_slashes directory files =
     (if files = [] then ([], Inr False)
      else StripBasePath D directory (trim_slashes directory @ ''/'') files)"

section \<open>What the matcher selects\<close>

text \<open>
  A pattern of components: \<open>**\<close> stands for any number of components, at the end for at least one,
  and any other component for one component that the glob of DuckDB accepts.
\<close>

definition component_fits :: "duckdb_api \<Rightarrow> string \<Rightarrow> string list \<Rightarrow> bool" where
  "component_fits D p seg \<longleftrightarrow> p = ''**'' \<or> (\<exists>c. seg = [c] \<and> Glob D c p)"

definition selects :: "duckdb_api \<Rightarrow> string list \<Rightarrow> string list \<Rightarrow> bool" where
  "selects D pattern k \<longleftrightarrow>
     (\<exists>segs. concat segs = k \<and> list_all2 (component_fits D) pattern segs \<and>
        (pattern \<noteq> [] \<and> last pattern = ''**'' \<longrightarrow> last segs \<noteq> []))"

lemma MatchLoop_Nil: "MatchLoop D mode [] pattern \<longleftrightarrow> mode = MATCH_PREFIX \<or> pattern = []"
  by (cases pattern) (simp_all add: MatchLoop.simps)

lemma MatchLoop_end: "MatchLoop D mode k [] \<longleftrightarrow> k = []"
  by (cases k) (simp_all add: MatchLoop.simps)

lemma MatchLoop_Cons:
  "MatchLoop D mode (c # ks) (p # ps) \<longleftrightarrow>
     (if p = ''**'' then ps = [] \<or> StarLoop D mode (c # ks) ps else Glob D c p \<and> MatchLoop D mode ks ps)"
  by (simp add: MatchLoop.simps)

lemma Match_eq: "Match D mode k pattern \<longleftrightarrow> k = [] \<and> mode = MATCH_PREFIX \<or> MatchLoop D mode k pattern"
  by (auto simp: Match.simps)

lemmas match_simps = MatchLoop_Nil MatchLoop_end MatchLoop_Cons Match_eq

lemma selects_Nil [simp]: "selects D [] k \<longleftrightarrow> k = []"
  by (auto simp: selects_def)

lemma selects_single: "p \<noteq> ''**'' \<Longrightarrow> selects D (p # ps) k \<longleftrightarrow> (\<exists>c ks. k = c # ks \<and> Glob D c p \<and> selects D ps ks)"
proof
  assume p: "p \<noteq> ''**''" and "selects D (p # ps) k"
  then obtain seg segs where "concat (seg # segs) = k" "component_fits D p seg" "list_all2 (component_fits D) ps segs"
    "last (p # ps) = ''**'' \<longrightarrow> last (seg # segs) \<noteq> []"
    by (auto simp: selects_def list_all2_Cons1)
  with p show "\<exists>c ks. k = c # ks \<and> Glob D c p \<and> selects D ps ks"
    by (auto simp: component_fits_def selects_def split: if_splits)
next
  assume "\<exists>c ks. k = c # ks \<and> Glob D c p \<and> selects D ps ks" and p: "p \<noteq> ''**''"
  then obtain c ks segs where "k = c # ks" "Glob D c p" "concat segs = ks" "list_all2 (component_fits D) ps segs"
    "ps \<noteq> [] \<and> last ps = ''**'' \<longrightarrow> last segs \<noteq> []"
    by (auto simp: selects_def)
  with p show "selects D (p # ps) k"
    unfolding selects_def by (intro exI [of _ "[c] # segs"]) (auto simp: component_fits_def)
qed

lemma selects_star_end: "selects D [''**''] k \<longleftrightarrow> k \<noteq> []"
  unfolding selects_def
  by (auto simp: list_all2_Cons1 component_fits_def intro: exI [of _ "[k]"])

lemma selects_star: "ps \<noteq> [] \<Longrightarrow> selects D (''**'' # ps) k \<longleftrightarrow> (\<exists>i \<le> length k. selects D ps (drop i k))"
proof
  assume ps: "ps \<noteq> []" and "selects D (''**'' # ps) k"
  then obtain seg segs where "concat (seg # segs) = k" "list_all2 (component_fits D) ps segs"
    "last ps = ''**'' \<longrightarrow> last (seg # segs) \<noteq> []"
    by (auto simp: selects_def list_all2_Cons1)
  moreover from this(2) ps have "segs \<noteq> []" by auto
  ultimately have "selects D ps (drop (length seg) k) \<and> length seg \<le> length k"
    using ps unfolding selects_def by (auto intro!: exI [of _ segs])
  then show "\<exists>i \<le> length k. selects D ps (drop i k)" by blast
next
  assume ps: "ps \<noteq> []" and "\<exists>i \<le> length k. selects D ps (drop i k)"
  then obtain i segs where "concat segs = drop i k" "list_all2 (component_fits D) ps segs" "last ps = ''**'' \<longrightarrow> last segs \<noteq> []"
    by (auto simp: selects_def)
  then show "selects D (''**'' # ps) k"
    unfolding selects_def using ps
    by (intro exI [of _ "take i k # segs"]) (auto simp: component_fits_def)
qed

lemma selects_empty: "selects D ps [] \<longleftrightarrow> ps = []"
proof (induction ps)
  case (Cons p ps)
  then show ?case
    by (cases "p = ''**''"; cases "ps = []") (auto simp: selects_single selects_star selects_star_end)
qed simp

lemma StarLoop_selects:
  assumes "\<And>i. i < length k \<Longrightarrow> Match D MATCH_COMPLETE (drop i k) ps \<longleftrightarrow> selects D ps (drop i k)" "ps \<noteq> []"
  shows "StarLoop D MATCH_COMPLETE k ps \<longleftrightarrow> (\<exists>i \<le> length k. selects D ps (drop i k))"
  using assms(1)
proof (induction k)
  case Nil
  then show ?case using assms(2) by (simp add: StarLoop.simps selects_empty)
next
  case (Cons c k)
  have "StarLoop D MATCH_COMPLETE k ps \<longleftrightarrow> (\<exists>i \<le> length k. selects D ps (drop i k))"
    using Cons.prems [of "Suc i" for i] by (intro Cons.IH) simp
  moreover have "Match D MATCH_COMPLETE (c # k) ps \<longleftrightarrow> selects D ps (c # k)" using Cons.prems [of 0] by simp
  moreover have "(\<exists>i \<le> length (c # k). selects D ps (drop i (c # k))) \<longleftrightarrow>
      selects D ps (c # k) \<or> (\<exists>i \<le> length k. selects D ps (drop i k))"
    by (metis drop0 drop_Suc_Cons le0 length_Cons not0_implies_Suc Suc_le_mono)
  ultimately show ?case by (subst StarLoop.simps) simp
qed

lemma Match_complete: "Match D MATCH_COMPLETE k pattern \<longleftrightarrow> selects D pattern k"
proof (induction pattern arbitrary: k)
  case Nil
  show ?case by (simp add: match_simps)
next
  case (Cons p ps)
  show ?case
  proof (cases k)
    case Nil
    then show ?thesis by (simp add: match_simps selects_empty)
  next
    case k: (Cons c ks)
    show ?thesis
    proof (cases "p = ''**''")
      case True
      have "StarLoop D MATCH_COMPLETE k ps \<longleftrightarrow> (\<exists>i \<le> length k. selects D ps (drop i k))" if "ps \<noteq> []"
        using Cons.IH that by (intro StarLoop_selects) simp_all
      then show ?thesis using True k
        by (cases "ps = []") (simp_all add: match_simps selects_star selects_star_end)
    next
      case False
      have "MatchLoop D MATCH_COMPLETE ks ps \<longleftrightarrow> selects D ps ks"
        using Cons.IH [of ks] by (simp add: Match_eq)
      with False k show ?thesis by (simp add: match_simps selects_single)
    qed
  qed
qed

lemma StarLoop_prefix: "StarLoop D MATCH_PREFIX k ps"
  by (induction k) (simp_all add: StarLoop.simps)

lemma Match_prefix: "selects D pattern (k @ rest) \<Longrightarrow> Match D MATCH_PREFIX k pattern"
proof (induction k arbitrary: pattern)
  case Nil
  show ?case by (simp add: Match_eq)
next
  case (Cons c k)
  obtain p ps where pattern: "pattern = p # ps" using Cons.prems by (cases pattern) auto
  show ?case
  proof (cases "p = ''**''")
    case True
    then show ?thesis by (simp add: pattern match_simps StarLoop_prefix)
  next
    case False
    then have "Glob D c p" "selects D ps (k @ rest)"
      using Cons.prems by (auto simp: pattern selects_single)
    moreover from this(2) have "Match D MATCH_PREFIX k ps" by (rule Cons.IH)
    ultimately show ?thesis
      using False by (cases k) (simp_all add: pattern match_simps)
  qed
qed

text \<open>
  C34: The matcher accepts exactly the keys that its pattern describes: one component of the key for
  every component of the pattern, any number for \<open>**\<close>, and at least one for a \<open>**\<close> at the end. A
  directory that it rejects in the prefix mode holds no key that the pattern accepts, so that
  leaving it out loses no file.
\<close>

theorem Match_selects:
  "(Match D MATCH_COMPLETE k pattern = selects D pattern k) \<and>
   ((\<exists>rest. Match D MATCH_COMPLETE (k @ rest) pattern) \<and> \<not> Match D MATCH_PREFIX k pattern) = False"
  using Match_prefix by (auto simp: Match_complete)

end
