(* ===== verification/S3_Glob_Complete.thy ===== *)
theory S3_Glob_Complete
  imports S3_Glob "HOL-Library.Multiset"
begin

text \<open>
  What a glob finds: the contract of a server that lists the keys of a bucket in pages, the
  invariant of \<open>S3GlobResult\<close> over its calls of \<open>ExpandNextPath\<close>, and the result when it is finished.
\<close>

section \<open>Keys, directories and pages\<close>

definition under :: "string list \<Rightarrow> string \<Rightarrow> string multiset" where
  "under K q = filter_mset (starts_with q) (mset K)"

definition direct :: "string list \<Rightarrow> string \<Rightarrow> string multiset" where
  "direct K p = filter_mset (\<lambda>k. starts_with p k \<and> CHR ''/'' \<notin> set (drop (length p) k)) (mset K)"

definition subdirs :: "string list \<Rightarrow> string \<Rightarrow> string set" where
  "subdirs K p = {p @ s @ ''/'' |s. CHR ''/'' \<notin> set s \<and> (\<exists>k \<in> set K. starts_with (p @ s @ ''/'') k)}"

lemma starts_with_subdir:
  assumes "CHR ''/'' \<notin> set s"
  shows "starts_with (p @ s @ ''/'') k \<longleftrightarrow>
    starts_with p k \<and> CHR ''/'' \<in> set (drop (length p) k) \<and> s = takeWhile (\<lambda>c. c \<noteq> CHR ''/'') (drop (length p) k)"
proof
  assume "starts_with (p @ s @ ''/'') k"
  then obtain r where "k = (p @ s @ ''/'') @ r" by (auto simp: starts_with_ex)
  then show "starts_with p k \<and> CHR ''/'' \<in> set (drop (length p) k) \<and>
      s = takeWhile (\<lambda>c. c \<noteq> CHR ''/'') (drop (length p) k)"
    using assms by (auto simp: takeWhile_append)
next
  assume a: "starts_with p k \<and> CHR ''/'' \<in> set (drop (length p) k) \<and>
      s = takeWhile (\<lambda>c. c \<noteq> CHR ''/'') (drop (length p) k)"
  then obtain r where k: "k = p @ r" by (auto simp: starts_with_ex)
  with a have r: "CHR ''/'' \<in> set r" "s = takeWhile (\<lambda>c. c \<noteq> CHR ''/'') r" by auto
  from r(1) have "dropWhile (\<lambda>c. c \<noteq> CHR ''/'') r \<noteq> []" by (auto simp: dropWhile_eq_Nil_conv)
  then obtain c t where d: "dropWhile (\<lambda>c. c \<noteq> CHR ''/'') r = c # t" by (cases "dropWhile (\<lambda>c. c \<noteq> CHR ''/'') r") auto
  then have "c = CHR ''/''" using hd_dropWhile [of "\<lambda>c. c \<noteq> CHR ''/''" r] by simp
  with d have "k = (p @ s @ ''/'') @ t"
    unfolding k r(2) using takeWhile_dropWhile_id [of "\<lambda>c. c \<noteq> CHR ''/''" r] by simp
  then show "starts_with (p @ s @ ''/'') k" by (metis starts_with_append)
qed

lemma filter_mset_or: "(\<And>k. \<not> (P k \<and> Q k)) \<Longrightarrow> filter_mset (\<lambda>k. P k \<or> Q k) M = filter_mset P M + filter_mset Q M"
  by (induction M) auto

lemma filter_mset_disjoint:
  assumes "distinct qs" "\<And>q q' k. q \<in> set qs \<Longrightarrow> q' \<in> set qs \<Longrightarrow> P q k \<Longrightarrow> P q' k \<Longrightarrow> q = q'"
  shows "(\<Sum>q\<leftarrow>qs. filter_mset (P q) M) = filter_mset (\<lambda>k. \<exists>q \<in> set qs. P q k) M"
  using assms
proof (induction qs)
  case (Cons q qs)
  have "\<not> (P q k \<and> (\<exists>q' \<in> set qs. P q' k))" for k
    using Cons.prems(1) Cons.prems(2) [of q _ k] by auto
  from filter_mset_or [of "P q" "\<lambda>k. \<exists>q' \<in> set qs. P q' k", OF this]
  have "filter_mset (\<lambda>k. \<exists>q' \<in> set (q # qs). P q' k) M =
      filter_mset (P q) M + filter_mset (\<lambda>k. \<exists>q' \<in> set qs. P q' k) M" by simp
  moreover have "(\<Sum>q\<leftarrow>qs. filter_mset (P q) M) = filter_mset (\<lambda>k. \<exists>q \<in> set qs. P q k) M"
    using Cons.prems by (intro Cons.IH) auto
  ultimately show ?case by simp
qed simp

text \<open>The keys below a directory are those in it and those below its subdirectories.\<close>

lemma under_split:
  assumes "distinct qs" "set qs = subdirs K p"
  shows "under K p = direct K p + (\<Sum>q\<leftarrow>qs. under K q)"
proof -
  have unique: "q = q'" if "q \<in> set qs" "q' \<in> set qs" "starts_with q k" "starts_with q' k" for q q' k
    using that by (auto simp: assms(2) subdirs_def starts_with_subdir simp del: append_assoc)
  have "(\<Sum>q\<leftarrow>qs. under K q) = filter_mset (\<lambda>k. \<exists>q \<in> set qs. starts_with q k) (mset K)"
    unfolding under_def using assms(1) unique by (rule filter_mset_disjoint)
  also have "\<dots> = filter_mset (\<lambda>k. starts_with p k \<and> CHR ''/'' \<in> set (drop (length p) k)) (mset K)"
  proof (rule filter_mset_cong [OF refl])
    fix k assume k: "k \<in># mset K"
    show "(\<exists>q \<in> set qs. starts_with q k) \<longleftrightarrow> starts_with p k \<and> CHR ''/'' \<in> set (drop (length p) k)"
    proof
      assume "\<exists>q \<in> set qs. starts_with q k"
      then show "starts_with p k \<and> CHR ''/'' \<in> set (drop (length p) k)"
        by (auto simp: assms(2) subdirs_def starts_with_subdir)
    next
      let ?s = "takeWhile (\<lambda>c. c \<noteq> CHR ''/'') (drop (length p) k)"
      assume a: "starts_with p k \<and> CHR ''/'' \<in> set (drop (length p) k)"
      have s: "CHR ''/'' \<notin> set ?s" using set_takeWhileD by fastforce
      with a have "starts_with (p @ ?s @ ''/'') k" by (simp add: starts_with_subdir)
      with s k show "\<exists>q \<in> set qs. starts_with q k" unfolding assms(2) subdirs_def by fastforce
    qed
  qed
  finally have sub: "(\<Sum>q\<leftarrow>qs. under K q) =
      filter_mset (\<lambda>k. starts_with p k \<and> CHR ''/'' \<in> set (drop (length p) k)) (mset K)" .
  have "starts_with p = (\<lambda>k. starts_with p k \<and> CHR ''/'' \<notin> set (drop (length p) k) \<or>
      starts_with p k \<and> CHR ''/'' \<in> set (drop (length p) k))" by auto
  then have "under K p = filter_mset (\<lambda>k. starts_with p k \<and> CHR ''/'' \<notin> set (drop (length p) k) \<or>
      starts_with p k \<and> CHR ''/'' \<in> set (drop (length p) k)) (mset K)" by (simp add: under_def)
  also have "\<dots> = direct K p + (\<Sum>q\<leftarrow>qs. under K q)" unfolding sub direct_def by (rule filter_mset_or) simp
  finally show ?thesis .
qed

text \<open>
  A request is for the URL of a directory or prefix, which is parsed again: a question mark would cut it, and a slash
  at the start is lost to the splitting of names.
\<close>

definition listable :: "string \<Rightarrow> string \<Rightarrow> bool" where
  "listable base p \<longleftrightarrow> CHR ''?'' \<notin> set (base @ p) \<and> (p = [] \<or> hd p \<noteq> CHR ''/'')"

text \<open>
  A server that lists the keys \<open>K\<close>: \<open>later p mode token\<close> are the keys and the subdirectories of the
  directory or prefix \<open>p\<close> that come from the page of a token on. The names it sends are encoded.
  A directory name is stable when decoding it again changes nothing and it can be listed.
\<close>

definition stable_name :: "duckdb_api \<Rightarrow> string \<Rightarrow> string \<Rightarrow> bool" where
  "stable_name D base q \<longleftrightarrow>
     q \<noteq> [] \<and> Decode D q \<noteq> [] \<and> last (Decode D q) = CHR ''/'' \<and> Decode D (Decode D q) = Decode D q \<and> Decode D (base @ q) = base @ Decode D q \<and>
     Decode D (base @ Decode D q) = base @ Decode D q \<and> listable base (Decode D q)"

type_synonym pages = "string \<Rightarrow> S3ListMode \<Rightarrow> string \<Rightarrow> string list \<times> string list"

definition serves_listing ::
  "duckdb_api \<Rightarrow> 'w list_request \<Rightarrow> string \<Rightarrow> string list \<Rightarrow> pages \<Rightarrow> bool" where
  "serves_listing D R base K later \<longleftrightarrow>
     (\<forall>p. listable base p \<longrightarrow>
        mset (fst (later p LIST_FLAT [])) = under K p \<and> snd (later p LIST_FLAT []) = [] \<and>
        mset (fst (later p LIST_HIERARCHICAL [])) = direct K p \<and>
        distinct (snd (later p LIST_HIERARCHICAL [])) \<and> set (snd (later p LIST_HIERARCHICAL [])) = subdirs K p) \<and>
     (\<forall>p mode token w response w'. listable base p \<and> R (base @ p) token mode w = (Inr response, w') \<longrightarrow>
        (let next_pages = (if list_continuation_token response = [] then ([], []) else later p mode (list_continuation_token response))
         in fst (later p mode token) = map (Decode D \<circ> object_key) (list_objects response) @ fst next_pages \<and>
            snd (later p mode token) = map (Decode D) (list_common_prefixes response) @ snd next_pages \<and>
            (\<forall>q \<in> set (list_common_prefixes response). stable_name D base q)))"

text \<open>\<open>StringUtil::Split\<close> splits a path after a directory into the components of the directory and further ones.\<close>

definition splits_paths :: "duckdb_api \<Rightarrow> bool" where
  "splits_paths D \<longleftrightarrow>
     (\<forall>q r. q \<noteq> [] \<and> hd q \<noteq> CHR ''/'' \<and> last q = CHR ''/'' \<longrightarrow> (\<exists>rest. Split D (q @ r) ''/'' = Split D q ''/'' @ rest))"

text \<open>The calls of \<open>ExpandNextPath\<close> that returned.\<close>

inductive expands ::
  "('v S3GlobResult \<Rightarrow> 'w \<Rightarrow> bool res \<times> 'v S3GlobResult \<times> 'w) \<Rightarrow> 'v S3GlobResult \<Rightarrow> 'w \<Rightarrow> 'v S3GlobResult \<Rightarrow> 'w \<Rightarrow> bool"
  for expand where
  expands_start: "expands expand st w st w"
| expands_next: "expands expand st w st1 w1 \<Longrightarrow> expand st1 w1 = (Inr again, st2, w2) \<Longrightarrow> expands expand st w st2 w2"

section \<open>The invariant of a glob\<close>

definition full_path :: "ParsedS3Url \<Rightarrow> string \<Rightarrow> string" where
  "full_path url k =
     url_prefix url @ url_bucket url @ ''/'' @ k @ (if url_query_param url \<noteq> [] then ''?'' @ url_query_param url else [])"

definition file_selected :: "duckdb_api \<Rightarrow> ParsedS3Url \<Rightarrow> string \<Rightarrow> bool" where
  "file_selected D url k \<longleftrightarrow>
     \<not> (k \<noteq> [] \<and> last k = CHR ''/'') \<and> selects D (Split D (url_key url) ''/'') (Split D k ''/'')"

definition found_files :: "duckdb_api \<Rightarrow> ParsedS3Url \<Rightarrow> string multiset \<Rightarrow> string multiset" where
  "found_files D url M = image_mset (full_path url) (filter_mset (file_selected D url) M)"

definition page_keys :: "string list \<Rightarrow> string list \<times> string list \<Rightarrow> string multiset" where
  "page_keys K page = mset (fst page) + (\<Sum>q\<leftarrow>snd page. under K q)"

definition list_mode :: "'v S3GlobResult \<Rightarrow> S3ListMode" where
  "list_mode st = (if glob_type st = GLOB_HIERARCHICAL then LIST_HIERARCHICAL else LIST_FLAT)"

definition pending :: "duckdb_api \<Rightarrow> string list \<Rightarrow> pages \<Rightarrow> string \<Rightarrow> 'v S3GlobResult \<Rightarrow> string multiset" where
  "pending D K later p0 st =
     (if glob_finished st \<or> main_continuation_token st = [] \<and> current_common_prefix st \<noteq> [] then {#}
      else page_keys K (later p0 (list_mode st) (main_continuation_token st))) +
     (if current_common_prefix st = [] then {#}
      else page_keys K (later (Decode D (current_common_prefix st)) LIST_HIERARCHICAL (prefix_continuation_token st))) +
     (\<Sum>q\<leftarrow>glob_common_prefixes st. under K (Decode D q))"

definition glob_inv ::
  "duckdb_api \<Rightarrow> bool option \<Rightarrow> string list \<Rightarrow> pages \<Rightarrow> ParsedS3Url \<Rightarrow> string \<Rightarrow> 'v S3GlobResult \<Rightarrow> bool" where
  "glob_inv D allow_recursive K later url p0 st \<longleftrightarrow>
     (let base = url_prefix url @ url_bucket url @ ''/''
      in glob_url st = url \<and> glob_shared_path st = base @ p0 \<and>
         mset (map info_path (expanded_files st)) + found_files D url (pending D K later p0 st) =
           found_files D url (under K p0) \<and>
         (current_common_prefix st = [] \<longrightarrow> glob_common_prefixes st = [] \<and> prefix_continuation_token st = []) \<and>
         (current_common_prefix st \<noteq> [] \<longrightarrow> stable_name D base (current_common_prefix st)) \<and>
         (\<forall>q \<in> set (glob_common_prefixes st). stable_name D base q) \<and> listable base p0 \<and>
         (glob_finished st \<longrightarrow> current_common_prefix st = []) \<and>
         (ShouldInvestigateRecursiveGlob D allow_recursive st \<longrightarrow> main_continuation_token st = []))"

lemma found_files_add: "found_files D url (M + N) = found_files D url M + found_files D url N"
  by (simp add: found_files_def)

lemma AppendFileList_paths:
  "AppendFileList D V objects result = Inr keys \<Longrightarrow>
    map info_path keys = map info_path result @
      filter (\<lambda>k. \<not> (k \<noteq> [] \<and> last k = CHR ''/'')) (map (Decode D \<circ> object_key) objects)"
proof (induction D V objects result rule: AppendFileList.induct)
  case (2 D V object objects result)
  have path: "info_path info = Decode D (object_key object)" if "ListedFile D V object = Some (Inr info)" for info
    using that by (auto simp: ListedFile_def Let_def set_option_def map_sum_def split: if_splits sum.splits)
  have kept: "ListedFile D V object = None \<longleftrightarrow> Decode D (object_key object) \<noteq> [] \<and> last (Decode D (object_key object)) = CHR ''/''"
    by (simp add: ListedFile_def Let_def)
  show ?case using 2 path kept by (auto split: option.splits sum.splits)
qed simp

lemma AppendMatchingFiles_paths:
  assumes "map info_path keys = filter (\<lambda>k. \<not> (k \<noteq> [] \<and> last k = CHR ''/'')) decoded"
  shows "mset (map info_path (expanded_files (AppendMatchingFiles D V r keys st))) =
    mset (map info_path (expanded_files st)) + found_files D (glob_url st) (mset decoded)"
proof -
  let ?match = "\<lambda>k. Match D MATCH_COMPLETE (Split D k ''/'') (Split D (url_key (glob_url st)) ''/'')"
  let ?new = "map (full_path (glob_url st)) (map info_path (filter (\<lambda>x. ?match (info_path x)) keys))"
  have "map info_path (filter (\<lambda>x. ?match (info_path x)) keys) = filter ?match (map info_path keys)"
    by (simp add: filter_map comp_def)
  also have "\<dots> = filter (file_selected D (glob_url st)) decoded"
    unfolding assms by (auto simp: file_selected_def Match_complete intro: filter_cong)
  finally have "?new = map (full_path (glob_url st)) (filter (file_selected D (glob_url st)) decoded)" by simp
  moreover have "map info_path (expanded_files (AppendMatchingFiles D V r keys st)) = map info_path (expanded_files st) @ ?new"
    by (simp add: AppendMatchingFiles_def Let_def full_path_def comp_def)
  ultimately show ?thesis by (simp add: found_files_def)
qed

lemma AppendMatchingFiles_fields [simp]:
  "glob_finished (AppendMatchingFiles D V r keys st) = glob_finished st"
  "glob_shared_path (AppendMatchingFiles D V r keys st) = glob_shared_path st"
  "glob_url (AppendMatchingFiles D V r keys st) = glob_url st"
  "main_continuation_token (AppendMatchingFiles D V r keys st) = main_continuation_token st"
  "current_common_prefix (AppendMatchingFiles D V r keys st) = current_common_prefix st"
  "prefix_continuation_token (AppendMatchingFiles D V r keys st) = prefix_continuation_token st"
  "glob_common_prefixes (AppendMatchingFiles D V r keys st) = glob_common_prefixes st"
  "glob_type (AppendMatchingFiles D V r keys st) = glob_type st"
  by (simp_all add: AppendMatchingFiles_def Let_def)

lemma pending_AppendMatchingFiles [simp]: "pending D K later p0 (AppendMatchingFiles E V r keys st) = pending D K later p0 st"
  by (simp add: pending_def list_mode_def)

lemma stable_name_Decode: "stable_name D base q \<Longrightarrow> stable_name D base (Decode D q)"
  by (simp add: stable_name_def)

lemma serves_whole:
  assumes "serves_listing D R base K later" "listable base p"
  shows "page_keys K (later p mode []) = under K p"
proof (cases mode)
  case LIST_FLAT
  then show ?thesis using assms by (simp add: serves_listing_def page_keys_def)
next
  case LIST_HIERARCHICAL
  have "under K p = direct K p + (\<Sum>q\<leftarrow>snd (later p LIST_HIERARCHICAL []). under K q)"
    using assms by (intro under_split) (simp_all add: serves_listing_def)
  then show ?thesis using assms LIST_HIERARCHICAL by (simp add: serves_listing_def page_keys_def)
qed

lemma serves_page:
  assumes "serves_listing D R base K later" "listable base p" "R (base @ p) token mode w = (Inr response, w')"
  shows "page_keys K (later p mode token) =
      mset (map (Decode D \<circ> object_key) (list_objects response)) +
      (\<Sum>q\<leftarrow>list_common_prefixes response. under K (Decode D q)) +
      (if list_continuation_token response = [] then {#} else page_keys K (later p mode (list_continuation_token response)))"
    "\<forall>q \<in> set (list_common_prefixes response). stable_name D base q"
proof -
  let ?next = "list_continuation_token response"
  have c: "let next_pages = (if ?next = [] then ([], []) else later p mode ?next)
      in fst (later p mode token) = map (Decode D \<circ> object_key) (list_objects response) @ fst next_pages \<and>
         snd (later p mode token) = map (Decode D) (list_common_prefixes response) @ snd next_pages \<and>
         (\<forall>q \<in> set (list_common_prefixes response). stable_name D base q)"
    using assms unfolding serves_listing_def by blast
  then show "\<forall>q \<in> set (list_common_prefixes response). stable_name D base q" unfolding Let_def by blast
  show "page_keys K (later p mode token) =
      mset (map (Decode D \<circ> object_key) (list_objects response)) +
      (\<Sum>q\<leftarrow>list_common_prefixes response. under K (Decode D q)) +
      (if ?next = [] then {#} else page_keys K (later p mode ?next))"
    using c by (simp add: page_keys_def Let_def comp_def)
qed

lemma pending_SelectNext:
  assumes "serves_listing D R base K later" "\<forall>q \<in> set (glob_common_prefixes st). stable_name D base q" "prefix_continuation_token st = []"
  shows "(let st' = SelectNextCommonPrefix st
     in (if current_common_prefix st' = [] then {#}
         else page_keys K (later (Decode D (current_common_prefix st')) LIST_HIERARCHICAL (prefix_continuation_token st'))) +
        (\<Sum>q\<leftarrow>glob_common_prefixes st'. under K (Decode D q))) =
     (\<Sum>q\<leftarrow>glob_common_prefixes st. under K (Decode D q))"
proof (cases "glob_common_prefixes st" rule: rev_cases)
  case Nil
  then show ?thesis by (simp add: SelectNextCommonPrefix_def)
next
  case (snoc qs q)
  then have "q \<noteq> []" "listable base (Decode D q)" using assms(2) by (simp_all add: stable_name_def)
  with snoc assms(3) show ?thesis by (simp add: SelectNextCommonPrefix_def serves_whole [OF assms(1)] ac_simps)
qed

lemma SelectNext_fields [simp]:
  "glob_finished (SelectNextCommonPrefix st) = glob_finished st"
  "glob_shared_path (SelectNextCommonPrefix st) = glob_shared_path st"
  "glob_url (SelectNextCommonPrefix st) = glob_url st"
  "main_continuation_token (SelectNextCommonPrefix st) = main_continuation_token st"
  "prefix_continuation_token (SelectNextCommonPrefix st) = prefix_continuation_token st"
  "glob_type (SelectNextCommonPrefix st) = glob_type st"
  "expanded_files (SelectNextCommonPrefix st) = expanded_files st"
  by (simp_all add: SelectNextCommonPrefix_def)

lemma SelectNext_names:
  assumes "\<forall>q \<in> set (glob_common_prefixes st). stable_name D base q"
  shows "current_common_prefix (SelectNextCommonPrefix st) = [] \<Longrightarrow> glob_common_prefixes (SelectNextCommonPrefix st) = []"
    "current_common_prefix (SelectNextCommonPrefix st) \<noteq> [] \<Longrightarrow>
      stable_name D base (current_common_prefix (SelectNextCommonPrefix st))"
    "\<forall>q \<in> set (glob_common_prefixes (SelectNextCommonPrefix st)). stable_name D base q"
  using assms
  by (cases "glob_common_prefixes st" rule: rev_cases; auto simp: SelectNextCommonPrefix_def stable_name_def)+

section \<open>One call\<close>

definition mark_finished :: "'v S3GlobResult \<Rightarrow> 'v S3GlobResult" where
  "mark_finished st =
     (if main_continuation_token st = [] \<and> current_common_prefix st = [] then st\<lparr>glob_finished := True\<rparr> else st)"

lemma mark_finished_fields [simp]:
  "glob_shared_path (mark_finished st) = glob_shared_path st"
  "glob_url (mark_finished st) = glob_url st"
  "main_continuation_token (mark_finished st) = main_continuation_token st"
  "current_common_prefix (mark_finished st) = current_common_prefix st"
  "prefix_continuation_token (mark_finished st) = prefix_continuation_token st"
  "glob_common_prefixes (mark_finished st) = glob_common_prefixes st"
  "glob_type (mark_finished st) = glob_type st"
  "expanded_files (mark_finished st) = expanded_files st"
  by (simp_all add: mark_finished_def)

lemma pending_finished:
  "\<not> glob_finished st \<Longrightarrow> pending D K later p0 (mark_finished st) =
     (if main_continuation_token st = [] then {#} else page_keys K (later p0 (list_mode st) (main_continuation_token st))) +
     (if current_common_prefix st = [] then {#}
      else page_keys K (later (Decode D (current_common_prefix st)) LIST_HIERARCHICAL (prefix_continuation_token st))) +
     (\<Sum>q\<leftarrow>glob_common_prefixes st. under K (Decode D q))"
  by (auto simp: pending_def mark_finished_def list_mode_def)

text \<open>The prefixes that wait after a page of a prefix or of the top level.\<close>

definition waiting :: "duckdb_api \<Rightarrow> string list \<Rightarrow> pages \<Rightarrow> 'v S3GlobResult \<Rightarrow> string multiset" where
  "waiting D K later st =
     (if current_common_prefix st = [] then {#}
      else page_keys K (later (Decode D (current_common_prefix st)) LIST_HIERARCHICAL (prefix_continuation_token st))) +
     (\<Sum>q\<leftarrow>glob_common_prefixes st. under K (Decode D q))"

lemma waiting_SelectNext:
  assumes "serves_listing D R base K later" "\<forall>q \<in> set (glob_common_prefixes st). stable_name D base q"
    "prefix_continuation_token st = []"
  shows "waiting D K later (SelectNextCommonPrefix st) = (\<Sum>q\<leftarrow>glob_common_prefixes st. under K (Decode D q))"
  using pending_SelectNext [OF assms] unfolding waiting_def Let_def by blast

lemma glob_inv_step:
  assumes "glob_inv D allow K later url p0 st" "\<not> glob_finished st1"
    and "map info_path keys = filter (\<lambda>k. \<not> (k \<noteq> [] \<and> last k = CHR ''/'')) decoded"
    and "found_files D url (pending D K later p0 st) = found_files D url (mset decoded) +
      found_files D url ((if main_continuation_token st1 = [] then {#}
         else page_keys K (later p0 (list_mode st1) (main_continuation_token st1))) + waiting D K later st1)"
    and "expanded_files st1 = expanded_files st" "glob_url st1 = url" "glob_shared_path st1 = glob_shared_path st"
    and "current_common_prefix st1 = [] \<Longrightarrow> glob_common_prefixes st1 = [] \<and> prefix_continuation_token st1 = []"
    and "current_common_prefix st1 \<noteq> [] \<Longrightarrow> stable_name D (url_prefix url @ url_bucket url @ ''/'') (current_common_prefix st1)"
    and "\<forall>q \<in> set (glob_common_prefixes st1). stable_name D (url_prefix url @ url_bucket url @ ''/'') q"
    and "ShouldInvestigateRecursiveGlob D allow st1 \<Longrightarrow> main_continuation_token st1 = []"
  shows "glob_inv D allow K later url p0 (AppendMatchingFiles D V r keys (mark_finished st1))"
proof -
  have "pending D K later p0 (mark_finished st1) =
      (if main_continuation_token st1 = [] then {#}
         else page_keys K (later p0 (list_mode st1) (main_continuation_token st1))) + waiting D K later st1"
    unfolding pending_finished [OF assms(2)] waiting_def by (simp add: ac_simps)
  then have "mset (map info_path (expanded_files (AppendMatchingFiles D V r keys (mark_finished st1)))) +
      found_files D url (pending D K later p0 (mark_finished st1)) = found_files D url (under K p0)"
    using assms(1,4-6) AppendMatchingFiles_paths [OF assms(3), of D V r "mark_finished st1"]
    by (simp add: glob_inv_def Let_def ac_simps)
  moreover have "glob_finished (mark_finished st1) \<longrightarrow> current_common_prefix st1 = []"
    using assms(2) by (simp add: mark_finished_def)
  ultimately show ?thesis
    using assms(1,6-11) by (simp add: glob_inv_def Let_def ShouldInvestigateRecursiveGlob_def)
qed

lemma investigate_cong:
  "glob_type s = glob_type t \<Longrightarrow> glob_url s = glob_url t \<Longrightarrow>
     ShouldInvestigateRecursiveGlob D allow s = ShouldInvestigateRecursiveGlob D allow t"
  by (simp add: ShouldInvestigateRecursiveGlob_def)

lemma no_selected_under:
  assumes "splits_paths D" "stable_name D base d" "Decode D d = d"
    and "\<not> Match D MATCH_PREFIX (Split D d ''/'') (Split D (url_key url) ''/'')"
  shows "found_files D url (under K d) = {#}"
proof -
  have "\<not> file_selected D url k" if k: "k \<in> set K" "starts_with d k" for k
  proof
    assume "file_selected D url k"
    then have "selects D (Split D (url_key url) ''/'') (Split D k ''/'')" by (simp add: file_selected_def)
    moreover have "d \<noteq> []" "hd d \<noteq> CHR ''/''" "last d = CHR ''/''"
      using assms(2,3) by (auto simp: stable_name_def listable_def)
    then obtain rest where "Split D k ''/'' = Split D d ''/'' @ rest"
      using assms(1) k(2) unfolding splits_paths_def starts_with_ex by metis
    ultimately show False using Match_prefix assms(4) by metis
  qed
  then have "filter_mset (file_selected D url) (under K d) = {#}"
    by (auto simp: under_def filter_mset_eq_conv)
  then show ?thesis by (simp add: found_files_def)
qed

lemma ScanCurrentCommonPrefix_inv:
  assumes "serves_listing D R base K later" "base = url_prefix url @ url_bucket url @ ''/''" "splits_paths D"
    and "glob_inv D allow K later url p0 st" "\<not> glob_finished st" "current_common_prefix st \<noteq> []"
    and "ScanCurrentCommonPrefix D V R st w = (Inr keys, st1, w1)"
  shows "glob_inv D allow K later url p0 (AppendMatchingFiles D V r keys (mark_finished st1))"
proof -
  define d where "d = Decode D (current_common_prefix st)"
  have stable: "stable_name D base (current_common_prefix st)" and url: "glob_url st = url"
    and rest: "\<forall>q \<in> set (glob_common_prefixes st). stable_name D base q"
    and token: "ShouldInvestigateRecursiveGlob D allow st \<Longrightarrow> main_continuation_token st = []"
    using assms(2,4,6) by (simp_all add: glob_inv_def Let_def)
  have d: "stable_name D base d" "Decode D d = d" "d \<noteq> []" "Decode D (base @ current_common_prefix st) = base @ d" "listable base d"
    using stable by (simp_all add: d_def stable_name_def)
  let ?st1 = "st\<lparr>current_common_prefix := d\<rparr>"
  let ?main = "if main_continuation_token st = [] then {#}
      else page_keys K (later p0 (list_mode st) (main_continuation_token st))"
  have pending: "pending D K later p0 st = ?main + waiting D K later ?st1"
    using assms(5,6) d by (simp add: pending_def waiting_def d_def ac_simps)
  have base_path: "url_prefix url @ url_bucket url @ CHR ''/'' # x = base @ x" for x by (simp add: assms(2))
  show ?thesis
  proof (cases "Match D MATCH_PREFIX (Split D d ''/'') (Split D (url_key url) ''/'')")
    case False
    then have run: "keys = []" "st1 = end_of_prefix ?st1"
      using assms(7) by (auto simp: ScanCurrentCommonPrefix_def Let_def url d_def)
    have found: "found_files D url (waiting D K later ?st1) = found_files D url (waiting D K later st1)"
    proof (cases "prefix_continuation_token st = []")
      case True
      have "waiting D K later ?st1 = under K d + (\<Sum>q\<leftarrow>glob_common_prefixes st. under K (Decode D q))"
        using d True by (simp add: waiting_def serves_whole [OF assms(1)])
      moreover have "waiting D K later st1 = (\<Sum>q\<leftarrow>glob_common_prefixes st. under K (Decode D q))"
        using True rest by (simp add: run(2) end_of_prefix_def waiting_SelectNext [OF assms(1)])
      ultimately show ?thesis using no_selected_under [OF assms(3) d(1,2) False] by (simp add: found_files_add)
    qed (simp add: run(2) end_of_prefix_def)
    have investigate: "ShouldInvestigateRecursiveGlob D allow st1 = ShouldInvestigateRecursiveGlob D allow st"
      by (rule investigate_cong) (simp_all add: run(2) end_of_prefix_def)
    have names: "current_common_prefix st1 = [] \<Longrightarrow> glob_common_prefixes st1 = [] \<and> prefix_continuation_token st1 = []"
      "current_common_prefix st1 \<noteq> [] \<Longrightarrow> stable_name D base (current_common_prefix st1)"
      "\<forall>q \<in> set (glob_common_prefixes st1). stable_name D base q"
      using d rest SelectNext_names [of ?st1 D base] by (auto simp: run(2) end_of_prefix_def split: if_splits)
    show ?thesis
    proof (rule glob_inv_step [OF assms(4), where decoded = "[]"])
      show "found_files D url (pending D K later p0 st) = found_files D url (mset []) +
          found_files D url ((if main_continuation_token st1 = [] then {#}
            else page_keys K (later p0 (list_mode st1) (main_continuation_token st1))) + waiting D K later st1)"
        using found unfolding pending
        by (simp add: found_files_add run(2) end_of_prefix_def list_mode_def) (simp add: found_files_def)
    qed (use names assms(2,5) url token in \<open>simp_all add: investigate run(1)\<close>,
        simp_all add: run(2) end_of_prefix_def url token investigate)
  next
    case True
    obtain response where response: "R (base @ d) (prefix_continuation_token st) LIST_HIERARCHICAL w = (Inr response, w1)"
      and keys: "AppendFileList D V (list_objects response) [] = Inr keys"
      and st1: "st1 = end_of_prefix (?st1\<lparr>glob_common_prefixes := glob_common_prefixes st @ list_common_prefixes response,
          prefix_continuation_token := list_continuation_token response\<rparr>)"
      using assms(7) True d
      by (auto simp: ScanCurrentCommonPrefix_def Let_def url base_path d_def split: prod.splits sum.splits)
    note page = serves_page [OF assms(1) d(5) response]
    let ?st2 = "?st1\<lparr>glob_common_prefixes := glob_common_prefixes st @ list_common_prefixes response,
          prefix_continuation_token := list_continuation_token response\<rparr>"
    have names: "\<forall>q \<in> set (glob_common_prefixes ?st2). stable_name D base q" using rest page(2) by auto
    have "waiting D K later ?st1 =
        mset (map (Decode D \<circ> object_key) (list_objects response)) + waiting D K later st1"
    proof (cases "list_continuation_token response = []")
      case last_page: True
      then show ?thesis
        using d page(1) names
        by (simp add: waiting_def [of _ _ _ ?st1] st1 end_of_prefix_def waiting_SelectNext [OF assms(1)] ac_simps)
    qed (use d page(1) in \<open>simp add: waiting_def st1 end_of_prefix_def ac_simps\<close>)
    then have total: "found_files D url (pending D K later p0 st) =
        found_files D url (mset (map (Decode D \<circ> object_key) (list_objects response))) +
        found_files D url (?main + waiting D K later st1)"
      by (simp add: pending found_files_add ac_simps)
    have investigate: "ShouldInvestigateRecursiveGlob D allow st1 = ShouldInvestigateRecursiveGlob D allow st"
      by (rule investigate_cong) (simp_all add: st1 end_of_prefix_def)
    have names1: "current_common_prefix st1 = [] \<Longrightarrow> glob_common_prefixes st1 = [] \<and> prefix_continuation_token st1 = []"
      "current_common_prefix st1 \<noteq> [] \<Longrightarrow> stable_name D base (current_common_prefix st1)"
      "\<forall>q \<in> set (glob_common_prefixes st1). stable_name D base q"
      using d names SelectNext_names [of ?st2 D base] by (auto simp: st1 end_of_prefix_def split: if_splits)
    have same: "main_continuation_token st1 = main_continuation_token st" "list_mode st1 = list_mode st"
      "glob_finished st1 = glob_finished st" "expanded_files st1 = expanded_files st" "glob_url st1 = url"
      "glob_shared_path st1 = glob_shared_path st"
      by (simp_all add: st1 end_of_prefix_def list_mode_def url)
    show ?thesis
      by (rule glob_inv_step [OF assms(4), where decoded = "map (Decode D \<circ> object_key) (list_objects response)"])
        (use names1 assms(2,5) token total AppendFileList_paths [OF keys] in \<open>simp_all add: investigate same\<close>)
  qed
qed

lemma top_level_inv:
  assumes "serves_listing D R base K later" "base = url_prefix url @ url_bucket url @ ''/''"
    and "glob_inv D allow K later url p0 st" "\<not> glob_finished st" "current_common_prefix st = []"
    and "R (base @ p0) token mode w = (Inr response, w')"
    and "page_keys K (later p0 (list_mode st) (main_continuation_token st)) = page_keys K (later p0 mode token)"
    and "AppendFileList D V (list_objects response) [] = Inr keys"
    and "mode = (if t = GLOB_HIERARCHICAL then LIST_HIERARCHICAL else LIST_FLAT)"
    and "st1 = SelectNextCommonPrefix (st\<lparr>glob_type := t, main_continuation_token := list_continuation_token response,
        glob_common_prefixes := list_common_prefixes response\<rparr>)"
    and "ShouldInvestigateRecursiveGlob D allow st1 \<Longrightarrow> list_continuation_token response = []"
  shows "glob_inv D allow K later url p0 (AppendMatchingFiles D V r keys (mark_finished st1))"
proof -
  have idle: "glob_common_prefixes st = []" "prefix_continuation_token st = []" "glob_url st = url" "listable base p0"
    using assms(2,3,5) by (simp_all add: glob_inv_def Let_def)
  note page = serves_page [OF assms(1) idle(4) assms(6)]
  let ?st2 = "st\<lparr>glob_type := t, main_continuation_token := list_continuation_token response,
        glob_common_prefixes := list_common_prefixes response\<rparr>"
  have same: "main_continuation_token st1 = list_continuation_token response" "list_mode st1 = mode"
    "glob_finished st1 = glob_finished st" "expanded_files st1 = expanded_files st" "glob_url st1 = url"
    "glob_shared_path st1 = glob_shared_path st" "prefix_continuation_token st1 = []"
    using idle assms(9) by (simp_all add: assms(10) list_mode_def)
  have names: "current_common_prefix st1 = [] \<Longrightarrow> glob_common_prefixes st1 = []"
    "current_common_prefix st1 \<noteq> [] \<Longrightarrow> stable_name D base (current_common_prefix st1)"
    "\<forall>q \<in> set (glob_common_prefixes st1). stable_name D base q"
    using page(2) SelectNext_names [of ?st2 D base] by (auto simp: assms(10))
  have "waiting D K later st1 = (\<Sum>q\<leftarrow>list_common_prefixes response. under K (Decode D q))"
    using page(2) idle by (simp add: assms(10) waiting_SelectNext [OF assms(1)])
  moreover have "pending D K later p0 st = page_keys K (later p0 mode token)"
    using assms(4,5,7) idle by (simp add: pending_def)
  ultimately have "found_files D url (pending D K later p0 st) =
      found_files D url (mset (map (Decode D \<circ> object_key) (list_objects response))) +
      found_files D url ((if list_continuation_token response = [] then {#}
        else page_keys K (later p0 mode (list_continuation_token response))) + waiting D K later st1)"
    unfolding page(1) by (simp add: found_files_add ac_simps)
  with names show ?thesis
    by (intro glob_inv_step [OF assms(3), where decoded = "map (Decode D \<circ> object_key) (list_objects response)"])
      (use assms(2,4,11) AppendFileList_paths [OF assms(8)] in \<open>simp_all add: same\<close>)
qed

lemma ScanTopLevel_inv:
  assumes "serves_listing D R base K later" "base = url_prefix url @ url_bucket url @ ''/''"
    and "glob_inv D allow K later url p0 st" "\<not> glob_finished st" "current_common_prefix st = []"
    and "ScanTopLevel D V R allow st w = (Inr keys, st1, w1)"
  shows "glob_inv D allow K later url p0 (AppendMatchingFiles D V r keys (mark_finished st1))"
proof -
  have st: "glob_shared_path st = base @ p0" "glob_common_prefixes st = []"
    "listable base p0"
    "ShouldInvestigateRecursiveGlob D allow st \<Longrightarrow> main_continuation_token st = []"
    using assms(2,3,5) by (simp_all add: glob_inv_def Let_def)
  obtain response w2 where response: "R (base @ p0) (main_continuation_token st) (list_mode st) w = (Inr response, w2)"
    using assms(6) st by (auto simp: ScanTopLevel_def list_mode_def Let_def split: prod.splits sum.splits)
  note top = top_level_inv [OF assms(1-5)]
  show ?thesis
  proof (cases "ShouldInvestigateRecursiveGlob D allow st \<and> list_continuation_token response \<noteq> []")
    case False
    then obtain "AppendFileList D V (list_objects response) [] = Inr keys"
      "st1 = SelectNextCommonPrefix (st\<lparr>main_continuation_token := list_continuation_token response,
        glob_common_prefixes := list_common_prefixes response\<rparr>)"
      using assms(6) response st
      by (auto simp: ScanTopLevel_def list_mode_def [symmetric] Let_def split: sum.splits)
    moreover from this(2) have "ShouldInvestigateRecursiveGlob D allow st1 = ShouldInvestigateRecursiveGlob D allow st"
      by (intro investigate_cong) simp_all
    ultimately show ?thesis using False
      by (intro top [OF response refl, where t = "glob_type st"]) (auto simp: list_mode_def)
  next
    case True
    then have unknown: "glob_type st = GLOB_UNKNOWN" "main_continuation_token st = []" "list_mode st = LIST_FLAT"
      using st(4) by (auto simp: ShouldInvestigateRecursiveGlob_def list_mode_def split: if_splits)
    obtain dense where dense: "AppendFileList D V (list_objects response) [] = Inr dense"
      using assms(6) response st True unknown
      by (auto simp: ScanTopLevel_def SelectGlobType_def Let_def list_mode_def split: sum.splits)
    show ?thesis
    proof (cases "ContainsDenseDirectories D dense")
      case False
      then obtain "AppendFileList D V (list_objects response) [] = Inr keys"
        "st1 = SelectNextCommonPrefix (st\<lparr>glob_type := GLOB_LISTING, main_continuation_token := list_continuation_token response,
          glob_common_prefixes := list_common_prefixes response\<rparr>)"
        using assms(6) response st True unknown dense
        by (auto simp: ScanTopLevel_def SelectGlobType_def Let_def list_mode_def split: sum.splits)
      then show ?thesis
        by (intro top [OF response refl, where t = GLOB_LISTING]) (auto simp: unknown ShouldInvestigateRecursiveGlob_def)
    next
      case switch: True
      obtain response' where again: "R (base @ p0) [] LIST_HIERARCHICAL w2 = (Inr response', w1)"
        "AppendFileList D V (list_objects response') [] = Inr keys"
        "st1 = SelectNextCommonPrefix (st\<lparr>glob_type := GLOB_HIERARCHICAL,
          main_continuation_token := list_continuation_token response',
          glob_common_prefixes := list_common_prefixes response'\<rparr>)"
        using assms(6) response st True unknown dense switch
        by (auto simp: ScanTopLevel_def SelectGlobType_def Let_def list_mode_def split: sum.splits prod.splits)
      then show ?thesis
        by (intro top [OF again(1), where t = GLOB_HIERARCHICAL])
          (auto simp: unknown serves_whole [OF assms(1) st(3)] ShouldInvestigateRecursiveGlob_def)
    qed
  qed
qed

lemma ExpandNextPath_inv:
  assumes "serves_listing D R base K later" "base = url_prefix url @ url_bucket url @ ''/''" "splits_paths D"
    and "glob_inv D allow K later url p0 st" "ExpandNextPath D V R allow r st w = (Inr again, st', w')"
  shows "glob_inv D allow K later url p0 st'"
proof (cases "glob_finished st")
  case True
  with assms(4,5) show ?thesis by (simp add: ExpandNextPath_def)
next
  case False
  obtain keys st1 where scan: "(if current_common_prefix st \<noteq> [] then ScanCurrentCommonPrefix D V R st w
        else ScanTopLevel D V R allow st w) = (Inr keys, st1, w')"
    "st' = AppendMatchingFiles D V (r w') keys (mark_finished st1)"
    using assms(5) False by (auto simp: ExpandNextPath_def mark_finished_def Let_def split: prod.splits sum.splits)
  show ?thesis
  proof (cases "current_common_prefix st = []")
    case True
    with scan show ?thesis using ScanTopLevel_inv [OF assms(1,2,4) False] by simp
  next
    case False
    with scan show ?thesis using ScanCurrentCommonPrefix_inv [OF assms(1-4) \<open>\<not> glob_finished st\<close>] by simp
  qed
qed

lemma expands_inv:
  assumes "serves_listing D R base K later" "base = url_prefix url @ url_bucket url @ ''/''" "splits_paths D"
    and "expands (ExpandNextPath D V R allow r) st0 w0 st w" "glob_inv D allow K later url p0 st0"
  shows "glob_inv D allow K later url p0 st"
  using assms(4,5) by induction (auto intro: ExpandNextPath_inv [OF assms(1-3)])

text \<open>
  C18: A glob that finishes found exactly the files of the bucket that its pattern describes, each as
  often as the bucket holds it, whatever pages the server makes, whether the glob lists the keys
  flat or switches to common prefixes, and although it leaves out the directories that the pattern
  cannot match. This is so for buckets whose directories have names that do not change when they are decoded again, hold no question mark and do
  not begin with a slash, and for a pattern whose part before the first wildcard holds no question mark, whose prefix in the bucket does not begin
  with a slash and whose bucket decoding leaves alone; other directories may be listed wrongly or lost.
\<close>

theorem glob_complete:
  assumes "CreateGlob D auth glob_pattern = Inr st0" "\<not> glob_finished st0" "listable base p0"
    and "base = url_prefix (glob_url st0) @ url_bucket (glob_url st0) @ ''/''" "glob_shared_path st0 = base @ p0"
    and "serves_listing D R base K later" "splits_paths D"
    and "expands (ExpandNextPath D V R allow r) st0 w0 st w" "glob_finished st"
  shows "mset (map info_path (expanded_files st)) =
    image_mset (full_path (glob_url st0)) (filter_mset (\<lambda>k. \<not> (k \<noteq> [] \<and> last k = CHR ''/'') \<and>
      selects D (Split D (url_key (glob_url st0)) ''/'') (Split D k ''/'') \<and> starts_with p0 k) (mset K))"
proof -
  obtain url s where st0: "st0 = (new_glob url)\<lparr>glob_shared_path := s\<rparr>"
    using assms(1,2)
    by (auto simp: CreateGlob_def bind_res_def whole_pattern_def split: if_splits sum.splits option.splits)
  have "glob_inv D allow K later (glob_url st0) p0 st0"
    using assms(3-5) serves_whole [OF assms(6,3)]
    unfolding st0 by (simp add: glob_inv_def Let_def new_glob_def pending_def list_mode_def found_files_def)
  then have "glob_inv D allow K later (glob_url st0) p0 st" by (rule expands_inv [OF assms(6,4,7,8)])
  note inv = this [unfolded glob_inv_def Let_def]
  then have "current_common_prefix st = []" "glob_common_prefixes st = []" using assms(9) by blast+
  with inv have "mset (map info_path (expanded_files st)) = found_files D (glob_url st0) (under K p0)"
    using assms(9) by (simp add: pending_def found_files_def)
  also have "\<dots> = image_mset (full_path (glob_url st0)) (filter_mset (\<lambda>k. \<not> (k \<noteq> [] \<and> last k = CHR ''/'') \<and>
      selects D (Split D (url_key (glob_url st0)) ''/'') (Split D k ''/'') \<and> starts_with p0 k) (mset K))"
    by (auto simp: found_files_def under_def file_selected_def filter_filter_mset conj_ac intro!: arg_cong [where f = "image_mset _"] filter_mset_cong)
  finally show ?thesis .
qed

text \<open>
  The contract of the server asks for stable names because \<open>current_common_prefix\<close> is decoded in
  place, once for every page. When the name that a second decoding gives does not match the pattern
  any more, no page is requested and the token of the prefix stays: the glob makes no progress.
\<close>

lemma glob_stuck:
  assumes "\<not> glob_finished st" "prefix_continuation_token st \<noteq> []" "current_common_prefix st \<noteq> []"
    and "Decode D (current_common_prefix st) = current_common_prefix st"
    and "\<not> Match D MATCH_PREFIX (Split D (current_common_prefix st) ''/'') (Split D (url_key (glob_url st)) ''/'')"
  shows "ExpandNextPath D V R allow r st w = (Inr True, st, w)"
  using assms by (simp add: ExpandNextPath_def ScanCurrentCommonPrefix_def end_of_prefix_def AppendMatchingFiles_def Let_def)

section \<open>A server\<close>

text \<open>A server that sends flat listings one key at a time, and a directory as a whole.\<close>

fun split_slash :: "string \<Rightarrow> string \<Rightarrow> string list" where
  "split_slash [] word = (if word = [] then [] else [word])"
| "split_slash (c # s) word =
     (if c = CHR ''/'' then (if word = [] then [] else [word]) @ split_slash s [] else split_slash s (word @ [c]))"

definition glob_api :: duckdb_api where
  "glob_api = std_api\<lparr>Split := (\<lambda>s p. let words = split_slash s [] in if words = [] then [s] else words),
     Glob := (\<lambda>s p. p = ''*'' \<or> s = p)\<rparr>"

definition text_values :: "string value_api" where
  "text_values = \<lparr>text_value = id, timestamp_value = Inr, ubigint_value = Inr\<rparr>"

definition list_object :: "string \<Rightarrow> S3ListObjectsV2Object" where
  "list_object k = \<lparr>object_key = k, object_last_modified = [], object_etag = [], object_size = ''1''\<rparr>"

definition dir_page :: "string list \<Rightarrow> string \<Rightarrow> string list \<times> string list" where
  "dir_page K p =
     (let below = filter (starts_with p) K; slash = (\<lambda>k. CHR ''/'' \<in> set (drop (length p) k))
      in (filter (\<lambda>k. \<not> slash k) below,
          remdups (map (\<lambda>k. p @ takeWhile (\<lambda>c. c \<noteq> CHR ''/'') (drop (length p) k) @ ''/'') (filter slash below))))"

fun sample_pages :: "string list \<Rightarrow> pages" where
  "sample_pages K p LIST_FLAT token = (drop (length token) (filter (starts_with p) K), [])"
| "sample_pages K p LIST_HIERARCHICAL token = dir_page K p"

definition sample_list :: "string \<Rightarrow> string list \<Rightarrow> unit list_request" where
  "sample_list base K path token mode w =
     (let p = drop (length base) path; (ks, ps) = sample_pages K p mode token
      in (Inr (case mode of
            LIST_FLAT \<Rightarrow> \<lparr>list_objects = map list_object (take 1 ks), list_common_prefixes = [],
                          list_continuation_token = (if length ks > 1 then CHR ''x'' # token else [])\<rparr>
          | LIST_HIERARCHICAL \<Rightarrow> \<lparr>list_objects = map list_object ks, list_common_prefixes = ps,
                          list_continuation_token = []\<rparr>), w))"

lemma percent_decode_plain: "CHR ''%'' \<notin> set s \<Longrightarrow> percent_decode s = s"
  by (induction s rule: percent_decode.induct) auto

lemma Decode_plain: "CHR ''%'' \<notin> set s \<Longrightarrow> Decode glob_api s = s"
  by (simp add: Decode_def glob_api_def std_api_def percent_decode_plain)

lemma dir_page_subdirs: "set (snd (dir_page K p)) = subdirs K p"
proof (intro set_eqI iffI)
  fix q assume "q \<in> set (snd (dir_page K p))"
  then obtain k where k: "k \<in> set K" "starts_with p k" "CHR ''/'' \<in> set (drop (length p) k)"
    "q = p @ takeWhile (\<lambda>c. c \<noteq> CHR ''/'') (drop (length p) k) @ ''/''"
    by (auto simp: dir_page_def Let_def)
  moreover have s: "CHR ''/'' \<notin> set (takeWhile (\<lambda>c. c \<noteq> CHR ''/'') (drop (length p) k))"
    using set_takeWhileD by fastforce
  moreover have "starts_with q k" unfolding k(4) using k(2,3) by (subst starts_with_subdir [OF s]) simp
  ultimately show "q \<in> subdirs K p" unfolding subdirs_def by blast
next
  fix q assume "q \<in> subdirs K p"
  then obtain s k where k: "q = p @ s @ ''/''" "CHR ''/'' \<notin> set s" "k \<in> set K" "starts_with (p @ s @ ''/'') k"
    by (auto simp: subdirs_def)
  from k(4) [unfolded starts_with_subdir [OF k(2)]] k(1,3)
  show "q \<in> set (snd (dir_page K p))" by (force simp: dir_page_def Let_def)
qed

definition plain_name :: "string \<Rightarrow> bool" where
  "plain_name k \<longleftrightarrow> CHR ''%'' \<notin> set k \<and> CHR ''?'' \<notin> set k \<and> k \<noteq> [] \<and> hd k \<noteq> CHR ''/''"

lemma dir_page_plain:
  assumes "\<forall>k \<in> set K. plain_name k" "q \<in> set (snd (dir_page K p))"
  shows "plain_name q \<and> last q = CHR ''/''"
proof -
  obtain s k where k: "q = p @ s @ ''/''" "k \<in> set K" "starts_with q k"
    using assms(2) unfolding dir_page_subdirs by (auto simp: subdirs_def)
  then obtain r where "k = q @ r" by (auto simp: starts_with_ex)
  moreover have "plain_name k" using assms(1) k(2) by blast
  moreover have "q \<noteq> [] \<and> last q = CHR ''/''" by (simp add: k(1))
  ultimately show ?thesis by (auto simp: plain_name_def)
qed

lemma sample_pages_served:
  assumes K: "\<forall>k \<in> set K. plain_name k" and base: "CHR ''%'' \<notin> set base" "CHR ''?'' \<notin> set base"
  shows "serves_listing glob_api (sample_list base K) base K (sample_pages K)"
proof -
  have decoded: "map (Decode glob_api \<circ> object_key) (map list_object ks) = ks" if "set ks \<subseteq> set K" for ks
    using that K by (auto simp: list_object_def Decode_plain plain_name_def intro!: map_idI)
  have dirs: "map (Decode glob_api) (snd (dir_page K p)) = snd (dir_page K p)"
    "\<forall>q \<in> set (snd (dir_page K p)). stable_name glob_api base q" for p
    using dir_page_plain [OF K, of _ p] base
    by (auto simp: Decode_plain plain_name_def stable_name_def listable_def intro!: map_idI)
  have flat: "set (take 1 (drop n (filter (starts_with p) K))) \<subseteq> set K" for n p
    by (meson filter_is_subset order_trans set_drop_subset set_take_subset)
  have dir: "set (fst (dir_page K p)) \<subseteq> set K" for p
    by (auto simp: dir_page_def Let_def)
  have rest: "ks = take 1 ks @ (if 1 < length ks then drop 1 ks else [])" for ks :: "string list"
    by (cases ks) auto
  have mset: "mset (fst (dir_page K p)) = direct K p" for p
    by (auto simp: dir_page_def Let_def direct_def filter_filter_mset conj_ac simp flip: mset_filter intro!: filter_mset_cong)
  show ?thesis
    unfolding serves_listing_def
  proof (intro conjI allI impI)
    fix p assume "listable base p"
    show "mset (fst (sample_pages K p LIST_FLAT [])) = under K p" by (simp add: under_def)
    show "mset (fst (sample_pages K p LIST_HIERARCHICAL [])) = direct K p" by (simp add: mset)
    show "set (snd (sample_pages K p LIST_HIERARCHICAL [])) = subdirs K p" by (simp add: dir_page_subdirs)
    show "distinct (snd (sample_pages K p LIST_HIERARCHICAL []))" by (simp add: dir_page_def Let_def)
  next
    fix p mode token w response w'
    assume "listable base p \<and> sample_list base K (base @ p) token mode w = (Inr response, w')"
    then have r: "sample_list base K (base @ p) token mode w = (Inr response, w')" by simp
    show "let next_pages = (if list_continuation_token response = [] then ([], [])
            else sample_pages K p mode (list_continuation_token response))
         in fst (sample_pages K p mode token) = map (Decode glob_api \<circ> object_key) (list_objects response) @ fst next_pages \<and>
            snd (sample_pages K p mode token) = map (Decode glob_api) (list_common_prefixes response) @ snd next_pages \<and>
            (\<forall>q \<in> set (list_common_prefixes response). stable_name glob_api base q)"
    proof (cases mode)
      case LIST_FLAT
      then show ?thesis
        using r rest [of "drop (length token) (filter (starts_with p) K)"] decoded [OF flat [of "length token" p]]
        by (cases "1 < length (drop (length token) (filter (starts_with p) K))")
          (auto simp: sample_list_def Let_def simp del: map_map length_drop)
    next
      case LIST_HIERARCHICAL
      obtain ks ps where page: "dir_page K p = (ks, ps)" by (cases "dir_page K p")
      with LIST_HIERARCHICAL show ?thesis
        using r decoded [OF dir [of p]] dirs [of p]
        by (auto simp: sample_list_def Let_def simp del: map_map)
    qed
  qed simp
qed

text \<open>
  A key that begins with a slash is found in a flat listing and lost with its directory in a hierarchical one: the
  directory is split into one component, a slash, where the key has the component after it.
\<close>

lemma leading_slash_lost:
  fixes D :: duckdb_api
  defines "D \<equiv> glob_api\<lparr>Glob := (\<lambda>s p. s = p \<or> p = ''[a]'' \<and> s = ''a'')\<rparr>"
  shows "Match D MATCH_COMPLETE (Split D ''/a/b'' ''/'') (Split D ''[a]/b'' ''/'') \<and>
    \<not> Match D MATCH_PREFIX (Split D ''/'' ''/'') (Split D ''[a]/b'' ''/'')"
  by (simp add: D_def glob_api_def match_simps Let_def)

definition sample_keys :: "string list" where
  "sample_keys = [''d/a'', ''e'', ''d/b'', ''d/c/d'']"

definition sample_start :: "string S3GlobResult" where
  "sample_start = (new_glob \<lparr>http_proto = ''https://'', url_prefix = ''s3://'', url_host = ''b.localhost:9000'',
     url_bucket = ''b'', url_key = ''d/*'', url_path = ''/d/*'', url_query_param = [], trimmed_s3_url = ''s3://b/d/*''\<rparr>)
     \<lparr>glob_shared_path := ''s3://b/d/''\<rparr>"

abbreviation sample_auth :: S3AuthParams where
  "sample_auth \<equiv> init_auth\<lparr>endpoint := ''localhost:9000'', region := ''eu''\<rparr>"

lemma sample_Resolve:
  "Resolve glob_api ''s3://b/d/*'' sample_auth = Inr (glob_url sample_start, sample_auth)"
  by code_simp

lemma sample_CreateGlob: "CreateGlob glob_api sample_auth ''s3://b/d/*'' = Inr sample_start"
proof -
  have "\<not> s3_url_compatibility_mode sample_auth" "trimmed_s3_url (glob_url sample_start) = ''s3://b/d/*''"
    "find_first_of (''*['' @ [CHR 0x5C]) ''s3://b/d/*'' = Some 9" by code_simp+
  then show ?thesis
    unfolding CreateGlob_def sample_Resolve by (simp add: bind_res_def) (simp add: sample_start_def new_glob_def)
qed

definition sample_expand :: "string S3GlobResult \<Rightarrow> unit \<Rightarrow> bool res \<times> string S3GlobResult \<times> unit" where
  "sample_expand = ExpandNextPath glob_api text_values (sample_list ''s3://b/'' sample_keys) None (\<lambda>_. ''eu'')"

lemma split_slash_nonempty: "word \<noteq> [] \<Longrightarrow> split_slash s word \<noteq> []"
  by (induction s arbitrary: word) auto

lemma split_slash_append: "split_slash (q @ CHR ''/'' # r) word = split_slash (q @ ''/'') word @ split_slash r []"
  by (induction q arbitrary: word) auto

lemma glob_api_splits: "splits_paths glob_api"
  unfolding splits_paths_def
proof (intro allI impI)
  fix q r :: string assume q: "q \<noteq> [] \<and> hd q \<noteq> CHR ''/'' \<and> last q = CHR ''/''"
  then obtain q' where q': "q = q' @ ''/''" by (metis append_butlast_last_id)
  with q have "q' \<noteq> []" "hd q' \<noteq> CHR ''/''" by (cases q'; simp)+
  then have "split_slash q [] \<noteq> []" by (cases q') (simp_all add: q' split_slash_nonempty)
  then show "\<exists>rest. Split glob_api (q @ r) ''/'' = Split glob_api q ''/'' @ rest"
    using split_slash_append [of q' r "[]"] by (simp add: glob_api_def Let_def q')
qed

lemma sample_Split: "Split glob_api s p = (let words = split_slash s [] in if words = [] then [s] else words)"
  by (simp add: glob_api_def)

lemma sample_Glob: "Glob glob_api s p \<longleftrightarrow> p = ''*'' \<or> s = p"
  by (simp add: glob_api_def)

lemma sample_Contains: "Contains glob_api s p \<longleftrightarrow> str_find p s \<noteq> None"
  by (simp add: glob_api_def std_api_def)

lemmas sample_defs = sample_expand_def ExpandNextPath_def ScanTopLevel_def SelectGlobType_def AppendMatchingFiles_def
  sample_list_def sample_keys_def ShouldInvestigateRecursiveGlob_def SelectNextCommonPrefix_def ContainsDenseDirectories_def
  ListedFile_def set_option_def list_object_def Decode_plain text_values_def sample_Split sample_Glob sample_Contains
  match_simps Let_def sample_start_def new_glob_def

definition sample_file :: "string \<Rightarrow> string OpenFileInfo" where
  "sample_file path = \<lparr>info_path = path, info_options = [''file_size'' \<mapsto> ''1'', ''s3_region'' \<mapsto> ''eu'']\<rparr>"

definition sample_after :: "string \<Rightarrow> string list \<Rightarrow> bool \<Rightarrow> string S3GlobResult" where
  "sample_after token found finished =
     sample_start\<lparr>main_continuation_token := token, glob_type := GLOB_LISTING, glob_finished := finished,
       expanded_files := map sample_file found\<rparr>"

lemma sample_steps:
  "sample_expand sample_start () = (Inr True, sample_after ''x'' [''s3://b/d/a''] False, ())"
  "sample_expand (sample_after ''x'' [''s3://b/d/a''] False) () =
     (Inr True, sample_after ''xx'' [''s3://b/d/a'', ''s3://b/d/b''] False, ())"
  "sample_expand (sample_after ''xx'' [''s3://b/d/a'', ''s3://b/d/b''] False) () =
     (Inr True, sample_after [] [''s3://b/d/a'', ''s3://b/d/b''] True, ())"
  by (simp_all add: sample_defs sample_after_def sample_file_def)

lemma sample_expands:
  "expands sample_expand sample_start () (sample_after [] [''s3://b/d/a'', ''s3://b/d/b''] True) ()"
  by (rule expands_next, rule expands_next, rule expands_next, rule expands_start) (rule sample_steps)+

theorem glob_complete_witness:
  "mset (map info_path (expanded_files (sample_after [] [''s3://b/d/a'', ''s3://b/d/b''] True))) =
     image_mset (full_path (glob_url sample_start)) {#''d/a'', ''d/b''#}"
proof -
  have keys: "\<forall>k \<in> set sample_keys. plain_name k" by (simp add: sample_keys_def plain_name_def)
  have "mset (map info_path (expanded_files (sample_after [] [''s3://b/d/a'', ''s3://b/d/b''] True))) =
      image_mset (full_path (glob_url sample_start)) (filter_mset (\<lambda>k. \<not> (k \<noteq> [] \<and> last k = CHR ''/'') \<and>
        selects glob_api (Split glob_api (url_key (glob_url sample_start)) ''/'') (Split glob_api k ''/'') \<and>
        starts_with ''d/'' k) (mset sample_keys))"
  proof (rule glob_complete [where R = "sample_list ''s3://b/'' sample_keys" and later = "sample_pages sample_keys"
        and V = text_values and allow = None and r = "\<lambda>_. ''eu''" and base = "''s3://b/''"])
    show "CreateGlob glob_api sample_auth ''s3://b/d/*'' = Inr sample_start" by (rule sample_CreateGlob)
    show "serves_listing glob_api (sample_list ''s3://b/'' sample_keys) ''s3://b/'' sample_keys (sample_pages sample_keys)"
      by (rule sample_pages_served [OF keys]) simp_all
    show "splits_paths glob_api" by (rule glob_api_splits)
    show "listable ''s3://b/'' ''d/''" by (simp add: listable_def)
    show "expands (ExpandNextPath glob_api text_values (sample_list ''s3://b/'' sample_keys) None (\<lambda>_. ''eu''))
        sample_start () (sample_after [] [''s3://b/d/a'', ''s3://b/d/b''] True) ()"
      using sample_expands by (simp add: sample_expand_def)
  qed (simp_all add: sample_start_def new_glob_def sample_after_def)
  also have "\<dots> = image_mset (full_path (glob_url sample_start)) {#''d/a'', ''d/b''#}"
    by (simp add: Match_complete [symmetric] sample_defs)
  finally show ?thesis .
qed

end
