(* ===== verification/Hf_Files.thy ===== *)
theory Hf_Files
  imports S3_Glob Http_Range Http_Params
begin

text \<open>
  Hugging Face paths (src/src/hffs.cpp, src/src/include/hffs.hpp): the \<open>hf://\<close> URLs and the HTTP
  URLs made of them, the reader of the JSON text of a listing, and the request for one page of it.
\<close>

section \<open>URLs\<close>

record ParsedHFUrl =
  hf_path :: string
  hf_repository :: string
  hf_endpoint :: string
  hf_revision :: string
  hf_repo_type :: string

definition init_hf_url :: ParsedHFUrl where
  "init_hf_url =
     \<lparr>hf_path = [], hf_repository = [], hf_endpoint = ''https://huggingface.co'', hf_revision = ''main'',
      hf_repo_type = ''datasets''\<rparr>"

definition HFParseError :: "string \<Rightarrow> exn" where
  "HFParseError url = Exn IOException
     (''Failed to parse '' @ [CHR 0x27] @ ''%s'' @ [CHR 0x27] @ ''. Please format url like: '' @ [CHR 0x27] @
      ''hf://datasets/my-username/my-dataset/path/to/file.parquet'' @ [CHR 0x27]) [url]"

definition HFUrlParse :: "duckdb_api \<Rightarrow> string \<Rightarrow> ParsedHFUrl res" where
  "HFUrlParse D url =
     (if \<not> StartsWith D url ''hf://'' then Inl (Exn InternalException ''Not an hf url'' [])
      else case find_from (CHR ''/'') url 5 of
        None \<Rightarrow> Inl (HFParseError url)
      | Some curr_delim \<Rightarrow>
          let repo_type = substr url 5 (curr_delim - 5)
          in if repo_type \<noteq> ''datasets'' \<and> repo_type \<noteq> ''spaces'' then
               Inl (Exn IOException
                 (''Failed to parse: '' @ [CHR 0x27] @ ''%s'' @ [CHR 0x27] @
                  ''. Currently DuckDB only supports querying datasets or spaces, so the url should start with '' @
                  [CHR 0x27] @ ''hf://datasets'' @ [CHR 0x27] @ '' or '' @ [CHR 0x27] @ ''hf://spaces'' @ [CHR 0x27]) [url])
             else
               (case find_from (CHR ''/'') url (curr_delim + 1) of
                  None \<Rightarrow> Inl (HFParseError url)
                | Some repo_delim \<Rightarrow>
                    let next_at = find_from (CHR ''@'') url (repo_delim + 1)
                    in (case find_from (CHR ''/'') url (repo_delim + 1) of
                          None \<Rightarrow> Inl (HFParseError url)
                        | Some next_slash \<Rightarrow>
                            let at = (case next_at of Some a \<Rightarrow> if a < next_slash then Some a else None | None \<Rightarrow> None);
                                result = init_hf_url\<lparr>hf_repo_type := repo_type, hf_path := drop next_slash url\<rparr>
                            in Inr (case at of
                                 Some a \<Rightarrow> result\<lparr>hf_repository := substr url (curr_delim + 1) (a - curr_delim - 1),
                                                 hf_revision := substr url (a + 1) (next_slash - a - 1)\<rparr>
                               | None \<Rightarrow> result\<lparr>hf_repository := substr url (curr_delim + 1) (next_slash - curr_delim - 1)\<rparr>))))"

definition GetHFUrl :: "ParsedHFUrl \<Rightarrow> string" where
  "GetHFUrl url =
     (if hf_revision url = ''main'' then ''hf://'' @ hf_repo_type url @ ''/'' @ hf_repository url @ hf_path url
      else ''hf://'' @ hf_repo_type url @ ''/'' @ hf_repository url @ ''@'' @ hf_revision url @ hf_path url)"

text \<open>\<open>join\<close> is \<open>FileSystem::JoinPath\<close> of DuckDB.\<close>

definition GetTreeUrl :: "(string \<Rightarrow> string \<Rightarrow> string) \<Rightarrow> (u64 \<Rightarrow> string) \<Rightarrow> ParsedHFUrl \<Rightarrow> u64 \<Rightarrow> string" where
  "GetTreeUrl join text_of url limit =
     join (join (join (join (join (hf_endpoint url) ''api'') (hf_repo_type url)) (hf_repository url)) ''tree'') (hf_revision url) @
     hf_path url @ (if 0 < limit then ''?limit='' @ text_of limit else [])"

definition GetFileUrl :: "(string \<Rightarrow> string \<Rightarrow> string) \<Rightarrow> ParsedHFUrl \<Rightarrow> string" where
  "GetFileUrl join url =
     join (join (join (join (hf_endpoint url) (hf_repo_type url)) (hf_repository url)) ''resolve'') (hf_revision url) @ hf_path url"

section \<open>Handles and their requests\<close>

text \<open>
  \<open>lookup_secret\<close> gives the token of the Hugging Face secret that matches a path, when there is one.
  A handle keeps the parsed URL; its requests are those of the HTTP file system to \<open>GetFileUrl\<close>.
\<close>

definition SetParams :: "(string \<Rightarrow> string option) \<Rightarrow> string \<Rightarrow> HTTPFSParams \<Rightarrow> HTTPFSParams" where
  "SetParams lookup_secret path params =
     (case lookup_secret path of None \<Rightarrow> params | Some token \<Rightarrow> params\<lparr>bearer_token := token\<rparr>)"

record HFFileHandle =
  parsed_hf_url :: ParsedHFUrl
  hf_params :: HTTPFSParams

definition CreateHFHandle ::
  "duckdb_api \<Rightarrow> (string \<Rightarrow> HTTPFSParams res) \<Rightarrow> (string \<Rightarrow> string option) \<Rightarrow> string \<Rightarrow> HFFileHandle res" where
  "CreateHFHandle D initialize_parameters lookup_secret path =
     bind_res (HFUrlParse D path) (\<lambda>parsed_url.
     bind_res (initialize_parameters path) (\<lambda>params.
     Inr \<lparr>parsed_hf_url = parsed_url, hf_params = SetParams lookup_secret path params\<rparr>))"

definition HFRequest :: "(string \<Rightarrow> string \<Rightarrow> string) \<Rightarrow> HFFileHandle \<Rightarrow> (string \<Rightarrow> 'a) \<Rightarrow> string \<Rightarrow> 'a" where
  "HFRequest join handle http_request hf_url = http_request (GetFileUrl join (parsed_hf_url handle))"

section \<open>The listing of a directory\<close>

datatype EntryType = FILE_ENTRY | DIRECTORY_ENTRY | UNKNOWN_ENTRY

text \<open>
  The reader keeps the rest of the input, from its \<open>position\<close> on. The path is \<open>None\<close> until one was
  read (\<open>path_position\<close>).
\<close>

definition directory_token :: string where
  "directory_token = [QUOT] @ ''type'' @ [QUOT] @ '':'' @ [QUOT] @ ''directory'' @ [QUOT]"

definition file_token :: string where
  "file_token = [QUOT] @ ''type'' @ [QUOT] @ '':'' @ [QUOT] @ ''file'' @ [QUOT]"

definition path_token :: string where
  "path_token = [QUOT] @ ''path'' @ [QUOT] @ '':'' @ [QUOT]"

definition Consume :: "string \<Rightarrow> string \<Rightarrow> string option" where
  "Consume token input = (if starts_with token input then Some (drop (length token) input) else None)"

fun ParseString :: "string \<Rightarrow> string \<times> string" where
  "ParseString [] = ([], [])"
| "ParseString (c # input) =
     (if c = QUOT then ([], input)
      else if c = CHR 0x5C \<and> input \<noteq> [] \<and> (hd input = QUOT \<or> hd input = CHR 0x5C) then
        (let (s, r) = ParseString (tl input) in (hd input # s, r))
      else (let (s, r) = ParseString input in (c # s, r)))"

definition AppendEntry :: "EntryType \<Rightarrow> string option \<Rightarrow> string list \<times> string list \<Rightarrow> (string list \<times> string list) res" where
  "AppendEntry type path acc =
     (case path of
        None \<Rightarrow> Inl (Exn IOException ''Failed to parse list result'' [])
      | Some p \<Rightarrow>
          if type = UNKNOWN_ENTRY then Inl (Exn IOException ''Failed to parse list result'' [])
          else if type = FILE_ENTRY then Inr (fst acc @ [''/'' @ p], snd acc)
          else Inr (fst acc, snd acc @ [''/'' @ p]))"

lemma Consume_shorter [consumes_input]: "Consume token input = Some r \<Longrightarrow> token \<noteq> [] \<Longrightarrow> length r < length input"
  by (auto simp: Consume_def starts_with_ex split: if_splits)

lemma ParseString_shorter [consumes_input]: "length (snd (ParseString input)) \<le> length input"
proof (induction input rule: ParseString.induct)
  case (2 c input)
  then show ?case by (cases input) (auto split: prod.splits)
qed simp

function ParseEntry ::
  "string \<Rightarrow> nat \<Rightarrow> EntryType \<Rightarrow> string option \<Rightarrow> string list \<times> string list \<Rightarrow> ((string list \<times> string list) \<times> string) res" where
  "ParseEntry input nested type path acc =
     (case input of
        [] \<Rightarrow> Inr (acc, [])
      | c # s \<Rightarrow>
          if c = CHR ''}'' then
            (if 0 < nested then ParseEntry s (nested - 1) type path acc
             else map_sum id (\<lambda>l. (l, s)) (AppendEntry type path acc))
          else if c = CHR ''{'' then ParseEntry s (nested + 1) type path acc
          else
            (case Consume directory_token input of
               Some r \<Rightarrow> ParseEntry r nested DIRECTORY_ENTRY path acc
             | None \<Rightarrow>
                 (case Consume file_token input of
                    Some r \<Rightarrow> ParseEntry r nested FILE_ENTRY path acc
                  | None \<Rightarrow>
                      (case Consume path_token input of
                         Some r \<Rightarrow> ParseEntry (snd (ParseString r)) nested type (Some (fst (ParseString r))) acc
                       | None \<Rightarrow> ParseEntry s nested type path acc))))"
  by pat_completeness auto
termination
  by (relation "measure (\<lambda>(input, _). length input)")
    (auto dest!: Consume_shorter simp: directory_token_def file_token_def path_token_def
      intro: le_less_trans [OF ParseString_shorter])

lemma ParseEntry_Nil: "ParseEntry [] nested type path acc = Inr (acc, [])"
  by (subst ParseEntry.simps) simp

lemmas ParseEntry_Cons = ParseEntry.simps [of "c # s" for c s, unfolded list.case]

declare ParseEntry.simps [simp del]

lemma ParseEntry_shorter [consumes_input]:
  "ParseEntry input nested type path acc = Inr (l, r) \<Longrightarrow> length r \<le> length input"
proof (induction input nested type path acc arbitrary: l r rule: ParseEntry.induct)
  case (1 input nested type path acc)
  show ?case
  proof (cases input)
    case Nil
    with 1(7) show ?thesis by (simp add: ParseEntry_Nil)
  next
    case (Cons c s)
    consider (close) "c = CHR ''}''" "0 < nested" | (last) "c = CHR ''}''" "nested = 0" | (opens) "c = CHR ''{''"
      | (dir) x where "c \<noteq> CHR ''}''" "c \<noteq> CHR ''{''" "Consume directory_token input = Some x"
      | (fil) x where "c \<noteq> CHR ''}''" "c \<noteq> CHR ''{''" "Consume directory_token input = None" "Consume file_token input = Some x"
      | (pat) x where "c \<noteq> CHR ''}''" "c \<noteq> CHR ''{''" "Consume directory_token input = None"
          "Consume file_token input = None" "Consume path_token input = Some x"
      | (skip) "c \<noteq> CHR ''}''" "c \<noteq> CHR ''{''" "Consume directory_token input = None"
          "Consume file_token input = None" "Consume path_token input = None"
      by (cases "Consume directory_token input"; cases "Consume file_token input"; cases "Consume path_token input") auto
    then show ?thesis
    proof cases
      case close
      with 1(1) [OF Cons close] 1(7) Cons show ?thesis by (simp add: ParseEntry_Cons)
    next
      case last
      with 1(7) Cons show ?thesis by (auto simp: ParseEntry_Cons map_sum_def split: sum.splits)
    next
      case opens
      with 1(2) [OF Cons _ opens] 1(7) Cons show ?thesis by (simp add: ParseEntry_Cons)
    next
      case dir
      with 1(6) [OF Cons dir] 1(7) Cons Consume_shorter [OF dir(3)] show ?thesis
        by (simp add: ParseEntry_Cons directory_token_def)
    next
      case fil
      with 1(5) [OF Cons fil] 1(7) Cons Consume_shorter [OF fil(4)] show ?thesis
        by (simp add: ParseEntry_Cons file_token_def)
    next
      case pat
      with 1(4) [OF Cons pat] 1(7) Cons Consume_shorter [OF pat(5)] ParseString_shorter [of x] show ?thesis
        by (simp add: ParseEntry_Cons path_token_def)
    next
      case skip
      with 1(3) [OF Cons skip] 1(7) Cons show ?thesis by (simp add: ParseEntry_Cons)
    qed
  qed
qed

function ParseEntries :: "string \<Rightarrow> string list \<times> string list \<Rightarrow> (string list \<times> string list) res" where
  "ParseEntries input acc =
     (case char_find (CHR ''{'') input of
        None \<Rightarrow> Inr acc
      | Some position \<Rightarrow>
          (case ParseEntry (drop (position + 1) input) 0 UNKNOWN_ENTRY None acc of
             Inl e \<Rightarrow> Inl e
           | Inr (acc', r) \<Rightarrow> ParseEntries r acc'))"
  by pat_completeness auto
termination
proof (relation "measure (\<lambda>(input, _). length input)", goal_cases)
  case (2 input acc position result acc' r)
  have "length r \<le> length (drop (position + 1) input)"
    using 2(2,3) by (auto dest!: ParseEntry_shorter)
  moreover have "position < length input" using 2(1) by (auto simp: char_find_def find_first_of_Some)
  ultimately show ?case by simp
qed simp

declare ParseEntries.simps [simp del]

definition ParseListResult :: "string \<Rightarrow> string list \<Rightarrow> string list \<Rightarrow> (string list \<times> string list) res" where
  "ParseListResult input files directories = ParseEntries input (files, directories)"

section \<open>The request for a page\<close>

text \<open>\<open>split_char\<close> is \<open>StringUtil::Split\<close> at a character.\<close>

fun NextUrlLoop :: "duckdb_api \<Rightarrow> (string \<Rightarrow> char \<Rightarrow> string list) \<Rightarrow> string \<Rightarrow> string list \<Rightarrow> string res" where
  "NextUrlLoop D split_char content [] =
     Inl (Exn IOException ''Failed to parse Link header for paginated response, pagination support'' [])"
| "NextUrlLoop D split_char content (split # splits) =
     (case split_char split (CHR '';'') of
        [url, rel] \<Rightarrow>
          if Trim D rel = ''rel='' @ [QUOT] @ ''next'' @ [QUOT] then
            let target = Trim D url
            in if \<not> StartsWith D target ''<'' \<or> \<not> EndsWith D target ''>'' then
                 Inl (Exn IOException ''Unexpected link header for huggingface pagination: %s'' [content])
               else Inr (substr target 1 (length target - 2))
          else NextUrlLoop D split_char content splits
      | _ \<Rightarrow> Inl (Exn IOException ''Unexpected link header for huggingface pagination: %s'' [content]))"

definition ParseNextUrlFromLinkHeader :: "duckdb_api \<Rightarrow> (string \<Rightarrow> char \<Rightarrow> string list) \<Rightarrow> string \<Rightarrow> string res" where
  "ParseNextUrlFromLinkHeader D split_char link_header_content =
     NextUrlLoop D split_char link_header_content (split_char link_header_content (CHR '',''))"

record HFTransfer =
  link_header_result :: string
  hf_response :: string

definition hf_handlers :: "(int \<Rightarrow> string list) \<Rightarrow> string \<Rightarrow> HFTransfer GetHandlers" where
  "hf_handlers status_text next_page_url =
     \<lparr>response_handler = (\<lambda>r s.
        if 400 \<le> response_status r then
          (Inl (GetHTTPStatusError status_text (HTTPResponse.truncate r) GET_REQUEST ''listing'' next_page_url []), s)
        else (Inr True, case response_header r ''Link'' of None \<Rightarrow> s | Some link \<Rightarrow> s\<lparr>link_header_result := link\<rparr>)),
      content_handler = (\<lambda>chunk s. (Inr True, s\<lparr>hf_response := hf_response s @ chunk\<rparr>))\<rparr>"

text \<open>\<open>send\<close> is the request without headers of the HTTP client, \<open>error_text\<close> its request error.\<close>

type_synonym 'w hf_sender = "string \<Rightarrow> HFTransfer GetHandlers \<Rightarrow> HFTransfer \<Rightarrow> 'w \<Rightarrow> GetResponse res \<times> HFTransfer \<times> 'w"

definition PageUrl :: "duckdb_api \<Rightarrow> string \<Rightarrow> string \<Rightarrow> string" where
  "PageUrl D url_endpoint next_page_url =
     (let fragment = (if StartsWith D next_page_url url_endpoint then drop (length url_endpoint) next_page_url else next_page_url)
      in url_endpoint @ (if \<not> StartsWith D fragment ''/'' then ''/'' @ fragment else fragment))"

text \<open>The result is the text of the page and the new \<open>next_page_url\<close>.\<close>

definition ListHFRequest ::
  "duckdb_api \<Rightarrow> (string \<Rightarrow> char \<Rightarrow> string list) \<Rightarrow> (int \<Rightarrow> string list) \<Rightarrow> (GetResponse \<Rightarrow> string) \<Rightarrow> 'w hf_sender \<Rightarrow>
     string \<Rightarrow> string \<Rightarrow> 'w \<Rightarrow> (string \<times> string) res \<times> 'w" where
  "ListHFRequest D split_char status_text error_text send url_endpoint next_page_url w =
     (case send (PageUrl D url_endpoint next_page_url) (hf_handlers status_text next_page_url)
          \<lparr>link_header_result = [], hf_response = []\<rparr> w of
        (Inl e, _, w') \<Rightarrow> (Inl e, w')
      | (Inr r, s, w') \<Rightarrow>
          (if request_error r then
             Inl (Exn IOException (error_text r @ '' error for HTTP GET to '' @ [CHR 0x27] @ next_page_url @ [CHR 0x27]) [])
           else if response_status r \<noteq> 200 then
             Inl (GetHTTPStatusError status_text (HTTPResponse.truncate r) GET_REQUEST ''listing'' next_page_url [])
           else
             bind_res (if link_header_result s \<noteq> [] then ParseNextUrlFromLinkHeader D split_char (link_header_result s)
                       else Inr [])
               (\<lambda>next_url. Inr (hf_response s, next_url)), w'))"

end
