(* ===== verification/Hf_Listing.thy ===== *)
theory Hf_Listing
  imports Hf_Files
begin

text \<open>
  What the reader of listings and the URLs of Hugging Face give back: a JSON listing as the server
  writes it is read entry by entry, and an \<open>hf://\<close> URL denotes one repository, revision and path.
\<close>

section \<open>The text of a listing\<close>

text \<open>
  A listing in JSON, without white space between its tokens, as the server writes it. In a text a quote and a backslash are
  escaped, and the control characters.
\<close>

definition hex_digit :: "nat \<Rightarrow> char" where
  "hex_digit n = ''0123456789abcdef'' ! n"

definition escape_char :: "char \<Rightarrow> string" where
  "escape_char c =
     (if c = QUOT \<or> c = CHR 0x5C then [CHR 0x5C, c]
      else if c = CHR 0x08 then [CHR 0x5C, CHR ''b'']
      else if c = CHR 0x09 then [CHR 0x5C, CHR ''t'']
      else if c = CHR 0x0A then [CHR 0x5C, CHR ''n'']
      else if c = CHR 0x0C then [CHR 0x5C, CHR ''f'']
      else if c = CHR 0x0D then [CHR 0x5C, CHR ''r'']
      else if of_char c < (32 :: nat) then [CHR 0x5C, CHR ''u'', CHR ''0'', CHR ''0'', hex_digit (of_char c div 16), hex_digit (of_char c mod 16)]
      else [c])"

definition json_escape :: "string \<Rightarrow> string" where
  "json_escape s = concat (map escape_char s)"

definition in_quotes :: "string \<Rightarrow> string" where
  "in_quotes s = QUOT # json_escape s @ [QUOT]"

text \<open>A value is a number or constant, a text, an array or an object.\<close>

datatype json = Bare string | Text string | Items "json list" | Object "(string \<times> json) list"

fun join_commas :: "string list \<Rightarrow> string" where
  "join_commas [] = []"
| "join_commas [x] = x"
| "join_commas (x # y # xs) = x @ CHR '','' # join_commas (y # xs)"

fun render_json :: "json \<Rightarrow> string" where
  "render_json (Bare s) = s"
| "render_json (Text s) = in_quotes s"
| "render_json (Items vs) = CHR ''['' # join_commas (map render_json vs) @ '']''"
| "render_json (Object fs) = CHR ''{'' # join_commas (map (\<lambda>(name, v). in_quotes name @ CHR '':'' # render_json v) fs) @ ''}''"

text \<open>The fields of an entry, in the order of the server.\<close>

datatype entry_field = TypeField | PathField | OtherField string json

record list_entry =
  entry_is_file :: bool
  entry_path :: string
  entry_fields :: "entry_field list"

fun render_field :: "list_entry \<Rightarrow> entry_field \<Rightarrow> string" where
  "render_field e TypeField = (if entry_is_file e then file_token else directory_token)"
| "render_field e PathField = path_token @ json_escape (entry_path e) @ [QUOT]"
| "render_field e (OtherField name v) = in_quotes name @ CHR '':'' # render_json v"

definition render_entry :: "list_entry \<Rightarrow> string" where
  "render_entry e = CHR ''{'' # join_commas (map (render_field e) (entry_fields e)) @ ''}''"

fun render_entries :: "list_entry list \<Rightarrow> string" where
  "render_entries [] = '']''"
| "render_entries (e # es) = render_entry e @ (if es = [] then [] else '','') @ render_entries es"

definition render_listing :: "list_entry list \<Rightarrow> string" where
  "render_listing es = CHR ''['' # render_entries es"

text \<open>
  What the reader copes with: an entry has a type and a path, no other name is one of these two or holds a quote,
  no other text or name holds a brace, and the path holds no control characters.
\<close>

definition braceless :: "string \<Rightarrow> bool" where
  "braceless s \<longleftrightarrow> CHR ''{'' \<notin> set s \<and> CHR ''}'' \<notin> set s"

definition plain :: "string \<Rightarrow> bool" where
  "plain s \<longleftrightarrow> braceless s \<and> QUOT \<notin> set s"

definition other_name :: "string \<Rightarrow> bool" where
  "other_name name \<longleftrightarrow> plain name \<and> name \<notin> {''type'', ''path''}"

fun json_ok :: "json \<Rightarrow> bool" where
  "json_ok (Bare s) \<longleftrightarrow> plain s"
| "json_ok (Text s) \<longleftrightarrow> braceless s"
| "json_ok (Items vs) \<longleftrightarrow> list_all json_ok vs"
| "json_ok (Object fs) \<longleftrightarrow> list_all (\<lambda>(name, v). other_name name \<and> json_ok v) fs"

fun field_ok :: "entry_field \<Rightarrow> bool" where
  "field_ok (OtherField name v) \<longleftrightarrow> other_name name \<and> json_ok v"
| "field_ok f \<longleftrightarrow> True"

definition entry_ok :: "list_entry \<Rightarrow> bool" where
  "entry_ok e \<longleftrightarrow> TypeField \<in> set (entry_fields e) \<and> PathField \<in> set (entry_fields e) \<and> list_all field_ok (entry_fields e) \<and>
     list_all (\<lambda>c. of_char c \<ge> (32 :: nat)) (entry_path e)"

section \<open>Reading it\<close>

lemma json_escape_simps [simp]: "json_escape [] = []" "json_escape (c # s) = escape_char c @ json_escape s"
  by (simp_all add: json_escape_def)

lemma escape_char_visible: "of_char c \<ge> (32 :: nat) \<Longrightarrow> escape_char c = (if c = QUOT \<or> c = CHR 0x5C then [CHR 0x5C, c] else [c])"
  by (auto simp: escape_char_def)

lemma ParseString_escape:
  "list_all (\<lambda>c. of_char c \<ge> (32 :: nat)) p \<Longrightarrow> ParseString (json_escape p @ QUOT # r) = (p, r)"
  by (induction p) (auto simp: escape_char_visible)

lemma hex_digit_plain: "n < 16 \<Longrightarrow> hex_digit n \<notin> {QUOT, CHR ''{'', CHR ''}''}"
proof -
  assume "n < 16"
  then have "hex_digit n \<in> set ''0123456789abcdef''" unfolding hex_digit_def by (intro nth_mem) simp
  then show ?thesis by auto
qed

lemma escape_char_plain:
  assumes "c \<noteq> QUOT" "c \<noteq> CHR ''{''" "c \<noteq> CHR ''}''"
  shows "plain (escape_char c)"
proof -
  have "of_char c div 16 < (16 :: nat)" "of_char c mod 16 < (16 :: nat)"
    using nat_of_char_less_256 [of c] by linarith+
  with assms show ?thesis
    using hex_digit_plain [of "of_char c div 16"] hex_digit_plain [of "of_char c mod 16"]
    by (auto simp: escape_char_def plain_def braceless_def)
qed

lemma escape_char_first:
  "escape_char c = [c] \<and> c \<noteq> QUOT \<and> c \<noteq> CHR 0x5C \<or> (\<exists>x. escape_char c = CHR 0x5C # x)"
  by (auto simp: escape_char_def)

lemmas tokens = directory_token_def file_token_def path_token_def

lemma Consume_other: "c \<noteq> QUOT \<Longrightarrow> Consume (QUOT # t) (c # s) = None"
  by (simp add: Consume_def)

lemma ParseEntry_char:
  assumes "c \<noteq> QUOT" "c \<noteq> CHR ''{''" "c \<noteq> CHR ''}''"
  shows "ParseEntry (c # r) nested type path acc = ParseEntry r nested type path acc"
  using assms by (simp add: ParseEntry_Cons Consume_other tokens)

lemma ParseEntry_plain: "plain t \<Longrightarrow> ParseEntry (t @ r) nested type path acc = ParseEntry r nested type path acc"
proof (induction t)
  case (Cons c t)
  then have "c \<noteq> QUOT" "c \<noteq> CHR ''{''" "c \<noteq> CHR ''}''" "plain t" by (auto simp: plain_def braceless_def)
  with Cons.IH show ?case by (simp add: ParseEntry_char)
qed simp

text \<open>A token of the reader is found at a quote only where a name ends that is the name of the token.\<close>

lemma token_at_quote:
  assumes "QUOT \<notin> set t" "CHR 0x5C \<notin> set t" "starts_with (t @ QUOT # CHR '':'' # x) (json_escape s @ QUOT # c # r)"
  shows "c = CHR '':'' \<and> s = t"
  using assms
proof (induction s arbitrary: t)
  case Nil
  then show ?case by (cases t) auto
next
  case (Cons y s)
  then show ?case using escape_char_first [of y] by (cases t) auto
qed

lemma ParseEntry_quote:
  assumes "c \<noteq> CHR '':'' \<or> s \<notin> {''type'', ''path''}"
  shows "ParseEntry (QUOT # json_escape s @ QUOT # c # r) nested type path acc =
    ParseEntry (json_escape s @ QUOT # c # r) nested type path acc"
proof -
  have "\<not> starts_with (''type'' @ QUOT # CHR '':'' # x) (json_escape s @ QUOT # c # r)" for x
    using token_at_quote [of "''type''" x s c r] assms by auto
  moreover have "\<not> starts_with (''path'' @ QUOT # CHR '':'' # x) (json_escape s @ QUOT # c # r)" for x
    using token_at_quote [of "''path''" x s c r] assms by auto
  ultimately show ?thesis by (simp add: ParseEntry_Cons tokens Consume_def)
qed

lemma ParseEntry_escaped:
  assumes "braceless s" "c \<noteq> CHR '':'' \<or> QUOT \<notin> set s" "c \<noteq> CHR ''t''" "c \<noteq> CHR ''p''"
  shows "ParseEntry (json_escape s @ QUOT # c # r) nested type path acc = ParseEntry (c # r) nested type path acc"
  using assms(1,2)
proof (induction s)
  case Nil
  then show ?case using assms(3,4) by (simp add: ParseEntry_Cons tokens Consume_def)
next
  case (Cons y s)
  have IH: "ParseEntry (json_escape s @ QUOT # c # r) nested type path acc = ParseEntry (c # r) nested type path acc"
    using Cons by (auto simp: braceless_def)
  show ?case
  proof (cases "y = QUOT")
    case True
    then have "escape_char y = [CHR 0x5C, QUOT]" "c \<noteq> CHR '':''" using Cons.prems(2) by (auto simp: escape_char_def)
    with IH show ?thesis by (simp add: ParseEntry_char ParseEntry_quote)
  next
    case False
    then have "plain (escape_char y)" using Cons.prems(1) by (intro escape_char_plain) (auto simp: braceless_def)
    with IH show ?thesis by (simp add: ParseEntry_plain)
  qed
qed

lemma ParseEntry_quoted:
  assumes "braceless s" "c \<noteq> CHR '':'' \<or> other_name s" "c \<noteq> CHR ''t''" "c \<noteq> CHR ''p''"
  shows "ParseEntry (in_quotes s @ c # r) nested type path acc = ParseEntry (c # r) nested type path acc"
  using ParseEntry_quote [of c s r] ParseEntry_escaped [of s c r] assms
  by (auto simp: in_quotes_def other_name_def plain_def)

text \<open>What follows a value in JSON.\<close>

abbreviation ends_value :: "char \<Rightarrow> bool" where
  "ends_value c \<equiv> c \<in> {CHR '','', CHR ''}'', CHR '']''}"

lemma ParseEntry_join:
  assumes "\<And>x c r. x \<in> set xs \<Longrightarrow> ends_value c \<Longrightarrow> ParseEntry (f x @ c # r) nested type path acc = ParseEntry (c # r) nested type path acc"
    and "ends_value c"
  shows "ParseEntry (join_commas (map f xs) @ c # r) nested type path acc = ParseEntry (c # r) nested type path acc"
  using assms(1)
proof (induction xs rule: induct_list012)
  case (2 x)
  then show ?case using assms(2) by simp
next
  case (3 x y xs)
  then show ?case using 3(1,3) by (simp add: ParseEntry_char)
qed simp

lemma ParseEntry_named:
  assumes "other_name name" "ParseEntry (render_json v @ r) nested type path acc = ParseEntry r' nested type path acc"
  shows "ParseEntry (in_quotes name @ CHR '':'' # render_json v @ r) nested type path acc = ParseEntry r' nested type path acc"
  using assms by (subst ParseEntry_quoted) (auto simp: other_name_def plain_def ParseEntry_char)

lemma ParseEntry_json:
  "json_ok v \<Longrightarrow> ends_value c \<Longrightarrow> ParseEntry (render_json v @ c # r) nested type path acc = ParseEntry (c # r) nested type path acc"
proof (induction v arbitrary: c r nested)
  case (Bare s)
  then show ?case by (simp add: ParseEntry_plain)
next
  case (Text s)
  then show ?case by (auto intro!: ParseEntry_quoted)
next
  case (Items vs)
  have "ParseEntry (join_commas (map render_json vs) @ CHR '']'' # c # r) nested type path acc =
      ParseEntry (CHR '']'' # c # r) nested type path acc"
    by (rule ParseEntry_join) (use Items in \<open>auto simp: list_all_iff\<close>)
  then show ?case by (simp add: ParseEntry_char)
next
  case (Object fs)
  let ?f = "\<lambda>(name, v). in_quotes name @ CHR '':'' # render_json v"
  have "ParseEntry (join_commas (map ?f fs) @ CHR ''}'' # c # r) (nested + 1) type path acc =
      ParseEntry (CHR ''}'' # c # r) (nested + 1) type path acc"
  proof (rule ParseEntry_join)
    fix x c' r' assume x: "x \<in> set fs" "ends_value c'"
    obtain name v where nv: "x = (name, v)" by (cases x)
    have "other_name name" "json_ok v" using Object.prems(1) x(1) by (auto simp: nv list_all_iff)
    with Object.IH [OF x(1), of v c' r' "nested + 1"] x(2)
    show "ParseEntry (?f x @ c' # r') (nested + 1) type path acc = ParseEntry (c' # r') (nested + 1) type path acc"
      by (simp add: nv ParseEntry_named)
  qed simp
  then show ?case by (simp add: ParseEntry_Cons)
qed

text \<open>A field of an entry sets the type or the path, or nothing.\<close>

definition field_type :: "list_entry \<Rightarrow> entry_field list \<Rightarrow> EntryType \<Rightarrow> EntryType" where
  "field_type e fs type = (if TypeField \<in> set fs then if entry_is_file e then FILE_ENTRY else DIRECTORY_ENTRY else type)"

definition field_path :: "list_entry \<Rightarrow> entry_field list \<Rightarrow> string option \<Rightarrow> string option" where
  "field_path e fs path = (if PathField \<in> set fs then Some (entry_path e) else path)"

lemma ParseEntry_field:
  assumes "field_ok f" "list_all (\<lambda>c. of_char c \<ge> (32 :: nat)) (entry_path e)" "ends_value c"
  shows "ParseEntry (render_field e f @ c # r) nested type path acc =
    ParseEntry (c # r) nested (field_type e [f] type) (field_path e [f] path) acc"
proof (cases f)
  case TypeField
  then show ?thesis by (simp add: field_type_def field_path_def tokens ParseEntry_Cons [of QUOT] Consume_def)
next
  case PathField
  then show ?thesis
    using assms(2) by (simp add: field_type_def field_path_def tokens ParseEntry_Cons [of QUOT] Consume_def ParseString_escape)
next
  case (OtherField name v)
  then show ?thesis
    using assms(1,3) by (simp add: field_type_def field_path_def ParseEntry_named ParseEntry_json)
qed

lemma ParseEntry_fields:
  assumes "list_all (\<lambda>c. of_char c \<ge> (32 :: nat)) (entry_path e)"
  shows "list_all field_ok fs \<Longrightarrow> ParseEntry (join_commas (map (render_field e) fs) @ CHR ''}'' # r) nested type path acc =
    ParseEntry (CHR ''}'' # r) nested (field_type e fs type) (field_path e fs path) acc"
proof (induction fs arbitrary: type path rule: induct_list012)
  case 1
  then show ?case by (simp add: field_type_def field_path_def)
next
  case (2 f)
  then show ?case using ParseEntry_field [OF _ assms] by simp
next
  case (3 f g fs)
  have "ParseEntry (join_commas (map (render_field e) (f # g # fs)) @ CHR ''}'' # r) nested type path acc =
      ParseEntry (CHR '','' # join_commas (map (render_field e) (g # fs)) @ CHR ''}'' # r) nested (field_type e [f] type) (field_path e [f] path) acc"
    using 3(3) by (simp add: ParseEntry_field [OF _ assms])
  also have "\<dots> = ParseEntry (CHR ''}'' # r) nested (field_type e (g # fs) (field_type e [f] type)) (field_path e (g # fs) (field_path e [f] path)) acc"
    using 3(2) 3(3) by (simp add: ParseEntry_char)
  finally show ?case by (auto simp: field_type_def field_path_def)
qed

definition entry_added :: "list_entry \<Rightarrow> string list \<times> string list \<Rightarrow> string list \<times> string list" where
  "entry_added e acc =
     (if entry_is_file e then (fst acc @ [''/'' @ entry_path e], snd acc) else (fst acc, snd acc @ [''/'' @ entry_path e]))"

lemma ParseEntry_render:
  assumes "entry_ok e"
  shows "ParseEntry (tl (render_entry e) @ r) 0 UNKNOWN_ENTRY None acc = Inr (entry_added e acc, r)"
  using assms ParseEntry_fields [of e "entry_fields e" r 0 UNKNOWN_ENTRY None acc]
  by (simp add: entry_ok_def render_entry_def field_type_def field_path_def ParseEntry_Cons AppendEntry_def entry_added_def)

lemma ParseEntries_entry:
  assumes "entry_ok e" "CHR ''{'' \<notin> set sep"
  shows "ParseEntries (sep @ render_entry e @ r) acc = ParseEntries r (entry_added e acc)"
proof -
  have e: "render_entry e = CHR ''{'' # tl (render_entry e)" by (simp add: render_entry_def)
  have "char_find (CHR ''{'') (sep @ render_entry e @ r) = Some (length sep)"
    using assms(2) by (subst e) (simp add: char_find_append)
  moreover have "drop (length sep + 1) (sep @ render_entry e @ r) = tl (render_entry e) @ r"
    by (subst e) simp
  ultimately show ?thesis using ParseEntry_render [OF assms(1)] by (subst ParseEntries.simps) simp
qed

lemma ParseEntries_end: "CHR ''{'' \<notin> set sep \<Longrightarrow> ParseEntries sep acc = Inr acc"
  by (subst ParseEntries.simps) (simp add: char_find_def find_first_of_None [THEN iffD2])

lemma ParseEntries_render:
  "list_all entry_ok es \<Longrightarrow> CHR ''{'' \<notin> set sep \<Longrightarrow> ParseEntries (sep @ render_entries es) acc = Inr (fold entry_added es acc)"
proof (induction es arbitrary: sep acc)
  case (Cons e es)
  have "ParseEntries (sep @ render_entries (e # es)) acc =
      ParseEntries ((if es = [] then [] else '','') @ render_entries es) (entry_added e acc)"
    using Cons.prems ParseEntries_entry [of e sep "(if es = [] then [] else '','') @ render_entries es" acc] by simp
  also have "\<dots> = Inr (fold entry_added es (entry_added e acc))"
    using Cons.prems by (intro Cons.IH) auto
  finally show ?case by simp
qed (simp add: ParseEntries_end)

lemma fold_entry_added:
  "fold entry_added es acc =
     (fst acc @ map (\<lambda>e. ''/'' @ entry_path e) (filter entry_is_file es),
      snd acc @ map (\<lambda>e. ''/'' @ entry_path e) (filter (\<lambda>e. \<not> entry_is_file e) es))"
  by (induction es arbitrary: acc) (simp_all add: entry_added_def)

text \<open>
  C35: A listing is read as it was written. Its entries are JSON objects without white space between the tokens, with their type and path in any
  order among further fields of any JSON value; only the names \<open>type\<close> and \<open>path\<close> do not occur again in them, other names hold no
  quotes, and other names and texts hold no braces. Paths hold any characters but control characters, which the reader would
  leave escaped. Then the reader finds every file and every directory, once and in the order of the listing.
\<close>

theorem ParseListResult_entries:
  assumes "list_all entry_ok es"
  shows "ParseListResult (render_listing es) files directories =
    Inr (files @ map (\<lambda>e. ''/'' @ entry_path e) (filter entry_is_file es),
         directories @ map (\<lambda>e. ''/'' @ entry_path e) (filter (\<lambda>e. \<not> entry_is_file e) es))"
  using ParseEntries_render [OF assms, of "''[''" "(files, directories)"]
  by (simp add: ParseListResult_def render_listing_def fold_entry_added)

definition sample_entries :: "list_entry list" where
  "sample_entries =
     [\<lparr>entry_is_file = True, entry_path = ''d/a'' @ [QUOT] @ ''}b'',
       entry_fields = [OtherField ''oid'' (Text (QUOT # ''path'' @ [QUOT])), PathField,
         OtherField ''lfs'' (Object [(''size'', Bare ''42''), (''tags'', Items [Text ''x'', Object []])]), TypeField]\<rparr>,
      \<lparr>entry_is_file = False, entry_path = ''d/e'', entry_fields = [TypeField, PathField]\<rparr>]"

theorem ParseListResult_entries_witness:
  "list_all entry_ok sample_entries \<and>
   ParseListResult (render_listing sample_entries) [] [''/d''] = Inr ([''/d/a'' @ [QUOT] @ ''}b''], [''/d'', ''/d/e''])"
proof -
  have "list_all entry_ok sample_entries"
    by (simp add: sample_entries_def entry_ok_def other_name_def plain_def braceless_def)
  then show ?thesis
    using ParseListResult_entries [of sample_entries "[]" "[''/d'']"] by (simp add: sample_entries_def)
qed

text \<open>Braces are counted in texts as well: a brace in the text of another field makes the reader refuse the listing.\<close>

lemma brace_in_text:
  "ParseListResult (render_listing [\<lparr>entry_is_file = True, entry_path = ''a'',
      entry_fields = [TypeField, OtherField ''title'' (Text ''}''), PathField]\<rparr>]) [] [] =
    Inl (Exn IOException ''Failed to parse list result'' [])"
proof -
  let ?r = "tl (in_quotes ''}'') @ CHR '','' # path_token @ ''a'' @ QUOT # ''}]''"
  have listing: "render_listing [\<lparr>entry_is_file = True, entry_path = ''a'',
      entry_fields = [TypeField, OtherField ''title'' (Text ''}''), PathField]\<rparr>] =
      ''[{'' @ file_token @ CHR '','' # in_quotes ''title'' @ CHR '':'' # QUOT # ?r"
    by (simp add: render_listing_def render_entry_def in_quotes_def escape_char_visible)
  have "ParseEntry (file_token @ CHR '','' # in_quotes ''title'' @ CHR '':'' # QUOT # ?r) 0 UNKNOWN_ENTRY None ([], []) =
      ParseEntry (QUOT # ?r) 0 FILE_ENTRY None ([], [])"
    by (simp add: tokens ParseEntry_Cons [of QUOT] Consume_def ParseEntry_char in_quotes_def escape_char_visible)
  also have "\<dots> = Inl (Exn IOException ''Failed to parse list result'' [])"
    by (simp add: in_quotes_def escape_char_visible ParseEntry_Cons tokens Consume_def AppendEntry_def)
  finally show ?thesis
    unfolding listing ParseListResult_def by (subst ParseEntries.simps) (simp add: char_find_append char_find_def)
qed

section \<open>URLs\<close>

lemma find_from_at:
  "url = a @ b @ c # r \<Longrightarrow> n = length a \<Longrightarrow> c \<notin> set b \<Longrightarrow> find_from c url n = Some (n + length b)"
  by (simp add: find_from_append)

lemma find_from_in:
  assumes "url = a @ b @ r" "n = length a"
  shows "(case find_from c url n of Some i \<Rightarrow> if i < n + length b then Some i else None | None \<Rightarrow> None) =
    map_option (\<lambda>i. n + i) (char_find c b)"
proof (cases "char_find c b")
  case None
  then have b: "c \<notin> set b" by (auto simp: char_find_def find_first_of_None)
  have "length b \<le> i" if "char_find c (b @ r) = Some i" for i
  proof (rule ccontr)
    assume "\<not> length b \<le> i"
    with that have "b ! i = c" "i < length b" by (auto simp: char_find_def find_first_of_Some nth_append)
    with b show False by auto
  qed
  with None assms show ?thesis by (auto simp: find_from_def split: option.splits)
next
  case (Some i)
  then have "char_find c (b @ r) = Some i" "i < length b"
    by (auto simp: char_find_def find_first_of_Some nth_append)
  with Some assms show ?thesis by (simp add: find_from_def)
qed

lemma substr_at: "url = a @ b @ r \<Longrightarrow> n = length a \<Longrightarrow> m = length b \<Longrightarrow> substr url n m = b"
  by (simp add: substr_def)

lemma drop_at: "url = a @ r \<Longrightarrow> n = length a \<Longrightarrow> drop n url = r"
  by simp

lemma HFUrlParse_parts:
  assumes D: "byte_strings D" and t: "t = ''datasets'' \<or> t = ''spaces''"
    and parts: "CHR ''/'' \<notin> set user" "CHR ''/'' \<notin> set name"
  shows "HFUrlParse D (''hf://'' @ t @ ''/'' @ user @ ''/'' @ name @ ''/'' @ p) =
    (let u = init_hf_url\<lparr>hf_repo_type := t, hf_path := ''/'' @ p\<rparr>
     in Inr (case char_find (CHR ''@'') name of
          None \<Rightarrow> u\<lparr>hf_repository := user @ ''/'' @ name\<rparr>
        | Some n \<Rightarrow> u\<lparr>hf_repository := user @ ''/'' @ take n name, hf_revision := drop (n + 1) name\<rparr>))"
proof -
  obtain url where url: "url = ''hf://'' @ t @ ''/'' @ user @ ''/'' @ name @ ''/'' @ p" by blast
  obtain d1 d2 d3 where d: "d1 = 5 + length t" "d2 = d1 + 1 + length user" "d3 = d2 + 1 + length name" by blast
  have t': "CHR ''/'' \<notin> set t" using t by auto
  have 1: "find_from (CHR ''/'') url 5 = Some d1"
    unfolding d by (rule find_from_at [where a = "''hf://''", OF _ _ t']) (simp_all add: url)
  have 2: "find_from (CHR ''/'') url (d1 + 1) = Some d2"
    unfolding d(2) by (rule find_from_at [where a = "''hf://'' @ t @ ''/''", OF _ _ parts(1)]) (simp_all add: url d)
  have 3: "find_from (CHR ''/'') url (d2 + 1) = Some d3"
    unfolding d(3) by (rule find_from_at [where a = "''hf://'' @ t @ ''/'' @ user @ ''/''", OF _ _ parts(2)]) (simp_all add: url d)
  have 4: "(case find_from (CHR ''@'') url (d2 + 1) of Some a \<Rightarrow> if a < d3 then Some a else None | None \<Rightarrow> None) =
      map_option (\<lambda>i. d2 + 1 + i) (char_find (CHR ''@'') name)"
    unfolding d(3) by (rule find_from_in [where a = "''hf://'' @ t @ ''/'' @ user @ ''/''"]) (simp_all add: url d)
  have type: "substr url 5 (d1 - 5) = t"
    by (rule substr_at [where a = "''hf://''"]) (simp_all add: url d)
  have rest: "drop d3 url = ''/'' @ p"
    by (rule drop_at [where a = "''hf://'' @ t @ ''/'' @ user @ ''/'' @ name"]) (simp_all add: url d)
  have whole: "substr url (d1 + 1) (d3 - d1 - 1) = user @ ''/'' @ name"
    by (rule substr_at [where a = "''hf://'' @ t @ ''/''"]) (simp_all add: url d)
  have revision: "substr url (d1 + 1) (d2 + 1 + n - d1 - 1) = user @ ''/'' @ take n name"
    "substr url (d2 + 1 + n + 1) (d3 - (d2 + 1 + n) - 1) = drop (n + 1) name"
    if "char_find (CHR ''@'') name = Some n" for n
  proof -
    have n: "n < length name" using that by (simp add: char_find_def find_first_of_Some)
    have name: "name = take n name @ name ! n # drop (n + 1) name" using n by (simp add: id_take_nth_drop)
    show "substr url (d1 + 1) (d2 + 1 + n - d1 - 1) = user @ ''/'' @ take n name"
      using n name by (intro substr_at [where a = "''hf://'' @ t @ ''/''" and r = "name ! n # drop (n + 1) name @ ''/'' @ p"])
        (simp_all add: url d)
    show "substr url (d2 + 1 + n + 1) (d3 - (d2 + 1 + n) - 1) = drop (n + 1) name"
      using n name by (intro substr_at [where a = "''hf://'' @ t @ ''/'' @ user @ ''/'' @ take n name @ [name ! n]" and r = "''/'' @ p"])
        (simp_all add: url d)
  qed
  have start: "StartsWith D url ''hf://''" using D by (simp add: byte_strings_def url)
  show ?thesis
    unfolding url [symmetric] HFUrlParse_def Let_def using start t 1 2 3 4 type rest whole revision
    by (auto split: option.splits)
qed

definition hf_url_ok :: "ParsedHFUrl \<Rightarrow> bool" where
  "hf_url_ok u \<longleftrightarrow>
     hf_endpoint u = hf_endpoint init_hf_url \<and> hf_repo_type u \<in> {''datasets'', ''spaces''} \<and>
     CHR ''/'' \<notin> set (hf_revision u) \<and>
     (\<exists>user name. hf_repository u = user @ ''/'' @ name \<and> CHR ''/'' \<notin> set user \<and> CHR ''/'' \<notin> set name \<and> CHR ''@'' \<notin> set name) \<and>
     (\<exists>p. hf_path u = ''/'' @ p)"

lemma HFUrlParse_GetHFUrl_inverse:
  assumes "byte_strings D" "hf_url_ok u"
  shows "HFUrlParse D (GetHFUrl u) = Inr u"
proof -
  obtain user name p where u: "hf_repository u = user @ ''/'' @ name" "CHR ''/'' \<notin> set user" "CHR ''/'' \<notin> set name"
    "CHR ''@'' \<notin> set name" "hf_path u = ''/'' @ p" "hf_endpoint u = hf_endpoint init_hf_url"
    "hf_repo_type u = ''datasets'' \<or> hf_repo_type u = ''spaces''" "CHR ''/'' \<notin> set (hf_revision u)"
    using assms(2) by (auto simp: hf_url_ok_def)
  show ?thesis
  proof (cases "hf_revision u = ''main''")
    case True
    have "char_find (CHR ''@'') name = None" using u(4) by (simp add: char_find_def find_first_of_None)
    with HFUrlParse_parts [OF assms(1) u(7,2,3), of p] True u show ?thesis
      by (auto simp: GetHFUrl_def init_hf_url_def Let_def)
  next
    case False
    have "char_find (CHR ''@'') (name @ ''@'' @ hf_revision u) = Some (length name)"
      using u(4) by (simp add: char_find_append)
    with HFUrlParse_parts [OF assms(1) u(7,2), of "name @ ''@'' @ hf_revision u" p] False u show ?thesis
      by (auto simp: GetHFUrl_def init_hf_url_def Let_def)
  qed
qed

text \<open>
  The URL written for a file of a repository is read back to the same repository, revision,
  type and path, whether the revision is the default one or not; only a repository or a revision
  whose name holds a separator could be mistaken.
\<close>

theorem HFUrlParse_GetHFUrl:
  assumes "byte_strings D" "hf_url_ok u"
  shows "HFUrlParse D (GetHFUrl u) = Inr u"
  using assms by (rule HFUrlParse_GetHFUrl_inverse)

theorem HFUrlParse_GetHFUrl_witness:
  "HFUrlParse std_api (''hf://datasets/me/data@v1.0/d/a.csv'') =
     Inr (init_hf_url\<lparr>hf_repository := ''me/data'', hf_revision := ''v1.0'', hf_path := ''/d/a.csv''\<rparr>)"
proof -
  let ?u = "init_hf_url\<lparr>hf_repository := ''me/data'', hf_revision := ''v1.0'', hf_path := ''/d/a.csv''\<rparr>"
  have "hf_url_ok ?u"
    unfolding hf_url_ok_def
    by (intro conjI exI [of _ "''me''"] exI [of _ "''data''"] exI [of _ "''d/a.csv''"]) (simp_all add: init_hf_url_def)
  then show ?thesis using HFUrlParse_GetHFUrl [of std_api ?u] by (simp add: GetHFUrl_def init_hf_url_def)
qed

end
