(* ===== verification/Hf_Glob.thy ===== *)
theory Hf_Glob
  imports Hf_Listing S3_Glob_Complete
begin

text \<open>
  The glob over \<open>hf://\<close> paths (\<open>HuggingFaceFileSystem::Glob\<close> of src/src/hffs.cpp): the walk over the
  directories and pages of a repository, its end and its result.
\<close>

section \<open>The matcher\<close>

text \<open>\<open>HFMatchStar\<close> is the inner loop at a \<open>**\<close> that is not the last component.\<close>

function HFMatch :: "duckdb_api \<Rightarrow> string list \<Rightarrow> string list \<Rightarrow> bool"
  and HFMatchStar :: "duckdb_api \<Rightarrow> string list \<Rightarrow> string list \<Rightarrow> bool" where
  "HFMatch D k pattern =
     (case (k, pattern) of
        (c # ks, p # ps) \<Rightarrow>
          if p = ''**'' then (if ps = [] then True else HFMatchStar D k ps)
          else if \<not> Glob D c p then False
          else HFMatch D ks ps
      | _ \<Rightarrow> k = [] \<and> pattern = [])"
| "HFMatchStar D k ps =
     (case k of
        [] \<Rightarrow> False
      | c # ks \<Rightarrow> if HFMatch D k ps then True else HFMatchStar D ks ps)"
  by pat_completeness auto
termination
  by (relation "inv_image (less_than <*lex*> less_than <*lex*> less_than)
        (\<lambda>x. case x of
           Inl (D, k, p) \<Rightarrow> (length p, length k, 0 :: nat)
         | Inr (D, k, p) \<Rightarrow> (length p, length k, 1))") auto

declare HFMatch.simps [simp del] HFMatchStar.simps [simp del]

section \<open>The glob\<close>

text \<open>
  The loop over directories and pages: \<open>list_page\<close> is \<open>ListHFRequest\<close> at the endpoint of the URL and
  \<open>tree_url\<close> gives the first page of a directory. The loop does not end when the pages do not.
\<close>

partial_function (option) HFGlobLoop ::
  "(string \<Rightarrow> 'w \<Rightarrow> (string \<times> string) res \<times> 'w) \<Rightarrow> (string \<Rightarrow> string) \<Rightarrow> string list \<Rightarrow> string list \<Rightarrow> string \<Rightarrow> 'w \<Rightarrow>
     (string list res \<times> 'w) option" where
  "HFGlobLoop list_page tree_url files dirs next_page_url w =
     (if next_page_url = [] \<and> dirs = [] then Some (Inr files, w)
      else
        let url = (if next_page_url = [] then tree_url (last dirs) else next_page_url);
            dirs' = (if next_page_url = [] then butlast dirs else dirs)
        in case list_page url w of
             (Inl e, w') \<Rightarrow> Some (Inl e, w')
           | (Inr (text, next_url), w') \<Rightarrow>
               (case ParseListResult text files dirs' of
                  Inl e \<Rightarrow> Some (Inl e, w')
                | Inr (files', dirs'') \<Rightarrow> HFGlobLoop list_page tree_url files' dirs'' next_url w'))"

definition SharedPath :: "string \<Rightarrow> nat \<Rightarrow> string" where
  "SharedPath path first_wildcard_pos =
     (let shared_path = take first_wildcard_pos path
      in case char_rfind (CHR ''/'') shared_path of None \<Rightarrow> [] | Some last_path_slash \<Rightarrow> take last_path_slash shared_path)"

definition HFMatching :: "duckdb_api \<Rightarrow> ParsedHFUrl \<Rightarrow> string list \<Rightarrow> string list" where
  "HFMatching D url files =
     map (\<lambda>file. GetHFUrl (url\<lparr>hf_path := file\<rparr>))
       (filter (\<lambda>file. HFMatch D (Split D file ''/'') (Split D (hf_path url) ''/'')) files)"

definition HFGlob ::
  "duckdb_api \<Rightarrow> (string \<Rightarrow> string \<Rightarrow> string) \<Rightarrow> (u64 \<Rightarrow> string) \<Rightarrow> (string \<Rightarrow> string \<Rightarrow> 'w \<Rightarrow> (string \<times> string) res \<times> 'w) \<Rightarrow>
     HTTPFSParams \<Rightarrow> string \<Rightarrow> 'w \<Rightarrow> (string list res \<times> 'w) option" where
  "HFGlob D join text_of list_page params path w =
     (case HFUrlParse D path of
        Inl e \<Rightarrow> Some (Inl e, w)
      | Inr url \<Rightarrow>
          (case find_first_of (''*['' @ [CHR 0x5C]) (hf_path url) of
             None \<Rightarrow> Some (Inr [path], w)
           | Some first_wildcard_pos \<Rightarrow>
               (case HFGlobLoop (list_page (hf_endpoint url))
                    (\<lambda>dir. GetTreeUrl join text_of (url\<lparr>hf_path := dir\<rparr>) (hf_max_per_page params))
                    [] [SharedPath (hf_path url) first_wildcard_pos] [] w of
                  None \<Rightarrow> None
                | Some (Inl e, w') \<Rightarrow> Some (Inl e, w')
                | Some (Inr files, w') \<Rightarrow> Some (Inr (HFMatching D url files), w'))))"

section \<open>The matcher is the one of S3\<close>

lemma HFMatch_Match:
  "HFMatch D k pattern = Match D MATCH_COMPLETE k pattern"
  "HFMatchStar D k ps = StarLoop D MATCH_COMPLETE k ps"
proof (induction D k pattern and D k ps rule: HFMatch_HFMatchStar.induct)
  case (1 D k pattern)
  then show ?case
    by (cases k; cases pattern) (auto simp: HFMatch.simps match_simps)
next
  case (2 D k ps)
  then show ?case
    by (cases k) (auto simp: HFMatchStar.simps StarLoop.simps)
qed

lemma HFMatch_selects: "HFMatch D k pattern \<longleftrightarrow> selects D pattern k"
  by (simp add: HFMatch_Match Match_complete)

section \<open>The walk\<close>

text \<open>
  The contract of the server: \<open>pages_of L url fs ds\<close> says that the pages from \<open>url\<close> on list the files
  \<open>fs\<close> and the directories \<open>ds\<close>, and \<open>tree_of\<close> that a directory is the root of a finite tree.
\<close>

inductive pages_of :: "(string \<Rightarrow> 'w \<Rightarrow> (string \<times> string) res \<times> 'w) \<Rightarrow> string \<Rightarrow> string list \<Rightarrow> string list \<Rightarrow> bool"
  for L where
  last_page: "(\<And>w. fst (L url w) = Inr (text, [])) \<Longrightarrow>
    (\<And>files dirs. ParseListResult text files dirs = Inr (files @ fs, dirs @ ds)) \<Longrightarrow> pages_of L url fs ds"
| more_pages: "(\<And>w. fst (L url w) = Inr (text, next_url)) \<Longrightarrow> next_url \<noteq> [] \<Longrightarrow>
    (\<And>files dirs. ParseListResult text files dirs = Inr (files @ fs, dirs @ ds)) \<Longrightarrow> pages_of L next_url fs' ds' \<Longrightarrow>
    pages_of L url (fs @ fs') (ds @ ds')"

inductive tree_of ::
  "(string \<Rightarrow> 'w \<Rightarrow> (string \<times> string) res \<times> 'w) \<Rightarrow> (string \<Rightarrow> string) \<Rightarrow> string \<Rightarrow> string list \<Rightarrow> bool"
  for L tree_url where
  tree_node: "tree_url d \<noteq> [] \<Longrightarrow> pages_of L (tree_url d) fs ds \<Longrightarrow> list_all2 (tree_of L tree_url) ds fss \<Longrightarrow>
    tree_of L tree_url d (fs @ concat fss)"

lemma HFGlobLoop_page:
  assumes "next_page_url \<noteq> []" "\<And>w. fst (L next_page_url w) = Inr (text, next_url)"
    and "\<And>files dirs. ParseListResult text files dirs = Inr (files @ fs, dirs @ ds)"
  shows "HFGlobLoop L tree_url files dirs next_page_url w =
    HFGlobLoop L tree_url (files @ fs) (dirs @ ds) next_url (snd (L next_page_url w))"
  using assms(1,3) assms(2) [of w]
  by (subst HFGlobLoop.simps) (cases "L next_page_url w", simp add: Let_def)

lemma HFGlobLoop_dir:
  "tree_url d \<noteq> [] \<Longrightarrow> HFGlobLoop L tree_url files (dirs @ [d]) [] w = HFGlobLoop L tree_url files dirs (tree_url d) w"
  by (subst (1 2) HFGlobLoop.simps) (simp add: Let_def)

lemma HFGlobLoop_pages:
  "pages_of L url fs ds \<Longrightarrow> url \<noteq> [] \<Longrightarrow>
    \<exists>w'. HFGlobLoop L tree_url files dirs url w = HFGlobLoop L tree_url (files @ fs) (dirs @ ds) [] w'"
proof (induction arbitrary: files dirs w rule: pages_of.induct)
  case (last_page url t fs ds)
  then show ?case using HFGlobLoop_page [of url L t "[]" fs ds] by blast
next
  case (more_pages url t next_url fs ds fs2 ds2)
  have "HFGlobLoop L tree_url files dirs url w = HFGlobLoop L tree_url (files @ fs) (dirs @ ds) next_url (snd (L url w))"
    using more_pages.prems more_pages.hyps(1,3) by (rule HFGlobLoop_page)
  moreover obtain w' where "HFGlobLoop L tree_url (files @ fs) (dirs @ ds) next_url (snd (L url w)) =
      HFGlobLoop L tree_url ((files @ fs) @ fs2) ((dirs @ ds) @ ds2) [] w'"
    using more_pages.IH [OF more_pages.hyps(2)] by blast
  ultimately show ?case by auto
qed

lemma HFGlobLoop_tree:
  "tree_of L tree_url d gs \<Longrightarrow>
    \<exists>files' w'. HFGlobLoop L tree_url files (dirs @ [d]) [] w = HFGlobLoop L tree_url files' dirs [] w' \<and>
      mset files' = mset files + mset gs"
proof (induction arbitrary: files dirs w rule: tree_of.induct)
  case (tree_node d fs ds fss)
  have dirs: "\<exists>files' w'. HFGlobLoop L tree_url files (dirs @ ds) [] w = HFGlobLoop L tree_url files' dirs [] w' \<and>
      mset files' = mset files + mset (concat fss)" for files w
    using tree_node.IH
  proof (induction ds arbitrary: fss files w rule: rev_induct)
    case Nil
    then show ?case by auto
  next
    case (snoc x xs)
    then obtain fss' g where fss: "fss = fss' @ [g]" "list_all2 (\<lambda>d gs. tree_of L tree_url d gs \<and>
        (\<forall>files dirs w. \<exists>files' w'. HFGlobLoop L tree_url files (dirs @ [d]) [] w = HFGlobLoop L tree_url files' dirs [] w' \<and>
          mset files' = mset files + mset gs)) xs fss'"
      "\<forall>files dirs w. \<exists>files' w'. HFGlobLoop L tree_url files (dirs @ [x]) [] w = HFGlobLoop L tree_url files' dirs [] w' \<and>
          mset files' = mset files + mset g"
      by (auto simp: list_all2_append1 list_all2_Cons1)
    obtain files1 w1 where 1: "HFGlobLoop L tree_url files ((dirs @ xs) @ [x]) [] w = HFGlobLoop L tree_url files1 (dirs @ xs) [] w1"
      "mset files1 = mset files + mset g" using fss(3) by blast
    obtain files2 w2 where 2: "HFGlobLoop L tree_url files1 (dirs @ xs) [] w1 = HFGlobLoop L tree_url files2 dirs [] w2"
      "mset files2 = mset files1 + mset (concat fss')" using snoc.IH [OF fss(2)] by blast
    show ?case using 1 2 by (intro exI [of _ files2] exI [of _ w2]) (simp add: fss(1))
  qed
  obtain w1 where "HFGlobLoop L tree_url files dirs (tree_url d) w = HFGlobLoop L tree_url (files @ fs) (dirs @ ds) [] w1"
    using HFGlobLoop_pages [OF tree_node.hyps(2,1)] by blast
  moreover obtain files2 w2 where "HFGlobLoop L tree_url (files @ fs) (dirs @ ds) [] w1 = HFGlobLoop L tree_url files2 dirs [] w2"
    "mset files2 = mset (files @ fs) + mset (concat fss)" using dirs by blast
  moreover have "HFGlobLoop L tree_url files (dirs @ [d]) [] w = HFGlobLoop L tree_url files dirs (tree_url d) w"
    using tree_node.hyps(1) by (rule HFGlobLoop_dir)
  ultimately show ?case by (intro exI [of _ files2] exI [of _ w2]) simp
qed

text \<open>
  C33: The glob over a repository returns, when the directory below its fixed part is a finite tree
  whatever its pages, and the result are the URLs of exactly the files of the tree that the pattern
  describes, each once for every time the tree lists it.
\<close>

theorem HFGlob_complete:
  assumes "HFUrlParse D path = Inr url" "find_first_of (''*['' @ [CHR 0x5C]) (hf_path url) = Some n"
    and "tree_of (list_page (hf_endpoint url))
      (\<lambda>dir. GetTreeUrl join text_of (url\<lparr>hf_path := dir\<rparr>) (hf_max_per_page params)) (SharedPath (hf_path url) n) gs"
  shows "\<exists>result w'. HFGlob D join text_of list_page params path w = Some (Inr result, w') \<and>
    mset result = image_mset (\<lambda>file. GetHFUrl (url\<lparr>hf_path := file\<rparr>))
      (filter_mset (\<lambda>file. selects D (Split D (hf_path url) ''/'') (Split D file ''/'')) (mset gs))"
proof -
  let ?L = "list_page (hf_endpoint url)"
  let ?tree = "\<lambda>dir. GetTreeUrl join text_of (url\<lparr>hf_path := dir\<rparr>) (hf_max_per_page params)"
  obtain files w' where loop: "HFGlobLoop ?L ?tree [] ([] @ [SharedPath (hf_path url) n]) [] w = HFGlobLoop ?L ?tree files [] [] w'"
    "mset files = mset gs"
    using HFGlobLoop_tree [OF assms(3), of "[]" "[]" w] by auto
  have "HFGlobLoop ?L ?tree files [] [] w' = Some (Inr files, w')" by (subst HFGlobLoop.simps) simp
  with loop(1) have "HFGlob D join text_of list_page params path w = Some (Inr (HFMatching D url files), w')"
    using assms(1,2) by (simp add: HFGlob_def)
  moreover have "mset (HFMatching D url files) = image_mset (\<lambda>file. GetHFUrl (url\<lparr>hf_path := file\<rparr>))
      (filter_mset (\<lambda>file. selects D (Split D (hf_path url) ''/'') (Split D file ''/'')) (mset gs))"
    by (simp add: HFMatching_def HFMatch_selects loop(2))
  ultimately show ?thesis by blast
qed

text \<open>
  The handlers of a listing keep what an attempt received before it was dropped: the text of a page
  that took two attempts holds the pieces of both.
\<close>

lemma hf_response_attempts:
  "list_all (\<lambda>a. response_status (fst a) < 400) as \<Longrightarrow>
     hf_response (run_attempts (hf_handlers status_text url) as s) = hf_response s @ concat (map (concat \<circ> snd) as)"
proof (induction as arbitrary: s)
  case (Cons a as)
  have content: "hf_response (snd (run_content (hf_handlers status_text url) chunks s)) = hf_response s @ concat chunks" for chunks s
    by (induction chunks arbitrary: s) (simp_all add: hf_handlers_def)
  have "hf_response (snd (run_attempt (hf_handlers status_text url) a s)) = hf_response s @ concat (snd a)"
    using Cons.prems content by (simp add: run_attempt_def hf_handlers_def split: option.splits)
  with Cons show ?case by (simp add: run_attempts_def)
qed (simp add: run_attempts_def)

section \<open>A repository\<close>

text \<open>A repository with two pages at the top and one directory.\<close>

definition hf_entry :: "bool \<Rightarrow> string \<Rightarrow> list_entry" where
  "hf_entry is_file p = \<lparr>entry_is_file = is_file, entry_path = p, entry_fields = [TypeField, PathField]\<rparr>"

definition sample_join :: "string \<Rightarrow> string \<Rightarrow> string" where
  "sample_join a b = a @ ''/'' @ b"

definition repo_url :: "string \<Rightarrow> string" where
  "repo_url dir = ''https://huggingface.co/api/datasets/me/data/tree/main'' @ dir"

definition sample_page :: "string \<Rightarrow> string \<Rightarrow> unit \<Rightarrow> (string \<times> string) res \<times> unit" where
  "sample_page base url w =
     (Inr (if url = repo_url [] then (render_listing [hf_entry True ''a.csv'', hf_entry False ''d''], ''p2'')
           else if url = ''p2'' then (render_listing [hf_entry True ''b.txt''], [])
           else (render_listing [hf_entry True ''d/c.csv''], [])), w)"

lemma hf_entry_simps [simp]: "entry_is_file (hf_entry f p) = f" "entry_path (hf_entry f p) = p" "entry_ok (hf_entry f p) = list_all (\<lambda>c. of_char c \<ge> (32 :: nat)) p"
  by (simp_all add: hf_entry_def entry_ok_def)

lemma sample_tree: "tree_of (sample_page e) repo_url [] [''/a.csv'', ''/b.txt'', ''/d/c.csv'']"
proof -
  have page: "ParseListResult (render_listing es) files dirs =
      Inr (files @ map (\<lambda>e. ''/'' @ entry_path e) (filter entry_is_file es),
           dirs @ map (\<lambda>e. ''/'' @ entry_path e) (filter (\<lambda>e. \<not> entry_is_file e) es))"
    if "list_all entry_ok es" for es files dirs
    using ParseEntries_render [OF that, of "''[''" "(files, dirs)"]
    by (simp add: ParseListResult_def render_listing_def fold_entry_added)
  have "pages_of (sample_page e) ''p2'' [''/b.txt''] []"
    by (rule last_page) (simp add: sample_page_def repo_url_def page)+
  then have top: "pages_of (sample_page e) (repo_url []) ([''/a.csv''] @ [''/b.txt'']) ([''/d''] @ [])"
    by (rule more_pages [rotated 3]) (simp add: sample_page_def page)+
  have "pages_of (sample_page e) (repo_url ''/d'') [''/d/c.csv''] []"
    by (rule last_page) (simp add: sample_page_def repo_url_def page)+
  then have "tree_of (sample_page e) repo_url ''/d'' ([''/d/c.csv''] @ concat [])"
    by (rule tree_node [rotated]) (simp_all add: repo_url_def)
  then have "list_all2 (tree_of (sample_page e) repo_url) ([''/d''] @ []) [[''/d/c.csv'']]" by simp
  then have "tree_of (sample_page e) repo_url [] (([''/a.csv''] @ [''/b.txt'']) @ concat [[''/d/c.csv'']])"
    by (rule tree_node [rotated 2]) (simp add: repo_url_def, rule top)
  then show ?thesis by simp
qed

definition hf_api :: duckdb_api where
  "hf_api = std_api\<lparr>Split := Split glob_api, Glob := (\<lambda>s p. s = p \<or> p = ''*.csv'' \<and> ends_with ''.csv'' s)\<rparr>"

theorem HFGlob_complete_witness:
  "\<exists>result w'. HFGlob hf_api sample_join (\<lambda>_. []) sample_page (sample_params\<lparr>hf_max_per_page := 0\<rparr>)
       ''hf://datasets/me/data/*.csv'' () = Some (Inr result, w') \<and>
     mset result = {#''hf://datasets/me/data/a.csv''#}"
proof -
  let ?url = "init_hf_url\<lparr>hf_repository := ''me/data'', hf_path := ''/*.csv''\<rparr>"
  have D: "byte_strings hf_api"
    by (simp add: hf_api_def byte_strings_def std_api_def std_tolower_def less_eq_char_def)
  have "HFUrlParse hf_api (''hf://'' @ ''datasets'' @ ''/'' @ ''me'' @ ''/'' @ ''data'' @ ''/'' @ ''*.csv'') = Inr ?url"
    by (subst HFUrlParse_parts [OF D]) (simp_all add: char_find_def init_hf_url_def)
  then have parse: "HFUrlParse hf_api ''hf://datasets/me/data/*.csv'' = Inr ?url" by simp
  have tree: "(\<lambda>dir. GetTreeUrl sample_join (\<lambda>_. []) (?url\<lparr>hf_path := dir\<rparr>) (hf_max_per_page (sample_params\<lparr>hf_max_per_page := 0\<rparr>))) = repo_url"
    by (simp add: GetTreeUrl_def sample_join_def init_hf_url_def repo_url_def fun_eq_iff)
  have "SharedPath (hf_path ?url) 1 = []" by (simp add: SharedPath_def)
  then have "tree_of (sample_page (hf_endpoint ?url))
      (\<lambda>dir. GetTreeUrl sample_join (\<lambda>_. []) (?url\<lparr>hf_path := dir\<rparr>) (hf_max_per_page (sample_params\<lparr>hf_max_per_page := 0\<rparr>)))
      (SharedPath (hf_path ?url) 1) [''/a.csv'', ''/b.txt'', ''/d/c.csv'']"
    unfolding tree using sample_tree by simp
  from HFGlob_complete [where list_page = sample_page and w = "()", OF parse _ this] obtain result w' where
    "HFGlob hf_api sample_join (\<lambda>_. []) sample_page (sample_params\<lparr>hf_max_per_page := 0\<rparr>) ''hf://datasets/me/data/*.csv'' () =
       Some (Inr result, w')"
    "mset result = image_mset (\<lambda>file. GetHFUrl (?url\<lparr>hf_path := file\<rparr>))
      (filter_mset (\<lambda>file. selects hf_api (Split hf_api (hf_path ?url) ''/'') (Split hf_api file ''/''))
        (mset [''/a.csv'', ''/b.txt'', ''/d/c.csv'']))"
    by auto
  then show ?thesis
    by (simp add: Match_complete [symmetric] match_simps hf_api_def sample_Split ends_with_def GetHFUrl_def init_hf_url_def Let_def)
qed

end
