(* ===== verification/Http_Session.thy ===== *)
theory Http_Session
  imports Http_Params "HOL-Library.Multiset"
begin

text \<open>
  The session of a file's requests (src/src/http/http_request_session.cpp): the snapshot of the
  request state that is replaced by compare and swap, and the clients that requests lease from the
  session and return to it. Every operation that takes the lock of the session is one step.
\<close>

section \<open>Snapshots\<close>

datatype HTTPRequestSnapshotType = HTTP_SNAPSHOT | S3_SNAPSHOT

text \<open>\<open>snapshot_id\<close> is the identity of the shared object: no two snapshots of a program have the same.\<close>

record HTTPRequestSnapshot =
  snapshot_id :: nat
  snapshot_type :: HTTPRequestSnapshotType
  snapshot_params :: HTTPFSParams

definition CanReuseClientsWith ::
  "'a HTTPRequestSnapshot_scheme \<Rightarrow> 'b HTTPRequestSnapshot_scheme \<Rightarrow> bool" where
  "CanReuseClientsWith snapshot other \<longleftrightarrow>
     snapshot_type snapshot = snapshot_type other \<and>
     params_util (snapshot_params snapshot) = params_util (snapshot_params other) \<and>
     client_reuse_mode (snapshot_params snapshot) = client_reuse_mode (snapshot_params other)"

definition CreateRequestParams :: "'a HTTPRequestSnapshot_scheme \<Rightarrow> HTTPFSParams" where
  "CreateRequestParams snapshot = (snapshot_params snapshot)\<lparr>pre_merged_headers := True\<rparr>"

section \<open>The session\<close>

text \<open>
  A client is known by its identity; \<open>client_util\<close> is the \<open>HTTPUtil\<close> that made it. The generations
  are counters that no run of a program exhausts.
\<close>

record HTTPClient =
  client_ref :: nat
  client_util :: nat
  base_url :: string

record IdleClient =
  idle_client :: HTTPClient
  idle_util :: nat

record 's CapturedHTTPRequestSnapshot =
  captured_snapshot :: 's
  captured_generation :: nat

record 's HTTPRequestSession =
  current_snapshot :: 's
  client_generation :: nat
  idle_clients :: "IdleClient list"

definition new_session :: "'s \<Rightarrow> 's HTTPRequestSession" where
  "new_session snapshot = \<lparr>current_snapshot = snapshot, client_generation = 0, idle_clients = []\<rparr>"

definition Capture :: "'s HTTPRequestSession \<Rightarrow> 's CapturedHTTPRequestSnapshot" where
  "Capture s = \<lparr>captured_snapshot = current_snapshot s, captured_generation = client_generation s\<rparr>"

text \<open>The clients that \<open>TryPublish\<close> and \<open>InvalidateClients\<close> take out of the session are destroyed.\<close>

definition TryPublish ::
  "'a HTTPRequestSnapshot_scheme HTTPRequestSession \<Rightarrow> 'a HTTPRequestSnapshot_scheme \<Rightarrow> 'a HTTPRequestSnapshot_scheme \<Rightarrow>
     ('a HTTPRequestSnapshot_scheme CapturedHTTPRequestSnapshot \<times> bool) \<times> 'a HTTPRequestSnapshot_scheme HTTPRequestSession" where
  "TryPublish s expected replacement =
     (if snapshot_id (current_snapshot s) \<noteq> snapshot_id expected then ((Capture s, False), s)
      else
        let s1 = (if \<not> CanReuseClientsWith (current_snapshot s) replacement
                  then s\<lparr>client_generation := client_generation s + 1, idle_clients := []\<rparr> else s);
            s2 = s1\<lparr>current_snapshot := replacement\<rparr>
        in ((Capture s2, True), s2))"

definition InvalidateClients :: "'s HTTPRequestSession \<Rightarrow> 's HTTPRequestSession" where
  "InvalidateClients s = s\<lparr>client_generation := client_generation s + 1, idle_clients := []\<rparr>"

text \<open>A lease; without a session it was released. A client is \<open>None\<close> when clients are not reused.\<close>

record HTTPClientLease =
  lease_held :: bool
  lease_util :: nat
  lease_mode :: HTTPClientReuseMode
  lease_generation :: nat
  lease_client :: "HTTPClient option"
  lease_reusable :: bool

text \<open>The search for an idle client from the last to the first.\<close>

fun TakeIdle :: "nat \<Rightarrow> string \<Rightarrow> IdleClient list \<Rightarrow> (HTTPClient \<times> IdleClient list) option" where
  "TakeIdle util proto_host_port [] = None"
| "TakeIdle util proto_host_port (entry # entries) =
     (case TakeIdle util proto_host_port entries of
        Some (c, rest) \<Rightarrow> Some (c, entry # rest)
      | None \<Rightarrow>
          if idle_util entry = util \<and> base_url (idle_client entry) = proto_host_port then Some (idle_client entry, entries)
          else None)"

text \<open>
  \<open>made\<close> is the client that \<open>HTTPUtil::InitializeClient\<close> makes when none is reused; a client that is
  reused is initialized with the parameters of the request.
\<close>

definition AcquireClient ::
  "HTTPClient \<Rightarrow> 'a HTTPRequestSnapshot_scheme CapturedHTTPRequestSnapshot \<Rightarrow> string \<Rightarrow>
     'a HTTPRequestSnapshot_scheme HTTPRequestSession \<Rightarrow> HTTPClientLease \<times> 'a HTTPRequestSnapshot_scheme HTTPRequestSession" where
  "AcquireClient made captured proto_host_port s =
     (let params = snapshot_params (captured_snapshot captured);
          reuse_mode = client_reuse_mode params;
          reused = (if reuse_mode = SESSION_LOCAL \<and> captured_generation captured = client_generation s
                    then TakeIdle (params_util params) proto_host_port (idle_clients s) else None);
          client = (case reused of
              Some (c, _) \<Rightarrow> Some c
            | None \<Rightarrow> if reuse_mode \<noteq> REUSE_NONE then Some made else None)
      in (\<lparr>lease_held = True, lease_util = params_util params, lease_mode = reuse_mode,
           lease_generation = captured_generation captured, lease_client = client, lease_reusable = True\<rparr>,
          case reused of None \<Rightarrow> s | Some (_, rest) \<Rightarrow> s\<lparr>idle_clients := rest\<rparr>))"

definition InvalidateLease :: "HTTPClientLease \<Rightarrow> HTTPClientLease" where
  "InvalidateLease l = l\<lparr>lease_reusable := False\<rparr>"

text \<open>The second component is the client handed to \<open>HTTPUtil::CloseClient\<close>.\<close>

definition ReturnClient ::
  "HTTPClient option \<Rightarrow> nat \<Rightarrow> HTTPClientReuseMode \<Rightarrow> nat \<Rightarrow> bool \<Rightarrow> 's HTTPRequestSession \<Rightarrow>
     's HTTPRequestSession \<times> HTTPClient option" where
  "ReturnClient client util reuse_mode generation reusable s =
     (case client of
        None \<Rightarrow> (s, None)
      | Some c \<Rightarrow>
          if \<not> reusable then (s, None)
          else if reuse_mode = SESSION_LOCAL then
            (if generation = client_generation s
             then (s\<lparr>idle_clients := idle_clients s @ [\<lparr>idle_client = c, idle_util = util\<rparr>]\<rparr>, None) else (s, None))
          else (s, Some c))"

definition Release :: "HTTPClientLease \<Rightarrow> 's HTTPRequestSession \<Rightarrow> HTTPClientLease \<times> 's HTTPRequestSession \<times> HTTPClient option" where
  "Release l s =
     (if \<not> lease_held l then (l, s, None)
      else (l\<lparr>lease_held := False, lease_client := None\<rparr>,
            ReturnClient (lease_client l) (lease_util l) (lease_mode l) (lease_generation l) (lease_reusable l) s))"

section \<open>Concurrent use\<close>

text \<open>
  The session with the snapshots that threads captured from it, the leases they hold and the
  number of the next client. A thread publishes and leases with what it captured.
\<close>

record 's session_system =
  sys_session :: "'s HTTPRequestSession"
  sys_captured :: "'s CapturedHTTPRequestSnapshot list"
  sys_leases :: "HTTPClientLease list"
  sys_next :: nat

inductive session_step ::
  "'a HTTPRequestSnapshot_scheme session_system \<Rightarrow> 'a HTTPRequestSnapshot_scheme session_system \<Rightarrow> bool" where
  step_capture: "session_step st (st\<lparr>sys_captured := Capture (sys_session st) # sys_captured st\<rparr>)"
| step_publish: "c \<in> set (sys_captured st) \<Longrightarrow>
    TryPublish (sys_session st) (captured_snapshot c) replacement = (result, s') \<Longrightarrow>
    session_step st (st\<lparr>sys_session := s', sys_captured := fst result # sys_captured st\<rparr>)"
| step_acquire: "c \<in> set (sys_captured st) \<Longrightarrow>
    made = \<lparr>client_ref = sys_next st, client_util = params_util (snapshot_params (captured_snapshot c)), base_url = url\<rparr> \<Longrightarrow>
    AcquireClient made c url (sys_session st) = (l, s') \<Longrightarrow>
    session_step st (st\<lparr>sys_session := s', sys_leases := l # sys_leases st, sys_next := sys_next st + 1\<rparr>)"
| step_fail: "i < length (sys_leases st) \<Longrightarrow>
    session_step st (st\<lparr>sys_leases := (sys_leases st)[i := InvalidateLease (sys_leases st ! i)]\<rparr>)"
| step_release: "i < length (sys_leases st) \<Longrightarrow> Release (sys_leases st ! i) (sys_session st) = (l, s', closed) \<Longrightarrow>
    session_step st (st\<lparr>sys_session := s', sys_leases := (sys_leases st)[i := l]\<rparr>)"
| step_invalidate: "session_step st (st\<lparr>sys_session := InvalidateClients (sys_session st)\<rparr>)"

inductive_cases session_stepE: "session_step st st'"

definition start_system :: "'s \<Rightarrow> 's session_system" where
  "start_system snapshot = \<lparr>sys_session = new_session snapshot, sys_captured = [], sys_leases = [], sys_next = 0\<rparr>"

definition session_reachable :: "'a HTTPRequestSnapshot_scheme \<Rightarrow> 'a HTTPRequestSnapshot_scheme session_system \<Rightarrow> bool" where
  "session_reachable snapshot st \<longleftrightarrow> session_step\<^sup>*\<^sup>* (start_system snapshot) st"

section \<open>The clients in use\<close>

definition leased_clients :: "'s session_system \<Rightarrow> HTTPClient list" where
  "leased_clients st = concat (map (\<lambda>l. case lease_client l of None \<Rightarrow> [] | Some c \<Rightarrow> [c]) (sys_leases st))"

definition all_clients :: "'s session_system \<Rightarrow> HTTPClient list" where
  "all_clients st = map idle_client (idle_clients (sys_session st)) @ leased_clients st"

definition clients_distinct :: "'s session_system \<Rightarrow> bool" where
  "clients_distinct st \<longleftrightarrow>
     distinct (map client_ref (all_clients st)) \<and> (\<forall>c \<in> set (all_clients st). client_ref c < sys_next st)"

definition lease_matches :: "'a HTTPRequestSnapshot_scheme HTTPRequestSession \<Rightarrow> HTTPClientLease \<Rightarrow> bool" where
  "lease_matches s l \<longleftrightarrow>
     lease_generation l \<le> client_generation s \<and>
     (\<forall>c. lease_client l = Some c \<longrightarrow> client_util c = lease_util l) \<and>
     (lease_generation l = client_generation s \<longrightarrow>
        lease_util l = params_util (snapshot_params (current_snapshot s)) \<and>
        lease_mode l = client_reuse_mode (snapshot_params (current_snapshot s)))"

definition clients_match :: "'a HTTPRequestSnapshot_scheme session_system \<Rightarrow> bool" where
  "clients_match st \<longleftrightarrow>
     (let s = sys_session st; cur = current_snapshot s
      in (\<forall>c \<in> set (sys_captured st). captured_generation c \<le> client_generation s \<and>
            (captured_generation c = client_generation s \<longrightarrow> CanReuseClientsWith (captured_snapshot c) cur)) \<and>
         (\<forall>e \<in> set (idle_clients s). idle_util e = params_util (snapshot_params cur) \<and> client_util (idle_client e) = idle_util e \<and>
            client_reuse_mode (snapshot_params cur) = SESSION_LOCAL) \<and>
         (\<forall>l \<in> set (sys_leases st). lease_matches s l))"

lemma TakeIdle_Some:
  "TakeIdle util url es = Some (c, rest) \<Longrightarrow>
     \<exists>xs ys e. es = xs @ e # ys \<and> rest = xs @ ys \<and> c = idle_client e \<and> idle_util e = util \<and> base_url c = url"
proof (induction es arbitrary: c rest)
  case (Cons e es)
  show ?case
  proof (cases "TakeIdle util url es")
    case None
    with Cons.prems show ?thesis by (intro exI [of _ "[]"] exI [of _ es] exI [of _ e]) (auto split: if_splits)
  next
    case (Some p)
    with Cons.prems obtain rest' where "TakeIdle util url es = Some (c, rest')" "rest = e # rest'"
      by (cases p) auto
    with Cons.IH [of c rest'] obtain xs ys e' where "es = xs @ e' # ys" "rest' = xs @ ys" "c = idle_client e'"
      "idle_util e' = util" "base_url c = url" by blast
    with \<open>rest = e # rest'\<close> show ?thesis by (intro exI [of _ "e # xs"] exI [of _ ys] exI [of _ e']) simp
  qed
qed simp

lemma CanReuse_trans:
  "CanReuseClientsWith a b \<Longrightarrow> CanReuseClientsWith b c \<Longrightarrow> CanReuseClientsWith a c"
  by (simp add: CanReuseClientsWith_def)

lemma CanReuse_refl [simp]: "CanReuseClientsWith a a"
  by (simp add: CanReuseClientsWith_def)

lemma concat_update:
  assumes "i < length xs"
  shows "mset (concat (map f (xs[i := x]))) + mset (f (xs ! i)) = mset (concat (map f xs)) + mset (f x)"
proof -
  have "xs = take i xs @ xs ! i # drop (Suc i) xs" using assms by (simp add: id_take_nth_drop)
  then have "mset (concat (map f xs)) =
      mset (concat (map f (take i xs))) + mset (f (xs ! i)) + mset (concat (map f (drop (Suc i) xs)))"
    by (metis (no_types, lifting) concat.simps(2) concat_append list.simps(9) map_append mset_append union_assoc)
  then show ?thesis using assms by (simp add: upd_conv_take_nth_drop ac_simps)
qed

lemma leased_update:
  assumes "i < length (sys_leases st)"
  shows "mset (leased_clients (st\<lparr>sys_leases := (sys_leases st)[i := l]\<rparr>)) +
      mset (case lease_client (sys_leases st ! i) of None \<Rightarrow> [] | Some c \<Rightarrow> [c]) =
    mset (leased_clients st) + mset (case lease_client l of None \<Rightarrow> [] | Some c \<Rightarrow> [c])"
  using concat_update [OF assms, of "\<lambda>l. case lease_client l of None \<Rightarrow> [] | Some c \<Rightarrow> [c]" l]
  by (simp add: leased_clients_def)

lemma distinct_sub_mset: "mset xs \<subseteq># mset ys \<Longrightarrow> distinct ys \<Longrightarrow> distinct xs"
proof -
  assume "mset xs \<subseteq># mset ys" and ys: "distinct ys"
  then obtain zs where "mset ys = mset (xs @ zs)" by (metis ex_mset mset_append mset_subset_eq_exists_conv)
  with ys show "distinct xs" using mset_eq_imp_distinct_iff distinct_append by blast
qed

text \<open>A step that makes no clients but only moves or drops them keeps them distinct.\<close>

lemma clients_kept:
  assumes "clients_distinct st" "mset (all_clients st') \<subseteq># mset (all_clients st)" "sys_next st' = sys_next st"
  shows "clients_distinct st'"
proof -
  have "mset (map client_ref (all_clients st')) \<subseteq># mset (map client_ref (all_clients st))"
    using image_mset_subseteq_mono [OF assms(2), of client_ref] by simp
  then have "distinct (map client_ref (all_clients st'))"
    using assms(1) distinct_sub_mset unfolding clients_distinct_def by blast
  moreover have "set (all_clients st') \<subseteq> set (all_clients st)"
    using set_mset_mono [OF assms(2)] by simp
  ultimately show ?thesis using assms(1,3) by (auto simp: clients_distinct_def)
qed

lemma mset_exchange:
  assumes "L' + a = L + b" "I' + b \<subseteq># I + a"
  shows "I' + L' \<subseteq># I + (L :: 'c multiset)"
proof -
  have "(I' + L') + a = (I' + b) + L" using assms(1) by (metis add.assoc add.commute)
  also have "\<dots> \<subseteq># (I + a) + L" using assms(2) by (rule subset_mset.add_right_mono)
  also have "\<dots> = (I + L) + a" by (simp add: ac_simps)
  finally show ?thesis by (rule subset_mset.add_le_imp_le_right)
qed

lemma release_moves:
  assumes "i < length (sys_leases st)" "Release (sys_leases st ! i) (sys_session st) = (l, s', closed)"
  shows "mset (all_clients (st\<lparr>sys_session := s', sys_leases := (sys_leases st)[i := l]\<rparr>)) \<subseteq># mset (all_clients st)"
proof -
  let ?c = "\<lambda>l. mset (case lease_client l of None \<Rightarrow> [] | Some c \<Rightarrow> [c])"
  have leases: "mset (leased_clients (st\<lparr>sys_session := s', sys_leases := (sys_leases st)[i := l]\<rparr>)) + ?c (sys_leases st ! i) =
      mset (leased_clients st) + ?c l"
    using leased_update [OF assms(1), of l] by (simp add: leased_clients_def)
  have "mset (map idle_client (idle_clients s')) + ?c l \<subseteq>#
      mset (map idle_client (idle_clients (sys_session st))) + ?c (sys_leases st ! i)"
    using assms(2) by (auto simp: Release_def ReturnClient_def split: if_splits option.splits)
  from mset_exchange [OF leases this] show ?thesis by (simp add: all_clients_def)
qed

lemma acquire_moves:
  assumes "AcquireClient made c url (sys_session st) = (l, s')"
  shows "mset (all_clients (st\<lparr>sys_session := s', sys_leases := l # sys_leases st, sys_next := n\<rparr>)) \<subseteq>#
    add_mset made (mset (all_clients st))"
proof (cases "client_reuse_mode (snapshot_params (captured_snapshot c)) = SESSION_LOCAL \<and>
      captured_generation c = client_generation (sys_session st)")
  case True
  then show ?thesis
    using assms
    by (auto simp: AcquireClient_def Let_def all_clients_def leased_clients_def dest!: TakeIdle_Some
        split: option.splits if_splits)
next
  case False
  then show ?thesis
    using assms by (auto simp: AcquireClient_def Let_def all_clients_def leased_clients_def split: if_splits)
qed

lemma publish_drops:
  "TryPublish s expected replacement = (result, s') \<Longrightarrow> set (idle_clients s') \<subseteq> set (idle_clients s) \<and>
     mset (map idle_client (idle_clients s')) \<subseteq># mset (map idle_client (idle_clients s))"
  by (auto simp: TryPublish_def Let_def split: if_splits)

lemma session_step_distinct:
  assumes "session_step st st'" "clients_distinct st"
  shows "clients_distinct st'"
  using assms(1)
proof cases
  case step_capture
  with assms(2) show ?thesis by (auto intro: clients_kept simp: all_clients_def leased_clients_def)
next
  case (step_publish c replacement result s')
  with assms(2) publish_drops [OF step_publish(3)] show ?thesis
    by (auto intro!: clients_kept [OF assms(2)] simp: all_clients_def leased_clients_def)
next
  case (step_acquire c made url l s')
  let ?next = "st\<lparr>sys_next := sys_next st + 1\<rparr>"
  have sub: "mset (all_clients st') \<subseteq># mset (made # all_clients st)"
    using acquire_moves [OF step_acquire(4), of "sys_next st + 1"] step_acquire(1) by simp
  have made: "client_ref made = sys_next st" using step_acquire(3) by simp
  have "distinct (map client_ref (made # all_clients st))"
    using assms(2) made by (auto simp: clients_distinct_def)
  moreover have "mset (map client_ref (all_clients st')) \<subseteq># mset (map client_ref (made # all_clients st))"
    using image_mset_subseteq_mono [OF sub, of client_ref] by simp
  ultimately have distinct: "distinct (map client_ref (all_clients st'))" using distinct_sub_mset by blast
  have "set (all_clients st') \<subseteq> set (made # all_clients st)" using set_mset_mono [OF sub] by simp
  moreover have "\<forall>c \<in> set (made # all_clients st). client_ref c < sys_next st'"
    using assms(2) made step_acquire(1) by (auto simp: clients_distinct_def)
  ultimately have "\<forall>c \<in> set (all_clients st'). client_ref c < sys_next st'" by blast
  with distinct show ?thesis by (simp add: clients_distinct_def)
next
  case (step_fail i)
  have "mset (leased_clients st') = mset (leased_clients st)"
    using leased_update [OF step_fail(2), of "InvalidateLease (sys_leases st ! i)"] step_fail(1) by (simp add: InvalidateLease_def)
  with step_fail assms(2) show ?thesis by (auto intro!: clients_kept [OF assms(2)] simp: all_clients_def)
next
  case (step_release i l s' closed)
  then show ?thesis using release_moves [OF step_release(2,3)] by (auto intro!: clients_kept [OF assms(2)])
next
  case step_invalidate
  then show ?thesis
    by (auto intro!: clients_kept [OF assms(2)] simp: InvalidateClients_def all_clients_def leased_clients_def)
qed

lemma publish_generation:
  assumes "TryPublish s expected replacement = (result, s')"
  shows "s' = s \<and> result = (Capture s, False) \<or>
    client_generation s' = client_generation s \<and> idle_clients s' = idle_clients s \<and> current_snapshot s' = replacement \<and>
      CanReuseClientsWith (current_snapshot s) replacement \<and> result = (Capture s', True) \<or>
    client_generation s' = client_generation s + 1 \<and> idle_clients s' = [] \<and> current_snapshot s' = replacement \<and>
      result = (Capture s', True)"
  using assms by (auto simp: TryPublish_def Let_def split: if_splits)

lemma publish_match:
  assumes "clients_match st" "TryPublish (sys_session st) expected replacement = (result, s')"
  shows "clients_match (st\<lparr>sys_session := s', sys_captured := fst result # sys_captured st\<rparr>)"
  using publish_generation [OF assms(2)]
proof (elim disjE)
  assume a: "client_generation s' = client_generation (sys_session st) \<and> idle_clients s' = idle_clients (sys_session st) \<and>
      current_snapshot s' = replacement \<and> CanReuseClientsWith (current_snapshot (sys_session st)) replacement \<and>
      result = (Capture s', True)"
  then have same: "params_util (snapshot_params replacement) = params_util (snapshot_params (current_snapshot (sys_session st)))"
    "client_reuse_mode (snapshot_params replacement) = client_reuse_mode (snapshot_params (current_snapshot (sys_session st)))"
    by (simp_all add: CanReuseClientsWith_def)
  have "CanReuseClientsWith (captured_snapshot c) replacement"
    if "c \<in> set (sys_captured st)" "captured_generation c = client_generation (sys_session st)" for c
    using assms(1) a that by (auto simp: clients_match_def lease_matches_def Let_def intro: CanReuse_trans)
  with assms(1) a show ?thesis by (auto simp: clients_match_def lease_matches_def Let_def Capture_def same)
qed (use assms(1) in \<open>force simp: clients_match_def lease_matches_def Let_def Capture_def\<close>)+

lemma acquire_match:
  assumes "clients_match st" "c \<in> set (sys_captured st)" "client_util made = params_util (snapshot_params (captured_snapshot c))"
    and "AcquireClient made c url (sys_session st) = (l, s')"
  shows "clients_match (st\<lparr>sys_session := s', sys_leases := l # sys_leases st, sys_next := n\<rparr>)"
proof -
  let ?s = "sys_session st"
  have c: "captured_generation c \<le> client_generation ?s"
    "captured_generation c = client_generation ?s \<longrightarrow> CanReuseClientsWith (captured_snapshot c) (current_snapshot ?s)"
    using assms(1,2) by (auto simp: clients_match_def lease_matches_def Let_def)
  have s': "client_generation s' = client_generation ?s" "current_snapshot s' = current_snapshot ?s"
    "set (idle_clients s') \<subseteq> set (idle_clients ?s)"
    using assms(4) by (auto simp: AcquireClient_def Let_def dest!: TakeIdle_Some split: option.splits if_splits)
  have l: "lease_generation l = captured_generation c" "lease_util l = params_util (snapshot_params (captured_snapshot c))"
    "lease_mode l = client_reuse_mode (snapshot_params (captured_snapshot c))"
    using assms(4) by (auto simp: AcquireClient_def Let_def)
  have idle: "client_util (idle_client e) = idle_util e" if "e \<in> set (idle_clients ?s)" for e
    using assms(1) that by (auto simp: clients_match_def lease_matches_def Let_def)
  have "client_util d = lease_util l" if "lease_client l = Some d" for d
    using assms(3,4) that idle
    by (auto simp: AcquireClient_def Let_def dest!: TakeIdle_Some split: option.splits if_splits)
  with assms(1) c s' l show ?thesis
    by (auto simp: clients_match_def lease_matches_def Let_def CanReuseClientsWith_def)
qed

lemma release_match:
  assumes "clients_match st" "i < length (sys_leases st)" "Release (sys_leases st ! i) (sys_session st) = (l, s', closed)"
  shows "clients_match (st\<lparr>sys_session := s', sys_leases := (sys_leases st)[i := l]\<rparr>)"
proof -
  let ?s = "sys_session st" and ?l = "sys_leases st ! i"
  have old: "lease_generation ?l \<le> client_generation ?s" "\<And>c. lease_client ?l = Some c \<Longrightarrow> client_util c = lease_util ?l"
    "lease_generation ?l = client_generation ?s \<Longrightarrow>
      lease_util ?l = params_util (snapshot_params (current_snapshot ?s)) \<and>
      lease_mode ?l = client_reuse_mode (snapshot_params (current_snapshot ?s))"
    using assms(1) nth_mem [OF assms(2)] unfolding clients_match_def lease_matches_def Let_def by blast+
  have s': "client_generation s' = client_generation ?s" "current_snapshot s' = current_snapshot ?s"
    using assms(3) by (auto simp: Release_def ReturnClient_def split: if_splits option.splits)
  have idle: "e \<in> set (idle_clients ?s) \<or>
      idle_util e = params_util (snapshot_params (current_snapshot ?s)) \<and> client_util (idle_client e) = idle_util e \<and>
      client_reuse_mode (snapshot_params (current_snapshot ?s)) = SESSION_LOCAL" if "e \<in> set (idle_clients s')" for e
    using assms(3) old that by (auto simp: Release_def ReturnClient_def split: if_splits option.splits)
  have l: "lease_generation l = lease_generation ?l" "lease_util l = lease_util ?l" "lease_mode l = lease_mode ?l"
    "lease_client l = lease_client ?l \<or> lease_client l = None"
    using assms(3) by (auto simp: Release_def split: if_splits)
  have leases: "x = l \<or> x \<in> set (sys_leases st)" if "x \<in> set ((sys_leases st)[i := l])" for x
    using that set_update_subset_insert by fastforce
  have new: "lease_generation l \<le> client_generation ?s \<and> (\<forall>c. lease_client l = Some c \<longrightarrow> client_util c = lease_util l) \<and>
      (lease_generation l = client_generation ?s \<longrightarrow> lease_util l = params_util (snapshot_params (current_snapshot ?s)) \<and>
        lease_mode l = client_reuse_mode (snapshot_params (current_snapshot ?s)))"
    using old l by auto
  show ?thesis
    unfolding clients_match_def lease_matches_def Let_def
  proof (intro conjI ballI, goal_cases)
    case (3 e)
    with idle [of e] assms(1) s'(2) show ?case by (auto simp: clients_match_def lease_matches_def Let_def)
  next
    case (4 e)
    with idle [of e] assms(1) s'(2) show ?case by (auto simp: clients_match_def lease_matches_def Let_def)
  next
    case (5 e)
    with idle [of e] assms(1) s'(2) show ?case by (auto simp: clients_match_def lease_matches_def Let_def)
  next
    case (6 x)
    with leases [of x] new assms(1) s' show ?case by (auto simp: clients_match_def lease_matches_def Let_def)
  next
    case (7 x)
    with leases [of x] new assms(1) s' show ?case by (auto simp: clients_match_def lease_matches_def Let_def)
  next
    case (8 x)
    with leases [of x] new assms(1) s' show ?case by (auto simp: clients_match_def lease_matches_def Let_def)
  qed (use assms(1) s' in \<open>auto simp: clients_match_def lease_matches_def Let_def\<close>)
qed

lemma session_step_match:
  assumes "session_step st st'" "clients_match st"
  shows "clients_match st'"
  using assms(1)
proof cases
  case step_capture
  with assms(2) show ?thesis by (auto simp: clients_match_def lease_matches_def Let_def Capture_def)
next
  case (step_publish c replacement result s')
  with assms(2) show ?thesis using publish_match by blast
next
  case (step_acquire c made url l s')
  with assms(2) show ?thesis using acquire_match [of st c made url l s'] by simp
next
  case (step_fail i)
  have "lease_matches (sys_session st) x" if "x \<in> set (sys_leases st')" for x
  proof (cases "x \<in> set (sys_leases st)")
    case True
    with assms(2) show ?thesis by (simp add: clients_match_def Let_def)
  next
    case False
    then have x: "x = InvalidateLease (sys_leases st ! i)"
      using that step_fail(1) set_update_subset_insert [of "sys_leases st" i] by auto
    have "lease_matches (sys_session st) (sys_leases st ! i)"
      using assms(2) step_fail(2) by (simp add: clients_match_def Let_def)
    then show ?thesis by (simp add: x InvalidateLease_def lease_matches_def)
  qed
  moreover have "sys_session st' = sys_session st" "sys_captured st' = sys_captured st" by (simp_all add: step_fail(1))
  ultimately show ?thesis using assms(2) by (simp add: clients_match_def Let_def)
next
  case (step_release i l s' closed)
  with assms(2) show ?thesis using release_match by blast
next
  case step_invalidate
  with assms(2) show ?thesis by (fastforce simp: clients_match_def lease_matches_def Let_def InvalidateClients_def)
qed

lemma session_invariants:
  assumes "session_reachable snapshot st"
  shows "clients_distinct st \<and> clients_match st"
  using assms unfolding session_reachable_def
proof (induction rule: rtranclp_induct)
  case base
  show ?case
    by (simp add: start_system_def clients_distinct_def clients_match_def lease_matches_def all_clients_def leased_clients_def new_session_def)
next
  case (step st st')
  then show ?case using session_step_distinct session_step_match by blast
qed

text \<open>
  C25: Whatever threads capture, publish, lease, fail, return and invalidate in any order, a client
  is never in use twice: it is idle once, or held by one lease. Clients wait in the session only
  when its current snapshot asks for that, and each was made by the HTTP library of the current
  snapshot, so that a client of an earlier configuration is never reused.
\<close>

theorem session_clients:
  assumes "session_reachable snapshot st"
  shows "distinct (map client_ref (map idle_client (idle_clients (sys_session st)) @ leased_clients st)) \<and>
    list_all (\<lambda>e. client_util (idle_client e) = params_util (snapshot_params (current_snapshot (sys_session st))) \<and>
      idle_util e = client_util (idle_client e) \<and>
      client_reuse_mode (snapshot_params (current_snapshot (sys_session st))) = SESSION_LOCAL)
      (idle_clients (sys_session st))"
  using session_invariants [OF assms]
  by (auto simp: clients_distinct_def clients_match_def lease_matches_def all_clients_def Let_def list_all_iff)

definition sample_snapshot :: HTTPRequestSnapshot where
  "sample_snapshot = \<lparr>snapshot_id = 0, snapshot_type = HTTP_SNAPSHOT, snapshot_params = sample_params\<rparr>"

definition sample_client :: HTTPClient where
  "sample_client = \<lparr>client_ref = 0, client_util = 0, base_url = ''http://h''\<rparr>"

text \<open>A request leased a client and returned it.\<close>

definition sample_system :: "HTTPRequestSnapshot session_system" where
  "sample_system =
     \<lparr>sys_session = (new_session sample_snapshot)\<lparr>idle_clients := [\<lparr>idle_client = sample_client, idle_util = 0\<rparr>]\<rparr>,
      sys_captured = [Capture (new_session sample_snapshot)],
      sys_leases = [\<lparr>lease_held = False, lease_util = 0, lease_mode = SESSION_LOCAL, lease_generation = 0,
        lease_client = None, lease_reusable = True\<rparr>],
      sys_next = 1\<rparr>"

lemma sample_reachable: "session_reachable sample_snapshot sample_system"
proof -
  let ?c = "Capture (new_session sample_snapshot)"
  let ?l = "\<lparr>lease_held = True, lease_util = 0, lease_mode = SESSION_LOCAL, lease_generation = 0,
    lease_client = Some sample_client, lease_reusable = True\<rparr>"
  let ?s1 = "(start_system sample_snapshot)\<lparr>sys_captured := [?c]\<rparr>"
  let ?s2 = "?s1\<lparr>sys_leases := [?l], sys_next := 1\<rparr>"
  have "session_step (start_system sample_snapshot) ?s1"
    using step_capture [of "start_system sample_snapshot"] by (simp add: start_system_def)
  moreover have "session_step ?s1 ?s2"
    using step_acquire [of ?c ?s1 sample_client "''http://h''" ?l "sys_session ?s1"]
    by (simp add: AcquireClient_def Capture_def new_session_def sample_snapshot_def sample_params_def sample_client_def start_system_def)
  moreover have "session_step ?s2 sample_system"
    using step_release [of 0 ?s2]
    by (simp add: Release_def ReturnClient_def sample_system_def start_system_def new_session_def)
  ultimately show ?thesis unfolding session_reachable_def by (meson r_into_rtranclp rtranclp_trans)
qed

theorem session_clients_witness:
  "idle_clients (sys_session sample_system) \<noteq> [] \<and>
   distinct (map client_ref (map idle_client (idle_clients (sys_session sample_system)) @ leased_clients sample_system))"
  using session_clients [OF sample_reachable] by (simp add: sample_system_def)

end
