(* ===== verification/S3_Session.thy ===== *)
theory S3_Session
  imports Http_Session S3_Headers
begin

text \<open>
  The credentials of a session (src/src/s3/s3_request.cpp, from \<open>S3RefreshableHTTPParams\<close> to
  \<open>SendSessionRequest\<close>): reloading them after an authentication failure, the region that a redirect
  named, and how concurrent requests replace the snapshot that holds both.
\<close>

section \<open>The part of the parameters that a refresh replaces\<close>

record S3RefreshableHTTPParams =
  fresh_proxy :: string
  fresh_proxy_port :: u64
  fresh_proxy_username :: string
  fresh_proxy_password :: string
  fresh_extra_headers :: "(string \<times> string) list"
  fresh_override_verify_ssl :: bool
  fresh_verify_ssl :: bool
  fresh_bearer_token :: string

definition RefreshableParams :: "HTTPFSParams \<Rightarrow> S3RefreshableHTTPParams" where
  "RefreshableParams params =
     \<lparr>fresh_proxy = http_proxy params,
      fresh_proxy_port = (if http_proxy params = [] then 0 else http_proxy_port params),
      fresh_proxy_username = http_proxy_username params,
      fresh_proxy_password = http_proxy_password params,
      fresh_extra_headers = extra_headers params,
      fresh_override_verify_ssl = override_verify_ssl params,
      fresh_verify_ssl = verify_ssl params,
      fresh_bearer_token = bearer_token params\<rparr>"

definition ApplyRefreshable :: "S3RefreshableHTTPParams \<Rightarrow> HTTPFSParams \<Rightarrow> HTTPFSParams" where
  "ApplyRefreshable r target =
     target\<lparr>http_proxy := fresh_proxy r,
      http_proxy_port := (if fresh_proxy r = [] then 0 else fresh_proxy_port r),
      http_proxy_username := fresh_proxy_username r,
      http_proxy_password := fresh_proxy_password r,
      extra_headers := fresh_extra_headers r,
      override_verify_ssl := fresh_override_verify_ssl r,
      verify_ssl := fresh_verify_ssl r,
      bearer_token := fresh_bearer_token r,
      pre_merged_headers := False\<rparr>"

text \<open>The headers are the entries of a map, each name once.\<close>

definition refreshable_equal :: "S3RefreshableHTTPParams \<Rightarrow> S3RefreshableHTTPParams \<Rightarrow> bool" where
  "refreshable_equal a b \<longleftrightarrow>
     fresh_proxy a = fresh_proxy b \<and> fresh_proxy_port a = fresh_proxy_port b \<and>
     fresh_proxy_username a = fresh_proxy_username b \<and> fresh_proxy_password a = fresh_proxy_password b \<and>
     set (fresh_extra_headers a) = set (fresh_extra_headers b) \<and>
     fresh_override_verify_ssl a = fresh_override_verify_ssl b \<and>
     fresh_verify_ssl a = fresh_verify_ssl b \<and> fresh_bearer_token a = fresh_bearer_token b"

section \<open>Reloading\<close>

definition ReadS3AuthParams :: "duckdb_api \<Rightarrow> 'v S3KeyValueReader option \<Rightarrow> string \<Rightarrow> S3AuthParams res" where
  "ReadS3AuthParams D opener path = bind_res (Resolve D path (ReadFrom D opener path)) (\<lambda>(url, auth). Inr auth)"

text \<open>\<open>initialize_parameters\<close> is \<open>HTTPUtil::InitializeParameters\<close> for the path.\<close>

definition ReadRefreshableHTTPParams :: "(string \<Rightarrow> HTTPFSParams res) \<Rightarrow> string \<Rightarrow> S3RefreshableHTTPParams res" where
  "ReadRefreshableHTTPParams initialize_parameters path =
     bind_res (initialize_parameters path) (\<lambda>params. Inr (RefreshableParams params))"

definition CredentialRefreshEnabled :: "bool option \<Rightarrow> bool" where
  "CredentialRefreshEnabled setting = (case setting of Some b \<Rightarrow> b | None \<Rightarrow> True)"

text \<open>
  \<open>opener\<close> gives what the settings and secrets hold at the moment: \<open>ReadS3AuthParams\<close> and
  \<open>ReadRefreshableHTTPParams\<close> of the path. \<open>None\<close> as the result means that nothing changed.
\<close>

definition ReloadS3AuthMaterial ::
  "duckdb_api \<Rightarrow> (S3AuthParams res \<times> S3RefreshableHTTPParams res) option \<Rightarrow> bool \<Rightarrow> S3AuthParams \<times> HTTPFSParams \<Rightarrow>
     (S3AuthParams \<times> HTTPFSParams) option res" where
  "ReloadS3AuthMaterial D opener preserve_region material =
     (case opener of
        None \<Rightarrow> Inr None
      | Some (read_auth, read_http) \<Rightarrow>
          bind_res read_auth (\<lambda>reloaded.
          bind_res (if preserve_region \<and> region (fst material) \<noteq> [] \<and> region reloaded \<noteq> region (fst material)
                    then SetRegion D (region (fst material)) reloaded else Inr reloaded) (\<lambda>reloaded_auth_params.
          bind_res read_http (\<lambda>reloaded_http_params.
            if auth_equal reloaded_auth_params (fst material) \<and>
               refreshable_equal reloaded_http_params (RefreshableParams (snd material))
            then Inr None
            else Inr (Some (reloaded_auth_params, ApplyRefreshable reloaded_http_params (snd material)))))))"

text \<open>\<open>refresh_secret\<close> refreshes the secret of a type that matches the path, if there is one.\<close>

definition TryRefreshS3SecretForPath :: "string list \<Rightarrow> (string \<Rightarrow> 'w \<Rightarrow> bool \<times> 'w) \<Rightarrow> 'w \<Rightarrow> bool \<times> 'w" where
  "TryRefreshS3SecretForPath secret_types refresh_secret w =
     fold (\<lambda>type (refreshed, w). let (r, w') = refresh_secret type w in (refreshed \<or> r, w')) secret_types (False, w)"

text \<open>
  The second reload runs under the lock of \<open>RunCredentialRefresh\<close>; \<open>acquire\<close> is what other threads
  do before the lock is taken.
\<close>

definition TryRefreshS3AuthMaterial ::
  "duckdb_api \<Rightarrow> ('w \<Rightarrow> (S3AuthParams res \<times> S3RefreshableHTTPParams res) option) \<Rightarrow> ('w \<Rightarrow> bool \<times> 'w) \<Rightarrow> ('w \<Rightarrow> 'w) \<Rightarrow>
     bool \<Rightarrow> bool \<Rightarrow> bool \<Rightarrow> S3AuthParams \<times> HTTPFSParams \<Rightarrow> 'w \<Rightarrow> (S3AuthParams \<times> HTTPFSParams) option res \<times> 'w" where
  "TryRefreshS3AuthMaterial D opener refresh acquire context credential_refresh_enabled preserve_region material w =
     (if \<not> credential_refresh_enabled then (Inr None, w)
      else if \<not> context then (Inr None, w)
      else case ReloadS3AuthMaterial D (opener w) preserve_region material of
        Inl e \<Rightarrow> (Inl e, w)
      | Inr (Some m) \<Rightarrow> (Inr (Some m), w)
      | Inr None \<Rightarrow>
          let w1 = acquire w
          in case ReloadS3AuthMaterial D (opener w1) preserve_region material of
               Inl e \<Rightarrow> (Inl e, w1)
             | Inr (Some m) \<Rightarrow> (Inr (Some m), w1)
             | Inr None \<Rightarrow>
                 let (refreshed, w2) = refresh w1
                 in if \<not> refreshed then (Inr None, w2)
                    else (ReloadS3AuthMaterial D (opener w2) preserve_region material, w2))"

section \<open>Snapshots of an S3 session\<close>

text \<open>\<open>client_context\<close> tells whether the client context could still be locked.\<close>

record S3RequestSnapshot = HTTPRequestSnapshot +
  snapshot_auth :: S3AuthParams
  refresh_path :: string
  client_context :: bool
  credential_refresh_enabled :: bool
  region_redirected :: bool
  credential_generation :: nat

definition CreateSession ::
  "nat \<Rightarrow> HTTPFSParams \<Rightarrow> S3AuthParams \<Rightarrow> string \<Rightarrow> bool \<Rightarrow> bool option \<Rightarrow> S3RequestSnapshot HTTPRequestSession" where
  "CreateSession fresh http_params auth path has_context refresh_setting =
     (let refresh_enabled = CredentialRefreshEnabled refresh_setting
      in new_session \<lparr>snapshot_id = fresh, snapshot_type = S3_SNAPSHOT, snapshot_params = http_params,
           snapshot_auth = auth, refresh_path = path, client_context = has_context \<and> refresh_enabled,
           credential_refresh_enabled = refresh_enabled, region_redirected = False, credential_generation = 0\<rparr>)"

text \<open>The replacement that \<open>TryRefreshSession\<close> makes of the latest snapshot.\<close>

definition RefreshReplacement ::
  "duckdb_api \<Rightarrow> nat \<Rightarrow> S3RequestSnapshot \<Rightarrow> S3AuthParams \<Rightarrow> HTTPFSParams \<Rightarrow> S3RequestSnapshot res" where
  "RefreshReplacement D fresh latest refreshed_auth_params refreshed_http_params =
     bind_res (if region_redirected latest then SetRegion D (region (snapshot_auth latest)) refreshed_auth_params
               else Inr refreshed_auth_params) (\<lambda>merged_auth_params.
       Inr \<lparr>snapshot_id = fresh, snapshot_type = S3_SNAPSHOT,
            snapshot_params = ApplyRefreshable (RefreshableParams refreshed_http_params) (CreateRequestParams latest),
            snapshot_auth = merged_auth_params, refresh_path = refresh_path latest,
            client_context = client_context latest,
            credential_refresh_enabled = credential_refresh_enabled latest,
            region_redirected = region_redirected latest,
            credential_generation = credential_generation latest + 1\<rparr>)"

text \<open>The replacement that \<open>SetSessionRegion\<close> makes.\<close>

definition RegionReplacement :: "duckdb_api \<Rightarrow> nat \<Rightarrow> S3RequestSnapshot \<Rightarrow> string \<Rightarrow> S3RequestSnapshot res" where
  "RegionReplacement D fresh snapshot correct_region =
     bind_res (SetRegion D correct_region (snapshot_auth snapshot)) (\<lambda>auth_params.
       Inr \<lparr>snapshot_id = fresh, snapshot_type = S3_SNAPSHOT, snapshot_params = CreateRequestParams snapshot,
            snapshot_auth = auth_params, refresh_path = refresh_path snapshot,
            client_context = client_context snapshot,
            credential_refresh_enabled = credential_refresh_enabled snapshot,
            region_redirected = True, credential_generation = credential_generation snapshot\<rparr>)"

section \<open>Threads that replace the snapshot\<close>

text \<open>
  The places at which \<open>TryRefreshSession\<close> and \<open>SetSessionRegion\<close> take the lock of the session. A
  refresh is for the snapshot of the request that failed.
\<close>

datatype s3_thread =
    RefreshStart S3RequestSnapshot
  | RefreshReload S3RequestSnapshot S3RequestSnapshot
  | RefreshUnchanged S3RequestSnapshot
  | RefreshLoop S3RequestSnapshot S3AuthParams HTTPFSParams
  | RefreshPublish S3RequestSnapshot S3AuthParams HTTPFSParams S3RequestSnapshot S3RequestSnapshot
  | RefreshDone S3RequestSnapshot bool
  | RegionStart string
  | RegionPublish string S3RequestSnapshot S3RequestSnapshot
  | RegionDone string bool
  | ThreadThrew exn

type_synonym s3_session = "S3RequestSnapshot HTTPRequestSession"

text \<open>\<open>reloaded\<close> is the outcome of \<open>TryRefreshS3AuthMaterial\<close>, \<open>fresh\<close> the identity of a new snapshot.\<close>

fun TryRefreshSession ::
  "duckdb_api \<Rightarrow> (S3AuthParams \<times> HTTPFSParams) option res \<Rightarrow> nat \<Rightarrow> s3_thread \<Rightarrow> s3_session \<Rightarrow> s3_thread \<times> s3_session" where
  "TryRefreshSession D reloaded fresh (RefreshStart failed) s =
     (let current = current_snapshot s
      in if credential_generation current \<noteq> credential_generation failed then (RefreshDone failed True, s)
         else if \<not> credential_refresh_enabled current then (RefreshDone failed False, s)
         else if \<not> client_context current then (RefreshDone failed False, s)
         else (RefreshReload failed current, s))"
| "TryRefreshSession D reloaded fresh (RefreshReload failed current) s =
     (case reloaded of
        Inl e \<Rightarrow> (ThreadThrew e, s)
      | Inr None \<Rightarrow> (RefreshUnchanged failed, s)
      | Inr (Some (auth, http)) \<Rightarrow> (RefreshLoop failed auth http, s))"
| "TryRefreshSession D reloaded fresh (RefreshUnchanged failed) s =
     (RefreshDone failed (credential_generation (current_snapshot s) \<noteq> credential_generation failed), s)"
| "TryRefreshSession D reloaded fresh (RefreshLoop failed auth http) s =
     (let latest = current_snapshot s
      in if credential_generation latest \<noteq> credential_generation failed then (RefreshDone failed True, s)
         else case RefreshReplacement D fresh latest auth http of
           Inl e \<Rightarrow> (ThreadThrew e, s)
         | Inr replacement \<Rightarrow> (RefreshPublish failed auth http latest replacement, s))"
| "TryRefreshSession D reloaded fresh (RefreshPublish failed auth http current replacement) s =
     (case TryPublish s current replacement of
        ((_, published), s') \<Rightarrow> (if published then RefreshDone failed True else RefreshLoop failed auth http, s'))"
| "TryRefreshSession D reloaded fresh t s = (t, s)"

fun SetSessionRegion :: "duckdb_api \<Rightarrow> nat \<Rightarrow> s3_thread \<Rightarrow> s3_session \<Rightarrow> s3_thread \<times> s3_session" where
  "SetSessionRegion D fresh (RegionStart correct_region) s =
     (let snapshot = current_snapshot s
      in if region (snapshot_auth snapshot) = correct_region then (RegionDone correct_region False, s)
         else case RegionReplacement D fresh snapshot correct_region of
           Inl e \<Rightarrow> (ThreadThrew e, s)
         | Inr replacement \<Rightarrow> (RegionPublish correct_region snapshot replacement, s))"
| "SetSessionRegion D fresh (RegionPublish correct_region current replacement) s =
     (case TryPublish s current replacement of
        ((_, published), s') \<Rightarrow> (if published then RegionDone correct_region True else RegionStart correct_region, s'))"
| "SetSessionRegion D fresh t s = (t, s)"

record s3_system =
  s3_session :: s3_session
  s3_threads :: "s3_thread list"
  s3_next :: nat

inductive s3_step :: "duckdb_api \<Rightarrow> s3_system \<Rightarrow> s3_system \<Rightarrow> bool" for D where
  start_refresh: "s3_step D st (st\<lparr>s3_threads := s3_threads st @ [RefreshStart (current_snapshot (s3_session st))]\<rparr>)"
| start_region: "s3_step D st (st\<lparr>s3_threads := s3_threads st @ [RegionStart r]\<rparr>)"
| run_refresh: "i < length (s3_threads st) \<Longrightarrow>
    TryRefreshSession D reloaded (s3_next st) (s3_threads st ! i) (s3_session st) = (t', s') \<Longrightarrow>
    s3_step D st (st\<lparr>s3_session := s', s3_threads := (s3_threads st)[i := t'], s3_next := s3_next st + 1\<rparr>)"
| run_region: "i < length (s3_threads st) \<Longrightarrow>
    SetSessionRegion D (s3_next st) (s3_threads st ! i) (s3_session st) = (t', s') \<Longrightarrow>
    s3_step D st (st\<lparr>s3_session := s', s3_threads := (s3_threads st)[i := t'], s3_next := s3_next st + 1\<rparr>)"

inductive_cases s3_stepE: "s3_step D st st'"

definition s3_start :: "HTTPFSParams \<Rightarrow> S3AuthParams \<Rightarrow> string \<Rightarrow> s3_system" where
  "s3_start http_params auth path =
     \<lparr>s3_session = CreateSession 0 http_params auth path True None, s3_threads = [], s3_next = 1\<rparr>"

section \<open>What the threads keep\<close>

abbreviation session_region :: "S3RequestSnapshot \<Rightarrow> string" where
  "session_region snapshot \<equiv> region (snapshot_auth snapshot)"

abbreviation s3_current :: "s3_system \<Rightarrow> S3RequestSnapshot" where
  "s3_current st \<equiv> current_snapshot (s3_session st)"

fun thread_snapshots :: "s3_thread \<Rightarrow> S3RequestSnapshot set" where
  "thread_snapshots (RefreshPublish failed auth http current replacement) = {current, replacement}"
| "thread_snapshots (RegionPublish r current replacement) = {current, replacement}"
| "thread_snapshots t = {}"

text \<open>What a thread at each place relies on, given the current snapshot.\<close>

fun thread_ok :: "S3RequestSnapshot \<Rightarrow> s3_thread \<Rightarrow> bool" where
  "thread_ok cur (RefreshStart failed) = (credential_generation failed \<le> credential_generation cur)"
| "thread_ok cur (RefreshReload failed current) = (credential_generation failed \<le> credential_generation cur)"
| "thread_ok cur (RefreshUnchanged failed) = (credential_generation failed \<le> credential_generation cur)"
| "thread_ok cur (RefreshLoop failed auth http) = (credential_generation failed \<le> credential_generation cur)"
| "thread_ok cur (RefreshPublish failed auth http current replacement) =
     (credential_generation failed \<le> credential_generation cur \<and>
      credential_generation current = credential_generation failed \<and>
      credential_generation replacement = credential_generation current + 1 \<and>
      (region_redirected current \<longrightarrow> region_redirected replacement \<and>
         (session_region current \<noteq> [] \<longrightarrow> session_region replacement = session_region current)))"
| "thread_ok cur (RefreshDone failed done) =
     (credential_generation failed \<le> credential_generation cur \<and>
      (done \<longrightarrow> credential_generation failed < credential_generation cur))"
| "thread_ok cur (RegionPublish r current replacement) =
     (credential_generation replacement = credential_generation current \<and> region_redirected replacement \<and>
      (r \<noteq> [] \<longrightarrow> session_region replacement = r))"
| "thread_ok cur t = True"

lemma thread_ok_mono:
  "thread_ok cur t \<Longrightarrow> credential_generation cur \<le> credential_generation cur' \<Longrightarrow> thread_ok cur' t"
  by (cases t) auto

definition live_snapshots :: "s3_system \<Rightarrow> S3RequestSnapshot set" where
  "live_snapshots st = insert (s3_current st) (\<Union>t \<in> set (s3_threads st). thread_snapshots t)"

definition s3_inv :: "s3_system \<Rightarrow> bool" where
  "s3_inv st \<longleftrightarrow>
     inj_on snapshot_id (live_snapshots st) \<and> (\<forall>x \<in> live_snapshots st. snapshot_id x < s3_next st) \<and>
     (\<forall>t \<in> set (s3_threads st). thread_ok (s3_current st) t)"

lemma SetRegion_region: "SetRegion D r p = Inr q \<Longrightarrow> r \<noteq> [] \<Longrightarrow> region q = r"
  by (auto simp: SetRegion_def FinalizeAuthParams_def ApplyProviderDefaults_def ApplyDerivedDefaults_def Let_def
      split: if_splits)

lemma RefreshReplacement_fields:
  "RefreshReplacement D fresh latest auth http = Inr replacement \<Longrightarrow>
     snapshot_id replacement = fresh \<and> credential_generation replacement = credential_generation latest + 1 \<and>
     (region_redirected latest \<longrightarrow> region_redirected replacement \<and>
        (session_region latest \<noteq> [] \<longrightarrow> session_region replacement = session_region latest))"
  by (auto simp: RefreshReplacement_def bind_res_Inr_iff SetRegion_region split: if_splits)

lemma RegionReplacement_fields:
  "RegionReplacement D fresh snapshot r = Inr replacement \<Longrightarrow>
     snapshot_id replacement = fresh \<and> credential_generation replacement = credential_generation snapshot \<and>
     region_redirected replacement \<and> (r \<noteq> [] \<longrightarrow> session_region replacement = r)"
  by (auto simp: RegionReplacement_def bind_res_Inr_iff SetRegion_region)

text \<open>
  One step of a thread: it keeps the current snapshot or replaces the very one it captured, and
  what it holds afterwards is what it held, the current snapshot or a new one.
\<close>

definition thread_moves :: "nat \<Rightarrow> s3_thread \<Rightarrow> s3_session \<Rightarrow> s3_thread \<Rightarrow> s3_session \<Rightarrow> bool" where
  "thread_moves fresh t s t' s' \<longleftrightarrow>
     (current_snapshot s' = current_snapshot s \<and>
        (\<forall>x \<in> thread_snapshots t'. x \<in> thread_snapshots t \<or> x = current_snapshot s \<or> snapshot_id x = fresh) \<and>
        (\<forall>x \<in> thread_snapshots t'. \<forall>y \<in> thread_snapshots t'. snapshot_id x = fresh \<and> snapshot_id y = fresh \<longrightarrow> x = y) \<or>
      thread_snapshots t' = {} \<and>
        (\<exists>current. snapshot_id current = snapshot_id (current_snapshot s) \<and>
           thread_snapshots t = {current, current_snapshot s'} \<and>
           ((\<exists>failed auth http. t = RefreshPublish failed auth http current (current_snapshot s') \<and> t' = RefreshDone failed True) \<or>
            (\<exists>r. t = RegionPublish r current (current_snapshot s') \<and> t' = RegionDone r True))))"

lemma TryPublish_current:
  "TryPublish s expected replacement = ((c, published), s') \<Longrightarrow>
     if published then snapshot_id (current_snapshot s) = snapshot_id expected \<and> current_snapshot s' = replacement
     else s' = s"
  by (auto simp: TryPublish_def Let_def split: if_splits)

lemma refresh_moves:
  assumes "TryRefreshSession D reloaded fresh t s = (t', s')" "thread_ok (current_snapshot s) t" "snapshot_id (current_snapshot s) < fresh"
    and "\<forall>x \<in> thread_snapshots t. snapshot_id x < fresh"
  shows "thread_moves fresh t s t' s' \<and> thread_ok (current_snapshot s') t'"
proof (cases t)
  case (RefreshLoop failed auth http)
  with assms show ?thesis
    by (auto simp: thread_moves_def Let_def dest: RefreshReplacement_fields split: if_splits sum.splits)
next
  case (RefreshPublish failed auth http current replacement)
  with assms show ?thesis
    by (auto simp: thread_moves_def dest!: TryPublish_current split: prod.splits if_splits)
qed (use assms in \<open>auto simp: thread_moves_def Let_def split: if_splits sum.splits option.splits prod.splits\<close>)

lemma region_moves:
  assumes "SetSessionRegion D fresh t s = (t', s')" "thread_ok (current_snapshot s) t" "snapshot_id (current_snapshot s) < fresh"
    and "\<forall>x \<in> thread_snapshots t. snapshot_id x < fresh"
  shows "thread_moves fresh t s t' s' \<and> thread_ok (current_snapshot s') t'"
proof (cases t)
  case (RegionStart r)
  with assms show ?thesis
    by (auto simp: thread_moves_def Let_def dest: RegionReplacement_fields split: if_splits sum.splits)
next
  case (RegionPublish r current replacement)
  with assms show ?thesis
    by (auto simp: thread_moves_def dest!: TryPublish_current split: prod.splits if_splits)
qed (use assms in \<open>auto simp: thread_moves_def\<close>)

text \<open>How a move of a thread changes the current snapshot.\<close>

definition snapshot_follows :: "s3_thread list \<Rightarrow> S3RequestSnapshot \<Rightarrow> S3RequestSnapshot \<Rightarrow> bool" where
  "snapshot_follows ts cur cur' \<longleftrightarrow>
     credential_generation cur \<le> credential_generation cur' \<and>
     (region_redirected cur \<longrightarrow>
        region_redirected cur' \<and>
        (session_region cur' = session_region cur \<or> session_region cur = [] \<or>
         (\<exists>r. RegionPublish r cur cur' \<in> set ts \<and> (r \<noteq> [] \<longrightarrow> session_region cur' = r))))"

lemma snapshot_follows_refl [simp]: "snapshot_follows ts cur cur"
  by (simp add: snapshot_follows_def)

lemma move_follows:
  assumes "s3_inv st" "t \<in> set (s3_threads st)" "thread_moves fresh t (s3_session st) t' s'"
  shows "snapshot_follows (s3_threads st) (s3_current st) (current_snapshot s')"
  using assms(3) unfolding thread_moves_def
proof (elim disjE conjE exE)
  fix current
  assume id: "snapshot_id current = snapshot_id (s3_current st)" and "thread_snapshots t = {current, current_snapshot s'}"
  then have "current \<in> live_snapshots st" using assms(2) by (auto simp: live_snapshots_def)
  moreover have "s3_current st \<in> live_snapshots st" by (simp add: live_snapshots_def)
  ultimately have current: "current = s3_current st" using assms(1) id by (auto simp: s3_inv_def dest: inj_onD)
  have ok: "thread_ok (s3_current st) t" using assms(1,2) by (simp add: s3_inv_def)
  {
    fix failed auth http
    assume "t = RefreshPublish failed auth http current (current_snapshot s')"
    with ok show ?thesis by (auto simp: current snapshot_follows_def)
  next
    fix r
    assume t: "t = RegionPublish r current (current_snapshot s')"
    with ok assms(2) show ?thesis by (auto simp: current snapshot_follows_def)
  }
qed simp

lemma move_inv:
  assumes inv: "s3_inv st" and i: "i < length (s3_threads st)"
    and move: "thread_moves (s3_next st) (s3_threads st ! i) (s3_session st) t' s'"
    and ok: "thread_ok (current_snapshot s') t'"
  shows "s3_inv (st\<lparr>s3_session := s', s3_threads := (s3_threads st)[i := t'], s3_next := s3_next st + 1\<rparr>)"
proof -
  let ?st = "st\<lparr>s3_session := s', s3_threads := (s3_threads st)[i := t'], s3_next := s3_next st + 1\<rparr>"
  let ?t = "s3_threads st ! i"
  have t: "?t \<in> set (s3_threads st)" using i by simp
  have old: "inj_on snapshot_id (live_snapshots st)" "\<forall>x \<in> live_snapshots st. snapshot_id x < s3_next st"
    using inv by (simp_all add: s3_inv_def)
  have sub: "live_snapshots ?st \<subseteq> insert (current_snapshot s') (thread_snapshots t') \<union> live_snapshots st"
    using set_update_subset_insert [of "s3_threads st" i t'] by (auto simp: live_snapshots_def)
  have new: "x \<in> live_snapshots st \<or> snapshot_id x = s3_next st" if "x \<in> live_snapshots ?st" for x
  proof -
    have "current_snapshot s' \<in> live_snapshots st"
      using move t by (auto simp: thread_moves_def live_snapshots_def)
    moreover have "y \<in> live_snapshots st \<or> snapshot_id y = s3_next st" if "y \<in> thread_snapshots t'" for y
      using move t that by (auto simp: thread_moves_def live_snapshots_def)
    ultimately show ?thesis using that sub by auto
  qed
  have fresh: "x = y" if "x \<in> live_snapshots ?st" "y \<in> live_snapshots ?st" "snapshot_id x = s3_next st" "snapshot_id y = s3_next st" for x y
  proof -
    have "x \<notin> live_snapshots st" "y \<notin> live_snapshots st" using that(3,4) old(2) by auto
    moreover have "current_snapshot s' \<in> live_snapshots st"
      using move t by (auto simp: thread_moves_def live_snapshots_def)
    ultimately have "x \<in> thread_snapshots t'" "y \<in> thread_snapshots t'" using that(1,2) sub by auto
    with that(3,4) move show ?thesis by (auto simp: thread_moves_def)
  qed
  have "inj_on snapshot_id (live_snapshots ?st)"
  proof (rule inj_onI)
    fix x y assume xy: "x \<in> live_snapshots ?st" "y \<in> live_snapshots ?st" "snapshot_id x = snapshot_id y"
    show "x = y"
    proof (cases "snapshot_id x = s3_next st")
      case True
      with xy fresh show ?thesis by simp
    next
      case False
      with new [OF xy(1)] new [OF xy(2)] xy(3) have "x \<in> live_snapshots st" "y \<in> live_snapshots st" by auto
      with xy(3) old(1) show ?thesis by (auto dest: inj_onD)
    qed
  qed
  moreover have "\<forall>x \<in> live_snapshots ?st. snapshot_id x < s3_next ?st" using new old(2) by fastforce
  moreover have "thread_ok (s3_current ?st) x" if "x \<in> set (s3_threads ?st)" for x
  proof -
    have "x = t' \<or> x \<in> set (s3_threads st)"
      using that set_update_subset_insert [of "s3_threads st" i t'] by auto
    moreover have "thread_ok (current_snapshot s') x" if "x \<in> set (s3_threads st)"
      using inv that move_follows [OF inv t move] by (auto simp: s3_inv_def snapshot_follows_def intro: thread_ok_mono)
    ultimately show ?thesis using ok by auto
  qed
  ultimately show ?thesis by (simp add: s3_inv_def)
qed

lemma s3_step_inv:
  assumes "s3_step D st st'" "s3_inv st"
  shows "s3_inv st' \<and> snapshot_follows (s3_threads st) (s3_current st) (s3_current st')"
  using assms(1)
proof cases
  case (run_refresh i reloaded t' s')
  have t: "s3_threads st ! i \<in> set (s3_threads st)" using run_refresh(2) by simp
  then have "thread_ok (s3_current st) (s3_threads st ! i)" "snapshot_id (s3_current st) < s3_next st"
    "\<forall>x \<in> thread_snapshots (s3_threads st ! i). snapshot_id x < s3_next st"
    using assms(2) t by (auto simp: s3_inv_def live_snapshots_def)
  with refresh_moves [OF run_refresh(3)]
  have "thread_moves (s3_next st) (s3_threads st ! i) (s3_session st) t' s'" "thread_ok (current_snapshot s') t'" by blast+
  from move_inv [OF assms(2) run_refresh(2) this] move_follows [OF assms(2) t this(1)] show ?thesis
    by (simp add: run_refresh(1))
next
  case (run_region i t' s')
  have t: "s3_threads st ! i \<in> set (s3_threads st)" using run_region(2) by simp
  then have "thread_ok (s3_current st) (s3_threads st ! i)" "snapshot_id (s3_current st) < s3_next st"
    "\<forall>x \<in> thread_snapshots (s3_threads st ! i). snapshot_id x < s3_next st"
    using assms(2) t by (auto simp: s3_inv_def live_snapshots_def)
  with region_moves [OF run_region(3)]
  have "thread_moves (s3_next st) (s3_threads st ! i) (s3_session st) t' s'" "thread_ok (current_snapshot s') t'" by blast+
  from move_inv [OF assms(2) run_region(2) this] move_follows [OF assms(2) t this(1)] show ?thesis
    by (simp add: run_region(1))
qed (use assms(2) in \<open>auto simp: s3_inv_def live_snapshots_def\<close>)

lemma s3_reachable_inv:
  "(s3_step D)\<^sup>*\<^sup>* (s3_start http_params auth path) st \<Longrightarrow> s3_inv st"
proof (induction rule: rtranclp_induct)
  case base
  show ?case by (simp add: s3_start_def s3_inv_def live_snapshots_def CreateSession_def new_session_def Let_def)
next
  case (step st st')
  then show ?case using s3_step_inv by blast
qed

text \<open>
  C24: However requests refresh the credentials and follow region redirects at the same time, no step
  loses what another one published: the credentials only move to later generations, and the region
  that a redirect named stays in force until another redirect replaces the very snapshot that holds
  it.
\<close>

theorem redirect_kept:
  assumes "(s3_step D)\<^sup>*\<^sup>* (s3_start http_params auth path) st" "s3_step D st st'"
    and "region_redirected (s3_current st)" "session_region (s3_current st) \<noteq> []"
  shows "credential_generation (s3_current st) \<le> credential_generation (s3_current st') \<and>
    region_redirected (s3_current st') \<and>
    (session_region (s3_current st') = session_region (s3_current st) \<or>
     (\<exists>r. RegionPublish r (s3_current st) (s3_current st') \<in> set (s3_threads st) \<and>
        \<not> (r \<noteq> [] \<and> session_region (s3_current st') \<noteq> r)))"
  using s3_step_inv [OF assms(2) s3_reachable_inv [OF assms(1)]] assms(3,4)
  by (auto simp: snapshot_follows_def)

text \<open>
  A request repeats itself after a refresh only with credentials of a later generation than those
  that failed: when \<open>TryRefreshSession\<close> returns true, the session holds a later one, whichever
  thread published it.
\<close>

theorem refreshed_later:
  assumes "(s3_step D)\<^sup>*\<^sup>* (s3_start http_params auth path) st" "RefreshDone failed True \<in> set (s3_threads st)"
  shows "credential_generation failed < credential_generation (s3_current st)"
  using s3_reachable_inv [OF assms(1)] assms(2) by (auto simp: s3_inv_def)

section \<open>A refresh after a redirect\<close>

definition refresh_turn ::
  "(S3AuthParams \<times> HTTPFSParams) option res \<Rightarrow> nat \<Rightarrow> s3_system \<Rightarrow> s3_system" where
  "refresh_turn reloaded i st =
     (let (t', s') = TryRefreshSession std_api reloaded (s3_next st) (s3_threads st ! i) (s3_session st)
      in st\<lparr>s3_session := s', s3_threads := (s3_threads st)[i := t'], s3_next := s3_next st + 1\<rparr>)"

definition region_turn :: "nat \<Rightarrow> s3_system \<Rightarrow> s3_system" where
  "region_turn i st =
     (let (t', s') = SetSessionRegion std_api (s3_next st) (s3_threads st ! i) (s3_session st)
      in st\<lparr>s3_session := s', s3_threads := (s3_threads st)[i := t'], s3_next := s3_next st + 1\<rparr>)"

lemma turn_steps:
  "i < length (s3_threads st) \<Longrightarrow> s3_step std_api st (refresh_turn reloaded i st)"
  "i < length (s3_threads st) \<Longrightarrow> s3_step std_api st (region_turn i st)"
  using run_refresh [of i st std_api reloaded] run_region [of i st std_api]
  by (auto simp: refresh_turn_def region_turn_def split: prod.splits)

lemma turn_reachable:
  "(s3_step std_api)\<^sup>*\<^sup>* st0 st \<Longrightarrow> i < length (s3_threads st) \<Longrightarrow>
     (s3_step std_api)\<^sup>*\<^sup>* st0 (refresh_turn reloaded i st) \<and> (s3_step std_api)\<^sup>*\<^sup>* st0 (region_turn i st)"
  using turn_steps [of i st] by (auto intro: rtranclp.rtrancl_into_rtrancl)

lemma turn_length [simp]:
  "length (s3_threads (refresh_turn reloaded i st)) = length (s3_threads st)"
  "length (s3_threads (region_turn i st)) = length (s3_threads st)"
  by (simp_all add: refresh_turn_def region_turn_def split: prod.splits)

definition old_auth :: S3AuthParams where
  "old_auth = init_auth\<lparr>endpoint := ''localhost:9000'', region := ''us'', access_key_id := ''old''\<rparr>"

definition both_start :: s3_system where
  "both_start = (s3_start sample_params old_auth ''s3://b/k'')
     \<lparr>s3_threads := [RegionStart ''eu'',
        RefreshStart (current_snapshot (s3_session (s3_start sample_params old_auth ''s3://b/k'')))]\<rparr>"

text \<open>
  The refresh captures the snapshot, then the redirect publishes its region, then the refresh
  publishes.
\<close>

definition before_publish :: s3_system where
  "before_publish =
     refresh_turn (Inr None) 1 (region_turn 0 (region_turn 0 (refresh_turn (Inr (Some (old_auth\<lparr>access_key_id := ''new''\<rparr>, sample_params))) 1
       (refresh_turn (Inr None) 1 both_start))))"

definition after_publish :: s3_system where
  "after_publish = refresh_turn (Inr None) 1 before_publish"

lemma both_reachable: "(s3_step std_api)\<^sup>*\<^sup>* (s3_start sample_params old_auth ''s3://b/k'') both_start"
proof -
  let ?s = "s3_start sample_params old_auth ''s3://b/k''"
  have "s3_step std_api ?s (?s\<lparr>s3_threads := [RegionStart ''eu'']\<rparr>)"
    using start_region [of std_api ?s "''eu''"] by (simp add: s3_start_def)
  moreover have "s3_step std_api (?s\<lparr>s3_threads := [RegionStart ''eu'']\<rparr>) both_start"
    using start_refresh [of std_api "?s\<lparr>s3_threads := [RegionStart ''eu'']\<rparr>"] by (simp add: both_start_def s3_start_def)
  ultimately show ?thesis by (meson r_into_rtranclp rtranclp_trans)
qed

lemma publish_reachable:
  "(s3_step std_api)\<^sup>*\<^sup>* (s3_start sample_params old_auth ''s3://b/k'') before_publish"
  "s3_step std_api before_publish after_publish"
proof -
  have len: "length (s3_threads both_start) = 2" by (simp add: both_start_def)
  show "(s3_step std_api)\<^sup>*\<^sup>* (s3_start sample_params old_auth ''s3://b/k'') before_publish"
    unfolding before_publish_def
    by (intro turn_reachable [THEN conjunct1] turn_reachable [THEN conjunct2] both_reachable) (simp_all add: len)
  show "s3_step std_api before_publish after_publish"
    unfolding after_publish_def by (rule turn_steps) (simp add: before_publish_def len)
qed

lemmas turn_defs = refresh_turn_def region_turn_def both_start_def s3_start_def CreateSession_def new_session_def
  CredentialRefreshEnabled_def TryPublish_def RefreshReplacement_def RegionReplacement_def SetRegion_def
  FinalizeAuthParams_def ApplyProviderDefaults_def ApplyDerivedDefaults_def RequiresExplicitEndpoint_def
  old_auth_def init_auth_def Let_def

lemma not_aws: "EndpointIsAWS std_api ''localhost:9000'' = False"
  by code_simp

lemma before_fields:
  "region_redirected (s3_current before_publish)" "session_region (s3_current before_publish) = ''eu''"
  "s3_threads after_publish = [RegionDone ''eu'' True, RefreshDone (current_snapshot (s3_session (s3_start sample_params old_auth ''s3://b/k''))) True]"
  by (simp_all add: after_publish_def before_publish_def turn_defs not_aws)

theorem redirect_kept_witness:
  "region_redirected (s3_current before_publish) \<and> region_redirected (s3_current after_publish) \<and>
   credential_generation (s3_current before_publish) \<le> credential_generation (s3_current after_publish)"
  using redirect_kept [OF publish_reachable before_fields(1)] by (simp add: before_fields)

theorem refreshed_later_witness: "0 < credential_generation (s3_current after_publish)"
proof -
  let ?first = "current_snapshot (s3_session (s3_start sample_params old_auth ''s3://b/k''))"
  have "(s3_step std_api)\<^sup>*\<^sup>* (s3_start sample_params old_auth ''s3://b/k'') after_publish"
    using publish_reachable by (rule rtranclp.rtrancl_into_rtrancl)
  moreover have "RefreshDone ?first True \<in> set (s3_threads after_publish)" by (simp add: before_fields)
  ultimately have "credential_generation ?first < credential_generation (s3_current after_publish)"
    by (rule refreshed_later)
  then show ?thesis by simp
qed

end
