(* ===== verification/S3_Executor.thy ===== *)
theory S3_Executor
  imports S3_Session S3_Upload_State Http_Range
begin

text \<open>
  Requests of an S3 session (src/src/s3/s3_request.cpp): the data of a request made from a captured
  snapshot, sending it with a leased client, and \<open>RunSession\<close> and \<open>RunHandle\<close>, which put these together
  with the retrying executor, the refresh of the credentials and the change of the region.
\<close>

section \<open>The data of a request\<close>

record 'h S3SessionRequest = S3RequestData +
  data_captured :: "S3RequestSnapshot CapturedHTTPRequestSnapshot"
  data_http_params :: HTTPFSParams
  data_http_url :: string
  data_headers :: 'h

definition CreateRequestData ::
  "duckdb_api \<Rightarrow> 'h headers_api \<Rightarrow> crypto_api \<Rightarrow> string \<times> string \<Rightarrow> S3RequestSnapshot CapturedHTTPRequestSnapshot \<Rightarrow> string \<Rightarrow>
     RequestType \<Rightarrow> S3RequestTarget \<Rightarrow> (ParsedS3Url \<Rightarrow> S3RequestQuery) \<Rightarrow> string \<Rightarrow> string \<Rightarrow> string \<Rightarrow>
     'h S3SessionRequest res" where
  "CreateRequestData D H C clock captured s3_url request_type target create_query payload_hash content_type content_md5 =
     (let auth = snapshot_auth (captured_snapshot captured);
          http_params = CreateRequestParams (captured_snapshot captured)
      in bind_res (Parse D s3_url auth) (\<lambda>parsed_s3_url.
         let query = create_query parsed_s3_url;
             parsed = (if target = BUCKET then parsed_s3_url\<lparr>url_path := GetBucketPath parsed_s3_url\<rparr> else parsed_s3_url)
         in bind_res (CreateHeaders D H C clock parsed query request_type auth [] [] payload_hash content_type content_md5
                (extra_headers http_params) (user_agent http_params)) (\<lambda>headers.
            Inr \<lparr>data_request_type = request_type, data_auth_params = auth,
                 data_retries = unat (retries http_params), data_retry_wait = unat (retry_wait_ms http_params),
                 data_display_url = GetDisplayUrl s3_url auth, data_captured = captured, data_http_params = http_params,
                 data_http_url = GetHTTPUrl D parsed (wire_query query), data_headers = headers\<rparr>)))"

definition VersionQuery :: "duckdb_api \<Rightarrow> string \<Rightarrow> ParsedS3Url \<Rightarrow> S3RequestQuery" where
  "VersionQuery D version_id parsed =
     MakeQuery D (if version_id = [] then [] else [(''versionId'', version_id)])"

definition CreateHandleRequestData ::
  "duckdb_api \<Rightarrow> 'h headers_api \<Rightarrow> crypto_api \<Rightarrow> string \<times> string \<Rightarrow> s3_session \<Rightarrow> string \<Rightarrow> RequestType \<Rightarrow> string \<Rightarrow>
     'h S3SessionRequest res" where
  "CreateHandleRequestData D H C clock session s3_url request_type version_id =
     CreateRequestData D H C clock (Capture session) s3_url request_type OBJECT (VersionQuery D version_id) [] [] []"

section \<open>Sending it\<close>

text \<open>
  \<open>request\<close> is \<open>HTTPUtil::Request\<close> with the leased client: it gives the response, \<open>None\<close> for a null
  pointer, or throws, and leaves a client in the lease. Other threads may use the session in the
  meantime (\<open>others\<close>). The last component tells that the connections of the library were cleared.
\<close>

definition SendSessionRequest ::
  "utf8proc \<Rightarrow> (HTTPClient option \<Rightarrow> (ErrorData + HTTPResponse option) \<times> HTTPClient option) \<Rightarrow> (s3_session \<Rightarrow> s3_session) \<Rightarrow>
     HTTPClient \<Rightarrow> S3RequestSnapshot CapturedHTTPRequestSnapshot \<Rightarrow> string \<Rightarrow> s3_session \<Rightarrow>
     (ErrorData + HTTPResponse option) \<times> s3_session \<times> bool" where
  "SendSessionRequest U request others made captured proto_host_port session =
     (let (lease, s1) = AcquireClient made captured proto_host_port session;
          (outcome, client) = request (lease_client lease);
          s2 = others s1;
          (failed, request_timeout) =
            (case outcome of
               Inl e \<Rightarrow> (True, IsS3RequestTimeoutError U e)
             | Inr None \<Rightarrow> (False, False)
             | Inr (Some response) \<Rightarrow>
                 (IsRequestTimeout U response \<or> request_error response, IsRequestTimeout U response));
          lease1 = lease\<lparr>lease_client := client\<rparr>;
          lease2 = (if failed then InvalidateLease lease1 else lease1);
          s3 = (if request_timeout then InvalidateClients s2 else s2);
          (lease3, s4, closed) = Release lease2 s3
      in (outcome, s4, request_timeout))"

section \<open>Running a request\<close>

text \<open>
  The session and the rest of the world. \<open>reload\<close> is \<open>TryRefreshS3AuthMaterial\<close> for the snapshot that the
  refresh captured. A thread that nobody disturbs needs at most five turns.
\<close>

record 'w s3_world =
  world_session :: s3_session
  world_next :: nat
  world_rest :: 'w

definition plain_error :: "exn \<Rightarrow> ErrorData" where
  "plain_error e = \<lparr>error_exn = e, extra_info = (\<lambda>_. None)\<rparr>"

type_synonym 'w reload = "S3RequestSnapshot \<Rightarrow> 'w \<Rightarrow> (S3AuthParams \<times> HTTPFSParams) option res \<times> 'w"

definition refresh_turn_alone :: "duckdb_api \<Rightarrow> 'w reload \<Rightarrow> s3_thread \<times> 'w s3_world \<Rightarrow> s3_thread \<times> 'w s3_world" where
  "refresh_turn_alone D reload = (\<lambda>(t, w).
     let (reloaded, rest) = (case t of RefreshReload failed current \<Rightarrow> reload current (world_rest w)
           | _ \<Rightarrow> (Inr None, world_rest w));
         (t', s') = TryRefreshSession D reloaded (world_next w) t (world_session w)
     in (t', w\<lparr>world_session := s', world_next := world_next w + 1, world_rest := rest\<rparr>))"

definition RefreshSession ::
  "duckdb_api \<Rightarrow> 'w reload \<Rightarrow> 'h S3SessionRequest \<Rightarrow> 'w s3_world \<Rightarrow> (ErrorData + bool) \<times> 'w s3_world" where
  "RefreshSession D reload request_data w =
     (case (refresh_turn_alone D reload ^^ 5) (RefreshStart (captured_snapshot (data_captured request_data)), w) of
        (RefreshDone failed b, w') \<Rightarrow> (Inr b, w')
      | (ThreadThrew e, w') \<Rightarrow> (Inl (plain_error e), w')
      | (_, w') \<Rightarrow> (Inr False, w'))"

definition region_turn_alone :: "duckdb_api \<Rightarrow> s3_thread \<times> 'w s3_world \<Rightarrow> s3_thread \<times> 'w s3_world" where
  "region_turn_alone D = (\<lambda>(t, w).
     let (t', s') = SetSessionRegion D (world_next w) t (world_session w)
     in (t', w\<lparr>world_session := s', world_next := world_next w + 1\<rparr>))"

definition ChangeRegion :: "duckdb_api \<Rightarrow> string \<Rightarrow> 'w s3_world \<Rightarrow> (ErrorData + unit) \<times> 'w s3_world" where
  "ChangeRegion D correct_region w =
     (case (region_turn_alone D ^^ 2) (RegionStart correct_region, w) of
        (ThreadThrew e, w') \<Rightarrow> (Inl (plain_error e), w')
      | (_, w') \<Rightarrow> (Inr (), w'))"

definition session_callbacks ::
  "duckdb_api \<Rightarrow> (s3_session \<Rightarrow> 'h S3SessionRequest res) \<Rightarrow>
     ('h S3SessionRequest \<Rightarrow> 'w s3_world \<Rightarrow> (ErrorData + HTTPResponse) \<times> 'w s3_world) \<Rightarrow> 'w reload \<Rightarrow>
     ('h S3SessionRequest, 'w s3_world) callbacks" where
  "session_callbacks D make_data request reload =
     \<lparr>create_data = (\<lambda>w. (map_sum plain_error id (make_data (world_session w)), w)),
      send_request = request,
      refresh_auth_params = RefreshSession D reload,
      set_region = (\<lambda>request_data correct_region. ChangeRegion D correct_region)\<rparr>"

text \<open>The request context is taken from the data of the last attempt.\<close>

definition final_context :: "'h S3SessionRequest \<Rightarrow> S3RequestContext" where
  "final_context request_data =
     \<lparr>context_request_type = data_request_type request_data, context_auth_params = data_auth_params request_data,
      context_display_url = data_display_url request_data\<rparr>"

definition RunSession ::
  "utf8proc \<Rightarrow> duckdb_api \<Rightarrow> 'h headers_api \<Rightarrow> crypto_api \<Rightarrow> string \<times> string \<Rightarrow> 'w reload \<Rightarrow>
     ('h S3SessionRequest \<Rightarrow> 'w s3_world \<Rightarrow> (ErrorData + HTTPResponse) \<times> 'w s3_world) \<Rightarrow> nat \<Rightarrow> string \<Rightarrow> RequestType \<Rightarrow>
     S3RequestTarget \<Rightarrow> (ParsedS3Url \<Rightarrow> S3RequestQuery) \<Rightarrow> string \<Rightarrow> string \<Rightarrow> string \<Rightarrow> S3PostRequestMode \<Rightarrow> 'w s3_world \<Rightarrow>
     ((ErrorData + HTTPResponse \<times> S3RequestContext) \<times> 'w s3_world) option" where
  "RunSession U D H C clock reload request limit s3_url request_type target create_query payload_hash content_type
     content_md5 mode w =
     map_option (\<lambda>(outcome, sent, w'). (map_sum id (\<lambda>(r, request_data). (r, final_context request_data)) outcome, w'))
       (Run U (session_callbacks D (\<lambda>s. CreateRequestData D H C clock (Capture s) s3_url request_type target create_query
            payload_hash content_type content_md5) request reload) mode limit w)"

definition RunHandle ::
  "utf8proc \<Rightarrow> duckdb_api \<Rightarrow> 'h headers_api \<Rightarrow> crypto_api \<Rightarrow> string \<times> string \<Rightarrow> 'w reload \<Rightarrow>
     ('h S3SessionRequest \<Rightarrow> 'w s3_world \<Rightarrow> (ErrorData + HTTPResponse) \<times> 'w s3_world) \<Rightarrow> nat \<Rightarrow> string \<Rightarrow> RequestType \<Rightarrow>
     string \<Rightarrow> 'w s3_world \<Rightarrow> ((ErrorData + HTTPResponse) \<times> 'w s3_world) option" where
  "RunHandle U D H C clock reload request limit s3_url request_type version_id w =
     map_option (\<lambda>(outcome, sent, w'). (map_sum id fst outcome, w'))
       (Run U (session_callbacks D (\<lambda>s. CreateHandleRequestData D H C clock s s3_url request_type version_id)
            request reload) POST_DEFAULT limit w)"

definition GetPayloadHash :: "(string \<Rightarrow> string) \<Rightarrow> string \<Rightarrow> string" where
  "GetPayloadHash hex_hash payload = (if payload \<noteq> [] then hex_hash payload else [])"

section \<open>The requests of the file system\<close>

text \<open>
  \<open>send\<close> makes the HTTP request of the method (\<open>RunPostRequest\<close> and the others) through \<open>SendSessionRequest\<close>;
  for a POST it clears the result of an earlier attempt first.
\<close>

definition octet_stream :: string where
  "octet_stream = ''application/octet-stream''"

definition PostRequest ::
  "utf8proc \<Rightarrow> duckdb_api \<Rightarrow> 'h headers_api \<Rightarrow> crypto_api \<Rightarrow> string \<times> string \<Rightarrow> 'w reload \<Rightarrow>
     ('h S3SessionRequest \<Rightarrow> 'w s3_world \<Rightarrow> (ErrorData + HTTPResponse) \<times> 'w s3_world) \<Rightarrow> nat \<Rightarrow> string \<Rightarrow> string \<Rightarrow>
     S3RequestQuery \<Rightarrow> S3PostRequestMode \<Rightarrow> 'w s3_world \<Rightarrow> ((ErrorData + HTTPResponse \<times> S3RequestContext) \<times> 'w s3_world) option" where
  "PostRequest U D H C clock reload send limit url payload query mode w =
     RunSession U D H C clock reload send limit url POST_REQUEST OBJECT (\<lambda>_. query)
       (GetPayloadHash (hex_sha256 C) payload) octet_stream [] mode w"

definition PutRequest ::
  "utf8proc \<Rightarrow> duckdb_api \<Rightarrow> 'h headers_api \<Rightarrow> crypto_api \<Rightarrow> string \<times> string \<Rightarrow> 'w reload \<Rightarrow>
     ('h S3SessionRequest \<Rightarrow> 'w s3_world \<Rightarrow> (ErrorData + HTTPResponse) \<times> 'w s3_world) \<Rightarrow> nat \<Rightarrow> string \<Rightarrow> string \<Rightarrow>
     S3RequestQuery \<Rightarrow> 'w s3_world \<Rightarrow> ((ErrorData + HTTPResponse \<times> S3RequestContext) \<times> 'w s3_world) option" where
  "PutRequest U D H C clock reload send limit url payload query w =
     RunSession U D H C clock reload send limit url PUT_REQUEST OBJECT (\<lambda>_. query)
       (GetPayloadHash (hex_sha256 C) payload) octet_stream [] POST_DEFAULT w"

definition SessionDeleteRequest ::
  "utf8proc \<Rightarrow> duckdb_api \<Rightarrow> 'h headers_api \<Rightarrow> crypto_api \<Rightarrow> string \<times> string \<Rightarrow> 'w reload \<Rightarrow>
     ('h S3SessionRequest \<Rightarrow> 'w s3_world \<Rightarrow> (ErrorData + HTTPResponse) \<times> 'w s3_world) \<Rightarrow> nat \<Rightarrow> string \<Rightarrow>
     S3RequestQuery \<Rightarrow> 'w s3_world \<Rightarrow> ((ErrorData + HTTPResponse \<times> S3RequestContext) \<times> 'w s3_world) option" where
  "SessionDeleteRequest U D H C clock reload send limit url query w =
     RunSession U D H C clock reload send limit url DELETE_REQUEST OBJECT (\<lambda>_. query) [] [] [] POST_DEFAULT w"

text \<open>The requests of a handle: a version of the object is only named when it is read.\<close>

definition ReadVersionId :: "HTTPReadConfig \<Rightarrow> string" where
  "ReadVersionId config =
     (if condition_type (read_condition config) = READ_S3_VERSION_ID then condition_value (read_condition config) else [])"

definition HandleGet ::
  "utf8proc \<Rightarrow> duckdb_api \<Rightarrow> 'h headers_api \<Rightarrow> crypto_api \<Rightarrow> string \<times> string \<Rightarrow> 'w reload \<Rightarrow>
     ('h S3SessionRequest \<Rightarrow> 'w s3_world \<Rightarrow> (ErrorData + HTTPResponse) \<times> 'w s3_world) \<Rightarrow> nat \<Rightarrow> string \<Rightarrow>
     HTTPReadConfig \<Rightarrow> 'w s3_world \<Rightarrow> ((ErrorData + HTTPResponse) \<times> 'w s3_world) option" where
  "HandleGet U D H C clock reload send limit s3_url config w =
     RunHandle U D H C clock reload send limit s3_url GET_REQUEST (ReadVersionId config) w"

definition HandleRequest ::
  "utf8proc \<Rightarrow> duckdb_api \<Rightarrow> 'h headers_api \<Rightarrow> crypto_api \<Rightarrow> string \<times> string \<Rightarrow> 'w reload \<Rightarrow>
     ('h S3SessionRequest \<Rightarrow> 'w s3_world \<Rightarrow> (ErrorData + HTTPResponse) \<times> 'w s3_world) \<Rightarrow> nat \<Rightarrow> string \<Rightarrow>
     RequestType \<Rightarrow> 'w s3_world \<Rightarrow> ((ErrorData + HTTPResponse) \<times> 'w s3_world) option" where
  "HandleRequest U D H C clock reload send limit s3_url request_type w =
     RunHandle U D H C clock reload send limit s3_url request_type [] w"

definition GetRequestError :: "utf8proc \<Rightarrow> (int \<Rightarrow> string list) \<Rightarrow> 'h S3SessionRequest \<Rightarrow> HTTPResponse \<Rightarrow> exn" where
  "GetRequestError U status_text request_data response =
     GetError U status_text (data_auth_params request_data) response (data_request_type request_data)
       (S3RequestOperation (data_request_type request_data)) (data_display_url request_data)"

definition S3GetHTTPError ::
  "utf8proc \<Rightarrow> (int \<Rightarrow> string list) \<Rightarrow> s3_session \<Rightarrow> HTTPResponse \<Rightarrow> RequestType \<Rightarrow> string \<Rightarrow> exn" where
  "S3GetHTTPError U status_text session response request_type url =
     (let auth_params = snapshot_auth (captured_snapshot (Capture session))
      in GetError U status_text auth_params response request_type (S3RequestOperation request_type)
           (GetDisplayUrl url auth_params))"

section \<open>Expired credentials\<close>

lemma CreateRequestData_auth:
  "CreateRequestData D H C clock captured s3_url request_type target create_query payload_hash content_type content_md5 = Inr rd \<Longrightarrow>
     data_auth_params rd = snapshot_auth (captured_snapshot captured) \<and> data_captured rd = captured \<and>
     data_retries rd = unat (retries (snapshot_params (captured_snapshot captured)))"
  by (auto simp: CreateRequestData_def Let_def bind_res_Inr_iff CreateRequestParams_def)

text \<open>A refresh that finds new credentials publishes them.\<close>

lemma RefreshSession_publishes:
  assumes "current_snapshot (world_session w) = captured_snapshot (data_captured rd)"
    and "credential_refresh_enabled (captured_snapshot (data_captured rd))" "client_context (captured_snapshot (data_captured rd))"
    and "\<not> region_redirected (captured_snapshot (data_captured rd))"
    and "reload (captured_snapshot (data_captured rd)) (world_rest w) = (Inr (Some (auth, http)), rest)"
  shows "\<exists>w'. RefreshSession D reload rd w = (Inr True, w') \<and> world_rest w' = rest \<and>
    snapshot_auth (current_snapshot (world_session w')) = auth"
  using assms
  by (simp add: RefreshSession_def refresh_turn_alone_def eval_nat_numeral RefreshReplacement_def TryPublish_def Let_def)

text \<open>
  C17: Expired credentials are replaced and the request is repeated with the new ones: when the server
  accepts only the credentials that a reload finds, a request that started with others comes back
  with the accepted response, after one refresh, and its context names the new credentials.
\<close>

theorem RunSession_refreshes:
  assumes data: "CreateRequestData D H C clock (Capture (world_session w)) s3_url request_type target create_query payload_hash
      content_type content_md5 = Inr rd"
    and again: "CreateRequestData D H C clock (Capture (world_session (snd (RefreshSession D reload rd w)))) s3_url request_type target
      create_query payload_hash content_type content_md5 = Inr rd'"
    and snapshot: "snapshot = current_snapshot (world_session w)" "credential_refresh_enabled snapshot" "client_context snapshot"
      "\<not> region_redirected snapshot"
    and reloaded: "reload snapshot (world_rest w) = (Inr (Some (auth, http)), rest)"
    and server: "\<And>rd w. request rd w = (Inr (if data_auth_params rd = auth then accepted else denied), w)"
    and denied: "snapshot_auth snapshot \<noteq> auth" "response_status denied = 403" "\<not> request_error denied"
    and accepted: "response_status accepted = 200" "\<not> IsRetryableReceivedResponse U accepted"
  shows "\<exists>w'. RunSession U D H C clock reload request limit s3_url request_type target create_query payload_hash content_type
      content_md5 mode w = Some (Inr (accepted, final_context rd'), w') \<and>
    context_auth_params (final_context rd') = auth \<and> snapshot_auth (current_snapshot (world_session w')) = auth"
proof -
  let ?make = "\<lambda>s. CreateRequestData D H C clock (Capture s) s3_url request_type target create_query payload_hash content_type content_md5"
  let ?C = "session_callbacks D ?make request reload"
  have rd: "data_auth_params rd = snapshot_auth snapshot" "captured_snapshot (data_captured rd) = snapshot"
    using CreateRequestData_auth [OF data] snapshot(1) by (simp_all add: Capture_def)
  obtain w2 where refresh: "RefreshSession D reload rd w = (Inr True, w2)"
    "snapshot_auth (current_snapshot (world_session w2)) = auth"
    using RefreshSession_publishes [of w rd reload auth http rest D] snapshot reloaded rd by auto
  have rd': "?make (world_session w2) = Inr rd'" "data_auth_params rd' = auth"
    using again refresh CreateRequestData_auth [OF again] by (simp_all add: Capture_def)
  have fuel: "limit + 3 = Suc (Suc (limit + 1))" by simp
  have first: "HandleOutcome U ?C mode init_run rd (Inr denied) w = (Inr (Inr (init_run\<lparr>retried_auth_refresh := True\<rparr>)), w2)"
    using denied refresh(1)
    by (simp add: HandleOutcome_def DecideResponse_def ApplyDecision_def IsAuthRefreshStatus_def session_callbacks_def init_run_def)
  have second: "HandleOutcome U ?C mode (init_run\<lparr>retried_auth_refresh := True\<rparr>) rd' (Inr accepted) w2 = (Inr (Inl accepted), w2)"
  proof -
    have "GetRegionRedirect accepted r = None" for r using accepted(1) by (simp add: GetRegionRedirect_def)
    moreover have "\<not> ShouldRetryReceivedResponse U type accepted mode" for type
      using accepted by (simp add: ShouldRetryReceivedResponse_def IsRequestTimeout_def)
    ultimately show ?thesis by (simp add: HandleOutcome_def DecideResponse_def init_run_def Let_def)
  qed
  have "Run U ?C mode limit w = Some (Inr (accepted, rd'), 2, w2)"
    unfolding Run_def fuel using data rd rd' server denied(1) first second
    by (simp add: session_callbacks_def)
  then show ?thesis using rd'(2) refresh(2) by (simp add: RunSession_def final_context_def)
qed

definition status_response :: "int \<Rightarrow> HTTPResponse" where
  "status_response status =
     \<lparr>request_error = False, response_status = status, response_body = [], response_header = (\<lambda>_. None)\<rparr>"

definition expired_world :: "unit s3_world" where
  "expired_world =
     \<lparr>world_session = CreateSession 0 sample_params old_auth ''s3://b/k'' True None, world_next = 1, world_rest = ()\<rparr>"

abbreviation new_auth :: S3AuthParams where
  "new_auth \<equiv> old_auth\<lparr>access_key_id := ''new''\<rparr>"

lemma sample_data:
  assumes "snapshot_auth (captured_snapshot captured) \<in> {old_auth, new_auth}"
    "snapshot_params (captured_snapshot captured) = sample_params\<lparr>pre_merged_headers := b\<rparr>"
  shows "\<exists>rd. CreateRequestData std_api assoc_headers sample_crypto (''d'', ''t'') captured ''s3://b/k'' GET_REQUEST OBJECT
      (\<lambda>_. MakeQuery std_api []) [] [] [] = Inr rd"
proof -
  obtain url :: ParsedS3Url where "url = \<lparr>http_proto = ''https://'', url_prefix = ''s3://'', url_host = ''b.localhost:9000'',
    url_bucket = ''b'', url_key = ''k'', url_path = ''/k'', url_query_param = [], trimmed_s3_url = ''s3://b/k''\<rparr>" by blast
  then have "Parse std_api ''s3://b/k'' old_auth = Inr url" "Parse std_api ''s3://b/k'' new_auth = Inr url"
    by (simp, code_simp)+
  then obtain parsed where parse: "Parse std_api ''s3://b/k'' (snapshot_auth (captured_snapshot captured)) = Inr parsed"
    using assms(1) by auto
  let ?auth = "snapshot_auth (captured_snapshot captured)"
  obtain h where "CreateHeaders std_api assoc_headers sample_crypto (''d'', ''t'') parsed (MakeQuery std_api []) GET_REQUEST ?auth
      [] [] [] [] [] [] [] = Inr h"
    by (cases "GetAuthType ?auth") (simp_all add: CreateHeaders_def CreateConfiguredS3Headers_def SortConfigured_def Let_def)
  then show ?thesis
    by (simp add: CreateRequestData_def CreateRequestParams_def assms(2) sample_params_def parse Let_def)
qed

text \<open>A server that accepts only the new key, and the reload that finds it.\<close>

definition new_key_server :: "'h S3SessionRequest \<Rightarrow> unit s3_world \<Rightarrow> (ErrorData + HTTPResponse) \<times> unit s3_world" where
  "new_key_server rd w = (Inr (if data_auth_params rd = new_auth then status_response 200 else status_response 403), w)"

definition new_key_reload :: "unit reload" where
  "new_key_reload snapshot w = (Inr (Some (new_auth, sample_params)), w)"

theorem RunSession_refreshes_witness:
  "\<exists>context w'. RunSession ascii_utf8 std_api assoc_headers sample_crypto (''d'', ''t'') new_key_reload new_key_server 3
      ''s3://b/k'' GET_REQUEST OBJECT (\<lambda>_. MakeQuery std_api []) [] [] [] POST_DEFAULT expired_world =
    Some (Inr (status_response 200, context), w') \<and> context_auth_params context = new_auth"
proof -
  let ?data = "\<lambda>s. CreateRequestData std_api assoc_headers sample_crypto (''d'', ''t'') (Capture s) ''s3://b/k'' GET_REQUEST OBJECT
      (\<lambda>_. MakeQuery std_api []) [] [] []"
  let ?snapshot = "current_snapshot (world_session expired_world)"
  have snapshot: "snapshot_auth ?snapshot = old_auth" "snapshot_params ?snapshot = sample_params"
    "credential_refresh_enabled ?snapshot" "client_context ?snapshot" "\<not> region_redirected ?snapshot"
    by (simp_all add: expired_world_def CreateSession_def new_session_def CredentialRefreshEnabled_def)
  have "snapshot_params ?snapshot = sample_params\<lparr>pre_merged_headers := False\<rparr>" by (simp add: snapshot(2) sample_params_def)
  then obtain rd where rd: "?data (world_session expired_world) = Inr rd"
    using sample_data [of "Capture (world_session expired_world)" False] snapshot(1) by (auto simp: Capture_def)
  have captured: "captured_snapshot (data_captured rd) = ?snapshot"
    using CreateRequestData_auth [OF rd] by (simp add: Capture_def)
  let ?after = "world_session (snd (RefreshSession std_api new_key_reload rd expired_world))"
  have "snapshot_auth (current_snapshot ?after) = new_auth \<and>
      snapshot_params (current_snapshot ?after) = sample_params\<lparr>pre_merged_headers := False\<rparr>"
    using captured snapshot
    by (simp add: RefreshSession_def refresh_turn_alone_def eval_nat_numeral RefreshReplacement_def TryPublish_def Let_def
        new_key_reload_def ApplyRefreshable_def RefreshableParams_def CreateRequestParams_def sample_params_def)
  then obtain rd' where rd': "?data ?after = Inr rd'"
    using sample_data [of "Capture ?after" False] by (auto simp: Capture_def)
  have "old_auth \<noteq> new_auth" by (simp add: old_auth_def init_auth_def)
  moreover have "\<not> IsRetryableReceivedResponse ascii_utf8 (status_response 200)" by code_simp
  ultimately have "\<exists>w'. RunSession ascii_utf8 std_api assoc_headers sample_crypto (''d'', ''t'') new_key_reload new_key_server 3
      ''s3://b/k'' GET_REQUEST OBJECT (\<lambda>_. MakeQuery std_api []) [] [] [] POST_DEFAULT expired_world =
      Some (Inr (status_response 200, final_context rd'), w') \<and>
    context_auth_params (final_context rd') = new_auth \<and> snapshot_auth (current_snapshot (world_session w')) = new_auth"
    using snapshot
    by (intro RunSession_refreshes [OF rd rd' refl, where denied = "status_response 403" and http = sample_params and rest = "()"])
      (simp_all add: new_key_reload_def new_key_server_def status_response_def)
  then show ?thesis by blast
qed

end
