(* ===== verification/S3_Delete.thy ===== *)
theory S3_Delete
  imports S3_Executor Xml_Writer "HOL-Library.AList"
begin

text \<open>
  Deleting files (src/src/s3/s3_delete.cpp): the key that decides which files are deleted by one
  bulk request, the collection of the batches, and the requests for at most 1000 keys each.
\<close>

section \<open>The key of a batch\<close>

record S3DeleteBatchUrlInfo =
  batch_prefix :: string
  batch_http_proto :: string
  batch_host :: string
  batch_path :: string
  batch_auth_params :: S3AuthParams

record S3DeleteBatch =
  batch_url_info :: S3DeleteBatchUrlInfo
  batch_keys :: "string list"
  batch_lookup_paths :: "string list"

text \<open>The builder is the list of its parts.\<close>

definition AddString :: "string \<Rightarrow> string" where
  "AddString value = to_string (length value) @ '':'' @ value @ '';''"

definition AddBool :: "bool \<Rightarrow> string" where
  "AddBool value = AddString (if value then ''1'' else ''0'')"

definition AddIndex :: "nat \<Rightarrow> string" where
  "AddIndex value = AddString (to_string value)"

definition provider_index :: "S3ProviderType \<Rightarrow> nat" where
  "provider_index t = (case t of S3 \<Rightarrow> 0 | GCS \<Rightarrow> 1 | R2 \<Rightarrow> 2)"

definition UrlKeyParts :: "S3DeleteBatchUrlInfo \<Rightarrow> string list" where
  "UrlKeyParts url_info =
     [AddString (batch_prefix url_info), AddString (batch_http_proto url_info), AddString (batch_host url_info),
      AddString (batch_path url_info)]"

definition AuthKeyParts :: "S3AuthParams \<Rightarrow> string list" where
  "AuthKeyParts auth =
     [AddIndex (provider_index (provider_type auth)), AddString (region auth), AddString (access_key_id auth),
      AddString (secret_access_key auth), AddString (session_token auth), AddString (endpoint auth),
      AddString (kms_key_id auth), AddString (url_style auth), AddBool (use_ssl auth),
      AddBool (s3_url_compatibility_mode auth), AddBool (requester_pays auth), AddString (oauth2_bearer_token auth)]"

definition HTTPKeyParts :: "S3RefreshableHTTPParams \<Rightarrow> string list" where
  "HTTPKeyParts p =
     [AddString (fresh_proxy p), AddIndex (unat (fresh_proxy_port p)), AddString (fresh_proxy_username p),
      AddString (fresh_proxy_password p), AddBool (fresh_override_verify_ssl p), AddBool (fresh_verify_ssl p),
      AddString (fresh_bearer_token p)] @
     concat (map (\<lambda>(name, v). [AddString name, AddString v]) (sort (fresh_extra_headers p)))"

text \<open>The secret manager of DuckDB: the secret of a type that matches a path, with its score.\<close>

record SecretEntry =
  secret_type :: string
  secret_provider :: string
  secret_name :: string
  storage_mode :: string
  persist_type :: nat
  secret_scope :: "string list"

record delete_api =
  lookup_secret :: "(string \<Rightarrow> string \<Rightarrow> (nat \<times> SecretEntry) option) option"
  read_auth_params :: "string \<Rightarrow> S3AuthParams"
  read_refreshable :: "string \<Rightarrow> S3RefreshableHTTPParams res"
  refresh_setting :: "bool option"
  has_refresh_info :: "(string \<Rightarrow> bool) option"

definition SecretKeyParts :: "SecretEntry \<Rightarrow> string list" where
  "SecretKeyParts entry =
     [AddString (secret_type entry), AddString (secret_provider entry), AddString (secret_name entry),
      AddString (storage_mode entry), AddIndex (persist_type entry), AddIndex (length (secret_scope entry))] @
     map AddString (secret_scope entry)"

definition SelectedSecretKeyParts :: "delete_api \<Rightarrow> string \<Rightarrow> string list" where
  "SelectedSecretKeyParts A path =
     (case lookup_secret A of
        None \<Rightarrow> [AddString []]
      | Some lookup \<Rightarrow>
          concat (map (\<lambda>type. AddString type #
            (case lookup path type of
               None \<Rightarrow> [AddString []]
             | Some (score, entry) \<Rightarrow> AddIndex score # SecretKeyParts entry)) SecretTypes))"

definition GetDeleteBatchLookupDirectory :: "string \<Rightarrow> string" where
  "GetDeleteBatchLookupDirectory path =
     (case char_rfind (CHR ''/'') path of None \<Rightarrow> path | Some slash_pos \<Rightarrow> take (slash_pos + 1) path)"

definition HasRefreshableS3Secret :: "delete_api \<Rightarrow> string \<Rightarrow> bool" where
  "HasRefreshableS3Secret A path = (case has_refresh_info A of None \<Rightarrow> False | Some has \<Rightarrow> has path)"

definition RefreshKeyParts :: "delete_api \<Rightarrow> string \<Rightarrow> string list" where
  "RefreshKeyParts A path =
     (if CredentialRefreshEnabled (refresh_setting A) \<and> HasRefreshableS3Secret A path
      then [AddString (GetDeleteBatchLookupDirectory path)] else [AddString []])"

definition CreateDeleteBatchKey ::
  "delete_api \<Rightarrow> S3DeleteBatchUrlInfo \<Rightarrow> S3RefreshableHTTPParams \<Rightarrow> string \<Rightarrow> string" where
  "CreateDeleteBatchKey A url_info http_params path =
     concat (UrlKeyParts url_info @ AuthKeyParts (batch_auth_params url_info) @ HTTPKeyParts http_params @
       SelectedSecretKeyParts A path @ RefreshKeyParts A path)"

section \<open>The batches\<close>

type_synonym batches = "(string \<times> S3DeleteBatch) list"

definition AddToBatch :: "string \<Rightarrow> S3DeleteBatchUrlInfo \<Rightarrow> string \<Rightarrow> string \<Rightarrow> batches \<Rightarrow> batches" where
  "AddToBatch batch_key url_info k path batches =
     (let batch = (case map_of batches batch_key of
            None \<Rightarrow> \<lparr>batch_url_info = url_info, batch_keys = [], batch_lookup_paths = []\<rparr>
          | Some b \<Rightarrow> b)
      in AList.update batch_key
           (batch\<lparr>batch_keys := batch_keys batch @ [k], batch_lookup_paths := batch_lookup_paths batch @ [path]\<rparr>) batches)"

definition ResolveDelete :: "duckdb_api \<Rightarrow> delete_api \<Rightarrow> string \<Rightarrow> (string \<times> S3DeleteBatchUrlInfo \<times> string) res" where
  "ResolveDelete D A path =
     bind_res (Resolve D path (read_auth_params A path)) (\<lambda>(parsed_url, auth_params).
     bind_res (read_refreshable A path) (\<lambda>http_params.
       let url_info = \<lparr>batch_prefix = url_prefix parsed_url, batch_http_proto = http_proto parsed_url,
             batch_host = url_host parsed_url, batch_path = GetBucketPath parsed_url, batch_auth_params = auth_params\<rparr>
       in Inr (CreateDeleteBatchKey A url_info http_params path, url_info, url_key parsed_url)))"

fun CollectBatches :: "duckdb_api \<Rightarrow> delete_api \<Rightarrow> string list \<Rightarrow> batches \<Rightarrow> batches res" where
  "CollectBatches D A [] batches = Inr batches"
| "CollectBatches D A (path # paths) batches =
     bind_res (ResolveDelete D A path) (\<lambda>(batch_key, url_info, k).
       CollectBatches D A paths (AddToBatch batch_key url_info k path batches))"

section \<open>The requests\<close>

definition MAX_KEYS_PER_REQUEST :: nat where
  "MAX_KEYS_PER_REQUEST = 1000"

text \<open>\<open>error_text\<close> is the text of a request error; \<open>response\<close> carries the body that the POST collected.\<close>

definition DeleteErrorText :: "S3DeleteObjectsError \<Rightarrow> string" where
  "DeleteErrorText error =
     [QUOT] @ delete_error_key error @ [QUOT] @ '': '' @ delete_error_code error @
     (if delete_error_message error \<noteq> [] then '': '' @ delete_error_message error else [])"

definition FinishDelete ::
  "duckdb_api \<Rightarrow> utf8proc \<Rightarrow> (int \<Rightarrow> string list) \<Rightarrow> (HTTPResponse \<Rightarrow> string) \<Rightarrow> S3RequestContext \<Rightarrow> HTTPResponse \<Rightarrow> string \<Rightarrow>
     unit res" where
  "FinishDelete D U status_text error_text ctx response result =
     (if request_error response then
        Inl (Exn IOException (''S3 bulk delete request for '' @ quoted @ '' could not be completed: %s'')
          [context_display_url ctx, error_text response])
      else if response_status response \<noteq> 200 then
        Inl (GetError U status_text (context_auth_params ctx) response (context_request_type ctx) ''bulk-deleting from''
          (context_display_url ctx))
      else case TryParseDeleteObjects U result of
        None \<Rightarrow> Inl (Exn IOException (''Malformed S3 bulk delete response for '' @ quoted) [context_display_url ctx])
      | Some errors \<Rightarrow>
          if errors \<noteq> [] then
            Inl (Exn IOException (''S3 bulk delete for '' @ quoted @ '' failed: %s'')
              [context_display_url ctx, Join D (map DeleteErrorText errors) ''; ''])
          else Inr ())"

text \<open>
  The loop over the keys of a batch from \<open>batch_start\<close> on. \<open>bulk_delete path body\<close> is
  \<open>RunS3BulkDeleteRequest\<close> on the session of the batch, with what \<open>FinishDelete\<close> makes of its answer.
\<close>

function DeleteChunks ::
  "(string \<Rightarrow> string \<Rightarrow> 'w \<Rightarrow> unit res \<times> 'w) \<Rightarrow> S3DeleteBatch \<Rightarrow> nat \<Rightarrow> 'w \<Rightarrow> unit res \<times> 'w" where
  "DeleteChunks bulk_delete batch batch_start w =
     (if batch_start < length (batch_keys batch) then
        let batch_end = min (batch_start + MAX_KEYS_PER_REQUEST) (length (batch_keys batch));
            body = WriteDeleteObjectsRequest (batch_keys batch) batch_start batch_end
        in case bulk_delete (batch_lookup_paths batch ! batch_start) body w of
             (Inl e, w') \<Rightarrow> (Inl e, w')
           | (Inr (), w') \<Rightarrow> DeleteChunks bulk_delete batch (batch_start + MAX_KEYS_PER_REQUEST) w'
      else (Inr (), w))"
  by pat_completeness auto
termination
  by (relation "measure (\<lambda>(_, batch, batch_start, _). length (batch_keys batch) - batch_start)")
    (auto simp: MAX_KEYS_PER_REQUEST_def)

declare DeleteChunks.simps [simp del]

fun DeleteBatches ::
  "(string \<Rightarrow> S3AuthParams \<Rightarrow> string \<Rightarrow> string \<Rightarrow> 'w \<Rightarrow> unit res \<times> 'w) \<Rightarrow> S3DeleteBatch list \<Rightarrow> 'w \<Rightarrow> unit res \<times> 'w" where
  "DeleteBatches bulk_delete [] w = (Inr (), w)"
| "DeleteBatches bulk_delete (batch # batches) w =
     (case DeleteChunks (bulk_delete (hd (batch_lookup_paths batch)) (batch_auth_params (batch_url_info batch))) batch 0 w of
        (Inl e, w') \<Rightarrow> (Inl e, w')
      | (Inr (), w') \<Rightarrow> DeleteBatches bulk_delete batches w')"

text \<open>
  \<open>bulk_delete\<close> takes the path and the parameters that the session of the batch is created with.
  The batches are visited in the order of a hash map, which \<open>visit\<close> gives.
\<close>

definition RemoveFiles ::
  "duckdb_api \<Rightarrow> delete_api \<Rightarrow> (batches \<Rightarrow> batches) \<Rightarrow>
     (string \<Rightarrow> S3AuthParams \<Rightarrow> string \<Rightarrow> string \<Rightarrow> 'w \<Rightarrow> unit res \<times> 'w) \<Rightarrow> string list \<Rightarrow> 'w \<Rightarrow> unit res \<times> 'w" where
  "RemoveFiles D A visit bulk_delete paths w =
     (if paths = [] then (Inr (), w)
      else case CollectBatches D A paths [] of
        Inl e \<Rightarrow> (Inl e, w)
      | Inr batches \<Rightarrow> DeleteBatches bulk_delete (map snd (visit batches)) w)"

text \<open>\<open>files\<close> are the names that \<open>ListFiles\<close> passes to its callback.\<close>

definition RemoveDirectory ::
  "duckdb_api \<Rightarrow> delete_api \<Rightarrow> (batches \<Rightarrow> batches) \<Rightarrow>
     (string \<Rightarrow> S3AuthParams \<Rightarrow> string \<Rightarrow> string \<Rightarrow> 'w \<Rightarrow> unit res \<times> 'w) \<Rightarrow>
     ('w \<Rightarrow> string list res \<times> 'w) \<Rightarrow> 'w \<Rightarrow> unit res \<times> 'w" where
  "RemoveDirectory D A visit bulk_delete list_files w =
     (case list_files w of
        (Inl e, w') \<Rightarrow> (Inl e, w')
      | (Inr files, w') \<Rightarrow> RemoveFiles D A visit bulk_delete files w')"

text \<open>
  One file: \<open>open_file\<close> gives \<open>None\<close> when the file does not exist, and \<open>delete_request\<close> the outcome of the
  DELETE request with the parameters of the session after it.
\<close>

definition RemoveFile ::
  "duckdb_api \<Rightarrow> (string \<Rightarrow> S3AuthParams) \<Rightarrow> (HTTPResponse \<Rightarrow> string) \<Rightarrow> (HTTPResponse \<Rightarrow> exn) \<Rightarrow>
     (string \<Rightarrow> 'w \<Rightarrow> 'handle option res \<times> 'w) \<Rightarrow> ('handle \<Rightarrow> 'w \<Rightarrow> (HTTPResponse \<times> S3AuthParams) res \<times> 'w) \<Rightarrow> string \<Rightarrow> 'w \<Rightarrow>
     unit res \<times> 'w" where
  "RemoveFile D read_auth error_text http_error open_file delete_request path w =
     (case open_file path w of
        (Inl e, w') \<Rightarrow> (Inl e, w')
      | (Inr None, w') \<Rightarrow>
          (bind_res (Resolve D path (read_auth path)) (\<lambda>(url, auth_params).
             Inl (Exn IOException (''Could not remove file '' @ quoted @ '': %s'')
               [GetDisplayUrl path auth_params, ''No such file or directory''])), w')
      | (Inr (Some handle), w') \<Rightarrow>
          (case delete_request handle w' of
             (Inl e, w'') \<Rightarrow> (Inl e, w'')
           | (Inr (response, auth_params), w'') \<Rightarrow>
               (if request_error response then
                  Inl (Exn IOException (''S3 delete request for '' @ quoted @ '' could not be completed: %s'')
                    [GetDisplayUrl path auth_params, error_text response])
                else if response_status response \<noteq> 200 \<and> response_status response \<noteq> 204 then Inl (http_error response)
                else Inr (), w'')))"

definition RunS3BulkDeleteRequest ::
  "utf8proc \<Rightarrow> duckdb_api \<Rightarrow> 'h headers_api \<Rightarrow> crypto_api \<Rightarrow> string \<times> string \<Rightarrow> 'w reload \<Rightarrow>
     ('h S3SessionRequest \<Rightarrow> 'w s3_world \<Rightarrow> (ErrorData + HTTPResponse) \<times> 'w s3_world) \<Rightarrow> nat \<Rightarrow> (string \<Rightarrow> string) \<Rightarrow> string \<Rightarrow>
     string \<Rightarrow> 'w s3_world \<Rightarrow> ((ErrorData + HTTPResponse \<times> S3RequestContext) \<times> 'w s3_world) option" where
  "RunS3BulkDeleteRequest U D H C clock reload send limit content_md5 secret_lookup_url body w =
     RunSession U D H C clock reload send limit secret_lookup_url POST_REQUEST BUCKET
       (\<lambda>_. MakeQuery D [(''delete'', [])]) (GetPayloadHash (hex_sha256 C) body) ''application/xml'' (content_md5 body)
       POST_DEFAULT w"

section \<open>What one key stands for\<close>

fun decimal :: "nat \<Rightarrow> string \<Rightarrow> nat" where
  "decimal n [] = n"
| "decimal n (c # cs) = decimal (n * 10 + (of_char c - 48)) cs"

lemma decimal_append: "decimal n (s @ t) = decimal (decimal n s) t"
  by (induction s arbitrary: n) simp_all

lemma decimal_to_string: "decimal 0 (to_string n) = n"
proof (induction n rule: to_string.induct)
  case (1 n)
  show ?case
  proof (cases "n < 10")
    case True
    then show ?thesis by (subst to_string.simps) simp
  next
    case False
    with 1 show ?thesis by (subst to_string.simps) (simp add: decimal_append)
  qed
qed

lemma to_string_inject [simp]: "to_string m = to_string n \<longleftrightarrow> m = n"
  by (metis decimal_to_string)

lemma colon_to_string: "CHR '':'' \<notin> set (to_string n)"
proof (induction n rule: to_string.induct)
  case (1 n)
  have digit: "char_of (48 + d) \<noteq> CHR '':''" if "d < 10" for d :: nat
  proof
    assume "char_of (48 + d) = CHR '':''"
    moreover have "of_char (char_of (48 + d) :: char) = 48 + d" using that by simp
    ultimately show False using that by simp
  qed
  show ?case
  proof (cases "n < 10")
    case True
    with digit [of n] show ?thesis by (subst to_string.simps) auto
  next
    case False
    with 1 digit [of "n mod 10"] show ?thesis by (subst to_string.simps) auto
  qed
qed

lemma split_at_unique:
  "c \<notin> set a \<Longrightarrow> c \<notin> set b \<Longrightarrow> a @ c # r = b @ c # t \<longleftrightarrow> a = b \<and> r = t"
  by (induction a b rule: list_induct2') auto

text \<open>The parts of a key are prefix free, because the length of each comes first.\<close>

lemma AddString_inject [simp]: "AddString x @ r = AddString y @ t \<longleftrightarrow> x = y \<and> r = t"
proof -
  have "AddString x @ r = AddString y @ t \<longleftrightarrow> length x = length y \<and> x @ '';'' @ r = y @ '';'' @ t"
    using split_at_unique [OF colon_to_string colon_to_string, of "length x" "x @ '';'' @ r" "length y" "y @ '';'' @ t"]
    by (simp add: AddString_def)
  then show ?thesis by auto
qed

lemma AddBool_inject [simp]: "AddBool x @ r = AddBool y @ t \<longleftrightarrow> x = y \<and> r = t"
  by (simp add: AddBool_def)

lemma AddIndex_inject [simp]: "AddIndex x @ r = AddIndex y @ t \<longleftrightarrow> x = y \<and> r = t"
  by (simp add: AddIndex_def)

lemma provider_index_inject [simp]: "provider_index a = provider_index b \<longleftrightarrow> a = b"
  by (cases a; cases b) (simp_all add: provider_index_def)

text \<open>
  C26: Files are deleted by one request only when they belong together: equal batch keys mean the same
  bucket at the same host, the same credentials, endpoint and style, and the same proxy, TLS and
  token parameters, whatever the strings hold. The flag of an aliased scheme is the only part of
  the credentials that the key leaves out, and it follows from the prefix.
\<close>

theorem CreateDeleteBatchKey_same:
  assumes "CreateDeleteBatchKey A u p path = CreateDeleteBatchKey A u' p' path'"
  shows "u\<lparr>batch_auth_params := (batch_auth_params u)\<lparr>scheme_is_alias := False\<rparr>\<rparr> =
      u'\<lparr>batch_auth_params := (batch_auth_params u')\<lparr>scheme_is_alias := False\<rparr>\<rparr> \<and>
    p\<lparr>fresh_extra_headers := []\<rparr> = p'\<lparr>fresh_extra_headers := []\<rparr>"
proof -
  obtain a where a: "batch_auth_params u = a" by blast
  obtain b where b: "batch_auth_params u' = b" by blast
  show ?thesis
    using assms unfolding CreateDeleteBatchKey_def UrlKeyParts_def AuthKeyParts_def HTTPKeyParts_def a b
    by (cases u; cases u'; cases a; cases b; cases p; cases p') (simp add: word_eq_iff_unsigned [where 'a = nat, symmetric])
qed

text \<open>Two files of one bucket that are reached over different proxies are not deleted by one request.\<close>

definition no_secrets :: delete_api where
  "no_secrets =
     \<lparr>lookup_secret = None, read_auth_params = (\<lambda>_. init_auth), read_refreshable = (\<lambda>_. Inr (RefreshableParams sample_params)),
      refresh_setting = None, has_refresh_info = None\<rparr>"

definition bucket_info :: "bool \<Rightarrow> S3DeleteBatchUrlInfo" where
  "bucket_info aliased =
     \<lparr>batch_prefix = ''s3://'', batch_http_proto = ''https://'', batch_host = ''h'', batch_path = ''/b'',
      batch_auth_params = init_auth\<lparr>scheme_is_alias := aliased\<rparr>\<rparr>"

theorem CreateDeleteBatchKey_same_witness:
  "bucket_info True\<lparr>batch_auth_params := (batch_auth_params (bucket_info True))\<lparr>scheme_is_alias := False\<rparr>\<rparr> =
      bucket_info False\<lparr>batch_auth_params := (batch_auth_params (bucket_info False))\<lparr>scheme_is_alias := False\<rparr>\<rparr> \<and>
    RefreshableParams sample_params\<lparr>fresh_extra_headers := []\<rparr> = RefreshableParams sample_params\<lparr>fresh_extra_headers := []\<rparr>"
  by (rule CreateDeleteBatchKey_same [of no_secrets _ _ "''s3://b/x''" _ _ "''s3://b/y''"])
    (simp add: CreateDeleteBatchKey_def UrlKeyParts_def AuthKeyParts_def SelectedSecretKeyParts_def RefreshKeyParts_def
      HasRefreshableS3Secret_def no_secrets_def bucket_info_def)

section \<open>What is deleted\<close>

definition batch_of ::
  "(string \<Rightarrow> S3DeleteBatchUrlInfo) \<Rightarrow> (string \<Rightarrow> string) \<Rightarrow> string list \<Rightarrow> S3DeleteBatch" where
  "batch_of info k ps = \<lparr>batch_url_info = info (hd ps), batch_keys = map k ps, batch_lookup_paths = ps\<rparr>"

definition batch_fits ::
  "(string \<Rightarrow> string) \<Rightarrow> (string \<Rightarrow> S3DeleteBatchUrlInfo) \<Rightarrow> (string \<Rightarrow> string) \<Rightarrow> string \<times> S3DeleteBatch \<Rightarrow> bool" where
  "batch_fits bk info k = (\<lambda>(batch_key, b).
     batch_lookup_paths b \<noteq> [] \<and> b = batch_of info k (batch_lookup_paths b) \<and> (\<forall>p\<in>set (batch_lookup_paths b). bk p = batch_key))"

definition batched_paths :: "batches \<Rightarrow> string list" where
  "batched_paths bs = concat (map (\<lambda>(_, b). batch_lookup_paths b) bs)"

lemma batched_pathsI: "e \<in> set bs \<Longrightarrow> p \<in> set (batch_lookup_paths (snd e)) \<Longrightarrow> p \<in> set (batched_paths bs)"
  by (induction bs) (auto simp: batched_paths_def)

lemma AddToBatch_Cons:
  "AddToBatch batch_key u key path ((batch_key', b) # bs) =
     (if batch_key' = batch_key
      then (batch_key, b\<lparr>batch_keys := batch_keys b @ [key], batch_lookup_paths := batch_lookup_paths b @ [path]\<rparr>) # bs
      else (batch_key', b) # AddToBatch batch_key u key path bs)"
  by (auto simp: AddToBatch_def Let_def)

lemma AddToBatch_fits:
  assumes "list_all (batch_fits bk info k) bs"
  shows "list_all (batch_fits bk info k) (AddToBatch (bk path) (info path) (k path) path bs)"
  using assms
proof (induction bs)
  case Nil
  show ?case by (simp add: AddToBatch_def batch_fits_def batch_of_def)
next
  case (Cons entry bs)
  obtain batch_key b where entry: "entry = (batch_key, b)" by (cases entry)
  from Cons show ?case
    by (cases b) (auto simp: entry AddToBatch_Cons batch_fits_def batch_of_def)
qed

lemma AddToBatch_paths:
  "mset (batched_paths (AddToBatch batch_key u key path bs)) = add_mset path (mset (batched_paths bs))"
proof (induction bs)
  case Nil
  show ?case by (simp add: AddToBatch_def batched_paths_def)
next
  case (Cons entry bs)
  then show ?case by (cases entry) (simp add: AddToBatch_Cons batched_paths_def)
qed

lemma CollectBatches_spec:
  assumes "\<forall>path\<in>set paths. ResolveDelete D A path = Inr (bk path, info path, k path)"
    and "list_all (batch_fits bk info k) bs"
  shows "\<exists>bs'. CollectBatches D A paths bs = Inr bs' \<and> list_all (batch_fits bk info k) bs' \<and>
    mset (batched_paths bs') = mset paths + mset (batched_paths bs)"
  using assms
proof (induction paths arbitrary: bs)
  case (Cons path paths)
  have "list_all (batch_fits bk info k) (AddToBatch (bk path) (info path) (k path) path bs)"
    using Cons.prems(2) by (rule AddToBatch_fits)
  from Cons.IH [OF _ this] Cons.prems(1) show ?case
    by (auto simp: AddToBatch_paths)
qed simp

text \<open>The paths of a batch, as the requests take them.\<close>

fun chunks :: "'a list \<Rightarrow> 'a list list" where
  "chunks [] = []"
| "chunks (x # xs) = take MAX_KEYS_PER_REQUEST (x # xs) # chunks (drop (MAX_KEYS_PER_REQUEST - 1) xs)"

lemma chunks_not_Nil: "xs \<noteq> [] \<Longrightarrow> chunks xs = take MAX_KEYS_PER_REQUEST xs # chunks (drop MAX_KEYS_PER_REQUEST xs)"
  by (cases xs) (simp_all add: MAX_KEYS_PER_REQUEST_def drop_Cons')

lemma concat_chunks [simp]: "concat (chunks xs) = xs"
  by (induction xs rule: chunks.induct) (simp_all add: MAX_KEYS_PER_REQUEST_def take_Cons')

lemma chunks_sizes: "c \<in> set (chunks xs) \<Longrightarrow> c \<noteq> [] \<and> length c \<le> MAX_KEYS_PER_REQUEST \<and> set c \<subseteq> set xs"
proof (induction xs rule: chunks.induct)
  case (2 x xs)
  then show ?case
    using set_take_subset [of MAX_KEYS_PER_REQUEST "x # xs"] set_drop_subset [of "MAX_KEYS_PER_REQUEST - 1" xs]
    by (auto simp: MAX_KEYS_PER_REQUEST_def)
qed simp

lemma WriteDeleteObjectsRequest_slice:
  assumes "e \<le> length keys"
  shows "WriteDeleteObjectsRequest keys s e =
    WriteDeleteObjectsRequest (take (e - s) (drop s keys)) 0 (length (take (e - s) (drop s keys)))"
proof -
  have "map (\<lambda>i. WriteDeleteObject (keys ! i)) [s..<e] = map WriteDeleteObject (take (e - s) (drop s keys))"
    using assms by (intro nth_equalityI) auto
  moreover have "map (\<lambda>i. WriteDeleteObject (xs ! i)) [0..<length xs] = map WriteDeleteObject xs" for xs
    by (intro nth_equalityI) auto
  ultimately show ?thesis by (simp only: WriteDeleteObjectsRequest_def)
qed

text \<open>A server that records the requests: the path and parameters of the session, the path looked up, and the body.\<close>

type_synonym delete_log = "(string \<times> S3AuthParams \<times> string \<times> string) list"

definition record_delete ::
  "string \<Rightarrow> S3AuthParams \<Rightarrow> string \<Rightarrow> string \<Rightarrow> delete_log \<Rightarrow> unit res \<times> delete_log" where
  "record_delete path auth lookup_path body log = (Inr (), log @ [(path, auth, lookup_path, body)])"

definition delete_entry :: "(string \<Rightarrow> string) \<Rightarrow> string \<Rightarrow> S3AuthParams \<Rightarrow> string list \<Rightarrow> string \<times> S3AuthParams \<times> string \<times> string" where
  "delete_entry k path auth ps = (path, auth, hd ps, WriteDeleteObjectsRequest (map k ps) 0 (length ps))"

lemma DeleteChunks_requests:
  "DeleteChunks (record_delete path auth) (batch_of info k ps) s log =
     (Inr (), log @ map (delete_entry k path auth) (chunks (drop s ps)))"
proof (induction "length ps - s" arbitrary: s log rule: less_induct)
  case less
  show ?case
  proof (cases "s < length ps")
    case True
    let ?c = "take MAX_KEYS_PER_REQUEST (drop s ps)"
    have "take (min (s + MAX_KEYS_PER_REQUEST) (length ps) - s) (drop s (map k ps)) = map k ?c"
      using True by (simp add: take_map drop_map min_def)
    then have body: "WriteDeleteObjectsRequest (map k ps) s (min (s + MAX_KEYS_PER_REQUEST) (length ps)) =
        WriteDeleteObjectsRequest (map k ?c) 0 (length ?c)"
      using WriteDeleteObjectsRequest_slice [of "min (s + MAX_KEYS_PER_REQUEST) (length ps)" "map k ps" s] by simp
    have "hd ?c = ps ! s" using True by (simp add: hd_drop_conv_nth MAX_KEYS_PER_REQUEST_def)
    then have "record_delete path auth (ps ! s) (WriteDeleteObjectsRequest (map k ps) s (min (s + MAX_KEYS_PER_REQUEST) (length ps))) log =
        (Inr (), log @ [delete_entry k path auth ?c])"
      by (simp only: record_delete_def delete_entry_def body)
    then have "DeleteChunks (record_delete path auth) (batch_of info k ps) s log =
        DeleteChunks (record_delete path auth) (batch_of info k ps) (s + MAX_KEYS_PER_REQUEST) (log @ [delete_entry k path auth ?c])"
      using True by (simp add: DeleteChunks.simps [of _ _ s] batch_of_def cong del: unit.case_cong_weak)
    also have "\<dots> = (Inr (), log @ map (delete_entry k path auth) (chunks (drop s ps)))"
      using True less.hyps [of "s + MAX_KEYS_PER_REQUEST"]
      by (simp add: chunks_not_Nil MAX_KEYS_PER_REQUEST_def add.commute)
    finally show ?thesis .
  next
    case False
    then show ?thesis by (subst DeleteChunks.simps) (simp add: batch_of_def)
  qed
qed

lemma DeleteBatches_requests:
  assumes "list_all (batch_fits bk info k) bs"
  shows "DeleteBatches record_delete (map snd bs) log =
    (Inr (), log @ concat (map (\<lambda>(_, b). map (delete_entry k (hd (batch_lookup_paths b)) (batch_auth_params (info (hd (batch_lookup_paths b)))))
      (chunks (batch_lookup_paths b))) bs))"
  using assms
proof (induction bs arbitrary: log)
  case (Cons entry bs)
  obtain batch_key b where entry: "entry = (batch_key, b)" by (cases entry)
  define ps where "ps = batch_lookup_paths b"
  have b: "b = batch_of info k ps" using Cons.prems by (simp add: entry batch_fits_def ps_def)
  show ?case
    using Cons DeleteChunks_requests [of "hd ps" "batch_auth_params (info (hd ps))" info k ps 0 log]
    by (simp add: entry b batch_of_def cong del: unit.case_cong_weak)
qed simp

text \<open>
  C19: Every file that was named is deleted by exactly one request, in requests of one to 1000 keys,
  each made in a session for a file of the same batch and with that file's parameters: when every path resolves and the server
  accepts, the recorded requests are the bodies for some grouping of the paths, whatever the
  order in which the hash map visits the batches.
\<close>

theorem RemoveFiles_requests:
  assumes resolved: "\<forall>path\<in>set paths. ResolveDelete D A path = Inr (bk path, info path, k path)"
    and visit: "\<And>bs. mset (visit bs) = mset bs"
  shows "\<exists>groups firsts.
    RemoveFiles D A visit record_delete paths [] =
      (Inr (), map2 (\<lambda>p ps. (p, batch_auth_params (info p), hd ps, WriteDeleteObjectsRequest (map k ps) 0 (length ps))) firsts groups) \<and>
    mset (concat groups) = mset paths \<and>
    list_all2 (\<lambda>p ps. p \<in> set paths \<and> ps \<noteq> [] \<and> length ps \<le> 1000 \<and> list_all (\<lambda>q. bk q = bk p) ps) firsts groups"
proof (cases "paths = []")
  case True
  then show ?thesis by (intro exI [of _ "[]"]) (simp add: RemoveFiles_def)
next
  case False
  from CollectBatches_spec [OF resolved, of "[]"] obtain bs
    where bs: "CollectBatches D A paths [] = Inr bs" "list_all (batch_fits bk info k) bs" "mset (batched_paths bs) = mset paths"
    by (auto simp: batched_paths_def)
  let ?vs = "visit bs" and ?lookup = "\<lambda>b. batch_lookup_paths (snd b)"
  let ?pairs = "concat (map (\<lambda>e. map (Pair (hd (?lookup e))) (chunks (?lookup e))) ?vs)"
  have vs: "list_all (batch_fits bk info k) ?vs"
    using bs(2) visit [of bs] by (metis list.pred_set set_mset_mset)
  have "mset (batched_paths ?vs) = mset (batched_paths bs)"
    using visit [of bs] by (simp add: batched_paths_def mset_concat flip: sum_mset_sum_list)
  then have all: "mset (batched_paths ?vs) = mset paths" by (simp add: bs(3))
  have log: "RemoveFiles D A visit record_delete paths [] =
      (Inr (), map (\<lambda>(p, ps). delete_entry k p (batch_auth_params (info p)) ps) ?pairs)"
    using DeleteBatches_requests [OF vs, of "[]"]
    by (simp add: RemoveFiles_def False bs(1) map_concat o_def case_prod_unfold)
  have groups: "concat (map snd (concat (map (\<lambda>e. map (Pair (hd (?lookup e))) (chunks (?lookup e))) es))) = batched_paths es" for es
    by (induction es) (simp_all add: batched_paths_def o_def case_prod_unfold)
  have pairs: "ps \<noteq> [] \<and> length ps \<le> 1000 \<and> q \<in> set paths \<and> (\<forall>p\<in>set ps. bk p = bk q)" if "(q, ps) \<in> set ?pairs" for q ps
  proof -
    from that obtain e where e: "e \<in> set ?vs" "q = hd (?lookup e)" "ps \<in> set (chunks (?lookup e))" by auto
    have fits: "?lookup e \<noteq> []" "\<forall>p\<in>set (?lookup e). bk p = fst e"
      using vs e(1) by (auto simp: list_all_iff batch_fits_def)
    then have q: "q \<in> set (?lookup e)" by (simp add: e(2))
    with e(1) have "q \<in> set (batched_paths ?vs)" by (rule batched_pathsI)
    then have "q \<in> set paths" using all by (metis set_mset_mset)
    with chunks_sizes [OF e(3)] fits q show ?thesis by (auto simp: MAX_KEYS_PER_REQUEST_def)
  qed
  obtain prs where prs: "?pairs = prs" by blast
  show ?thesis
  proof (intro exI conjI)
    show "RemoveFiles D A visit record_delete paths [] =
      (Inr (), map2 (\<lambda>p ps. (p, batch_auth_params (info p), hd ps, WriteDeleteObjectsRequest (map k ps) 0 (length ps)))
        (map fst prs) (map snd prs))"
      unfolding log prs by (simp add: delete_entry_def zip_map_fst_snd case_prod_unfold)
    show "mset (concat (map snd prs)) = mset paths" using groups [of ?vs] all by (simp add: prs)
    show "list_all2 (\<lambda>p ps. p \<in> set paths \<and> ps \<noteq> [] \<and> length ps \<le> 1000 \<and> list_all (\<lambda>q. bk q = bk p) ps)
        (map fst prs) (map snd prs)"
      using pairs [unfolded prs] by (auto simp: list_all2_map1 list_all2_map2 list_all_iff intro!: list_all2_same [THEN iffD2])
  qed
qed

definition resolved_delete :: "string \<Rightarrow> string \<times> S3DeleteBatchUrlInfo \<times> string" where
  "resolved_delete path = projr (ResolveDelete std_api no_secrets path)"

lemma resolved_delete_samples:
  "\<not> isl (ResolveDelete std_api no_secrets ''s3://b/x'')" "\<not> isl (ResolveDelete std_api no_secrets ''s3://b/y'')"
  by code_simp+

theorem RemoveFiles_requests_witness:
  "\<exists>groups firsts. RemoveFiles std_api no_secrets rev record_delete [''s3://b/x'', ''s3://b/y''] [] =
      (Inr (), map2 (\<lambda>p ps. (p, batch_auth_params (fst (snd (resolved_delete p))), hd ps,
        WriteDeleteObjectsRequest (map (\<lambda>p. snd (snd (resolved_delete p))) ps) 0 (length ps))) firsts groups) \<and>
    mset (concat groups) = mset [''s3://b/x'', ''s3://b/y'']"
proof -
  have "\<forall>p\<in>set [''s3://b/x'', ''s3://b/y'']. ResolveDelete std_api no_secrets p =
      Inr (fst (resolved_delete p), fst (snd (resolved_delete p)), snd (snd (resolved_delete p)))"
    using resolved_delete_samples by (auto simp: resolved_delete_def)
  from RemoveFiles_requests [OF this, of rev] show ?thesis by (auto simp del: mset.simps)
qed

end
