(* ===== verification/Http_Open.thy ===== *)
theory Http_Open
  imports Http_Read
begin

text \<open>
  Opening a file over HTTP (src/src/http/httpfs.cpp): where the length, the ETag and the other facts
  about a file come from, the metadata caches, and the download of a file when it is opened. What a
  subclass of \<open>HTTPFileHandle\<close> overrides is a record of functions, \<open>handle_class\<close>; its rest \<open>'w\<close> of the world holds
  what they change.
\<close>

section \<open>Steps of the opening\<close>

definition gets_io :: "('w world \<Rightarrow> 'a) \<Rightarrow> ('a, 'w) io" where
  "gets_io f sw = Some (Inr (f sw), sw)"

definition res_io :: "'a res \<Rightarrow> ('a, 'w) io" where
  "res_io r sw = Some (r, sw)"

definition option_io :: "'a option \<Rightarrow> ('a, 'w) io" where
  "option_io x sw = map_option (\<lambda>y. (Inr y, sw)) x"

text \<open>The metadata cache of the query is a part of the world; there is none before it is first asked for.\<close>

type_synonym 'w caches = "HTTPMetadataCache option \<times> 'w"

definition map_query_cache :: "(HTTPMetadataCache option \<Rightarrow> HTTPMetadataCache option) \<Rightarrow> (unit, 'w caches) io" where
  "map_query_cache f sw = Some (Inr (), fst sw, f (fst (snd sw)), snd (snd sw))"

definition put_rest :: "'w \<Rightarrow> (unit, 'w caches) io" where
  "put_rest w sw = Some (Inr (), fst sw, fst (snd sw), w)"

lemma open_io_simps [simp]:
  "gets_io f sw = Some (Inr (f sw), sw)" "res_io r sw = Some (r, sw)" "option_io (Some x) sw = Some (Inr x, sw)"
  "option_io None sw = None" "map_query_cache g sw2 = Some (Inr (), fst sw2, g (fst (snd sw2)), snd (snd sw2))"
  "put_rest w sw2 = Some (Inr (), fst sw2, fst (snd sw2), w)"
  by (simp_all add: gets_io_def res_io_def option_io_def map_query_cache_def put_rest_def)

lemma bind_io_simps [simp]:
  "bind_io (return_io x) f = f x" "bind_io (throw_io e) f = throw_io e" "bind_io (gets_io h) f = (\<lambda>sw. f (h sw) sw)"
  "bind_io (modify_io g) f = (\<lambda>sw. f () (g (fst sw), snd sw))"
  by (auto simp: bind_io_def fun_eq_iff)

section \<open>Metadata caches\<close>

text \<open>What the code asks the opener for; without a state of the query a handle gets one of its own.\<close>

record file_opener =
  opener_database :: bool
  opener_context :: bool
  opener_shared_cache :: "bool option"
  opener_query_state :: bool

datatype cache_choice = NO_CACHE | GLOBAL_CACHE | QUERY_CACHE

definition TryGetMetadataCache :: "file_opener \<Rightarrow> (cache_choice, 'w caches) io" where
  "TryGetMetadataCache opener =
     (if \<not> opener_database opener then return_io NO_CACHE
      else if opener_shared_cache opener = Some True then
        bind_io (modify_io (\<lambda>s. s\<lparr>global_metadata_cache := Some (GetGlobalCache (global_metadata_cache s))\<rparr>))
          (\<lambda>_. return_io GLOBAL_CACHE)
      else if opener_context opener then
        bind_io (map_query_cache (\<lambda>c. Some (case c of None \<Rightarrow> init_cache QUERY_LOCAL | Some m \<Rightarrow> m)))
          (\<lambda>_. return_io QUERY_CACHE)
      else return_io NO_CACHE)"

definition chosen_cache :: "cache_choice \<Rightarrow> 'w caches world \<Rightarrow> HTTPMetadataCache option" where
  "chosen_cache c sw =
     (case c of NO_CACHE \<Rightarrow> None | GLOBAL_CACHE \<Rightarrow> global_metadata_cache (fst sw) | QUERY_CACHE \<Rightarrow> fst (snd sw))"

definition update_chosen :: "cache_choice \<Rightarrow> (HTTPMetadataCache \<Rightarrow> HTTPMetadataCache) \<Rightarrow> (unit, 'w caches) io" where
  "update_chosen c f =
     (case c of
        NO_CACHE \<Rightarrow> return_io ()
      | GLOBAL_CACHE \<Rightarrow> modify_io (\<lambda>s. s\<lparr>global_metadata_cache := map_option f (global_metadata_cache s)\<rparr>)
      | QUERY_CACHE \<Rightarrow> map_query_cache (map_option f))"

section \<open>File information in a response\<close>

definition TryParseLength :: "string \<Rightarrow> u64 option" where
  "TryParseLength input = Option.bind (stoull input) optional_idx"

definition TryParseContentRange :: "(string \<Rightarrow> string option) \<Rightarrow> u64 option" where
  "TryParseContentRange headers =
     (case headers ''Content-Range'' of
        None \<Rightarrow> None
      | Some content_range \<Rightarrow>
          (case char_find (CHR ''/'') content_range of
             None \<Rightarrow> None
           | Some range_find \<Rightarrow>
               let range_length = drop (range_find + 1) content_range
               in if range_length = ''*'' then None else TryParseLength range_length))"

definition TryParseContentLength :: "(string \<Rightarrow> string option) \<Rightarrow> u64 option" where
  "TryParseContentLength headers = Option.bind (headers ''Content-Length'') TryParseLength"

section \<open>The environment of an opening\<close>

text \<open>
  The requests of a handle and the virtual functions of its class; \<open>parse_time\<close> is the parser of time
  stamps. \<open>class_params\<close> are the parameters of the current snapshot of the session of the handle.
\<close>

record 'w open_requests = "'w file_requests" +
  get_head :: "(GetResponse option, 'w) io"
  head_error :: "GetResponse \<Rightarrow> exn"

record 'w handle_class =
  class_params :: "'w \<Rightarrow> HTTPFSParams"
  class_read_config :: "HTTPFileHandle \<Rightarrow> 'w \<Rightarrow> HTTPReadConfig"
  class_load_entry :: "HTTPMetadataCacheEntry \<Rightarrow> HTTPFileHandle \<Rightarrow> 'w \<Rightarrow> (HTTPFileHandle \<times> 'w) res"
  class_save_entry :: "HTTPFileHandle \<Rightarrow> 'w \<Rightarrow> HTTPMetadataCacheEntry"

record 'w open_env =
  open_api :: duckdb_api
  open_requests_of :: "HTTPFileHandle \<Rightarrow> 'w caches open_requests"
  open_class :: "'w handle_class"
  parse_time :: "string \<Rightarrow> int option"

abbreviation rest :: "'w caches world \<Rightarrow> 'w" where
  "rest sw \<equiv> snd (snd sw)"

definition InitializeFromCacheEntry :: "HTTPMetadataCacheEntry \<Rightarrow> HTTPFileHandle \<Rightarrow> HTTPFileHandle" where
  "InitializeFromCacheEntry cache_entry h =
     h\<lparr>last_modified := entry_last_modified cache_entry, handle_length := entry_length cache_entry,
       handle_etag := entry_etag cache_entry, version_id := entry_version_id cache_entry\<rparr>"

definition GetCacheEntry :: "HTTPFileHandle \<Rightarrow> HTTPMetadataCacheEntry" where
  "GetCacheEntry h =
     \<lparr>entry_length = handle_length h, entry_last_modified = last_modified h, entry_etag = handle_etag h,
      entry_version_id = version_id h, entry_properties = []\<rparr>"

definition http_class :: "duckdb_api \<Rightarrow> HTTPFSParams \<Rightarrow> 'w handle_class" where
  "http_class D params =
     \<lparr>class_params = (\<lambda>_. params), class_read_config = (\<lambda>h _. BuildReadConfig D params h),
      class_load_entry = (\<lambda>e h w. Inr (InitializeFromCacheEntry e h, w)), class_save_entry = (\<lambda>h _. GetCacheEntry h)\<rparr>"

section \<open>Loading the file information\<close>

definition TryLoadFileInfoWithoutRequest :: "HTTPFileHandle \<Rightarrow> HTTPTransfer \<Rightarrow> bool \<times> HTTPFileHandle" where
  "TryLoadFileInfoWithoutRequest h s =
     (case TryGetCachedFileHandle (file_state h) (http_state s) of
        Some cached \<Rightarrow> (True, h\<lparr>handle_length := GetSize cached, handle_initialized := True\<rparr>)
      | None \<Rightarrow>
          if handle_initialized h \<or> force_full_download h then (True, h)
          else if write_overwrite_mode h then (True, h\<lparr>handle_length := 0, handle_initialized := True\<rparr>)
          else (False, h))"

text \<open>The access through a null pointer to a response is an error of DuckDB's \<open>unique_ptr\<close>.\<close>

definition dereference :: "'a option \<Rightarrow> ('a, 'w) io" where
  "dereference r = (case r of None \<Rightarrow> throw_io (Exn InternalException [] []) | Some x \<Rightarrow> return_io x)"

definition RetryFileInfoWithRange :: "'w open_env \<Rightarrow> HTTPFileHandle \<Rightarrow> (GetResponse option \<times> HTTPFileHandle, 'w caches) io" where
  "RetryFileInfoWithRange E h sw =
     (let config = class_read_config (open_class E) h (rest sw); R = open_requests_of E h
      in bind_io (get_range R config 0 None 2) (\<lambda>res. bind_io (dereference res) (\<lambda>r.
           if response_status r = 206 \<or> response_status r = 202 \<or> response_status r = 200 then return_io (Some r, h)
           else if RespondedWithRangeRequestNotSupported r \<and> auto_fallback config then
             return_io (Some r, h\<lparr>force_full_download := True\<rparr>)
           else throw_io (get_error R r))) sw)"

definition RequestFileInfo :: "'w open_env \<Rightarrow> HTTPFileHandle \<Rightarrow> (GetResponse option \<times> HTTPFileHandle, 'w caches) io" where
  "RequestFileInfo E h =
     bind_io (get_head (open_requests_of E h)) (\<lambda>res. bind_io (dereference res) (\<lambda>r.
       if response_status r = 200 then return_io (Some r, h)
       else if open_for_writing (handle_flags h) \<and> response_status r = 404 then
         (if \<not> create_if_not_exists (handle_flags h) \<and> \<not> overwrite_existing (handle_flags h) then
            throw_io (Exn IOException
              (''Unable to open URL '' @ quoted @ '' for writing: file does not exist and CREATE flag is not set'') [handle_path h])
          else return_io (None, h\<lparr>handle_length := 0\<rparr>))
       else if open_for_reading (handle_flags h) \<and> response_status r \<noteq> 404 \<and> response_status r \<noteq> 301 then
         RetryFileInfoWithRange E h
       else throw_io (head_error (open_requests_of E h) r)))"

definition response_length :: "GetResponse \<Rightarrow> u64 option" where
  "response_length r =
     (case TryParseContentRange (response_header r) of
        None \<Rightarrow> TryParseContentLength (response_header r)
      | Some n \<Rightarrow> Some n)"

definition ApplyFileInfo :: "'w open_env \<Rightarrow> GetResponse \<Rightarrow> HTTPFileHandle \<Rightarrow> (HTTPFileHandle, 'w caches) io" where
  "ApplyFileInfo E r h sw =
     (let D = open_api E; headers = response_header r;
          h1 = h\<lparr>handle_length := (case response_length r of None \<Rightarrow> 0 | Some n \<Rightarrow> n),
                 last_modified := (case headers ''Last-Modified'' of
                     None \<Rightarrow> last_modified h
                   | Some t \<Rightarrow> (case parse_time E t of None \<Rightarrow> last_modified h | Some time \<Rightarrow> time)),
                 handle_etag := (case headers ''ETag'' of None \<Rightarrow> handle_etag h | Some e \<Rightarrow> e),
                 version_id :=
                   (if s3_version_id_pinning (class_params (open_class E) (rest sw))
                    then (case headers ''x-amz-version-id'' of None \<Rightarrow> version_id h | Some v \<Rightarrow> v) else version_id h),
                 handle_initialized := True\<rparr>
      in if \<exists>v. headers ''Accept-Ranges'' = Some v \<and> CIEquals D (Trim D v) ''bytes''
         then bind_io (option_io (MarkRangeRequestsSupported (file_state h) (http_state (fst sw)))) (\<lambda>st.
                bind_io (modify_io (\<lambda>s. s\<lparr>http_state := st\<rparr>)) (\<lambda>_. return_io h1)) sw
         else return_io h1 sw)"

definition LoadFileInfo :: "'w open_env \<Rightarrow> HTTPFileHandle \<Rightarrow> (HTTPFileHandle, 'w caches) io" where
  "LoadFileInfo E h sw =
     (let (loaded, h1) = TryLoadFileInfoWithoutRequest h (fst sw)
      in if loaded then return_io h1 sw
         else bind_io (RequestFileInfo E h1) (\<lambda>(response, h2).
           case response of None \<Rightarrow> return_io h2 | Some r \<Rightarrow> ApplyFileInfo E r h2) sw)"

section \<open>Initialization of a handle\<close>

text \<open>
  The state of the query, or a new one, and the state of the file in it. The snapshot that is
  published has the same parameters; loggers and the choice of the allocator are left out.
\<close>

definition InitializeRequestState :: "file_opener \<Rightarrow> HTTPFileHandle \<Rightarrow> (HTTPFileHandle, 'w) io" where
  "InitializeRequestState opener h sw =
     (let st = (if opener_query_state opener then http_state (fst sw) else init_http_state);
          (i, st') = GetFileState (handle_path h) st
      in return_io (h\<lparr>file_state := i\<rparr>) ((fst sw)\<lparr>http_state := st'\<rparr>, snd sw))"

definition finalize_config :: "'w open_env \<Rightarrow> HTTPFileHandle \<Rightarrow> 'w \<Rightarrow> HTTPFileHandle" where
  "finalize_config E h w = h\<lparr>read_config := Some (class_read_config (open_class E) h w)\<rparr>"

text \<open>\<open>FullDownload\<close> with the configuration of the handle; it also clears \<open>should_write_cache\<close>.\<close>

definition download_on_open :: "'w open_env \<Rightarrow> HTTPFileHandle \<Rightarrow> (HTTPFileHandle, 'w caches) io" where
  "download_on_open E h =
     bind_io (res_io (GetReadConfig h)) (\<lambda>config.
     bind_io (FullDownload 1 (get_full (open_requests_of E h)) (get_error (open_requests_of E h)) h config) (\<lambda>cached.
       return_io (h\<lparr>handle_length := GetSize cached\<rparr>)))"

text \<open>The handle when it is complete, otherwise whether the metadata are to be written to the cache.\<close>

definition TryInitializeRead ::
  "'w open_env \<Rightarrow> cache_choice \<Rightarrow> HTTPFileHandle \<Rightarrow> (HTTPFileHandle + bool, 'w caches) io" where
  "TryInitializeRead E c h sw =
     (if \<not> open_for_reading (handle_flags h) then return_io (Inr False) sw
      else if force_download (class_params (open_class E) (rest sw)) then
        bind_io (download_on_open E (finalize_config E h (rest sw))) (\<lambda>h'. return_io (Inl h')) sw
      else case chosen_cache c sw of
        None \<Rightarrow> return_io (Inr False) sw
      | Some cache \<Rightarrow>
          (case CacheFind (handle_path h) cache of
             None \<Rightarrow> return_io (Inr True) sw
           | Some entry \<Rightarrow>
               bind_io (res_io (class_load_entry (open_class E) entry h (rest sw))) (\<lambda>(h', w).
                 bind_io (put_rest w) (\<lambda>_. return_io (Inl (finalize_config E h' w)))) sw))"

definition InitializeFileInfo :: "'w open_env \<Rightarrow> cache_choice \<Rightarrow> bool \<Rightarrow> HTTPFileHandle \<Rightarrow> (HTTPFileHandle, 'w caches) io" where
  "InitializeFileInfo E c should_write_cache h =
     bind_io (LoadFileInfo E h) (\<lambda>h1 sw.
       let h2 = finalize_config E h1 (rest sw)
       in if \<not> open_for_reading (handle_flags h2) then return_io h2 sw
          else
            let has_cache_state = (handle_length h2 = 0);
                always_download = force_full_download h2;
                meets_threshold = (handle_length h2 < force_download_threshold (class_params (open_class E) (rest sw)) \<and>
                  handle_length h2 \<noteq> 0)
            in if has_cache_state \<or> meets_threshold \<or> always_download then download_on_open E h2 sw
               else if should_write_cache then
                 bind_io (update_chosen c (CacheInsert (handle_path h2) (class_save_entry (open_class E) h2 (rest sw))))
                   (\<lambda>_. return_io h2) sw
               else return_io h2 sw)"

definition Initialize :: "'w open_env \<Rightarrow> file_opener \<Rightarrow> HTTPFileHandle \<Rightarrow> (HTTPFileHandle, 'w caches) io" where
  "Initialize E opener h =
     bind_io (InitializeRequestState opener h) (\<lambda>h1.
     bind_io (TryGetMetadataCache opener) (\<lambda>c.
     bind_io (TryInitializeRead E c h1) (\<lambda>ready.
       case ready of
         Inl h2 \<Rightarrow> return_io h2
       | Inr should_write_cache \<Rightarrow>
           bind_io (InitializeFileInfo E c should_write_cache h1) (\<lambda>h2.
             if open_for_writing (handle_flags h2) then
               bind_io (update_chosen c (CacheErase (handle_path h2))) (\<lambda>_. return_io h2)
             else return_io h2))))"

section \<open>What an opened handle knows\<close>

definition same_files :: "HTTPTransfer \<Rightarrow> HTTPTransfer \<Rightarrow> bool" where
  "same_files s s' \<longleftrightarrow> memory_fault s' = memory_fault s \<and> (\<forall>i. cached_file_of i s' = cached_file_of i s)"

lemma same_files_ok: "same_files s s' \<Longrightarrow> file_ok content i s' = file_ok content i s"
  by (simp add: same_files_def file_ok_def)

lemma same_files_simps [simp]: "same_files s s" "same_files s (s\<lparr>global_metadata_cache := g\<rparr>)"
  by (simp_all add: same_files_def)

text \<open>Cached metadata are believed; these hold the length of the file.\<close>

definition length_cached :: "string \<Rightarrow> nat \<Rightarrow> HTTPMetadataCache option \<Rightarrow> bool" where
  "length_cached path n c \<longleftrightarrow> (\<forall>m e. c = Some m \<and> CacheFind path m = Some e \<longrightarrow> unat (entry_length e) = n)"

lemma TryGetMetadataCache_files:
  assumes "TryGetMetadataCache opener (s, q, w) = Some (result, s', q', w')"
    and "length_cached path n (global_metadata_cache s)" "length_cached path n q"
  shows "\<exists>c. result = Inr c \<and> same_files s s' \<and> w' = w \<and> length_cached path n (chosen_cache c (s', q', w'))"
  using assms
  by (auto simp: TryGetMetadataCache_def bind_io_def chosen_cache_def length_cached_def GetGlobalCache_def init_cache_def
      CacheFind_def split: if_splits option.splits)

lemma InitializeRequestState_file:
  assumes "InitializeRequestState opener h (s, w) = Some (result, s', w')" "\<not> memory_fault s"
    and "\<And>i. file_states (http_state s) (handle_path h) = Some i \<Longrightarrow> file_ok content i s"
  shows "\<exists>i. result = Inr (h\<lparr>file_state := i\<rparr>) \<and> file_ok content i s' \<and> w' = w \<and>
    global_metadata_cache s' = global_metadata_cache s"
proof -
  let ?st = "if opener_query_state opener then http_state s else init_http_state"
  obtain i st' where found: "GetFileState (handle_path h) ?st = (i, st')"
    by (cases "GetFileState (handle_path h) ?st")
  have "file_heap st' i = init_file_state \<or> file_states (http_state s) (handle_path h) = Some i \<and> st' = http_state s"
    using found by (auto simp: GetFileState_def init_http_state_def split: option.splits if_splits)
  then have "file_ok content i (s\<lparr>http_state := st'\<rparr>)"
    using assms(2,3) by (auto simp: file_ok_def init_file_state_def init_cached_file_def)
  then show ?thesis using assms(1) by (auto simp: InitializeRequestState_def Let_def found cong: if_cong)
qed

lemma MarkRangeRequestsSupported_files:
  assumes "MarkRangeRequestsSupported i (http_state s) = Some st"
  shows "same_files s (s\<lparr>http_state := st\<rparr>)"
  using assms kept_begin
  by (auto simp: MarkRangeRequestsSupported_def same_files_def update_range_def Let_def case_prod_beta)

locale file_opening =
  fixes E :: "'w open_env" and path content :: string
  assumes requests: "handle_path h = path \<Longrightarrow>
      http_requests (file_requests.truncate (open_requests_of E h)) content (file_state h)"
    and head_request: "get_head (open_requests_of E h) (s, w) = Some (Inr (Some r), s', w') \<Longrightarrow> handle_path h = path \<Longrightarrow>
      same_files s s' \<and> (response_status r = 200 \<longrightarrow> response_length r = Some (word_of_nat (length content)))"
    and probe_request: "get_range (open_requests_of E h) config 0 None 2 (s, w) = Some (Inr (Some r), s', w') \<Longrightarrow>
      handle_path h = path \<Longrightarrow> same_files s s' \<and>
      (response_status r \<in> {200, 202, 206} \<longrightarrow> response_length r = Some (word_of_nat (length content)))"
    and load_entry: "class_load_entry (open_class E) e h v = Inr (h', v') \<Longrightarrow>
      handle_length h' = entry_length e \<and> file_state h' = file_state h \<and> handle_path h' = handle_path h"
    and content_size: "length content < 18446744073709551615"
begin

text \<open>A handle for the file, and one that knows its length.\<close>

definition handle_for :: "nat \<Rightarrow> HTTPFileHandle \<Rightarrow> bool" where
  "handle_for i h \<longleftrightarrow> handle_path h = path \<and> file_state h = i"

definition handle_done :: "nat \<Rightarrow> HTTPFileHandle \<Rightarrow> bool" where
  "handle_done i h \<longleftrightarrow> handle_for i h \<and> unat (handle_length h) = length content"

lemma unat_size: "unat (word_of_nat (length content) :: u64) = length content"
  using content_size by (simp add: unsigned_of_nat take_bit_nat_eq_self)

lemma download_on_open_done:
  assumes "download_on_open E h (s, w) = Some (Inr h', s', w')" "handle_for i h" "file_ok content i s"
  shows "handle_done i h' \<and> file_ok content i s' \<and> read_config h' = read_config h \<and> read_config h \<noteq> None"
proof -
  let ?R = "file_requests.truncate (open_requests_of E h)"
  obtain config d where config: "read_config h = Some config"
    and run: "FullDownload (Suc 0) (get_full ?R) (get_error (open_requests_of E h)) h config (s, w) = Some (Inr d, s', w')"
    and h': "h' = h\<lparr>handle_length := GetSize d\<rparr>"
    using assms(1)
    by (auto simp: download_on_open_def bind_io_Inr GetReadConfig_def file_requests.truncate_def simp del: FullDownload.simps
        split: option.splits)
  have "file_ok content i s' \<and> unat (GetSize d) = length content"
    using http_requests.FullDownload_file [OF requests run refl] assms(2,3) by (auto simp: handle_for_def)
  then show ?thesis using assms(2) config h' by (simp add: handle_done_def handle_for_def)
qed

lemma ApplyFileInfo_done:
  assumes "ApplyFileInfo E r h (s, w) = Some (Inr h', s', w')" "handle_for i h" "file_ok content i s"
  shows "handle_for i h' \<and> file_ok content i s' \<and> force_full_download h' = force_full_download h \<and>
    handle_flags h' = handle_flags h \<and> (response_length r = Some (word_of_nat (length content)) \<longrightarrow> handle_done i h')"
proof -
  have "same_files s s'"
    using assms(1) MarkRangeRequestsSupported_files
    by (auto simp: ApplyFileInfo_def bind_io_Inr Let_def option_io_def split: if_splits)
  then have "file_ok content i s'" using assms(3) by (simp add: same_files_ok)
  then show ?thesis
    using assms(1,2) unat_size
    by (auto simp: ApplyFileInfo_def bind_io_Inr Let_def handle_done_def handle_for_def split: if_splits)
qed

lemma RequestFileInfo_reports:
  assumes "RequestFileInfo E h (s, w) = Some (Inr (response, h'), s', w')" "handle_for i h" "file_ok content i s"
    and "\<not> open_for_writing (handle_flags h)"
  shows "\<exists>r. response = Some r \<and> handle_for i h' \<and> file_ok content i s' \<and> handle_flags h' = handle_flags h \<and>
    (response_length r = Some (word_of_nat (length content)) \<or> force_full_download h')"
proof -
  obtain r s1 w1 where head: "get_head (open_requests_of E h) (s, w) = Some (Inr (Some r), s1, w1)"
    using assms(1) by (auto simp: RequestFileInfo_def bind_io_Inr dereference_def split: option.splits)
  have path: "handle_path h = path" using assms(2) by (simp add: handle_for_def)
  note got = head_request [OF head path]
  have ok1: "file_ok content i s1" using got assms(3) same_files_ok by blast
  show ?thesis
  proof (cases "response_status r = 200")
    case True
    then show ?thesis
      using assms got ok1 head by (auto simp: RequestFileInfo_def bind_io_Inr dereference_def)
  next
    case False
    then have retry: "RetryFileInfoWithRange E h (s1, w1) = Some (Inr (response, h'), s', w')"
      using assms(1,4) head by (auto simp: RequestFileInfo_def bind_io_def dereference_def split: if_splits)
    obtain p config where probe: "get_range (open_requests_of E h) config 0 None 2 (s1, w1) = Some (Inr (Some p), s', w')"
      and p: "response = Some p" "h' = h \<and> response_status p \<in> {200, 202, 206} \<or> h' = h\<lparr>force_full_download := True\<rparr>"
      using retry by (auto simp: RetryFileInfoWithRange_def bind_io_Inr dereference_def Let_def split: option.splits if_splits)
    have "file_ok content i s'" using probe_request [OF probe path] ok1 same_files_ok by blast
    with probe_request [OF probe path] p assms(2) show ?thesis by (auto simp: handle_for_def)
  qed
qed

lemma LoadFileInfo_done:
  assumes "LoadFileInfo E h (s, w) = Some (Inr h', s', w')" "handle_for i h" "file_ok content i s"
    and "\<not> open_for_writing (handle_flags h)" "\<not> write_overwrite_mode h"
    and "handle_initialized h \<Longrightarrow> unat (handle_length h) = length content"
  shows "handle_for i h' \<and> file_ok content i s' \<and> handle_flags h' = handle_flags h \<and>
    (handle_done i h' \<or> force_full_download h')"
proof (cases "fst (TryLoadFileInfoWithoutRequest h s)")
  case True
  have cached: "unat (GetSize d) = length content" if "TryGetCachedFileHandle i (http_state s) = Some d" for d
    using assms(3) that by (auto simp: file_ok_def TryGetCachedFileHandle_def TryGetHandle_def)
  have "s' = s" "h' = snd (TryLoadFileInfoWithoutRequest h s)"
    using True assms(1) by (auto simp: LoadFileInfo_def case_prod_beta Let_def)
  then show ?thesis
    using True assms(2-6) cached
    by (auto simp: TryLoadFileInfoWithoutRequest_def handle_done_def handle_for_def split: option.splits if_splits)
next
  case False
  then have "TryLoadFileInfoWithoutRequest h s = (False, h)"
    by (auto simp: TryLoadFileInfoWithoutRequest_def split: option.splits if_splits)
  then obtain response h2 s2 w2 where request: "RequestFileInfo E h (s, w) = Some (Inr (response, h2), s2, w2)"
    and applied: "(case response of None \<Rightarrow> return_io h2 | Some r \<Rightarrow> ApplyFileInfo E r h2) (s2, w2) = Some (Inr h', s', w')"
    using assms(1) by (auto simp: LoadFileInfo_def bind_io_Inr)
  from RequestFileInfo_reports [OF request assms(2-4)] obtain r where
    r: "response = Some r" "handle_for i h2" "file_ok content i s2" "handle_flags h2 = handle_flags h"
      "response_length r = Some (word_of_nat (length content)) \<or> force_full_download h2" by blast
  from ApplyFileInfo_done [of r h2 s2 w2 h' s' w' i] applied r show ?thesis by auto
qed

lemma InitializeFileInfo_done:
  assumes "InitializeFileInfo E c should_write h (s, w) = Some (Inr h', s', w')" "handle_for i h" "file_ok content i s"
    and "\<not> open_for_writing (handle_flags h)" "open_for_reading (handle_flags h)" "\<not> write_overwrite_mode h"
    and "handle_initialized h \<Longrightarrow> unat (handle_length h) = length content"
  shows "handle_done i h' \<and> file_ok content i s' \<and> read_config h' \<noteq> None"
proof -
  obtain h1 s1 w1 where load: "LoadFileInfo E h (s, w) = Some (Inr h1, s1, w1)"
    using assms(1) by (auto simp: InitializeFileInfo_def bind_io_Inr)
  note loaded = LoadFileInfo_done [OF load assms(2-4,6,7)]
  let ?h2 = "finalize_config E h1 (snd w1)"
  have h2: "handle_for i ?h2" "file_ok content i s1" "read_config ?h2 \<noteq> None"
    "handle_done i ?h2 \<or> force_full_download ?h2" "open_for_reading (handle_flags ?h2)"
    using loaded assms(5) by (auto simp: finalize_config_def handle_for_def handle_done_def)
  have cases: "download_on_open E ?h2 (s1, w1) = Some (Inr h', s', w') \<or>
      \<not> force_full_download ?h2 \<and> h' = ?h2 \<and> file_ok content i s' = file_ok content i s1"
    using assms(1) load h2(5)
    by (auto simp: InitializeFileInfo_def bind_io_def Let_def update_chosen_def file_ok_def
        split: if_splits cache_choice.splits)
  then show ?thesis
  proof
    assume "download_on_open E ?h2 (s1, w1) = Some (Inr h', s', w')"
    from download_on_open_done [OF this h2(1,2)] show ?thesis by simp
  qed (use h2 in auto)
qed

lemma TryInitializeRead_done:
  assumes "TryInitializeRead E c h (s, w) = Some (Inr (Inl h'), s', w')" "handle_for i h" "file_ok content i s"
    and "length_cached path (length content) (chosen_cache c (s, w))"
  shows "handle_done i h' \<and> file_ok content i s' \<and> read_config h' \<noteq> None"
proof (cases "force_download (class_params (open_class E) (snd w))")
  case True
  then have "download_on_open E (finalize_config E h (snd w)) (s, w) = Some (Inr h', s', w')"
    using assms(1) by (auto simp: TryInitializeRead_def bind_io_Inr split: if_splits)
  from download_on_open_done [OF this, of i] assms(2,3) show ?thesis
    by (simp add: finalize_config_def handle_for_def)
next
  case False
  then obtain entry h1 w1 where entry: "length_cached path (length content) (chosen_cache c (s, w)) \<Longrightarrow> unat (entry_length entry) = length content"
    and loaded: "class_load_entry (open_class E) entry h (snd w) = Inr (h1, w1)" "h' = finalize_config E h1 w1" "s' = s"
    using assms(1,2)
    by (auto simp: TryInitializeRead_def bind_io_def length_cached_def handle_for_def split: if_splits option.splits sum.splits)
  show ?thesis
    using load_entry [OF loaded(1)] loaded(2,3) entry assms(2-4)
    by (simp add: handle_done_def handle_for_def finalize_config_def)
qed

lemma TryInitializeRead_later:
  "TryInitializeRead E c h sw = Some (Inr (Inr b), sw') \<Longrightarrow> sw' = sw"
  by (auto simp: TryInitializeRead_def bind_io_def split: if_splits option.splits sum.splits)

lemma Initialize_done:
  assumes "Initialize E opener h (s, q, w) = Some (Inr h', s', w')" "handle_path h = path" "\<not> memory_fault s"
    and "\<And>i. file_states (http_state s) path = Some i \<Longrightarrow> file_ok content i s"
    and "length_cached path (length content) (global_metadata_cache s)" "length_cached path (length content) q"
    and "\<not> open_for_writing (handle_flags h)" "open_for_reading (handle_flags h)" "\<not> write_overwrite_mode h"
    and "handle_initialized h \<Longrightarrow> unat (handle_length h) = length content"
  shows "\<exists>i. handle_done i h' \<and> file_ok content i s' \<and> read_config h' \<noteq> None"
proof -
  obtain h1 s1 w1 where init: "InitializeRequestState opener h (s, q, w) = Some (Inr h1, s1, w1)"
    using assms(1) by (auto simp: Initialize_def bind_io_Inr)
  from InitializeRequestState_file [OF init assms(3), of content] assms(2,4) obtain i where
    h1: "h1 = h\<lparr>file_state := i\<rparr>" "file_ok content i s1" "w1 = (q, w)" "global_metadata_cache s1 = global_metadata_cache s"
    by auto
  obtain c s2 q2 w2 where cache: "TryGetMetadataCache opener (s1, q, w) = Some (Inr c, s2, q2, w2)"
    using assms(1) init h1(3) by (auto simp: Initialize_def bind_io_Inr)
  have c: "same_files s1 s2" "length_cached path (length content) (chosen_cache c (s2, q2, w2))"
    using TryGetMetadataCache_files [OF cache] assms(5,6) h1(4) by auto
  have start: "handle_for i h1" "file_ok content i s2"
    using h1(1,2) assms(2) c(1) by (simp_all add: handle_for_def same_files_ok)
  obtain ready s3 w3 where try_read: "TryInitializeRead E c h1 (s2, q2, w2) = Some (Inr ready, s3, w3)"
    using assms(1) init cache h1(3) by (auto simp: Initialize_def bind_io_Inr)
  show ?thesis
  proof (cases ready)
    case (Inl h2)
    then have "h' = h2" "s' = s3"
      using assms(1) init cache try_read h1(3) by (simp_all add: Initialize_def bind_io_def)
    with TryInitializeRead_done [OF try_read [unfolded Inl] start c(2)] show ?thesis by blast
  next
    case (Inr b)
    with TryInitializeRead_later try_read have same: "(s3, w3) = (s2, q2, w2)" by blast
    have rest: "bind_io (InitializeFileInfo E c b h1) (\<lambda>h2. if open_for_writing (handle_flags h2) then
        bind_io (update_chosen c (CacheErase (handle_path h2))) (\<lambda>_. return_io h2) else return_io h2) (s2, q2, w2) =
        Some (Inr h', s', w')"
      using assms(1) init cache try_read h1(3) same Inr by (simp add: Initialize_def bind_io_def)
    then obtain h2 s4 w4 where info: "InitializeFileInfo E c b h1 (s2, q2, w2) = Some (Inr h2, s4, w4)"
      by (auto simp: bind_io_Inr)
    have complete: "handle_done i h2 \<and> file_ok content i s4 \<and> read_config h2 \<noteq> None"
      using InitializeFileInfo_done [OF info start] assms(7-10) h1(1) by simp
    moreover have "h' = h2 \<and> file_ok content i s' = file_ok content i s4"
      using rest info
      by (auto simp: bind_io_def update_chosen_def file_ok_def split: if_splits cache_choice.splits)
    ultimately show ?thesis by blast
  qed
qed

end

section \<open>The HTTP file system\<close>

text \<open>\<open>send_head\<close> sends a request without handlers, with the parameters that travel with it.\<close>

type_synonym ('h, 'w) head_sender =
  "HTTPFSParams \<Rightarrow> 'h GetRequest \<Rightarrow> 'w world \<Rightarrow> GetResponse option res \<times> 'w world"

definition RunHeadRequest ::
  "duckdb_api \<Rightarrow> 'h headers_api \<Rightarrow> ('h, 'w) head_sender \<Rightarrow> string \<Rightarrow> 'h \<Rightarrow> HTTPFSParams \<Rightarrow> 'w world \<Rightarrow>
     GetResponse option res \<times> 'w world" where
  "RunHeadRequest D H send_head url header_map params =
     send_head (params\<lparr>extra_headers := filter (\<lambda>(name, _). name \<noteq> ''Range'') (extra_headers params)\<rparr>)
       \<lparr>request_url = url, request_headers = RemoveRangeHeader D H header_map, try_request = False\<rparr>"

definition RunDeleteRequest ::
  "('h, 'w) head_sender \<Rightarrow> string \<Rightarrow> 'h \<Rightarrow> HTTPFSParams \<Rightarrow> 'w world \<Rightarrow> GetResponse option res \<times> 'w world" where
  "RunDeleteRequest send_delete url header_map params =
     send_delete params \<lparr>request_url = url, request_headers = header_map, try_request = False\<rparr>"

definition HTTPHeadRequest ::
  "duckdb_api \<Rightarrow> 'h headers_api \<Rightarrow> ('h, 'w) head_sender \<Rightarrow> HTTPFSParams \<Rightarrow> string \<Rightarrow> (GetResponse option, 'w) io" where
  "HTTPHeadRequest D H send_head params url sw =
     Some (RunHeadRequest D H send_head url (request_headers_of H params) params sw)"

definition HTTPDeleteRequest ::
  "'h headers_api \<Rightarrow> ('h, 'w) head_sender \<Rightarrow> HTTPFSParams \<Rightarrow> string \<Rightarrow> (GetResponse option, 'w) io" where
  "HTTPDeleteRequest H send_delete params url sw =
     Some (RunDeleteRequest send_delete url (request_headers_of H params) params sw)"

definition http_open_env ::
  "duckdb_api \<Rightarrow> 'h headers_api \<Rightarrow> (u64 \<Rightarrow> string) \<Rightarrow> (u64 \<Rightarrow> string) \<Rightarrow> ('h, 'w caches) sender \<Rightarrow>
     ('h, 'w caches) head_sender \<Rightarrow> HTTPFSParams \<Rightarrow> (int \<Rightarrow> string list) \<Rightarrow> (string \<Rightarrow> int option) \<Rightarrow> 'w open_env" where
  "http_open_env D H A text_of send send_head params status_text parse =
     \<lparr>open_api = D,
      open_requests_of = (\<lambda>h.
        let R = http_file_requests D H A text_of send params status_text h
        in \<lparr>get_range = get_range R, get_full = get_full R, get_error = get_error R,
            get_head = HTTPHeadRequest D H send_head params (handle_path h),
            head_error = (\<lambda>r. GetHTTPError status_text (HTTPResponse.truncate r) HEAD_REQUEST (handle_path h))\<rparr>),
      open_class = http_class D params, parse_time = parse\<rparr>"

text \<open>
  \<open>CreateHandle\<close>: the parameters of the settings, with the token of a bearer secret for the path.
\<close>

definition CreateHTTPHandle ::
  "(string \<Rightarrow> HTTPFSParams res) \<Rightarrow> (string \<Rightarrow> string res option) option \<Rightarrow> string \<Rightarrow> OpenFlags \<Rightarrow> ExtendedInfo option \<Rightarrow>
     (HTTPFileHandle \<times> HTTPFSParams) res" where
  "CreateHTTPHandle initialize_parameters bearer_secret path flags info =
     bind_res (initialize_parameters path) (\<lambda>params.
     bind_res (case Option.bind bearer_secret (\<lambda>lookup. lookup path) of
         None \<Rightarrow> Inr params
       | Some token \<Rightarrow> bind_res token (\<lambda>t. Inr (params\<lparr>bearer_token := t\<rparr>))) (\<lambda>params.
     Inr (CreateHandle path flags info, params)))"

record FileOpenFlags = OpenFlags +
  open_for_appending :: bool
  return_null_if_not_exists :: bool

text \<open>
  The opening gives \<open>None\<close> for a null pointer. \<open>create\<close> is \<open>CreateHandle\<close> of the file system with the
  environment of the handle it makes.
\<close>

definition OpenFileExtended ::
  "(OpenFlags \<Rightarrow> (HTTPFileHandle \<times> 'w open_env) res) \<Rightarrow> file_opener \<Rightarrow> FileOpenFlags \<Rightarrow>
     (HTTPFileHandle option, 'w caches) io" where
  "OpenFileExtended create opener flags sw =
     (if return_null_if_not_exists flags then
        (case bind_io (res_io (create (OpenFlags.truncate flags))) (\<lambda>(h, E). Initialize E opener h) sw of
           None \<Rightarrow> None
         | Some (Inl e, sw') \<Rightarrow> Some (Inr None, sw')
         | Some (Inr h, sw') \<Rightarrow> Some (Inr (Some h), sw'))
      else
        bind_io (res_io (create (OpenFlags.truncate flags))) (\<lambda>(h, E).
          let h1 = (if open_for_writing flags \<and> \<not> open_for_appending flags \<and> \<not> open_for_reading flags
                    then h\<lparr>write_overwrite_mode := True\<rparr> else h)
          in bind_io (Initialize E opener h1) (\<lambda>h2. return_io (Some h2))) sw)"

definition FILE_FLAGS_READ :: FileOpenFlags where
  "FILE_FLAGS_READ =
     \<lparr>open_for_reading = True, open_for_writing = False, create_if_not_exists = False, overwrite_existing = False,
      open_for_appending = False, return_null_if_not_exists = False\<rparr>"

definition FileExists ::
  "(OpenFlags \<Rightarrow> (HTTPFileHandle \<times> 'w open_env) res) \<Rightarrow> file_opener \<Rightarrow> (bool, 'w caches) io" where
  "FileExists create opener sw =
     (case OpenFileExtended create opener FILE_FLAGS_READ sw of
        None \<Rightarrow> None
      | Some (Inl e, sw') \<Rightarrow> Some (Inr False, sw')
      | Some (Inr h, sw') \<Rightarrow> Some (Inr True, sw'))"

definition HTTPCanHandleFile :: "string \<Rightarrow> bool" where
  "HTTPCanHandleFile fpath \<longleftrightarrow> starts_with ''https://'' fpath \<or> starts_with ''http://'' fpath"

text \<open>\<open>allow_asterisks\<close> is the setting, when there is an opener and it has a value.\<close>

definition HTTPGlob :: "bool option \<Rightarrow> string \<Rightarrow> string list res" where
  "HTTPGlob allow_asterisks path =
     (if CHR ''*'' \<in> set path \<and> allow_asterisks = Some False then
        Inl (Exn InvalidInputException (''Globs (`*`) for generic HTTP file is are not supported.'' @ [NL] @ ''Consider `SET '' @
          ''allow_asterisks_in_http_paths = true;` to allow this behaviour'') [])
      else Inr [path])"

definition GetFileSize :: "HTTPFileHandle \<Rightarrow> int res" where
  "GetFileSize h =
     (if unat (handle_length h) < 2 ^ 63 then Inr (uint (handle_length h)) else Inl (Exn InternalException [] []))"

definition HTTPWrite :: "HTTPFileHandle \<Rightarrow> unit res" where
  "HTTPWrite h = Inl (Exn NotImplementedException ''Writing to HTTP files not implemented'' [])"

end
