(* ===== verification/Http_Open_Read.thy ===== *)
theory Http_Open_Read
  imports Http_Open
begin

text \<open>
  A file that is opened and read over HTTP: the contract of the HTTP client for the requests of an
  opening, which makes the HTTP file system an instance of \<open>file_opening\<close>, and the properties of handles.
\<close>

section \<open>The requests of an opening\<close>

text \<open>
  A server that reports the length of the file: with every HEAD response of status 200, and with the
  response to every successful read.
\<close>

definition reports_length :: "('h, 'w caches) sender \<Rightarrow> ('h, 'w caches) head_sender \<Rightarrow> string \<Rightarrow> nat \<Rightarrow> bool" where
  "reports_length send send_head url n \<longleftrightarrow>
     (\<forall>params req s w r s' w'. request_url req = url \<and> send_head params req (s, w) = (Inr (Some r), s', w') \<longrightarrow>
        (\<exists>c. s' = set_counters c s) \<and> (response_status r = 200 \<longrightarrow> response_length r = Some (word_of_nat n))) \<and>
     (\<forall>req hs s w r s' w'. request_url req = url \<and> send req hs (s, w) = (Inr (Some r), s', w') \<longrightarrow>
        response_status r \<in> {200, 202, 206} \<longrightarrow> response_length r = Some (word_of_nat n))"

lemma reports_headD:
  "reports_length send send_head url n \<Longrightarrow> request_url req = url \<Longrightarrow> send_head params req (s, w) = (Inr (Some r), s', w') \<Longrightarrow>
    (\<exists>c. s' = set_counters c s) \<and> (response_status r = 200 \<longrightarrow> response_length r = Some (word_of_nat n))"
  unfolding reports_length_def by blast

lemma reports_readD:
  "reports_length send send_head url n \<Longrightarrow> request_url req = url \<Longrightarrow> send req hs (s, w) = (Inr (Some r), s', w') \<Longrightarrow>
    response_status r \<in> {200, 202, 206} \<Longrightarrow> response_length r = Some (word_of_nat n)"
  unfolding reports_length_def by blast

lemma same_files_counters: "same_files s (set_counters c s)"
  by (simp add: same_files_def)

text \<open>A range request without a buffer only asks for the headers: it writes nothing.\<close>

definition no_buffer :: "bool \<Rightarrow> HTTPTransfer \<Rightarrow> bool" where
  "no_buffer fault s \<longleftrightarrow> buffer_out (range_context s) = None \<and> memory_fault s = fault"

lemma no_buffer_simps [simp]:
  "no_buffer b (mark_guard m j s) = no_buffer b s" "no_buffer b (set_counters c s) = no_buffer b s"
  "no_buffer b (s\<lparr>global_metadata_cache := m'\<rparr>) = no_buffer b s"
  by (simp_all add: no_buffer_def mark_guard_def update_range_def case_prod_beta)

interpretation probing: transfer_handlers "range_handlers path j config get_error" "no_buffer b" "\<lambda>bytes s. True" "\<lambda>s. True"
  for path j config get_error b
proof
  fix chunk s
  show "fst (content_handler (range_handlers path j config get_error) chunk s) \<noteq> Inr False"
    by (auto simp: range_handlers_def HandleContent_def Let_def split: option.splits if_splits)
next
  fix s r assume inv: "no_buffer b s"
  then have parts: "buffer_out (range_context s) = None" "memory_fault s = b" by (simp_all add: no_buffer_def)
  obtain ok s2 where valid: "ValidateContentLength j r (set_context (\<lambda>c. c\<lparr>out_offset := 0\<rparr>) s) = (ok, s2)" by fastforce
  have "no_buffer b s2"
    using valid parts
    by (auto simp: ValidateContentLength_def no_buffer_def mark_guard_def update_range_def case_prod_beta
        split: option.splits if_splits)
  then show "no_buffer b (snd (response_handler (range_handlers path j config get_error) r s))"
    using parts inv by (auto simp: range_handlers_def HandleResponse_def valid Let_def no_buffer_def [of b s] no_buffer_def [of b "_\<lparr>range_context := _\<rparr>"] split: option.splits)
next
  fix chunk s assume "no_buffer b s"
  then show "no_buffer b (snd (content_handler (range_handlers path j config get_error) chunk s))"
    by (simp add: range_handlers_def HandleContent_def no_buffer_def Let_def)
qed auto

lemma RunGetRangeRequest_probes:
  assumes client: "http_client served send" and reports: "reports_length send send_head url n"
    and run: "RunGetRangeRequest H text_of send path i url header_map config offset None len failure (s, w) =
      Some (Inr (Some r), s', w')"
  shows "same_files s s' \<and> (response_status r \<in> {200, 202, 206} \<longrightarrow> response_length r = Some (word_of_nat n))"
proof -
  obtain g hs where begun: "BeginRangeRequest (auto_fallback config) i (http_state s) = Some (g, hs)"
    using run by (auto simp: RunGetRangeRequest_def Let_def)
  define s1 where "s1 = s\<lparr>http_state := hs, range_context :=
      \<lparr>buffer_out = None, buffer_out_len = len, out_offset = 0, range_request_not_supported = False, range_guard = g\<rparr>\<rparr>"
  have start: "no_buffer (memory_fault s) s1" by (simp add: s1_def no_buffer_def)
  let ?h = "range_handlers path i config failure"
  let ?req = "range_request H text_of url header_map config offset len"
  have "memory_fault s' = memory_fault s \<and> (response_status r \<in> {200, 202, 206} \<longrightarrow> response_length r = Some (word_of_nat n))"
  proof (cases "guard_support g = NOT_SUPPORTED \<and> auto_fallback config")
    case True
    then show ?thesis
      using run begun by (auto simp: RunGetRangeRequest_def Let_def SetRangeRequestNotSupported_def end_guard_def)
  next
    case False
    obtain outcome s2 w2 where sent: "send ?req ?h (s1, w) = (outcome, s2, w2)" by (cases "send ?req ?h (s1, w)") auto
    obtain as where "client_run (served ?req) ?h as s1 outcome s2"
      using client_runs [OF client, of ?req ?h s1 w] sent by (metis fst_conv snd_conv)
    from probing.client_result [OF this start] have kept: "no_buffer (memory_fault s) s2" by auto
    obtain response where response: "outcome = Inr response"
      and final: "FinalizeRange text_of url (range_expr text_of offset len) i response s2 = (Inr (Some r), snd (FinalizeRange text_of url (range_expr text_of offset len) i response s2))"
        "s' = end_guard i (snd (FinalizeRange text_of url (range_expr text_of offset len) i response s2))"
      using run begun False
      by (auto simp: RunGetRangeRequest_def Let_def sent [unfolded s1_def range_request_def] case_prod_beta prod_eq_iff split: sum.splits)
    have "memory_fault s' = memory_fault s"
      using kept by (auto simp: final(2) FinalizeRange_def end_guard_def no_buffer_def mark_guard_def case_prod_beta split: option.splits)
    moreover obtain r0 where r0: "response = Some r0" "response_status r = response_status r0" "response_header r = response_header r0"
      using final(1) by (auto simp: FinalizeRange_def SetRangeRequestNotSupported_def split: if_splits option.splits)
    moreover have "response_status r0 \<in> {200, 202, 206} \<longrightarrow> response_length r0 = Some (word_of_nat n)"
      using reports_readD [OF reports _ sent [unfolded response r0(1)]] by (simp add: range_request_def)
    moreover have "response_length r = response_length r0" by (simp only: response_length_def r0(3))
    ultimately show ?thesis by simp
  qed
  with RunGetRangeRequest_kept [OF client run] show ?thesis by (simp add: same_files_def)
qed

lemma http_file_opening:
  assumes "http_client served send" "allocates A" "reports_length send send_head path (length content)"
    and "serves_content D H text_of path (request_headers_of H params) content served"
    and "length content < 18446744073709551615"
  shows "file_opening (http_open_env D H A text_of send send_head params status_text parse) path content"
proof (rule file_opening.intro)
  let ?E = "http_open_env D H A text_of send send_head params status_text parse"
  show "length content < 18446744073709551615" by (rule assms(5))
  show "http_requests (file_requests.truncate (open_requests_of ?E h)) content (file_state h)" if "handle_path h = path" for h
  proof -
    obtain R where R: "http_file_requests D H A text_of send params status_text h = R" by blast
    have "file_requests.truncate (open_requests_of ?E h) = R"
      by (cases R) (simp add: http_open_env_def Let_def file_requests.truncate_def R)
    with http_requests_http [OF assms(1,2), of D H text_of h params content status_text "file_state h"] assms(4) that R
    show ?thesis by simp
  qed
  show "same_files s s' \<and> (response_status r = 200 \<longrightarrow> response_length r = Some (word_of_nat (length content)))"
    if "get_head (open_requests_of ?E h) (s, w) = Some (Inr (Some r), s', w')" "handle_path h = path" for h s w r s' w'
  proof -
    let ?params = "params\<lparr>extra_headers := filter (\<lambda>(name, _). name \<noteq> ''Range'') (extra_headers params)\<rparr>"
    let ?req = "\<lparr>request_url = handle_path h, request_headers = RemoveRangeHeader D H (request_headers_of H params), try_request = False\<rparr>"
    have sent: "send_head ?params ?req (s, w) = (Inr (Some r), s', w')"
      using that(1) by (simp add: http_open_env_def Let_def HTTPHeadRequest_def RunHeadRequest_def)
    from reports_headD [OF assms(3) _ sent] that(2) show ?thesis using same_files_counters by auto
  qed
  show "same_files s s' \<and> (response_status r \<in> {200, 202, 206} \<longrightarrow> response_length r = Some (word_of_nat (length content)))"
    if "get_range (open_requests_of ?E h) config 0 None 2 (s, w) = Some (Inr (Some r), s', w')" "handle_path h = path"
    for h config s w r s' w'
    using RunGetRangeRequest_probes [OF assms(1,3)] that
    by (auto simp: http_open_env_def Let_def http_file_requests_def GetRangeRequest_def)
  show "handle_length h' = entry_length e \<and> file_state h' = file_state h \<and> handle_path h' = handle_path h"
    if "class_load_entry (open_class ?E) e h v = Inr (h', v')" for e h v h' v'
    using that by (auto simp: http_open_env_def http_class_def InitializeFromCacheEntry_def)
qed

section \<open>Properties\<close>

text \<open>
  C4: A file that was opened is the file: over any server that keeps serving the same content and
  reports its length, a handle that was opened for reading has the length of the file, wherever it
  came from - a HEAD response, a range request after a refused HEAD, the metadata cache, or a
  download - and whatever is read through it at any position inside the file are the bytes of the file.
\<close>

theorem opened_file_reads:
  assumes client: "http_client served send" "allocates A" "reports_length send send_head path (length content)"
      "serves_content D H text_of path (request_headers_of H params) content served" "length content < 18446744073709551615"
    and state: "\<not> memory_fault s" "\<And>i. file_states (http_state s) path = Some i \<Longrightarrow> file_ok content i s"
      "length_cached path (length content) (global_metadata_cache s)" "length_cached path (length content) q"
    and handle: "h = CreateHandle path flags None" "open_for_reading flags" "\<not> open_for_writing flags"
    and opened: "Initialize (http_open_env D H A text_of send send_head params status_text parse) opener h (s, q, w) =
      Some (Inr h', s1, w1)"
    and reads: "ReadPosition (http_file_requests D H A text_of send params status_text h') text_of h' buffer n location (s1, w1) =
      Some (Inr b, s2, w2)"
      "nat n \<le> length buffer" "unat location + nat n \<le> length content" "n < 18446744073709551616"
  shows "unat (handle_length h') = length content \<and> b = take (nat n) (drop (unat location) content) @ drop (nat n) buffer"
proof -
  note files = http_file_opening [OF client, where status_text = status_text and parse = parse]
  obtain i where complete: "file_opening.handle_done path content i h'" "file_ok content i s1"
    using file_opening.Initialize_done [OF files opened _ state] handle by (auto simp: CreateHandle_def)
  then have h': "handle_path h' = path" "file_state h' = i" "unat (handle_length h') = length content"
    by (simp_all add: file_opening.handle_done_def [OF files] file_opening.handle_for_def [OF files])
  have "serves_content D H text_of (handle_path h') (request_headers_of H params) content served"
    using client(4) h'(1) by simp
  from ReadPosition_bytes [OF client(1,2) this _ reads(2-4,1)] complete(2) h'
  show ?thesis by auto
qed

text \<open>A server that tells the length: a HEAD request finds it, and every read reports the whole.\<close>

definition sized_response :: "GetResponse \<Rightarrow> GetResponse" where
  "sized_response r = r\<lparr>response_header := [''Content-Range'' \<mapsto> ''bytes 0-9/10'']\<rparr>"

definition sized_file :: "(string \<times> string) list GetRequest \<Rightarrow> attempt" where
  "sized_file req = apfst sized_response (serve_file sample_content req)"

definition sized_send :: "((string \<times> string) list, unit caches) sender" where
  "sized_send req hs sw =
     (let (r, s', u) = single_client sized_file req hs (fst sw, ()) in (r, s', snd sw))"

definition sized_head :: "((string \<times> string) list, unit caches) head_sender" where
  "sized_head params req sw = (Inr (Some (sized_response (sample_response 200))), sw)"

lemma sized_client: "http_client (served_by sized_file) sized_send"
proof -
  have "http_client (served_by sized_file) (single_client sized_file)"
    by (rule single_client_ok)
      (auto simp: sized_file_def serve_file_def sized_response_def attempt_ok_def sample_response_def sample_content_def Let_def
        split: option.splits prod.splits)
  then show ?thesis
    unfolding http_client_def sized_send_def Let_def case_prod_beta fst_conv snd_conv by blast
qed

lemma sized_length: "response_length (sized_response r) = Some 10"
proof -
  have "TryParseContentRange [''Content-Range'' \<mapsto> ''bytes 0-9/10''] = Some 10"
    by (simp add: TryParseContentRange_def TryParseLength_def stoull_def optional_idx_def is_digit_def char_find_def is_space_def Let_def)
  then show ?thesis by (simp only: response_length_def sized_response_def) simp
qed

lemma sized_reports: "reports_length sized_send sized_head url (length sample_content)"
proof -
  have same: "\<exists>c. s = set_counters c s" for s :: HTTPTransfer
    by (rule exI [of _ "state_counters (http_state s)"]) simp
  have "fst (sized_file req) = sized_response (fst (serve_file sample_content req))" for req
    by (simp add: sized_file_def)
  then have read: "response_length r = Some 10" if "sized_send req hs (s, w) = (Inr (Some r), s', w')" for req hs s w r s' w'
    using that by (auto simp: sized_send_def single_client_def sized_length split: prod.splits sum.splits)
  have "length sample_content = 10" by (simp add: sample_content_def)
  then show ?thesis
    unfolding reports_length_def using same by (auto simp: sized_head_def sized_length dest: read)
qed

lemma sized_serves:
  "serves_content std_api assoc_headers unary url headers sample_content (served_by sized_file)"
  using serve_file_content [of url headers sample_content]
  by (simp add: serves_content_def served_by_def sized_file_def sized_response_def)

abbreviation sized_env :: "unit open_env" where
  "sized_env \<equiv> http_open_env std_api assoc_headers zero_alloc unary sized_send sized_head sample_params (\<lambda>n. []) (\<lambda>t. None)"

interpretation sized_opening: file_opening sized_env path sample_content for path
  by (rule http_file_opening [OF sized_client allocates_zero sized_reports sized_serves]) (simp add: sample_content_def)

text \<open>A query that knows the path already, and the handle that opening gives.\<close>

definition known_transfer :: HTTPTransfer where
  "known_transfer = sample_transfer\<lparr>http_state := init_http_state\<lparr>file_states := [''http://h/f'' \<mapsto> 0]\<rparr>\<rparr>"

abbreviation read_flags :: OpenFlags where
  "read_flags \<equiv> \<lparr>open_for_reading = True, open_for_writing = False, create_if_not_exists = False, overwrite_existing = False\<rparr>"

definition query_opener :: file_opener where
  "query_opener = \<lparr>opener_database = False, opener_context = False, opener_shared_cache = None, opener_query_state = True\<rparr>"

lemma known_fields:
  "force_download sample_params = False" "force_download_threshold sample_params = 0" "s3_version_id_pinning sample_params = False"
  by (simp_all add: sample_params_def)

lemma sized_open:
  "\<exists>h'. Initialize sized_env query_opener (CreateHandle ''http://h/f'' read_flags None) (known_transfer, None, ()) =
     Some (Inr h', known_transfer, None, ()) \<and> file_state h' = 0 \<and> handle_path h' = ''http://h/f'' \<and>
     (\<exists>config. GetReadConfig h' = Inr config)"
proof -
  let ?h = "CreateHandle ''http://h/f'' read_flags None"
  have state: "GetFileState ''http://h/f'' (http_state known_transfer) = (0, http_state known_transfer)"
    by (simp add: GetFileState_def known_transfer_def)
  have fields: "handle_path ?h = ''http://h/f''" "handle_flags ?h = read_flags" "\<not> handle_initialized ?h" "\<not> force_full_download ?h"
    "\<not> write_overwrite_mode ?h"
    by (simp_all add: CreateHandle_def)
  have init: "InitializeRequestState query_opener ?h (known_transfer, None, ()) =
      Some (Inr (?h\<lparr>file_state := 0\<rparr>), known_transfer, None, ())"
    by (simp add: InitializeRequestState_def query_opener_def fields state)
  have none: "TryGetCachedFileHandle i (http_state known_transfer) = None" for i
    by (simp add: TryGetCachedFileHandle_def TryGetHandle_def known_transfer_def init_http_state_def init_file_state_def
        init_cached_file_def)
  have load: "TryLoadFileInfoWithoutRequest (?h\<lparr>file_state := 0\<rparr>) known_transfer = (False, ?h\<lparr>file_state := 0\<rparr>)"
    using fields by (simp add: TryLoadFileInfoWithoutRequest_def none)
  have head: "get_head (open_requests_of sized_env h) sw = Some (Inr (Some (sized_response (sample_response 200))), sw)" for h sw
    by (simp add: http_open_env_def Let_def HTTPHeadRequest_def RunHeadRequest_def sized_head_def)
  have status: "response_status (sized_response (sample_response 200)) = 200"
    by (simp add: sized_response_def sample_response_def)
  have headers: "response_header (sized_response (sample_response 200)) = [''Content-Range'' \<mapsto> ''bytes 0-9/10'']"
    by (simp add: sized_response_def)
  have request: "RequestFileInfo sized_env (?h\<lparr>file_state := 0\<rparr>) sw =
      Some (Inr (Some (sized_response (sample_response 200)), ?h\<lparr>file_state := 0\<rparr>), sw)" for sw
    by (simp add: RequestFileInfo_def bind_io_def head dereference_def status)
  have params: "class_params (open_class sized_env) v = sample_params" for v
    by (simp add: http_open_env_def http_class_def)
  obtain h1 where applied: "\<And>sw. ApplyFileInfo sized_env (sized_response (sample_response 200)) (?h\<lparr>file_state := 0\<rparr>) sw = Some (Inr h1, sw)"
    "handle_path h1 = ''http://h/f''" "file_state h1 = 0" "handle_flags h1 = read_flags" "\<not> force_full_download h1" "handle_length h1 = 10"
    using fields by (simp add: ApplyFileInfo_def Let_def headers sized_length params known_fields)
  let ?h2 = "finalize_config sized_env h1 ()"
  have none_chosen: "TryGetMetadataCache query_opener = return_io NO_CACHE"
    by (simp add: TryGetMetadataCache_def query_opener_def)
  have "InitializeFileInfo sized_env NO_CACHE False (?h\<lparr>file_state := 0\<rparr>) (known_transfer, None, ()) =
      Some (Inr ?h2, known_transfer, None, ())"
    using applied(4-6)
    by (simp add: InitializeFileInfo_def LoadFileInfo_def bind_io_def load request applied(1) Let_def finalize_config_def params
        known_fields)
  then have "Initialize sized_env query_opener ?h (known_transfer, None, ()) = Some (Inr ?h2, known_transfer, None, ())"
    using applied(4) fields
    by (simp add: Initialize_def bind_io_def init none_chosen TryInitializeRead_def chosen_cache_def params known_fields
        finalize_config_def)
  then show ?thesis using applied(2,3) by (auto simp: finalize_config_def GetReadConfig_def)
qed

lemma sized_range:
  assumes "handle_path h = url" "file_state h = i"
  shows "\<exists>r s'. GetRangeRequest assoc_headers unary sized_send params failure h config 2 (Some ''zzzz'') 3 (known_transfer, v) =
      Some (Inr (Some r), s', v) \<and> response_status r = 206 \<and> \<not> request_error r \<and> buffer_out (range_context s') \<noteq> None"
proof -
  let ?hm = "request_headers_of assoc_headers params"
  have "\<exists>g hs. BeginRangeRequest (auto_fallback config) i (http_state known_transfer) = Some (g, hs) \<and>
      guard_support g \<noteq> NOT_SUPPORTED"
    by (simp add: BeginRangeRequest_def GuardLoad_def GuardProbe_def known_transfer_def init_http_state_def init_file_state_def
        init_range_state_def Let_def)
  then obtain g hs where begun: "BeginRangeRequest (auto_fallback config) i (http_state known_transfer) = Some (g, hs)"
    "guard_support g \<noteq> NOT_SUPPORTED" by blast
  define s1 where "s1 = known_transfer\<lparr>http_state := hs, range_context := \<lparr>buffer_out = Some ''zzzz'', buffer_out_len = 3,
      out_offset = 0, range_request_not_supported = False, range_guard = g\<rparr>\<rparr>"
  let ?r = "sized_response (sample_response 206)"
  have served: "sized_file (range_request assoc_headers unary url ?hm config 2 3) = (?r, [''2'', ''34''])"
    unfolding sized_file_def serve_file_range by (simp add: sample_content_def)
  have first: "HandleResponse url i config failure ?r s =
      (Inr True, mark_guard MarkSupported i (set_context (\<lambda>c. c\<lparr>out_offset := 0\<rparr>) s))" for s
    by (simp add: HandleResponse_def sized_response_def sample_response_def ValidateContentLength_def ValidateResponseETag_def)
  have "\<exists>s2. run_attempt (range_handlers url i config failure) (?r, [''2'', ''34'']) s1 = (Inr True, s2) \<and>
      buffer_out (range_context s2) = Some ''234z'' \<and> out_offset (range_context s2) = 3 \<and>
      buffer_out_len (range_context s2) = 3 \<and> \<not> range_request_not_supported (range_context s2)"
    by (simp add: run_attempt_def range_handlers_def first HandleContent_def mem_write_def s1_def)
  then obtain s2 where s2: "run_attempt (range_handlers url i config failure) (?r, [''2'', ''34'']) s1 = (Inr True, s2)"
    "buffer_out (range_context s2) = Some ''234z''" "out_offset (range_context s2) = 3"
    "buffer_out_len (range_context s2) = 3" "\<not> range_request_not_supported (range_context s2)" by blast
  have sent: "sized_send (range_request assoc_headers unary url ?hm config 2 3)
      (range_handlers url i config failure) (s1, v) = (Inr (Some ?r), s2, v)"
    unfolding sized_send_def single_client_def fst_conv served s2(1) by simp
  have fin: "FinalizeRange unary url e i (Some ?r) s2 = (Inr (Some ?r), mark_guard MarkSupported i s2)" for e
    using s2 by (simp add: FinalizeRange_def ValidateReadLength_def IsSuccessfulResponse_def sized_response_def sample_response_def)
  have notns: "\<not> (guard_support g = NOT_SUPPORTED \<and> auto_fallback config)" using begun(2) by blast
  have "GetRangeRequest assoc_headers unary sized_send params failure h config 2 (Some ''zzzz'') 3 (known_transfer, v) =
      Some (Inr (Some ?r), end_guard i (mark_guard MarkSupported i s2), v)"
    unfolding GetRangeRequest_def assms
    by (rule RunGetRangeRequest_sent, rule begun(1), rule notns, rule sent [unfolded s1_def], rule fin)
  then show ?thesis using s2(2) by (auto simp: end_guard_def sized_response_def sample_response_def)
qed

theorem opened_file_reads_witness:
  "\<exists>h' s1 w1 s2 w2. Initialize sized_env query_opener (CreateHandle ''http://h/f'' read_flags None) (known_transfer, None, ()) =
      Some (Inr h', s1, w1) \<and> unat (handle_length h') = 10 \<and>
    ReadPosition (http_file_requests std_api assoc_headers zero_alloc unary sized_send sample_params (\<lambda>n. []) h') unary h' ''zzzz'' 3 2
      (s1, w1) = Some (Inr ''234z'', s2, w2)"
proof -
  let ?R = "http_file_requests std_api assoc_headers zero_alloc unary sized_send sample_params (\<lambda>n. [])"
  obtain h' config where h': "file_state h' = 0" "handle_path h' = ''http://h/f''" "GetReadConfig h' = Inr config"
    and opened: "Initialize sized_env query_opener (CreateHandle ''http://h/f'' read_flags None) (known_transfer, None, ()) =
      Some (Inr h', known_transfer, None, ())"
    using sized_open by auto
  let ?err = "\<lambda>r. GetHTTPError (\<lambda>n. []) (HTTPResponse.truncate r) GET_REQUEST (handle_path h')"
  obtain r s2 where range: "GetRangeRequest assoc_headers unary sized_send sample_params ?err h' config 2 (Some ''zzzz'') 3
      (known_transfer, None, ()) = Some (Inr (Some r), s2, None, ())"
    and r: "response_status r = 206" "\<not> request_error r" "buffer_out (range_context s2) \<noteq> None"
    using sized_range [OF refl refl, of sample_params ?err h' config "(None, ())"] by auto
  have none: "TryGetCachedFileHandle i (http_state known_transfer) = None" for i
    by (simp add: TryGetCachedFileHandle_def TryGetHandle_def known_transfer_def init_http_state_def init_file_state_def
        init_cached_file_def)
  have condition: "ThrowIfReadConditionFailed path config r = None" for path
    using r(1) by (simp add: ThrowIfReadConditionFailed_def)
  have "\<exists>b. ReadAt (get_range (?R h')) (get_error (?R h')) h' ''zzzz'' 3 2 config (known_transfer, None, ()) = Some (Inr (Some b), s2, None, ())"
    by (simp add: ReadAt_def none TryRangeRequest_def bind_io_def http_file_requests_def Let_def range check_condition_def condition
        buffer_now_def r)
  then obtain b where run: "ReadPosition (?R h') unary h' ''zzzz'' 3 2 (known_transfer, None, ()) = Some (Inr b, s2, None, ())"
    by (auto simp: ReadPosition_def cast_size_def h'(3) ReadAtWithFallback_def bind_io_def)
  have fresh: "file_ok sample_content i known_transfer" "\<not> memory_fault known_transfer"
    "global_metadata_cache known_transfer = None" for i
    by (simp_all add: file_ok_def known_transfer_def sample_transfer_def init_http_state_def init_file_state_def init_cached_file_def)
  have "unat (handle_length h') = length sample_content \<and>
      b = take (nat 3) (drop (unat (2 :: u64)) sample_content) @ drop (nat 3) ''zzzz''"
    by (rule opened_file_reads [OF sized_client allocates_zero sized_reports sized_serves _ fresh(2) fresh(1) _ _ refl _ _ opened run])
      (simp_all add: length_cached_def fresh(3) sample_content_def)
  with opened run show ?thesis by (auto simp: sample_content_def)
qed

end
