(* ===== verification/Http_Curl.thy ===== *)
theory Http_Curl
  imports Http_Range
begin

text \<open>
  The GET transfer of the client over libcurl (src/src/http/httpfs_curl_client.cpp): the headers that
  libcurl hands to its callback line by line, and \<open>GetTransferState\<close>, which turns the callbacks of one
  transfer into calls of the handlers of the request. The calls that libcurl makes are a list, each
  with the status that \<open>CURLINFO_RESPONSE_CODE\<close> has when it is made.
\<close>

section \<open>Headers\<close>

definition pop_line_end :: "string \<Rightarrow> string" where
  "pop_line_end header =
     (if header \<noteq> [] \<and> last header = CHR 0x0A then
        let h = butlast header in if h \<noteq> [] \<and> last h = CHR 0x0D then butlast h else h
      else header)"

definition RESPONSE_STATUS :: string where
  "RESPONSE_STATUS = ''__RESPONSE_STATUS__''"

text \<open>
  The callback for a header line, on the collections of headers, one for every response. It gives
  \<open>None\<close> when it throws, through the frames of libcurl: for a header without a value, whose
  first character it reads, and for a header before any status line.
\<close>

definition RequestHeaderCallback :: "'h headers_api \<Rightarrow> string \<Rightarrow> 'h list \<Rightarrow> 'h list option" where
  "RequestHeaderCallback H contents collection =
     (let header = pop_line_end contents;
          collection1 = (if starts_with ''HTTP/'' header
            then collection @ [header_insert H RESPONSE_STATUS header (headers_empty H)] else collection)
      in case char_find (CHR '':'') header of
           None \<Rightarrow> Some collection1
         | Some colon_pos \<Rightarrow>
             let part1 = take colon_pos header; part2 = drop (colon_pos + 1) header
             in if part2 = [] \<or> collection1 = [] then None
                else Some (butlast collection1 @
                  [header_insert H part1 (if hd part2 = CHR '' '' then tl part2 else part2) (last collection1)]))"

section \<open>Responses\<close>

record 'h RequestInfo =
  info_url :: string
  info_body :: string
  info_code :: int
  info_headers :: "'h list"

text \<open>\<open>ResetRequestInfo\<close>, and the request that starts with it.\<close>

definition ResetRequestInfo :: "'h RequestInfo \<Rightarrow> 'h RequestInfo" where
  "ResetRequestInfo info = info\<lparr>info_headers := [], info_body := [], info_url := [], info_code := 0\<rparr>"

text \<open>A result of libcurl is \<open>None\<close> for \<open>CURLE_OK\<close>, otherwise the text of the error.\<close>

type_synonym curl_code = "string option"

record 'h curl_response =
  curl_status :: int
  curl_error :: curl_code
  curl_body :: string
  curl_response_url :: string
  curl_headers :: 'h

definition TransformResponseCurl :: "'h headers_api \<Rightarrow> 'h RequestInfo \<Rightarrow> curl_code \<Rightarrow> bool \<Rightarrow> 'h curl_response" where
  "TransformResponseCurl H info res include_body =
     (if res \<noteq> None then
        \<lparr>curl_status = info_code info, curl_error = res, curl_body = [], curl_response_url = [], curl_headers = headers_empty H\<rparr>
      else
        \<lparr>curl_status = info_code info, curl_error = None, curl_body = (if include_body then info_body info else []),
         curl_response_url = info_url info,
         curl_headers = (if info_headers info = [] then headers_empty H
           else fold (\<lambda>(name, v) h. if name = RESPONSE_STATUS then h else header_insert H name v h)
             (header_items H (last (info_headers info))) (headers_empty H))\<rparr>)"

section \<open>One transfer\<close>

text \<open>
  The handlers of the request, and whether they are set. \<open>curl_view\<close> is the response as the handlers see it.
\<close>

record 's get_info = "'s GetHandlers" +
  has_content_handler :: bool
  has_response_handler :: bool

record 'h curl_env =
  curl_api :: duckdb_api
  curl_header_api :: "'h headers_api"
  curl_view :: "'h curl_response \<Rightarrow> GetResponse"
  curl_request :: "HTTPTransfer get_info"
  curl_write_error :: string
  client_has_state :: bool

record 'h GetTransferState =
  transfer_info :: "'h RequestInfo"
  transfer_error :: "exn option"
  bytes_received :: nat
  response_started :: bool
  response_handler_called :: bool
  transfer_stopped :: bool
  sink :: HTTPTransfer

definition new_transfer :: "'h RequestInfo \<Rightarrow> HTTPTransfer \<Rightarrow> 'h GetTransferState" where
  "new_transfer info s =
     \<lparr>transfer_info = info, transfer_error = None, bytes_received = 0, response_started = False,
      response_handler_called = False, transfer_stopped = False, sink = s\<rparr>"

abbreviation stream_content :: "'h curl_env \<Rightarrow> bool" where
  "stream_content E \<equiv> has_content_handler (curl_request E)"

definition IsEndOfHeaders :: "string \<Rightarrow> bool" where
  "IsEndOfHeaders contents \<longleftrightarrow> contents = [CHR 0x0D, CHR 0x0A] \<or> contents = [CHR 0x0A]"

definition IsProxyConnectResponse :: "'h curl_env \<Rightarrow> 'h RequestInfo \<Rightarrow> bool" where
  "IsProxyConnectResponse E info =
     (if info_headers info = [] then False
      else case header_find (curl_header_api E) (last (info_headers info)) RESPONSE_STATUS of
             None \<Rightarrow> False
           | Some status \<Rightarrow> str_find ''connection established'' (Lower (curl_api E) status) \<noteq> None)"

definition call_response_handler ::
  "'h curl_env \<Rightarrow> 'h curl_response \<Rightarrow> 'h GetTransferState \<Rightarrow> bool res \<times> 'h GetTransferState" where
  "call_response_handler E response t =
     (let (r, s) = response_handler (curl_request E) (curl_view E response) (sink t) in (r, t\<lparr>sink := s\<rparr>))"

text \<open>\<open>code\<close> is the status that libcurl reports, \<open>None\<close> when it reports none.\<close>

definition StartResponse :: "'h curl_env \<Rightarrow> int option \<Rightarrow> 'h GetTransferState \<Rightarrow> bool res \<times> 'h GetTransferState" where
  "StartResponse E code t =
     (case code of
        None \<Rightarrow> (Inl (Exn IOException ''Failed to read the HTTP response status'' []), t)
      | Some response_code \<Rightarrow>
          if response_code < 0 \<or> 65535 < response_code then (Inl (Exn InternalException [] []), t)
          else
            let t1 = t\<lparr>transfer_info := (transfer_info t)\<lparr>info_code := response_code\<rparr>\<rparr>
            in if response_code < 200 \<or> (300 \<le> response_code \<and> response_code < 400) then (Inr False, t1)
               else
                 let t2 = t1\<lparr>response_started := True\<rparr>
                 in if \<not> stream_content E \<or> 400 \<le> response_code then (Inr True, t2)
                    else
                      let t3 = t2\<lparr>response_handler_called := True\<rparr>
                      in if \<not> has_response_handler (curl_request E) then (Inr True, t3)
                         else
                           (case call_response_handler E
                                (TransformResponseCurl (curl_header_api E) (transfer_info t3) None False) t3 of
                              (Inl e, t4) \<Rightarrow> (Inl e, t4)
                            | (Inr False, t4) \<Rightarrow> (Inr False, t4\<lparr>transfer_stopped := True\<rparr>)
                            | (Inr True, t4) \<Rightarrow> (Inr True, t4)))"

text \<open>What a callback returns to libcurl, and what it does with an exception.\<close>

definition caught :: "(nat res \<times> 'h GetTransferState) \<Rightarrow> nat \<times> 'h GetTransferState" where
  "caught r = (case r of (Inl e, t) \<Rightarrow> (0, t\<lparr>transfer_error := Some e\<rparr>) | (Inr n, t) \<Rightarrow> (n, t))"

definition HeaderCallback ::
  "'h curl_env \<Rightarrow> int option \<Rightarrow> string \<Rightarrow> 'h GetTransferState \<Rightarrow> (nat \<times> 'h GetTransferState) option" where
  "HeaderCallback E code contents t =
     map_option (\<lambda>collection.
       let t1 = t\<lparr>transfer_info := (transfer_info t)\<lparr>info_headers := collection\<rparr>\<rparr>; total_size = length contents
       in if total_size = 0 \<or> \<not> IsEndOfHeaders contents \<or> IsProxyConnectResponse E (transfer_info t1) \<or> response_started t1
          then (total_size, t1)
          else caught
            (case StartResponse E code t1 of
               (Inl e, t2) \<Rightarrow> (Inl e, t2)
             | (Inr True, t2) \<Rightarrow> (Inr total_size, t2)
             | (Inr False, t2) \<Rightarrow> (Inr (if transfer_stopped t2 then 0 else total_size), t2)))
       (RequestHeaderCallback (curl_header_api E) contents (info_headers (transfer_info t)))"

text \<open>The content of a response that has started, as it arrives.\<close>

definition WriteContent :: "'h curl_env \<Rightarrow> string \<Rightarrow> 'h GetTransferState \<Rightarrow> nat res \<times> 'h GetTransferState" where
  "WriteContent E contents t =
     (let count = (\<lambda>t. t\<lparr>bytes_received := bytes_received t + length contents\<rparr>)
      in if \<not> stream_content E \<or> 400 \<le> info_code (transfer_info t) then
           (Inr (length contents),
            count (t\<lparr>transfer_info := (transfer_info t)\<lparr>info_body := info_body (transfer_info t) @ contents\<rparr>\<rparr>))
         else
           (case content_handler (curl_request E) contents (sink t) of
              (Inl e, s) \<Rightarrow> (Inl e, t\<lparr>sink := s\<rparr>)
            | (Inr False, s) \<Rightarrow> (Inr 0, t\<lparr>sink := s, transfer_stopped := True\<rparr>)
            | (Inr True, s) \<Rightarrow> (Inr (length contents), count (t\<lparr>sink := s\<rparr>))))"

definition TransferWrite ::
  "'h curl_env \<Rightarrow> int option \<Rightarrow> string \<Rightarrow> 'h GetTransferState \<Rightarrow> nat res \<times> 'h GetTransferState" where
  "TransferWrite E code contents t =
     (if response_started t then WriteContent E contents t
      else case StartResponse E code t of
             (Inl e, t1) \<Rightarrow> (Inl e, t1)
           | (Inr False, t1) \<Rightarrow> (Inr (if transfer_stopped t1 then 0 else length contents), t1)
           | (Inr True, t1) \<Rightarrow> WriteContent E contents t1)"

definition WriteCallback :: "'h curl_env \<Rightarrow> int option \<Rightarrow> string \<Rightarrow> 'h GetTransferState \<Rightarrow> nat \<times> 'h GetTransferState" where
  "WriteCallback E code contents t = caught (TransferWrite E code contents t)"

text \<open>
  \<open>curl_easy_perform\<close> as libcurl documents it: a callback that does not take all its bytes ends the
  transfer with a write error.
\<close>

datatype curl_call = HeaderLine "int option" string | BodyChunk "int option" string

definition curl_callback :: "'h curl_env \<Rightarrow> curl_call \<Rightarrow> 'h GetTransferState \<Rightarrow> (nat \<times> 'h GetTransferState) option" where
  "curl_callback E call t =
     (case call of HeaderLine code l \<Rightarrow> HeaderCallback E code l t | BodyChunk code d \<Rightarrow> Some (WriteCallback E code d t))"

fun call_data :: "curl_call \<Rightarrow> string" where
  "call_data (HeaderLine code l) = l"
| "call_data (BodyChunk code d) = d"

fun Execute ::
  "'h curl_env \<Rightarrow> curl_code \<Rightarrow> curl_call list \<Rightarrow> 'h GetTransferState \<Rightarrow> (curl_code \<times> 'h GetTransferState) option" where
  "Execute E res [] t = Some (res, t)"
| "Execute E res (call # calls) t =
     (case curl_callback E call t of
        None \<Rightarrow> None
      | Some (n, t1) \<Rightarrow>
          if n = length (call_data call) then Execute E res calls t1 else Some (Some (curl_write_error E), t1))"

definition add_received :: "nat \<Rightarrow> HTTPCounters \<Rightarrow> HTTPCounters" where
  "add_received n c = c\<lparr>total_bytes_received := total_bytes_received c + word_of_nat n\<rparr>"

text \<open>The bytes are counted in the state of the query, when the client has one.\<close>

definition RecordMetrics :: "'h curl_env \<Rightarrow> 'h GetTransferState \<Rightarrow> HTTPTransfer" where
  "RecordMetrics E t =
     (if client_has_state E
      then set_counters (add_received (bytes_received t) (state_counters (http_state (sink t)))) (sink t) else sink t)"

text \<open>\<open>code\<close> is the final status; it is stored into 16 bits.\<close>

definition Finish ::
  "'h curl_env \<Rightarrow> int option \<Rightarrow> curl_code \<Rightarrow> 'h GetTransferState \<Rightarrow> GetResponse res \<times> HTTPTransfer" where
  "Finish E code result t =
     (let t1 = (case code of
                  None \<Rightarrow> t
                | Some c \<Rightarrow> t\<lparr>transfer_info := (transfer_info t)\<lparr>info_code := c mod 65536\<rparr>\<rparr>);
          include_body = (\<not> stream_content E \<or> 400 \<le> info_code (transfer_info t1));
          response = (\<lambda>res. TransformResponseCurl (curl_header_api E) (transfer_info t1) res include_body)
      in case transfer_error t1 of
           Some e \<Rightarrow> (Inl e, RecordMetrics E t1)
         | None \<Rightarrow>
             let result1 = (if transfer_stopped t1 then None else result)
             in if result1 = None \<and> \<not> response_handler_called t1 \<and> has_response_handler (curl_request E) then
                  (case call_response_handler E (response None) (t1\<lparr>response_handler_called := True\<rparr>) of
                     (Inl e, t2) \<Rightarrow> (Inl e, RecordMetrics E t2)
                   | (Inr _, t2) \<Rightarrow> (Inr (curl_view E (response None)), RecordMetrics E t2))
                else (Inr (curl_view E (response result1)), RecordMetrics E t1))"

end
