(* ===== verification/Http_Curl_Get.thy ===== *)
theory Http_Curl_Get
  imports Http_Curl
begin

text \<open>
  What one GET transfer of the curl client does to the handlers of the request: it is one attempt,
  which is the contract of HTTP clients that the reads of Http_File rely on.
\<close>

section \<open>Header lines\<close>

fun collect_headers :: "'h headers_api \<Rightarrow> string list \<Rightarrow> 'h list \<Rightarrow> 'h list option" where
  "collect_headers H [] collection = Some collection"
| "collect_headers H (l # ls) collection = Option.bind (RequestHeaderCallback H l collection) (collect_headers H ls)"

fun header_lines :: "curl_call list \<Rightarrow> string list" where
  "header_lines [] = []"
| "header_lines (HeaderLine code l # calls) = l # header_lines calls"
| "header_lines (BodyChunk code d # calls) = header_lines calls"

text \<open>
  The lines that the callback takes: a status line comes before the first header, and a line with a colon has text
  after it. The others make it throw.
\<close>

fun lines_accepted :: "bool \<Rightarrow> string list \<Rightarrow> bool" where
  "lines_accepted seen [] \<longleftrightarrow> True"
| "lines_accepted seen (l # ls) \<longleftrightarrow>
     (let h = pop_line_end l; seen' = (seen \<or> starts_with ''HTTP/'' h)
      in (case char_find (CHR '':'') h of None \<Rightarrow> True | Some n \<Rightarrow> seen' \<and> drop (n + 1) h \<noteq> []) \<and> lines_accepted seen' ls)"

lemma RequestHeaderCallback_accepts:
  "(case RequestHeaderCallback H l col of
      None \<Rightarrow> \<not> lines_accepted (col \<noteq> []) (l # ls)
    | Some col' \<Rightarrow> lines_accepted (col \<noteq> []) (l # ls) \<longleftrightarrow> lines_accepted (col' \<noteq> []) ls)"
  by (cases "char_find (CHR '':'') (pop_line_end l)") (auto simp: RequestHeaderCallback_def Let_def)

lemma collect_headers_accepted: "collect_headers H ls col \<noteq> None \<longleftrightarrow> lines_accepted (col \<noteq> []) ls"
proof (induction ls arbitrary: col)
  case (Cons l ls)
  show ?case
  proof (cases "RequestHeaderCallback H l col")
    case None
    with RequestHeaderCallback_accepts [where H = H and l = l and col = col and ls = ls] show ?thesis by simp
  next
    case (Some col')
    with RequestHeaderCallback_accepts [where H = H and l = l and col = col and ls = ls] Cons.IH [of col'] show ?thesis by simp
  qed
qed simp

lemma collect_headers_append:
  "collect_headers H (ls @ ls') col = Option.bind (collect_headers H ls col) (collect_headers H ls')"
  by (induction ls arbitrary: col) (auto simp: bind_assoc split: Option.bind_split)

definition sent_headers :: "'h headers_api \<Rightarrow> string list \<Rightarrow> 'h list" where
  "sent_headers H ls = the (collect_headers H ls [])"

lemma transfer_unchanged [simp]:
  "info_headers (transfer_info t) = col \<Longrightarrow> t\<lparr>transfer_info := (transfer_info t)\<lparr>info_headers := col\<rparr>\<rparr> = t"
  "info_code (transfer_info t) = c \<Longrightarrow> t\<lparr>transfer_info := (transfer_info t)\<lparr>info_code := c\<rparr>\<rparr> = t"
  by (cases t; cases "transfer_info t"; simp)+

text \<open>The status of a response that another one follows.\<close>

definition interim :: "int \<Rightarrow> bool" where
  "interim c \<longleftrightarrow> 0 \<le> c \<and> (c < 200 \<or> 300 \<le> c \<and> c < 400)"

fun call_code :: "curl_call \<Rightarrow> int option" where
  "call_code (HeaderLine code l) = code"
| "call_code (BodyChunk code d) = code"

definition interim_call :: "curl_call \<Rightarrow> bool" where
  "interim_call call \<longleftrightarrow> (\<exists>c. call_code call = Some c \<and> interim c)"

lemma StartResponse_interim:
  "interim c \<Longrightarrow> StartResponse E (Some c) t = (Inr False, t\<lparr>transfer_info := (transfer_info t)\<lparr>info_code := c\<rparr>\<rparr>)"
  by (auto simp: StartResponse_def interim_def)

lemma Execute_interim:
  assumes "list_all interim_call calls" "\<not> response_started t" "\<not> transfer_stopped t"
    and "collect_headers (curl_header_api E) (header_lines calls) (info_headers (transfer_info t)) = Some collection"
  shows "\<exists>code. Execute E res (calls @ rest) t =
    Execute E res rest (t\<lparr>transfer_info := (transfer_info t)\<lparr>info_headers := collection, info_code := code\<rparr>\<rparr>)"
  using assms
proof (induction calls arbitrary: t)
  case Nil
  then show ?case by (intro exI [of _ "info_code (transfer_info t)"]) simp
next
  case (Cons call calls)
  obtain c where c: "call_code call = Some c" "interim c" using Cons.prems(1) by (auto simp: interim_call_def)
  show ?case
  proof (cases call)
    case (HeaderLine code l)
    obtain col where col: "RequestHeaderCallback (curl_header_api E) l (info_headers (transfer_info t)) = Some col"
      "collect_headers (curl_header_api E) (header_lines calls) col = Some collection"
      using Cons.prems(4) HeaderLine by (auto split: bind_splits)
    let ?t = "\<lambda>code. t\<lparr>transfer_info := (transfer_info t)\<lparr>info_headers := col, info_code := code\<rparr>\<rparr>"
    have "\<exists>code. curl_callback E call t = Some (length l, ?t code)"
      using Cons.prems(2,3) c HeaderLine
      by (auto simp: curl_callback_def HeaderCallback_def col(1) Let_def StartResponse_interim caught_def
          intro: exI [of _ "info_code (transfer_info t)"])
    then obtain code where "Execute E res ((call # calls) @ rest) t = Execute E res (calls @ rest) (?t code)"
      using HeaderLine by auto
    with Cons.IH [of "?t code"] Cons.prems(1-3) col(2) show ?thesis by auto
  next
    case (BodyChunk code d)
    let ?t = "t\<lparr>transfer_info := (transfer_info t)\<lparr>info_code := c\<rparr>\<rparr>"
    have "curl_callback E call t = Some (length d, ?t)"
      using Cons.prems(2,3) c BodyChunk
      by (simp add: curl_callback_def WriteCallback_def TransferWrite_def StartResponse_interim caught_def)
    then have "Execute E res ((call # calls) @ rest) t = Execute E res (calls @ rest) ?t"
      using BodyChunk by simp
    with Cons.IH [of ?t] Cons.prems BodyChunk show ?thesis by auto
  qed
qed

lemma Execute_fields:
  assumes "list_all (\<lambda>l. \<not> IsEndOfHeaders l) ls"
    and "collect_headers (curl_header_api E) ls (info_headers (transfer_info t)) = Some collection"
  shows "Execute E res (map (HeaderLine code) ls @ rest) t =
    Execute E res rest (t\<lparr>transfer_info := (transfer_info t)\<lparr>info_headers := collection\<rparr>\<rparr>)"
  using assms
proof (induction ls arbitrary: t)
  case (Cons l ls)
  obtain col where col: "RequestHeaderCallback (curl_header_api E) l (info_headers (transfer_info t)) = Some col"
    "collect_headers (curl_header_api E) ls col = Some collection"
    using Cons.prems(2) by (auto split: bind_splits)
  have "curl_callback E (HeaderLine code l) t =
      Some (length l, t\<lparr>transfer_info := (transfer_info t)\<lparr>info_headers := col\<rparr>\<rparr>)"
    using Cons.prems(1) by (simp add: curl_callback_def HeaderCallback_def col(1) Let_def)
  then have "Execute E res (map (HeaderLine code) (l # ls) @ rest) t =
      Execute E res (map (HeaderLine code) ls @ rest) (t\<lparr>transfer_info := (transfer_info t)\<lparr>info_headers := col\<rparr>\<rparr>)"
    by simp
  also have "\<dots> = Execute E res rest (t\<lparr>transfer_info := (transfer_info t)\<lparr>info_headers := collection\<rparr>\<rparr>)"
    using Cons.IH [of "t\<lparr>transfer_info := (transfer_info t)\<lparr>info_headers := col\<rparr>\<rparr>"] Cons.prems(1) col(2) by simp
  finally show ?case .
qed simp

text \<open>A line that is not taken ends the transfer with the exception of the callback, which the model gives as \<open>None\<close>.\<close>

lemma Execute_rejected:
  assumes "list_all interim_call calls \<or> (\<exists>code. calls = map (HeaderLine code) (header_lines calls) \<and>
      list_all (\<lambda>l. \<not> IsEndOfHeaders l) (header_lines calls))"
    and "\<not> response_started t" "\<not> transfer_stopped t"
    and "collect_headers (curl_header_api E) (header_lines calls) (info_headers (transfer_info t)) = None"
  shows "Execute E res (calls @ rest) t = None"
  using assms
proof (induction calls arbitrary: t)
  case (Cons call calls)
  show ?case
  proof (cases call)
    case (HeaderLine code l)
    show ?thesis
    proof (cases "RequestHeaderCallback (curl_header_api E) l (info_headers (transfer_info t))")
      case None
      then show ?thesis using HeaderLine by (simp add: curl_callback_def HeaderCallback_def)
    next
      case (Some col)
      then have rejected: "collect_headers (curl_header_api E) (header_lines calls) col = None"
        using Cons.prems(4) HeaderLine by simp
      let ?t = "\<lambda>code. t\<lparr>transfer_info := (transfer_info t)\<lparr>info_headers := col, info_code := code\<rparr>\<rparr>"
      have "\<exists>code. curl_callback E call t = Some (length l, ?t code)"
        using Cons.prems(1-3) Some HeaderLine
        by (auto simp: curl_callback_def HeaderCallback_def interim_call_def Let_def StartResponse_interim caught_def
            intro: exI [of _ "info_code (transfer_info t)"])
      then obtain code where "Execute E res ((call # calls) @ rest) t = Execute E res (calls @ rest) (?t code)"
        using HeaderLine by auto
      moreover have "list_all interim_call calls \<or> (\<exists>code. calls = map (HeaderLine code) (header_lines calls) \<and>
          list_all (\<lambda>l. \<not> IsEndOfHeaders l) (header_lines calls))"
        using Cons.prems(1) HeaderLine by auto
      ultimately show ?thesis using Cons.IH [of "?t code"] Cons.prems(2,3) rejected by simp
    qed
  next
    case (BodyChunk code d)
    then obtain c where c: "code = Some c" "interim c" using Cons.prems(1) by (auto simp: interim_call_def map_eq_Cons_conv)
    let ?t = "t\<lparr>transfer_info := (transfer_info t)\<lparr>info_code := c\<rparr>\<rparr>"
    have "curl_callback E call t = Some (length d, ?t)"
      using Cons.prems(2,3) c BodyChunk
      by (simp add: curl_callback_def WriteCallback_def TransferWrite_def StartResponse_interim caught_def)
    then have "Execute E res ((call # calls) @ rest) t = Execute E res (calls @ rest) ?t"
      using BodyChunk by simp
    moreover have "list_all interim_call calls" using Cons.prems(1) BodyChunk by (auto simp: map_eq_Cons_conv)
    ultimately show ?thesis using Cons.IH [of ?t] Cons.prems BodyChunk by simp
  qed
qed simp

lemma RequestHeaderCallback_blank:
  "IsEndOfHeaders blank \<Longrightarrow> RequestHeaderCallback H blank collection = Some collection"
  by (auto simp: IsEndOfHeaders_def RequestHeaderCallback_def pop_line_end_def char_find_def)

section \<open>Content\<close>

abbreviation handlers_of :: "'h curl_env \<Rightarrow> HTTPTransfer GetHandlers" where
  "handlers_of E \<equiv> GetHandlers.truncate (curl_request E)"

lemma handlers_of_simps [simp]:
  "response_handler (handlers_of E) = response_handler (curl_request E)"
  "content_handler (handlers_of E) = content_handler (curl_request E)"
  by (simp_all add: GetHandlers.truncate_def)

lemma RecordMetrics_info [simp]: "RecordMetrics E (t\<lparr>transfer_info := info\<rparr>) = RecordMetrics E t"
  by (simp add: RecordMetrics_def)

text \<open>How a transfer ended: with the exception of a handler, or stopped by one, or at its end.\<close>

definition transfer_ended :: "bool res \<Rightarrow> curl_code \<Rightarrow> 'h GetTransferState \<Rightarrow> bool" where
  "transfer_ended r res t \<longleftrightarrow>
     (case r of
        Inl e \<Rightarrow> transfer_error t = Some e
      | Inr b \<Rightarrow> transfer_error t = None \<and> (transfer_stopped t \<or> res = None))"

lemma Execute_content:
  assumes "response_started t" "stream_content E" "info_code (transfer_info t) < 400" "transfer_error t = None"
    and "list_all (\<lambda>d. d \<noteq> []) chunks"
  shows "\<exists>res t'. Execute E None (map (BodyChunk code) chunks) t = Some (res, t') \<and>
    transfer_info t' = transfer_info t \<and> response_handler_called t' = response_handler_called t \<and>
    sink t' = snd (run_content (handlers_of E) chunks (sink t)) \<and>
    transfer_ended (fst (run_content (handlers_of E) chunks (sink t))) res t'"
  using assms
proof (induction chunks arbitrary: t)
  case Nil
  then show ?case by (simp add: transfer_ended_def)
next
  case (Cons d ds)
  obtain r s where run: "content_handler (curl_request E) d (sink t) = (r, s)" by (cases "content_handler (curl_request E) d (sink t)")
  have callback: "curl_callback E (BodyChunk code d) t = Some (caught (WriteContent E d t))"
    using Cons.prems(1) by (simp add: curl_callback_def WriteCallback_def TransferWrite_def)
  show ?case
  proof (cases r)
    case (Inl e)
    then show ?thesis
      using Cons.prems run callback by (simp add: WriteContent_def caught_def Let_def transfer_ended_def)
  next
    case (Inr b)
    show ?thesis
    proof (cases b)
      case True
      let ?t = "t\<lparr>sink := s, bytes_received := bytes_received t + length d\<rparr>"
      have "Execute E None (map (BodyChunk code) (d # ds)) t = Execute E None (map (BodyChunk code) ds) ?t"
        using Cons.prems run callback Inr True by (simp add: WriteContent_def caught_def Let_def)
      moreover have "run_content (handlers_of E) (d # ds) (sink t) = run_content (handlers_of E) ds s"
        using run Inr True by simp
      ultimately show ?thesis using Cons.IH [of ?t] Cons.prems by simp
    next
      case False
      then show ?thesis
        using Cons.prems run callback Inr by (simp add: WriteContent_def caught_def Let_def transfer_ended_def)
    qed
  qed
qed

lemma Execute_body:
  assumes "response_started t" "400 \<le> info_code (transfer_info t)"
  shows "\<exists>n. Execute E res (map (BodyChunk code) chunks) t =
    Some (res, t\<lparr>transfer_info := (transfer_info t)\<lparr>info_body := info_body (transfer_info t) @ concat chunks\<rparr>, bytes_received := n\<rparr>)"
  using assms
proof (induction chunks arbitrary: t)
  case Nil
  then show ?case by (intro exI [of _ "bytes_received t"]) simp
next
  case (Cons d ds)
  let ?t = "t\<lparr>transfer_info := (transfer_info t)\<lparr>info_body := info_body (transfer_info t) @ d\<rparr>,
      bytes_received := bytes_received t + length d\<rparr>"
  have "Execute E res (map (BodyChunk code) (d # ds)) t = Execute E res (map (BodyChunk code) ds) ?t"
    using Cons.prems by (simp add: curl_callback_def WriteCallback_def TransferWrite_def WriteContent_def caught_def Let_def)
  with Cons.IH [of ?t] Cons.prems show ?case by auto
qed

lemma Execute_skipped:
  assumes "\<not> response_started t" "\<not> transfer_stopped t" "interim c" "info_code (transfer_info t) = c"
  shows "Execute E res (map (BodyChunk (Some c)) chunks) t = Some (res, t)"
  using assms
proof (induction chunks)
  case (Cons d ds)
  then show ?case
    by (simp add: curl_callback_def WriteCallback_def TransferWrite_def StartResponse_interim caught_def)
qed simp

section \<open>Properties\<close>

text \<open>
  The calls of libcurl for a response with status \<open>c\<close>: its header lines, the empty line, the content.
  \<open>block_response\<close> is the response as the client builds it.
\<close>

definition response_calls :: "int \<Rightarrow> string list \<Rightarrow> string \<Rightarrow> string list \<Rightarrow> curl_call list" where
  "response_calls c headers blank chunks =
     map (HeaderLine (Some c)) headers @ HeaderLine (Some c) blank # map (BodyChunk (Some c)) chunks"

definition block_response :: "'h curl_env \<Rightarrow> string \<Rightarrow> int \<Rightarrow> 'h list \<Rightarrow> string list \<Rightarrow> GetResponse" where
  "block_response E url c collection chunks =
     curl_view E (TransformResponseCurl (curl_header_api E)
       \<lparr>info_url = url, info_body = (if 400 \<le> c then concat chunks else []), info_code = c, info_headers = collection\<rparr>
       None (400 \<le> c))"

lemma curl_get_attempt:
  fixes E :: "'h curl_env"
  assumes stream: "stream_content E" "has_response_handler (curl_request E)"
    and interim: "list_all interim_call calls"
      "collect_headers (curl_header_api E) (header_lines calls) [] = Some before"
    and final: "200 \<le> c" "c \<le> 65535" "list_all (\<lambda>l. \<not> IsEndOfHeaders l) headers" "IsEndOfHeaders blank"
      "collect_headers (curl_header_api E) headers before = Some collection"
      "\<not> IsProxyConnectResponse E \<lparr>info_url = url, info_body = [], info_code = c, info_headers = collection\<rparr>"
      "list_all (\<lambda>d. d \<noteq> []) chunks"
    and response: "response = block_response E url c collection chunks"
  shows "\<exists>res t n. Execute E None (calls @ response_calls c headers blank chunks)
      (new_transfer \<lparr>info_url = url, info_body = [], info_code = 0, info_headers = []\<rparr> s) = Some (res, t) \<and>
    Finish E (Some c) res t =
      (let (r, s') = run_attempt (handlers_of E) (response, if c < 300 then chunks else []) s
       in (map_sum id (\<lambda>_. response) r, set_counters n s'))"
proof -
  define t0 :: "'h GetTransferState"
    where "t0 = new_transfer \<lparr>info_url = url, info_body = [], info_code = 0, info_headers = []\<rparr> s"
  have fresh: "\<not> response_started t0" "\<not> transfer_stopped t0" "\<not> response_handler_called t0" "transfer_error t0 = None"
    "info_body (transfer_info t0) = []" "info_url (transfer_info t0) = url" "sink t0 = s"
    "info_headers (transfer_info t0) = []"
    by (simp_all add: t0_def new_transfer_def)
  obtain code where "Execute E None (calls @ response_calls c headers blank chunks) t0 =
      Execute E None (response_calls c headers blank chunks)
        (t0\<lparr>transfer_info := (transfer_info t0)\<lparr>info_headers := before, info_code := code\<rparr>\<rparr>)"
    using Execute_interim [of calls t0 E before] interim fresh by auto
  also obtain t1 where t1: "t1 = t0\<lparr>transfer_info := (transfer_info t0)\<lparr>info_code := code, info_headers := collection\<rparr>\<rparr>"
    by blast
  have "Execute E None (response_calls c headers blank chunks)
        (t0\<lparr>transfer_info := (transfer_info t0)\<lparr>info_headers := before, info_code := code\<rparr>\<rparr>) =
      Execute E None (HeaderLine (Some c) blank # map (BodyChunk (Some c)) chunks) t1"
    unfolding response_calls_def t1
    using Execute_fields [OF final(3), of E "t0\<lparr>transfer_info := (transfer_info t0)\<lparr>info_headers := before, info_code := code\<rparr>\<rparr>" collection]
      final(5) by simp
  finally have run: "Execute E None (calls @ response_calls c headers blank chunks) t0 =
      Execute E None (HeaderLine (Some c) blank # map (BodyChunk (Some c)) chunks) t1" .
  have info: "transfer_info t1 = \<lparr>info_url = url, info_body = [], info_code = code, info_headers = collection\<rparr>"
    by (simp add: t1 t0_def new_transfer_def)
  have t1': "\<not> response_started t1" "\<not> transfer_stopped t1" "\<not> response_handler_called t1" "transfer_error t1 = None"
    "sink t1 = s"
    using fresh by (simp_all add: t1)
  let ?info = "\<lparr>info_url = url, info_body = [], info_code = c, info_headers = collection\<rparr>"
  let ?t2 = "t1\<lparr>transfer_info := ?info\<rparr>"
  have proxy: "\<not> IsProxyConnectResponse E (transfer_info t1)"
    using final(6) by (simp only: info IsProxyConnectResponse_def RequestInfo.simps simp_thms)
  have nonempty: "blank \<noteq> []" using final(4) by (auto simp: IsEndOfHeaders_def)
  have started: "curl_callback E (HeaderLine (Some c) blank) t1 = Some (caught
      (case StartResponse E (Some c) t1 of
         (Inl e, t2) \<Rightarrow> (Inl e, t2)
       | (Inr True, t2) \<Rightarrow> (Inr (length blank), t2)
       | (Inr False, t2) \<Rightarrow> (Inr (if transfer_stopped t2 then 0 else length blank), t2)))"
    using t1'(1) final(4) proxy nonempty
    by (simp add: curl_callback_def HeaderCallback_def RequestHeaderCallback_blank Let_def)
  have code: "c mod 65536 = c" "\<not> c < 0" "\<not> 65535 < c" using final(1,2) by simp_all
  obtain r0 s0 where handled: "response_handler (curl_request E) response s = (r0, s0)"
    by (cases "response_handler (curl_request E) response s")
  have metrics: "\<exists>n. RecordMetrics E t = set_counters n (sink t)" for t
    by (cases "client_has_state E") (auto simp: RecordMetrics_def intro: exI [of _ "state_counters (http_state (sink t))"])
  consider (redirect) "300 \<le> c" "c < 400" | (content) "c < 300" | (failure) "400 \<le> c" by linarith
  then show ?thesis
  proof cases
    case redirect
    then have "interim c" by (simp add: interim_def)
    have "Execute E None (HeaderLine (Some c) blank # map (BodyChunk (Some c)) chunks) t1 = Some (None, ?t2)"
      using Execute_skipped [of ?t2 c E None chunks] t1' \<open>interim c\<close>
      by (simp add: started StartResponse_interim caught_def info)
    moreover have "Finish E (Some c) None ?t2 = (map_sum id (\<lambda>_. response) r0, RecordMetrics E (?t2\<lparr>response_handler_called := True, sink := s0\<rparr>))"
      using t1' redirect stream code handled response
      by (cases r0) (simp_all add: Finish_def Let_def call_response_handler_def block_response_def case_prod_beta)
    ultimately show ?thesis
      using metrics [of "?t2\<lparr>response_handler_called := True, sink := s0\<rparr>"] run redirect handled
      by (cases r0) (auto simp: t0_def run_attempt_def Let_def split: bool.splits)
  next
    case content
    then have not_interim: "\<not> (300 \<le> c \<and> c < 400)" "\<not> 400 \<le> c" by simp_all
    let ?t3 = "?t2\<lparr>response_started := True, response_handler_called := True\<rparr>"
    have view: "curl_view E (TransformResponseCurl (curl_header_api E) ?info None False) = response"
      using not_interim response by (simp add: block_response_def)
    have start: "StartResponse E (Some c) t1 = (case r0 of Inl e \<Rightarrow> (Inl e, ?t3\<lparr>sink := s0\<rparr>)
        | Inr b \<Rightarrow> (Inr b, ?t3\<lparr>sink := s0, transfer_stopped := \<not> b\<rparr>))"
      using code stream not_interim final(1) handled t1'(5) view t1'(2)
      by (auto simp: StartResponse_def Let_def info call_response_handler_def split: sum.splits bool.splits)
    show ?thesis
    proof (cases "r0 = Inr True")
      case True
      let ?t4 = "?t3\<lparr>sink := s0\<rparr>"
      obtain res t' where body: "Execute E None (map (BodyChunk (Some c)) chunks) ?t4 = Some (res, t')"
        "transfer_info t' = ?info" "response_handler_called t'" "sink t' = snd (run_content (handlers_of E) chunks s0)"
        "transfer_ended (fst (run_content (handlers_of E) chunks s0)) res t'"
        using Execute_content [of ?t4 E chunks "Some c"] stream content t1'(4) final(7) by auto
      have "?t3\<lparr>sink := s0, transfer_stopped := False\<rparr> = ?t4" using t1'(2) by (cases t1) simp
      then have "Execute E None (HeaderLine (Some c) blank # map (BodyChunk (Some c)) chunks) t1 = Some (res, t')"
        using True by (simp add: started start caught_def body(1))
      moreover have "Finish E (Some c) res t' =
          (map_sum id (\<lambda>_. response) (fst (run_content (handlers_of E) chunks s0)), RecordMetrics E t')"
        using body stream code not_interim view
        by (cases "fst (run_content (handlers_of E) chunks s0)") (auto simp: Finish_def Let_def transfer_ended_def)
      ultimately show ?thesis
        using metrics [of t'] run content handled True body(4)
        by (auto simp: t0_def run_attempt_def Let_def case_prod_beta)
    next
      case False
      let ?t4 = "?t3\<lparr>sink := s0, transfer_stopped := (r0 = Inr False), transfer_error := (case r0 of Inl e \<Rightarrow> Some e | Inr b \<Rightarrow> None)\<rparr>"
      have "Execute E None (HeaderLine (Some c) blank # map (BodyChunk (Some c)) chunks) t1 = Some (Some (curl_write_error E), ?t4)"
        using False t1'(2,4) nonempty by (cases r0) (auto simp: started start caught_def)
      moreover have "Finish E (Some c) (Some (curl_write_error E)) ?t4 = (map_sum id (\<lambda>_. response) r0, RecordMetrics E ?t4)"
        using False stream code not_interim view by (cases r0) (auto simp: Finish_def Let_def RecordMetrics_def)
      ultimately show ?thesis
        using metrics [of ?t4] run content handled False
        by (cases r0) (auto simp: t0_def run_attempt_def Let_def)
    qed
  next
    case failure
    let ?t3 = "?t2\<lparr>response_started := True\<rparr>"
    have start: "StartResponse E (Some c) t1 = (Inr True, ?t3)"
      using code failure by (simp add: StartResponse_def Let_def info)
    obtain n where body: "Execute E None (map (BodyChunk (Some c)) chunks) ?t3 =
        Some (None, ?t3\<lparr>transfer_info := ?info\<lparr>info_body := concat chunks\<rparr>, bytes_received := n\<rparr>)"
      using Execute_body [of ?t3 E None "Some c" chunks] failure by auto
    let ?t4 = "?t3\<lparr>transfer_info := ?info\<lparr>info_body := concat chunks\<rparr>, bytes_received := n\<rparr>"
    have "Execute E None (HeaderLine (Some c) blank # map (BodyChunk (Some c)) chunks) t1 = Some (None, ?t4)"
      using body by (simp add: started start caught_def)
    moreover have "Finish E (Some c) None ?t4 =
        (map_sum id (\<lambda>_. response) r0, RecordMetrics E (?t4\<lparr>response_handler_called := True, sink := s0\<rparr>))"
      using t1' failure stream code handled response
      by (cases r0) (simp_all add: Finish_def Let_def call_response_handler_def block_response_def case_prod_beta RecordMetrics_def)
    ultimately show ?thesis
      using metrics [of "?t4\<lparr>response_handler_called := True, sink := s0\<rparr>"] run failure handled
      by (cases r0) (auto simp: t0_def run_attempt_def Let_def split: bool.splits)
  qed
qed

text \<open>
  C6: A transfer is an attempt: whatever interim responses and redirects come before it, a
  response that libcurl delivers line by line and chunk by chunk reaches the handlers of the request as the
  reads assume of an HTTP client, provided that every header line with a colon has a value and none comes before a status line.
  The response handler is called once, with the headers of the last response only; the content handler gets the content of a
  success in order, until a handler stops or throws; the content of an error becomes the body of the response that the response
  handler sees. An exception of a handler crosses libcurl and is the exception of the request. With any other header line, such
  as one with an empty value, the callback itself throws through libcurl, and the transfer has no result at all. The final response is not
  the answer of a proxy to CONNECT, and its status has at most 16 bits.
\<close>

theorem curl_transfer_attempt:
  fixes E :: "'h curl_env"
  assumes stream: "stream_content E" "has_response_handler (curl_request E)"
    and interim: "list_all interim_call calls"
    and final: "200 \<le> c" "c \<le> 65535" "list_all (\<lambda>l. \<not> IsEndOfHeaders l) headers" "IsEndOfHeaders blank"
      "list_all (\<lambda>d. d \<noteq> []) chunks"
    and headers: "collection = sent_headers (curl_header_api E) (header_lines calls @ headers)"
      "\<not> IsProxyConnectResponse E \<lparr>info_url = url, info_body = [], info_code = c, info_headers = collection\<rparr>"
    and response: "response = block_response E url c collection chunks"
  shows "if lines_accepted False (header_lines calls @ headers)
    then \<exists>res t n. Execute E None (calls @ response_calls c headers blank chunks)
        (new_transfer \<lparr>info_url = url, info_body = [], info_code = 0, info_headers = []\<rparr> s) = Some (res, t) \<and>
      Finish E (Some c) res t =
        (let (r, s') = run_attempt (handlers_of E) (response, if c < 300 then chunks else []) s
         in (map_sum id (\<lambda>_. response) r, set_counters n s'))
    else Execute E None (calls @ response_calls c headers blank chunks)
        (new_transfer \<lparr>info_url = url, info_body = [], info_code = 0, info_headers = []\<rparr> s) = None"
proof (cases "collect_headers (curl_header_api E) (header_lines calls @ headers) []")
  case (Some found)
  then obtain before where before: "collect_headers (curl_header_api E) (header_lines calls) [] = Some before"
    "collect_headers (curl_header_api E) headers before = Some collection"
    using headers(1) by (auto simp: collect_headers_append sent_headers_def split: bind_splits)
  have "lines_accepted False (header_lines calls @ headers)"
    using collect_headers_accepted [of "curl_header_api E" "header_lines calls @ headers" "[]"] Some by simp
  with curl_get_attempt [OF stream interim before(1) final(1-4) before(2) headers(2) final(5) response]
  show ?thesis by simp
next
  case None
  let ?t = "new_transfer \<lparr>info_url = url, info_body = [], info_code = 0, info_headers = []\<rparr> s"
  have fresh: "\<not> response_started ?t" "\<not> transfer_stopped ?t" "info_headers (transfer_info ?t) = []"
    by (simp_all add: new_transfer_def)
  have "Execute E None (calls @ response_calls c headers blank chunks) ?t = None"
  proof (cases "collect_headers (curl_header_api E) (header_lines calls) []")
    case None
    then show ?thesis by (intro Execute_rejected [OF disjI1 [OF interim] fresh(1,2)]) (simp only: fresh(3))
  next
    case (Some before)
    obtain code where run: "Execute E None (calls @ response_calls c headers blank chunks) ?t =
        Execute E None (response_calls c headers blank chunks)
          (?t\<lparr>transfer_info := (transfer_info ?t)\<lparr>info_headers := before, info_code := code\<rparr>\<rparr>)"
      using Execute_interim [OF interim fresh(1,2), of E before None] Some fresh(3) by metis
    have lines: "header_lines (map (HeaderLine (Some c)) headers) = headers" by (induction headers) simp_all
    have "collect_headers (curl_header_api E) headers before = None"
      using None Some by (simp add: collect_headers_append)
    then show ?thesis
      unfolding run unfolding response_calls_def
      by (intro Execute_rejected) (use final(3) fresh in \<open>auto simp: lines\<close>)
  qed
  moreover have "\<not> lines_accepted False (header_lines calls @ headers)"
    using collect_headers_accepted [of "curl_header_api E" "header_lines calls @ headers" "[]"] None by simp
  ultimately show ?thesis by simp
qed

text \<open>A redirect, then a file that comes in two chunks, into a buffer of three bytes.\<close>

definition exact_headers :: "(string \<times> string) list headers_api" where
  "exact_headers =
     \<lparr>headers_empty = [], header_set = (\<lambda>k v h. (k, v) # h), header_insert = (\<lambda>k v h. h @ [(k, v)]),
      header_find = map_of, header_items = id\<rparr>"

definition plain_view :: "(string \<times> string) list curl_response \<Rightarrow> GetResponse" where
  "plain_view r =
     \<lparr>request_error = (curl_error r \<noteq> None), response_status = curl_status r, response_body = curl_body r,
      response_header = map_of (curl_headers r), response_success = (curl_error r = None \<and> curl_status r < 300),
      response_failure = RangeRequestNotSupported\<rparr>"

definition sample_curl :: "(string \<times> string) list curl_env" where
  "sample_curl =
     \<lparr>curl_api = std_api, curl_header_api = exact_headers, curl_view = plain_view,
      curl_request =
        \<lparr>response_handler = (\<lambda>r s. (Inr (response_header r ''L'' = None), s)),
         content_handler = (\<lambda>chunk s. (Inr True, s\<lparr>memory_fault := (chunk = ''c'')\<rparr>)),
         has_content_handler = True, has_response_handler = True\<rparr>,
      curl_write_error = ''write'', client_has_state = False\<rparr>"

definition sample_calls :: "curl_call list" where
  "sample_calls =
     [HeaderLine (Some 302) (''HTTP/1 302'' @ [CHR 0x0D, CHR 0x0A]),
      HeaderLine (Some 302) (''L: g'' @ [CHR 0x0D, CHR 0x0A]), HeaderLine (Some 302) [CHR 0x0D, CHR 0x0A]]"

definition sample_fields :: "string list" where
  "sample_fields = [''HTTP/1 200'' @ [CHR 0x0D, CHR 0x0A], ''E: x'' @ [CHR 0x0D, CHR 0x0A]]"

definition final_headers :: "(string \<times> string) list list" where
  "final_headers = sent_headers exact_headers (header_lines sample_calls @ sample_fields)"

definition sample_block :: GetResponse where
  "sample_block = block_response sample_curl ''u'' 200 final_headers [''ab'', ''c'']"

lemma sample_headers:
  "lines_accepted False (header_lines sample_calls @ sample_fields)"
  "\<not> IsProxyConnectResponse sample_curl \<lparr>info_url = ''u'', info_body = [], info_code = 200, info_headers = final_headers\<rparr>"
  "response_header sample_block ''L'' = None" "response_header sample_block ''E'' = Some ''x''"
  by code_simp+

definition idle_transfer :: HTTPTransfer where
  "idle_transfer =
     \<lparr>http_state = init_http_state, global_metadata_cache = None,
      range_context = \<lparr>buffer_out = None, buffer_out_len = 0, out_offset = 0, range_request_not_supported = False,
        range_guard = \<lparr>guard_support = SUPPORTED, guard_enabled = False, owns_probe = False\<rparr>\<rparr>,
      full_download = init_download, memory_fault = False\<rparr>"

theorem curl_transfer_attempt_witness:
  "\<exists>res t n. Execute sample_curl None (sample_calls @ response_calls 200 sample_fields [CHR 0x0D, CHR 0x0A] [''ab'', ''c''])
      (new_transfer \<lparr>info_url = ''u'', info_body = [], info_code = 0, info_headers = []\<rparr> idle_transfer) = Some (res, t) \<and>
    Finish sample_curl (Some 200) res t = (Inr sample_block, set_counters n (idle_transfer\<lparr>memory_fault := True\<rparr>))"
proof -
  have fields: "curl_header_api sample_curl = exact_headers" "curl_request sample_curl =
      \<lparr>response_handler = (\<lambda>r s. (Inr (response_header r ''L'' = None), s)),
         content_handler = (\<lambda>chunk s. (Inr True, s\<lparr>memory_fault := (chunk = ''c'')\<rparr>)),
         has_content_handler = True, has_response_handler = True\<rparr>"
    by (simp_all add: sample_curl_def)
  have "run_attempt (handlers_of sample_curl) (sample_block, [''ab'', ''c'']) idle_transfer =
      (Inr True, idle_transfer\<lparr>memory_fault := True\<rparr>)"
    using sample_headers(3) by (simp add: run_attempt_def fields GetHandlers.truncate_def)
  moreover have "list_all interim_call sample_calls" by (simp add: sample_calls_def interim_call_def interim_def)
  moreover have "list_all (\<lambda>l. \<not> IsEndOfHeaders l) sample_fields" by (simp add: sample_fields_def IsEndOfHeaders_def)
  ultimately show ?thesis
    using curl_transfer_attempt [where E = sample_curl and c = 200 and s = idle_transfer and blank = "[CHR 0x0D, CHR 0x0A]"
        and chunks = "[''ab'', ''c'']" and headers = sample_fields and calls = sample_calls and collection = final_headers,
        OF _ _ _ _ _ _ _ _ _ sample_headers(2) sample_block_def] sample_headers(1)
    by (simp add: fields IsEndOfHeaders_def final_headers_def)
qed

end
