(* ===== verification/Http_Curl_Client.thy ===== *)
theory Http_Curl_Client
  imports Http_Curl Http_Params
begin

text \<open>
  The client over libcurl (src/src/http/httpfs_curl_client.cpp): its configuration from the parameters of
  a request, and the requests it sends. A handle of libcurl is the record of the values that the code
  last gave to its options, which libcurl keeps from one transfer to the next; the answer of
  \<open>curl_easy_perform\<close> is a function of what these values ask for. A buffer is shorter than \<open>2 ^ 63\<close> bytes.
\<close>

section \<open>Headers and paths\<close>

definition IsEmptyValue :: "string \<Rightarrow> bool" where
  "IsEmptyValue v \<longleftrightarrow> list_all (\<lambda>c. c = CHR '' '' \<or> c = CHR 0x09) v"

definition header_line :: "string \<Rightarrow> string \<Rightarrow> string" where
  "header_line name v = (if IsEmptyValue v then name @ '';'' else name @ '': '' @ v)"

text \<open>What the parameters have beside those of Http_Params: redirects, and whether there is a state.\<close>

record CurlParams = HTTPFSParams +
  follow_location :: bool
  params_state :: bool

definition TransformHeadersCurl :: "'h headers_api \<Rightarrow> 'h \<Rightarrow> CurlParams \<Rightarrow> string list" where
  "TransformHeadersCurl H header_map params =
     map (\<lambda>(name, v). header_line name v) (header_items H header_map) @
     (if pre_merged_headers params then [] else map (\<lambda>(name, v). header_line name v) (extra_headers params))"

definition AddUserAgentIfAvailable :: "'h headers_api \<Rightarrow> CurlParams \<Rightarrow> 'h \<Rightarrow> 'h" where
  "AddUserAgentIfAvailable H params header_map =
     (if user_agent params \<noteq> [] then header_insert H ''User-Agent'' (user_agent params) header_map else header_map)"

fun NormalizePathToBeAdded :: "string \<Rightarrow> string" where
  "NormalizePathToBeAdded [] = []"
| "NormalizePathToBeAdded (c # cs) =
     (if 2 < length (c # cs) \<and> (starts_with ''//'' (c # cs) \<or> starts_with ''./'' (c # cs))
      then NormalizePathToBeAdded cs else c # cs)"

section \<open>The handle of libcurl\<close>

text \<open>The options of the connection, an empty string or \<open>None\<close> where there is no value.\<close>

record curl_settings =
  set_bearer :: string
  set_cainfo :: string
  set_forbid_reuse :: bool
  set_verify_peer :: bool
  set_verify_host :: int
  set_connect_timeout :: u64
  set_timeout :: int
  set_low_speed_limit :: int
  set_low_speed_time :: u64
  set_accept_encoding :: "string option"
  set_follow_location :: bool
  set_proxy :: "string option"
  set_proxy_username :: "string option"
  set_proxy_password :: "string option"

text \<open>
  The callbacks and the object their data points to: a \<open>RequestInfo\<close>, told apart by a number, or the state of the current GET.
  A URL is the base URL of the client and a path that is set on top of it.
\<close>

datatype callback_target = InfoTarget nat | TransferTarget

text \<open>The kind of request, which several options of libcurl set.\<close>

datatype curl_method = METHOD_GET | METHOD_HEAD | METHOD_POST

record curl_handle = curl_settings +
  set_callbacks :: callback_target
  set_method :: curl_method
  set_custom_request :: "string option"
  set_post_fields :: "string option"
  set_post_size :: nat
  set_url :: "string \<times> string"
  set_http_headers :: "string list"

text \<open>
  As libcurl documents them: \<open>CURLOPT_NOBODY\<close> 0 makes a HEAD a GET, \<open>CURLOPT_POST\<close> 0 resets to a GET, and
  \<open>CURLOPT_POSTFIELDS\<close> implies \<open>CURLOPT_POST\<close> 1, whatever it is set to.
\<close>

definition set_nobody :: "bool \<Rightarrow> curl_handle \<Rightarrow> curl_handle" where
  "set_nobody b h = (if b then h\<lparr>set_method := METHOD_HEAD\<rparr>
     else if set_method h = METHOD_HEAD then h\<lparr>set_method := METHOD_GET\<rparr> else h)"

definition set_httpget :: "bool \<Rightarrow> curl_handle \<Rightarrow> curl_handle" where
  "set_httpget b h = (if b then h\<lparr>set_method := METHOD_GET\<rparr> else h)"

definition set_post :: "bool \<Rightarrow> curl_handle \<Rightarrow> curl_handle" where
  "set_post b h = h\<lparr>set_method := (if b then METHOD_POST else METHOD_GET)\<rparr>"

definition set_postfields :: "string option \<Rightarrow> nat \<Rightarrow> curl_handle \<Rightarrow> curl_handle" where
  "set_postfields d n h = h\<lparr>set_post_fields := d, set_post_size := n, set_method := METHOD_POST\<rparr>"

definition CERT_FILE_LOCATIONS :: "string list" where
  "CERT_FILE_LOCATIONS =
     [''/etc/ssl/certs/ca-certificates.crt'', ''/etc/pki/ca-trust/extracted/pem/tls-ca-bundle.pem'',
      ''/etc/pki/tls/certs/ca-bundle.crt'', ''/etc/ssl/ca-bundle.pem'', ''/etc/ssl/cert.pem'']"

definition SelectCURLCertPath :: "(string \<Rightarrow> bool) \<Rightarrow> string" where
  "SelectCURLCertPath exists = (case find exists CERT_FILE_LOCATIONS of None \<Rightarrow> [] | Some ca_file \<Rightarrow> ca_file)"

text \<open>A new handle; options without a value have the one that libcurl documents.\<close>

definition NewCURLHandle :: "string \<Rightarrow> string \<Rightarrow> curl_handle" where
  "NewCURLHandle token cert_path =
     \<lparr>set_bearer = token, set_cainfo = cert_path, set_forbid_reuse = False, set_verify_peer = True, set_verify_host = 2,
      set_connect_timeout = 300, set_timeout = 0, set_low_speed_limit = 0, set_low_speed_time = 0,
      set_accept_encoding = None, set_follow_location = False, set_proxy = None, set_proxy_username = None,
      set_proxy_password = None, set_callbacks = TransferTarget, set_method = METHOD_GET,
      set_custom_request = None, set_post_fields = None, set_post_size = 0, set_url = ([], []),
      set_http_headers = []\<rparr>"

section \<open>Configuration\<close>

record 'h curl_client =
  client_curl :: "curl_handle option"
  client_info :: "'h RequestInfo"
  client_info_id :: nat
  client_state :: bool
  curl_base_url :: string
  stored_bearer_token :: string
  stored_cert_file_path :: string

definition empty_info :: "'h RequestInfo" where
  "empty_info = \<lparr>info_url = [], info_body = [], info_code = 0, info_headers = []\<rparr>"

definition new_info :: "'h curl_client \<Rightarrow> 'h curl_client" where
  "new_info client = client\<lparr>client_info := empty_info, client_info_id := Suc (client_info_id client)\<rparr>"

definition InitializeHandle :: "(string \<Rightarrow> bool) \<Rightarrow> CurlParams \<Rightarrow> 'h curl_client \<Rightarrow> 'h curl_client" where
  "InitializeHandle exists params client =
     (let cert_file_path = ca_cert_file params
      in if client_curl client \<noteq> None \<and> stored_bearer_token client = bearer_token params \<and>
            stored_cert_file_path client = cert_file_path then client
         else client\<lparr>client_curl := Some (NewCURLHandle (bearer_token params)
                (if cert_file_path = [] then SelectCURLCertPath exists else cert_file_path)),
              stored_bearer_token := bearer_token params, stored_cert_file_path := cert_file_path\<rparr>)"

definition on_curl :: "(curl_handle \<Rightarrow> curl_handle) \<Rightarrow> 'h curl_client \<Rightarrow> 'h curl_client" where
  "on_curl f client = client\<lparr>client_curl := map_option f (client_curl client)\<rparr>"

definition ConfigureConnection :: "CurlParams \<Rightarrow> curl_handle \<Rightarrow> curl_handle" where
  "ConfigureConnection params h =
     (let verify = (if override_verify_ssl params then verify_ssl params else enable_curl_server_cert_verification params)
      in h\<lparr>set_forbid_reuse := \<not> keep_alive params, set_verify_peer := verify, set_verify_host := (if verify then 2 else 0)\<rparr>)"

definition ConfigureTimeoutsAndCallbacks :: "CurlParams \<Rightarrow> nat \<Rightarrow> curl_handle \<Rightarrow> curl_handle" where
  "ConfigureTimeoutsAndCallbacks params info h =
     h\<lparr>set_connect_timeout := timeout params, set_timeout := 0, set_low_speed_limit := 1024,
       set_low_speed_time := timeout params, set_accept_encoding := None, set_follow_location := follow_location params,
       set_callbacks := InfoTarget info\<rparr>"

text \<open>\<open>number\<close> formats the port.\<close>

definition ConfigureProxy :: "(u64 \<Rightarrow> string) \<Rightarrow> CurlParams \<Rightarrow> curl_handle \<Rightarrow> curl_handle" where
  "ConfigureProxy number params h =
     (let h1 = h\<lparr>set_proxy := None, set_proxy_username := None, set_proxy_password := None\<rparr>
      in if http_proxy params = [] then h1
         else
           let h2 = h1\<lparr>set_proxy := Some (http_proxy params @ '':'' @ number (http_proxy_port params))\<rparr>
           in if http_proxy_username params \<noteq> []
              then h2\<lparr>set_proxy_username := Some (http_proxy_username params),
                      set_proxy_password := Some (http_proxy_password params)\<rparr>
              else h2)"

definition ConfigureClient :: "(string \<Rightarrow> bool) \<Rightarrow> (u64 \<Rightarrow> string) \<Rightarrow> CurlParams \<Rightarrow> 'h curl_client \<Rightarrow> 'h curl_client" where
  "ConfigureClient exists number params client =
     (let c1 = new_info (InitializeHandle exists params (client\<lparr>client_state := params_state params\<rparr>))
      in on_curl (ConfigureProxy number params)
           (on_curl (ConfigureTimeoutsAndCallbacks params (client_info_id c1)) (on_curl (ConfigureConnection params) c1)))"

definition NewCurlClient :: "(string \<Rightarrow> bool) \<Rightarrow> (u64 \<Rightarrow> string) \<Rightarrow> CurlParams \<Rightarrow> string \<Rightarrow> 'h curl_client" where
  "NewCurlClient exists number params proto_host_port =
     ConfigureClient exists number params
       \<lparr>client_curl = None, client_info = empty_info, client_info_id = 0, client_state = False,
        curl_base_url = NormalizePathToBeAdded proto_host_port, stored_bearer_token = [], stored_cert_file_path = []\<rparr>"

definition CurlCleanup :: "'h curl_client \<Rightarrow> 'h curl_client" where
  "CurlCleanup client = new_info client"

section \<open>What a handle asks for\<close>

text \<open>
  The request that the options describe: its kind, the name of the method where it replaces the one of
  the kind, and a body, perhaps empty, where the kind has one. A \<open>curl_answer\<close> is the answer to it: the calls of the
  callbacks, the result and the status that libcurl reports.
\<close>

record curl_asked = curl_settings +
  asked_method :: curl_method
  asked_custom :: "string option"
  asked_body :: "string option"
  asked_url :: "string \<times> string"
  asked_headers :: "string list"

definition asked_of :: "curl_handle \<Rightarrow> curl_asked" where
  "asked_of h =
     curl_settings.extend (curl_settings.truncate h)
       \<lparr>asked_method = set_method h, asked_custom = set_custom_request h,
        asked_body = (if set_method h = METHOD_POST
          then Some (case set_post_fields h of None \<Rightarrow> [] | Some d \<Rightarrow> take (set_post_size h) d) else None),
        asked_url = set_url h, asked_headers = set_http_headers h\<rparr>"

record curl_answer =
  answer_calls :: "curl_call list"
  answer_result :: curl_code
  answer_status :: "int option"

type_synonym perform = "curl_asked \<Rightarrow> curl_answer"

section \<open>Requests\<close>

record 'h curl_base =
  base_url_of :: string
  base_path :: string
  base_headers :: 'h
  base_params :: CurlParams

text \<open>The information of a new request, after \<open>ResetRequestInfo\<close>.\<close>

definition start_request :: "string \<Rightarrow> 'h curl_client \<Rightarrow> 'h curl_client" where
  "start_request url client = client\<lparr>client_info := (ResetRequestInfo (client_info client))\<lparr>info_url := url\<rparr>\<rparr>"

definition count_request :: "(HTTPCounters \<Rightarrow> HTTPCounters) \<Rightarrow> 'h curl_client \<Rightarrow> HTTPTransfer \<Rightarrow> HTTPTransfer" where
  "count_request f client s = (if client_state client then set_counters (f (state_counters (http_state s))) s else s)"

text \<open>The callbacks of a request that is no GET: the body is collected.\<close>

fun collect_response :: "'h headers_api \<Rightarrow> curl_call list \<Rightarrow> 'h RequestInfo \<Rightarrow> 'h RequestInfo option" where
  "collect_response H [] info = Some info"
| "collect_response H (HeaderLine code l # calls) info =
     (case RequestHeaderCallback H l (info_headers info) of
        None \<Rightarrow> None
      | Some collection \<Rightarrow> collect_response H calls (info\<lparr>info_headers := collection\<rparr>))"
| "collect_response H (BodyChunk code d # calls) info =
     collect_response H calls (info\<lparr>info_body := info_body info @ d\<rparr>)"

definition final_code :: "curl_answer \<Rightarrow> 'h curl_client \<Rightarrow> 'h curl_client" where
  "final_code a client =
     (case answer_status a of
        None \<Rightarrow> client
      | Some c \<Rightarrow> client\<lparr>client_info := (client_info client)\<lparr>info_code := c mod 65536\<rparr>\<rparr>)"

text \<open>
  One transfer that collects its response: the options of the request, the transfer, and the
  options that are taken back. The data of the callbacks must be the information of the client.
\<close>

definition transfer_request ::
  "'h headers_api \<Rightarrow> perform \<Rightarrow> 'h curl_base \<Rightarrow> string list \<Rightarrow> (curl_handle \<Rightarrow> curl_handle) \<Rightarrow> (curl_handle \<Rightarrow> curl_handle) \<Rightarrow>
     'h curl_client \<Rightarrow> ('h curl_response \<times> 'h curl_client) option" where
  "transfer_request H perform base lines prepare restore client =
     (let c1 = start_request (base_url_of base) client;
          url = (curl_base_url client, NormalizePathToBeAdded (base_path base));
          c2 = on_curl (\<lambda>h. prepare (h\<lparr>set_url := url, set_http_headers := lines\<rparr>)) c1
      in case client_curl c2 of
           None \<Rightarrow> None
         | Some h \<Rightarrow>
             if set_callbacks h \<noteq> InfoTarget (client_info_id c2) then None
             else
               let a = perform (asked_of h)
               in map_option (\<lambda>info.
                    let c3 = final_code a (on_curl restore (c2\<lparr>client_info := info\<rparr>))
                    in (TransformResponseCurl H (client_info c3) (answer_result a) True, c3))
                  (collect_response H (answer_calls a) (client_info c2)))"

definition request_lines :: "'h headers_api \<Rightarrow> 'h curl_base \<Rightarrow> string list" where
  "request_lines H base =
     TransformHeadersCurl H (AddUserAgentIfAvailable H (base_params base) (base_headers base)) (base_params base)"

definition CurlPut ::
  "'h headers_api \<Rightarrow> perform \<Rightarrow> 'h curl_base \<Rightarrow> string \<Rightarrow> string \<Rightarrow> 'h curl_client \<Rightarrow> HTTPTransfer \<Rightarrow>
     ('h curl_response \<times> 'h curl_client \<times> HTTPTransfer) option" where
  "CurlPut H perform base content_type buffer_in client s =
     map_option (\<lambda>(r, c).
         (r, c, count_request (\<lambda>n. n\<lparr>put_count := put_count n + 1,
                                   total_bytes_sent := total_bytes_sent n + word_of_nat (length buffer_in)\<rparr>) client s))
       (transfer_request H perform base (request_lines H base @ [''Content-Type: '' @ content_type])
          (\<lambda>h. set_postfields (Some buffer_in) (length buffer_in) (h\<lparr>set_custom_request := Some ''PUT''\<rparr>))
          (\<lambda>h. set_postfields None 0 (h\<lparr>set_custom_request := None\<rparr>)) client)"

definition CurlHead ::
  "'h headers_api \<Rightarrow> perform \<Rightarrow> 'h curl_base \<Rightarrow> 'h curl_client \<Rightarrow> HTTPTransfer \<Rightarrow>
     ('h curl_response \<times> 'h curl_client \<times> HTTPTransfer) option" where
  "CurlHead H perform base client s =
     map_option (\<lambda>(r, c). (r, c, count_request (\<lambda>n. n\<lparr>head_count := head_count n + 1\<rparr>) client s))
       (transfer_request H perform base (request_lines H base)
          (\<lambda>h. set_httpget False (set_nobody True h)) (\<lambda>h. set_httpget True (set_nobody False h)) client)"

definition CurlDelete ::
  "'h headers_api \<Rightarrow> perform \<Rightarrow> 'h curl_base \<Rightarrow> 'h curl_client \<Rightarrow> HTTPTransfer \<Rightarrow>
     ('h curl_response \<times> 'h curl_client \<times> HTTPTransfer) option" where
  "CurlDelete H perform base client s =
     map_option (\<lambda>(r, c). (r, c, count_request (\<lambda>n. n\<lparr>delete_count := delete_count n + 1\<rparr>) client s))
       (transfer_request H perform base (request_lines H base)
          (\<lambda>h. h\<lparr>set_custom_request := Some ''DELETE''\<rparr>) (\<lambda>h. h\<lparr>set_custom_request := None\<rparr>) client)"

text \<open>OPTIONS adds no user agent and counts nothing.\<close>

definition CurlOptions ::
  "'h headers_api \<Rightarrow> perform \<Rightarrow> 'h curl_base \<Rightarrow> 'h curl_client \<Rightarrow> HTTPTransfer \<Rightarrow>
     ('h curl_response \<times> 'h curl_client \<times> HTTPTransfer) option" where
  "CurlOptions H perform base client s =
     map_option (\<lambda>(r, c). (r, c, s))
       (transfer_request H perform base (TransformHeadersCurl H (base_headers base) (base_params base))
          (\<lambda>h. h\<lparr>set_custom_request := Some ''OPTIONS''\<rparr>) (\<lambda>h. h\<lparr>set_custom_request := None\<rparr>) client)"

text \<open>A POST also gives the body of its response, and counts it.\<close>

definition CurlPost ::
  "'h headers_api \<Rightarrow> perform \<Rightarrow> 'h curl_base \<Rightarrow> string \<Rightarrow> bool \<Rightarrow> 'h curl_client \<Rightarrow> HTTPTransfer \<Rightarrow>
     ('h curl_response \<times> string \<times> 'h curl_client \<times> HTTPTransfer) option" where
  "CurlPost H perform base buffer_in send_post_as_get client s =
     (let lines = request_lines H base @
            (if header_find H (AddUserAgentIfAvailable H (base_params base) (base_headers base)) ''Content-Type'' = None
             then [''Content-Type: application/octet-stream''] else [])
      in map_option (\<lambda>(r, c).
             let s1 = count_request (\<lambda>n. n\<lparr>post_count := post_count n + 1,
                   total_bytes_sent := total_bytes_sent n + word_of_nat (length buffer_in)\<rparr>) client s
             in (r, info_body (client_info c), c, count_request (add_received (length (info_body (client_info c)))) client s1))
           (transfer_request H perform base lines
              (\<lambda>h. set_postfields (Some buffer_in) (length buffer_in)
                 (if send_post_as_get then h\<lparr>set_custom_request := Some ''GET''\<rparr> else set_post True h))
              (\<lambda>h. set_post False (set_postfields None 0 (h\<lparr>set_custom_request := None\<rparr>))) client))"

text \<open>A GET, with the callbacks of \<open>GetTransferState\<close> while it lasts. \<open>E\<close> holds its handlers.\<close>

definition CurlGet ::
  "'h curl_env \<Rightarrow> perform \<Rightarrow> 'h curl_base \<Rightarrow> 'h curl_client \<Rightarrow> HTTPTransfer \<Rightarrow>
     (GetResponse res \<times> 'h curl_client \<times> HTTPTransfer) option" where
  "CurlGet E perform base client s =
     (let E1 = E\<lparr>client_has_state := client_state client\<rparr>;
          lines = request_lines (curl_header_api E) base;
          s1 = count_request (\<lambda>n. n\<lparr>get_count := get_count n + 1\<rparr>) client s;
          c1 = start_request (base_url_of base) client;
          url = (curl_base_url client, NormalizePathToBeAdded (base_path base));
          c2 = on_curl (\<lambda>h. (set_httpget True (set_nobody False h))
                 \<lparr>set_url := url, set_http_headers := lines, set_callbacks := TransferTarget\<rparr>) c1
      in case client_curl c2 of
           None \<Rightarrow> None
         | Some h \<Rightarrow>
             let a = perform (asked_of h)
             in map_option (\<lambda>(res, t).
                  let (r, s2) = Finish E1 (answer_status a) res t;
                      c3 = final_code a (c2\<lparr>client_info := transfer_info t\<rparr>)
                  in (r, on_curl (\<lambda>h. h\<lparr>set_callbacks := InfoTarget (client_info_id c3)\<rparr>) c3, s2))
                (Execute E1 (answer_result a) (answer_calls a) (new_transfer (client_info c2) s1)))"

text \<open>The requests of a client, and what else happens to it.\<close>

datatype 'h curl_message =
  GetMessage "'h curl_base" "HTTPTransfer get_info"
| PutMessage "'h curl_base" string string
| HeadMessage "'h curl_base"
| DeleteMessage "'h curl_base"
| OptionsMessage "'h curl_base"
| PostMessage "'h curl_base" string bool

definition collected :: "'h curl_env \<Rightarrow> ('h curl_response \<times> 'h curl_client \<times> HTTPTransfer) option \<Rightarrow>
  (GetResponse res \<times> string \<times> 'h curl_client \<times> HTTPTransfer) option" where
  "collected E = map_option (\<lambda>(r, c, s). (Inr (curl_view E r), [], c, s))"

fun CurlSend ::
  "'h curl_env \<Rightarrow> perform \<Rightarrow> 'h curl_message \<Rightarrow> 'h curl_client \<Rightarrow> HTTPTransfer \<Rightarrow>
     (GetResponse res \<times> string \<times> 'h curl_client \<times> HTTPTransfer) option" where
  "CurlSend E perform (GetMessage base g) client s =
     map_option (\<lambda>(r, c, s). (r, [], c, s)) (CurlGet (E\<lparr>curl_request := g\<rparr>) perform base client s)"
| "CurlSend E perform (PutMessage base content_type d) client s =
     collected E (CurlPut (curl_header_api E) perform base content_type d client s)"
| "CurlSend E perform (HeadMessage base) client s = collected E (CurlHead (curl_header_api E) perform base client s)"
| "CurlSend E perform (DeleteMessage base) client s = collected E (CurlDelete (curl_header_api E) perform base client s)"
| "CurlSend E perform (OptionsMessage base) client s = collected E (CurlOptions (curl_header_api E) perform base client s)"
| "CurlSend E perform (PostMessage base d as_get) client s =
     map_option (\<lambda>(r, buffer_out, c, s). (Inr (curl_view E r), buffer_out, c, s))
       (CurlPost (curl_header_api E) perform base d as_get client s)"

end
