(* ===== verification/Http_Curl_Reuse.thy ===== *)
theory Http_Curl_Reuse
  imports Http_Curl_Client Http_Curl_Get
begin

text \<open>
  Clients over libcurl are kept and configured again for later requests, of other files and with other
  credentials. This theory shows that a client that served requests answers the next one as a new
  client does: no option of an earlier request is left on its handle, but one, the kind of request that
  a PUT leaves.
\<close>

section \<open>Between two requests\<close>

text \<open>A handle that no request has marked, or only a PUT, and one with the credentials that the client stores.\<close>

definition resting :: "bool \<Rightarrow> curl_handle \<Rightarrow> bool" where
  "resting put h \<longleftrightarrow> set_custom_request h = None \<and> set_post_fields h = None \<and>
     (set_method h = METHOD_GET \<or> put \<and> set_method h = METHOD_POST)"

lemmas kind_defs = set_nobody_def set_httpget_def set_post_def set_postfields_def

definition cert_path :: "(string \<Rightarrow> bool) \<Rightarrow> string \<Rightarrow> string" where
  "cert_path exists p = (if p = [] then SelectCURLCertPath exists else p)"

definition client_inv :: "bool \<Rightarrow> (string \<Rightarrow> bool) \<Rightarrow> string \<Rightarrow> 'h curl_client \<Rightarrow> bool" where
  "client_inv put exists base c \<longleftrightarrow> curl_base_url c = base \<and>
     (\<exists>h. client_curl c = Some h \<and> resting put h \<and> set_bearer h = stored_bearer_token c \<and>
        set_cainfo h = cert_path exists (stored_cert_file_path c))"

lemma client_info_unchanged [simp]:
  "client_inv put exists base (final_code a c) = client_inv put exists base c"
  "client_inv put exists base (c\<lparr>client_info := i\<rparr>) = client_inv put exists base c"
  "client_inv put exists base (start_request url c) = client_inv put exists base c"
  "client_inv put exists base (new_info c) = client_inv put exists base c"
  by (auto simp: client_inv_def final_code_def start_request_def new_info_def split: option.splits)

lemma client_inv_on_curl:
  assumes "client_inv put exists base c"
    and "\<And>h. resting put h \<Longrightarrow> resting put (f h) \<and> set_bearer (f h) = set_bearer h \<and> set_cainfo (f h) = set_cainfo h"
  shows "client_inv put exists base (on_curl f c)"
  using assms by (auto simp: client_inv_def on_curl_def)

lemma on_curl_twice: "on_curl f (on_curl g c) = on_curl (\<lambda>h. f (g h)) c"
  by (simp add: on_curl_def option.map_comp comp_def)

lemma on_curl_info [simp]:
  "on_curl f (c\<lparr>client_info := i\<rparr>) = (on_curl f c)\<lparr>client_info := i\<rparr>" "client_info (on_curl f c) = client_info c"
  "client_info_id (on_curl f c) = client_info_id c" "client_curl (on_curl f c) = map_option f (client_curl c)"
  "curl_base_url (on_curl f c) = curl_base_url c" "client_state (on_curl f c) = client_state c"
  by (simp_all add: on_curl_def)

lemma transfer_request_inv:
  assumes "transfer_request H perform base lines prepare restore c = Some (r, c')" "client_inv put exists url c"
    and "\<And>h. resting put h \<Longrightarrow> resting put (restore (prepare h)) \<and> set_bearer (restore (prepare h)) = set_bearer h \<and>
      set_cainfo (restore (prepare h)) = set_cainfo h"
  shows "client_inv put exists url c'"
proof -
  let ?f = "\<lambda>h. restore (prepare (h\<lparr>set_url := (curl_base_url c, NormalizePathToBeAdded (base_path base)), set_http_headers := lines\<rparr>))"
  have "client_inv put exists url (on_curl ?f (start_request (base_url_of base) c))"
  proof (rule client_inv_on_curl)
    show "client_inv put exists url (start_request (base_url_of base) c)" using assms(2) by simp
    show "resting put (?f h) \<and> set_bearer (?f h) = set_bearer h \<and> set_cainfo (?f h) = set_cainfo h" if "resting put h" for h
      using assms(3) [of "h\<lparr>set_url := (curl_base_url c, NormalizePathToBeAdded (base_path base)), set_http_headers := lines\<rparr>"] that
      by (simp add: resting_def)
  qed
  then show ?thesis
    using assms(1) by (auto simp: transfer_request_def Let_def on_curl_twice split: option.splits if_splits)
qed

section \<open>Configuration\<close>

text \<open>Two clients that will answer alike, although they have other numbers for their information.\<close>

definition alike :: "bool \<Rightarrow> 'h curl_client \<Rightarrow> 'h curl_client \<Rightarrow> bool" where
  "alike put c c' \<longleftrightarrow> curl_base_url c = curl_base_url c' \<and> client_state c = client_state c' \<and>
     (\<exists>h h'. client_curl c = Some h \<and> client_curl c' = Some h' \<and> resting put h \<and> resting put h' \<and>
        curl_settings.truncate h = curl_settings.truncate h' \<and>
        set_callbacks h = InfoTarget (client_info_id c) \<and> set_callbacks h' = InfoTarget (client_info_id c'))"

lemma InitializeHandle_inv:
  assumes "client_curl c = None \<and> curl_base_url c = base \<or> client_inv put exists base c"
  shows "client_inv put exists base (InitializeHandle exists params c) \<and>
    stored_bearer_token (InitializeHandle exists params c) = bearer_token params \<and>
    stored_cert_file_path (InitializeHandle exists params c) = ca_cert_file params \<and>
    client_state (InitializeHandle exists params c) = client_state c"
  using assms by (auto simp: InitializeHandle_def Let_def client_inv_def NewCURLHandle_def resting_def cert_path_def)

text \<open>The connection options after the configuration.\<close>

definition settings_for :: "(string \<Rightarrow> bool) \<Rightarrow> (u64 \<Rightarrow> string) \<Rightarrow> CurlParams \<Rightarrow> curl_settings" where
  "settings_for exists number params =
     curl_settings.truncate (ConfigureProxy number params (ConfigureTimeoutsAndCallbacks params 0
       (ConfigureConnection params (NewCURLHandle (bearer_token params) (cert_path exists (ca_cert_file params))))))"

lemma configured_settings:
  assumes "set_bearer h = bearer_token params" "set_cainfo h = cert_path exists (ca_cert_file params)"
  shows "curl_settings.truncate (ConfigureProxy number params (ConfigureTimeoutsAndCallbacks params i (ConfigureConnection params h))) =
    settings_for exists number params"
  using assms
  by (simp add: settings_for_def ConfigureProxy_def ConfigureTimeoutsAndCallbacks_def ConfigureConnection_def Let_def
      curl_settings.truncate_def NewCURLHandle_def)

lemma ConfigureClient_configured:
  assumes "client_curl c = None \<and> curl_base_url c = base \<or> client_inv put exists base c"
  shows "client_inv put exists base (ConfigureClient exists number params c) \<and>
    client_state (ConfigureClient exists number params c) = params_state params \<and>
    (\<exists>h. client_curl (ConfigureClient exists number params c) = Some h \<and>
       curl_settings.truncate h = settings_for exists number params \<and>
       set_callbacks h = InfoTarget (client_info_id (ConfigureClient exists number params c)))"
proof -
  let ?c = "c\<lparr>client_state := params_state params\<rparr>"
  let ?d = "InitializeHandle exists params ?c"
  have "client_curl ?c = None \<and> curl_base_url ?c = base \<or> client_inv put exists base ?c"
    using assms by (auto simp: client_inv_def)
  note init = InitializeHandle_inv [OF this, of params]
  then obtain h where h: "client_curl ?d = Some h" "resting put h" "set_bearer h = bearer_token params"
    "set_cainfo h = cert_path exists (ca_cert_file params)" "curl_base_url ?d = base"
    by (auto simp: client_inv_def)
  define g where "g = ConfigureProxy number params (ConfigureTimeoutsAndCallbacks params (Suc (client_info_id ?d))
    (ConfigureConnection params h))"
  have g: "resting put g" "set_bearer g = set_bearer h" "set_cainfo g = set_cainfo h"
    "set_callbacks g = InfoTarget (Suc (client_info_id ?d))"
    using h(2)
    by (simp_all add: g_def ConfigureProxy_def ConfigureTimeoutsAndCallbacks_def ConfigureConnection_def Let_def resting_def)
  have result: "client_curl (ConfigureClient exists number params c) = Some g"
    "client_info_id (ConfigureClient exists number params c) = Suc (client_info_id ?d)"
    "stored_bearer_token (ConfigureClient exists number params c) = stored_bearer_token ?d"
    "stored_cert_file_path (ConfigureClient exists number params c) = stored_cert_file_path ?d"
    "curl_base_url (ConfigureClient exists number params c) = base"
    "client_state (ConfigureClient exists number params c) = client_state ?d"
    using h(1,5) by (simp_all add: ConfigureClient_def Let_def on_curl_def new_info_def g_def)
  have "curl_settings.truncate g = settings_for exists number params"
    unfolding g_def using h(3,4) by (rule configured_settings)
  moreover have "client_inv put exists base (ConfigureClient exists number params c)"
    unfolding client_inv_def result using g(1-3) h(3,4) init by simp
  moreover have "client_state (ConfigureClient exists number params c) = params_state params"
    unfolding result(6) using init by simp
  ultimately show ?thesis unfolding result(1,2) using g(4) by blast
qed

lemma ConfigureClient_alike:
  assumes "client_inv put exists (NormalizePathToBeAdded url) c"
  shows "alike put (ConfigureClient exists number params c) (NewCurlClient exists number params url)"
proof -
  note old = ConfigureClient_configured [OF disjI2 [OF assms], of number params]
  note new = ConfigureClient_configured [of
      "\<lparr>client_curl = None, client_info = empty_info, client_info_id = 0, client_state = False,
        curl_base_url = NormalizePathToBeAdded url, stored_bearer_token = [], stored_cert_file_path = []\<rparr>"
      "NormalizePathToBeAdded url" put exists number params, folded NewCurlClient_def, simplified]
  from old new show ?thesis by (auto simp: alike_def client_inv_def)
qed

section \<open>Requests\<close>

text \<open>What a caller sees of a transfer: the response and the information that is left.\<close>

definition seen :: "('h curl_response \<times> 'h curl_client) option \<Rightarrow> ('h curl_response \<times> 'h RequestInfo) option" where
  "seen = map_option (\<lambda>(r, c). (r, client_info c))"

lemma asked_alike:
  assumes "curl_settings.truncate h = curl_settings.truncate h'"
    and "set_custom_request h = set_custom_request h'" "set_method h = set_method h'"
    and "set_method h = METHOD_POST \<Longrightarrow> set_post_fields h = set_post_fields h'"
    and "set_method h = METHOD_POST \<Longrightarrow> set_post_fields h \<noteq> None \<Longrightarrow> set_post_size h = set_post_size h'"
    and "set_url h = set_url h'" "set_http_headers h = set_http_headers h'"
  shows "asked_of h = asked_of h'"
  using assms by (cases "set_post_fields h'"; cases "set_method h'") (simp_all add: asked_of_def)

lemma reset_info [simp]:
  "(ResetRequestInfo i)\<lparr>info_url := url\<rparr> = \<lparr>info_url = url, info_body = [], info_code = 0, info_headers = []\<rparr>"
  by (cases i) (simp add: ResetRequestInfo_def)

lemma transfer_request_alike:
  assumes "alike put c c'"
    and asks: "\<And>h h' url. curl_settings.truncate h = curl_settings.truncate h' \<Longrightarrow> resting put h \<Longrightarrow> resting put h' \<Longrightarrow>
      asked_of (prepare (h\<lparr>set_url := url, set_http_headers := lines\<rparr>)) =
      asked_of (prepare (h'\<lparr>set_url := url, set_http_headers := lines\<rparr>))"
    and target: "\<And>h. set_callbacks (prepare h) = set_callbacks h"
  shows "seen (transfer_request H perform base lines prepare restore c) =
    seen (transfer_request H perform base lines prepare restore c')"
proof -
  obtain h h' where h: "client_curl c = Some h" "client_curl c' = Some h'" "resting put h" "resting put h'"
    "curl_settings.truncate h = curl_settings.truncate h'" "curl_base_url c = curl_base_url c'"
    "set_callbacks h = InfoTarget (client_info_id c)" "set_callbacks h' = InfoTarget (client_info_id c')"
    using assms(1) by (auto simp: alike_def)
  let ?u = "(curl_base_url c', NormalizePathToBeAdded (base_path base))"
  obtain a where a: "perform (asked_of (prepare (h\<lparr>set_url := ?u, set_http_headers := lines\<rparr>))) = a"
    "perform (asked_of (prepare (h'\<lparr>set_url := ?u, set_http_headers := lines\<rparr>))) = a"
    using asks [OF h(5,3,4), of ?u] by simp
  let ?i = "\<lparr>info_url = base_url_of base, info_body = [], info_code = 0, info_headers = []\<rparr>"
  have result: "seen (transfer_request H perform base lines prepare restore d) =
      map_option (\<lambda>info.
        let info1 = (case answer_status a of None \<Rightarrow> info | Some n \<Rightarrow> info\<lparr>info_code := n mod 65536\<rparr>)
        in (TransformResponseCurl H info1 (answer_result a) True, info1)) (collect_response H (answer_calls a) ?i)"
    if "client_curl d = Some g" "set_callbacks g = InfoTarget (client_info_id d)"
      "perform (asked_of (prepare (g\<lparr>set_url := ?u, set_http_headers := lines\<rparr>))) = a" "curl_base_url d = curl_base_url c'"
    for d g
    using that
    by (cases "collect_response H (answer_calls a) ?i"; cases "answer_status a")
      (simp_all add: transfer_request_def Let_def target start_request_def seen_def final_code_def)
  show ?thesis
    using result [OF h(1,7) a(1) h(6)] result [OF h(2,8) a(2) refl] by simp
qed

lemma collected_seen:
  assumes "seen t = seen t'"
  shows "map_option (\<lambda>(r, b, c, s). (r, b, s)) (collected E (map_option (\<lambda>(r, c). (r, c, s)) t)) =
    map_option (\<lambda>(r, b, c, s). (r, b, s)) (collected E (map_option (\<lambda>(r, c). (r, c, s)) t'))"
  using assms by (cases t; cases t') (auto simp: seen_def collected_def)

text \<open>The outcome of a request, without the client.\<close>

abbreviation without_client :: "('r \<times> 'b \<times> 'c \<times> 's) option \<Rightarrow> ('r \<times> 'b \<times> 's) option" where
  "without_client \<equiv> map_option (\<lambda>(r, b, c, s). (r, b, s))"

lemma count_alike: "alike put c c' \<Longrightarrow> count_request f c s = count_request f c' s"
  by (auto simp: alike_def count_request_def)

lemma CurlGet_alike:
  assumes "alike put c c'"
  shows "map_option (\<lambda>(r, c, s). (r, s)) (CurlGet E perform base c s) = map_option (\<lambda>(r, c, s). (r, s)) (CurlGet E perform base c' s)"
proof -
  obtain h h' where h: "client_curl c = Some h" "client_curl c' = Some h'" "resting put h" "resting put h'"
    "curl_settings.truncate h = curl_settings.truncate h'" "curl_base_url c = curl_base_url c'" "client_state c = client_state c'"
    using assms by (auto simp: alike_def)
  let ?u = "(curl_base_url c', NormalizePathToBeAdded (base_path base))"
  let ?p = "\<lambda>h. (set_httpget True (set_nobody False h))\<lparr>set_url := ?u,
    set_http_headers := request_lines (curl_header_api E) base, set_callbacks := TransferTarget\<rparr>"
  have "asked_of (?p h) = asked_of (?p h')"
    using h(3-5) by (intro asked_alike) (simp_all add: resting_def kind_defs curl_settings.truncate_def)
  then obtain a where a: "perform (asked_of (?p h)) = a" "perform (asked_of (?p h')) = a" by simp
  let ?E = "E\<lparr>client_has_state := client_state c'\<rparr>"
  let ?t = "new_transfer \<lparr>info_url = base_url_of base, info_body = [], info_code = 0, info_headers = []\<rparr>
    (count_request (\<lambda>n. n\<lparr>get_count := get_count n + 1\<rparr>) c' s)"
  have result: "map_option (\<lambda>(r, c, s). (r, s)) (CurlGet E perform base d s) =
      map_option (\<lambda>(res, t). Finish ?E (answer_status a) res t) (Execute ?E (answer_result a) (answer_calls a) ?t)"
    if "client_curl d = Some g" "perform (asked_of (?p g)) = a" "curl_base_url d = curl_base_url c'"
      "client_state d = client_state c'" for d g
    using that
    by (cases "Execute ?E (answer_result a) (answer_calls a) ?t")
      (auto simp: CurlGet_def Let_def start_request_def count_request_def split: prod.splits)
  show ?thesis using result [OF h(1) a(1) h(6,7)] result [OF h(2) a(2) refl refl] by simp
qed

fun custom_only :: "'h curl_message \<Rightarrow> bool" where
  "custom_only (DeleteMessage base) = True"
| "custom_only (OptionsMessage base) = True"
| "custom_only m = False"

lemma CurlSend_alike:
  assumes alike: "alike put c c'" and kept: "custom_only m \<Longrightarrow> \<not> put"
  shows "without_client (CurlSend E perform m c s) = without_client (CurlSend E perform m c' s)"
proof (cases m)
  case (GetMessage base g)
  show ?thesis
    using CurlGet_alike [OF alike, of "E\<lparr>curl_request := g\<rparr>" perform base s]
    by (cases "CurlGet (E\<lparr>curl_request := g\<rparr>) perform base c s"; cases "CurlGet (E\<lparr>curl_request := g\<rparr>) perform base c' s")
      (auto simp: GetMessage)
next
  case (PutMessage base content_type d)
  show ?thesis
    unfolding PutMessage CurlSend.simps CurlPut_def count_alike [OF alike]
    by (rule collected_seen, rule transfer_request_alike [OF alike], rule asked_alike)
      (simp_all add: resting_def kind_defs curl_settings.truncate_def)
next
  case (HeadMessage base)
  show ?thesis
    unfolding HeadMessage CurlSend.simps CurlHead_def count_alike [OF alike]
    by (rule collected_seen, rule transfer_request_alike [OF alike], rule asked_alike)
      (simp_all add: resting_def kind_defs curl_settings.truncate_def)
next
  case (DeleteMessage base)
  show ?thesis
    unfolding DeleteMessage CurlSend.simps CurlDelete_def count_alike [OF alike]
    by (rule collected_seen, rule transfer_request_alike [OF alike], rule asked_alike)
      (use kept in \<open>simp_all add: DeleteMessage resting_def kind_defs curl_settings.truncate_def\<close>)
next
  case (OptionsMessage base)
  show ?thesis
    unfolding OptionsMessage CurlSend.simps CurlOptions_def
    by (rule collected_seen, rule transfer_request_alike [OF alike], rule asked_alike)
      (use kept in \<open>simp_all add: OptionsMessage resting_def kind_defs curl_settings.truncate_def\<close>)
next
  case (PostMessage base d as_get)
  let ?prepare = "\<lambda>h. set_postfields (Some d) (length d) (if as_get then h\<lparr>set_custom_request := Some ''GET''\<rparr> else set_post True h)"
  let ?restore = "\<lambda>h. set_post False (set_postfields None 0 (h\<lparr>set_custom_request := None\<rparr>))"
  let ?H = "curl_header_api E"
  have same: "seen (transfer_request ?H perform base lines ?prepare ?restore c) =
      seen (transfer_request ?H perform base lines ?prepare ?restore c')" for lines
    by (rule transfer_request_alike [OF alike], rule asked_alike)
      (auto simp: resting_def kind_defs curl_settings.truncate_def)
  define lines where "lines = request_lines ?H base @
    (if header_find ?H (AddUserAgentIfAvailable ?H (base_params base) (base_headers base)) ''Content-Type'' = None
     then [''Content-Type: application/octet-stream''] else [])"
  show ?thesis
    using same [of lines]
    unfolding PostMessage CurlSend.simps CurlPost_def count_alike [OF alike] Let_def lines_def [symmetric]
    by (cases "transfer_request ?H perform base lines ?prepare ?restore c";
        cases "transfer_request ?H perform base lines ?prepare ?restore c'")
      (auto simp: seen_def)
qed

section \<open>Histories of a client\<close>

lemma callbacks_inv: "client_inv put exists url d \<Longrightarrow> client_inv put exists url (on_curl (\<lambda>h. h\<lparr>set_callbacks := target\<rparr>) d)"
  by (rule client_inv_on_curl) (simp_all add: resting_def)

lemma CurlGet_inv:
  assumes "CurlGet E perform base c s = Some (r, c', s')" "client_inv put exists url c"
  shows "client_inv put exists url c'"
proof -
  let ?c2 = "on_curl (\<lambda>h. (set_httpget True (set_nobody False h))\<lparr>
      set_url := (curl_base_url c, NormalizePathToBeAdded (base_path base)),
      set_http_headers := request_lines (curl_header_api E) base, set_callbacks := TransferTarget\<rparr>) (start_request (base_url_of base) c)"
  have start: "client_inv put exists url ?c2"
    using assms(2) by (intro client_inv_on_curl) (auto simp: resting_def kind_defs)
  obtain a i target where "c' = on_curl (\<lambda>h. h\<lparr>set_callbacks := target\<rparr>) (final_code a (?c2\<lparr>client_info := i\<rparr>))"
    using assms(1) by (auto simp: CurlGet_def Let_def case_prod_beta simp del: on_curl_info split: option.splits)
  then show ?thesis using start by (simp only: callbacks_inv client_info_unchanged)
qed

fun sends_put :: "'h curl_message \<Rightarrow> bool" where
  "sends_put (PutMessage base content_type d) = True"
| "sends_put m = False"

lemma CurlSend_inv:
  assumes "CurlSend E perform m c s = Some (r, b, c', s')" "client_inv put exists url c"
    and sent: "sends_put m \<Longrightarrow> put"
  shows "client_inv put exists url c'"
proof (cases m)
  case (GetMessage base g)
  then show ?thesis using assms CurlGet_inv [OF _ assms(2)] by auto
next
  case (PutMessage base content_type d)
  then have put: "put" using sent by simp
  then have inv: "client_inv True exists url c" using assms(2) by simp
  from put assms(1) show ?thesis unfolding PutMessage
    by (auto simp: collected_def CurlPut_def resting_def kind_defs elim!: transfer_request_inv [OF _ inv])
next
  case (HeadMessage base)
  with assms(1) show ?thesis
    by (auto simp: collected_def CurlHead_def resting_def kind_defs elim!: transfer_request_inv [OF _ assms(2)])
next
  case (DeleteMessage base)
  with assms(1) show ?thesis
    by (auto simp: collected_def CurlDelete_def resting_def kind_defs elim!: transfer_request_inv [OF _ assms(2)])
next
  case (OptionsMessage base)
  with assms(1) show ?thesis
    by (auto simp: collected_def CurlOptions_def resting_def kind_defs elim!: transfer_request_inv [OF _ assms(2)])
next
  case (PostMessage base d as_get)
  with assms(1) show ?thesis
    by (auto simp: CurlPost_def Let_def resting_def kind_defs elim!: transfer_request_inv [OF _ assms(2)])
qed

text \<open>
  A client is configured again, sends a request over whatever server answers it, or is parked in
  the cache of connections. A history gives \<open>None\<close> when a request finds the data of the callbacks gone.
\<close>

datatype 'h client_event = Configured CurlParams | Sent perform "'h curl_message" | Parked

fun apply_event ::
  "(string \<Rightarrow> bool) \<Rightarrow> (u64 \<Rightarrow> string) \<Rightarrow> 'h curl_env \<Rightarrow> 'h client_event \<Rightarrow> 'h curl_client \<times> HTTPTransfer \<Rightarrow>
     ('h curl_client \<times> HTTPTransfer) option" where
  "apply_event exists number E (Configured params) (c, s) = Some (ConfigureClient exists number params c, s)"
| "apply_event exists number E (Sent perform m) (c, s) = map_option (\<lambda>(r, b, c, s). (c, s)) (CurlSend E perform m c s)"
| "apply_event exists number E Parked (c, s) = Some (CurlCleanup c, s)"

fun client_history ::
  "(string \<Rightarrow> bool) \<Rightarrow> (u64 \<Rightarrow> string) \<Rightarrow> 'h curl_env \<Rightarrow> 'h client_event list \<Rightarrow> 'h curl_client \<times> HTTPTransfer \<Rightarrow>
     ('h curl_client \<times> HTTPTransfer) option" where
  "client_history exists number E [] cs = Some cs"
| "client_history exists number E (e # es) cs = Option.bind (apply_event exists number E e cs) (client_history exists number E es)"

fun puts :: "'h client_event \<Rightarrow> bool" where
  "puts (Sent perform m) = sends_put m"
| "puts e = False"

lemma client_history_inv:
  assumes "client_history exists number E es (c, s) = Some (c', s')" "client_inv put exists base c" "list_ex puts es \<Longrightarrow> put"
  shows "client_inv put exists base c'"
  using assms
proof (induction es arbitrary: c s)
  case (Cons e es)
  then obtain c1 s1 where step: "apply_event exists number E e (c, s) = Some (c1, s1)"
    and later: "client_history exists number E es (c1, s1) = Some (c', s')" by (auto split: bind_splits)
  have "client_inv put exists base c1"
    using step Cons.prems(2,3) ConfigureClient_configured [OF disjI2 [OF Cons.prems(2)]] CurlSend_inv [OF _ Cons.prems(2)]
    by (cases e) (auto simp: CurlCleanup_def)
  from Cons.IH [OF later this] Cons.prems(3) show ?case by simp
qed simp

text \<open>
  C10: Reusing a connection is never seen by a request: a client that served any history of requests,
  with other parameters, credentials and proxies, and was then configured for a request answers that
  request as a client that was made for it. The response, the body, the bytes that are counted and
  what the handlers of a GET are called with are the same, so no token, proxy, method or body
  of an earlier request reaches the server. For DELETE and OPTIONS the history must hold no PUT.
\<close>

theorem reused_client_request:
  assumes "client_history exists number E events (NewCurlClient exists number params0 url, s0) = Some (c, s1)"
    and "custom_only m \<Longrightarrow> \<not> list_ex puts events"
  shows "without_client (CurlSend E perform m (ConfigureClient exists number params c) s) =
    without_client (CurlSend E perform m (NewCurlClient exists number params url) s)"
proof (rule CurlSend_alike [OF _ assms(2)], rule ConfigureClient_alike, rule client_history_inv [OF assms(1)])
  show "client_inv (list_ex puts events) exists (NormalizePathToBeAdded url) (NewCurlClient exists number params0 url)"
    unfolding NewCurlClient_def by (rule conjunct1, rule ConfigureClient_configured) simp
qed

text \<open>A client that sent a PUT with a token through a proxy, was parked and is used for a HEAD without them.\<close>

definition plain_params :: CurlParams where
  "plain_params = HTTPFSParams.extend sample_params \<lparr>follow_location = True, params_state = True\<rparr>"

definition secret_params :: CurlParams where
  "secret_params = plain_params\<lparr>bearer_token := ''t'', http_proxy := ''p'', user_agent := ''d''\<rparr>"

definition echo_server :: perform where
  "echo_server asked =
     \<lparr>answer_calls = [HeaderLine (Some 200) ''HTTP/1 200'',
        HeaderLine (Some 200) (''A:'' @ set_bearer asked @ (case asked_body asked of None \<Rightarrow> ''-'' | Some d \<Rightarrow> d) @ ''.'')],
      answer_result = None, answer_status = Some 200\<rparr>"

definition head_base :: "(string \<times> string) list curl_base" where
  "head_base = \<lparr>base_url_of = ''u'', base_path = ''/f'', base_headers = [], base_params = plain_params\<rparr>"

definition secret_history :: "(string \<times> string) list client_event list" where
  "secret_history = [Sent echo_server (PutMessage (head_base\<lparr>base_params := secret_params\<rparr>) ''t'' ''body''), Parked]"

lemma secret_history_returns:
  "\<exists>c s. client_history (\<lambda>p. False) (\<lambda>n. ''1'') sample_curl secret_history
     (NewCurlClient (\<lambda>p. False) (\<lambda>n. ''1'') secret_params ''h'', idle_transfer) = Some (c, s)"
proof -
  have "client_history (\<lambda>p. False) (\<lambda>n. ''1'') sample_curl secret_history
     (NewCurlClient (\<lambda>p. False) (\<lambda>n. ''1'') secret_params ''h'', idle_transfer) \<noteq> None"
    by code_simp
  then show ?thesis by auto
qed

lemma answered:
  assumes "case x of Some (Inr r, b, s) \<Rightarrow> P r b | _ \<Rightarrow> False"
  shows "\<exists>r b s. x = Some (Inr r, b, s) \<and> P r b"
  using assms by (cases x; cases "fst (the x)") auto

lemma new_client_answers:
  "\<exists>r s. without_client (CurlSend sample_curl echo_server (HeadMessage head_base)
     (NewCurlClient (\<lambda>p. False) (\<lambda>n. ''1'') plain_params ''h'') idle_transfer) = Some (Inr r, [], s) \<and> response_header r ''A'' = Some ''-.''"
proof -
  have "case without_client (CurlSend sample_curl echo_server (HeadMessage head_base)
     (NewCurlClient (\<lambda>p. False) (\<lambda>n. ''1'') plain_params ''h'') idle_transfer) of
      Some (Inr r, b, s) \<Rightarrow> response_header r ''A'' = Some ''-.'' \<and> b = [] | _ \<Rightarrow> False"
    by code_simp
  from answered [OF this] show ?thesis by auto
qed

theorem reused_client_request_witness:
  "\<exists>c s r s'. client_history (\<lambda>p. False) (\<lambda>n. ''1'') sample_curl secret_history
      (NewCurlClient (\<lambda>p. False) (\<lambda>n. ''1'') secret_params ''h'', idle_transfer) = Some (c, s) \<and>
    without_client (CurlSend sample_curl echo_server (HeadMessage head_base)
      (ConfigureClient (\<lambda>p. False) (\<lambda>n. ''1'') plain_params c) idle_transfer) = Some (Inr r, [], s') \<and>
    response_header r ''A'' = Some ''-.''"
proof -
  obtain c s where history: "client_history (\<lambda>p. False) (\<lambda>n. ''1'') sample_curl secret_history
      (NewCurlClient (\<lambda>p. False) (\<lambda>n. ''1'') secret_params ''h'', idle_transfer) = Some (c, s)"
    using secret_history_returns by blast
  show ?thesis
    using history new_client_answers
      reused_client_request [OF history, of "HeadMessage head_base" echo_server plain_params idle_transfer] by auto
qed

text \<open>
  After a PUT the kind of request is still that of a POST, as libcurl documents for \<open>CURLOPT_POSTFIELDS\<close>, so a DELETE
  over the same client carries an empty form, which that of a new client does not.
\<close>

lemma delete_after_put:
  "case client_history (\<lambda>p. False) (\<lambda>n. ''1'') sample_curl [Sent echo_server (PutMessage head_base ''t'' ''body'')]
      (NewCurlClient (\<lambda>p. False) (\<lambda>n. ''1'') plain_params ''h'', idle_transfer) of
     None \<Rightarrow> False
   | Some (c, s) \<Rightarrow>
       (case without_client (CurlSend sample_curl echo_server (DeleteMessage head_base)
           (ConfigureClient (\<lambda>p. False) (\<lambda>n. ''1'') plain_params c) s) of
          Some (Inr r, b, s1) \<Rightarrow> response_header r ''A'' = Some ''.'' | _ \<Rightarrow> False) \<and>
       (case without_client (CurlSend sample_curl echo_server (DeleteMessage head_base)
           (NewCurlClient (\<lambda>p. False) (\<lambda>n. ''1'') plain_params ''h'') s) of
          Some (Inr r, b, s1) \<Rightarrow> response_header r ''A'' = Some ''-.'' | _ \<Rightarrow> False)"
  by code_simp

end
