(* ===== verification/Http_Connection_Cache.thy ===== *)
theory Http_Connection_Cache
  imports Http_Session Thread_Pool
begin

unbundle bit_operations_syntax

text \<open>
  The connections that the curl library keeps between requests
  (src/src/http/httpfs_connection_caching.cpp): sixteen pools of 32 slots, each with its own lock. A
  visit of one pool under its lock is one step, and threads interleave between their visits.
\<close>

section \<open>Pools\<close>

type_synonym connection_pools = "HTTPClient option list list"

definition POOL_COUNT :: nat where
  "POOL_COUNT = 16"

definition POOL_SIZE :: nat where
  "POOL_SIZE = 32"

definition empty_pools :: connection_pools where
  "empty_pools = replicate POOL_COUNT (replicate POOL_SIZE None)"

definition pool_index :: "nat \<Rightarrow> nat \<Rightarrow> nat" where
  "pool_index start i = (start + i) AND (POOL_COUNT - 1)"

text \<open>One pool: the first client for a URL, and the first empty slot.\<close>

fun TakeEntry :: "string \<Rightarrow> HTTPClient option list \<Rightarrow> (HTTPClient \<times> HTTPClient option list) option" where
  "TakeEntry url [] = None"
| "TakeEntry url (None # es) = map_option (apsnd ((#) None)) (TakeEntry url es)"
| "TakeEntry url (Some c # es) =
     (if base_url c = url then Some (c, None # es) else map_option (apsnd ((#) (Some c))) (TakeEntry url es))"

fun FillEntry :: "HTTPClient \<Rightarrow> HTTPClient option list \<Rightarrow> HTTPClient option list option" where
  "FillEntry c [] = None"
| "FillEntry c (None # es) = Some (Some c # es)"
| "FillEntry c (Some d # es) = map_option ((#) (Some d)) (FillEntry c es)"

text \<open>A visit of the pool with a number. It gives the pool that the thread starts with next time.\<close>

definition FindVisit :: "nat \<Rightarrow> string \<Rightarrow> connection_pools \<Rightarrow> (HTTPClient \<times> nat \<times> connection_pools) option" where
  "FindVisit idx url ps = map_option (\<lambda>(c, p). (c, idx, ps[idx := p])) (TakeEntry url (ps ! idx))"

definition StoreVisit :: "nat \<Rightarrow> HTTPClient \<Rightarrow> connection_pools \<Rightarrow> (nat \<times> connection_pools) option" where
  "StoreVisit idx c ps = map_option (\<lambda>p. (idx, ps[idx := p])) (FillEntry c (ps ! idx))"

text \<open>The eviction takes a random slot of the pool that the thread started with.\<close>

definition Evict :: "nat \<Rightarrow> nat \<Rightarrow> HTTPClient \<Rightarrow> connection_pools \<Rightarrow> connection_pools" where
  "Evict start random c ps = (let pool = ps ! start in ps[start := pool[random mod length pool := Some c]])"

definition ClearVisit :: "nat \<Rightarrow> connection_pools \<Rightarrow> connection_pools" where
  "ClearVisit idx ps = ps[idx := map (\<lambda>_. None) (ps ! idx)]"

section \<open>The cache\<close>

text \<open>The operations of one thread, with the pool it starts with.\<close>

fun FindLoop :: "nat \<Rightarrow> string \<Rightarrow> nat list \<Rightarrow> connection_pools \<Rightarrow> HTTPClient option \<times> nat \<times> connection_pools" where
  "FindLoop start url [] ps = (None, start, ps)"
| "FindLoop start url (i # is) ps =
     (case FindVisit (pool_index start i) url ps of
        Some (c, idx, ps') \<Rightarrow> (Some c, idx, ps')
      | None \<Rightarrow> FindLoop start url is ps)"

definition FindClient :: "string \<Rightarrow> nat \<Rightarrow> connection_pools \<Rightarrow> HTTPClient option \<times> nat \<times> connection_pools" where
  "FindClient url start ps = (if url = [] then (None, start, ps) else FindLoop start url [0..<POOL_COUNT] ps)"

fun StoreLoop :: "nat \<Rightarrow> nat \<Rightarrow> HTTPClient \<Rightarrow> nat list \<Rightarrow> connection_pools \<Rightarrow> nat \<times> connection_pools" where
  "StoreLoop start random c [] ps = (start, Evict start random c ps)"
| "StoreLoop start random c (i # is) ps =
     (case StoreVisit (pool_index start i) c ps of
        Some (idx, ps') \<Rightarrow> (idx, ps')
      | None \<Rightarrow> StoreLoop start random c is ps)"

definition StoreClient :: "HTTPClient option \<Rightarrow> nat \<Rightarrow> nat \<Rightarrow> connection_pools \<Rightarrow> nat \<times> connection_pools" where
  "StoreClient client random start ps =
     (case client of
        None \<Rightarrow> (start, ps)
      | Some c \<Rightarrow> if base_url c = [] then (start, ps) else StoreLoop start random c [0..<POOL_COUNT] ps)"

definition ClearCache :: "connection_pools \<Rightarrow> connection_pools" where
  "ClearCache ps = fold ClearVisit [0..<length ps] ps"

text \<open>Everything that is cached, as a bag.\<close>

definition pool_clients :: "HTTPClient option list \<Rightarrow> HTTPClient list" where
  "pool_clients p = concat (map (case_option [] (\<lambda>c. [c])) p)"

definition cached_clients :: "connection_pools \<Rightarrow> HTTPClient list" where
  "cached_clients ps = concat (map pool_clients ps)"

definition pools_ok :: "connection_pools \<Rightarrow> bool" where
  "pools_ok ps \<longleftrightarrow> length ps = POOL_COUNT \<and> list_all (\<lambda>p. length p = POOL_SIZE) ps"

lemma pool_clients_simps [simp]:
  "pool_clients [] = []" "pool_clients (None # p) = pool_clients p" "pool_clients (Some c # p) = c # pool_clients p"
  by (simp_all add: pool_clients_def)

lemma pool_index_less [simp]: "pool_index start i < POOL_COUNT"
proof -
  have "pool_index start i = (start + i) mod 16"
    using take_bit_eq_mask [of 4 "start + i"] by (simp add: pool_index_def POOL_COUNT_def mask_eq_exp_minus_1 take_bit_eq_mod)
  then show ?thesis by (simp add: POOL_COUNT_def)
qed

lemma pools_okD: "pools_ok ps \<Longrightarrow> idx < POOL_COUNT \<Longrightarrow> idx < length ps \<and> length (ps ! idx) = POOL_SIZE"
  by (simp add: pools_ok_def list_all_length)

lemma pools_ok_update: "pools_ok ps \<Longrightarrow> length p = POOL_SIZE \<Longrightarrow> pools_ok (ps[idx := p])"
  by (auto simp: pools_ok_def list_all_iff dest!: set_update_subset_insert [THEN subsetD])

lemma TakeEntry_Some:
  "TakeEntry url p = Some (c, p') \<Longrightarrow>
     base_url c = url \<and> length p' = length p \<and> mset (pool_clients p) = add_mset c (mset (pool_clients p'))"
  by (induction url p arbitrary: p' rule: TakeEntry.induct) (auto split: if_splits)

lemma TakeEntry_None: "TakeEntry url p = None \<longleftrightarrow> (\<forall>c \<in> set (pool_clients p). base_url c \<noteq> url)"
  by (induction url p rule: TakeEntry.induct) auto

lemma FillEntry_Some:
  "FillEntry c p = Some p' \<Longrightarrow> length p' = length p \<and> mset (pool_clients p') = add_mset c (mset (pool_clients p))"
  by (induction c p arbitrary: p' rule: FillEntry.induct) auto

lemma FillEntry_None: "FillEntry c p = None \<longleftrightarrow> length (pool_clients p) = length p"
proof (induction c p rule: FillEntry.induct)
  case (2 c es)
  have "length (pool_clients es) \<le> length es"
    by (induction es) (auto simp: pool_clients_def split: option.splits)
  then show ?case by simp
qed auto

lemma cached_update:
  "idx < length ps \<Longrightarrow>
     mset (cached_clients (ps[idx := p])) + mset (pool_clients (ps ! idx)) = mset (cached_clients ps) + mset (pool_clients p)"
  unfolding cached_clients_def by (rule concat_update)

lemma FindVisit_Some:
  assumes "FindVisit idx url ps = Some (c, idx', ps')" "pools_ok ps" "idx < POOL_COUNT"
  shows "base_url c = url \<and> pools_ok ps' \<and> mset (cached_clients ps) = add_mset c (mset (cached_clients ps'))"
proof -
  obtain p where p: "TakeEntry url (ps ! idx) = Some (c, p)" "ps' = ps[idx := p]"
    using assms(1) by (auto simp: FindVisit_def)
  show ?thesis
    using TakeEntry_Some [OF p(1)] cached_update [of idx ps p] pools_okD [OF assms(2,3)] pools_ok_update [OF assms(2), of p idx] p(2)
    by simp
qed

lemma StoreVisit_Some:
  assumes "StoreVisit idx c ps = Some (idx', ps')" "pools_ok ps" "idx < POOL_COUNT"
  shows "pools_ok ps' \<and> mset (cached_clients ps') = add_mset c (mset (cached_clients ps))"
proof -
  obtain p where p: "FillEntry c (ps ! idx) = Some p" "ps' = ps[idx := p]"
    using assms(1) by (auto simp: StoreVisit_def)
  show ?thesis
    using FillEntry_Some [OF p(1)] cached_update [of idx ps p] pools_okD [OF assms(2,3)] pools_ok_update [OF assms(2), of p idx] p(2)
    by simp
qed

lemma pool_clients_update:
  "i < length p \<Longrightarrow> mset (pool_clients (p[i := Some c])) \<subseteq># add_mset c (mset (pool_clients p))"
proof -
  assume "i < length p"
  then have "mset (pool_clients (p[i := Some c])) + mset (case_option [] (\<lambda>c. [c]) (p ! i)) = add_mset c (mset (pool_clients p))"
    using concat_update [of i p "case_option [] (\<lambda>c. [c])" "Some c"] by (simp add: pool_clients_def)
  then show ?thesis by (metis mset_subset_eq_add_left)
qed

lemma Evict_kept:
  assumes "pools_ok ps" "start < POOL_COUNT"
  shows "pools_ok (Evict start random c ps) \<and>
    mset (cached_clients (Evict start random c ps)) \<subseteq># add_mset c (mset (cached_clients ps))"
proof -
  note start = pools_okD [OF assms]
  let ?p = "(ps ! start)[random mod length (ps ! start) := Some c]"
  have "random mod length (ps ! start) < length (ps ! start)" using start by (simp add: POOL_SIZE_def)
  from pool_clients_update [OF this]
  have "mset (pool_clients ?p) \<subseteq># add_mset c (mset (pool_clients (ps ! start)))" .
  then have "{#} + mset (cached_clients (ps[start := ?p])) \<subseteq># {#c#} + mset (cached_clients ps)"
    using mset_exchange [OF cached_update [of start ps ?p], of "{#}" "{#c#}"] start by simp
  moreover have "pools_ok (ps[start := ?p])" using start by (intro pools_ok_update [OF assms(1)]) simp
  ultimately show ?thesis unfolding Evict_def Let_def by simp
qed

lemma ClearVisit_kept:
  assumes "pools_ok ps" "idx < POOL_COUNT"
  shows "pools_ok (ClearVisit idx ps) \<and> mset (cached_clients (ClearVisit idx ps)) \<subseteq># mset (cached_clients ps)"
proof -
  have empty: "pool_clients (map (\<lambda>_. None) p) = []" for p
    by (induction p) simp_all
  show ?thesis
    using cached_update [of idx ps "map (\<lambda>_. None) (ps ! idx)"] pools_okD [OF assms] pools_ok_update [OF assms(1)]
    by (simp add: ClearVisit_def empty subset_mset.le_iff_add)
      (metis add.commute)
qed

section \<open>One thread\<close>

text \<open>Alone, a search finds a client whenever one is cached, and a store only evicts from a full cache.\<close>

lemma pool_index_reaches:
  assumes "start < POOL_COUNT" "idx < POOL_COUNT"
  shows "\<exists>i < POOL_COUNT. pool_index start i = idx"
proof -
  have mod: "pool_index start i = (start + i) mod 16" for i
    using take_bit_eq_mask [of 4 "start + i"] by (simp add: pool_index_def POOL_COUNT_def mask_eq_exp_minus_1 take_bit_eq_mod)
  have "(start + (idx + 16 - start) mod 16) mod 16 = idx"
    using assms by (simp add: POOL_COUNT_def mod_simps)
  then show ?thesis
    using mod [of "(idx + 16 - start) mod 16"] by (intro exI [of _ "(idx + 16 - start) mod 16"]) (simp add: POOL_COUNT_def)
qed

lemma FindLoop_bag:
  assumes "FindLoop start url is ps = (found, idx, ps')" "pools_ok ps" "start < POOL_COUNT"
  shows "idx < POOL_COUNT \<and> pools_ok ps' \<and>
    (case found of
       None \<Rightarrow> ps' = ps \<and> (\<forall>i \<in> set is. \<forall>c \<in> set (pool_clients (ps ! pool_index start i)). base_url c \<noteq> url)
     | Some c \<Rightarrow> base_url c = url \<and> mset (cached_clients ps) = add_mset c (mset (cached_clients ps')))"
  using assms(1)
proof (induction "is")
  case Nil
  then show ?case using assms(2,3) by auto
next
  case (Cons i "is")
  show ?case
  proof (cases "FindVisit (pool_index start i) url ps")
    case None
    then have "TakeEntry url (ps ! pool_index start i) = None" by (simp add: FindVisit_def)
    then show ?thesis using Cons None by (auto simp: TakeEntry_None split: option.splits)
  next
    case (Some r)
    obtain c idx' ps1 where r: "r = (c, idx', ps1)" by (cases r)
    with Some Cons.prems have "found = Some c" "ps' = ps1" "idx = pool_index start i" by (auto simp: FindVisit_def)
    with FindVisit_Some [OF Some [unfolded r] assms(2)] show ?thesis by simp
  qed
qed

lemma FindClient_bag:
  assumes "FindClient url start ps = (found, idx, ps')" "pools_ok ps" "start < POOL_COUNT" "url \<noteq> []"
  shows "idx < POOL_COUNT \<and> pools_ok ps' \<and>
    (case found of
       None \<Rightarrow> ps' = ps \<and> (\<forall>c \<in> set (cached_clients ps). base_url c \<noteq> url)
     | Some c \<Rightarrow> base_url c = url \<and> mset (cached_clients ps) = add_mset c (mset (cached_clients ps')))"
proof -
  have loop: "FindLoop start url [0..<POOL_COUNT] ps = (found, idx, ps')" using assms(1,4) by (simp add: FindClient_def)
  have "base_url c \<noteq> url" if none: "found = None" and mem: "c \<in> set (cached_clients ps)" for c
  proof -
    obtain p where "p \<in> set ps" "c \<in> set (pool_clients p)" using mem by (auto simp: cached_clients_def)
    then obtain k where k: "k < POOL_COUNT" "c \<in> set (pool_clients (ps ! k))"
      using assms(2) by (metis in_set_conv_nth pools_ok_def)
    from pool_index_reaches [OF assms(3) k(1)] obtain i where "i < POOL_COUNT" "pool_index start i = k" by blast
    then show ?thesis using FindLoop_bag [OF loop assms(2,3)] none k(2) by auto
  qed
  then show ?thesis using FindLoop_bag [OF loop assms(2,3)] by (cases found) auto
qed

text \<open>The bag of what is cached, after a store: one more, or in a full cache the client for another.\<close>

lemma StoreLoop_bag:
  assumes "StoreLoop start random c is ps = (idx, ps')" "pools_ok ps" "start < POOL_COUNT"
  shows "idx < POOL_COUNT \<and> pools_ok ps' \<and>
    (mset (cached_clients ps') = add_mset c (mset (cached_clients ps)) \<or>
     (\<forall>i \<in> set is. length (pool_clients (ps ! pool_index start i)) = POOL_SIZE) \<and> ps' = Evict start random c ps)"
  using assms(1)
proof (induction "is")
  case Nil
  then show ?case using assms(2,3) Evict_kept [OF assms(2,3)] by auto
next
  case (Cons i "is")
  show ?case
  proof (cases "StoreVisit (pool_index start i) c ps")
    case None
    then have "FillEntry c (ps ! pool_index start i) = None" by (simp add: StoreVisit_def)
    then have "length (pool_clients (ps ! pool_index start i)) = POOL_SIZE"
      using pools_okD [OF assms(2) pool_index_less] by (simp add: FillEntry_None)
    then show ?thesis using Cons None by auto
  next
    case (Some r)
    obtain idx' ps1 where r: "r = (idx', ps1)" by (cases r)
    with Some Cons.prems have "ps' = ps1" "idx = pool_index start i" by (auto simp: StoreVisit_def)
    with StoreVisit_Some [OF Some [unfolded r] assms(2)] show ?thesis by simp
  qed
qed

section \<open>The curl library\<close>

text \<open>
  \<open>HTTPFSCurlUtil\<close>. \<open>base_send\<close> is DuckDB's \<open>HTTPUtil::SendRequest\<close>, which makes a client when it has none;
  \<open>initialize\<close> configures a client that was cached. Log messages are left out.
\<close>

definition EnableCaching :: "bool \<Rightarrow> HTTPFSParams \<Rightarrow> bool" where
  "EnableCaching connection_caching_enabled params \<longleftrightarrow> connection_caching_enabled \<and> http_proxy params = []"

definition GetClientReuseMode :: "bool \<Rightarrow> HTTPClientReuseMode" where
  "GetClientReuseMode connection_caching_enabled = (if connection_caching_enabled then SHARED else SESSION_LOCAL)"

definition CloseClient ::
  "bool \<Rightarrow> (HTTPClient \<Rightarrow> HTTPClient) \<Rightarrow> HTTPClient option \<Rightarrow> nat \<Rightarrow> nat \<Rightarrow> connection_pools \<Rightarrow> nat \<times> connection_pools" where
  "CloseClient connection_caching_enabled cleanup client random start ps =
     (if client = None \<or> \<not> connection_caching_enabled then (start, ps)
      else StoreClient (map_option cleanup client) random start ps)"

type_synonym ('r, 'w) base_send = "HTTPClient option \<Rightarrow> 'w \<Rightarrow> 'r res \<times> HTTPClient option \<times> 'w"

text \<open>The client that the caller gets back is \<open>None\<close> when it was stored.\<close>

definition CachingSendRequest ::
  "('r, 'w) base_send \<Rightarrow> (HTTPClient \<Rightarrow> HTTPClient) \<Rightarrow> string \<Rightarrow> HTTPClient option \<Rightarrow> nat \<Rightarrow> nat \<times> connection_pools \<Rightarrow> 'w \<Rightarrow>
     'r res \<times> HTTPClient option \<times> (nat \<times> connection_pools) \<times> 'w" where
  "CachingSendRequest base_send initialize proto_host_port client random sps w =
     (let caller_owns_client = (client \<noteq> None);
          (found, sps1) = (if client = None then FindClient proto_host_port (fst sps) (snd sps) else (None, sps));
          client1 = (if client = None then map_option initialize found else client)
      in case base_send client1 w of
           (Inl e, client2, w') \<Rightarrow> (Inl e, client2, sps1, w')
         | (Inr r, client2, w') \<Rightarrow>
             if \<not> caller_owns_client then (Inr r, None, StoreClient client2 random (fst sps1) (snd sps1), w')
             else (Inr r, client2, sps1, w'))"

definition CurlSendRequest ::
  "bool \<Rightarrow> HTTPFSParams \<Rightarrow> ('r, 'w) base_send \<Rightarrow> (HTTPClient \<Rightarrow> HTTPClient) \<Rightarrow> string \<Rightarrow> HTTPClient option \<Rightarrow> nat \<Rightarrow>
     nat \<times> connection_pools \<Rightarrow> 'w \<Rightarrow> 'r res \<times> HTTPClient option \<times> (nat \<times> connection_pools) \<times> 'w" where
  "CurlSendRequest enabled params base_send initialize proto_host_port client random sps w =
     (if EnableCaching enabled params then CachingSendRequest base_send initialize proto_host_port client random sps w
      else (let (r, client', w') = base_send client w in (r, client', sps, w')))"

text \<open>A client for a request: a cached one, or the one that is made.\<close>

definition InitializeClient ::
  "bool \<Rightarrow> (HTTPClient \<Rightarrow> HTTPClient) \<Rightarrow> HTTPClient \<Rightarrow> string \<Rightarrow> nat \<times> connection_pools \<Rightarrow> HTTPClient \<times> nat \<times> connection_pools" where
  "InitializeClient enabled initialize made proto_host_port sps =
     (if enabled then
        (case FindClient proto_host_port (fst sps) (snd sps) of
           (Some c, sps') \<Rightarrow> (initialize c, sps')
         | (None, sps') \<Rightarrow> (made, sps'))
      else (made, sps))"

end
