(* ===== verification/Http_Httplib.thy ===== *)
theory Http_Httplib
  imports Http_Curl_Client
begin

text \<open>
  The client over httplib (src/src/http/httpfs_httplib_client.cpp): its configuration, its requests, and the
  transfer of a GET, which calls the handlers of the request from the callbacks of httplib. The library is
  a parameter: what it does with a request is the answer of a function.
\<close>

section \<open>Configuration\<close>

record LibParams = CurlParams +
  timeout_usec :: u64

text \<open>What the client last set of the options of httplib.\<close>

record lib_settings =
  lib_follow_location :: bool
  lib_keep_alive :: bool
  lib_ca_cert_path :: string
  lib_verify :: bool
  lib_write_timeout :: "int \<times> int"
  lib_read_timeout :: "int \<times> int"
  lib_connection_timeout :: "int \<times> int"
  lib_decompress :: bool
  lib_bearer :: string
  lib_proxy :: "string \<times> int"
  lib_proxy_auth :: "string \<times> string"

record lib_client =
  lib_url :: string
  lib_options :: lib_settings
  lib_state :: bool

text \<open>\<open>NumericCast\<close> of an unsigned number to a signed type of \<open>b\<close> bits.\<close>

definition cast_signed :: "nat \<Rightarrow> u64 \<Rightarrow> int res" where
  "cast_signed b n = (if uint n < 2 ^ (b - 1) then Inr (uint n) else Inl (Exn InternalException [] []))"

definition lib_timeout :: "LibParams \<Rightarrow> (int \<times> int) res" where
  "lib_timeout params =
     bind_res (cast_signed 64 (timeout params)) (\<lambda>s. bind_res (cast_signed 64 (timeout_usec params)) (\<lambda>us. Inr (s, us)))"

text \<open>An exception leaves what was set before it; the state is set last.\<close>

definition InitializeLib :: "LibParams \<Rightarrow> lib_client \<Rightarrow> unit res \<times> lib_client" where
  "InitializeLib params c =
     (let o1 = (lib_options c)\<lparr>lib_follow_location := follow_location params, lib_keep_alive := keep_alive params,
            lib_ca_cert_path := ca_cert_file params,
            lib_verify := (if override_verify_ssl params then verify_ssl params else enable_server_cert_verification params)\<rparr>
      in case lib_timeout params of
           Inl e \<Rightarrow> (Inl e, c\<lparr>lib_options := o1\<rparr>)
         | Inr t \<Rightarrow>
             let o2 = o1\<lparr>lib_write_timeout := t, lib_read_timeout := t, lib_connection_timeout := t, lib_decompress := False,
                   lib_bearer := bearer_token params\<rparr>
             in if http_proxy params \<noteq> [] then
                  (case cast_signed 32 (http_proxy_port params) of
                     Inl e \<Rightarrow> (Inl e, c\<lparr>lib_options := o2\<rparr>)
                   | Inr port \<Rightarrow>
                       (Inr (), c\<lparr>lib_options := o2\<lparr>lib_proxy := (http_proxy params, port),
                          lib_proxy_auth := (if http_proxy_username params \<noteq> []
                            then (http_proxy_username params, http_proxy_password params) else ([], []))\<rparr>,
                        lib_state := params_state params\<rparr>))
                else
                  (Inr (), c\<lparr>lib_options := o2\<lparr>lib_proxy := ([], - 1), lib_proxy_auth := ([], [])\<rparr>,
                     lib_state := params_state params\<rparr>))"

section \<open>Headers and responses\<close>

definition lib_header :: "string \<times> string \<Rightarrow> string \<times> string" where
  "lib_header = (\<lambda>(name, v). (name, if IsEmptyValue v then [] else v))"

definition TransformHeadersLib :: "'h headers_api \<Rightarrow> 'h \<Rightarrow> LibParams \<Rightarrow> (string \<times> string) list" where
  "TransformHeadersLib H header_map params =
     map lib_header (header_items H header_map) @
     (if pre_merged_headers params then [] else map lib_header (extra_headers params))"

definition AddUserAgentLib :: "'h headers_api \<Rightarrow> LibParams \<Rightarrow> 'h \<Rightarrow> 'h" where
  "AddUserAgentLib H params header_map =
     (if user_agent params \<noteq> [] then header_insert H ''User-Agent'' (user_agent params) header_map else header_map)"

text \<open>A response of httplib, and its result, which is one or the text of an error.\<close>

record lib_response =
  lib_status :: int
  lib_reason :: string
  lib_body :: string
  lib_headers :: "(string \<times> string) list"

type_synonym lib_result = "string + lib_response"

record 'h lib_http =
  http_status :: int
  http_body :: string
  http_reason :: string
  http_headers :: 'h
  http_error :: "string option"

text \<open>
  \<open>ToStatusCode\<close> and the status for no response are DuckDB's; \<open>lib_view\<close> is the response as the handlers see it;
  \<open>lib_canceled\<close> is the text of the error of httplib when a callback refuses.
\<close>

record 'h lib_env =
  lib_header_api :: "'h headers_api"
  ToStatusCode :: "int \<Rightarrow> int"
  invalid_status :: int
  lib_view :: "'h lib_http \<Rightarrow> GetResponse"
  lib_canceled :: string

definition TransformResponseLib :: "'h lib_env \<Rightarrow> lib_response \<Rightarrow> 'h lib_http" where
  "TransformResponseLib E response =
     \<lparr>http_status = ToStatusCode E (lib_status response), http_body = lib_body response, http_reason = lib_reason response,
      http_headers = fold (\<lambda>(name, v). header_insert (lib_header_api E) name v) (lib_headers response)
        (headers_empty (lib_header_api E)),
      http_error = None\<rparr>"

definition TransformResultLib :: "'h lib_env \<Rightarrow> lib_result \<Rightarrow> 'h lib_http" where
  "TransformResultLib E res =
     (case res of
        Inr response \<Rightarrow> TransformResponseLib E response
      | Inl e \<Rightarrow> \<lparr>http_status = invalid_status E, http_body = [], http_reason = [], http_headers = headers_empty (lib_header_api E),
                  http_error = Some e\<rparr>)"

section \<open>The transfer of a GET\<close>

record 'h LibTransfer =
  lib_total_bytes :: nat
  lib_first_byte :: "int option"
  deferred_response :: "'h lib_http option"
  stopped_response :: "'h lib_http option"
  lib_sink :: HTTPTransfer

definition new_lib_transfer :: "HTTPTransfer \<Rightarrow> 'h LibTransfer" where
  "new_lib_transfer s =
     \<lparr>lib_total_bytes = 0, lib_first_byte = None, deferred_response = None, stopped_response = None, lib_sink = s\<rparr>"

definition LibHandleResponse ::
  "'h lib_env \<Rightarrow> HTTPTransfer get_info \<Rightarrow> lib_response \<Rightarrow> 'h LibTransfer \<Rightarrow> bool res \<times> 'h LibTransfer" where
  "LibHandleResponse E info response t =
     (let http_response = TransformResponseLib E response
      in if 400 \<le> http_status http_response then (Inr True, t\<lparr>deferred_response := Some http_response\<rparr>)
         else if has_response_handler info then
           (case response_handler info (lib_view E http_response) (lib_sink t) of
              (Inl e, s) \<Rightarrow> (Inl e, t\<lparr>lib_sink := s\<rparr>)
            | (Inr False, s) \<Rightarrow> (Inr False, t\<lparr>lib_sink := s, stopped_response := Some http_response\<rparr>)
            | (Inr True, s) \<Rightarrow> (Inr True, t\<lparr>lib_sink := s\<rparr>))
         else (Inr True, t))"

text \<open>\<open>elapsed\<close>: the nanoseconds since the transfer began.\<close>

definition RecordFirstByte :: "int \<Rightarrow> 'h LibTransfer \<Rightarrow> 'h LibTransfer" where
  "RecordFirstByte elapsed t =
     (if lib_first_byte t \<noteq> None then t else t\<lparr>lib_first_byte := Some (if 0 < elapsed then elapsed else 0)\<rparr>)"

definition count_received :: "bool \<Rightarrow> nat \<Rightarrow> HTTPTransfer \<Rightarrow> HTTPTransfer" where
  "count_received has_state n s = (if has_state then set_counters (add_received n (state_counters (http_state s))) s else s)"

definition LibHandleContent ::
  "bool \<Rightarrow> HTTPTransfer get_info \<Rightarrow> int \<Rightarrow> string \<Rightarrow> 'h LibTransfer \<Rightarrow> bool res \<times> 'h LibTransfer" where
  "LibHandleContent has_state info elapsed data t =
     (let t1 = RecordFirstByte elapsed t;
          t2 = t1\<lparr>lib_total_bytes := lib_total_bytes t1 + length data,
                  lib_sink := count_received has_state (length data) (lib_sink t1)\<rparr>
      in case deferred_response t2 of
           Some r \<Rightarrow> (Inr True, t2\<lparr>deferred_response := Some (r\<lparr>http_body := http_body r @ data\<rparr>)\<rparr>)
         | None \<Rightarrow>
             if \<not> has_content_handler info then (Inr True, t2)
             else (let (r, s) = content_handler info data (lib_sink t2) in (r, t2\<lparr>lib_sink := s\<rparr>)))"

text \<open>The result for the request, the bytes it received, and its state.\<close>

definition FinishLib ::
  "'h lib_env \<Rightarrow> HTTPTransfer get_info \<Rightarrow> lib_result \<Rightarrow> 'h LibTransfer \<Rightarrow> 'h lib_http res \<times> nat \<times> HTTPTransfer" where
  "FinishLib E info result t =
     (case deferred_response t of
        Some d \<Rightarrow>
          if has_response_handler info then
            (case response_handler info (lib_view E d) (lib_sink t) of
               (Inl e, s) \<Rightarrow> (Inl e, lib_total_bytes t, s)
             | (Inr _, s) \<Rightarrow> (Inr d, lib_total_bytes t, s))
          else (Inr d, lib_total_bytes t, lib_sink t)
      | None \<Rightarrow>
          (case stopped_response t of
             Some r \<Rightarrow> (Inr r, lib_total_bytes t, lib_sink t)
           | None \<Rightarrow> (Inr (TransformResultLib E result), lib_total_bytes t, lib_sink t)))"

text \<open>
  What httplib documents of a GET with callbacks: the response, when there is one to deliver, then its
  content with the time of each piece; a callback that gives false ends the request with an error. The outcome is
  the one httplib has when no callback refuses.
\<close>

record lib_answer =
  answer_head :: "lib_response option"
  answer_chunks :: "(int \<times> string) list"
  answer_outcome :: lib_result

fun lib_content ::
  "'h lib_env \<Rightarrow> bool \<Rightarrow> HTTPTransfer get_info \<Rightarrow> lib_result \<Rightarrow> (int \<times> string) list \<Rightarrow> 'h LibTransfer \<Rightarrow>
     lib_result res \<times> 'h LibTransfer" where
  "lib_content E has_state info outcome [] t = (Inr outcome, t)"
| "lib_content E has_state info outcome ((elapsed, data) # chunks) t =
     (case LibHandleContent has_state info elapsed data t of
        (Inr True, t') \<Rightarrow> lib_content E has_state info outcome chunks t'
      | (Inr False, t') \<Rightarrow> (Inr (Inl (lib_canceled E)), t')
      | (Inl e, t') \<Rightarrow> (Inl e, t'))"

definition lib_stream ::
  "'h lib_env \<Rightarrow> bool \<Rightarrow> HTTPTransfer get_info \<Rightarrow> lib_answer \<Rightarrow> 'h LibTransfer \<Rightarrow> lib_result res \<times> 'h LibTransfer" where
  "lib_stream E has_state info a t =
     (case answer_head a of
        None \<Rightarrow> (Inr (answer_outcome a), t)
      | Some response \<Rightarrow>
          (case LibHandleResponse E info response t of
             (Inr True, t') \<Rightarrow> lib_content E has_state info (answer_outcome a) (answer_chunks a) t'
           | (Inr False, t') \<Rightarrow> (Inr (Inl (lib_canceled E)), t')
           | (Inl e, t') \<Rightarrow> (Inl e, t')))"

section \<open>Requests\<close>

text \<open>
  A request of httplib: its options, method, path, headers, and the body, which is none, a string, or
  a provider of pieces by offset and length with a content type.
\<close>

datatype lib_payload = NoPayload | Payload string | Provided nat "nat \<Rightarrow> nat \<Rightarrow> string option" string

record lib_request =
  lib_settings_of :: lib_settings
  lib_method :: string
  lib_path :: string
  lib_request_headers :: "(string \<times> string) list"
  lib_payload_of :: lib_payload

record 'h lib_base =
  lib_base_path :: string
  lib_base_headers :: 'h
  lib_base_params :: LibParams

definition count_lib :: "(HTTPCounters \<Rightarrow> HTTPCounters) \<Rightarrow> lib_client \<Rightarrow> HTTPTransfer \<Rightarrow> HTTPTransfer" where
  "count_lib f c s = (if lib_state c then set_counters (f (state_counters (http_state s))) s else s)"

definition lib_request_of :: "'h lib_env \<Rightarrow> string \<Rightarrow> 'h lib_base \<Rightarrow> lib_payload \<Rightarrow> lib_client \<Rightarrow> lib_request" where
  "lib_request_of E verb base payload c =
     \<lparr>lib_settings_of = lib_options c, lib_method = verb, lib_path = lib_base_path base,
      lib_request_headers = TransformHeadersLib (lib_header_api E)
        (AddUserAgentLib (lib_header_api E) (lib_base_params base) (lib_base_headers base)) (lib_base_params base),
      lib_payload_of = payload\<rparr>"

text \<open>A GET; the number is \<open>bytes_received\<close> of the request, which a GET without handlers does not set.\<close>

definition LibGet ::
  "'h lib_env \<Rightarrow> (lib_request \<Rightarrow> lib_result) \<Rightarrow> (lib_request \<Rightarrow> lib_answer) \<Rightarrow> 'h lib_base \<Rightarrow> HTTPTransfer get_info \<Rightarrow>
     lib_client \<Rightarrow> HTTPTransfer \<Rightarrow> 'h lib_http res \<times> nat option \<times> HTTPTransfer" where
  "LibGet E send stream base info c s =
     (let s1 = count_lib (\<lambda>n. n\<lparr>get_count := get_count n + 1\<rparr>) c s;
          req = lib_request_of E ''GET'' base NoPayload c
      in if \<not> has_response_handler info \<and> \<not> has_content_handler info then
           let result = TransformResultLib E (send req)
           in (Inr result, None, count_received (lib_state c) (length (http_body result)) s1)
         else
           (case lib_stream E (lib_state c) info (stream req) (new_lib_transfer s1) of
              (Inl e, t) \<Rightarrow> (Inl e, None, lib_sink t)
            | (Inr result, t) \<Rightarrow> (let (r, n, s2) = FinishLib E info result t in (r, Some n, s2))))"

definition content_provider :: "string \<Rightarrow> nat \<Rightarrow> nat \<Rightarrow> string option" where
  "content_provider body offset len =
     (if length body < offset \<or> length body - offset < len then None else Some (substr body offset len))"

definition LibPut ::
  "'h lib_env \<Rightarrow> (lib_request \<Rightarrow> lib_result) \<Rightarrow> 'h lib_base \<Rightarrow> string \<Rightarrow> string \<Rightarrow> lib_client \<Rightarrow> HTTPTransfer \<Rightarrow>
     'h lib_http \<times> HTTPTransfer" where
  "LibPut E send base content_type buffer_in c s =
     (TransformResultLib E (send (lib_request_of E ''PUT'' base
        (Provided (length buffer_in) (content_provider buffer_in) content_type) c)),
      count_lib (\<lambda>n. n\<lparr>put_count := put_count n + 1,
        total_bytes_sent := total_bytes_sent n + word_of_nat (length buffer_in)\<rparr>) c s)"

definition LibHead ::
  "'h lib_env \<Rightarrow> (lib_request \<Rightarrow> lib_result) \<Rightarrow> 'h lib_base \<Rightarrow> lib_client \<Rightarrow> HTTPTransfer \<Rightarrow> 'h lib_http \<times> HTTPTransfer" where
  "LibHead E send base c s =
     (TransformResultLib E (send (lib_request_of E ''HEAD'' base NoPayload c)),
      count_lib (\<lambda>n. n\<lparr>head_count := head_count n + 1\<rparr>) c s)"

definition LibDelete ::
  "'h lib_env \<Rightarrow> (lib_request \<Rightarrow> lib_result) \<Rightarrow> 'h lib_base \<Rightarrow> lib_client \<Rightarrow> HTTPTransfer \<Rightarrow> 'h lib_http \<times> HTTPTransfer" where
  "LibDelete E send base c s =
     (TransformResultLib E (send (lib_request_of E ''DELETE'' base NoPayload c)),
      count_lib (\<lambda>n. n\<lparr>delete_count := delete_count n + 1\<rparr>) c s)"

definition LibOptions :: "'h lib_env \<Rightarrow> (lib_request \<Rightarrow> lib_result) \<Rightarrow> 'h lib_base \<Rightarrow> lib_client \<Rightarrow> 'h lib_http" where
  "LibOptions E send base c =
     TransformResultLib E (send \<lparr>lib_settings_of = lib_options c, lib_method = ''OPTIONS'', lib_path = lib_base_path base,
       lib_request_headers = TransformHeadersLib (lib_header_api E) (lib_base_headers base) (lib_base_params base),
       lib_payload_of = NoPayload\<rparr>)"

text \<open>
  A POST appends the pieces of its response to \<open>buffer_out\<close> of the request. \<open>has_name\<close> finds a header of
  httplib, without regard to case.
\<close>

definition LibPost ::
  "'h lib_env \<Rightarrow> (string \<Rightarrow> (string \<times> string) list \<Rightarrow> bool) \<Rightarrow> (lib_request \<Rightarrow> string list \<times> lib_result) \<Rightarrow> 'h lib_base \<Rightarrow>
     string \<Rightarrow> bool \<Rightarrow> lib_client \<Rightarrow> string \<times> HTTPTransfer \<Rightarrow> 'h lib_http \<times> string \<times> HTTPTransfer" where
  "LibPost E has_name send base buffer_in send_post_as_get c bs =
     (let (buffer_out, s) = bs;
          s1 = count_lib (\<lambda>n. n\<lparr>post_count := post_count n + 1,
                 total_bytes_sent := total_bytes_sent n + word_of_nat (length buffer_in)\<rparr>) c s;
          req = lib_request_of E (if send_post_as_get then ''GET'' else ''POST'') base (Payload buffer_in) c;
          req1 = (if has_name ''Content-Type'' (lib_request_headers req) then req
                  else req\<lparr>lib_request_headers := lib_request_headers req @ [(''Content-Type'', ''application/octet-stream'')]\<rparr>);
          (pieces, result) = send req1;
          s2 = fold (\<lambda>d. count_received (lib_state c) (length d)) pieces s1;
          buffer_out1 = buffer_out @ concat pieces
      in ((TransformResultLib E result)\<lparr>http_body := buffer_out1\<rparr>, buffer_out1, s2))"

section \<open>Configuration again\<close>

text \<open>A client that is configured again keeps nothing of its configuration before.\<close>

lemma InitializeLib_fresh:
  assumes "InitializeLib params c = (Inr (), c1)"
  shows "InitializeLib params (c\<lparr>lib_options := o', lib_state := b\<rparr>) = (Inr (), c1)"
proof -
  obtain t where t: "lib_timeout params = Inr t"
    using assms by (cases "lib_timeout params") (auto simp: InitializeLib_def Let_def)
  obtain port where "http_proxy params \<noteq> [] \<Longrightarrow> cast_signed 32 (http_proxy_port params) = Inr port"
    using assms by (cases "cast_signed 32 (http_proxy_port params)") (auto simp: InitializeLib_def Let_def t split: if_splits)
  then show ?thesis
    using assms by (cases "http_proxy params = []") (auto simp: InitializeLib_def Let_def t intro!: lib_settings.equality)
qed

lemma content_provider_piece:
  "content_provider body offset len = Some piece \<Longrightarrow> piece = substr body offset len \<and> offset + len \<le> length body"
  by (auto simp: content_provider_def split: if_splits)

end
