(* ===== verification/Http_Httplib_Get.thy ===== *)
theory Http_Httplib_Get
  imports Http_Httplib Http_Curl_Get
begin

text \<open>
  A GET over httplib is an attempt: it calls the handlers of the request as the reads assume of an HTTP client, like
  a GET over libcurl (Http_Curl_Get). The bytes that it counts while it runs are not seen by the handlers.
\<close>

section \<open>Counters\<close>

text \<open>Handlers that neither read nor change the counters of the query.\<close>

definition counter_blind :: "HTTPTransfer GetHandlers \<Rightarrow> bool" where
  "counter_blind h \<longleftrightarrow>
     (\<forall>r n s. response_handler h r (set_counters n s) = apsnd (set_counters n) (response_handler h r s)) \<and>
     (\<forall>d n s. content_handler h d (set_counters n s) = apsnd (set_counters n) (content_handler h d s))"

lemma full_handlers_blind: "counter_blind (full_handlers A path config get_error)"
  by (auto simp: counter_blind_def full_handlers_def HandleFullResponse_def HandleFullContent_def Let_def
      split: option.splits memory_result.splits)

lemma mark_guard_blind: "mark_guard mark i (set_counters n s) = set_counters n (mark_guard mark i s)"
  by (simp add: mark_guard_def update_range_def update_file_def case_prod_beta Let_def)

lemma range_handlers_blind: "counter_blind (range_handlers path i config get_error)"
proof -
  have valid: "ValidateContentLength i r (set_counters n s) = apsnd (set_counters n) (ValidateContentLength i r s)" for r n s
    by (simp add: ValidateContentLength_def mark_guard_def update_range_def update_file_def case_prod_beta Let_def split: option.split)
  have "HandleResponse path i config get_error r (set_counters n s) =
      apsnd (set_counters n) (HandleResponse path i config get_error r s)" for r n s
  proof -
    have commute: "(set_counters n s)\<lparr>range_context := c\<rparr> = set_counters n (s\<lparr>range_context := c\<rparr>)" for c by simp
    obtain ok s2 where v: "ValidateContentLength i r (set_context (\<lambda>c. c\<lparr>out_offset := 0\<rparr>) s) = (ok, s2)" by fastforce
    have "ValidateContentLength i r ((set_counters n s)\<lparr>range_context := (range_context s)\<lparr>out_offset := 0\<rparr>\<rparr>) = (ok, set_counters n s2)"
      unfolding commute using valid [of r n "set_context (\<lambda>c. c\<lparr>out_offset := 0\<rparr>) s"] by (simp only: v apsnd_conv)
    then show ?thesis
      using v mark_guard_blind [of MarkSupported i n s2]
      by (simp add: HandleResponse_def Let_def split: option.split)
  qed
  moreover have "HandleContent d (set_counters n s) = apsnd (set_counters n) (HandleContent d s)" for d n s
    by (simp add: HandleContent_def Let_def split: option.split)
  ultimately show ?thesis by (simp add: counter_blind_def range_handlers_def)
qed

lemma set_counters_twice [simp]: "set_counters n (set_counters m s) = set_counters n s"
  by simp

lemma set_counters_same: "\<exists>n. s = set_counters n s"
  by (rule exI [of _ "state_counters (http_state s)"]) simp

lemma counter_blindD:
  assumes "counter_blind h"
  shows "response_handler h r (set_counters n s) = apsnd (set_counters n) (response_handler h r s)"
    "content_handler h d (set_counters n s) = apsnd (set_counters n) (content_handler h d s)"
  using assms by (simp_all add: counter_blind_def)

lemma run_content_blind:
  assumes "counter_blind h"
  shows "run_content h chunks (set_counters n s) = apsnd (set_counters n) (run_content h chunks s)"
proof (induction chunks arbitrary: s)
  case (Cons d chunks)
  obtain r s1 where r: "content_handler h d s = (r, s1)" by fastforce
  have "content_handler h d (set_counters n s) = (r, set_counters n s1)"
    using counter_blindD(2) [OF assms, of d n s] by (simp only: r apsnd_conv)
  moreover have "run_content h chunks (set_counters n s1) = apsnd (set_counters n) (run_content h chunks s1)" by (rule Cons.IH)
  ultimately show ?case using r by (cases r; cases "r = Inr True") (auto split: bool.splits)
qed simp

lemma run_attempt_blind:
  assumes "counter_blind h"
  shows "run_attempt h a (set_counters n s) = apsnd (set_counters n) (run_attempt h a s)"
proof -
  obtain r s1 where r: "response_handler h (fst a) s = (r, s1)" by fastforce
  have "response_handler h (fst a) (set_counters n s) = (r, set_counters n s1)"
    using counter_blindD(1) [OF assms, of "fst a" n s] by (simp only: r apsnd_conv)
  moreover have "run_content h (snd a) (set_counters n s1) = apsnd (set_counters n) (run_content h (snd a) s1)"
    by (rule run_content_blind [OF assms])
  ultimately show ?thesis using r by (cases r; cases "r = Inr True") (auto simp: run_attempt_def split: bool.splits)
qed

section \<open>The content\<close>

abbreviation lib_handlers :: "HTTPTransfer get_info \<Rightarrow> HTTPTransfer GetHandlers" where
  "lib_handlers info \<equiv> GetHandlers.truncate info"

lemma lib_handlers_simps [simp]:
  "response_handler (lib_handlers info) = response_handler info" "content_handler (lib_handlers info) = content_handler info"
  by (simp_all add: GetHandlers.truncate_def)

lemma count_received_set: "\<exists>n. count_received b k (set_counters m s) = set_counters n s"
  using set_counters_same by (cases b) (auto simp: count_received_def)

lemma RecordFirstByte_select [simp]:
  "deferred_response (RecordFirstByte elapsed t) = deferred_response t"
  "stopped_response (RecordFirstByte elapsed t) = stopped_response t" "lib_sink (RecordFirstByte elapsed t) = lib_sink t"
  by (simp_all add: RecordFirstByte_def)

lemma lib_content_deferred:
  assumes "deferred_response t = Some d" "\<exists>m. lib_sink t = set_counters m s"
  shows "\<exists>t'. lib_content E has_state info outcome chunks t = (Inr outcome, t') \<and> stopped_response t' = stopped_response t \<and>
    deferred_response t' = Some (d\<lparr>http_body := http_body d @ concat (map snd chunks)\<rparr>) \<and> (\<exists>m. lib_sink t' = set_counters m s)"
  using assms
proof (induction chunks arbitrary: t d)
  case (Cons c chunks)
  obtain elapsed data where c: "c = (elapsed, data)" by (cases c)
  obtain t1 where t1: "LibHandleContent has_state info elapsed data t = (Inr True, t1)"
    "deferred_response t1 = Some (d\<lparr>http_body := http_body d @ data\<rparr>)" "stopped_response t1 = stopped_response t"
    "\<exists>m. lib_sink t1 = set_counters m s"
    using Cons.prems count_received_set by (auto simp: LibHandleContent_def Let_def)
  from Cons.IH [OF t1(2,4)] show ?case using t1(1,3) by (auto simp: c)
qed auto

lemma lib_content_run:
  assumes "deferred_response t = None" "\<exists>m. lib_sink t = set_counters m s" "has_content_handler info"
    and blind: "counter_blind (lib_handlers info)"
  shows "\<exists>t'. lib_content E has_state info outcome chunks t =
      (map_sum id (\<lambda>b. if b then outcome else Inl (lib_canceled E)) (fst (run_content (lib_handlers info) (map snd chunks) s)), t') \<and>
    deferred_response t' = None \<and> stopped_response t' = stopped_response t \<and>
    (\<exists>m. lib_sink t' = set_counters m (snd (run_content (lib_handlers info) (map snd chunks) s)))"
  using assms(1-3)
proof (induction chunks arbitrary: t s)
  case (Cons c chunks)
  obtain elapsed data where c: "c = (elapsed, data)" by (cases c)
  obtain r s1 where r: "content_handler info data s = (r, s1)" by fastforce
  obtain m where "lib_sink t = set_counters m s" using Cons.prems by blast
  then obtain k where k: "count_received has_state (length data) (lib_sink t) = set_counters k s" using count_received_set by metis
  have "content_handler info data (set_counters k s) = (r, set_counters k s1)"
    using counter_blindD(2) [OF blind, of data k s] by (simp only: lib_handlers_simps r apsnd_conv)
  then obtain t1 where t1: "LibHandleContent has_state info elapsed data t = (r, t1)" "deferred_response t1 = None"
    "stopped_response t1 = stopped_response t" "lib_sink t1 = set_counters k s1"
    using Cons.prems(1,3) k by (auto simp: LibHandleContent_def Let_def)
  show ?case
  proof (cases "r = Inr True")
    case True
    have "\<exists>m. lib_sink t1 = set_counters m s1" using t1(4) by blast
    from Cons.IH [OF t1(2) this Cons.prems(3)] show ?thesis using t1 r True by (auto simp: c)
  next
    case False
    then show ?thesis using t1 r by (cases r) (auto simp: c)
  qed
qed auto

section \<open>A transfer is an attempt\<close>

lemma lib_get_attempt:
  assumes handlers: "has_response_handler info" "has_content_handler info" "counter_blind (GetHandlers.truncate info)"
    and answer: "stream (lib_request_of E ''GET'' base NoPayload c) =
        \<lparr>answer_head = Some r, answer_chunks = chunks, answer_outcome = outcome\<rparr>" "lib_body r = []"
    and response: "failed \<longleftrightarrow> 400 \<le> ToStatusCode E (lib_status r)"
      "response = (TransformResponseLib E r)\<lparr>http_body := (if failed then concat (map snd chunks) else [])\<rparr>"
  shows "\<exists>n k. LibGet E send stream base info c s =
    (case run_attempt (GetHandlers.truncate info) (lib_view E response, if failed then [] else map snd chunks) s of
       (Inl e, s') \<Rightarrow> (Inl e, n, set_counters k s')
     | (Inr completed, s') \<Rightarrow>
         (Inr (if failed \<or> fst (response_handler info (lib_view E response) s) = Inr False then response
               else TransformResultLib E (if completed then outcome else Inl (lib_canceled E))), n, set_counters k s'))"
proof -
  obtain m where m: "count_lib (\<lambda>n. n\<lparr>get_count := get_count n + 1\<rparr>) c s = set_counters m s"
    using set_counters_same [of s] by (cases "lib_state c") (auto simp: count_lib_def)
  let ?t = "new_lib_transfer (set_counters m s) :: 'a LibTransfer"
  have t: "deferred_response ?t = None" "stopped_response ?t = None" "lib_sink ?t = set_counters m s"
    by (simp_all add: new_lib_transfer_def)
  have get: "LibGet E send stream base info c s =
      (case lib_stream E (lib_state c) info \<lparr>answer_head = Some r, answer_chunks = chunks, answer_outcome = outcome\<rparr> ?t of
         (Inl e, t) \<Rightarrow> (Inl e, None, lib_sink t)
       | (Inr result, t) \<Rightarrow> (let (r, n, s2) = FinishLib E info result t in (r, Some n, s2)))"
    using handlers(1) by (simp add: LibGet_def Let_def m answer(1))
  show ?thesis
  proof (cases failed)
    case True
    let ?d = "TransformResponseLib E r"
    obtain t1 where t1: "lib_content E (lib_state c) info outcome chunks (?t\<lparr>deferred_response := Some ?d\<rparr>) = (Inr outcome, t1)"
      "deferred_response t1 = Some response" "\<exists>k. lib_sink t1 = set_counters k s"
      using lib_content_deferred [of "?t\<lparr>deferred_response := Some ?d\<rparr>" ?d s E "lib_state c" info outcome chunks] t True answer(2)
      by (auto simp: response(2) TransformResponseLib_def)
    obtain k where k: "lib_sink t1 = set_counters k s" using t1(3) by blast
    obtain b s1 where b: "response_handler info (lib_view E response) s = (b, s1)" by fastforce
    have b': "response_handler info (lib_view E response) (lib_sink t1) = (b, set_counters k s1)"
      using counter_blindD(1) [OF handlers(3), of "lib_view E response" k s] by (simp only: k b apsnd_conv lib_handlers_simps)
    have "lib_stream E (lib_state c) info \<lparr>answer_head = Some r, answer_chunks = chunks, answer_outcome = outcome\<rparr> ?t = (Inr outcome, t1)"
      using True response(1) t1(1) by (simp add: lib_stream_def LibHandleResponse_def TransformResponseLib_def Let_def)
    then have "LibGet E send stream base info c s =
        (case b of Inl e \<Rightarrow> (Inl e, Some (lib_total_bytes t1), set_counters k s1)
         | Inr x \<Rightarrow> (Inr response, Some (lib_total_bytes t1), set_counters k s1))"
      using get handlers(1) t1(2) b' by (cases b) (simp_all add: FinishLib_def)
    moreover have "run_attempt (lib_handlers info) (lib_view E response, []) s = (b, s1)"
      using b by (cases b; cases "b = Inr True") (auto simp: run_attempt_def)
    ultimately show ?thesis using True by (cases b) auto
  next
    case False
    have resp: "response = TransformResponseLib E r"
      using False answer(2) by (simp add: response(2) TransformResponseLib_def)
    obtain b s1 where b: "response_handler info (lib_view E response) s = (b, s1)" by fastforce
    have b': "response_handler info (lib_view E response) (set_counters m s) = (b, set_counters m s1)"
      using counter_blindD(1) [OF handlers(3), of "lib_view E response" m s] by (simp only: b apsnd_conv lib_handlers_simps)
    have handled: "LibHandleResponse E info r ?t =
        (case b of Inl e \<Rightarrow> (Inl e, ?t\<lparr>lib_sink := set_counters m s1\<rparr>)
         | Inr False \<Rightarrow> (Inr False, ?t\<lparr>lib_sink := set_counters m s1, stopped_response := Some response\<rparr>)
         | Inr True \<Rightarrow> (Inr True, ?t\<lparr>lib_sink := set_counters m s1\<rparr>))"
      using False handlers(1) b' response(1)
      by (simp add: LibHandleResponse_def Let_def resp [symmetric] t(3)) (simp add: resp TransformResponseLib_def)
    show ?thesis
    proof (cases "b = Inr True")
      case True
      let ?u = "?t\<lparr>lib_sink := set_counters m s1\<rparr>"
      obtain t1 where t1: "lib_content E (lib_state c) info outcome chunks ?u =
          (map_sum id (\<lambda>b. if b then outcome else Inl (lib_canceled E)) (fst (run_content (lib_handlers info) (map snd chunks) s1)), t1)"
        "deferred_response t1 = None" "stopped_response t1 = None"
        "\<exists>k. lib_sink t1 = set_counters k (snd (run_content (lib_handlers info) (map snd chunks) s1))"
        using lib_content_run [of ?u s1 info E "lib_state c" outcome chunks] handlers(2,3) t by auto
      obtain x s2 where x: "run_content (lib_handlers info) (map snd chunks) s1 = (x, s2)" by fastforce
      obtain k where k: "lib_sink t1 = set_counters k s2" using t1(4) x by auto
      show ?thesis using get handled True False t1(1-3) x k b
        by (cases x) (auto simp: lib_stream_def FinishLib_def run_attempt_def TransformResultLib_def resp)
    next
      case not_true: False
      show ?thesis using get handled not_true False t b
        by (cases b) (auto simp: lib_stream_def FinishLib_def run_attempt_def)
    qed
  qed
qed

text \<open>
  C7: A GET over httplib is an attempt, as the reads assume of an HTTP client: for a response below 400 the response handler is called once, before the
  content, and the content handler gets the content in order until a handler stops or throws;
  the content of an error becomes the body of the response that the response handler sees. An
  exception of a handler is the exception of the request. A response handler that stops gives the
  response; otherwise the outcome of httplib is that of the request, an error when the content
  handler stops.
\<close>

theorem httplib_transfer_attempt:
  assumes handlers: "has_response_handler info" "has_content_handler info" "counter_blind (GetHandlers.truncate info)"
    and answer: "stream (lib_request_of E ''GET'' base NoPayload c) =
        \<lparr>answer_head = Some r, answer_chunks = chunks, answer_outcome = outcome\<rparr>" "lib_body r = []"
    and response: "failed \<longleftrightarrow> 400 \<le> ToStatusCode E (lib_status r)"
      "response = (TransformResponseLib E r)\<lparr>http_body := (if failed then concat (map snd chunks) else [])\<rparr>"
  shows "\<exists>n k. LibGet E send stream base info c s =
    (case run_attempt (GetHandlers.truncate info) (lib_view E response, if failed then [] else map snd chunks) s of
       (Inl e, s') \<Rightarrow> (Inl e, n, set_counters k s')
     | (Inr completed, s') \<Rightarrow>
         (Inr (if failed \<or> fst (response_handler info (lib_view E response) s) = Inr False then response
               else TransformResultLib E (if completed then outcome else Inl (lib_canceled E))), n, set_counters k s'))"
  by (rule lib_get_attempt [where stream = stream and r = r and chunks = chunks and outcome = outcome, OF assms])

text \<open>A response of 200 in two pieces, and one of 404, whose content is its body.\<close>

definition sample_lib :: "(string \<times> string) list lib_env" where
  "sample_lib =
     \<lparr>lib_header_api = exact_headers, ToStatusCode = (\<lambda>c. c), invalid_status = 0,
      lib_view = (\<lambda>r. \<lparr>request_error = http_error r \<noteq> None, response_status = http_status r, response_body = http_body r,
        response_header = header_find exact_headers (http_headers r), response_success = (http_status r < 300),
        response_failure = Exn HTTPException [] []\<rparr>),
      lib_canceled = ''Canceled''\<rparr>"

definition sample_lib_client :: lib_client where
  "sample_lib_client =
     \<lparr>lib_url = ''u'', lib_options =
        \<lparr>lib_follow_location = True, lib_keep_alive = True, lib_ca_cert_path = [], lib_verify = False, lib_write_timeout = (30, 0),
         lib_read_timeout = (30, 0), lib_connection_timeout = (30, 0), lib_decompress = False, lib_bearer = [],
         lib_proxy = ([], - 1), lib_proxy_auth = ([], [])\<rparr>, lib_state = True\<rparr>"

definition sample_lib_base :: "(string \<times> string) list lib_base" where
  "sample_lib_base =
     \<lparr>lib_base_path = ''/f'', lib_base_headers = [], lib_base_params =
        HTTPFSParams.extend sample_params \<lparr>follow_location = True, params_state = True, timeout_usec = 0\<rparr>\<rparr>"

definition lib_page :: "int \<Rightarrow> lib_response" where
  "lib_page code = \<lparr>lib_status = code, lib_reason = ''R'', lib_body = [], lib_headers = [(''E'', ''x'')]\<rparr>"

definition lib_server :: "int \<Rightarrow> lib_request \<Rightarrow> lib_answer" where
  "lib_server code req =
     \<lparr>answer_head = Some (lib_page code), answer_chunks = [(3, ''ab''), (5, ''c'')], answer_outcome = Inr (lib_page code)\<rparr>"

lemma sample_handlers_blind: "counter_blind (GetHandlers.truncate (curl_request sample_curl))"
  by (simp add: counter_blind_def sample_curl_def GetHandlers.truncate_def)

theorem httplib_transfer_attempt_witness:
  "(\<exists>n k. LibGet sample_lib (\<lambda>req. Inl ''C'') (lib_server 200) sample_lib_base (curl_request sample_curl) sample_lib_client idle_transfer =
      (Inr (TransformResponseLib sample_lib (lib_page 200)), n, set_counters k (idle_transfer\<lparr>memory_fault := True\<rparr>)))"
  using httplib_transfer_attempt [where E = sample_lib and info = "curl_request sample_curl" and stream = "lib_server 200" and
      r = "lib_page 200" and chunks = "[(3, ''ab''), (5, ''c'')]" and failed = False and outcome = "Inr (lib_page 200)" and s = idle_transfer and c = sample_lib_client and
      base = sample_lib_base and send = "\<lambda>req. Inl ''C''" and response = "TransformResponseLib sample_lib (lib_page 200)",
      OF _ _ sample_handlers_blind]
  by (simp add: lib_server_def lib_page_def sample_lib_def sample_curl_def TransformResponseLib_def run_attempt_def
      GetHandlers.truncate_def exact_headers_def TransformResultLib_def)

text \<open>
  A POST that is sent again with the same request keeps the body of the first answer in front of that
  of the second.
\<close>

lemma lib_post_again:
  assumes "LibPost E has_name send base d as_get c ([], s) = (r, body, s')"
  shows "http_body (fst (LibPost E has_name send base d as_get c (body, s'))) = body @ body"
  using assms by (auto simp: LibPost_def Let_def split: prod.splits)

section \<open>The contract of a client\<close>

text \<open>
  The contract that the reads assume (\<open>client_run\<close>) holds of one GET: httplib gives the pieces of an answer before its outcome,
  which is the response it began with or an error; without a response there is only an error.
\<close>

definition lib_answer_ok :: "lib_answer \<Rightarrow> bool" where
  "lib_answer_ok a \<longleftrightarrow>
     (case answer_head a of
        None \<Rightarrow> (\<exists>e. answer_outcome a = Inl e)
      | Some r \<Rightarrow> lib_body r = [] \<and> (answer_outcome a = Inr r \<or> (\<exists>e. answer_outcome a = Inl e))) \<and>
     list_all (\<lambda>(elapsed, d). length d < 18446744073709551616) (answer_chunks a)"

definition view_ok :: "'h lib_env \<Rightarrow> bool" where
  "view_ok E \<longleftrightarrow>
     (\<forall>r. response_status (lib_view E r) = http_status r \<and> (request_error (lib_view E r) \<longleftrightarrow> http_error r \<noteq> None) \<and>
          (response_success (lib_view E r) \<longrightarrow> http_status r < 300))"

lemma view_errors:
  assumes "view_ok E"
  shows "request_error (lib_view E (TransformResultLib E (Inl e)))" "\<not> request_error (lib_view E (TransformResponseLib E r))"
    "response_status (lib_view E ((TransformResponseLib E r)\<lparr>http_body := d\<rparr>)) = ToStatusCode E (lib_status r)"
    "response_success (lib_view E q) \<Longrightarrow> response_status (lib_view E q) < 300"
  using assms by (simp_all add: view_ok_def TransformResultLib_def TransformResponseLib_def)

lemma lib_get_contract:
  fixes E :: "'h lib_env"
  assumes handlers: "has_response_handler info" "has_content_handler info" "counter_blind (lib_handlers info)"
    and view: "view_ok E" and answer: "stream (lib_request_of E ''GET'' base NoPayload c) = a" "lib_answer_ok a"
    and served: "\<And>r response. answer_head a = Some r \<Longrightarrow> answer_outcome a = Inr r \<Longrightarrow> served (response, map snd (answer_chunks a))"
    and got: "LibGet E send stream base info c s = (outcome, n, s')"
  shows "\<exists>as. client_run served (lib_handlers info) as s (map_sum id (\<lambda>r. Some (lib_view E r)) outcome) s'"
proof (cases "answer_head a")
  case None
  then obtain e where e: "answer_outcome a = Inl e" using answer(2) by (auto simp: lib_answer_ok_def)
  obtain m where m: "count_lib (\<lambda>n. n\<lparr>get_count := get_count n + 1\<rparr>) c s = set_counters m s"
    using set_counters_same [of s] by (cases "lib_state c") (auto simp: count_lib_def)
  have "outcome = Inr (TransformResultLib E (Inl e))" "s' = set_counters m s"
    using got handlers(1) by (auto simp: LibGet_def Let_def m answer(1) lib_stream_def None e FinishLib_def new_lib_transfer_def)
  then have "client_run served (lib_handlers info) [] s (map_sum id (\<lambda>r. Some (lib_view E r)) outcome) s'"
    using view_errors(1,4) [OF view] by (auto simp: client_run_def run_attempts_def)
  then show ?thesis by blast
next
  case (Some r)
  define failed where "failed \<longleftrightarrow> 400 \<le> ToStatusCode E (lib_status r)"
  define response where
    "response = (TransformResponseLib E r)\<lparr>http_body := (if failed then concat (map snd (answer_chunks a)) else [])\<rparr>"
  define att :: attempt where "att = (lib_view E response, if failed then [] else map snd (answer_chunks a))"
  have body: "lib_body r = []" and out: "answer_outcome a = Inr r \<or> (\<exists>e. answer_outcome a = Inl e)"
    using answer(2) Some by (auto simp: lib_answer_ok_def)
  have ok: "attempt_ok att"
    using answer(2) by (auto simp: attempt_ok_def att_def lib_answer_ok_def list_all_iff)
  have a: "stream (lib_request_of E ''GET'' base NoPayload c) =
      \<lparr>answer_head = Some r, answer_chunks = answer_chunks a, answer_outcome = answer_outcome a\<rparr>"
    using answer(1) Some by (cases a) auto
  obtain x s1 where x: "run_attempt (lib_handlers info) att s = (x, s1)" by fastforce
  obtain k where k: "s' = set_counters k s1" and res: "outcome = (case x of Inl e \<Rightarrow> Inl e | Inr completed \<Rightarrow>
      Inr (if failed \<or> fst (response_handler info (lib_view E response) s) = Inr False then response
           else TransformResultLib E (if completed then answer_outcome a else Inl (lib_canceled E))))"
    using lib_get_attempt [where stream = stream and send = send and s = s, OF handlers a body failed_def response_def] x got
    by (cases x) (auto simp: att_def)
  have status: "response_status (fst att) = ToStatusCode E (lib_status r)"
    using view_errors(3) [OF view] by (simp add: att_def response_def)
  have last: "\<exists>b. x = Inr b \<and> (b \<longrightarrow> served att)" "response_status (fst att) = response_status (lib_view E q)"
    if q: "outcome = Inr q" "\<not> request_error (lib_view E q)" "response_status (lib_view E q) < 300" for q
  proof -
    obtain completed where x': "x = Inr completed" using res q(1) by (cases x) auto
    consider "failed" | "\<not> failed" "fst (response_handler info (lib_view E response) s) = Inr False"
      | "\<not> failed" "completed" "answer_outcome a = Inr r" "fst (response_handler info (lib_view E response) s) \<noteq> Inr False"
      using res q x' out view_errors(1) [OF view] by (auto split: if_splits)
    then have "(completed \<longrightarrow> served att) \<and> response_status (fst att) = response_status (lib_view E q)"
    proof cases
      case 1
      then have "q = response" using res q x' by simp
      then show ?thesis using q(3) 1 status by (simp add: att_def failed_def)
    next
      case 2
      then have "x = Inr False"
        using x by (auto simp: run_attempt_def att_def split: sum.splits bool.splits prod.splits)
      moreover have "q = response" using res q x' 2 by simp
      ultimately show ?thesis using x' by (simp add: att_def)
    next
      case 3
      then have "q = TransformResponseLib E r" using res q x' by (simp add: TransformResultLib_def)
      then show ?thesis using 3 served [OF Some] status view by (simp add: att_def view_ok_def TransformResponseLib_def)
    qed
    then show "\<exists>b. x = Inr b \<and> (b \<longrightarrow> served att)" "response_status (fst att) = response_status (lib_view E q)" using x' by auto
  qed
  have "client_run served (lib_handlers info) [att] s (map_sum id (\<lambda>r. Some (lib_view E r)) outcome) s'"
    unfolding client_run_def
  proof (intro conjI allI impI)
    show "list_all attempt_ok [att]" using ok by simp
    show "\<exists>c. s' = set_counters c (run_attempts (lib_handlers info) [att] s)" using k x by (auto simp: run_attempts_def)
  next
    fix r' assume "map_sum id (\<lambda>r. Some (lib_view E r)) outcome = Inr (Some r') \<and> \<not> request_error r' \<and> response_success r'"
    then show "response_status r' < 300" using view_errors(4) [OF view] by (cases outcome) auto
  next
    fix r' assume r': "map_sum id (\<lambda>r. Some (lib_view E r)) outcome = Inr (Some r') \<and> \<not> request_error r' \<and> response_status r' < 300"
    then obtain q where q: "outcome = Inr q" "lib_view E q = r'" by (cases outcome) auto
    note end_facts = last [OF q(1)]
    show "[att] \<noteq> []" by simp
    show "response_status (fst (List.last [att])) = response_status r'" using end_facts(2) r' q(2) by simp
    show "\<exists>b. fst (run_attempt (lib_handlers info) (List.last [att]) (run_attempts (lib_handlers info) (butlast [att]) s)) = Inr b \<and>
        (b \<longrightarrow> served (List.last [att]))"
      using end_facts(1) r' q(2) x by (auto simp: run_attempts_def)
  qed
  then show ?thesis by blast
qed

end
