(* ===== verification/Http_Connection_Share.thy ===== *)
theory Http_Connection_Share
  imports Http_Connection_Cache
begin

text \<open>
  Threads that use the cache of connections together. A thread looks for a client, holds the
  one it found or made, and stores or drops it; between two visits of a pool other threads act.
\<close>

section \<open>Threads\<close>

text \<open>The first number of a thread is the pool it starts with, the second the number of the visit.\<close>

datatype cache_thread =
  C_IDLE nat
| C_FINDING nat nat string
| C_HOLDING nat string HTTPClient
| C_STORING nat nat HTTPClient
| C_CLEARING nat nat

text \<open>The shared state: the pools, and the number of the next client that is made.\<close>

type_synonym cache_state = "connection_pools \<times> nat"

inductive cache_step :: "cache_thread \<Rightarrow> cache_state \<Rightarrow> cache_thread \<Rightarrow> cache_state \<Rightarrow> bool" where
  cache_find: "url \<noteq> [] \<Longrightarrow> cache_step (C_IDLE idx) s (C_FINDING idx 0 url) s"
| cache_hit: "i < POOL_COUNT \<Longrightarrow> FindVisit (pool_index idx i) url ps = Some (c, idx', ps') \<Longrightarrow>
    cache_step (C_FINDING idx i url) (ps, n) (C_HOLDING idx' url c) (ps', n)"
| cache_miss: "i < POOL_COUNT \<Longrightarrow> FindVisit (pool_index idx i) url ps = None \<Longrightarrow>
    cache_step (C_FINDING idx i url) (ps, n) (C_FINDING idx (i + 1) url) (ps, n)"
| cache_made: "c = \<lparr>client_ref = n, client_util = u, base_url = url\<rparr> \<Longrightarrow>
    cache_step (C_FINDING idx POOL_COUNT url) (ps, n) (C_HOLDING idx url c) (ps, n + 1)"
| cache_drop: "cache_step (C_HOLDING idx url c) s (C_IDLE idx) s"
| cache_store: "base_url c \<noteq> [] \<Longrightarrow> cache_step (C_HOLDING idx url c) s (C_STORING idx 0 c) s"
| cache_stored: "i < POOL_COUNT \<Longrightarrow> StoreVisit (pool_index idx i) c ps = Some (idx', ps') \<Longrightarrow>
    cache_step (C_STORING idx i c) (ps, n) (C_IDLE idx') (ps', n)"
| cache_full: "i < POOL_COUNT \<Longrightarrow> StoreVisit (pool_index idx i) c ps = None \<Longrightarrow>
    cache_step (C_STORING idx i c) (ps, n) (C_STORING idx (i + 1) c) (ps, n)"
| cache_evict: "cache_step (C_STORING idx POOL_COUNT c) (ps, n) (C_IDLE idx) (Evict idx random c ps, n)"
| cache_clear: "cache_step (C_IDLE idx) s (C_CLEARING idx 0) s"
| cache_cleared: "i < POOL_COUNT \<Longrightarrow> cache_step (C_CLEARING idx i) (ps, n) (C_CLEARING idx (i + 1)) (ClearVisit i ps, n)"
| cache_clear_end: "cache_step (C_CLEARING idx POOL_COUNT) s (C_IDLE idx) s"

inductive_cases cache_stepE: "cache_step t s t' s'"

fun held_client :: "cache_thread \<Rightarrow> HTTPClient list" where
  "held_client (C_HOLDING idx url c) = [c]"
| "held_client (C_STORING idx i c) = [c]"
| "held_client _ = []"

fun start_pool :: "cache_thread \<Rightarrow> nat" where
  "start_pool (C_IDLE idx) = idx"
| "start_pool (C_FINDING idx i url) = idx"
| "start_pool (C_HOLDING idx url c) = idx"
| "start_pool (C_STORING idx i c) = idx"
| "start_pool (C_CLEARING idx i) = idx"

fun holds_its_url :: "cache_thread \<Rightarrow> bool" where
  "holds_its_url (C_HOLDING idx url c) \<longleftrightarrow> base_url c = url"
| "holds_its_url _ \<longleftrightarrow> True"

text \<open>All clients there are: those in the pools, and those that threads hold.\<close>

definition live_clients :: "cache_state \<times> cache_thread list \<Rightarrow> HTTPClient list" where
  "live_clients c = cached_clients (fst (fst c)) @ concat (map held_client (snd c))"

definition cache_inv :: "cache_state \<times> cache_thread list \<Rightarrow> bool" where
  "cache_inv c \<longleftrightarrow> pools_ok (fst (fst c)) \<and> (\<forall>t \<in> set (snd c). start_pool t < POOL_COUNT \<and> holds_its_url t) \<and>
     distinct (map client_ref (live_clients c)) \<and> (\<forall>d \<in> set (live_clients c). client_ref d < snd (fst c))"

text \<open>What one thread does: it moves or drops clients, or makes one with a new number.\<close>

lemma cache_step_moves:
  assumes "cache_step t (ps, n) t' (ps', n')" "pools_ok ps" "start_pool t < POOL_COUNT" "holds_its_url t"
  shows "pools_ok ps' \<and> start_pool t' < POOL_COUNT \<and> holds_its_url t' \<and>
    (\<exists>made. mset (cached_clients ps') + mset (held_client t') \<subseteq># mset (cached_clients ps) + mset (held_client t) + mset made \<and>
       n' = n + length made \<and> map client_ref made = [n..<n'])"
  using assms(1)
proof cases
  case (cache_hit i idx url c idx')
  moreover have "idx' = pool_index idx i" using cache_hit by (auto simp: FindVisit_def)
  ultimately show ?thesis
    using FindVisit_Some [OF cache_hit(5) assms(2) pool_index_less] by (intro conjI exI [of _ "[]"]) simp_all
next
  case (cache_made c u url idx)
  then show ?thesis using assms(2,3) by (intro conjI exI [of _ "[c]"]) simp_all
next
  case (cache_stored i idx c idx')
  moreover have "idx' = pool_index idx i" using cache_stored by (auto simp: StoreVisit_def)
  ultimately show ?thesis
    using StoreVisit_Some [OF cache_stored(5) assms(2) pool_index_less] by (intro conjI exI [of _ "[]"]) simp_all
next
  case (cache_evict idx c random)
  then show ?thesis
    using Evict_kept [OF assms(2), of idx random c] assms(3) by (intro conjI exI [of _ "[]"]) simp_all
next
  case (cache_cleared i idx)
  then show ?thesis
    using ClearVisit_kept [OF assms(2), of i] assms(3) by (intro conjI exI [of _ "[]"]) simp_all
qed (use assms in \<open>auto intro: exI [of _ "[]"]\<close>)

lemma cache_inv_step:
  assumes "pool cache_step c c'" "cache_inv c"
  shows "cache_inv c'"
  using assms(1)
proof cases
  case (pool_step i ts s t' s')
  obtain ps n ps' n' where s: "s = (ps, n)" "s' = (ps', n')" by (cases s; cases s')
  have inv: "pools_ok ps" "start_pool (ts ! i) < POOL_COUNT" "holds_its_url (ts ! i)"
    "distinct (map client_ref (live_clients c))" "\<forall>d \<in> set (live_clients c). client_ref d < n"
    and ts: "\<forall>t \<in> set ts. start_pool t < POOL_COUNT \<and> holds_its_url t"
    using assms(2) pool_step by (auto simp: cache_inv_def s)
  note moves = cache_step_moves [OF pool_step(4) [unfolded s] inv(1-3)]
  then obtain made where made: "mset (cached_clients ps') + mset (held_client t') \<subseteq>#
      mset (cached_clients ps @ made) + mset (held_client (ts ! i))"
    "map client_ref made = [n..<n']" "n \<le> n'" by (auto simp: ac_simps)
  have sub: "mset (live_clients c') \<subseteq># mset (live_clients c @ made)"
    using mset_exchange [OF concat_update [OF pool_step(3), of held_client t'] made(1)]
    by (simp add: live_clients_def pool_step s ac_simps)
  have below: "client_ref d < n" if "d \<in> set (live_clients c)" for d using inv(5) that by blast
  have "distinct (map client_ref (live_clients c @ made))"
    using inv(4) made(2) arg_cong [OF made(2), of set] by (auto dest: below leD)
  then have "distinct (map client_ref (live_clients c'))"
    using image_mset_subseteq_mono [OF sub, of client_ref] distinct_sub_mset by (metis mset_map)
  moreover have "client_ref d < n'" if "d \<in> set (live_clients c')" for d
  proof -
    have "d \<in> set (live_clients c) \<or> d \<in> set made" using set_mset_mono [OF sub] that by auto
    moreover have "client_ref d \<in> {n..<n'}" if "d \<in> set made"
      using arg_cong [OF made(2), of set] that by auto
    ultimately show ?thesis using below made(3) by (meson atLeastLessThan_iff less_le_trans)
  qed
  ultimately show ?thesis
    using moves ts by (auto simp: cache_inv_def pool_step(2) s dest!: set_update_subset_insert [THEN subsetD])
qed

lemma cache_inv_steps: "pools cache_step c c' \<Longrightarrow> cache_inv c \<Longrightarrow> cache_inv c'"
  by (induction rule: rtranclp_induct) (auto intro: cache_inv_step)

section \<open>Properties\<close>

definition start_cache :: "nat list \<Rightarrow> cache_state \<times> cache_thread list" where
  "start_cache idxs = ((empty_pools, 0), map C_IDLE idxs)"

lemma empty_pools_ok: "pools_ok empty_pools" "cached_clients empty_pools = []"
proof -
  have "pool_clients (replicate n None) = []" for n by (induction n) simp_all
  then have "cached_clients (replicate m (replicate n None)) = []" for m n
    by (induction m) (simp_all add: cached_clients_def)
  then show "cached_clients empty_pools = []" by (simp add: empty_pools_def)
qed (simp add: pools_ok_def empty_pools_def list_all_iff)

lemma start_cache_inv:
  assumes "list_all (\<lambda>idx. idx < POOL_COUNT) idxs"
  shows "cache_inv (start_cache idxs)"
proof -
  have "map (held_client \<circ> C_IDLE) idxs = replicate (length idxs) []" by (induction idxs) simp_all
  then show ?thesis
    using assms by (auto simp: cache_inv_def start_cache_def empty_pools_ok live_clients_def list_all_iff)
qed

text \<open>
  C13: A connection is never used twice at a time: whatever threads search, store, evict and clear the
  pools together, no client is in two slots, in a slot and at a thread, or at two threads, a thread that
  found a client has one for the URL it asked for, and every pool keeps its slots.
\<close>

theorem connections_exclusive:
  assumes "list_all (\<lambda>idx. idx < POOL_COUNT) idxs" "pools cache_step (start_cache idxs) ((ps, n), ts)"
  shows "distinct (map client_ref (cached_clients ps @ concat (map held_client ts))) \<and>
    list_all holds_its_url ts \<and> length ps = POOL_COUNT \<and> list_all (\<lambda>p. length p = POOL_SIZE) ps"
  using cache_inv_steps [OF assms(2) start_cache_inv [OF assms(1)]]
  by (auto simp: cache_inv_def live_clients_def pools_ok_def list_all_iff)

text \<open>A client that was made, stored, and found again.\<close>

lemma single_step:
  "pools cache_step c (s, [t]) \<Longrightarrow> cache_step t s t' s' \<Longrightarrow> pools cache_step c (s', [t'])"
  by (rule pools_step [of cache_step c s "[t]" 0 t' s']) simp_all

lemma find_misses:
  assumes "\<And>i. FindVisit (pool_index idx i) url ps = None" "k \<le> POOL_COUNT"
  shows "pools cache_step ((ps, n), [C_FINDING idx 0 url]) ((ps, n), [C_FINDING idx k url])"
  using assms(2)
proof (induction k)
  case (Suc k)
  then have "pools cache_step ((ps, n), [C_FINDING idx 0 url]) ((ps, n), [C_FINDING idx k url])" by simp
  from single_step [OF this cache_miss] show ?case using Suc.prems assms(1) by simp
qed simp

definition pooled_client :: HTTPClient where
  "pooled_client = \<lparr>client_ref = 0, client_util = 0, base_url = ''h''\<rparr>"

definition one_pooled :: connection_pools where
  "one_pooled = empty_pools[3 := Some pooled_client # replicate 31 None]"

lemma sample_visits:
  "FindVisit (pool_index 3 i) ''h'' empty_pools = None"
  "StoreVisit (pool_index 3 0) pooled_client empty_pools = Some (3, one_pooled)"
  "FindVisit (pool_index 3 0) ''h'' one_pooled = Some (pooled_client, 3, one_pooled[3 := replicate 32 None])"
proof -
  have "pool_clients (empty_pools ! idx) = []" if "idx < POOL_COUNT" for idx
    using that empty_pools_ok(2) by (simp add: cached_clients_def empty_pools_def POOL_COUNT_def)
  then show "FindVisit (pool_index 3 i) ''h'' empty_pools = None"
    by (simp add: FindVisit_def TakeEntry_None)
  have idx: "pool_index 3 0 = 3" by code_simp
  have pool: "empty_pools ! 3 = None # replicate 31 None"
    by (simp add: empty_pools_def POOL_COUNT_def POOL_SIZE_def numeral_eq_Suc)
  show "StoreVisit (pool_index 3 0) pooled_client empty_pools = Some (3, one_pooled)"
    by (simp add: StoreVisit_def idx pool one_pooled_def)
  have "one_pooled ! 3 = Some pooled_client # replicate 31 None"
    by (simp add: one_pooled_def empty_pools_def POOL_COUNT_def)
  moreover have "TakeEntry ''h'' (Some pooled_client # es) = Some (pooled_client, None # es)" for es
    by (simp add: pooled_client_def)
  moreover have "None # replicate 31 None = replicate 32 (None :: HTTPClient option)" by (rule sym, simp add: numeral_eq_Suc)
  ultimately show "FindVisit (pool_index 3 0) ''h'' one_pooled = Some (pooled_client, 3, one_pooled[3 := replicate 32 None])"
    by (simp add: FindVisit_def idx)
qed

lemma sample_run:
  "pools cache_step (start_cache [3]) ((one_pooled[3 := replicate 32 None], 1), [C_HOLDING 3 ''h'' pooled_client])"
proof -
  have "pools cache_step (start_cache [3]) ((empty_pools, 0), [C_IDLE 3])" by (simp add: start_cache_def)
  from single_step [OF this cache_find] have "pools cache_step (start_cache [3]) ((empty_pools, 0), [C_FINDING 3 0 ''h''])" by simp
  also have "pools cache_step \<dots> ((empty_pools, 0), [C_FINDING 3 POOL_COUNT ''h''])"
    by (rule find_misses) (simp_all add: sample_visits)
  finally have run: "pools cache_step (start_cache [3]) ((empty_pools, 0), [C_FINDING 3 POOL_COUNT ''h''])" .
  have "cache_step (C_FINDING 3 POOL_COUNT ''h'') (empty_pools, 0) (C_HOLDING 3 ''h'' pooled_client) (empty_pools, 0 + 1)"
    by (rule cache_made [where u = 0]) (simp add: pooled_client_def)
  from single_step [OF run this]
  have "pools cache_step (start_cache [3]) ((empty_pools, 1), [C_HOLDING 3 ''h'' pooled_client])" by simp
  from single_step [OF this cache_store]
  have "pools cache_step (start_cache [3]) ((empty_pools, 1), [C_STORING 3 0 pooled_client])" by (simp add: pooled_client_def)
  from single_step [OF this cache_stored [OF _ sample_visits(2)]]
  have "pools cache_step (start_cache [3]) ((one_pooled, 1), [C_IDLE 3])" by (simp add: POOL_COUNT_def)
  from single_step [OF this cache_find]
  have "pools cache_step (start_cache [3]) ((one_pooled, 1), [C_FINDING 3 0 ''h''])" by simp
  from single_step [OF this cache_hit [OF _ sample_visits(3)]] show ?thesis by (simp add: POOL_COUNT_def)
qed

theorem connections_exclusive_witness:
  "pools cache_step (start_cache [3]) ((one_pooled[3 := replicate 32 None], 1), [C_HOLDING 3 ''h'' pooled_client]) \<and>
    distinct (map client_ref (cached_clients (one_pooled[3 := replicate 32 None]) @ [pooled_client]))"
  using sample_run connections_exclusive [OF _ sample_run] by (simp add: POOL_COUNT_def)

end
