(* ===== verification/S3_Handle_Upload.thy ===== *)
theory S3_Handle_Upload
  imports Thread_Pool
begin

text \<open>
  The upload of an S3 handle (src/src/s3/s3fs.cpp): threads write, finalize and abort through one
  handle, which hands out claims on the session and destroys it once it was aborted. The critical
  sections are functions; the condition variable is the number of notifications so far, and a
  thread that waits wakes up when this number has changed.
\<close>

section \<open>Critical sections\<close>

datatype UploadState = ACTIVE | ABORTING | ABORTED

text \<open>\<open>session_gone\<close>: the session was destroyed, or there was none.\<close>

record upload_control =
  upload_state :: UploadState
  active_upload_calls :: nat
  has_upload_session :: bool
  upload_signals :: nat
  session_gone :: bool

definition notify_upload :: "upload_control \<Rightarrow> upload_control" where
  "notify_upload h = h\<lparr>upload_signals := upload_signals h + 1\<rparr>"

text \<open>The claim, which is empty when there is no session to finalize.\<close>

definition ClaimUpload :: "bool \<Rightarrow> upload_control \<Rightarrow> (bool \<times> upload_control) res" where
  "ClaimUpload write h =
     (if upload_state h \<noteq> ACTIVE then
        (if write then Inl (Exn IOException ''Cannot write to an aborted S3 upload'' [])
         else Inl (Exn IOException ''Cannot finalize an aborted S3 upload'' []))
      else if \<not> has_upload_session h then
        (if write then Inl (Exn InternalException ''S3 write handle has no upload session'' []) else Inr (False, h))
      else Inr (True, h\<lparr>active_upload_calls := active_upload_calls h + 1\<rparr>))"

definition ReleaseUpload :: "upload_control \<Rightarrow> upload_control" where
  "ReleaseUpload h =
     (let h1 = h\<lparr>active_upload_calls := active_upload_calls h - 1\<rparr>
      in if active_upload_calls h1 = 0 then notify_upload h1 else h1)"

text \<open>\<open>AbortUpload\<close>: its first section, which decides whether this thread aborts, and its last one.\<close>

definition AbortUploadBegin :: "upload_control \<Rightarrow> (bool \<times> upload_control) outcome" where
  "AbortUploadBegin h =
     (if upload_state h = ABORTING then Blocked
      else if upload_state h = ABORTED \<or> \<not> has_upload_session h then Done (False, h)
      else Done (True, h\<lparr>upload_state := ABORTING\<rparr>))"

definition AbortUploadEnd :: "bool \<Rightarrow> upload_control \<Rightarrow> (bool \<times> upload_control) outcome" where
  "AbortUploadEnd terminal_abort h =
     (if \<not> terminal_abort then Done (False, notify_upload (h\<lparr>upload_state := ACTIVE\<rparr>))
      else if 0 < active_upload_calls h then Blocked
      else Done (True, notify_upload (h\<lparr>has_upload_session := False, upload_state := ABORTED\<rparr>)))"

definition DestroySession :: "upload_control \<Rightarrow> upload_control" where
  "DestroySession h = h\<lparr>session_gone := True\<rparr>"

lemmas upload_control_defs =
  ClaimUpload_def ReleaseUpload_def AbortUploadBegin_def AbortUploadEnd_def DestroySession_def notify_upload_def Let_def

section \<open>Threads\<close>

text \<open>
  A write or a finalization claims the session, uses it and releases the claim, whatever the session
  answered. An abort that throws is terminal; its error is thrown again at the end. The call of the session is one step
  here, with any result; S3_Handle_Session takes it step by step.
\<close>

datatype upload_thread =
  U_CLAIM bool
| U_USING
| U_ABORT
| U_ABORT_WAIT nat
| U_ABORTING
| U_END bool "exn option"
| U_END_WAIT nat "exn option"
| U_DETACHED "exn option"
| U_RETURNED "unit res"

definition rethrow :: "exn option \<Rightarrow> unit res" where
  "rethrow e = (case e of None \<Rightarrow> Inr () | Some e \<Rightarrow> Inl e)"

inductive upload_step :: "upload_thread \<Rightarrow> upload_control \<Rightarrow> upload_thread \<Rightarrow> upload_control \<Rightarrow> bool" where
  claim_fails: "ClaimUpload write h = Inl e \<Longrightarrow> upload_step (U_CLAIM write) h (U_RETURNED (Inl e)) h"
| claim_empty: "ClaimUpload write h = Inr (False, h') \<Longrightarrow> upload_step (U_CLAIM write) h (U_RETURNED (Inr ())) h'"
| claim_taken: "ClaimUpload write h = Inr (True, h') \<Longrightarrow> upload_step (U_CLAIM write) h U_USING h'"
| claim_released: "upload_step U_USING h (U_RETURNED r) (ReleaseUpload h)"
| abort_nothing: "AbortUploadBegin h = Done (False, h') \<Longrightarrow> upload_step U_ABORT h (U_RETURNED (Inr ())) h'"
| abort_begins: "AbortUploadBegin h = Done (True, h') \<Longrightarrow> upload_step U_ABORT h U_ABORTING h'"
| abort_waits: "AbortUploadBegin h = Blocked \<Longrightarrow> upload_step U_ABORT h (U_ABORT_WAIT (upload_signals h)) h"
| abort_wakes: "upload_signals h \<noteq> n \<Longrightarrow> upload_step (U_ABORT_WAIT n) h U_ABORT h"
| abort_called: "e = None \<or> terminal \<Longrightarrow> upload_step U_ABORTING h (U_END terminal e) h"
| end_active: "AbortUploadEnd terminal h = Done (False, h') \<Longrightarrow> upload_step (U_END terminal e) h (U_RETURNED (Inr ())) h'"
| end_detaches: "AbortUploadEnd terminal h = Done (True, h') \<Longrightarrow> upload_step (U_END terminal e) h (U_DETACHED e) h'"
| end_waits: "AbortUploadEnd terminal h = Blocked \<Longrightarrow> upload_step (U_END terminal e) h (U_END_WAIT (upload_signals h) e) h"
| end_wakes: "upload_signals h \<noteq> n \<Longrightarrow> upload_step (U_END_WAIT n e) h (U_END True e) h"
| session_destroyed: "upload_step (U_DETACHED e) h (U_RETURNED (rethrow e)) (DestroySession h)"

inductive_cases upload_stepE: "upload_step t h t' h'"

definition start_upload :: "bool \<Rightarrow> upload_control" where
  "start_upload write =
     \<lparr>upload_state = ACTIVE, active_upload_calls = 0, has_upload_session = write, upload_signals = 0, session_gone = \<not> write\<rparr>"

fun upload_call :: "upload_thread \<Rightarrow> bool" where
  "upload_call (U_CLAIM write) = True"
| "upload_call U_ABORT = True"
| "upload_call t = False"

section \<open>Who may touch the session\<close>

fun aborts :: "upload_thread \<Rightarrow> bool" where
  "aborts U_ABORTING = True"
| "aborts (U_END terminal e) = True"
| "aborts (U_END_WAIT n e) = True"
| "aborts (U_DETACHED e) = True"
| "aborts t = False"

definition abort_pending :: "upload_control \<Rightarrow> bool" where
  "abort_pending h \<longleftrightarrow> upload_state h = ABORTING \<or> \<not> has_upload_session h \<and> \<not> session_gone h"

abbreviation abort_running :: "upload_control \<Rightarrow> bool" where
  "abort_running h \<equiv> upload_state h = ABORTING \<and> has_upload_session h \<and> \<not> session_gone h"

fun upload_knows :: "upload_thread \<Rightarrow> upload_control \<Rightarrow> bool" where
  "upload_knows U_ABORTING h \<longleftrightarrow> abort_running h"
| "upload_knows (U_END terminal e) h \<longleftrightarrow> abort_running h"
| "upload_knows (U_END_WAIT n e) h \<longleftrightarrow>
     abort_running h \<and> n \<le> upload_signals h \<and> (n = upload_signals h \<longrightarrow> 0 < active_upload_calls h)"
| "upload_knows (U_DETACHED e) h \<longleftrightarrow> upload_state h = ABORTED \<and> \<not> has_upload_session h \<and> \<not> session_gone h"
| "upload_knows (U_ABORT_WAIT n) h \<longleftrightarrow> n \<le> upload_signals h \<and> (n = upload_signals h \<longrightarrow> upload_state h = ABORTING)"
| "upload_knows t h \<longleftrightarrow> True"

definition upload_ok :: "upload_thread \<Rightarrow> upload_control \<Rightarrow> bool" where
  "upload_ok t h \<longleftrightarrow> (has_upload_session h \<longrightarrow> \<not> session_gone h) \<and> upload_knows t h"

text \<open>The claims: as many as there are active calls, and only while there is a session.\<close>

abbreviation claims :: "upload_thread list \<Rightarrow> nat" where
  "claims ts \<equiv> length (filter (\<lambda>t. t = U_USING) ts)"

definition claims_inv :: "upload_control \<times> upload_thread list \<Rightarrow> bool" where
  "claims_inv c \<longleftrightarrow> active_upload_calls (fst c) = claims (snd c) \<and>
     (0 < active_upload_calls (fst c) \<longrightarrow> has_upload_session (fst c))"

lemma upload_step_claims:
  assumes "upload_step t h t' h'" "upload_ok t h" "0 < active_upload_calls h \<longrightarrow> has_upload_session h"
    and "t = U_USING \<longrightarrow> 0 < active_upload_calls h"
  shows "active_upload_calls h' + of_bool (t = U_USING) = active_upload_calls h + of_bool (t' = U_USING) \<and>
    (0 < active_upload_calls h' \<longrightarrow> has_upload_session h')"
  using assms by cases (auto simp: upload_control_defs upload_ok_def split: if_splits)

interpretation upload_abort: baton upload_step aborts abort_pending upload_ok
proof
  fix t h t' h' u
  assume step: "upload_step t h t' h'" and ok: "upload_ok t h"
  show "upload_ok t' h'"
    using step ok by cases (auto simp: upload_control_defs upload_ok_def split: if_splits)
  show "if aborts t = aborts t' then abort_pending h' = abort_pending h
      else abort_pending h = aborts t \<and> abort_pending h' = aborts t'"
    using step ok by cases (auto simp: upload_control_defs upload_ok_def abort_pending_def split: if_splits)
  assume other: "upload_ok u h" and one: "\<not> (aborts t \<and> aborts u)"
  show "upload_ok u h'"
    using step ok other one
    by cases (cases u; auto simp: upload_control_defs upload_ok_def split: if_splits)+
qed

definition upload_inv :: "upload_control \<times> upload_thread list \<Rightarrow> bool" where
  "upload_inv c \<longleftrightarrow> upload_abort.pool_inv c \<and> claims_inv c"

lemma upload_inv_step:
  assumes "pool upload_step c c'" "upload_inv c"
  shows "upload_inv c'"
proof -
  have inv: "upload_abort.pool_inv c" "claims_inv c" using assms(2) by (simp_all add: upload_inv_def)
  have "claims_inv c'"
    using assms(1)
  proof cases
    case (pool_step i ts h t' h')
    have ok: "upload_ok (ts ! i) h"
      using upload_abort.pool_inv_ok [of h ts i] inv(1) pool_step by simp
    have calls: "active_upload_calls h = claims ts" "0 < active_upload_calls h \<longrightarrow> has_upload_session h"
      using inv(2) pool_step(1) by (simp_all add: claims_inv_def)
    have using_claim: "ts ! i = U_USING \<longrightarrow> 0 < active_upload_calls h"
      using count_member [OF pool_step(3), of "\<lambda>t. t = U_USING"] calls(1) by simp
    from upload_step_claims [OF pool_step(4) ok calls(2) using_claim] calls(1)
      count_update [OF pool_step(3), of "\<lambda>t. t = U_USING" t']
    show ?thesis by (simp add: claims_inv_def pool_step(2))
  qed
  with upload_abort.pool_inv_step [OF assms(1) inv(1)] show ?thesis by (simp add: upload_inv_def)
qed

lemma upload_inv_start:
  assumes "list_all upload_call ts"
  shows "upload_inv (start_upload write, ts)"
proof -
  have call: "\<not> aborts t \<and> upload_ok t (start_upload write) \<and> t \<noteq> U_USING" if "t \<in> set ts" for t
    using assms that by (cases t) (auto simp: list_all_iff upload_ok_def start_upload_def)
  have "claims ts = 0" using call by (auto simp: filter_empty_conv)
  moreover have "upload_abort.pool_inv (start_upload write, ts)"
    by (rule upload_abort.pool_inv_init) (use call in \<open>auto simp: abort_pending_def start_upload_def\<close>)
  ultimately show ?thesis by (simp add: upload_inv_def claims_inv_def start_upload_def)
qed

lemma upload_inv_reachable:
  "pools upload_step (start_upload write, ts0) c \<Longrightarrow> list_all upload_call ts0 \<Longrightarrow> upload_inv c"
  by (induction rule: rtranclp_induct) (auto intro: upload_inv_start upload_inv_step)

section \<open>Progress\<close>

text \<open>Steps that are left, and how often a waiting thread still looks.\<close>

fun steps_left :: "upload_thread \<Rightarrow> nat" where
  "steps_left (U_CLAIM write) = 2"
| "steps_left U_USING = 1"
| "steps_left U_ABORT = 5"
| "steps_left (U_ABORT_WAIT n) = 5"
| "steps_left U_ABORTING = 4"
| "steps_left (U_END terminal e) = 3"
| "steps_left (U_END_WAIT n e) = 3"
| "steps_left (U_DETACHED e) = 1"
| "steps_left (U_RETURNED r) = 0"

fun looks_left :: "nat \<Rightarrow> upload_thread \<Rightarrow> nat" where
  "looks_left signals U_ABORT = 1"
| "looks_left signals (U_ABORT_WAIT n) = (if n = signals then 0 else 2)"
| "looks_left signals (U_END terminal e) = 1"
| "looks_left signals (U_END_WAIT n e) = (if n = signals then 0 else 2)"
| "looks_left signals t = 0"

lemma upload_step_lowers:
  "upload_step t h t' h' \<Longrightarrow> steps_left t' < steps_left t \<or>
     steps_left t' = steps_left t \<and> upload_signals h' = upload_signals h \<and>
     looks_left (upload_signals h) t' < looks_left (upload_signals h) t"
  by (erule upload_stepE) simp_all

lemma sum_update:
  "i < length ts \<Longrightarrow> sum_list (map f (ts[i := t])) + f (ts ! i) = sum_list (map f ts) + (f t :: nat)"
proof (induction ts arbitrary: i)
  case (Cons x ts)
  then show ?case by (cases i) auto
qed simp

text \<open>A thread that does not wait can step, and a thread that waits has another that can.\<close>

lemma waiting_cases:
  assumes "\<nexists>e. r = Raised e"
  obtains "r = Blocked" | h' where "r = Done (False, h')" | h' where "r = Done (True, h')"
proof (cases r)
  case (Done p)
  with that show ?thesis by (cases p; cases "fst p") auto
qed (use assms that in auto)

lemma thread_steps:
  assumes "\<And>n. t = U_ABORT_WAIT n \<Longrightarrow> upload_signals h \<noteq> n" "\<And>n e. t = U_END_WAIT n e \<Longrightarrow> upload_signals h \<noteq> n"
    and "\<nexists>r. t = U_RETURNED r"
  shows "\<exists>t' h'. upload_step t h t' h'"
proof (cases t)
  case (U_CLAIM w)
  consider e where "ClaimUpload w h = Inl e" | h' where "ClaimUpload w h = Inr (False, h')"
    | h' where "ClaimUpload w h = Inr (True, h')"
    by (cases "ClaimUpload w h") auto
  then show ?thesis unfolding U_CLAIM by cases (blast intro: claim_fails claim_empty claim_taken)+
next
  case U_ABORT
  consider "AbortUploadBegin h = Blocked" | h' where "AbortUploadBegin h = Done (False, h')" | h' where "AbortUploadBegin h = Done (True, h')"
    by (cases "AbortUploadBegin h" rule: waiting_cases) (simp add: AbortUploadBegin_def)
  then show ?thesis unfolding U_ABORT by cases (blast intro: abort_nothing abort_begins abort_waits)+
next
  case (U_END terminal e)
  consider "AbortUploadEnd terminal h = Blocked" | h' where "AbortUploadEnd terminal h = Done (False, h')"
    | h' where "AbortUploadEnd terminal h = Done (True, h')"
    by (cases "AbortUploadEnd terminal h" rule: waiting_cases) (simp add: AbortUploadEnd_def)
  then show ?thesis unfolding U_END by cases (blast intro: end_active end_detaches end_waits)+
qed (use assms in \<open>auto intro: claim_released abort_wakes abort_called end_wakes session_destroyed\<close>)

lemma pool_steps: "i < length ts \<Longrightarrow> upload_step (ts ! i) h t' h' \<Longrightarrow> \<exists>c'. pool upload_step (h, ts) c'"
  using pool_step by fast

lemma using_steps: "0 < claims ts \<Longrightarrow> \<exists>c'. pool upload_step (h, ts) c'"
proof -
  assume "0 < claims ts"
  then obtain t where "t \<in> set ts" "t = U_USING" by (metis (mono_tags, lifting) filter_False length_greater_0_conv)
  then obtain k where "k < length ts" "ts ! k = U_USING" by (metis in_set_conv_nth)
  then show ?thesis using pool_steps claim_released by metis
qed

lemma owner_steps:
  assumes "upload_inv (h, ts)" "k < length ts" "aborts (ts ! k)"
  shows "\<exists>c'. pool upload_step (h, ts) c'"
proof (cases "\<exists>n e. ts ! k = U_END_WAIT n e \<and> upload_signals h = n")
  case True
  have "upload_ok (ts ! k) h"
    using upload_abort.pool_inv_ok [OF _ assms(2)] assms(1) by (simp add: upload_inv_def)
  then have "0 < claims ts" using True assms(1) by (auto simp: upload_ok_def upload_inv_def claims_inv_def)
  then show ?thesis by (rule using_steps)
next
  case False
  have "\<exists>t' h'. upload_step (ts ! k) h t' h'"
    using assms(3) False by (intro thread_steps) auto
  then show ?thesis using pool_steps [OF assms(2)] by blast
qed

lemma upload_inv_progress:
  assumes "upload_inv (h, ts)" "\<nexists>c'. pool upload_step (h, ts) c'" "i < length ts"
  shows "\<exists>r. ts ! i = U_RETURNED r"
proof (rule ccontr)
  assume not: "\<nexists>r. ts ! i = U_RETURNED r"
  have "\<not> aborts (ts ! i)" using owner_steps [OF assms(1,3)] assms(2) by blast
  with not pool_steps [OF assms(3)] thread_steps [of "ts ! i" h] assms(2)
  obtain n where wait: "ts ! i = U_ABORT_WAIT n" "upload_signals h = n" by (metis aborts.simps(3))
  have "upload_ok (ts ! i) h"
    using upload_abort.pool_inv_ok [OF _ assms(3)] assms(1) by (simp add: upload_inv_def)
  then have "abort_pending h" using wait by (simp add: upload_ok_def abort_pending_def)
  then obtain k where "k < length ts" "aborts (ts ! k)"
    using upload_abort.pool_inv_owner [of h ts] assms(1) by (auto simp: upload_inv_def in_set_conv_nth)
  from owner_steps [OF assms(1) this] assms(2) show False by blast
qed

text \<open>A write that holds its claim while the handle is aborted, and the end of both.\<close>

lemma upload_moves:
  "pools upload_step c (h, ts) \<Longrightarrow> upload_step t h t' h' \<Longrightarrow> i < length ts \<Longrightarrow> t = ts ! i \<Longrightarrow> pools upload_step c (h', ts[i := t'])"
  by (rule pools_step [of upload_step c h ts i t' h']) simp_all

lemma sample_uploads:
  "\<exists>h h'. pools upload_step (start_upload True, [U_CLAIM True, U_ABORT]) (h, [U_USING, U_ABORTING]) \<and>
     pools upload_step (start_upload True, [U_CLAIM True, U_ABORT]) (h', [U_RETURNED (Inr ()), U_RETURNED (Inr ())])"
proof -
  let ?c = "(start_upload True, [U_CLAIM True, U_ABORT])"
  let ?h1 = "(start_upload True)\<lparr>active_upload_calls := 1\<rparr>"
  have "pools upload_step ?c ?c" by simp
  from upload_moves [OF this claim_taken, of True ?h1 0]
  have "pools upload_step ?c (?h1, [U_USING, U_ABORT])" by (simp add: ClaimUpload_def start_upload_def)
  from upload_moves [OF this abort_begins, of "?h1\<lparr>upload_state := ABORTING\<rparr>" 1]
  have using_session: "pools upload_step ?c (?h1\<lparr>upload_state := ABORTING\<rparr>, [U_USING, U_ABORTING])"
    by (simp add: AbortUploadBegin_def start_upload_def)
  from upload_moves [OF this claim_released [where r = "Inr ()"], of 0]
  have "pools upload_step ?c (ReleaseUpload (?h1\<lparr>upload_state := ABORTING\<rparr>), [U_RETURNED (Inr ()), U_ABORTING])" by simp
  from upload_moves [OF this abort_called [of None True], of 1]
  have "pools upload_step ?c (ReleaseUpload (?h1\<lparr>upload_state := ABORTING\<rparr>), [U_RETURNED (Inr ()), U_END True None])" by simp
  then obtain h2 where h2: "pools upload_step ?c (h2, [U_RETURNED (Inr ()), U_END True None])" "active_upload_calls h2 = 0"
    by (auto simp: ReleaseUpload_def notify_upload_def Let_def)
  have "upload_step (U_END True None) h2 (U_DETACHED None) (notify_upload (h2\<lparr>has_upload_session := False, upload_state := ABORTED\<rparr>))"
    by (rule end_detaches) (simp add: AbortUploadEnd_def h2)
  from upload_moves [OF h2(1) this, of 1]
  have "pools upload_step ?c (notify_upload (h2\<lparr>has_upload_session := False, upload_state := ABORTED\<rparr>), [U_RETURNED (Inr ()), U_DETACHED None])" by simp
  from upload_moves [OF this session_destroyed, of 1]
  have "pools upload_step ?c (DestroySession (notify_upload (h2\<lparr>has_upload_session := False, upload_state := ABORTED\<rparr>)),
      [U_RETURNED (Inr ()), U_RETURNED (Inr ())])" by (simp add: rethrow_def)
  with using_session show ?thesis by blast
qed

section \<open>Properties\<close>

text \<open>
  C11: The upload session outlives its users: whatever writes, finalizations and aborts of one
  handle run together, a session that a thread writes to, finalizes or aborts was not destroyed, at most one
  abort is under way, and the counter of the handle is the number of claims that are held.
\<close>

theorem upload_session_alive:
  assumes "list_all upload_call ts0" "pools upload_step (start_upload w, ts0) (h, ts)"
  shows "(U_USING \<in> set ts \<or> U_ABORTING \<in> set ts \<longrightarrow> has_upload_session h \<and> \<not> session_gone h) \<and>
    length (filter aborts ts) \<le> 1 \<and> active_upload_calls h = length (filter (\<lambda>t. t = U_USING) ts)"
proof -
  have inv: "upload_abort.pool_inv (h, ts)" "claims_inv (h, ts)"
    using upload_inv_reachable [OF assms(2,1)] by (simp_all add: upload_inv_def)
  have ok: "upload_ok t h" if "t \<in> set ts" for t
    using inv(1) that by (simp add: upload_abort.pool_inv_def)
  have "has_upload_session h" if "U_USING \<in> set ts"
    using inv(2) that by (auto simp: claims_inv_def filter_empty_conv)
  then have alive: "has_upload_session h \<and> \<not> session_gone h" if "U_USING \<in> set ts"
    using ok [of U_USING] that by (auto simp: upload_ok_def)
  have "abort_running h" if "U_ABORTING \<in> set ts"
    using ok [OF that] by (simp add: upload_ok_def)
  with alive inv show ?thesis
    by (auto simp: upload_abort.pool_inv_def claims_inv_def)
qed

theorem upload_session_alive_witness:
  "\<exists>h. pools upload_step (start_upload True, [U_CLAIM True, U_ABORT]) (h, [U_USING, U_ABORTING]) \<and>
     has_upload_session h \<and> \<not> session_gone h \<and> active_upload_calls h = 1"
proof -
  obtain h where run: "pools upload_step (start_upload True, [U_CLAIM True, U_ABORT]) (h, [U_USING, U_ABORTING])"
    using sample_uploads by blast
  with upload_session_alive [OF _ run] show ?thesis by auto
qed

end
