(* ===== verification/S3_Handle_Session.thy ===== *)
theory S3_Handle_Session
  imports S3_Handle_Upload S3_Upload_Progress
begin

text \<open>
  The threads of a handle (src/src/s3/s3fs.cpp) over its upload session
  (src/src/s3/s3_upload_session.cpp): a thread that holds a claim, or that aborts, is inside the session for as many steps as
  the call of the session takes there, and it waits there for what that call waits for.
\<close>

section \<open>Calls\<close>

text \<open>The calls of a handle, with what each of them asks the session for.\<close>

datatype handle_call = HANDLE_WRITE string nat | HANDLE_FINALIZE | HANDLE_ABORT

text \<open>A thread is its point in the handle, with the call of the session that it has not yet made.\<close>

type_synonym handle_thread = "upload_thread \<times> input option"
type_synonym handle_state = "upload_control \<times> handle_thread list \<times> system"

fun start_call :: "handle_call \<Rightarrow> handle_thread" where
  "start_call (HANDLE_WRITE data location) = (U_CLAIM True, Some (StartWrite data location))"
| "start_call HANDLE_FINALIZE = (U_CLAIM False, Some StartFinalize)"
| "start_call HANDLE_ABORT = (U_ABORT, Some StartAbort)"

definition start_handle :: "bool \<Rightarrow> handle_call list \<Rightarrow> handle_state" where
  "start_handle write cs = (start_upload write, map start_call cs, init_system)"

fun in_session :: "upload_thread \<Rightarrow> bool" where
  "in_session U_USING = True"
| "in_session U_ABORTING = True"
| "in_session t = False"

text \<open>
  A step outside the session is a step of the handle. Inside, the thread makes its call, takes the steps of the session, and
  goes on in the handle when the session is done with it, with any result of the call.
\<close>

inductive handle_step :: "upload_env \<Rightarrow> handle_state \<Rightarrow> handle_state \<Rightarrow> bool" for env where
  outside: "i < length ts \<Longrightarrow> ts ! i = (t, c) \<Longrightarrow> \<not> in_session t \<Longrightarrow> upload_step t h t' h' \<Longrightarrow>
    handle_step env (h, ts, \<sigma>) (h', ts[i := (t', c)], \<sigma>)"
| enter: "i < length ts \<Longrightarrow> ts ! i = (t, Some c) \<Longrightarrow> in_session t \<Longrightarrow> system_step env i c \<sigma> = Some \<sigma>' \<Longrightarrow>
    handle_step env (h, ts, \<sigma>) (h, ts[i := (t, None)], \<sigma>')"
| inside: "i < length ts \<Longrightarrow> ts ! i = (t, None) \<Longrightarrow> in_session t \<Longrightarrow> threads \<sigma> i \<noteq> Idle \<Longrightarrow> system_step env i c \<sigma> = Some \<sigma>' \<Longrightarrow>
    handle_step env (h, ts, \<sigma>) (h, ts, \<sigma>')"
| leave: "i < length ts \<Longrightarrow> ts ! i = (t, None) \<Longrightarrow> in_session t \<Longrightarrow> threads \<sigma> i = Idle \<Longrightarrow> upload_step t h t' h' \<Longrightarrow>
    handle_step env (h, ts, \<sigma>) (h', ts[i := (t', None)], \<sigma>)"

inductive_cases handle_stepE: "handle_step env (h, ts, \<sigma>) (h', ts', \<sigma>')"

abbreviation handle_runs :: "upload_env \<Rightarrow> handle_state \<Rightarrow> handle_state \<Rightarrow> bool" where
  "handle_runs env \<equiv> (handle_step env)\<^sup>*\<^sup>*"

section \<open>Both parts\<close>

text \<open>A run of the handle over its session is a run of the handle and a run of the session.\<close>

fun starts_call :: "input \<Rightarrow> bool" where
  "starts_call (StartWrite data location) = True"
| "starts_call StartFinalize = True"
| "starts_call StartAbort = True"
| "starts_call i = False"

definition handle_inv :: "upload_env \<Rightarrow> bool \<Rightarrow> handle_call list \<Rightarrow> handle_state \<Rightarrow> bool" where
  "handle_inv env write cs = (\<lambda>(h, ts, \<sigma>).
     pools upload_step (start_upload write, map (fst \<circ> start_call) cs) (h, map fst ts) \<and> reachable env \<sigma> \<and>
     (\<forall>i. threads \<sigma> i \<noteq> Idle \<longrightarrow> i < length ts \<and> in_session (fst (ts ! i)) \<and> snd (ts ! i) = None) \<and>
     (\<forall>t \<in> set ts. \<forall>c. snd t = Some c \<longrightarrow> starts_call c))"

lemma handle_inv_start: "handle_inv env write cs (start_handle write cs)"
proof -
  have "starts_call c" if "snd (start_call x) = Some c" for x c using that by (cases x) auto
  moreover have "threads init_system i = Idle" for i by (simp add: init_system_def)
  ultimately show ?thesis by (auto simp: handle_inv_def start_handle_def intro: reachable.initial)
qed

lemma system_step_threads: "system_step env i c \<sigma> = Some \<sigma>' \<Longrightarrow> \<exists>th. threads \<sigma>' = (threads \<sigma>)(i := th)"
  by (erule system_stepE) auto

lemma system_step_reachable: "system_step env i c \<sigma> = Some \<sigma>' \<Longrightarrow> reachable env \<sigma> \<Longrightarrow> reachable env \<sigma>'"
  by (blast intro: reachable.further step.intros)

lemma map_fst_same: "i < length ts \<Longrightarrow> ts ! i = (t, c) \<Longrightarrow> map fst (ts[i := (t, c')]) = map fst ts"
  by (simp add: map_update list_update_same_conv)

lemma handle_inv_step:
  assumes "handle_step env c c'" "handle_inv env write cs c"
  shows "handle_inv env write cs c'"
  using assms(1)
proof cases
  case (outside i ts t c h t' h' \<sigma>)
  have "pools upload_step (start_upload write, map (fst \<circ> start_call) cs) (h', (map fst ts)[i := t'])"
    by (rule pools_step [of _ _ h "map fst ts" i t' h'])
      (use assms(2) outside in \<open>auto simp: handle_inv_def\<close>)
  moreover have "threads \<sigma> i = Idle" using assms(2) outside by (auto simp: handle_inv_def)
  moreover have "(t, c) \<in> set ts" using outside(3,4) by (metis nth_mem)
  ultimately show ?thesis using assms(2) outside
    by (auto simp: handle_inv_def map_update nth_list_update dest!: set_update_subset_insert [THEN subsetD])
next
  case (enter i ts t c \<sigma> \<sigma>' h)
  then show ?thesis
    using assms(2) system_step_threads [OF enter(6)] system_step_reachable [OF enter(6)]
    by (auto simp: handle_inv_def map_fst_same nth_list_update split: if_splits dest!: set_update_subset_insert [THEN subsetD])
next
  case (inside i ts t \<sigma> c \<sigma>' h)
  then show ?thesis
    using assms(2) system_step_threads [OF inside(7)] system_step_reachable [OF inside(7)]
    by (auto simp: handle_inv_def split: if_splits)
next
  case (leave i ts t \<sigma> h t' h')
  have "pools upload_step (start_upload write, map (fst \<circ> start_call) cs) (h', (map fst ts)[i := t'])"
    by (rule pools_step [of _ _ h "map fst ts" i t' h'])
      (use assms(2) leave in \<open>auto simp: handle_inv_def\<close>)
  then show ?thesis using assms(2) leave
    by (auto simp: handle_inv_def map_update nth_list_update dest!: set_update_subset_insert [THEN subsetD])
qed

lemma handle_inv_runs: "handle_runs env (start_handle write cs) c \<Longrightarrow> handle_inv env write cs c"
  by (induction rule: rtranclp_induct) (auto intro: handle_inv_start handle_inv_step)

section \<open>Runs end\<close>

text \<open>Steps of a call that are left; a write is first prepared, which says how many parts it has.\<close>

fun owner_work :: "part_owner \<Rightarrow> nat" where
  "owner_work (WRITING ps) = 6 * length ps + 20"
| "owner_work FINISHING = 10"

fun work_left :: "thread \<Rightarrow> nat" where
  "work_left Idle = 0"
| "work_left (Prepare d l) = 0"
| "work_left (Parts ps) = 6 * length ps + 20"
| "work_left (Ensure p ow) = owner_work ow + 5"
| "work_left (Initializing p ow) = owner_work ow + 4"
| "work_left (CheckUpload p ow u) = owner_work ow + 3"
| "work_left (Putting p ow u) = owner_work ow + 2"
| "work_left (Storing p ow e) = owner_work ow + 1"
| "work_left Claimed = 6"
| "work_left (Decide b) = 17"
| "work_left (Single b) = 8"
| "work_left (ReserveFinal b) = 16"
| "work_left CheckFinal = 10"
| "work_left Snapshot = 9"
| "work_left (Completing m) = 8"
| "work_left Finishing = 1"
| "work_left (Failing d e) = 7"
| "work_left Releasing = 6"
| "work_left (Cleaning u) = 1"
| "work_left Awaiting = 1"
| "work_left Draining = 3"
| "work_left AbortAwaiting = 1"
| "work_left (AbortCleaning u) = 1"

fun preparing :: "thread \<Rightarrow> bool" where
  "preparing (Prepare d l) = True"
| "preparing th = False"

lemma owner_work_high: "n < 10 \<Longrightarrow> n < owner_work ow"
  by (cases ow) simp_all

lemma after_part_work: "work_left (after_part ow) = owner_work ow" "\<not> preparing (after_part ow)"
  by (cases ow; simp add: after_part_def)+

lemma thread_step_work:
  assumes "thread_step env i th s = Some (th', s', ev)" "th \<noteq> Idle"
  shows "\<not> preparing th' \<and> (preparing th \<or> work_left th' < work_left th)"
proof (cases "\<exists>d l. th = Prepare d l")
  case True
  with assms show ?thesis
    by (auto simp: thread_step_defs PrepareStep_def split: input.splits outcome.splits prod.splits)
next
  case False
  with assms show ?thesis
    by (cases th) (auto simp: owner_work_high thread_step_defs session_defs InitializingStep_def PuttingStep_def SingleStep_def
        CompletingStep_def ReserveFinalStep_def Let_def after_part_work
      split: input.splits outcome.splits prod.splits sum.splits list.splits if_splits option.splits
        ensure_next.splits release_next.splits abort_next.splits)
qed

definition sum_threads :: "(thread \<Rightarrow> nat) \<Rightarrow> nat \<Rightarrow> system \<Rightarrow> nat" where
  "sum_threads f n \<sigma> = (\<Sum>i<n. f (threads \<sigma> i))"

lemma sum_threads_update:
  assumes "i < n" "threads \<sigma>' = (threads \<sigma>)(i := th)"
  shows "sum_threads f n \<sigma>' + f (threads \<sigma> i) = sum_threads f n \<sigma> + f th"
proof -
  have "(\<Sum>j\<in>{..<n} - {i}. f (threads \<sigma>' j)) = (\<Sum>j\<in>{..<n} - {i}. f (threads \<sigma> j))"
    by (rule sum.cong) (simp_all add: assms(2))
  with assms show ?thesis
    by (simp add: sum_threads_def sum.remove [of "{..<n}" i])
qed

text \<open>Steps of the handle and calls to make, writes to prepare, steps of the session, and looks at the state.\<close>

fun handle_rank :: "handle_state \<Rightarrow> nat \<times> nat \<times> nat \<times> nat" where
  "handle_rank (h, ts, \<sigma>) =
     (sum_list (map (\<lambda>(t, c). steps_left t + of_bool (c \<noteq> None)) ts),
      sum_threads (\<lambda>th. of_bool (preparing th)) (length ts) \<sigma>, sum_threads work_left (length ts) \<sigma>,
      sum_list (map (\<lambda>(t, c). looks_left (upload_signals h) t) ts))"

abbreviation rank_order :: "((nat \<times> nat \<times> nat \<times> nat) \<times> (nat \<times> nat \<times> nat \<times> nat)) set" where
  "rank_order \<equiv> less_than <*lex*> less_than <*lex*> less_than <*lex*> less_than"

lemma handle_rank_lowers: "handle_step env c c' \<Longrightarrow> (handle_rank c', handle_rank c) \<in> rank_order"
proof (induction rule: handle_step.induct)
  case (outside i ts t c h t' h' \<sigma>)
  show ?case
    using upload_step_lowers [OF outside(4)] outside(2)
      sum_update [OF outside(1), of "\<lambda>(t, c). steps_left t + of_bool (c \<noteq> None)" "(t', c)"]
      sum_update [OF outside(1), of "\<lambda>(t, c). looks_left (upload_signals h) t" "(t', c)"]
    by auto
next
  case (enter i ts t c \<sigma> \<sigma>' h)
  show ?case
    using enter(2) sum_update [OF enter(1), of "\<lambda>(t, c). steps_left t + of_bool (c \<noteq> None)" "(t, None)"]
    by auto
next
  case (inside i ts t \<sigma> c \<sigma>' h)
  obtain th where th: "threads \<sigma>' = (threads \<sigma>)(i := th)"
    "\<not> preparing th \<and> (preparing (threads \<sigma> i) \<or> work_left th < work_left (threads \<sigma> i))"
    using thread_step_work inside(4,5) by (elim system_stepE) force
  show ?case
    using th(2) sum_threads_update [OF inside(1) th(1), of "\<lambda>th. of_bool (preparing th)"]
      sum_threads_update [OF inside(1) th(1), of work_left]
    by (cases "preparing (threads \<sigma> i)") auto
next
  case (leave i ts t \<sigma> h t' h')
  show ?case
    using upload_step_lowers [OF leave(5)] leave(2,3)
      sum_update [OF leave(1), of "\<lambda>(t, c). steps_left t + of_bool (c \<noteq> None)" "(t', None)"]
      sum_update [OF leave(1), of "\<lambda>(t, c). looks_left (upload_signals h) t" "(t', None)"]
    by auto
qed

lemma handle_runs_finite: "\<not> (\<exists>f. f 0 = c \<and> (\<forall>n. handle_step env (f n) (f (Suc n))))"
proof
  assume "\<exists>f. f 0 = c \<and> (\<forall>n. handle_step env (f n) (f (Suc n)))"
  then obtain f where "\<forall>n. (f (Suc n), f n) \<in> inv_image rank_order handle_rank"
    using handle_rank_lowers by (metis in_inv_image)
  moreover have "wf (inv_image rank_order handle_rank)"
    by (intro wf_inv_image wf_lex_prod wf_less_than)
  ultimately show False by (metis wf_iff_no_infinite_down_chain)
qed

section \<open>A run that cannot go on\<close>

text \<open>A write that waits in the session for the bytes before its location.\<close>

definition waits_behind_gap :: "system \<Rightarrow> thread \<Rightarrow> bool" where
  "waits_behind_gap \<sigma> th \<longleftrightarrow>
     (\<exists>data location. th = Prepare data location \<and> next_offset (session \<sigma>) < location \<and> primary_error (session \<sigma>) = None)"

text \<open>When no thread is inside a call, every call of the session begins at once.\<close>

lemma idle_roles: "(\<And>i. threads \<sigma> i = Idle) \<Longrightarrow> r \<noteq> R_NONE \<Longrightarrow> role_count (threads \<sigma>) r = 0"
  by (simp add: role_count_def)

lemma idle_session_starts:
  assumes "reachable env \<sigma>" "\<And>i. threads \<sigma> i = Idle" "starts_call c"
  shows "\<exists>\<sigma>'. system_step env i c \<sigma> = Some \<sigma>'"
proof -
  have "control_inv (session \<sigma>) (role_count (threads \<sigma>))"
    using reachable_control [OF assms(1)] by (simp add: control_ok_def)
  with idle_roles [of \<sigma>, OF assms(2)]
  have idle: "primary_error (session \<sigma>) = None \<or> cleanup_state (session \<sigma>) = COMPLETE"
    "lifecycle_state (session \<sigma>) \<noteq> FINALIZING" "lifecycle_state (session \<sigma>) \<noteq> ABORTING"
    by (cases "cleanup_state (session \<sigma>)"; simp add: control_inv_def holders_def split: if_splits)+
  have "thread_step env c Idle (session \<sigma>) \<noteq> None"
    using assms(3) idle
    by (cases c) (auto simp: thread_step_defs session_defs)
  with assms(2) show ?thesis by (auto simp: system_step_def)
qed

lemma stuck_handle:
  assumes "handle_inv env write cs (h, ts, \<sigma>)" "upload_config_ok (env_config env)" "\<nexists>c. handle_step env (h, ts, \<sigma>) c"
    and "\<And>i. \<not> waits_behind_gap \<sigma> (threads \<sigma> i)" "t \<in> set ts"
  shows "\<exists>r. fst t = U_RETURNED r"
proof -
  have pools: "pools upload_step (start_upload write, map (fst \<circ> start_call) cs) (h, map fst ts)"
    and reach: "reachable env \<sigma>"
    and busy: "threads \<sigma> i \<noteq> Idle \<Longrightarrow> i < length ts \<and> in_session (fst (ts ! i)) \<and> snd (ts ! i) = None"
    and calls: "t \<in> set ts \<Longrightarrow> snd t = Some c \<Longrightarrow> starts_call c" for i t c
    using assms(1) by (auto simp: handle_inv_def)
  have idle: "threads \<sigma> i = Idle" for i
  proof (rule ccontr)
    assume "threads \<sigma> i \<noteq> Idle"
    then obtain u c \<sigma>' where u: "threads \<sigma> u \<noteq> Idle" "system_step env u c \<sigma> = Some \<sigma>'"
      using session_unstuck [OF reach assms(2)] assms(4) unfolding waits_behind_gap_def by (metis not_le)
    with handle_step.inside [of u ts "fst (ts ! u)" \<sigma> env c \<sigma>' h] busy [of u] assms(3) show False
      by (metis prod.collapse)
  qed
  have outside: "\<not> in_session (fst (ts ! i))" if i: "i < length ts" for i
  proof
    assume t: "in_session (fst (ts ! i))"
    show False
    proof (cases "snd (ts ! i)")
      case None
      have "\<exists>t' h'. upload_step (fst (ts ! i)) h t' h'"
        using t by (intro thread_steps) auto
      with handle_step.leave [OF i _ t idle] None assms(3) show False by (metis prod.collapse)
    next
      case (Some c)
      then have "starts_call c" using calls i nth_mem by blast
      with idle_session_starts [OF reach idle, where i = i] handle_step.enter [OF i _ t] Some assms(3)
      show False by (metis prod.collapse)
    qed
  qed
  have "\<nexists>c. pool upload_step (h, map fst ts) c"
  proof
    assume "\<exists>c. pool upload_step (h, map fst ts) c"
    then obtain i t' h' where "i < length ts" "upload_step (fst (ts ! i)) h t' h'" by (auto elim: pool_elim)
    with handle_step.outside [of i ts] outside assms(3) show False by (metis prod.collapse)
  qed
  moreover have "list_all upload_call (map (fst \<circ> start_call) cs)"
    by (simp add: list_all_iff) (metis handle_call.exhaust start_call.simps fst_conv upload_call.simps(1,2))
  then have "upload_inv (h, map fst ts)" using upload_inv_reachable [OF pools] by blast
  moreover obtain i where "i < length ts" "t = ts ! i" using assms(5) by (metis in_set_conv_nth)
  ultimately show ?thesis using upload_inv_progress [of h "map fst ts" i] by simp
qed

lemma waiting_thread:
  "handle_inv env write cs (h, ts, \<sigma>) \<Longrightarrow> waits_behind_gap \<sigma> (threads \<sigma> i) \<Longrightarrow> i < length ts"
  by (auto simp: handle_inv_def waits_behind_gap_def)

section \<open>Properties\<close>

text \<open>
  C12: Every call returns, unless a write comes too early. No run of the writes, finalizations and aborts of a handle goes
  on for ever, with the calls of the session taken step by step, whatever the server answers and whatever an abort of the session returns; and under
  limits of the sizes that the settings allow, when no thread can go on, then either all calls have
  returned, so no abort waits for a notification that was missed or for claims that nobody releases, or some write
  waits inside the session for bytes before its location that no write has brought. (That write then holds up an abort as well.)
\<close>

theorem upload_calls_return:
  assumes "upload_config_ok (env_config env)"
  shows "\<not> (\<exists>f. f 0 = start_handle write cs \<and> (\<forall>n. handle_step env (f n) (f (Suc n)))) \<and>
    (\<forall>h ts \<sigma>. handle_runs env (start_handle write cs) (h, ts, \<sigma>) \<and> (\<nexists>c. handle_step env (h, ts, \<sigma>) c) \<longrightarrow>
       (\<forall>t \<in> set ts. \<exists>r. fst t = U_RETURNED r) \<or>
       (\<exists>i < length ts. waits_behind_gap \<sigma> (threads \<sigma> i)))"
proof (intro conjI allI impI)
  fix h ts \<sigma>
  assume run: "handle_runs env (start_handle write cs) (h, ts, \<sigma>) \<and> (\<nexists>c. handle_step env (h, ts, \<sigma>) c)"
  then have inv: "handle_inv env write cs (h, ts, \<sigma>)" using handle_inv_runs by blast
  show "(\<forall>t \<in> set ts. \<exists>r. fst t = U_RETURNED r) \<or>
      (\<exists>i < length ts. waits_behind_gap \<sigma> (threads \<sigma> i))"
    using stuck_handle [OF inv assms] run waiting_thread [OF inv] by blast
qed (rule handle_runs_finite)

text \<open>A write to the start of the file and an abort: from every state they can go on to one where both have returned.\<close>

lemma prepare_begins:
  assumes "system_step env i c \<sigma> = Some \<sigma>'" "threads \<sigma>' j = Prepare d l" "threads \<sigma> j \<noteq> Prepare d l"
  shows "c = StartWrite d l"
  using assms(1)
proof (rule system_stepE)
  fix th s ev
  assume run: "thread_step env c (threads \<sigma> i) (session \<sigma>) = Some (th, s, ev)"
    and "\<sigma>' = (observe ev \<sigma>)\<lparr>session := s, threads := (threads \<sigma>)(i := th)\<rparr>"
  with assms(2,3) have th: "th = Prepare d l" by (simp split: if_splits)
  then have "threads \<sigma> i = Idle" using thread_step_work [OF run] by auto
  with run th show ?thesis
    by (auto simp: thread_step_defs session_defs split: input.splits if_splits LifecycleState.splits)
qed

definition writes_first :: "handle_state \<Rightarrow> bool" where
  "writes_first = (\<lambda>(h, ts, \<sigma>).
     (\<forall>i d l. threads \<sigma> i = Prepare d l \<longrightarrow> l = 0) \<and> (\<forall>t \<in> set ts. \<forall>d l. snd t = Some (StartWrite d l) \<longrightarrow> l = 0))"

lemma writes_first_step: "handle_step env c c' \<Longrightarrow> writes_first c \<Longrightarrow> writes_first c'"
proof (induction rule: handle_step.induct)
  case (outside i ts t c h t' h' \<sigma>)
  have "(t, c) \<in> set ts" using outside(1,2) by (metis nth_mem)
  with outside show ?case by (auto simp: writes_first_def dest!: set_update_subset_insert [THEN subsetD])
next
  case (enter i ts t c \<sigma> \<sigma>' h)
  have "(t, Some c) \<in> set ts" using enter(1,2) by (metis nth_mem)
  then have first: "c = StartWrite d l \<Longrightarrow> l = 0" for d l using enter(5) by (auto simp: writes_first_def)
  have "l = 0" if "threads \<sigma>' j = Prepare d l" for j d l
    using prepare_begins [OF enter(4) that] first enter(5) unfolding writes_first_def by blast
  moreover have "l = 0" if "t' \<in> set (ts[i := (t, None)])" "snd t' = Some (StartWrite d l)" for t' d l
    using that enter(5) by (auto simp: writes_first_def dest!: set_update_subset_insert [THEN subsetD])
  ultimately show ?case by (simp add: writes_first_def)
next
  case (inside i ts t \<sigma> c \<sigma>' h)
  obtain th where th: "threads \<sigma>' = (threads \<sigma>)(i := th)" "\<not> preparing th"
    using thread_step_work inside(4,5) by (elim system_stepE) force
  then have "threads \<sigma>' j = Prepare d l \<Longrightarrow> threads \<sigma> j = Prepare d l" for j d l by (auto split: if_splits)
  with inside(6) show ?case unfolding writes_first_def by blast
next
  case (leave i ts t \<sigma> h t' h')
  then show ?case by (auto simp: writes_first_def dest!: set_update_subset_insert [THEN subsetD])
qed

lemma writes_first_runs: "handle_runs env c c' \<Longrightarrow> writes_first c \<Longrightarrow> writes_first c'"
  by (induction rule: rtranclp_induct) (auto intro: writes_first_step)

lemma runs_to_end: "\<exists>c'. handle_runs env c c' \<and> (\<nexists>c''. handle_step env c' c'')"
proof -
  have "wf (inv_image rank_order handle_rank)"
    by (intro wf_inv_image wf_lex_prod wf_less_than)
  from wfE_min [OF this, of c "{c'. handle_runs env c c'}"] obtain c' where
    "handle_runs env c c'" "\<And>c''. (handle_rank c'', handle_rank c') \<in> rank_order \<Longrightarrow> \<not> handle_runs env c c''"
    by (auto simp: in_inv_image)
  then show ?thesis using handle_rank_lowers by (meson rtranclp.rtrancl_into_rtrancl)
qed

lemma handle_runs_length: "handle_runs env (h, ts, \<sigma>) (h', ts', \<sigma>') \<Longrightarrow> length ts' = length ts"
proof (induction "(h', ts', \<sigma>')" arbitrary: h' ts' \<sigma>' rule: rtranclp_induct)
  case (step c)
  then show ?case by (cases c) (auto elim: handle_stepE)
qed simp

theorem upload_calls_return_witness:
  "\<exists>h ts \<sigma>. handle_runs (upload_env_of 5242880) (start_handle True [HANDLE_WRITE ''a'' 0, HANDLE_ABORT]) (h, ts, \<sigma>) \<and>
     length ts = 2 \<and> (\<forall>t \<in> set ts. \<exists>r. fst t = U_RETURNED r)"
proof -
  let ?env = "upload_env_of 5242880" and ?cs = "[HANDLE_WRITE ''a'' 0, HANDLE_ABORT]"
  obtain h ts \<sigma> where run: "handle_runs ?env (start_handle True ?cs) (h, ts, \<sigma>)" "\<nexists>c. handle_step ?env (h, ts, \<sigma>) c"
    using runs_to_end by (metis surj_pair)
  have "writes_first (start_handle True ?cs)"
    by (simp add: writes_first_def start_handle_def init_system_def)
  then have "\<not> waits_behind_gap \<sigma> (threads \<sigma> i)" for i
    using writes_first_runs [OF run(1)] by (auto simp: writes_first_def waits_behind_gap_def)
  moreover have "upload_config_ok (env_config ?env)"
    by (simp add: upload_config_ok_def upload_env_of_def)
  moreover have "length ts = 2" using handle_runs_length run(1) by (force simp: start_handle_def)
  ultimately have "\<forall>t \<in> set ts. \<exists>r. fst t = U_RETURNED r" "length ts = 2"
    using conjunct2 [OF upload_calls_return [of ?env True ?cs], rule_format, OF _ conjI [OF run]] by blast+
  with run(1) show ?thesis by blast
qed

text \<open>
  A write that waits for earlier bytes is not woken by an abort, and the abort waits for the write: the writes that could bring the
  bytes are refused from then on, so neither returns.
\<close>

definition hung_abort :: "system \<Rightarrow> bool" where
  "hung_abort \<sigma> \<longleftrightarrow>
     threads \<sigma> = (\<lambda>t. Idle)(0 := Prepare ''a'' 5, 1 := Draining) \<and> lifecycle_state (session \<sigma>) = ABORTING \<and>
     active_operations (session \<sigma>) = 1 \<and> next_offset (session \<sigma>) = 0 \<and> primary_error (session \<sigma>) = None"

lemma abort_behind_gap:
  "\<exists>\<sigma>. run_steps env [(0, StartWrite ''a'' 5), (1, StartAbort)] init_system = Some \<sigma> \<and> hung_abort \<sigma>"
  "hung_abort \<sigma> \<Longrightarrow> step env \<sigma> \<sigma>' \<Longrightarrow> hung_abort \<sigma>'"
proof -
  show "\<exists>\<sigma>. run_steps env [(0, StartWrite ''a'' 5), (1, StartAbort)] init_system = Some \<sigma> \<and> hung_abort \<sigma>"
    by (simp add: hung_abort_def system_step_def init_system_def init_session_def thread_step_defs session_defs)
  assume hung: "hung_abort \<sigma>" and "step env \<sigma> \<sigma>'"
  then obtain t i where "system_step env t i \<sigma> = Some \<sigma>'" by (auto elim: stepE)
  then obtain th s ev where run: "thread_step env i (threads \<sigma> t) (session \<sigma>) = Some (th, s, ev)"
    and \<sigma>': "\<sigma>' = (observe ev \<sigma>)\<lparr>session := s, threads := (threads \<sigma>)(t := th)\<rparr>" by (rule system_stepE)
  consider "t = 0" | "t = 1" | "t \<noteq> 0" "t \<noteq> 1" by blast
  then show "hung_abort \<sigma>'"
  proof cases
    case 1
    with hung run show ?thesis
      by (auto simp: hung_abort_def thread_step_defs PrepareStep_def PrepareWrite_def split: input.splits)
  next
    case 2
    with hung run show ?thesis by (auto simp: hung_abort_def thread_step_defs session_defs split: input.splits)
  next
    case 3
    with hung have "threads \<sigma> t = Idle" by (simp add: hung_abort_def)
    with hung run have "th = Idle" "s = session \<sigma>"
      by (auto simp: hung_abort_def thread_step_defs session_defs split: input.splits)
    with hung 3 \<sigma>' show ?thesis by (auto simp: hung_abort_def)
  qed
qed

end
