(* ===== verification/S3_Handle.thy ===== *)
theory S3_Handle
  imports Http_Open S3_Executor S3_Handle_Upload S3_Settings
begin

text \<open>
  S3 files (src/src/s3/s3fs.cpp): how a handle is made, what it overrides of an HTTP handle when it
  is opened, and writing, finalizing and aborting through it. The world of a handle holds the session of its
  requests; while a handle is made and opened no other thread knows it.
\<close>

section \<open>The handle\<close>

record S3FileHandle =
  s3_http :: HTTPFileHandle
  s3_upload :: upload_control
  s3_upload_config :: "S3UploadConfig option"

record S3ExtendedInfo = ExtendedInfo +
  info_s3_region :: "string option"

definition session_params :: "'w s3_world \<Rightarrow> HTTPFSParams" where
  "session_params w = snapshot_params (current_snapshot (world_session w))"

text \<open>\<open>SetRegion\<close> of a handle: the change of the region of its session.\<close>

definition SetHandleRegion :: "duckdb_api \<Rightarrow> string \<Rightarrow> 'w s3_world \<Rightarrow> 'w s3_world res" where
  "SetHandleRegion D new_region w =
     (case ChangeRegion D new_region w of
        (Inl e, w') \<Rightarrow> Inl (error_exn e)
      | (Inr u, w') \<Rightarrow> Inr w')"

text \<open>
  The session that the constructor leaves: the snapshot of the HTTP handle was replaced by an S3 one,
  whose clients are others, so that the session is in its second generation.
\<close>

definition s3_handle_session :: "nat \<Rightarrow> HTTPFSParams \<Rightarrow> S3AuthParams \<Rightarrow> string \<Rightarrow> s3_session" where
  "s3_handle_session fresh params auth path =
     \<lparr>current_snapshot =
        \<lparr>snapshot_id = fresh, snapshot_type = S3_SNAPSHOT, snapshot_params = params\<lparr>pre_merged_headers := True\<rparr>,
         snapshot_auth = auth, refresh_path = path, client_context = False, credential_refresh_enabled = True,
         region_redirected = False, credential_generation = 0\<rparr>,
      client_generation = 1, idle_clients = []\<rparr>"

text \<open>The constructor; a handle for writing has an upload session from the start.\<close>

definition NewS3FileHandle ::
  "duckdb_api \<Rightarrow> string \<Rightarrow> FileOpenFlags \<Rightarrow> S3ExtendedInfo option \<Rightarrow> HTTPFSParams \<Rightarrow> S3AuthParams \<Rightarrow> S3UploadConfig option \<Rightarrow>
     nat \<Rightarrow> 'w \<Rightarrow> (S3FileHandle \<times> 'w s3_world) res" where
  "NewS3FileHandle D path flags info params auth upload_config fresh others =
     (let h = (CreateHandle path (OpenFlags.truncate flags) (map_option ExtendedInfo.truncate info))
                \<lparr>auto_fallback_to_full_file_download := False\<rparr>;
          w = \<lparr>world_session = s3_handle_session fresh params auth path, world_next = fresh + 1, world_rest = others\<rparr>
      in if open_for_reading flags \<and> open_for_writing flags then
           Inl (Exn NotImplementedException ''Cannot open an HTTP file for both reading and writing'' [])
         else if open_for_appending flags then
           Inl (Exn NotImplementedException ''Cannot open an HTTP file for appending'' [])
         else
           bind_res (case Option.bind info info_s3_region of None \<Rightarrow> Inr w | Some r \<Rightarrow> SetHandleRegion D r w) (\<lambda>w1.
             Inr (\<lparr>s3_http = h, s3_upload = start_upload (open_for_writing flags),
                   s3_upload_config = (if open_for_writing flags then upload_config else None)\<rparr>, w1)))"

text \<open>
  \<open>CreateHandle\<close> of the file system: a path that cannot be resolved fails here. The settings, the
  parameters of HTTP and the configuration of uploads are read from the opener.
\<close>

definition CreateS3Handle ::
  "duckdb_api \<Rightarrow> 'v S3KeyValueReader option \<Rightarrow> (string \<Rightarrow> HTTPFSParams res) \<Rightarrow> S3UploadConfig res \<Rightarrow> string \<Rightarrow> FileOpenFlags \<Rightarrow>
     S3ExtendedInfo option \<Rightarrow> nat \<Rightarrow> 'w \<Rightarrow> (S3FileHandle \<times> 'w s3_world) res" where
  "CreateS3Handle D opener initialize_parameters read_upload_config path flags info fresh others =
     bind_res (Resolve D path (ReadFrom D opener path)) (\<lambda>(url, auth).
     bind_res (initialize_parameters path) (\<lambda>params.
     bind_res (if open_for_writing flags then map_sum id Some read_upload_config else Inr None) (\<lambda>upload_config.
       NewS3FileHandle D path flags info params auth upload_config fresh others)))"

section \<open>What a handle overrides\<close>

definition S3BuildReadConfig :: "duckdb_api \<Rightarrow> HTTPFileHandle \<Rightarrow> 'w s3_world \<Rightarrow> HTTPReadConfig" where
  "S3BuildReadConfig D h w =
     (let result = BuildReadConfig D (session_params w) h
      in if \<not> s3_version_id_pinning (session_params w) then result
         else if version_id h \<noteq> []
         then result\<lparr>read_condition := \<lparr>condition_type = READ_S3_VERSION_ID, condition_value = version_id h\<rparr>\<rparr>
         else result)"

definition S3InitializeFromCacheEntry ::
  "duckdb_api \<Rightarrow> HTTPMetadataCacheEntry \<Rightarrow> HTTPFileHandle \<Rightarrow> 'w s3_world \<Rightarrow> (HTTPFileHandle \<times> 'w s3_world) res" where
  "S3InitializeFromCacheEntry D cache_entry h w =
     (let h1 = InitializeFromCacheEntry cache_entry h
      in bind_res (case map_of (entry_properties cache_entry) ''s3_region'' of
             None \<Rightarrow> Inr w
           | Some r \<Rightarrow> SetHandleRegion D r w) (\<lambda>w1. Inr (h1, w1)))"

definition S3GetCacheEntry :: "HTTPFileHandle \<Rightarrow> 'w s3_world \<Rightarrow> HTTPMetadataCacheEntry" where
  "S3GetCacheEntry h w =
     (let result = GetCacheEntry h; auth_region = session_region (current_snapshot (world_session w))
      in if auth_region \<noteq> []
         then result\<lparr>entry_properties := (''s3_region'', auth_region) # entry_properties result\<rparr> else result)"

definition s3_class :: "duckdb_api \<Rightarrow> 'w s3_world handle_class" where
  "s3_class D =
     \<lparr>class_params = session_params, class_read_config = S3BuildReadConfig D,
      class_load_entry = S3InitializeFromCacheEntry D, class_save_entry = S3GetCacheEntry\<rparr>"

text \<open>
  \<open>CreateRequestSnapshot\<close>: other parameters, and all the rest of the snapshot that the session holds.
\<close>

definition CreateS3RequestSnapshot :: "nat \<Rightarrow> HTTPFSParams \<Rightarrow> S3RequestSnapshot \<Rightarrow> S3RequestSnapshot" where
  "CreateS3RequestSnapshot fresh params snapshot =
     \<lparr>snapshot_id = fresh, snapshot_type = S3_SNAPSHOT, snapshot_params = params, snapshot_auth = snapshot_auth snapshot,
      refresh_path = refresh_path snapshot, client_context = client_context snapshot,
      credential_refresh_enabled = credential_refresh_enabled snapshot,
      region_redirected = region_redirected snapshot, credential_generation = credential_generation snapshot\<rparr>"

text \<open>
  \<open>Initialize\<close> first lets the session refresh its credentials, when there is a context and the setting allows it.
\<close>

definition EnableRefresh :: "bool \<Rightarrow> bool option \<Rightarrow> 'w s3_world \<Rightarrow> 'w s3_world" where
  "EnableRefresh has_context refresh_setting w =
     (let refresh_enabled = CredentialRefreshEnabled refresh_setting;
          snapshot = captured_snapshot (Capture (world_session w));
          replacement = (CreateS3RequestSnapshot (world_next w) (CreateRequestParams snapshot) snapshot)
            \<lparr>client_context := has_context \<and> refresh_enabled, credential_refresh_enabled := refresh_enabled\<rparr>
      in w\<lparr>world_session := snd (TryPublish (world_session w) snapshot replacement), world_next := world_next w + 1\<rparr>)"

definition S3Initialize ::
  "'w s3_world open_env \<Rightarrow> file_opener \<Rightarrow> bool option \<Rightarrow> HTTPFileHandle \<Rightarrow> (HTTPFileHandle, 'w s3_world caches) io" where
  "S3Initialize E opener refresh_setting h sw =
     bind_io (put_rest (EnableRefresh (opener_context opener) refresh_setting (rest sw))) (\<lambda>_. Initialize E opener h) sw"

section \<open>The file system\<close>

definition S3CanHandleFile :: "duckdb_api \<Rightarrow> string option list option \<Rightarrow> string \<Rightarrow> bool" where
  "S3CanHandleFile D scheme_aliases fpath =
     (if TryMatchUrl D fpath \<noteq> None then True
      else if str_find ''://'' fpath = None then False
      else TryMatchUrlAlias D fpath (GetSchemeAliasPrefixes D scheme_aliases) \<noteq> None)"

text \<open>
  The operations that hold a claim on the upload while they run. \<open>session_write\<close> is \<open>Write\<close> of the
  session, whose claim \<open>finish\<close> ends; the claim on the handle is released however the operation ends.
\<close>

definition with_claim ::
  "bool \<Rightarrow> (S3FileHandle \<Rightarrow> 'w \<Rightarrow> 'a res \<times> S3FileHandle \<times> 'w) \<Rightarrow> 'a \<Rightarrow> S3FileHandle \<Rightarrow> 'w \<Rightarrow> 'a res \<times> S3FileHandle \<times> 'w" where
  "with_claim for_write body unclaimed h w =
     (case ClaimUpload for_write (s3_upload h) of
        Inl e \<Rightarrow> (Inl e, h, w)
      | Inr (False, u) \<Rightarrow> (Inr unclaimed, h\<lparr>s3_upload := u\<rparr>, w)
      | Inr (True, u) \<Rightarrow>
          let (r, h1, w1) = body (h\<lparr>s3_upload := u\<rparr>) w
          in (r, h1\<lparr>s3_upload := ReleaseUpload (s3_upload h1)\<rparr>, w1))"

definition after_write :: "u64 \<Rightarrow> HTTPFileHandle \<Rightarrow> HTTPFileHandle" where
  "after_write write_end h =
     h\<lparr>file_offset := max (file_offset h) write_end, handle_length := max (handle_length h) write_end\<rparr>"

definition S3Write ::
  "(string \<Rightarrow> u64 \<Rightarrow> 'w \<Rightarrow> 'c res \<times> 'w) \<Rightarrow> ('c \<Rightarrow> 'w \<Rightarrow> unit res \<times> 'w) \<Rightarrow> string \<Rightarrow> int \<Rightarrow> u64 \<Rightarrow> S3FileHandle \<Rightarrow> 'w \<Rightarrow>
     unit res \<times> S3FileHandle \<times> 'w" where
  "S3Write session_write finish buffer nr_bytes location h w =
     (if \<not> open_for_writing (handle_flags (s3_http h)) then
        (Inl (Exn InternalException ''Write called on file not opened in write mode'' []), h, w)
      else if nr_bytes < 0 then (Inl (Exn InternalException ''S3 write size cannot be negative'' []), h, w)
      else with_claim True (\<lambda>h w.
        case session_write (take (nat nr_bytes) buffer) location w of
          (Inl e, w1) \<Rightarrow> (Inl e, h, w1)
        | (Inr claim, w1) \<Rightarrow>
            let h1 = h\<lparr>s3_http := after_write (location + word_of_int nr_bytes) (s3_http h)\<rparr>;
                (r, w2) = finish claim w1
            in (r, h1, w2)) () h w)"

definition FinalizeUpload :: "('w \<Rightarrow> unit res \<times> 'w) \<Rightarrow> S3FileHandle \<Rightarrow> 'w \<Rightarrow> unit res \<times> S3FileHandle \<times> 'w" where
  "FinalizeUpload session_finalize h w =
     with_claim False (\<lambda>h w. let (r, w1) = session_finalize w in (r, h, w1)) () h w"

section \<open>What the metadata cache keeps of a file\<close>

lemma SetHandleRegion_kept:
  assumes "SetHandleRegion D r w = Inr w'" "r \<noteq> []"
  shows "session_region (current_snapshot (world_session w')) = r \<and>
    s3_version_id_pinning (session_params w') = s3_version_id_pinning (session_params w)"
proof -
  let ?cur = "current_snapshot (world_session w)"
  have twice: "ChangeRegion D r w = (case region_turn_alone D (region_turn_alone D (RegionStart r, w)) of
      (ThreadThrew e, w') \<Rightarrow> (Inl (plain_error e), w') | (_, w') \<Rightarrow> (Inr (), w'))"
    by (simp add: ChangeRegion_def numeral_2_eq_2)
  show ?thesis
  proof (cases "session_region ?cur = r")
    case True
    then have "region_turn_alone D (RegionStart r, w) = (RegionDone r False, w\<lparr>world_next := world_next w + 1\<rparr>)"
      by (simp add: region_turn_alone_def)
    then have "w' = w\<lparr>world_next := world_next w + 2\<rparr>"
      using assms(1) by (simp add: SetHandleRegion_def twice region_turn_alone_def)
    then show ?thesis using True by (simp add: session_params_def)
  next
    case False
    show ?thesis
    proof (cases "RegionReplacement D (world_next w) ?cur r")
      case (Inl e)
      then have "region_turn_alone D (RegionStart r, w) = (ThreadThrew e, w\<lparr>world_next := world_next w + 1\<rparr>)"
        using False by (simp add: region_turn_alone_def Let_def)
      then show ?thesis using assms(1) by (simp add: SetHandleRegion_def twice region_turn_alone_def)
    next
      case (Inr replacement)
      then have "region_turn_alone D (RegionStart r, w) = (RegionPublish r ?cur replacement, w\<lparr>world_next := world_next w + 1\<rparr>)"
        using False by (simp add: region_turn_alone_def Let_def)
      then have "current_snapshot (world_session w') = replacement"
        using assms(1) by (auto simp: SetHandleRegion_def twice region_turn_alone_def TryPublish_def Let_def)
      moreover have "snapshot_params replacement = CreateRequestParams ?cur" "session_region replacement = r"
        using Inr assms(2) RegionReplacement_fields [OF Inr] by (auto simp: RegionReplacement_def bind_res_Inr_iff)
      ultimately show ?thesis by (simp add: session_params_def CreateRequestParams_def)
    qed
  qed
qed

lemma S3_cache_entry_loads:
  assumes "S3InitializeFromCacheEntry D (S3GetCacheEntry h w) h0 w0 = Inr (h', w')"
  shows "h' = h0\<lparr>last_modified := last_modified h, handle_length := handle_length h, handle_etag := handle_etag h,
      version_id := version_id h\<rparr> \<and>
    (session_region (current_snapshot (world_session w)) \<noteq> [] \<longrightarrow>
       session_region (current_snapshot (world_session w')) = session_region (current_snapshot (world_session w))) \<and>
    s3_version_id_pinning (session_params w') = s3_version_id_pinning (session_params w0)"
  using assms
  by (auto simp: S3InitializeFromCacheEntry_def S3GetCacheEntry_def GetCacheEntry_def InitializeFromCacheEntry_def Let_def
      bind_res_Inr_iff dest!: SetHandleRegion_kept split: if_splits)

text \<open>The metadata cache that an opening consults: the shared one when the setting asks for it, otherwise that of the query.\<close>

definition cache_in_use :: "file_opener \<Rightarrow> HTTPTransfer \<Rightarrow> HTTPMetadataCache option \<Rightarrow> HTTPMetadataCache option" where
  "cache_in_use opener s q =
     (if \<not> opener_database opener then None
      else if opener_shared_cache opener = Some True then global_metadata_cache s
      else if opener_context opener then q else None)"

lemma TryGetMetadataCache_in_use:
  assumes "cache_in_use opener s q = Some m"
  shows "\<exists>c. TryGetMetadataCache opener (s, q, w) = Some (Inr c, s, q, w) \<and> chosen_cache c (s, q, w) = Some m"
  using assms
  by (auto simp: cache_in_use_def TryGetMetadataCache_def chosen_cache_def bind_io_def GetGlobalCache_def split: if_splits)

text \<open>An opening from an entry, in terms of the entry alone: the requests of the environment do not occur.\<close>

lemma Initialize_from_entry:
  fixes E :: "'w s3_world open_env"
  assumes E: "open_class E = s3_class D"
    and cache: "cache_in_use opener s q = Some m" "CacheFind (handle_path h0) m = Some (S3GetCacheEntry h w)"
    and h0: "open_for_reading (handle_flags h0)" "\<not> force_download (session_params w0)"
    and state: "GetFileState (handle_path h0) (if opener_query_state opener then http_state s else init_http_state) = (i, st)"
  shows "Initialize E opener h0 (s, q, w0) =
    (case S3InitializeFromCacheEntry D (S3GetCacheEntry h w) (h0\<lparr>file_state := i\<rparr>) w0 of
       Inl e \<Rightarrow> Some (Inl e, s\<lparr>http_state := st\<rparr>, q, w0)
     | Inr (h1, w1) \<Rightarrow> Some (Inr (h1\<lparr>read_config := Some (S3BuildReadConfig D h1 w1)\<rparr>), s\<lparr>http_state := st\<rparr>, q, w1))"
proof -
  let ?h = "h0\<lparr>file_state := i\<rparr>" and ?s = "s\<lparr>http_state := st\<rparr>"
  have start: "InitializeRequestState opener h0 (s, q, w0) = Some (Inr ?h, ?s, q, w0)"
    using state by (simp add: InitializeRequestState_def Let_def cong: if_cong)
  have in_use: "cache_in_use opener ?s q = Some m" using cache(1) by (simp add: cache_in_use_def cong: if_cong)
  obtain c where chosen: "TryGetMetadataCache opener (?s, q, w0) = Some (Inr c, ?s, q, w0)" "chosen_cache c (?s, q, w0) = Some m"
    using TryGetMetadataCache_in_use [OF in_use, of w0] by blast
  have class_simps: "class_params (open_class E) = session_params" "class_load_entry (open_class E) = S3InitializeFromCacheEntry D"
    "class_read_config (open_class E) = S3BuildReadConfig D"
    by (simp_all add: E s3_class_def)
  have "TryInitializeRead E c ?h (?s, q, w0) =
      (case S3InitializeFromCacheEntry D (S3GetCacheEntry h w) ?h w0 of
         Inl e \<Rightarrow> Some (Inl e, ?s, q, w0)
       | Inr (h1, w1) \<Rightarrow> Some (Inr (Inl (finalize_config E h1 w1)), ?s, q, w1))"
    using cache(2) h0
    by (simp add: TryInitializeRead_def chosen(2) class_simps bind_io_def split: sum.split)
  then show ?thesis
    by (simp add: Initialize_def bind_io_def start chosen(1) finalize_config_def class_simps split: sum.split prod.split)
qed

text \<open>
  C14: What a handle stores into the metadata cache is what the next handle of the file opens with. When the cache in
  use, of the query or shared, holds the entry of a handle, a handle that is opened for reading without \<open>force_download\<close> gets the
  length, the ETag and the version of that handle; its session uses the region that a redirect had found; and with version pinning
  every read asks for the very version whose length is known. No request is made: the transfer changes in nothing but the
  state of the query and the cache not at all, and the opening is the same whatever the requests of the file system would do.
\<close>

theorem cached_s3_file_opens:
  assumes E: "open_class E = s3_class D"
    and cache: "cache_in_use opener s q = Some m" "CacheFind (handle_path h0) m = Some (S3GetCacheEntry h w)"
    and h0: "open_for_reading (handle_flags h0)" "\<not> force_download (session_params w0)"
    and opened: "Initialize E opener h0 (s, q, w0) = Some (Inr h', s', q', w')"
  shows "handle_length h' = handle_length h \<and> handle_etag h' = handle_etag h \<and> version_id h' = version_id h \<and>
    (session_region (current_snapshot (world_session w)) \<noteq> [] \<longrightarrow>
       session_region (current_snapshot (world_session w')) = session_region (current_snapshot (world_session w))) \<and>
    (s3_version_id_pinning (session_params w0) \<and> version_id h \<noteq> [] \<longrightarrow>
       map_option read_condition (read_config h') = Some \<lparr>condition_type = READ_S3_VERSION_ID, condition_value = version_id h\<rparr>) \<and>
    s' = s\<lparr>http_state := http_state s'\<rparr> \<and> q' = q \<and>
    (\<forall>E2. open_class E2 = s3_class D \<longrightarrow> Initialize E2 opener h0 (s, q, w0) = Some (Inr h', s', q', w'))"
proof -
  obtain i st where state: "GetFileState (handle_path h0) (if opener_query_state opener then http_state s else init_http_state) = (i, st)"
    by fastforce
  note run = Initialize_from_entry [OF _ cache h0 state]
  obtain h1 w1 where load: "S3InitializeFromCacheEntry D (S3GetCacheEntry h w) (h0\<lparr>file_state := i\<rparr>) w0 = Inr (h1, w1)"
    using opened run [OF E] by (auto split: sum.splits)
  have result: "h' = h1\<lparr>read_config := Some (S3BuildReadConfig D h1 w1)\<rparr>" "w' = w1" "q' = q" "s' = s\<lparr>http_state := st\<rparr>"
    using opened run [OF E] by (auto simp: load)
  from S3_cache_entry_loads [OF load] show ?thesis
    by (auto simp: result run load S3BuildReadConfig_def Let_def)
qed

text \<open>A handle that knows its length and version, and another of the same query that opens.\<close>

definition pinned_world :: "unit s3_world" where
  "pinned_world =
     \<lparr>world_session = s3_handle_session 0 (sample_params\<lparr>s3_version_id_pinning := True\<rparr>) (init_auth\<lparr>region := ''r''\<rparr>) ''s3://b/k'',
      world_next = 1, world_rest = ()\<rparr>"

abbreviation s3_read_flags :: OpenFlags where
  "s3_read_flags \<equiv> \<lparr>open_for_reading = True, open_for_writing = False, create_if_not_exists = False, overwrite_existing = False\<rparr>"

definition first_handle :: HTTPFileHandle where
  "first_handle = (CreateHandle ''s3://b/k'' s3_read_flags None)\<lparr>handle_length := 7, version_id := ''v1''\<rparr>"

definition filled_cache :: HTTPMetadataCache where
  "filled_cache = CacheInsert ''s3://b/k'' (S3GetCacheEntry first_handle pinned_world) (init_cache QUERY_LOCAL)"

definition context_opener :: file_opener where
  "context_opener =
     \<lparr>opener_database = True, opener_context = True, opener_shared_cache = None, opener_query_state = True\<rparr>"

definition cached_env :: "unit s3_world open_env" where
  "cached_env =
     \<lparr>open_api = std_api,
      open_requests_of = (\<lambda>h.
        \<lparr>get_range = (\<lambda>config offset buffer len sw. None), get_full = (\<lambda>config sw. None),
         get_error = (\<lambda>r. Exn IOException [] []), get_head = (\<lambda>sw. None), head_error = (\<lambda>r. Exn IOException [] [])\<rparr>),
      open_class = s3_class std_api, parse_time = (\<lambda>t. None)\<rparr>"

lemma cached_opens:
  "\<exists>h' s' q' w'. Initialize cached_env context_opener (CreateHandle ''s3://b/k'' s3_read_flags None)
     (sample_transfer, Some filled_cache, pinned_world) = Some (Inr h', s', q', w')"
proof -
  let ?h = "CreateHandle ''s3://b/k'' s3_read_flags None"
  obtain i st where state: "GetFileState (handle_path ?h) (http_state sample_transfer) = (i, st)" by fastforce
  have entry: "CacheFind ''s3://b/k'' filled_cache = Some (S3GetCacheEntry first_handle pinned_world)"
    by (simp add: filled_cache_def CacheInsert_def CacheFind_def)
  have "session_region (current_snapshot (world_session pinned_world)) = ''r''"
    by (simp add: pinned_world_def s3_handle_session_def)
  then have "\<exists>p. S3InitializeFromCacheEntry std_api (S3GetCacheEntry first_handle pinned_world) (?h\<lparr>file_state := i\<rparr>) pinned_world = Inr p"
    by (simp add: S3InitializeFromCacheEntry_def S3GetCacheEntry_def Let_def SetHandleRegion_def ChangeRegion_def
        region_turn_alone_def numeral_2_eq_2 GetCacheEntry_def)
  then obtain h1 w1 where load: "S3InitializeFromCacheEntry std_api (S3GetCacheEntry first_handle pinned_world)
      (?h\<lparr>file_state := i\<rparr>) pinned_world = Inr (h1, w1)" by fastforce
  have fields: "handle_path ?h = ''s3://b/k''" "handle_flags ?h = s3_read_flags" by (simp_all add: CreateHandle_def)
  have env: "open_class cached_env = s3_class std_api" by (simp add: cached_env_def)
  have "\<not> force_download (session_params pinned_world)"
    by (simp add: pinned_world_def session_params_def s3_handle_session_def sample_params_def)
  then show ?thesis
    using state entry load fields
    by (simp add: Initialize_def bind_io_def InitializeRequestState_def context_opener_def TryGetMetadataCache_def
        TryInitializeRead_def chosen_cache_def env s3_class_def)
qed

theorem cached_s3_file_opens_witness:
  "\<exists>h' s' q' w'. Initialize cached_env context_opener (CreateHandle ''s3://b/k'' s3_read_flags None)
     (sample_transfer, Some filled_cache, pinned_world) = Some (Inr h', s', q', w') \<and> handle_length h' = 7 \<and>
     session_region (current_snapshot (world_session w')) = ''r'' \<and>
     map_option read_condition (read_config h') = Some \<lparr>condition_type = READ_S3_VERSION_ID, condition_value = ''v1''\<rparr>"
proof -
  obtain h' s' q' w' where opened: "Initialize cached_env context_opener (CreateHandle ''s3://b/k'' s3_read_flags None)
     (sample_transfer, Some filled_cache, pinned_world) = Some (Inr h', s', q', w')"
    using cached_opens by blast
  have class_s3: "open_class cached_env = s3_class std_api" by (simp add: cached_env_def)
  have in_use: "cache_in_use context_opener sample_transfer (Some filled_cache) = Some filled_cache"
    by (simp add: cache_in_use_def context_opener_def)
  have found: "CacheFind (handle_path (CreateHandle ''s3://b/k'' s3_read_flags None)) filled_cache =
      Some (S3GetCacheEntry first_handle pinned_world)"
    by (simp add: filled_cache_def CacheInsert_def CacheFind_def CreateHandle_def)
  have known: "handle_length first_handle = 7" "version_id first_handle = ''v1''"
    "session_region (current_snapshot (world_session pinned_world)) = ''r''"
    "s3_version_id_pinning (session_params pinned_world)" "\<not> force_download (session_params pinned_world)"
    "open_for_reading (handle_flags (CreateHandle ''s3://b/k'' s3_read_flags None))"
    by (simp_all add: first_handle_def pinned_world_def s3_handle_session_def session_params_def sample_params_def CreateHandle_def)
  show ?thesis
    using opened cached_s3_file_opens [OF class_s3 in_use found known(6,5) opened] known by auto
qed

end
