(* ===== verification/Secrets.thy ===== *)
theory Secrets
  imports S3_Provider "HOL-Library.Multiset"
begin

text \<open>
  Secrets (src/src/create_secret_functions.cpp and the parts of src/src/s3/s3_provider.cpp they call):
  an S3 secret made from the options of \<open>CREATE SECRET\<close>, its refresh, which makes it again from the
  options that it stores, the options registered for each type, and the tokens of Hugging Face. Registering
  types and functions with DuckDB is left out. The secret manager of DuckDB is a parameter.
\<close>

section \<open>Values and inputs\<close>

text \<open>
  The values that the code tells apart; none is NULL. A map has for each entry the children
  of its key-value struct. \<open>ToString\<close> and the name of a type are DuckDB's.
\<close>

datatype Value =
  V_VARCHAR string
| V_BOOLEAN bool
| V_MAP "Value list list"
| V_STRUCT "(string \<times> Value) list"

record value_api =
  ToString :: "Value \<Rightarrow> string"
  TypeName :: "Value \<Rightarrow> string"

text \<open>The options are a map whose keys have no case, in the order in which it is iterated.\<close>

datatype SecretPersistType = PERSIST_DEFAULT | PERSIST_TEMPORARY | PERSISTENT | PERSIST_TRANSACTION

datatype OnCreateConflict = ERROR_ON_CONFLICT | REPLACE_ON_CONFLICT

record CreateSecretInput =
  input_type :: string
  input_provider :: string
  input_name :: string
  input_scope :: "string list"
  input_storage_type :: string
  input_options :: "(string \<times> Value) list"
  input_persist_type :: SecretPersistType
  input_on_conflict :: OnCreateConflict

definition find_option :: "duckdb_api \<Rightarrow> string \<Rightarrow> (string \<times> Value) list \<Rightarrow> Value option" where
  "find_option D name options = map_option snd (find (\<lambda>(k, v). Lower D k = Lower D name) options)"

fun set_option :: "duckdb_api \<Rightarrow> string \<Rightarrow> Value \<Rightarrow> (string \<times> Value) list \<Rightarrow> (string \<times> Value) list" where
  "set_option D k v [] = [(k, v)]"
| "set_option D k v ((k', v') # options) =
     (if Lower D k' = Lower D k then (k', v) # options else (k', v') # set_option D k v options)"

record KeyValueSecret =
  secret_scope :: "string list"
  secret_type :: string
  secret_provider :: string
  secret_name :: string
  secret_map :: "string \<Rightarrow> Value option"
  redact_keys :: "string set"

definition put_secret :: "string \<Rightarrow> Value \<Rightarrow> KeyValueSecret \<Rightarrow> KeyValueSecret" where
  "put_secret k v s = s\<lparr>secret_map := (secret_map s)(k \<mapsto> v)\<rparr>"

section \<open>S3 secrets\<close>

fun StructFields :: "value_api \<Rightarrow> Value list list \<Rightarrow> (string \<times> Value) list res" where
  "StructFields V [] = Inr []"
| "StructFields V (kv_pair # children) =
     (case kv_pair of
        [k, v] \<Rightarrow> bind_res (StructFields V children) (\<lambda>members. Inr ((ToString V k, v) # members))
      | _ \<Rightarrow> Inl (Exn InvalidInputException ''Invalid input passed to refresh_info'' []))"

definition MapToStruct :: "value_api \<Rightarrow> Value \<Rightarrow> Value res" where
  "MapToStruct V m =
     (case m of
        V_MAP children \<Rightarrow> bind_res (StructFields V children) (\<lambda>members. Inr (V_STRUCT members))
      | _ \<Rightarrow> Inl (Exn InternalException [] []))"

text \<open>What depends on the provider.\<close>

definition ApplySecretDefaults :: "duckdb_api \<Rightarrow> value_api \<Rightarrow> CreateSecretInput \<Rightarrow> KeyValueSecret \<Rightarrow> KeyValueSecret" where
  "ApplySecretDefaults D V input secret =
     (if input_type input \<noteq> ''r2'' then secret
      else case find_option D ''account_id'' (input_options input) of
        None \<Rightarrow> secret
      | Some account_id \<Rightarrow>
          put_secret ''url_style'' (V_VARCHAR ''path'')
            (put_secret ''endpoint'' (V_VARCHAR (ToString V account_id @ ''.r2.cloudflarestorage.com'')) secret))"

definition TryApplySecretOption ::
  "value_api \<Rightarrow> CreateSecretInput \<Rightarrow> string \<Rightarrow> Value \<Rightarrow> KeyValueSecret \<Rightarrow> KeyValueSecret option" where
  "TryApplySecretOption V input name v secret =
     (if name = ''account_id'' \<and> input_type input = ''r2'' then Some secret
      else if name = ''bearer_token'' \<and> input_type input = ''gcs'' then
        Some ((put_secret ''bearer_token'' (V_VARCHAR (ToString V v)) secret)
          \<lparr>redact_keys := insert ''bearer_token'' (redact_keys secret)\<rparr>)
      else None)"

text \<open>The builder: the secret so far, and whether it is refreshed.\<close>

type_synonym S3SecretBuilder = "KeyValueSecret \<times> bool"

definition SetBooleanOption :: "value_api \<Rightarrow> string \<Rightarrow> Value \<Rightarrow> KeyValueSecret \<Rightarrow> KeyValueSecret res" where
  "SetBooleanOption V name v secret =
     (case v of
        V_BOOLEAN b \<Rightarrow> Inr (put_secret name (V_BOOLEAN b) secret)
      | _ \<Rightarrow> Inl (Exn InvalidInputException
               (''Invalid type passed to secret option: '' @ [CHR 0x27] @ ''%s'' @ [CHR 0x27] @ '', found '' @ [CHR 0x27] @ ''%s'' @
                [CHR 0x27] @ '', expected: '' @ [CHR 0x27] @ ''BOOLEAN'' @ [CHR 0x27]) [name, TypeName V v]))"

definition refresh_conflict :: exn where
  "refresh_conflict = Exn InvalidInputException ''Can not set `refresh` and `refresh_info` at the same time'' []"

definition SetRefresh ::
  "duckdb_api \<Rightarrow> value_api \<Rightarrow> CreateSecretInput \<Rightarrow> Value \<Rightarrow> S3SecretBuilder \<Rightarrow> S3SecretBuilder res" where
  "SetRefresh D V input v b =
     (if snd b then Inl refresh_conflict
      else Inr (put_secret ''refresh_info'' (V_STRUCT (map (\<lambda>(k, v). (Lower D k, v)) (input_options input)))
                  (put_secret ''refresh'' (V_VARCHAR ''auto'') (fst b)),
                Lower D (ToString V v) = ''auto''))"

definition SetRefreshInfo :: "value_api \<Rightarrow> Value \<Rightarrow> S3SecretBuilder \<Rightarrow> S3SecretBuilder res" where
  "SetRefreshInfo V v b =
     (if snd b then Inl refresh_conflict
      else bind_res (MapToStruct V v) (\<lambda>members. Inr (put_secret ''refresh_info'' members (fst b), True)))"

definition ApplyOption ::
  "duckdb_api \<Rightarrow> value_api \<Rightarrow> CreateSecretInput \<Rightarrow> string \<Rightarrow> Value \<Rightarrow> S3SecretBuilder \<Rightarrow> S3SecretBuilder res" where
  "ApplyOption D V input name v b =
     (if name = ''key_id'' \<or> name = ''secret'' \<or> name = ''http_proxy'' \<or> name = ''http_proxy_password'' \<or>
         name = ''http_proxy_username'' \<or> name = ''extra_http_headers'' then Inr (put_secret name v (fst b), snd b)
      else if name = ''region'' \<or> name = ''session_token'' \<or> name = ''endpoint'' \<or> name = ''kms_key_id'' then
        Inr (put_secret name (V_VARCHAR (ToString V v)) (fst b), snd b)
      else if name = ''url_style'' then Inr (put_secret name (V_VARCHAR (Lower D (ToString V v))) (fst b), snd b)
      else if name = ''use_ssl'' \<or> name = ''verify_ssl'' \<or> name = ''url_compatibility_mode'' \<or> name = ''requester_pays'' then
        bind_res (SetBooleanOption V name v (fst b)) (\<lambda>s. Inr (s, snd b))
      else if name = ''refresh'' then SetRefresh D V input v b
      else if name = ''refresh_info'' then SetRefreshInfo V v b
      else case TryApplySecretOption V input name v (fst b) of
        Some s \<Rightarrow> Inr (s, snd b)
      | None \<Rightarrow> Inl (Exn InvalidInputException ''Unknown named parameter passed to CreateSecretFunctionInternal: '' [name]))"

fun ApplyOptions ::
  "duckdb_api \<Rightarrow> value_api \<Rightarrow> CreateSecretInput \<Rightarrow> (string \<times> Value) list \<Rightarrow> S3SecretBuilder \<Rightarrow> S3SecretBuilder res" where
  "ApplyOptions D V input [] b = Inr b"
| "ApplyOptions D V input ((k, v) # options) b =
     bind_res (ApplyOption D V input (Lower D k) v b) (ApplyOptions D V input options)"

definition new_secret :: "CreateSecretInput \<Rightarrow> string list \<Rightarrow> KeyValueSecret" where
  "new_secret input scope =
     \<lparr>secret_scope = scope, secret_type = input_type input, secret_provider = input_provider input,
      secret_name = input_name input, secret_map = Map.empty, redact_keys = {''secret'', ''session_token''}\<rparr>"

definition CreateS3Secret :: "duckdb_api \<Rightarrow> value_api \<Rightarrow> CreateSecretInput \<Rightarrow> KeyValueSecret res" where
  "CreateS3Secret D V input =
     bind_res (if input_scope input = [] then DefaultSecretScope (input_type input) else Inr (input_scope input)) (\<lambda>scope.
     bind_res (ApplyOptions D V input (input_options input) (ApplySecretDefaults D V input (new_secret input scope), False))
       (\<lambda>(secret, refresh). Inr secret))"

section \<open>Refreshing a secret\<close>

record SecretEntry =
  entry_secret :: KeyValueSecret
  entry_persist_type :: SecretPersistType
  entry_storage_mode :: string

definition GenerateRefreshSecretInfo :: "duckdb_api \<Rightarrow> SecretEntry \<Rightarrow> Value \<Rightarrow> CreateSecretInput res" where
  "GenerateRefreshSecretInfo D entry refresh_info =
     (case refresh_info of
        V_STRUCT members \<Rightarrow>
          Inr \<lparr>input_type = secret_type (entry_secret entry), input_provider = secret_provider (entry_secret entry),
               input_name = secret_name (entry_secret entry), input_scope = secret_scope (entry_secret entry),
               input_storage_type = (if entry_persist_type entry \<noteq> PERSIST_TRANSACTION then entry_storage_mode entry else []),
               input_options = fold (\<lambda>(k, v). set_option D k v) members [],
               input_persist_type = entry_persist_type entry, input_on_conflict = REPLACE_ON_CONFLICT\<rparr>
      | _ \<Rightarrow> Inl (Exn InternalException [] []))"

definition SecretCredentialMaterialChanged :: "KeyValueSecret \<Rightarrow> KeyValueSecret \<Rightarrow> bool" where
  "SecretCredentialMaterialChanged old_secret fresh_secret \<longleftrightarrow>
     \<not> list_all (\<lambda>k. secret_map old_secret k = secret_map fresh_secret k) CredentialMaterialKeys"

text \<open>
  \<open>create_secret\<close> is the secret manager, which calls the function of the type and stores the secret; \<open>message_of\<close> is
  the text of an exception. The result also tells whether the change is logged.
\<close>

definition TryRefreshS3Secret ::
  "duckdb_api \<Rightarrow> (exn \<Rightarrow> string) \<Rightarrow> (CreateSecretInput \<Rightarrow> 'w \<Rightarrow> KeyValueSecret res \<times> 'w) \<Rightarrow> SecretEntry \<Rightarrow> 'w \<Rightarrow>
     (bool \<times> bool) res \<times> 'w" where
  "TryRefreshS3Secret D message_of create_secret entry w =
     (case secret_map (entry_secret entry) ''refresh_info'' of
        None \<Rightarrow> (Inr (False, False), w)
      | Some refresh_info \<Rightarrow>
          (case GenerateRefreshSecretInfo D entry refresh_info of
             Inl e \<Rightarrow> (Inl e, w)
           | Inr refresh_input \<Rightarrow>
               (case create_secret refresh_input w of
                  (Inr secret, w') \<Rightarrow> (Inr (True, SecretCredentialMaterialChanged (entry_secret entry) secret), w')
                | (Inl e, w') \<Rightarrow>
                    (Inl (Exn (exn_class e)
                       (''Exception thrown while trying to refresh secret %s. To fix this, please recreate or remove the '' @
                        ''secret and try again. Error: '' @ [CHR 0x27] @ ''%s'' @ [CHR 0x27])
                       [secret_name (entry_secret entry), message_of e]), w'))))"

section \<open>Tokens\<close>

definition CreateBearerSecret :: "CreateSecretInput \<Rightarrow> string \<Rightarrow> KeyValueSecret res" where
  "CreateBearerSecret input token =
     bind_res (if input_scope input \<noteq> [] then Inr (input_scope input)
               else if input_type input = ''huggingface'' then Inr [''hf://'']
               else Inl (Exn InternalException (''Unknown secret type found in httpfs extension: '' @ [CHR 0x27] @ ''%s'' @ [CHR 0x27])
                           [input_type input])) (\<lambda>scope.
       Inr ((new_secret input scope)\<lparr>secret_map := [''token'' \<mapsto> V_VARCHAR token], redact_keys := {''token''}\<rparr>))"

definition CreateBearerSecretFromConfig :: "duckdb_api \<Rightarrow> value_api \<Rightarrow> CreateSecretInput \<Rightarrow> KeyValueSecret res" where
  "CreateBearerSecretFromConfig D V input =
     CreateBearerSecret input
       (fold (\<lambda>(k, v) token. if Lower D k = ''token'' then ToString V v else token) (input_options input) [])"

text \<open>
  \<open>environment\<close> are the variables of the process and \<open>read_line\<close> gives the first line of a file.
\<close>

definition ReadTokenFile :: "(string \<Rightarrow> string res) \<Rightarrow> (exn \<Rightarrow> string) \<Rightarrow> string \<Rightarrow> string \<Rightarrow> string res" where
  "ReadTokenFile read_line message_of token_path error_source_message =
     (case read_line token_path of
        Inr token \<Rightarrow> Inr token
      | Inl e \<Rightarrow> Inl (Exn IOException (''Failed to read token path '' @ [CHR 0x27] @ ''%s'' @ [CHR 0x27] @ ''%s. (error: %s)'')
                   [token_path, error_source_message, message_of e]))"

definition TryReadTokenFile :: "(string \<Rightarrow> string res) \<Rightarrow> string \<Rightarrow> string" where
  "TryReadTokenFile read_line token_path = (case read_line token_path of Inr token \<Rightarrow> token | Inl e \<Rightarrow> [])"

definition CreateHuggingFaceSecretFromCredentialChain ::
  "(string \<Rightarrow> string option) \<Rightarrow> (string \<Rightarrow> string res) \<Rightarrow> (exn \<Rightarrow> string) \<Rightarrow> (string \<Rightarrow> string \<Rightarrow> string) \<Rightarrow>
     CreateSecretInput \<Rightarrow> KeyValueSecret res" where
  "CreateHuggingFaceSecretFromCredentialChain environment read_line message_of join_path input =
     (case environment ''HF_TOKEN'' of
        Some token \<Rightarrow> CreateBearerSecret input token
      | None \<Rightarrow>
          (case environment ''HF_TOKEN_PATH'' of
             Some path \<Rightarrow>
               bind_res (ReadTokenFile read_line message_of path '' fetched from HF_TOKEN_PATH env variable'')
                 (CreateBearerSecret input)
           | None \<Rightarrow>
               (case environment ''HF_HOME'' of
                  Some home \<Rightarrow>
                    bind_res (ReadTokenFile read_line message_of (join_path home ''token'')
                        ('' constructed using the HF_HOME variable: '' @ [CHR 0x27] @ ''$HF_HOME/token'' @ [CHR 0x27]))
                      (CreateBearerSecret input)
                | None \<Rightarrow> CreateBearerSecret input (TryReadTokenFile read_line ''~/.cache/huggingface/token''))))"

section \<open>Options in any order\<close>

definition option_valid :: "CreateSecretInput \<Rightarrow> string \<Rightarrow> Value \<Rightarrow> bool" where
  "option_valid input name v \<longleftrightarrow>
     name \<in> {''key_id'', ''secret'', ''http_proxy'', ''http_proxy_password'', ''http_proxy_username'', ''extra_http_headers'',
             ''region'', ''session_token'', ''endpoint'', ''kms_key_id'', ''url_style'', ''refresh''} \<or>
     name \<in> {''use_ssl'', ''verify_ssl'', ''url_compatibility_mode'', ''requester_pays''} \<and> (\<exists>b. v = V_BOOLEAN b) \<or>
     name = ''account_id'' \<and> input_type input = ''r2'' \<or> name = ''bearer_token'' \<and> input_type input = ''gcs''"

definition option_value :: "duckdb_api \<Rightarrow> value_api \<Rightarrow> string \<Rightarrow> Value \<Rightarrow> Value" where
  "option_value D V name v =
     (if name = ''url_style'' then V_VARCHAR (Lower D (ToString V v))
      else if name = ''refresh'' then V_VARCHAR ''auto''
      else if name \<in> {''region'', ''session_token'', ''endpoint'', ''kms_key_id'', ''bearer_token''} then V_VARCHAR (ToString V v)
      else v)"

definition option_effect ::
  "duckdb_api \<Rightarrow> value_api \<Rightarrow> (string \<times> Value) list \<Rightarrow> string \<Rightarrow> Value \<Rightarrow> KeyValueSecret \<Rightarrow> KeyValueSecret" where
  "option_effect D V members name v s =
     s\<lparr>secret_map := (if name = ''account_id'' then secret_map s
         else (if name = ''refresh'' then (secret_map s)(''refresh_info'' \<mapsto> V_STRUCT members) else secret_map s)
                (name \<mapsto> option_value D V name v)),
       redact_keys := (if name = ''bearer_token'' then insert name (redact_keys s) else redact_keys s)\<rparr>"

definition refresh_members :: "duckdb_api \<Rightarrow> (string \<times> Value) list \<Rightarrow> (string \<times> Value) list" where
  "refresh_members D options = map (\<lambda>(k, v). (Lower D k, v)) options"

lemma refresh_members_simps [simp]:
  "refresh_members D [] = []" "refresh_members D ((k, v) # options) = (Lower D k, v) # refresh_members D options"
  by (simp_all add: refresh_members_def)

lemma redact_keys_update [simp]: "(s :: KeyValueSecret)\<lparr>secret_map := m, redact_keys := redact_keys s\<rparr> = s\<lparr>secret_map := m\<rparr>"
  by (cases s) simp

lemma option_no_update [simp]: "(s :: KeyValueSecret)\<lparr>secret_map := secret_map s\<rparr> = s"
  by (cases s) simp

lemma ApplyOption_known:
  assumes "option_valid input name v" "name = ''refresh'' \<Longrightarrow> \<not> snd b"
  shows "\<exists>flag. ApplyOption D V input name v b = Inr (option_effect D V (refresh_members D (input_options input)) name v (fst b), flag)"
  using assms unfolding option_valid_def insert_iff empty_iff
  by (cases b, elim disjE conjE exE)
     (simp_all add: ApplyOption_def option_effect_def option_value_def SetBooleanOption_def SetRefresh_def
      TryApplySecretOption_def put_secret_def refresh_members_def fun_upd_twist)

lemma ApplyOption_unknown:
  assumes "\<not> option_valid input name v" "name \<noteq> ''refresh_info''"
  shows "\<exists>e. ApplyOption D V input name v b = Inl e"
proof -
  have t: "TryApplySecretOption V input name v s = None" for s
    using assms(1) by (simp add: option_valid_def TryApplySecretOption_def)
  have "name \<notin> {''key_id'', ''secret'', ''http_proxy'', ''http_proxy_password'', ''http_proxy_username'', ''extra_http_headers'',
             ''region'', ''session_token'', ''endpoint'', ''kms_key_id'', ''url_style'', ''refresh''}"
    using assms(1) by (simp only: option_valid_def de_Morgan_disj simp_thms)
  then have a: "ApplyOption D V input name v b =
      (if name = ''use_ssl'' \<or> name = ''verify_ssl'' \<or> name = ''url_compatibility_mode'' \<or> name = ''requester_pays''
       then bind_res (SetBooleanOption V name v (fst b)) (\<lambda>s. Inr (s, snd b))
       else Inl (Exn InvalidInputException ''Unknown named parameter passed to CreateSecretFunctionInternal: '' [name]))"
    using assms(2) by (simp only: ApplyOption_def t option.case insert_iff empty_iff de_Morgan_disj simp_thms if_False)
  have v: "\<nexists>x. v = V_BOOLEAN x"
    if "name = ''use_ssl'' \<or> name = ''verify_ssl'' \<or> name = ''url_compatibility_mode'' \<or> name = ''requester_pays''"
    using that assms(1) by (simp only: option_valid_def insert_iff empty_iff de_Morgan_disj de_Morgan_conj simp_thms)
  show ?thesis
  proof (cases "name = ''use_ssl'' \<or> name = ''verify_ssl'' \<or> name = ''url_compatibility_mode'' \<or> name = ''requester_pays''")
    case True
    show ?thesis unfolding a SetBooleanOption_def if_P [OF True] using v [OF True] by (cases v) simp_all
  qed (simp only: a if_False, blast)
qed

lemma ApplyOption_effect:
  assumes "name \<noteq> ''refresh_info''" "name = ''refresh'' \<Longrightarrow> \<not> snd b"
  shows "(\<exists>flag. ApplyOption D V input name v b = Inr (s, flag)) \<longleftrightarrow>
     option_valid input name v \<and> s = option_effect D V (refresh_members D (input_options input)) name v (fst b)"
proof (cases "option_valid input name v")
  case True
  then show ?thesis using ApplyOption_known [OF True assms(2), of D V] by auto
next
  case False
  then show ?thesis using ApplyOption_unknown [OF False assms(1), of D V b] by auto
qed

lemma ApplyOption_flag:
  assumes "ApplyOption D V input name v b = Inr r" "name \<noteq> ''refresh''" "name \<noteq> ''refresh_info''"
  shows "snd r = snd b"
proof -
  have v: "option_valid input name v"
    using ApplyOption_unknown [of input name v D V b] assms(1,3) by fastforce
  show ?thesis using v assms unfolding option_valid_def insert_iff empty_iff
    by (elim disjE conjE exE)
       (simp_all add: ApplyOption_def SetBooleanOption_def TryApplySecretOption_def, safe, simp_all)
qed


lemma ApplyOptions_effect:
  assumes "distinct (map fst (refresh_members D options))" "''refresh_info'' \<notin> set (map fst (refresh_members D options))"
    "''refresh'' \<in> set (map fst (refresh_members D options)) \<Longrightarrow> \<not> snd b"
  shows "(\<exists>flag. ApplyOptions D V input options b = Inr (s, flag)) \<longleftrightarrow>
     (\<forall>(name, v) \<in> set (refresh_members D options). option_valid input name v) \<and>
     s = fold (\<lambda>(name, v). option_effect D V (refresh_members D (input_options input)) name v) (refresh_members D options) (fst b)"
  using assms
proof (induction options arbitrary: b)
  case Nil
  show ?case by (cases b) auto
next
  case (Cons kv options)
  obtain k v where kv: "kv = (k, v)" by (cases kv)
  let ?E = "\<lambda>(name, v). option_effect D V (refresh_members D (input_options input)) name v"
  have head: "(\<exists>flag. ApplyOption D V input (Lower D k) v b = Inr (s', flag)) \<longleftrightarrow>
      option_valid input (Lower D k) v \<and> s' = ?E (Lower D k, v) (fst b)" for s'
    unfolding prod.case using Cons.prems by (intro ApplyOption_effect) (auto simp: kv)
  have later: "(\<exists>flag. ApplyOptions D V input options (s', b') = Inr (s, flag)) \<longleftrightarrow>
      (\<forall>(name, v) \<in> set (refresh_members D options). option_valid input name v) \<and> s = fold ?E (refresh_members D options) s'"
    if *: "ApplyOption D V input (Lower D k) v b = Inr (s', b')" for s' b'
  proof -
    have "\<not> b'" if r: "''refresh'' \<in> set (map fst (refresh_members D options))"
    proof -
      have "Lower D k \<noteq> ''refresh''" "Lower D k \<noteq> ''refresh_info''" "\<not> snd b"
        using Cons.prems r by (auto simp: kv simp del: set_map) 
      then show ?thesis using ApplyOption_flag [OF *] by simp
    qed
    then show ?thesis using Cons.IH [of "(s', b')"] Cons.prems by (simp add: kv)
  qed
  have "(\<exists>flag. ApplyOptions D V input (kv # options) b = Inr (s, flag)) \<longleftrightarrow>
      (\<exists>s' b'. ApplyOption D V input (Lower D k) v b = Inr (s', b') \<and> (\<exists>flag. ApplyOptions D V input options (s', b') = Inr (s, flag)))"
    by (auto simp: kv bind_res_Inr_iff)
  also have "\<dots> \<longleftrightarrow> (\<exists>s'. (\<exists>b'. ApplyOption D V input (Lower D k) v b = Inr (s', b')) \<and>
      (\<forall>(name, v) \<in> set (refresh_members D options). option_valid input name v) \<and> s = fold ?E (refresh_members D options) s')"
    using later by blast
  also have "\<dots> \<longleftrightarrow> (\<forall>(name, v) \<in> set (refresh_members D (kv # options)). option_valid input name v) \<and>
      s = fold ?E (refresh_members D (kv # options)) (fst b)"
    unfolding head by (auto simp: kv)
  finally show ?case .
qed

lemma option_effect_select [simp]:
  "secret_map (option_effect D V members name v s) =
     (if name = ''account_id'' then secret_map s
      else (if name = ''refresh'' then (secret_map s)(''refresh_info'' \<mapsto> V_STRUCT members) else secret_map s)
             (name \<mapsto> option_value D V name v))"
  "redact_keys (option_effect D V members name v s) = (if name = ''bearer_token'' then insert name (redact_keys s) else redact_keys s)"
  "secret_scope (option_effect D V members name v s) = secret_scope s" "secret_type (option_effect D V members name v s) = secret_type s"
  "secret_provider (option_effect D V members name v s) = secret_provider s" "secret_name (option_effect D V members name v s) = secret_name s"
  by (simp_all add: option_effect_def)

lemma option_effect_commute:
  assumes "n \<noteq> m" "n \<noteq> ''refresh_info''" "m \<noteq> ''refresh_info''"
  shows "option_effect D V members n v (option_effect D V members m w s) = option_effect D V members m w (option_effect D V members n v s)"
  using assms by (intro KeyValueSecret.equality) (auto simp: fun_upd_twist [of n m] fun_upd_twist [of n "''refresh_info''"] fun_upd_twist [of m "''refresh_info''"])

lemma option_effect_info:
  assumes "n \<noteq> ''refresh_info''" "n \<noteq> ''refresh''"
  shows "option_effect D V members' n v (put_secret ''refresh_info'' i s) = put_secret ''refresh_info'' i (option_effect D V members n v s)"
  using assms by (intro KeyValueSecret.equality) (auto simp: put_secret_def fun_upd_twist)

lemma option_effect_refresh:
  "option_effect D V members' ''refresh'' v s = put_secret ''refresh_info'' (V_STRUCT members') (option_effect D V members ''refresh'' v s)"
  by (intro KeyValueSecret.equality) (simp_all add: put_secret_def fun_upd_twist)


lemma fold_option_effect_info:
  assumes "''refresh_info'' \<notin> set (map fst xs)" "''refresh'' \<notin> set (map fst xs)"
  shows "fold (\<lambda>(n, v). option_effect D V members' n v) xs (put_secret ''refresh_info'' i s) =
    put_secret ''refresh_info'' i (fold (\<lambda>(n, v). option_effect D V members n v) xs s)"
  using assms by (induction xs arbitrary: s) (auto simp: option_effect_info [of _ D V members' _ i _ members])

lemma fold_option_effect_perm:
  assumes "mset ys = mset xs" "distinct (map fst xs)" "''refresh_info'' \<notin> set (map fst xs)"
  shows "fold (\<lambda>(n, v). option_effect D V members n v) ys = fold (\<lambda>(n, v). option_effect D V members n v) xs"
proof (rule fold_multiset_equiv [OF _ assms(1)])
  fix x y assume "x \<in> set ys" "y \<in> set ys"
  then have m: "x \<in> set xs" "y \<in> set xs" using mset_eq_setD [OF assms(1)] by auto
  obtain n v m w where xy: "x = (n, v)" "y = (m, w)" by (cases x; cases y)
  show "(case x of (n, v) \<Rightarrow> option_effect D V members n v) \<circ> (case y of (n, v) \<Rightarrow> option_effect D V members n v) =
      (case y of (n, v) \<Rightarrow> option_effect D V members n v) \<circ> (case x of (n, v) \<Rightarrow> option_effect D V members n v)"
  proof (cases "n = m")
    case True
    then have "x = y" using m assms(2) by (auto simp: xy dest: eq_key_imp_eq_value)
    then show ?thesis by simp
  next
    case False
    moreover have "n \<noteq> ''refresh_info''" "m \<noteq> ''refresh_info''" using m assms(3) by (force simp: xy)+
    ultimately show ?thesis by (auto simp: xy fun_eq_iff option_effect_commute)
  qed
qed

lemma fold_option_effect_members:
  assumes p: "mset ys = mset xs" and d: "distinct (map fst xs)" "''refresh_info'' \<notin> set (map fst xs)"
    and r: "''refresh'' \<in> set (map fst xs)"
  shows "fold (\<lambda>(n, v). option_effect D V members' n v) ys s =
    put_secret ''refresh_info'' (V_STRUCT members') (fold (\<lambda>(n, v). option_effect D V members n v) xs s)"
proof -
  obtain v where "(''refresh'', v) \<in> set xs" using r by auto
  then obtain us vs where xs: "xs = us @ (''refresh'', v) # vs" by (meson split_list)
  let ?zs = "(''refresh'', v) # us @ vs"
  have z: "mset ?zs = mset xs" "''refresh'' \<notin> set (map fst (us @ vs))" "''refresh_info'' \<notin> set (map fst (us @ vs))"
    using d by (auto simp: xs)
  have "fold (\<lambda>(n, v). option_effect D V members' n v) ys s = fold (\<lambda>(n, v). option_effect D V members' n v) ?zs s"
    using p z(1) fold_option_effect_perm [OF _ d] by metis
  also have "\<dots> = fold (\<lambda>(n, v). option_effect D V members' n v) (us @ vs)
      (put_secret ''refresh_info'' (V_STRUCT members') (option_effect D V members ''refresh'' v s))"
    by (simp add: option_effect_refresh [of D V members' v s members])
  also have "\<dots> = put_secret ''refresh_info'' (V_STRUCT members') (fold (\<lambda>(n, v). option_effect D V members n v) ?zs s)"
    by (subst fold_option_effect_info [where members = members, OF z(3,2)]) simp
  also have "\<dots> = put_secret ''refresh_info'' (V_STRUCT members') (fold (\<lambda>(n, v). option_effect D V members n v) xs s)"
    using z(1) fold_option_effect_perm [OF _ d] by metis
  finally show ?thesis .
qed

lemma fold_option_effect_kept [simp]:
  fixes s :: KeyValueSecret
  shows "secret_scope (fold (\<lambda>(n, v). option_effect D V members n v) xs s) = secret_scope s"
  "secret_type (fold (\<lambda>(n, v). option_effect D V members n v) xs s) = secret_type s"
  "secret_provider (fold (\<lambda>(n, v). option_effect D V members n v) xs s) = secret_provider s"
  "secret_name (fold (\<lambda>(n, v). option_effect D V members n v) xs s) = secret_name s"
  by (induction xs arbitrary: s) (auto simp: split_beta)

section \<open>A refreshed secret\<close>

lemma find_option_names: "find_option D name options = None \<longleftrightarrow> Lower D name \<notin> set (map fst (refresh_members D options))"
  by (force simp: find_option_def find_None_iff refresh_members_def)

lemma find_option_perm:
  assumes "mset (refresh_members D xs) = mset (refresh_members D ys)" "distinct (map fst (refresh_members D ys))"
  shows "find_option D name xs = find_option D name ys"
proof -
  have d: "distinct (map fst (refresh_members D xs))"
    using assms by (metis mset_map mset_eq_imp_distinct_iff)
  have f: "find_option D name zs = map_of (refresh_members D zs) (Lower D name)" for zs
    by (induction zs) (auto simp: find_option_def)
  show ?thesis unfolding f using map_of_inject_set [OF d assms(2)] mset_eq_setD [OF assms(1)] by simp
qed

lemma set_option_new:
  "Lower D k \<notin> set (map fst (refresh_members D xs)) \<Longrightarrow> set_option D k v xs = xs @ [(k, v)]"
  by (induction xs) auto

lemma fold_set_option:
  assumes "distinct (map fst (refresh_members D (ys @ xs)))"
  shows "fold (\<lambda>(k, v). set_option D k v) xs ys = ys @ xs"
  using assms
proof (induction xs arbitrary: ys)
  case (Cons x xs)
  obtain k v where x: "x = (k, v)" by (cases x)
  have "set_option D k v ys = ys @ [x]"
    using Cons.prems by (subst set_option_new) (auto simp: x refresh_members_def)
  then show ?case using Cons.IH [of "ys @ [x]"] Cons.prems by (simp add: x)
qed simp

lemma refresh_members_idem: "byte_strings D \<Longrightarrow> refresh_members D (refresh_members D xs) = refresh_members D xs"
  by (auto simp: refresh_members_def byte_stringsD)

lemma new_secret_select [simp]:
  "secret_scope (ApplySecretDefaults D V input s) = secret_scope s" "secret_type (ApplySecretDefaults D V input s) = secret_type s"
  "secret_provider (ApplySecretDefaults D V input s) = secret_provider s" "secret_name (ApplySecretDefaults D V input s) = secret_name s"
  by (auto simp: ApplySecretDefaults_def put_secret_def split: option.split)


lemma CreateS3Secret_effect:
  assumes "distinct (map fst (refresh_members D (input_options input)))"
    "''refresh_info'' \<notin> set (map fst (refresh_members D (input_options input)))"
  shows "CreateS3Secret D V input = Inr secret \<longleftrightarrow>
    (\<exists>scope. (if input_scope input = [] then DefaultSecretScope (input_type input) else Inr (input_scope input)) = Inr scope \<and>
     (\<forall>(name, v) \<in> set (refresh_members D (input_options input)). option_valid input name v) \<and>
     secret = fold (\<lambda>(name, v). option_effect D V (refresh_members D (input_options input)) name v)
       (refresh_members D (input_options input)) (ApplySecretDefaults D V input (new_secret input scope)))"
  using ApplyOptions_effect [OF assms, of "(ApplySecretDefaults D V input (new_secret input scope), False)" V input secret for scope]
  by (auto simp: CreateS3Secret_def bind_res_Inr_iff simp del: set_map)

lemma refreshed_secret:
  assumes D: "byte_strings D"
    and d: "distinct (map fst (refresh_members D (input_options input)))"
      "''refresh_info'' \<notin> set (map fst (refresh_members D (input_options input)))"
      "''refresh'' \<in> set (map fst (refresh_members D (input_options input)))"
    and created: "CreateS3Secret D V input = Inr secret"
    and p: "mset (input_options again) = mset (refresh_members D (input_options input))"
    and again: "input_type again = input_type input" "input_provider again = input_provider input" "input_name again = input_name input"
      "input_scope again = secret_scope secret"
  shows "CreateS3Secret D V again = Inr (put_secret ''refresh_info'' (V_STRUCT (input_options again)) secret)"
proof -
  let ?xs = "refresh_members D (input_options input)" and ?ys = "input_options again"
  obtain scope where scope: "(if input_scope input = [] then DefaultSecretScope (input_type input) else Inr (input_scope input)) = Inr scope"
    and valid: "\<forall>(name, v) \<in> set ?xs. option_valid input name v"
    and secret: "secret = fold (\<lambda>(name, v). option_effect D V ?xs name v) ?xs (ApplySecretDefaults D V input (new_secret input scope))"
    using created unfolding CreateS3Secret_effect [OF d(1,2)] by blast
  have scope': "input_scope again = scope" by (simp add: again secret new_secret_def)
  have "scope \<noteq> []" using scope by (auto simp: DefaultSecretScope_def split: if_splits)
  moreover have ys: "refresh_members D ?ys = ?ys"
  proof -
    have "(k, v) \<in> set ?ys \<Longrightarrow> Lower D k = k" for k v
      using mset_eq_setD [OF p] by (auto simp: refresh_members_def byte_stringsD [OF D])
    then show ?thesis by (auto simp: refresh_members_def intro!: map_idI)
  qed
  moreover have "\<forall>(name, v) \<in> set ?ys. option_valid again name v"
    using valid mset_eq_setD [OF p] by (auto simp: option_valid_def again(1))
  moreover have "ApplySecretDefaults D V again (new_secret again scope) = ApplySecretDefaults D V input (new_secret input scope)"
  proof -
    have "find_option D ''account_id'' ?ys = find_option D ''account_id'' (input_options input)"
      by (rule find_option_perm) (use p d(1) in \<open>simp_all add: ys\<close>)
    then show ?thesis by (simp add: ApplySecretDefaults_def new_secret_def again)
  qed
  moreover have "distinct (map fst ?ys)" "''refresh_info'' \<notin> set (map fst ?ys)"
    using d(1,2) by (metis mset_map p mset_eq_imp_distinct_iff, metis set_map mset_eq_setD [OF p])
  ultimately show ?thesis
    using fold_option_effect_members [OF p d, where D = D and V = V and members' = ?ys and members = ?xs and
      s = "ApplySecretDefaults D V input (new_secret input scope)"]
    by (subst CreateS3Secret_effect) (simp_all add: scope' secret)
qed

text \<open>The mode \<open>auto\<close> excludes \<open>refresh_info\<close>, in whatever order the two come.\<close>

lemma ApplyOptions_set:
  assumes "ApplyOptions D V input options b = Inr r" "snd b" "name \<in> {''refresh'', ''refresh_info''}"
  shows "name \<notin> set (map fst (refresh_members D options))"
  using assms
proof (induction options arbitrary: b)
  case (Cons x options)
  obtain k v where x: "x = (k, v)" by (cases x)
  obtain b1 where step: "ApplyOption D V input (Lower D k) v b = Inr b1" "ApplyOptions D V input options b1 = Inr r"
    using Cons.prems(1) by (auto simp: x bind_res_Inr_iff)
  have other: "Lower D k \<noteq> ''refresh''" "Lower D k \<noteq> ''refresh_info''"
    using step(1) Cons.prems(2) by (auto simp: ApplyOption_def SetRefresh_def SetRefreshInfo_def)
  with ApplyOption_flag [OF step(1)] Cons.prems(2) have "snd b1" by simp
  from Cons.IH [OF step(2) this Cons.prems(3)] other Cons.prems(3) show ?case by (auto simp: x)
qed simp

lemma ApplyOptions_auto:
  assumes "ApplyOptions D V input options b = Inr r" "distinct (map fst (refresh_members D options))"
    and "(''refresh'', v) \<in> set (refresh_members D options)" "Lower D (ToString V v) = ''auto''"
  shows "''refresh_info'' \<notin> set (map fst (refresh_members D options))"
  using assms(1-3)
proof (induction options arbitrary: b)
  case (Cons x options)
  obtain k w where x: "x = (k, w)" by (cases x)
  obtain b1 where step: "ApplyOption D V input (Lower D k) w b = Inr b1" "ApplyOptions D V input options b1 = Inr r"
    using Cons.prems(1) by (auto simp: x bind_res_Inr_iff)
  consider (auto_first) "Lower D k = ''refresh''" | (info_first) "Lower D k = ''refresh_info''"
    | (other) "Lower D k \<noteq> ''refresh''" "Lower D k \<noteq> ''refresh_info''" by blast
  then show ?case
  proof cases
    case auto_first
    then have "w = v" using Cons.prems(2,3) by (auto simp: x image_iff)
    then have "snd b1" using step(1) auto_first assms(4) by (auto simp: ApplyOption_def SetRefresh_def split: if_splits)
    from ApplyOptions_set [OF step(2) this, of "''refresh_info''"] auto_first show ?thesis by (simp add: x)
  next
    case info_first
    then have "snd b1" using step(1) by (auto simp: ApplyOption_def SetRefreshInfo_def bind_res_Inr_iff split: if_splits)
    from ApplyOptions_set [OF step(2) this, of "''refresh''"] Cons.prems(3) info_first show ?thesis by (auto simp: x image_iff)
  next
    case other
    with Cons.IH [OF step(2)] Cons.prems(2,3) show ?thesis by (auto simp: x)
  qed
qed simp

lemma find_option_member: "find_option D name options = Some v \<Longrightarrow> (Lower D name, v) \<in> set (refresh_members D options)"
  by (induction options) (auto simp: find_option_def split: if_splits)

text \<open>
  C15: Options, none twice, that hold \<open>refresh\<close> in the mode \<open>auto\<close> (in any letter case) and from which a secret is made make the
  secret refreshable: they hold no \<open>refresh_info\<close> beside it, whatever their order; the refresh of the secret succeeds in whatever
  order the manager's input iterates the stored options; and the secret made then has the same scope, type, provider and name
  and the same values under every key, except that \<open>refresh_info\<close> holds the same options in that order, so that nothing is
  logged as changed. Other modes are not covered.
\<close>

theorem refresh_recreates:
  assumes "byte_strings D"
    and "distinct (map (Lower D \<circ> fst) (input_options input))"
    and "find_option D ''refresh'' (input_options input) = Some mode" "Lower D (ToString V mode) = ''auto''"
    and "CreateS3Secret D V input = Inr (entry_secret entry)"
    and "\<And>xs. mset (order xs) = mset xs"
    and "create_secret = (\<lambda>i made. let r = CreateS3Secret D V (i\<lparr>input_options := order (input_options i)\<rparr>) in (r, made @ [r]))"
  shows "find_option D ''refresh_info'' (input_options input) = None \<and>
    (\<exists>members. mset members = mset (refresh_members D (input_options input)) \<and>
      TryRefreshS3Secret D message_of create_secret entry made =
        (Inr (True, False), made @ [Inr (put_secret ''refresh_info'' (V_STRUCT members) (entry_secret entry))]))"
proof -
  let ?xs = "refresh_members D (input_options input)"
  have l: "Lower D ''refresh'' = ''refresh''" "Lower D ''refresh_info'' = ''refresh_info''"
    using assms(1) by (simp_all add: byte_stringsD std_tolower_def less_eq_char_def)
  have names: "distinct (map fst ?xs)" using assms(2) by (simp add: refresh_members_def comp_def split_beta)
  have mode: "(''refresh'', mode) \<in> set ?xs" using find_option_member [OF assms(3)] by (simp add: l)
  obtain b r where "ApplyOptions D V input (input_options input) b = Inr r"
    using assms(5) by (auto simp: CreateS3Secret_def bind_res_Inr_iff)
  from ApplyOptions_auto [OF this names mode assms(4)] names mode
  have d: "distinct (map fst ?xs)" "''refresh_info'' \<notin> set (map fst ?xs)" "''refresh'' \<in> set (map fst ?xs)"
    by (auto intro: rev_image_eqI)
  then have no_info: "find_option D ''refresh_info'' (input_options input) = None" by (simp only: find_option_names l not_False_eq_True)
  obtain scope where secret: "entry_secret entry =
      fold (\<lambda>(name, v). option_effect D V ?xs name v) ?xs (ApplySecretDefaults D V input (new_secret input scope))"
    using assms(5) unfolding CreateS3Secret_effect [OF d(1,2)] by blast
  have kept: "secret_type (entry_secret entry) = input_type input" "secret_provider (entry_secret entry) = input_provider input"
    "secret_name (entry_secret entry) = input_name input"
    unfolding secret by (simp_all add: new_secret_def)
  have info: "put_secret ''refresh_info'' (V_STRUCT ?xs) (entry_secret entry) = entry_secret entry"
    using fold_option_effect_members [OF refl d, where V = V and members' = ?xs and members = ?xs and
      s = "ApplySecretDefaults D V input (new_secret input scope)"] secret by metis
  have "secret_map (entry_secret entry) ''refresh_info'' = Some (V_STRUCT ?xs)"
    by (subst info [symmetric]) (simp add: put_secret_def)
  moreover have "fold (\<lambda>(k, v). set_option D k v) ?xs [] = ?xs"
    using fold_set_option [of D "[]" ?xs] d(1) by (simp add: refresh_members_idem [OF assms(1)])
  moreover have "CreateS3Secret D V i = Inr (put_secret ''refresh_info'' (V_STRUCT (order ?xs)) (entry_secret entry))"
    if "i = \<lparr>input_type = input_type input, input_provider = input_provider input, input_name = input_name input,
      input_scope = secret_scope (entry_secret entry), input_storage_type = t, input_options = order ?xs,
      input_persist_type = q, input_on_conflict = REPLACE_ON_CONFLICT\<rparr>" for i t q
    using refreshed_secret [OF assms(1) d assms(5), of i] assms(6) by (simp add: that)
  ultimately have "TryRefreshS3Secret D message_of create_secret entry made =
      (Inr (True, SecretCredentialMaterialChanged (entry_secret entry)
         (put_secret ''refresh_info'' (V_STRUCT (order ?xs)) (entry_secret entry))),
       made @ [Inr (put_secret ''refresh_info'' (V_STRUCT (order ?xs)) (entry_secret entry))])"
    by (simp add: TryRefreshS3Secret_def GenerateRefreshSecretInfo_def kept assms(7) Let_def)
  moreover have "\<not> SecretCredentialMaterialChanged (entry_secret entry) (put_secret ''refresh_info'' v (entry_secret entry))" for v
    by (simp add: SecretCredentialMaterialChanged_def CredentialMaterialKeys_def put_secret_def)
  ultimately show ?thesis using assms(6) no_info by auto
qed

definition plain_values :: value_api where
  "plain_values = \<lparr>ToString = (\<lambda>v. case v of V_VARCHAR s \<Rightarrow> s | _ \<Rightarrow> []), TypeName = (\<lambda>v. ''VARCHAR'')\<rparr>"

definition sample_secret_input :: CreateSecretInput where
  "sample_secret_input =
     \<lparr>input_type = ''r2'', input_provider = ''config'', input_name = ''mine'', input_scope = [], input_storage_type = [],
      input_options = [(''KEY_ID'', V_VARCHAR ''k''), (''account_id'', V_VARCHAR ''a''), (''Refresh'', V_VARCHAR ''AUTO''),
        (''url_style'', V_VARCHAR ''VHOST''), (''use_ssl'', V_BOOLEAN False)],
      input_persist_type = PERSIST_TEMPORARY, input_on_conflict = ERROR_ON_CONFLICT\<rparr>"

definition sample_secret_entry :: SecretEntry where
  "sample_secret_entry =
     \<lparr>entry_secret = (case CreateS3Secret std_api plain_values sample_secret_input of Inr s \<Rightarrow> s | Inl e \<Rightarrow> new_secret sample_secret_input []),
      entry_persist_type = PERSIST_TEMPORARY, entry_storage_mode = ''memory''\<rparr>"

lemma Lower_samples:
  "Lower std_api ''KEY_ID'' = ''key_id''" "Lower std_api ''account_id'' = ''account_id''" "Lower std_api ''Refresh'' = ''refresh''"
  "Lower std_api ''refresh'' = ''refresh''" "Lower std_api ''refresh_info'' = ''refresh_info''"
  "Lower std_api ''url_style'' = ''url_style''" "Lower std_api ''use_ssl'' = ''use_ssl''" "Lower std_api ''AUTO'' = ''auto''"
  "Lower std_api ''VHOST'' = ''vhost''" "Lower std_api ''disabled'' = ''disabled''"
  by code_simp+

lemma sample_secret_created:
  "CreateS3Secret std_api plain_values sample_secret_input = Inr (entry_secret sample_secret_entry)"
proof -
  have "\<exists>s. CreateS3Secret std_api plain_values sample_secret_input = Inr s"
    by (simp add: CreateS3Secret_def sample_secret_input_def DefaultSecretScope_def Lower_samples
        ApplyOption_def SetRefresh_def SetBooleanOption_def TryApplySecretOption_def plain_values_def)
  then show ?thesis by (auto simp: sample_secret_entry_def)
qed

theorem refresh_recreates_witness:
  "find_option std_api ''refresh_info'' (input_options sample_secret_input) = None \<and> (\<exists>members. mset members = mset (refresh_members std_api (input_options sample_secret_input)) \<and>
    TryRefreshS3Secret std_api (\<lambda>e. [])
      (\<lambda>i made. let r = CreateS3Secret std_api plain_values (i\<lparr>input_options := rev (input_options i)\<rparr>) in (r, made @ [r]))
      sample_secret_entry [] =
      (Inr (True, False), [] @ [Inr (put_secret ''refresh_info'' (V_STRUCT members) (entry_secret sample_secret_entry))]))"
  by (rule refresh_recreates [OF byte_strings_std _ _ _ sample_secret_created _ refl, where mode = "V_VARCHAR ''AUTO''"])
     (simp_all add: sample_secret_input_def find_option_def Lower_samples plain_values_def)

section \<open>The order of the options\<close>

text \<open>
  The options are iterated in the order of a hash map: \<open>refresh = 'disabled'\<close> beside \<open>refresh_info\<close> is refused when
  \<open>refresh_info\<close> comes first and accepted otherwise. Any value of \<open>refresh\<close> makes the secret one that is refreshed.
\<close>

definition ordered_input :: "(string \<times> Value) list \<Rightarrow> CreateSecretInput" where
  "ordered_input options = sample_secret_input\<lparr>input_options := options\<rparr>"

lemma refresh_order_matters:
  "CreateS3Secret std_api plain_values (ordered_input [(''refresh_info'', V_MAP []), (''refresh'', V_VARCHAR ''disabled'')]) =
     Inl refresh_conflict"
  "CreateS3Secret std_api plain_values (ordered_input [(''refresh'', V_VARCHAR ''disabled''), (''refresh_info'', V_MAP [])]) \<noteq>
     Inl refresh_conflict"
  by (simp_all add: CreateS3Secret_def ordered_input_def sample_secret_input_def DefaultSecretScope_def Lower_samples ApplyOption_def SetRefresh_def SetRefreshInfo_def MapToStruct_def plain_values_def refresh_conflict_def)

lemma refresh_disabled_refreshed:
  assumes "CreateS3Secret std_api plain_values (ordered_input [(''refresh'', V_VARCHAR ''disabled'')]) = Inr s"
  shows "secret_map s ''refresh'' = Some (V_VARCHAR ''auto'')" "secret_map s ''refresh_info'' \<noteq> None"
  using assms
  by (auto simp: CreateS3Secret_def ordered_input_def sample_secret_input_def DefaultSecretScope_def Lower_samples ApplyOption_def SetRefresh_def plain_values_def put_secret_def)

section \<open>Named parameters\<close>

text \<open>
  The options that DuckDB accepts for a type of secret, with the type that it casts their values to.
\<close>

datatype LogicalType = T_VARCHAR | T_BOOLEAN | T_MAP

definition SetBaseNamedParams :: "(string \<times> LogicalType) list" where
  "SetBaseNamedParams =
     [(''key_id'', T_VARCHAR), (''secret'', T_VARCHAR), (''region'', T_VARCHAR), (''session_token'', T_VARCHAR),
      (''endpoint'', T_VARCHAR), (''url_style'', T_VARCHAR), (''use_ssl'', T_BOOLEAN), (''verify_ssl'', T_BOOLEAN),
      (''kms_key_id'', T_VARCHAR), (''url_compatibility_mode'', T_BOOLEAN), (''requester_pays'', T_BOOLEAN),
      (''refresh'', T_VARCHAR), (''http_proxy'', T_VARCHAR), (''http_proxy_password'', T_VARCHAR),
      (''http_proxy_username'', T_VARCHAR), (''extra_http_headers'', T_MAP), (''refresh_info'', T_MAP)]"

definition SetSecretNamedParameters :: "string \<Rightarrow> (string \<times> LogicalType) list" where
  "SetSecretNamedParameters type_name =
     (if type_name = ''r2'' then [(''account_id'', T_VARCHAR)]
      else if type_name = ''gcs'' then [(''bearer_token'', T_VARCHAR)] else [])"

definition named_parameters :: "string \<Rightarrow> (string \<times> LogicalType) list" where
  "named_parameters type_name = SetBaseNamedParams @ SetSecretNamedParameters type_name"

fun has_type :: "LogicalType \<Rightarrow> Value \<Rightarrow> bool" where
  "has_type T_VARCHAR v \<longleftrightarrow> (\<exists>s. v = V_VARCHAR s)"
| "has_type T_BOOLEAN v \<longleftrightarrow> (\<exists>b. v = V_BOOLEAN b)"
| "has_type T_MAP v \<longleftrightarrow> (\<exists>kvs. v = V_MAP (map (\<lambda>(k, w). [V_VARCHAR k, V_VARCHAR w]) kvs))"

lemma StructFields_pairs:
  "\<exists>members. StructFields V (map (\<lambda>(k, w). [V_VARCHAR k, V_VARCHAR w]) kvs) = Inr members"
  by (induction kvs) auto

lemma ApplyOption_refresh_info:
  assumes "has_type T_MAP v" "\<not> snd b"
  shows "\<exists>b'. ApplyOption D V input ''refresh_info'' v b = Inr b'"
proof -
  obtain kvs where v: "v = V_MAP (map (\<lambda>(k, w). [V_VARCHAR k, V_VARCHAR w]) kvs)" using assms(1) by auto
  obtain members where "StructFields V (map (\<lambda>(k, w). [V_VARCHAR k, V_VARCHAR w]) kvs) = Inr members"
    using StructFields_pairs by blast
  then show ?thesis using assms(2) by (cases b) (auto simp: ApplyOption_def SetRefreshInfo_def MapToStruct_def v)
qed

lemma registered_valid:
  assumes "(name, t) \<in> set (named_parameters (input_type input))" "has_type t v" "name \<noteq> ''refresh_info''"
  shows "option_valid input name v"
proof -
  have "(name, t) \<in> set SetBaseNamedParams \<or> (name, t) = (''account_id'', T_VARCHAR) \<and> input_type input = ''r2'' \<or>
      (name, t) = (''bearer_token'', T_VARCHAR) \<and> input_type input = ''gcs''"
    using assms(1) by (simp add: named_parameters_def SetSecretNamedParameters_def split: if_splits)
  then show ?thesis
    using assms(2,3) unfolding SetBaseNamedParams_def set_simps insert_iff empty_iff prod.inject
    by (elim disjE conjE) (simp_all add: option_valid_def)
qed

lemma valid_registered:
  assumes "option_valid input name v"
  shows "name \<in> fst ` set (named_parameters (input_type input))"
  using assms unfolding option_valid_def insert_iff empty_iff
  by (elim disjE conjE exE) (simp_all add: named_parameters_def SetBaseNamedParams_def SetSecretNamedParameters_def)

text \<open>
  C40: The options registered for a type of secret and those that the builder of secrets knows are the same:
  an option whose value has the type registered for it is applied exactly when its name is registered and it is not a second
  \<open>refresh\<close> or \<open>refresh_info\<close>: once one of them has switched the refresh on, the other is refused with the error that they cannot
  be set together. Every name that is not registered is refused.
\<close>

theorem registered_options:
  assumes "\<And>t. map_of (named_parameters (input_type input)) name = Some t \<Longrightarrow> has_type t v"
  shows "((\<exists>b'. ApplyOption D V input name v b = Inr b') \<longleftrightarrow>
      name \<in> fst ` set (named_parameters (input_type input)) \<and> \<not> (snd b \<and> name \<in> {''refresh'', ''refresh_info''})) \<and>
    (snd b \<and> name \<in> {''refresh'', ''refresh_info''} \<longrightarrow> ApplyOption D V input name v b = Inl refresh_conflict)"
proof (cases "snd b \<and> name \<in> {''refresh'', ''refresh_info''}")
  case True
  then have "ApplyOption D V input name v b = Inl refresh_conflict"
    by (auto simp: ApplyOption_def SetRefresh_def SetRefreshInfo_def)
  with True show ?thesis by auto
next
  case single: False
  have "(\<exists>b'. ApplyOption D V input name v b = Inr b') \<longleftrightarrow> name \<in> fst ` set (named_parameters (input_type input))"
  proof
    assume applied: "\<exists>b'. ApplyOption D V input name v b = Inr b'"
    show "name \<in> fst ` set (named_parameters (input_type input))"
    proof (cases "name = ''refresh_info''")
      case True
      then show ?thesis by (simp add: named_parameters_def SetBaseNamedParams_def)
    next
      case False
      then have "option_valid input name v" using ApplyOption_unknown [of input name v D V b] applied by fastforce
      then show ?thesis by (rule valid_registered)
    qed
  next
    assume "name \<in> fst ` set (named_parameters (input_type input))"
    then obtain t where t: "map_of (named_parameters (input_type input)) name = Some t"
      by (metis map_of_eq_None_iff option.exhaust)
    show "\<exists>b'. ApplyOption D V input name v b = Inr b'"
    proof (cases "name = ''refresh_info''")
      case True
      then have "t = T_MAP" using t by (simp add: named_parameters_def SetBaseNamedParams_def)
      then show ?thesis using ApplyOption_refresh_info [of v b] single assms(1) [OF t] True by simp
    next
      case False
      then have "option_valid input name v" using registered_valid [OF map_of_SomeD [OF t]] assms(1) [OF t] by simp
      then show ?thesis using ApplyOption_known [of input name v b] single by blast
    qed
  qed
  with single show ?thesis by blast
qed

theorem registered_options_witness:
  "''refresh_info'' \<in> fst ` set (named_parameters (input_type sample_secret_input)) \<and>
   ApplyOption std_api plain_values sample_secret_input ''refresh_info'' (V_MAP []) (new_secret sample_secret_input [], True) =
     Inl refresh_conflict"
  using registered_options [of sample_secret_input "''refresh_info''" "V_MAP []" std_api plain_values "(new_secret sample_secret_input [], True)"]
  by (auto simp: named_parameters_def SetBaseNamedParams_def)

end
