(* ===== verification/Crypto.thy ===== *)
theory Crypto
  imports Httpfs_Prelude "HOL-Library.Word"
begin

text \<open>
  Encryption and hashing over OpenSSL (src/src/crypto.cpp, src/src/hash_functions.cpp): the state of a cipher, its
  initialization, processing and finalization, and the hash functions. OpenSSL is a record of the functions that the code
  calls; \<open>gcm_library\<close> states what is documented of AES-GCM. A buffer is given as its contents, and what a function writes
  is part of its result.
\<close>

section \<open>OpenSSL\<close>

datatype CipherType = GCM | CTR | CBC | OtherCipher int

datatype Mode = ENCRYPT | DECRYPT

text \<open>A cipher of OpenSSL is AES with a mode of operation and a key length in bytes.\<close>

datatype evp_cipher = EVP_aes CipherType nat

text \<open>
  The functions that OpenSSL has for each direction get the direction as an argument, \<open>True\<close> for
  encryption. \<open>cipher_update\<close> gives what it writes, \<open>None\<close> when it fails; \<open>add_aad\<close> is an update
  without an output; \<open>cipher_final\<close> gives whether it succeeded, and what it writes.
\<close>

record 'c openssl =
  ctx_new :: "'c option"
  set_cipher :: "bool \<Rightarrow> evp_cipher \<Rightarrow> 'c \<Rightarrow> bool \<times> 'c"
  set_ivlen :: "nat \<Rightarrow> 'c \<Rightarrow> bool \<times> 'c"
  set_key_iv :: "bool \<Rightarrow> string \<Rightarrow> string \<Rightarrow> 'c \<Rightarrow> bool \<times> 'c"
  add_aad :: "bool \<Rightarrow> string \<Rightarrow> 'c \<Rightarrow> bool \<times> 'c"
  cipher_update :: "bool \<Rightarrow> string \<Rightarrow> 'c \<Rightarrow> string option \<times> 'c"
  cipher_final :: "bool \<Rightarrow> 'c \<Rightarrow> bool \<times> string \<times> 'c"
  get_tag :: "nat \<Rightarrow> 'c \<Rightarrow> string option \<times> 'c"
  set_tag :: "string \<Rightarrow> 'c \<Rightarrow> bool \<times> 'c"

section \<open>The state of a cipher\<close>

record 'c AESState =
  aes_context :: 'c
  aes_cipher :: CipherType
  aes_key_len :: nat
  aes_mode :: Mode

text \<open>The mode of a new state is not initialized; it is an argument.\<close>

definition NewAESState :: "'c openssl \<Rightarrow> CipherType \<Rightarrow> nat \<Rightarrow> Mode \<Rightarrow> 'c AESState res" where
  "NewAESState ssl cipher key_len garbage =
     (case ctx_new ssl of
        None \<Rightarrow> Inl (Exn InternalException ''OpenSSL AES failed with initializing context'' [])
      | Some c \<Rightarrow> Inr \<lparr>aes_context = c, aes_cipher = cipher, aes_key_len = key_len, aes_mode = garbage\<rparr>)"

definition GetCipher :: "(int \<Rightarrow> string) \<Rightarrow> 'c AESState \<Rightarrow> evp_cipher res" where
  "GetCipher number st =
     (let with_length = (\<lambda>name. if aes_key_len st = 16 \<or> aes_key_len st = 24 \<or> aes_key_len st = 32
          then Inr (EVP_aes (aes_cipher st) (aes_key_len st))
          else Inl (Exn InternalException (''Invalid AES key length for '' @ name) []))
      in case aes_cipher st of
           GCM \<Rightarrow> with_length ''GCM''
         | CTR \<Rightarrow> with_length ''CTR''
         | CBC \<Rightarrow> with_length ''CBC''
         | OtherCipher n \<Rightarrow> Inl (Exn InternalException ''Invalid Encryption/Decryption Cipher: %d'' [number n]))"

text \<open>\<open>NumericCast\<close> of a length to \<open>int\<close>.\<close>

definition cast_int :: "nat \<Rightarrow> nat res" where
  "cast_int n = (if n < 2147483648 then Inr n else Inl (Exn InternalException [] []))"

definition crypto_error :: "string \<Rightarrow> 'a res" where
  "crypto_error msg = Inl (Exn InternalException msg [])"

text \<open>A call of OpenSSL that may fail, on the context of the state.\<close>

definition ossl :: "('c \<Rightarrow> bool \<times> 'c) \<Rightarrow> string \<Rightarrow> 'c AESState \<Rightarrow> unit res \<times> 'c AESState" where
  "ossl f msg st =
     (let (ok, c) = f (aes_context st) in (if ok then Inr () else crypto_error msg, st\<lparr>aes_context := c\<rparr>))"

definition then_do :: "('a res \<times> 's) \<Rightarrow> ('a \<Rightarrow> 's \<Rightarrow> 'b res \<times> 's) \<Rightarrow> 'b res \<times> 's" where
  "then_do r f = (case r of (Inl e, s) \<Rightarrow> (Inl e, s) | (Inr x, s) \<Rightarrow> f x s)"

definition InitializeIVEncrypt :: "'c openssl \<Rightarrow> string \<Rightarrow> string \<Rightarrow> 'c AESState \<Rightarrow> unit res \<times> 'c AESState" where
  "InitializeIVEncrypt ssl nonce key st =
     then_do (cast_int (length nonce), st) (\<lambda>n st.
     then_do (ossl (set_ivlen ssl n) ''EVP_CIPHER_CTX_ctrl failed (EVP_CTRL_GCM_SET_IVLEN)'' st) (\<lambda>_ st.
     ossl (set_key_iv ssl True key nonce) ''EncryptInit failed (attempt 2)'' st))"

definition InitializeIVDecrypt :: "'c openssl \<Rightarrow> string \<Rightarrow> string \<Rightarrow> 'c AESState \<Rightarrow> unit res \<times> 'c AESState" where
  "InitializeIVDecrypt ssl nonce key st =
     then_do (cast_int (length nonce), st) (\<lambda>n st.
     then_do (ossl (set_ivlen ssl n) ''EVP_CIPHER_CTX_ctrl failed to set GCM iv len'' st) (\<lambda>_ st.
     ossl (set_key_iv ssl False key nonce) ''EVP_DecryptInit_ex failed to set iv/key'' st))"

text \<open>Both add the additional data with the function for decryption.\<close>

definition add_additional_data :: "'c openssl \<Rightarrow> string \<Rightarrow> 'c AESState \<Rightarrow> unit res \<times> 'c AESState" where
  "add_additional_data ssl aad st =
     (if aad = [] then (Inr (), st)
      else then_do (cast_int (length aad), st) (\<lambda>_ st.
        ossl (add_aad ssl False aad) ''Setting Additional Authenticated Data  failed'' st))"

definition InitializeEncryption ::
  "'c openssl \<Rightarrow> (int \<Rightarrow> string) \<Rightarrow> string \<Rightarrow> string \<Rightarrow> string \<Rightarrow> 'c AESState \<Rightarrow> unit res \<times> 'c AESState" where
  "InitializeEncryption ssl number nonce key aad st =
     (let st1 = st\<lparr>aes_mode := ENCRYPT\<rparr>
      in then_do (GetCipher number st1, st1) (\<lambda>cipher st.
         then_do (ossl (set_cipher ssl True cipher) ''EncryptInit failed (attempt 1)'' st) (\<lambda>_ st.
         then_do (InitializeIVEncrypt ssl nonce key st) (\<lambda>_ st. add_additional_data ssl aad st))))"

definition InitializeDecryption ::
  "'c openssl \<Rightarrow> (int \<Rightarrow> string) \<Rightarrow> string \<Rightarrow> string \<Rightarrow> string \<Rightarrow> 'c AESState \<Rightarrow> unit res \<times> 'c AESState" where
  "InitializeDecryption ssl number nonce key aad st =
     (let st1 = st\<lparr>aes_mode := DECRYPT\<rparr>
      in then_do (GetCipher number st1, st1) (\<lambda>cipher st.
         then_do (ossl (set_cipher ssl False cipher) ''EVP_DecryptInit_ex failed to set cipher'' st) (\<lambda>_ st.
         then_do (InitializeIVDecrypt ssl nonce key st) (\<lambda>_ st. add_additional_data ssl aad st))))"

text \<open>The output is what \<open>out\<close> holds; an exception may come after it was written.\<close>

definition Process :: "'c openssl \<Rightarrow> string \<Rightarrow> nat \<Rightarrow> 'c AESState \<Rightarrow> string res \<times> 'c AESState" where
  "Process ssl input out_len st =
     then_do (cast_int (length input), st) (\<lambda>_ st.
       case cipher_update ssl (aes_mode st = ENCRYPT) input (aes_context st) of
         (None, c) \<Rightarrow>
           (crypto_error (if aes_mode st = ENCRYPT then ''EncryptUpdate failed'' else ''DecryptUpdate failed''), st\<lparr>aes_context := c\<rparr>)
       | (Some output, c) \<Rightarrow>
           (if out_len < length output \<or> length output \<noteq> length input
            then crypto_error ''AES GCM failed, in- and output lengths differ'' else Inr output, st\<lparr>aes_context := c\<rparr>))"

text \<open>
  The end: what is written behind the text, and the tag, which an encryption computes and a
  decryption is given. The length of the result is that of the text and of what is written.
\<close>

definition final_text :: "'c openssl \<Rightarrow> 'c AESState \<Rightarrow> string res \<times> 'c AESState" where
  "final_text ssl st =
     (let (ok, output, c) = cipher_final ssl (aes_mode st = ENCRYPT) (aes_context st)
      in (if ok then Inr output
          else if aes_mode st = ENCRYPT then crypto_error ''EncryptFinal failed''
          else Inl (Exn InvalidInputException ''Computed AES tag differs from read AES tag, are you using the right key?'' []),
          st\<lparr>aes_context := c\<rparr>))"

definition FinalizeGCM ::
  "'c openssl \<Rightarrow> nat \<Rightarrow> string \<Rightarrow> nat \<Rightarrow> 'c AESState \<Rightarrow> (nat \<times> string \<times> string) res \<times> 'c AESState" where
  "FinalizeGCM ssl out_len tag tag_len st =
     (case aes_mode st of
        ENCRYPT \<Rightarrow>
          then_do (final_text ssl st) (\<lambda>output st.
          then_do (cast_int tag_len, st) (\<lambda>n st.
            case get_tag ssl n (aes_context st) of
              (None, c) \<Rightarrow> (crypto_error ''Calculating the tag failed'', st\<lparr>aes_context := c\<rparr>)
            | (Some computed, c) \<Rightarrow> (Inr (out_len + length output, output, computed), st\<lparr>aes_context := c\<rparr>)))
      | DECRYPT \<Rightarrow>
          then_do (cast_int tag_len, st) (\<lambda>n st.
          then_do (ossl (set_tag ssl (take n tag)) ''Finalizing tag failed'' st) (\<lambda>_ st.
          then_do (final_text ssl st) (\<lambda>output st. (Inr (out_len + length output, output, tag), st)))))"

definition FinalizeCipher ::
  "'c openssl \<Rightarrow> nat \<Rightarrow> string \<Rightarrow> nat \<Rightarrow> 'c AESState \<Rightarrow> (nat \<times> string \<times> string) res \<times> 'c AESState" where
  "FinalizeCipher ssl out_len tag tag_len st =
     (if aes_cipher st = GCM then FinalizeGCM ssl out_len tag tag_len st
      else then_do (final_text ssl st) (\<lambda>output st. (Inr (out_len + length output, output, tag), st)))"

text \<open>\<open>rand\<close> is \<open>RAND_bytes\<close>, \<open>None\<close> when it fails.\<close>

definition GenerateRandomData :: "(nat \<Rightarrow> string option) \<Rightarrow> nat \<Rightarrow> string res" where
  "GenerateRandomData rand len =
     bind_res (cast_int len) (\<lambda>n.
       case rand n of None \<Rightarrow> crypto_error ''Failed to generate random data from RAND_bytes'' | Some d \<Rightarrow> Inr d)"

section \<open>Hash functions\<close>

datatype CryptoHashFunction = MD5 | SHA1 | SHA256 | OtherHash int

definition SupportsHash :: "CryptoHashFunction \<Rightarrow> bool" where
  "SupportsHash f = (case f of MD5 \<Rightarrow> True | SHA1 \<Rightarrow> True | SHA256 \<Rightarrow> True | OtherHash n \<Rightarrow> False)"

definition SupportsHmac :: "CryptoHashFunction \<Rightarrow> bool" where
  "SupportsHmac f \<longleftrightarrow> f = SHA256"

text \<open>The name of the function of OpenSSL.\<close>

definition GetOpenSSLHashFunction :: "CryptoHashFunction \<Rightarrow> string res" where
  "GetOpenSSLHashFunction f =
     (case f of
        MD5 \<Rightarrow> Inr ''EVP_md5'' | SHA1 \<Rightarrow> Inr ''EVP_sha1'' | SHA256 \<Rightarrow> Inr ''EVP_sha256''
      | OtherHash n \<Rightarrow> crypto_error ''Unsupported crypto hash function'')"

text \<open>\<open>digest_size\<close> is \<open>CryptoHash::GetDigestSize\<close>.\<close>

definition CheckOpenSSLHashLength :: "(CryptoHashFunction \<Rightarrow> nat) \<Rightarrow> CryptoHashFunction \<Rightarrow> string \<Rightarrow> string res" where
  "CheckOpenSSLHashLength digest_size f output =
     (if length output \<noteq> digest_size f then crypto_error ''OpenSSL returned an unexpected hash length'' else Inr output)"

record 'd hash_library =
  digest_new :: "'d option"
  digest_init :: "string option \<Rightarrow> 'd \<Rightarrow> bool \<times> 'd"
  digest_update :: "string \<Rightarrow> 'd \<Rightarrow> bool \<times> 'd"
  digest_final :: "'d \<Rightarrow> string option \<times> 'd"
  digest_once :: "string \<Rightarrow> string \<Rightarrow> string option"
  hmac_once :: "string \<Rightarrow> string \<Rightarrow> string \<Rightarrow> string option"

text \<open>A state that hashes again and again, with its function.\<close>

definition NewHashState :: "'d hash_library \<Rightarrow> CryptoHashFunction \<Rightarrow> 'd res" where
  "NewHashState L f =
     (case digest_new L of
        None \<Rightarrow> crypto_error ''OpenSSL failed with initializing hash context''
      | Some d \<Rightarrow> bind_res (GetOpenSSLHashFunction f) (\<lambda>name.
          let (ok, d1) = digest_init L (Some name) d
          in if ok then Inr d1 else crypto_error ''OpenSSL failed to initialize hash''))"

definition HashAgain ::
  "'d hash_library \<Rightarrow> (CryptoHashFunction \<Rightarrow> nat) \<Rightarrow> CryptoHashFunction \<Rightarrow> string \<Rightarrow> 'd \<Rightarrow> string res \<times> 'd" where
  "HashAgain L digest_size f input d =
     (let (ok1, d1) = digest_init L None d
      in if \<not> ok1 then (crypto_error ''OpenSSL failed to initialize hash'', d1)
         else let (ok2, d2) = digest_update L input d1
              in if \<not> ok2 then (crypto_error ''OpenSSL failed to update hash'', d2)
                 else case digest_final L d2 of
                        (None, d3) \<Rightarrow> (crypto_error ''OpenSSL failed to finalize hash'', d3)
                      | (Some output, d3) \<Rightarrow> (CheckOpenSSLHashLength digest_size f output, d3))"

definition Hash :: "'d hash_library \<Rightarrow> (CryptoHashFunction \<Rightarrow> nat) \<Rightarrow> CryptoHashFunction \<Rightarrow> string \<Rightarrow> string res" where
  "Hash L digest_size f input =
     bind_res (GetOpenSSLHashFunction f) (\<lambda>name.
       case digest_once L name input of
         None \<Rightarrow> crypto_error ''OpenSSL failed to compute hash''
       | Some output \<Rightarrow> CheckOpenSSLHashLength digest_size f output)"

definition Hmac :: "'d hash_library \<Rightarrow> (CryptoHashFunction \<Rightarrow> nat) \<Rightarrow> CryptoHashFunction \<Rightarrow> string \<Rightarrow> string \<Rightarrow> string res" where
  "Hmac L digest_size f key input =
     (if f \<noteq> SHA256 then Inl (Exn NotImplementedException ''OpenSSL HMAC currently only supports SHA256'' [])
      else if 2147483647 < length key then Inl (Exn InvalidInputException ''HMAC key length exceeds OpenSSL limit'' [])
      else bind_res (GetOpenSSLHashFunction f) (\<lambda>name.
        case hmac_once L name key input of
          None \<Rightarrow> crypto_error ''OpenSSL failed to compute HMAC''
        | Some output \<Rightarrow> CheckOpenSSLHashLength digest_size f output))"

definition sha256 :: "'d hash_library \<Rightarrow> (CryptoHashFunction \<Rightarrow> nat) \<Rightarrow> string \<Rightarrow> string res" where
  "sha256 L digest_size input = Hash L digest_size SHA256 input"

definition hmac256 :: "'d hash_library \<Rightarrow> (CryptoHashFunction \<Rightarrow> nat) \<Rightarrow> string \<Rightarrow> string \<Rightarrow> string res" where
  "hmac256 L digest_size message secret = Hmac L digest_size SHA256 secret message"

text \<open>A hash that is given has the size of its function, whichever way it is computed.\<close>

lemma hash_sizes:
  "Hash L size f input = Inr h \<Longrightarrow> length h = size f \<and> SupportsHash f"
  "fst (HashAgain L size f input d) = Inr h \<Longrightarrow> length h = size f"
  "Hmac L size f key input = Inr h \<Longrightarrow> length h = size f \<and> SupportsHmac f"
  by (auto simp: Hash_def HashAgain_def Hmac_def CheckOpenSSLHashLength_def SupportsHash_def SupportsHmac_def crypto_error_def
      GetOpenSSLHashFunction_def Let_def split: CryptoHashFunction.splits option.splits if_splits prod.splits)

section \<open>AES-GCM\<close>

text \<open>A text that a key stream encrypts byte by byte, from a position on.\<close>

definition crypt_from :: "(nat \<Rightarrow> char \<Rightarrow> char) \<Rightarrow> nat \<Rightarrow> string \<Rightarrow> string" where
  "crypt_from f n d = map (\<lambda>(i, x). f i x) (enumerate n d)"

lemma crypt_from_simps [simp]:
  "length (crypt_from f n d) = length d" "crypt_from f n [] = []"
  "crypt_from f n (d @ d') = crypt_from f n d @ crypt_from f (n + length d) d'"
  by (simp_all add: crypt_from_def enumerate_append_eq)

lemma crypt_from_inverse: "(\<And>i x. g i (f i x) = x) \<Longrightarrow> crypt_from g n (crypt_from f n d) = d"
  by (induction d arbitrary: n) (simp_all add: crypt_from_def)

text \<open>
  What OpenSSL documents of AES-GCM, for keys of 16, 24 or 32 bytes, nonces of 1 to 16 bytes, tags of 1 to 16 bytes and texts below
  \<open>gcm_limit\<close>. \<open>at c\<close> is what a context was set to, the additional data and the plaintext that it went
  through; \<open>crypt e key iv i x\<close> is byte \<open>x\<close> at position \<open>i\<close> encrypted or decrypted, since GCM encrypts with a key
  stream; \<open>tag\<close> is the tag of additional data and a plaintext. A context takes a new cipher, key and nonce
  whatever it was used for. Additional data come before the text, through the function for the direction of the context;
  that for decryption refuses a context for encryption.
\<close>

type_synonym gcm_point = "bool \<times> string \<times> string \<times> string \<times> string"

definition gcm_limit :: nat where
  "gcm_limit = 68719476704"

definition gcm_library ::
  "'c openssl \<Rightarrow> ('c \<Rightarrow> gcm_point option) \<Rightarrow> (bool \<Rightarrow> string \<Rightarrow> string \<Rightarrow> nat \<Rightarrow> char \<Rightarrow> char) \<Rightarrow>
     (string \<Rightarrow> string \<Rightarrow> string \<Rightarrow> string \<Rightarrow> string) \<Rightarrow> bool" where
  "gcm_library ssl at crypt tag \<longleftrightarrow>
     (\<forall>e c key iv. length key \<in> {16, 24, 32} \<and> 0 < length iv \<and> length iv \<le> 16 \<longrightarrow>
        (\<exists>c1 c2 c3. set_cipher ssl e (EVP_aes GCM (length key)) c = (True, c1) \<and> set_ivlen ssl (length iv) c1 = (True, c2) \<and>
           set_key_iv ssl e key iv c2 = (True, c3) \<and> at c3 = Some (e, key, iv, [], []))) \<and>
     (\<forall>c key iv aad. at c = Some (False, key, iv, [], []) \<longrightarrow>
        (\<exists>c1. add_aad ssl False aad c = (True, c1) \<and> at c1 = Some (False, key, iv, aad, []))) \<and>
     (\<forall>c key iv a p aad. at c = Some (True, key, iv, a, p) \<longrightarrow> \<not> fst (add_aad ssl False aad c)) \<and>
     (\<forall>e c key iv a p d. at c = Some (e, key, iv, a, p) \<and> length p + length d \<le> gcm_limit \<longrightarrow>
        (\<exists>c1. cipher_update ssl e d c = (Some (crypt_from (crypt e key iv) (length p) d), c1) \<and>
           at c1 = Some (e, key, iv, a, p @ (if e then d else crypt_from (crypt e key iv) (length p) d)))) \<and>
     (\<forall>c key iv a p n. at c = Some (True, key, iv, a, p) \<and> 0 < n \<and> n \<le> 16 \<longrightarrow>
        (\<exists>c1 c2. cipher_final ssl True c = (True, [], c1) \<and> get_tag ssl n c1 = (Some (take n (tag key iv a p)), c2))) \<and>
     (\<forall>c key iv a p t. at c = Some (False, key, iv, a, p) \<and> 0 < length t \<and> length t \<le> 16 \<longrightarrow>
        (\<exists>c1 c2. set_tag ssl t c = (True, c1) \<and> cipher_final ssl False c1 = (t = take (length t) (tag key iv a p), [], c2))) \<and>
     (\<forall>key iv i x. crypt False key iv i (crypt True key iv i x) = x) \<and>
     (\<forall>key iv a p. length (tag key iv a p) = 16)"

lemma gcm_libraryD:
  assumes "gcm_library ssl at crypt tag"
  shows "length key \<in> {16, 24, 32} \<Longrightarrow> 0 < length iv \<Longrightarrow> length iv \<le> 16 \<Longrightarrow>
      \<exists>c1 c2 c3. set_cipher ssl e (EVP_aes GCM (length key)) c = (True, c1) \<and>
      set_ivlen ssl (length iv) c1 = (True, c2) \<and> set_key_iv ssl e key iv c2 = (True, c3) \<and> at c3 = Some (e, key, iv, [], [])"
    "at c = Some (False, key, iv, [], []) \<Longrightarrow> \<exists>c1. add_aad ssl False aad c = (True, c1) \<and> at c1 = Some (False, key, iv, aad, [])"
    "at c = Some (True, key, iv, a, p) \<Longrightarrow> \<not> fst (add_aad ssl False aad c)"
    "at c = Some (e, key, iv, a, p) \<Longrightarrow> length p + length d \<le> gcm_limit \<Longrightarrow>
      \<exists>c1. cipher_update ssl e d c = (Some (crypt_from (crypt e key iv) (length p) d), c1) \<and>
      at c1 = Some (e, key, iv, a, p @ (if e then d else crypt_from (crypt e key iv) (length p) d))"
    "at c = Some (True, key, iv, a, p) \<Longrightarrow> 0 < m \<Longrightarrow> m \<le> 16 \<Longrightarrow>
      \<exists>c1 c2. cipher_final ssl True c = (True, [], c1) \<and> get_tag ssl m c1 = (Some (take m (tag key iv a p)), c2)"
    "at c = Some (False, key, iv, a, p) \<Longrightarrow> 0 < length t \<Longrightarrow> length t \<le> 16 \<Longrightarrow>
      \<exists>c1 c2. set_tag ssl t c = (True, c1) \<and> cipher_final ssl False c1 = (t = take (length t) (tag key iv a p), [], c2)"
    "crypt False key iv i (crypt True key iv i x) = x" "length (tag key iv a p) = 16"
  using assms unfolding gcm_library_def by (elim conjE, meson)+

text \<open>A text in pieces, through a state that is initialized for it.\<close>

fun process_all :: "'c openssl \<Rightarrow> string list \<Rightarrow> 'c AESState \<Rightarrow> string res \<times> 'c AESState" where
  "process_all ssl [] st = (Inr [], st)"
| "process_all ssl (piece # pieces) st =
     then_do (Process ssl piece (length piece) st) (\<lambda>out st.
     then_do (process_all ssl pieces st) (\<lambda>outs st. (Inr (out @ outs), st)))"

definition encrypt_text ::
  "'c openssl \<Rightarrow> (int \<Rightarrow> string) \<Rightarrow> string \<Rightarrow> string \<Rightarrow> string \<Rightarrow> string list \<Rightarrow> nat \<Rightarrow> 'c AESState \<Rightarrow> (string \<times> string) res" where
  "encrypt_text ssl number nonce key aad pieces tag_len st =
     fst (then_do (InitializeEncryption ssl number nonce key aad st) (\<lambda>_ st.
          then_do (process_all ssl pieces st) (\<lambda>text st.
          then_do (FinalizeCipher ssl (length text) [] tag_len st) (\<lambda>(n, output, tag) st. (Inr (text @ output, tag), st)))))"

definition decrypt_text ::
  "'c openssl \<Rightarrow> (int \<Rightarrow> string) \<Rightarrow> string \<Rightarrow> string \<Rightarrow> string \<Rightarrow> string list \<Rightarrow> string \<Rightarrow> 'c AESState \<Rightarrow> string res" where
  "decrypt_text ssl number nonce key aad pieces tag st =
     fst (then_do (InitializeDecryption ssl number nonce key aad st) (\<lambda>_ st.
          then_do (process_all ssl pieces st) (\<lambda>text st.
          then_do (FinalizeCipher ssl (length text) tag (length tag) st) (\<lambda>(n, output, t) st. (Inr (text @ output), st)))))"

lemma then_do_simps [simp]: "then_do (Inr x, s) f = f x s" "then_do (Inl e, s) f = (Inl e, s)"
  by (simp_all add: then_do_def)

definition gcm_state :: "('c \<Rightarrow> gcm_point option) \<Rightarrow> gcm_point \<Rightarrow> 'c AESState \<Rightarrow> bool" where
  "gcm_state at point st \<longleftrightarrow> aes_cipher st = GCM \<and> (aes_mode st = ENCRYPT \<longleftrightarrow> fst point) \<and> at (aes_context st) = Some point"

definition gcm_key :: "string \<Rightarrow> string \<Rightarrow> 'c AESState \<Rightarrow> bool" where
  "gcm_key nonce key st \<longleftrightarrow> aes_cipher st = GCM \<and> aes_key_len st = length key \<and> length key \<in> {16, 24, 32} \<and>
     nonce \<noteq> [] \<and> length nonce \<le> 16"

definition aad_refused :: exn where
  "aad_refused = Exn InternalException ''Setting Additional Authenticated Data  failed'' []"

lemma Initialize_gcm:
  assumes "gcm_library ssl at crypt tag" "gcm_key nonce key st" "length aad < 2147483648"
  shows "if aad = [] then \<exists>st'. InitializeEncryption ssl number nonce key aad st = (Inr (), st') \<and> gcm_state at (True, key, nonce, [], []) st'
      else fst (InitializeEncryption ssl number nonce key aad st) = Inl aad_refused"
    "\<exists>st'. InitializeDecryption ssl number nonce key aad st = (Inr (), st') \<and> gcm_state at (False, key, nonce, aad, []) st'"
proof -
  have cipher: "GetCipher number (st\<lparr>aes_mode := m\<rparr>) = Inr (EVP_aes GCM (length key))" for m
    using assms(2) by (auto simp: GetCipher_def gcm_key_def)
  have lengths: "length key \<in> {16, 24, 32}" "0 < length nonce" "length nonce \<le> 16" and gcm: "aes_cipher st = GCM"
    using assms(2) by (simp_all add: gcm_key_def)
  have nonce: "length nonce < 2147483648" using lengths(3) by simp
  obtain c1 c2 c3 where c: "set_cipher ssl True (EVP_aes GCM (length key)) (aes_context st) = (True, c1)"
    "set_ivlen ssl (length nonce) c1 = (True, c2)" "set_key_iv ssl True key nonce c2 = (True, c3)"
    "at c3 = Some (True, key, nonce, [], [])"
    using gcm_libraryD(1) [OF assms(1) lengths] by blast
  then show "if aad = [] then \<exists>st'. InitializeEncryption ssl number nonce key aad st = (Inr (), st') \<and> gcm_state at (True, key, nonce, [], []) st'
      else fst (InitializeEncryption ssl number nonce key aad st) = Inl aad_refused"
    using nonce gcm assms(3) gcm_libraryD(3) [OF assms(1) c(4), of aad]
    by (auto simp: InitializeEncryption_def cipher InitializeIVEncrypt_def add_additional_data_def ossl_def cast_int_def
        gcm_state_def Let_def aad_refused_def crypto_error_def case_prod_beta)
  obtain d1 d2 d3 where d: "set_cipher ssl False (EVP_aes GCM (length key)) (aes_context st) = (True, d1)"
    "set_ivlen ssl (length nonce) d1 = (True, d2)" "set_key_iv ssl False key nonce d2 = (True, d3)"
    "at d3 = Some (False, key, nonce, [], [])"
    using gcm_libraryD(1) [OF assms(1) lengths] by blast
  obtain d4 where "add_aad ssl False aad d3 = (True, d4)" "at d4 = Some (False, key, nonce, aad, [])"
    using gcm_libraryD(2) [OF assms(1) d(4)] by blast
  then show "\<exists>st'. InitializeDecryption ssl number nonce key aad st = (Inr (), st') \<and> gcm_state at (False, key, nonce, aad, []) st'"
    using nonce gcm assms(3) d
    by (cases "aad = []") (auto simp: InitializeDecryption_def cipher InitializeIVDecrypt_def add_additional_data_def ossl_def cast_int_def
        gcm_state_def Let_def)
qed

lemma process_all_gcm:
  assumes "gcm_library ssl at crypt tag" "gcm_state at (e, key, iv, a, p) st" "list_all (\<lambda>d. length d < 2147483648) pieces"
    and "length p + length (concat pieces) \<le> gcm_limit"
  shows "\<exists>st'. process_all ssl pieces st = (Inr (crypt_from (crypt e key iv) (length p) (concat pieces)), st') \<and>
    gcm_state at (e, key, iv, a, p @ (if e then concat pieces else crypt_from (crypt e key iv) (length p) (concat pieces))) st'"
  using assms(2-4)
proof (induction pieces arbitrary: p st)
  case (Cons d pieces)
  let ?out = "crypt_from (crypt e key iv) (length p) d"
  obtain c1 where c1: "cipher_update ssl e d (aes_context st) = (Some ?out, c1)" "at c1 = Some (e, key, iv, a, p @ (if e then d else ?out))"
    using gcm_libraryD(4) [OF assms(1), of "aes_context st" e key iv a p d] Cons.prems(1,3) by (auto simp: gcm_state_def)
  let ?st = "st\<lparr>aes_context := c1\<rparr>"
  have "Process ssl d (length d) st = (Inr ?out, ?st)"
    using c1(1) Cons.prems by (simp add: Process_def cast_int_def gcm_state_def)
  moreover have "gcm_state at (e, key, iv, a, p @ (if e then d else ?out)) ?st"
    using c1(2) Cons.prems(1) by (simp add: gcm_state_def)
  from Cons.IH [OF this] Cons.prems(2,3) obtain st' where
    "process_all ssl pieces ?st = (Inr (crypt_from (crypt e key iv) (length p + length d) (concat pieces)), st')"
    "gcm_state at (e, key, iv, a, p @ (if e then d @ concat pieces else
       ?out @ crypt_from (crypt e key iv) (length p + length d) (concat pieces))) st'"
    by (cases e) auto
  ultimately show ?case by (cases e) auto
qed auto

lemma encrypt_gcm:
  assumes "gcm_library ssl at crypt tag" "gcm_key nonce key st" "list_all (\<lambda>d. length d < 2147483648) pieces" "0 < tag_len" "tag_len \<le> 16"
    and "length (concat pieces) \<le> gcm_limit"
  shows "encrypt_text ssl number nonce key [] pieces tag_len st =
    Inr (crypt_from (crypt True key nonce) 0 (concat pieces), take tag_len (tag key nonce [] (concat pieces)))"
proof -
  obtain st1 where st1: "InitializeEncryption ssl number nonce key [] st = (Inr (), st1)" "gcm_state at (True, key, nonce, [], []) st1"
    using Initialize_gcm(1) [OF assms(1,2), of "[]" number] by auto
  obtain st2 where st2: "process_all ssl pieces st1 = (Inr (crypt_from (crypt True key nonce) 0 (concat pieces)), st2)"
    "gcm_state at (True, key, nonce, [], concat pieces) st2"
    using process_all_gcm [OF assms(1) st1(2) assms(3)] assms(6) by auto
  obtain c1 c2 where "cipher_final ssl True (aes_context st2) = (True, [], c1)"
    "get_tag ssl tag_len c1 = (Some (take tag_len (tag key nonce [] (concat pieces))), c2)"
    using gcm_libraryD(5) [OF assms(1) _ assms(4,5), of "aes_context st2" key nonce "[]" "concat pieces"] st2(2) by (auto simp: gcm_state_def)
  then show ?thesis
    using st1(1) st2 assms(5)
    by (auto simp: encrypt_text_def FinalizeCipher_def FinalizeGCM_def final_text_def cast_int_def gcm_state_def split: Mode.split)
qed

definition tag_differs :: exn where
  "tag_differs = Exn InvalidInputException ''Computed AES tag differs from read AES tag, are you using the right key?'' []"

lemma decrypt_gcm:
  assumes "gcm_library ssl at crypt tag" "gcm_key nonce key st" "list_all (\<lambda>d. length d < 2147483648) pieces"
    "0 < length t" "length t \<le> 16" "length aad < 2147483648" "length (concat pieces) \<le> gcm_limit"
  shows "decrypt_text ssl number nonce key aad pieces t st =
    (let text = crypt_from (crypt False key nonce) 0 (concat pieces)
     in if t = take (length t) (tag key nonce aad text) then Inr text else Inl tag_differs)"
proof -
  let ?text = "crypt_from (crypt False key nonce) 0 (concat pieces)"
  obtain st1 where st1: "InitializeDecryption ssl number nonce key aad st = (Inr (), st1)" "gcm_state at (False, key, nonce, aad, []) st1"
    using Initialize_gcm(2) [OF assms(1,2,6)] by blast
  obtain st2 where st2: "process_all ssl pieces st1 = (Inr ?text, st2)" "gcm_state at (False, key, nonce, aad, ?text) st2"
    using process_all_gcm [OF assms(1) st1(2) assms(3)] assms(7) by auto
  obtain c1 c2 where final: "set_tag ssl t (aes_context st2) = (True, c1)"
    "cipher_final ssl False c1 = (t = take (length t) (tag key nonce aad ?text), [], c2)"
    using gcm_libraryD(6) [OF assms(1) _ assms(4,5), of "aes_context st2" key nonce aad ?text] st2(2) by (auto simp: gcm_state_def)
  have mode: "aes_mode st2 = DECRYPT" "aes_cipher st2 = GCM" using st2(2) by (cases "aes_mode st2"; simp add: gcm_state_def)+
  show ?thesis
    using st1(1) st2(1) final mode assms(5)
    by (simp add: decrypt_text_def FinalizeCipher_def FinalizeGCM_def final_text_def cast_int_def ossl_def tag_differs_def Let_def)
qed

text \<open>
  C16: Encryption with AES-GCM is undone by decryption, in whatever pieces the texts are passed and whatever the two states were used
  for before, for keys, nonces and tags of the documented sizes. Without additional data a text is encrypted to one of its length with a
  tag, and with additional data every encryption throws, because the code adds them with the function for decryption. A text that is
  encrypted as AES-GCM defines it, with or without additional data, is decrypted with these data and its tag; with any other tag of that
  length the decryption throws, after the pieces were decrypted.
\<close>

theorem gcm_roundtrip:
  assumes "gcm_library ssl at crypt tag" "gcm_key nonce key st" "gcm_key nonce key st'"
    and "list_all (\<lambda>d. length d < 2147483648) pieces" "length (concat pieces) \<le> gcm_limit" "0 < tag_len" "tag_len \<le> 16"
    and "length aad < 2147483648"
    and "ciphertext = crypt_from (crypt True key nonce) 0 (concat pieces)"
    and "t = take tag_len (tag key nonce aad (concat pieces))"
  shows "encrypt_text ssl number nonce key aad pieces tag_len st = (if aad = [] then Inr (ciphertext, t) else Inl aad_refused) \<and>
    length ciphertext = length (concat pieces) \<and> length t = tag_len \<and>
    (\<forall>parts. concat parts = ciphertext \<and> list_all (\<lambda>d. length d < 2147483648) parts \<longrightarrow>
       decrypt_text ssl number nonce key aad parts t st' = Inr (concat pieces) \<and>
       (\<forall>other. length other = tag_len \<and> other \<noteq> t \<longrightarrow> decrypt_text ssl number nonce key aad parts other st' = Inl tag_differs))"
proof (intro conjI allI impI)
  show "encrypt_text ssl number nonce key aad pieces tag_len st = (if aad = [] then Inr (ciphertext, t) else Inl aad_refused)"
  proof (cases "aad = []")
    case True
    then show ?thesis using encrypt_gcm [OF assms(1,2,4,6,7,5), of number] by (simp add: assms(9,10))
  next
    case False
    then obtain st1 where "InitializeEncryption ssl number nonce key aad st = (Inl aad_refused, st1)"
      using Initialize_gcm(1) [OF assms(1,2,8), of number] by (metis prod.collapse)
    then show ?thesis using False by (simp add: encrypt_text_def)
  qed
  show len: "length t = tag_len" using gcm_libraryD(8) [OF assms(1), of key nonce aad "concat pieces"] assms(7) by (simp add: assms(10))
  show "length ciphertext = length (concat pieces)" by (simp add: assms(9))
  have plain: "crypt_from (crypt False key nonce) 0 ciphertext = concat pieces"
    unfolding assms(9) by (rule crypt_from_inverse) (rule gcm_libraryD(7) [OF assms(1)])
  fix parts assume parts: "concat parts = ciphertext \<and> list_all (\<lambda>d. length d < 2147483648) parts"
  have size: "length (concat parts) \<le> gcm_limit" using parts assms(5,9) by simp
  have dec: "decrypt_text ssl number nonce key aad parts x st' = (if x = take tag_len (tag key nonce aad (concat pieces))
      then Inr (concat pieces) else Inl tag_differs)" if "length x = tag_len" for x
    using decrypt_gcm [OF assms(1,3) conjunct2 [OF parts] _ _ assms(8) size, of x number] assms(6,7) that parts by (simp add: plain)
  show "decrypt_text ssl number nonce key aad parts t st' = Inr (concat pieces)" using dec [OF len] by (simp add: assms(10))
  fix other assume "length other = tag_len \<and> other \<noteq> t"
  then show "decrypt_text ssl number nonce key aad parts other st' = Inl tag_differs" using dec [of other] by (auto simp: assms(10))
qed

text \<open>A library that shifts bytes by the length of the key and the nonce, with a tag from the length of the text.\<close>

record toy_context =
  toy_key_len :: nat
  toy_point :: "gcm_point option"
  toy_tag :: string

definition toy_crypt :: "bool \<Rightarrow> string \<Rightarrow> string \<Rightarrow> nat \<Rightarrow> char \<Rightarrow> char" where
  "toy_crypt e key iv i x = (if odd i then x else char_of ((of_char x + (128 :: nat)) mod 256))"

definition toy_gcm_tag :: "string \<Rightarrow> string \<Rightarrow> string \<Rightarrow> string \<Rightarrow> string" where
  "toy_gcm_tag key iv a p = replicate 15 (char_of (length p mod 256)) @ [char_of (length a mod 256)]"

definition toy_ssl :: "toy_context openssl" where
  "toy_ssl =
     \<lparr>ctx_new = Some \<lparr>toy_key_len = 0, toy_point = None, toy_tag = []\<rparr>,
      set_cipher = (\<lambda>e cipher c. (True, c\<lparr>toy_point := None\<rparr>)),
      set_ivlen = (\<lambda>n c. (True, c)),
      set_key_iv = (\<lambda>e key iv c. (True, c\<lparr>toy_point := Some (e, key, iv, [], [])\<rparr>)),
      add_aad = (\<lambda>e aad c. case toy_point c of
          None \<Rightarrow> (False, c)
        | Some (e', key, iv, a, p) \<Rightarrow> if e' = e then (True, c\<lparr>toy_point := Some (e, key, iv, a @ aad, p)\<rparr>) else (False, c)),
      cipher_update = (\<lambda>e d c. case toy_point c of
          None \<Rightarrow> (None, c)
        | Some (e', key, iv, a, p) \<Rightarrow>
            let output = crypt_from (toy_crypt e' key iv) (length p) d
            in (Some output, c\<lparr>toy_point := Some (e', key, iv, a, p @ (if e' then d else output))\<rparr>)),
      cipher_final = (\<lambda>e c. case toy_point c of
          None \<Rightarrow> (False, [], c)
        | Some (e', key, iv, a, p) \<Rightarrow> (e' \<or> toy_tag c = take (length (toy_tag c)) (toy_gcm_tag key iv a p), [], c)),
      get_tag = (\<lambda>n c. case toy_point c of None \<Rightarrow> (None, c) | Some (e', key, iv, a, p) \<Rightarrow> (Some (take n (toy_gcm_tag key iv a p)), c)),
      set_tag = (\<lambda>t c. (True, c\<lparr>toy_tag := t\<rparr>))\<rparr>"

lemma toy_library: "gcm_library toy_ssl toy_point toy_crypt toy_gcm_tag"
  by (auto simp: gcm_library_def toy_ssl_def toy_gcm_tag_def toy_crypt_def Let_def mod_add_left_eq)

definition toy_state :: "toy_context AESState" where
  "toy_state = \<lparr>aes_context = \<lparr>toy_key_len = 0, toy_point = None, toy_tag = []\<rparr>, aes_cipher = GCM, aes_key_len = 16, aes_mode = DECRYPT\<rparr>"

theorem gcm_roundtrip_witness:
  "\<exists>ct t. encrypt_text toy_ssl (\<lambda>n. []) ''nonce'' (replicate 16 (CHR ''k'')) [] [''ab'', ''c''] 12 toy_state = Inr (ct, t) \<and>
    decrypt_text toy_ssl (\<lambda>n. []) ''nonce'' (replicate 16 (CHR ''k'')) [] [ct] t toy_state = Inr ''abc'' \<and>
    decrypt_text toy_ssl (\<lambda>n. []) ''nonce'' (replicate 16 (CHR ''k'')) [] [ct] (replicate 12 (CHR ''x'')) toy_state = Inl tag_differs \<and>
    encrypt_text toy_ssl (\<lambda>n. []) ''nonce'' (replicate 16 (CHR ''k'')) ''aad'' [''ab'', ''c''] 12 toy_state = Inl aad_refused"
proof -
  let ?k = "replicate 16 (CHR ''k'')"
  have key: "gcm_key ''nonce'' ?k toy_state" by (simp add: gcm_key_def toy_state_def)
  let ?ct = "crypt_from (toy_crypt True ?k ''nonce'') 0 (concat [''ab'', ''c''])"
  let ?t = "\<lambda>aad. take 12 (toy_gcm_tag ?k ''nonce'' aad (concat [''ab'', ''c'']))"
  have result: "encrypt_text toy_ssl (\<lambda>n. []) ''nonce'' ?k aad [''ab'', ''c''] 12 toy_state =
      (if aad = [] then Inr (?ct, ?t aad) else Inl aad_refused) \<and> length ?ct = length (concat [''ab'', ''c'']) \<and> length (?t aad) = 12 \<and>
    (\<forall>parts. concat parts = ?ct \<and> list_all (\<lambda>d. length d < 2147483648) parts \<longrightarrow>
       decrypt_text toy_ssl (\<lambda>n. []) ''nonce'' ?k aad parts (?t aad) toy_state = Inr (concat [''ab'', ''c'']) \<and>
       (\<forall>other. length other = 12 \<and> other \<noteq> ?t aad \<longrightarrow>
          decrypt_text toy_ssl (\<lambda>n. []) ''nonce'' ?k aad parts other toy_state = Inl tag_differs))"
    if "length aad < 2147483648" for aad
    by (rule gcm_roundtrip [OF toy_library key key _ _ _ _ that refl refl]) (simp_all add: gcm_limit_def)
  have "?t [] \<noteq> replicate 12 (CHR ''x'')" by code_simp
  then show ?thesis
    using result [of "[]"] result [of "''aad''"] spec [OF conjunct2 [OF conjunct2 [OF conjunct2 [OF result [of "[]"]]]], of "[?ct]"]
    by (intro exI [of _ ?ct] exI [of _ "?t []"]) auto
qed

end
