(* ===== verification/Http_Settings.thy ===== *)
theory Http_Settings
  imports Secrets
begin

text \<open>
  Settings (src/src/http/http_settings.cpp, src/src/s3/s3_settings.cpp and the environment of
  src/src/s3/s3_auth.cpp): the checks that run when a setting is set, the HTTP implementation that they replace, and the
  settings taken from the environment. Registering the settings with DuckDB is left out; a value that is \<open>None\<close> is NULL.
\<close>

section \<open>Checks of settings\<close>

text \<open>\<open>canonicalize\<close> is DuckDB's \<open>CanonicalizePath\<close>.\<close>

definition SetCACertFile :: "(string \<Rightarrow> string res) \<Rightarrow> string option \<Rightarrow> string res" where
  "SetCACertFile canonicalize parameter =
     (case parameter of
        None \<Rightarrow> Inl (Exn InvalidInputException ''NULL is not a valid option for ca_cert_file'' [])
      | Some v \<Rightarrow> if v = [] then Inr [] else canonicalize v)"

definition SetExtraHTTPHeaders :: "(string \<times> string option) list option \<Rightarrow> unit res" where
  "SetExtraHTTPHeaders parameter =
     (case parameter of
        None \<Rightarrow> Inl (Exn InvalidInputException ''NULL is not a valid option for extra_http_headers'' [])
      | Some entries \<Rightarrow>
          (case find (\<lambda>(k, v). v = None) entries of
             None \<Rightarrow> Inr ()
           | Some (k, v) \<Rightarrow>
               Inl (Exn InvalidInputException (''extra_http_headers value for '' @ [CHR 0x22] @ ''%s'' @ [CHR 0x22] @ '' must not be NULL'') [k])))"

datatype SetScope = SCOPE_LOCAL | SCOPE_SESSION | SCOPE_GLOBAL | SCOPE_AUTOMATIC

definition SetSchemeAliases :: "duckdb_api \<Rightarrow> SetScope \<Rightarrow> string option list option \<Rightarrow> string list res" where
  "SetSchemeAliases D scope parameter =
     (if scope = SCOPE_SESSION \<or> scope = SCOPE_LOCAL
      then Inl (Exn InvalidInputException ''s3_url_scheme_aliases can only be set globally'' [])
      else NormalizeSchemeAliases D parameter)"

section \<open>The HTTP implementation\<close>

text \<open>The one over curl has the flag whether it caches connections; \<open>Httplib_Util\<close> is any other one.\<close>

datatype http_implementation = Wasm_Util | Curl_Util bool | Httplib_Util

definition SetHTTPClientImplementation :: "string \<Rightarrow> http_implementation \<Rightarrow> http_implementation res" where
  "SetHTTPClientImplementation v http_util =
     (if http_util = Wasm_Util then
        (if v = ''wasm'' \<or> v = ''default'' then Inr http_util
         else Inl (Exn InvalidInputException (''Unsupported option for httpfs_client_implementation, only `wasm` and '' @
                ''`default` are currently supported for duckdb-wasm'') []))
      else if v = ''curl'' \<or> v = ''default'' then Inr (Curl_Util True)
      else if v = ''httplib'' then Inr Httplib_Util
      else Inl (Exn InvalidInputException (''Unsupported option for httpfs_client_implementation, only `curl`, `httplib` '' @
             ''and `default` are currently supported'') []))"

definition SetHTTPConnectionCaching :: "bool \<Rightarrow> http_implementation \<Rightarrow> http_implementation" where
  "SetHTTPConnectionCaching v http_util = (case http_util of Curl_Util b \<Rightarrow> Curl_Util v | _ \<Rightarrow> http_util)"

definition InitializeSettings :: "http_implementation \<Rightarrow> http_implementation" where
  "InitializeSettings http_util = (if http_util = Wasm_Util then http_util else Curl_Util True)"

text \<open>What is set, and the implementation; DuckDB stores a value when its check passed.\<close>

datatype set_command = SET_Implementation string | SET_Caching bool

record http_settings =
  caching_setting :: bool
  current_util :: http_implementation

fun apply_set :: "set_command \<Rightarrow> http_settings \<Rightarrow> http_settings" where
  "apply_set (SET_Implementation v) c =
     (case SetHTTPClientImplementation v (current_util c) of Inl e \<Rightarrow> c | Inr u \<Rightarrow> c\<lparr>current_util := u\<rparr>)"
| "apply_set (SET_Caching b) c = c\<lparr>caching_setting := b, current_util := SetHTTPConnectionCaching b (current_util c)\<rparr>"

definition settings_agree :: "http_settings \<Rightarrow> bool" where
  "settings_agree c \<longleftrightarrow> (\<forall>b. current_util c = Curl_Util b \<longrightarrow> b = caching_setting c)"

text \<open>The implementation follows the setting, as long as no implementation is chosen while caching is off.\<close>

lemma settings_followed:
  assumes "settings_agree c" "\<And>v. command = SET_Implementation v \<Longrightarrow> caching_setting c"
  shows "settings_agree (apply_set command c)"
  using assms
  by (cases command; cases "current_util c")
     (auto simp: settings_agree_def SetHTTPClientImplementation_def SetHTTPConnectionCaching_def split: sum.splits)

text \<open>Caching that was turned off is on again after the implementation is set, although the setting says it is off.\<close>

lemma caching_setting_lost:
  "\<not> settings_agree (fold apply_set [SET_Caching False, SET_Implementation ''curl''] \<lparr>caching_setting = True, current_util = Curl_Util True\<rparr>)"
  "\<not> settings_agree (fold apply_set [SET_Implementation ''httplib'', SET_Caching False, SET_Implementation ''default'']
      \<lparr>caching_setting = True, current_util = Curl_Util True\<rparr>)"
  by (auto simp: settings_agree_def SetHTTPClientImplementation_def SetHTTPConnectionCaching_def)

section \<open>The environment\<close>

definition SetExtensionOptionValue ::
  "duckdb_api \<Rightarrow> (string \<Rightarrow> string option) \<Rightarrow> string \<Rightarrow> string \<Rightarrow> (string \<Rightarrow> Value option) \<Rightarrow> (string \<Rightarrow> Value option)" where
  "SetExtensionOptionValue D environment key env_var config =
     (case environment env_var of
        None \<Rightarrow> config
      | Some v \<Rightarrow>
          config(key \<mapsto> (if Lower D v = ''false'' then V_BOOLEAN False
                           else if Lower D v = ''true'' then V_BOOLEAN True else V_VARCHAR v)))"

definition environment_settings :: "(string \<times> string) list" where
  "environment_settings =
     [(''s3_region'', ''AWS_DEFAULT_REGION''), (''s3_region'', ''AWS_REGION''), (''s3_access_key_id'', ''AWS_ACCESS_KEY_ID''),
      (''s3_secret_access_key'', ''AWS_SECRET_ACCESS_KEY''), (''s3_session_token'', ''AWS_SESSION_TOKEN''),
      (''s3_endpoint'', ''DUCKDB_S3_ENDPOINT''), (''s3_use_ssl'', ''DUCKDB_S3_USE_SSL''),
      (''s3_kms_key_id'', ''DUCKDB_S3_KMS_KEY_ID''), (''s3_requester_pays'', ''DUCKDB_S3_REQUESTER_PAYS'')]"

definition SetAll :: "duckdb_api \<Rightarrow> (string \<Rightarrow> string option) \<Rightarrow> (string \<Rightarrow> Value option) \<Rightarrow> (string \<Rightarrow> Value option)" where
  "SetAll D environment config =
     fold (\<lambda>(key, env_var). SetExtensionOptionValue D environment key env_var) environment_settings config"

text \<open>The region of the process wins over the default region, and settings without a variable stay as they are.\<close>

lemma SetExtensionOptionValue_other [simp]:
  "k \<noteq> key \<Longrightarrow> SetExtensionOptionValue D environment key env_var config k = config k"
  by (simp add: SetExtensionOptionValue_def split: option.split)

lemma SetAll_region:
  "environment ''AWS_REGION'' = Some v \<Longrightarrow>
    SetAll D environment config ''s3_region'' = SetExtensionOptionValue D environment ''s3_region'' ''AWS_REGION'' config ''s3_region''"
  by (simp add: SetAll_def environment_settings_def) (simp add: SetExtensionOptionValue_def)

lemma SetAll_unset:
  assumes "\<And>env_var. (k, env_var) \<in> set environment_settings \<Longrightarrow> environment env_var = None"
  shows "SetAll D environment config k = config k"
proof -
  have "fold (\<lambda>(key, env_var). SetExtensionOptionValue D environment key env_var) xs config k = config k"
    if "\<And>env_var. (k, env_var) \<in> set xs \<Longrightarrow> environment env_var = None" for xs
    using that
  proof (induction xs arbitrary: config)
    case (Cons x xs)
    obtain key env_var where x: "x = (key, env_var)" by (cases x)
    have "SetExtensionOptionValue D environment key env_var config k = config k"
      using Cons.prems [of env_var] by (cases "key = k") (auto simp: x SetExtensionOptionValue_def split: option.split)
    then show ?case using Cons.IH [of "SetExtensionOptionValue D environment key env_var config"] Cons.prems by (simp add: x)
  qed simp
  then show ?thesis unfolding SetAll_def using assms by blast
qed

end
