(* ===== verification/Spec2Isabelle.thy ===== *)
theory Spec2Isabelle
  imports Httpfs_Prelude Xml_Syntax Xml_Parser Xml_Invariants Xml_Response Xml_Writer Xml_Roundtrip
    Duckdb_Api S3_Provider S3_Url S3_Settings Http_Types S3_Request S3_Upload_State S3_Upload_Session
    S3_Upload_Invariants S3_Upload_Control S3_Upload_Parts S3_Upload_Progress S3_Upload_Correct S3_Headers
    Thread_Pool Http_Probe Http_Cached_File Http_Metadata Http_Range Http_Params Http_File Http_Read
    S3_Glob S3_Glob_Complete Hf_Files Hf_Listing Hf_Glob Http_Session S3_Session S3_Executor S3_Delete
    Http_Open Http_Open_Read Http_Curl Http_Curl_Get Http_Curl_Client Http_Curl_Reuse Http_Connection_Cache
    Http_Httplib Http_Httplib_Get Http_Connection_Share S3_Handle_Upload S3_Handle_Session S3_Handle Secrets Crypto Http_Settings
begin

text \<open>
  A development beside the DuckDB httpfs extension (src/src), which lets DuckDB read and write
  files over HTTP and in S3-compatible object stores. File names below are relative to src/src.

  \<^bold>\<open>The program.\<close> A path is routed to a file system: \<open>HTTPFileSystem\<close> (http/httpfs.cpp,
  http/http_request.cpp), \<open>S3FileSystem\<close> (s3/s3fs.cpp) or the Hugging Face one (hffs.cpp). Opening a handle finds the
  length of the file from a cache, a HEAD request or a probing range request. A handle
  reads its file by range requests; when the server does not support them it downloads the file once
  and shares it with the other handles of the query (http/http_state.cpp). The requests of a handle belong to a
  session (http/http_request_session.cpp), which leases HTTP clients and holds the parameters that a refresh of the
  credentials replaces. A client is one over libcurl (http/httpfs_curl_client.cpp), whose connections are cached
  (http/httpfs_connection_caching.cpp), or over httplib (http/httpfs_httplib_client.cpp). S3 adds providers and
  credentials (s3/s3_provider.cpp, s3/s3_auth.cpp), secrets (create_secret_functions.cpp), its URLs (s3/s3_url.cpp),
  signed requests with retries (s3/s3_request.cpp), listing and glob (s3/s3_list.cpp), bulk deletes (s3/s3_delete.cpp),
  the parsing and writing of XML documents (s3/s3_xml_response.cpp), and
  multipart uploads by concurrent writers (s3/s3_upload_session.cpp) under limits from the settings
  (s3/s3_settings.cpp). Beside them stand the encryption of DuckDB's files (crypto.cpp, hash_functions.cpp) and the
  settings of HTTP (http/http_settings.cpp).

  \<^bold>\<open>What is modelled where.\<close>
  \<^item> Httpfs_Prelude: errors (\<open>exn\<close>, \<open>'a res\<close>), results of a critical section (\<open>outcome\<close>), strings
    without regard to case. Duckdb_Api: what the code uses of \<open>StringUtil\<close> and of the header map of DuckDB,
    as records of functions with named laws, and one instance of each. Thread_Pool: threads that interleave on a
    shared state, and a locale for a token that at most one of them owns.
  \<^item> Xml_Syntax, Xml_Parser, Xml_Invariants: the pull parser of s3_xml_response.cpp, its namespaces, entities and
    nesting limit; Xml_Response: the readers of the responses; Xml_Writer, Xml_Roundtrip: the request
    documents, which the parser reads back.
  \<^item> S3_Provider: providers, scheme aliases and the derivation of the authentication parameters;
    S3_Url: bucket, key and query parameters of a URL; S3_Settings: limits of uploads and the search for the first part
    size; Secrets: S3 secrets from the options of \<open>CREATE SECRET\<close>, their refresh, the tokens of Hugging Face.
  \<^item> Http_Types, S3_Request: canonical queries and the retry loop of a request (\<open>S3RequestUtil::Run\<close>);
    S3_Headers: configured headers, the canonical request and its signature; S3_Session: the snapshot of the credentials
    of a session, its refresh and the change of its region; S3_Executor: \<open>RunSession\<close> and \<open>RunHandle\<close>, which join them.
  \<^item> S3_Upload_State: the operations on the state of an upload session that run under its lock;
    S3_Upload_Session: threads of \<open>Write\<close>, \<open>Finalize\<close> and \<open>Abort\<close> as a step relation whose steps are these
    critical sections and the requests between them. S3_Upload_Invariants, S3_Upload_Control, S3_Upload_Parts:
    the invariants; S3_Upload_Progress, S3_Upload_Correct: the properties.
  \<^item> S3_Handle_Upload: the claims of the threads of one handle on its upload session, and its destruction;
    S3_Handle_Session: these threads with every step that their calls of the session take;
    S3_Handle: how a handle of s3/s3fs.cpp is made, opened, written, finalized and aborted.
  \<^item> S3_Glob, S3_Glob_Complete: the matcher, pages of a listing and \<open>S3GlobResult\<close> of s3/s3_list.cpp;
    S3_Delete: the batches of s3/s3_delete.cpp; Hf_Files, Hf_Listing, Hf_Glob: URLs, JSON listings and glob of hffs.cpp.
  \<^item> Http_Probe (\<open>RangeRequestState\<close>) and Http_Cached_File (\<open>CachedFile\<close>): the states that handles share.
    Http_Metadata: the metadata cache, the state per path and the counters of a query.
  \<^item> Http_Range: the range request and the full request, with the handlers that the client calls back;
    Http_Params: their parameters from settings and secrets; Http_File: handles and reads, under a locale
    for the requests they make; Http_Read: the properties of reads, and a small server; Http_Open, Http_Open_Read: the
    opening of a handle in http/httpfs.cpp, with the functions that a subclass overrides as a record.
  \<^item> Http_Session: the snapshot and the leased clients of http/http_request_session.cpp. Http_Connection_Cache,
    Http_Connection_Share: the cache of connections, visit by visit, and threads that use it.
  \<^item> Http_Curl, Http_Curl_Get: the callbacks of a GET over libcurl; Http_Curl_Client, Http_Curl_Reuse: the
    options of a handle of libcurl and every request. Http_Httplib, Http_Httplib_Get: the same over httplib.
  \<^item> Crypto: ciphers and hash functions over OpenSSL. Http_Settings: the checks and effects of setting a setting, and
    the settings taken from the environment.

  \<^bold>\<open>What is shown.\<close> Uploads: a finalized upload stored exactly the bytes written; an upload that
  failed is aborted once and never when a request was left in doubt; every call of a handle returns, unless a write waits
  for earlier bytes that no write brings; parts keep the limits of S3; no thread uses the upload session of a handle after it was destroyed.
  Reads: whatever the server answers, a read that returns gives the bytes of the
  file and touches nothing outside its buffer; a server without ranges can still be read; an opened file reads as
  the file on the server; what a handle stores in the metadata cache opens the file again without a request.
  Clients: a GET over curl or httplib calls the handlers as one attempt, which is what the reads assume; a reused curl
  client sends what a new one sends; a client or connection has one owner at a time. Requests: the
  retry loop ends, credentials that were renewed are used, a refresh keeps the region of a redirect, canonical
  queries and headers have the order and encoding that the signature needs. Listings: a finished glob returned the
  matching keys, for names of directories that the code can handle (the properties say which); every path of a bulk delete is in one request, of at most 1000 keys. XML: the
  writer is inverted by the parser and nesting is bounded. Providers, URLs and secrets:
  aliases never take a reserved scheme, URLs split and join as documented, a refresh makes a secret again from the
  options that it stores. Encryption: what was encrypted is decrypted, a changed tag is refused, and encryption with additional data always throws.

  \<^bold>\<open>Conventions.\<close> 64-bit sizes are \<open>64 word\<close>, so that their wrap-around is that of the code; strings are
  lists of bytes; an exception is \<open>Inl\<close>; an access outside a buffer is a fault that the properties exclude.
  Loops that might run for ever are \<open>partial_function (option)\<close> or carry fuel: \<open>GrowLoop\<close> is shown to end;
  \<open>HFGlobLoop\<close> is shown to end on a finite repository (\<open>HFGlob_complete\<close>);
  \<open>FullDownload\<close> has fuel one, since its second round only happens when another thread finished the download; the loops of
  the XML parser consume input; the retry loop of \<open>Run\<close> is bounded by its attempts and the two redirects
  (\<open>Run_returns\<close>); the threads of a handle over its session have a rank that every step lowers
  (\<open>S3_Handle_Session\<close>). What runs under a lock is one step, and threads interleave between the steps.

  \<^bold>\<open>Parameters.\<close> DuckDB is a submodule whose directory is empty: \<open>StringUtil\<close>, \<open>HTTPHeaders\<close>, values,
  settings, the secret manager, allocators and \<open>HTTPUtil::SendRequest\<close> are arguments of the definitions, with laws as
  hypotheses where the code relies on them. So are libcurl, httplib, OpenSSL and utf8proc: the calls that libcurl makes
  in a transfer are a list, with its documented end of a transfer whose callback takes fewer bytes; the answer of httplib is
  the response, the pieces of its content and the outcome; of AES-GCM the inverse law, the check of the tag and the lengths it takes are
  assumed (\<open>gcm_library\<close>). Hash functions, clock and number formatting are uninterpreted.

  \<^bold>\<open>Not modelled.\<close> The entry point of the extension and the tables that register its settings, secret types and
  functions (names, descriptions and defaults); the wasm client (http/httpfs_client_wasm.cpp), which only throws; logging and
  warnings; the text of the profiling output; the floating-point estimates of network and backoff; the sleep before a retry;
  overrides that return a constant.
\<close>

end
